(* ===== verification/Prelude.thy ===== *)
theory Prelude
  imports Complex_Main
begin

text \<open>
  What every component shares: the exceptions of the program as values, the error monad in which
  a branch that raises is a value, transactions with rollback, time instants, and the Python string
  and number operations the source calls (strip, split, join, prefix tests, decimal digits).

  Strings are lists of code points below 256 (the type \<open>char\<close>): the whitespace and digit
  predicates are those of Python's \<open>str\<close> on that range.
\<close>

section \<open>Collections of hints\<close>

named_theorems guard_simps
  \<open>inversion of the error monad: when a guarded step returns, and with what\<close>
named_theorems store_simps
  \<open>what a table operation leaves at a key\<close>
named_theorems kernel_defs
  \<open>the row transitions of the scheduling kernel\<close>

section \<open>Exceptions as values\<close>

text \<open>
  One constructor for each exception class the modelled code raises; messages are left out, the codes of a
  \<open>StorageError\<close> and of a \<open>MetadataError\<close> are kept. An
  \<open>assert\<close> that fails is \<open>AssertionError\<close>.
\<close>

datatype pyerr =
    ValueError
  | LookupError
  | OverflowError
  | TypeError
  | AssertionError
  | IntegrityError
  | TaskSchedulingError
  | TaskQueueFull
  | AutomationQueueFull
  | TaskAdmissionConflict
  | TaskClaimFenceLost
  | TaskResultConflict
  | TaskControlRejected
  | TaskWorkerRejected
  | TaskSchedulingBypass
  | TaskSourceIdentityConflict
  | TaskSourceOwnedError
  | DiscoveryConflict
  | ConflictResolutionError
  | ClassificationErrorPolicyNotFound
  | ClassificationErrorPolicyDisabled
  | ClassificationErrorInvalidPolicy
  | ClassificationErrorInvalidRule
  | ClassificationErrorUnsafePath
  | PolicyDuplicateType
  | PolicyMissingType
  | PolicyTypeDisabled
  | PolicyInvalidReference
  | PolicyDisabled
  | NamingInvalidTemplate
  | NamingUnknownVariable
  | NamingMissingVariable
  | NamingInvalidFormat
  | NamingPolicyNotFound
  | NamingPolicyDisabled
  | NamingEmptyComponent
  | NamingUnsafePath
  | NamingComponentTooLong
  | NamingUnsupportedMediaType
  | PlanningError
  | StorageError string
  | MetadataError string
  | RuntimeError
  | RetryExhausted
  | RetryInterrupted

type_synonym 'a result = "pyerr + 'a"

text \<open>\<open>if bad: raise e\<close>, and sequencing of two steps either of which may raise.\<close>

definition raise_if :: "bool \<Rightarrow> pyerr \<Rightarrow> 'a result \<Rightarrow> 'a result" where
  "raise_if bad e k = (if bad then Inl e else k)"

definition bind_result :: "'a result \<Rightarrow> ('a \<Rightarrow> 'b result) \<Rightarrow> 'b result" where
  "bind_result m f = (case m of Inl e \<Rightarrow> Inl e | Inr x \<Rightarrow> f x)"

lemma raise_if_Inr [guard_simps]: "raise_if b e k = Inr x \<longleftrightarrow> \<not> b \<and> k = Inr x"
  by (simp add: raise_if_def)

lemma raise_if_Inl [guard_simps]: "raise_if b e k = Inl x \<longleftrightarrow> (b \<and> x = e) \<or> (\<not> b \<and> k = Inl x)"
  by (auto simp: raise_if_def)

lemma raise_if_simps [simp]: "raise_if True e k = Inl e" "raise_if False e k = k"
  by (simp_all add: raise_if_def)

lemma bind_result_Inr [guard_simps]:
  "bind_result m f = Inr x \<longleftrightarrow> (\<exists>y. m = Inr y \<and> f y = Inr x)"
  by (auto simp: bind_result_def split: sum.splits)

lemma bind_result_simps [simp]:
  "bind_result (Inl e) f = Inl e" "bind_result (Inr x) f = f x"
  by (simp_all add: bind_result_def)

lemma bind_result_cong [fundef_cong]:
  "m = m' \<Longrightarrow> (\<And>x. m' = Inr x \<Longrightarrow> f x = g x) \<Longrightarrow> bind_result m f = bind_result m' g"
  by (auto simp: bind_result_def split: sum.splits)

text \<open>A check over a list that stops at the first exception (a \<open>for\<close> loop with a \<open>raise\<close>).\<close>

fun check_all :: "('a \<Rightarrow> unit result) \<Rightarrow> 'a list \<Rightarrow> unit result" where
  "check_all c [] = Inr ()"
| "check_all c (x # xs) = bind_result (c x) (\<lambda>_. check_all c xs)"

lemma check_all_Inr [guard_simps]: "check_all c xs = Inr u \<longleftrightarrow> (\<forall>x \<in> set xs. c x = Inr ())"
  by (induction xs) (auto simp: guard_simps)

text \<open>The values of a loop whose steps may raise.\<close>

fun map_result :: "('a \<Rightarrow> 'b result) \<Rightarrow> 'a list \<Rightarrow> 'b list result" where
  "map_result f [] = Inr []"
| "map_result f (x # xs) = bind_result (f x) (\<lambda>y. bind_result (map_result f xs) (\<lambda>ys. Inr (y # ys)))"

lemma map_result_mem: "map_result f xs = Inr ys \<Longrightarrow> y \<in> set ys \<Longrightarrow> \<exists>x \<in> set xs. f x = Inr y"
  by (induction xs arbitrary: ys) (auto simp: guard_simps)

section \<open>Transactions\<close>

text \<open>
  A transaction body maps the database to an exception or to a value and the new database. Run
  under \<open>BEGIN IMMEDIATE\<close>, an exception rolls every write back (\<open>atomic\<close>). A method that
  runs several transactions is a \<open>tx\<close>: its earlier commits survive a later exception.
\<close>

type_synonym ('d, 'a) body = "'d \<Rightarrow> ('a \<times> 'd) result"
type_synonym ('d, 'a) tx = "'d \<Rightarrow> 'a result \<times> 'd"

definition atomic :: "('d, 'a) body \<Rightarrow> ('d, 'a) tx" where
  "atomic b d = (case b d of Inl e \<Rightarrow> (Inl e, d) | Inr (x, d') \<Rightarrow> (Inr x, d'))"

definition return_tx :: "'a result \<Rightarrow> ('d, 'a) tx" where
  "return_tx r d = (r, d)"

definition bind_tx :: "('d, 'a) tx \<Rightarrow> ('a \<Rightarrow> ('d, 'b) tx) \<Rightarrow> ('d, 'b) tx" where
  "bind_tx m f d = (case m d of (Inl e, d') \<Rightarrow> (Inl e, d') | (Inr x, d') \<Rightarrow> f x d')"

definition read_tx :: "('d \<Rightarrow> 'a result) \<Rightarrow> ('d, 'a) tx" where
  "read_tx f d = (f d, d)"

lemma atomic_rollback: "b d = Inl e \<Longrightarrow> atomic b d = (Inl e, d)"
  by (simp add: atomic_def)

lemma atomic_cases:
  "atomic b d = (r, d') \<Longrightarrow>
    (\<exists>e. r = Inl e \<and> d' = d \<and> b d = Inl e) \<or> (\<exists>x. r = Inr x \<and> b d = Inr (x, d'))"
  by (auto simp: atomic_def split: sum.splits)

lemma bind_tx_Inr [guard_simps]:
  "bind_tx m f d = (Inr x, d') \<longleftrightarrow> (\<exists>y e. m d = (Inr y, e) \<and> f y e = (Inr x, d'))"
  by (auto simp: bind_tx_def split: prod.splits sum.splits)

lemma bind_tx_Inl [guard_simps]:
  "bind_tx m f d = (Inl x, d') \<longleftrightarrow> m d = (Inl x, d') \<or> (\<exists>y e. m d = (Inr y, e) \<and> f y e = (Inl x, d'))"
  by (auto simp: bind_tx_def split: prod.splits sum.splits)

lemma return_tx_eq [guard_simps]: "return_tx r d = (x, d') \<longleftrightarrow> x = r \<and> d' = d"
  by (auto simp: return_tx_def)

lemma read_tx_eq [guard_simps]: "read_tx f d = (x, d') \<longleftrightarrow> x = f d \<and> d' = d"
  by (auto simp: read_tx_def)

lemma atomic_Inr [guard_simps]: "atomic b d = (Inr x, d') \<longleftrightarrow> b d = Inr (x, d')"
  by (auto simp: atomic_def split: sum.splits)

lemma atomic_Inl [guard_simps]: "atomic b d = (Inl e, d') \<longleftrightarrow> b d = Inl e \<and> d' = d"
  by (auto simp: atomic_def split: sum.splits)

section \<open>Instants\<close>

text \<open>
  An instant is a number of microseconds since the epoch in UTC. The program stores instants as
  ISO text written from UTC datetimes, whose text order is the order of the instants. A datetime
  argument may lack a timezone; the \<open>tzinfo is None\<close> guards refuse that one.
\<close>

type_synonym instant = int

datatype datetime = Naive int | Aware instant

fun require_aware :: "datetime \<Rightarrow> instant result" where
  "require_aware (Aware t) = Inr t"
| "require_aware (Naive t) = Inl ValueError"

fun require_aware_opt :: "datetime option \<Rightarrow> instant option result" where
  "require_aware_opt None = Inr None"
| "require_aware_opt (Some (Aware t)) = Inr (Some t)"
| "require_aware_opt (Some (Naive t)) = Inl ValueError"

lemma require_aware_Inr [guard_simps]: "require_aware d = Inr t \<longleftrightarrow> d = Aware t"
  by (cases d) auto

section \<open>Numbers\<close>

text \<open>A Python number as it arrives in an untyped parameter; a float is its rational value.\<close>

datatype pynum = PyBool bool | PyInt int | PyFloat rat | NotNumber

text \<open>\<open>timedelta(seconds=x)\<close>: whole microseconds, ties to even.\<close>

definition round_half_even :: "rat \<Rightarrow> int" where
  "round_half_even x =
     (let f = \<lfloor>x\<rfloor>; d = x - of_int f in
      if d < 1 / 2 then f else if d > 1 / 2 then f + 1 else if even f then f else f + 1)"

definition seconds_to_us :: "rat \<Rightarrow> int" where
  "seconds_to_us s = round_half_even (s * 1000000)"

lemma round_half_even_nonneg: "0 \<le> x \<Longrightarrow> 0 \<le> round_half_even x"
proof -
  assume "0 \<le> x"
  then have "0 \<le> \<lfloor>x\<rfloor>" by simp
  then show ?thesis by (simp add: round_half_even_def Let_def)
qed

lemma seconds_to_us_nonneg: "0 \<le> s \<Longrightarrow> 0 \<le> seconds_to_us s"
  by (simp add: seconds_to_us_def round_half_even_nonneg)

section \<open>Strings\<close>

definition code :: "char \<Rightarrow> nat" where
  "code c = of_char c"

definition py_space :: "char \<Rightarrow> bool" where
  "py_space c = (let n = code c in (9 \<le> n \<and> n \<le> 13) \<or> (28 \<le> n \<and> n \<le> 32) \<or> n = 133 \<or> n = 160)"

definition ascii_digit :: "char \<Rightarrow> bool" where
  "ascii_digit c = (48 \<le> code c \<and> code c \<le> 57)"

text \<open>\<open>str.isdigit\<close> of one character: the superscripts 1, 2, 3 count, though \<open>int\<close> refuses them.\<close>

definition py_digit :: "char \<Rightarrow> bool" where
  "py_digit c = (ascii_digit c \<or> code c \<in> {178, 179, 185})"

definition py_isdigit :: "string \<Rightarrow> bool" where
  "py_isdigit s = (s \<noteq> [] \<and> list_all py_digit s)"

fun digits_value :: "nat \<Rightarrow> string \<Rightarrow> nat" where
  "digits_value acc [] = acc"
| "digits_value acc (c # cs) = digits_value (10 * acc + (code c - 48)) cs"

text \<open>\<open>int(s)\<close> of a string that passed \<open>isdigit\<close>.\<close>

definition py_int :: "string \<Rightarrow> nat result" where
  "py_int s = (if s \<noteq> [] \<and> list_all ascii_digit s then Inr (digits_value 0 s) else Inl ValueError)"

definition strip :: "string \<Rightarrow> string" where
  "strip s = rev (dropWhile py_space (rev (dropWhile py_space s)))"

fun split_on :: "char \<Rightarrow> string \<Rightarrow> string list" where
  "split_on c [] = [[]]"
| "split_on c (x # xs) =
     (if x = c then [] # split_on c xs
      else (case split_on c xs of [] \<Rightarrow> [[x]] | y # ys \<Rightarrow> (x # y) # ys))"

fun join_with :: "string \<Rightarrow> string list \<Rightarrow> string" where
  "join_with sep [] = []"
| "join_with sep [x] = x"
| "join_with sep (x # y # ys) = x @ sep @ join_with sep (y # ys)"

text \<open>\<open>s.split()\<close>: the maximal runs of characters that are not whitespace.\<close>

fun words_from :: "string \<Rightarrow> string \<Rightarrow> string list" where
  "words_from cur [] = (if cur = [] then [] else [rev cur])"
| "words_from cur (c # cs) =
     (if py_space c then (if cur = [] then [] else [rev cur]) @ words_from [] cs
      else words_from (c # cur) cs)"

definition split_ws :: "string \<Rightarrow> string list" where
  "split_ws s = words_from [] s"

definition starts_with :: "string \<Rightarrow> string \<Rightarrow> bool" where
  "starts_with p s = (take (length p) s = p)"

definition replace_char :: "char \<Rightarrow> char \<Rightarrow> string \<Rightarrow> string" where
  "replace_char a b s = map (\<lambda>c. if c = a then b else c) s"

text \<open>\<open>str(n)\<close> of an integer.\<close>

fun show_nat :: "nat \<Rightarrow> string" where
  "show_nat n = (if n < 10 then [char_of (48 + n)] else show_nat (n div 10) @ [char_of (48 + n mod 10)])"

declare show_nat.simps [simp del]

definition show_int :: "int \<Rightarrow> string" where
  "show_int i = (if i < 0 then ''-'' @ show_nat (nat (- i)) else show_nat (nat i))"

text \<open>The binary collation of text columns.\<close>

fun text_le :: "string \<Rightarrow> string \<Rightarrow> bool" where
  "text_le [] t = True"
| "text_le (c # s) [] = False"
| "text_le (c # s) (d # t) = (code c < code d \<or> (code c = code d \<and> text_le s t))"

lemma text_le_refl [simp]: "text_le s s"
  by (induction s) auto

lemma text_le_trans: "text_le s t \<Longrightarrow> text_le t u \<Longrightarrow> text_le s u"
proof (induction s t arbitrary: u rule: text_le.induct)
  case (3 c s d t)
  then show ?case by (cases u) auto
qed auto

lemma text_le_total: "text_le s t \<or> text_le t s"
  by (induction s t rule: text_le.induct) auto

lemma length_dropWhile_le: "length (dropWhile P xs) \<le> length xs"
  by (induction xs) auto

lemma length_strip_le: "length (strip s) \<le> length s"
  using length_dropWhile_le [of py_space s]
    length_dropWhile_le [of py_space "rev (dropWhile py_space s)"]
  by (simp add: strip_def)

lemma hd_dropWhile_not: "dropWhile P xs \<noteq> [] \<Longrightarrow> \<not> P (hd (dropWhile P xs))"
  by (induction xs) auto

lemma dropWhile_last: "dropWhile P xs \<noteq> [] \<Longrightarrow> last (dropWhile P xs) = last xs"
  by (induction xs) (auto split: if_splits)

lemma strip_fixed:
  assumes "s = [] \<or> (\<not> py_space (hd s) \<and> \<not> py_space (last s))"
  shows "strip s = s"
proof (cases "s = []")
  case True
  then show ?thesis by (simp add: strip_def)
next
  case False
  with assms have h: "\<not> py_space (hd s)" and l: "\<not> py_space (last s)" by auto
  from False h have d: "dropWhile py_space s = s" by (cases s) auto
  have "dropWhile py_space (rev s) = rev s"
    using False l by (cases "rev s") (auto simp: hd_rev [symmetric])
  with d show ?thesis by (simp add: strip_def)
qed

lemma strip_ends:
  assumes "strip s \<noteq> []"
  shows "\<not> py_space (hd (strip s)) \<and> \<not> py_space (last (strip s))"
proof -
  let ?a = "dropWhile py_space s"
  let ?b = "dropWhile py_space (rev ?a)"
  have b: "?b \<noteq> []" using assms by (simp add: strip_def)
  then have a: "?a \<noteq> []" by (auto simp del: dropWhile_eq_Nil_conv)
  have "\<not> py_space (hd ?b)" by (rule hd_dropWhile_not [OF b])
  moreover have "last ?b = hd ?a" using dropWhile_last [OF b] a by (simp add: last_rev)
  moreover have "\<not> py_space (hd ?a)" by (rule hd_dropWhile_not [OF a])
  ultimately show ?thesis using b by (simp add: strip_def hd_rev last_rev)
qed

lemma strip_idem [simp]: "strip (strip s) = strip s"
  using strip_ends strip_fixed by blast

lemma split_on_nonempty [simp]: "split_on c s \<noteq> []"
  by (induction s) (auto split: list.splits)

lemma join_split: "join_with [c] (split_on c s) = s"
proof (induction s)
  case Nil
  show ?case by simp
next
  case (Cons x xs)
  obtain y ys where s: "split_on c xs = y # ys"
    by (cases "split_on c xs") auto
  show ?case using Cons s by (cases ys) auto
qed

lemma split_on_no_sep: "p \<in> set (split_on c s) \<Longrightarrow> c \<notin> set p"
proof (induction s arbitrary: p)
  case Nil
  then show ?case by simp
next
  case (Cons x xs)
  obtain y ys where s: "split_on c xs = y # ys"
    by (cases "split_on c xs") auto
  show ?case using Cons s by (auto split: if_splits)
qed

lemma split_on_simple: "c \<notin> set s \<Longrightarrow> split_on c s = [s]"
  by (induction s) auto

lemma split_on_append: "c \<notin> set p \<Longrightarrow> split_on c (p @ c # s) = p # split_on c s"
  by (induction p) auto

lemma split_join:
  "ps \<noteq> [] \<Longrightarrow> \<forall>p \<in> set ps. c \<notin> set p \<Longrightarrow> split_on c (join_with [c] ps) = ps"
proof (induction "[c]" ps rule: join_with.induct)
  case 1
  then show ?case by simp
next
  case (2 x)
  then show ?case by (simp add: split_on_simple)
next
  case (3 x y ys)
  then show ?case by (simp add: split_on_append)
qed

end
