(* ===== verification/Tables.thy ===== *)
theory Tables
  imports Prelude "HOL-Library.Multiset"
begin

text \<open>
  SQL tables as lists of rows with a primary key, and the four statements the repository uses on
  them: SELECT by key, UPDATE ... WHERE, INSERT (an \<open>IntegrityError\<close> on a duplicate key) and
  DELETE ... WHERE. The locale \<open>table_store\<close> is the interface of one table inside a database
  record: what a lookup returns after a write, proved once and interpreted on every table.
\<close>

section \<open>Statements\<close>

fun find_row :: "('r \<Rightarrow> 'k) \<Rightarrow> 'k \<Rightarrow> 'r list \<Rightarrow> 'r option" where
  "find_row key k [] = None"
| "find_row key k (r # rs) = (if key r = k then Some r else find_row key k rs)"

definition update_rows :: "('r \<Rightarrow> bool) \<Rightarrow> ('r \<Rightarrow> 'r) \<Rightarrow> 'r list \<Rightarrow> 'r list" where
  "update_rows P f rs = map (\<lambda>r. if P r then f r else r) rs"

definition row_count :: "('r \<Rightarrow> bool) \<Rightarrow> 'r list \<Rightarrow> nat" where
  "row_count P rs = length (filter P rs)"

definition insert_row :: "('r \<Rightarrow> 'k) \<Rightarrow> 'r \<Rightarrow> 'r list \<Rightarrow> 'r list result" where
  "insert_row key r rs =
     (if find_row key (key r) rs = None then Inr (rs @ [r]) else Inl IntegrityError)"

definition delete_rows :: "('r \<Rightarrow> bool) \<Rightarrow> 'r list \<Rightarrow> 'r list" where
  "delete_rows P rs = filter (\<lambda>r. \<not> P r) rs"

text \<open>INSERT ... ON CONFLICT(key) DO UPDATE: \<open>merge old new\<close> is the updated row.\<close>

definition upsert_row :: "('r \<Rightarrow> 'k) \<Rightarrow> ('r \<Rightarrow> 'r \<Rightarrow> 'r) \<Rightarrow> 'r \<Rightarrow> 'r list \<Rightarrow> 'r list" where
  "upsert_row key merge r rs =
     (if find_row key (key r) rs = None then rs @ [r]
      else update_rows (\<lambda>old. key old = key r) (\<lambda>old. merge old r) rs)"

definition distinct_rows :: "('r \<Rightarrow> 'k) \<Rightarrow> 'r list \<Rightarrow> bool" where
  "distinct_rows key rs = distinct (map key rs)"

text \<open>ORDER BY under a total preorder, with and without LIMIT 1.\<close>

fun least_row :: "('r \<Rightarrow> 'r \<Rightarrow> bool) \<Rightarrow> 'r list \<Rightarrow> 'r option" where
  "least_row le [] = None"
| "least_row le (r # rs) =
     (case least_row le rs of None \<Rightarrow> Some r | Some q \<Rightarrow> if le r q then Some r else Some q)"

fun insert_ordered :: "('r \<Rightarrow> 'r \<Rightarrow> bool) \<Rightarrow> 'r \<Rightarrow> 'r list \<Rightarrow> 'r list" where
  "insert_ordered le r [] = [r]"
| "insert_ordered le r (q # qs) = (if le r q then r # q # qs else q # insert_ordered le r qs)"

definition order_rows :: "('r \<Rightarrow> 'r \<Rightarrow> bool) \<Rightarrow> 'r list \<Rightarrow> 'r list" where
  "order_rows le rs = foldr (insert_ordered le) rs []"

lemma least_row_None [simp]: "least_row le rs = None \<longleftrightarrow> rs = []"
  by (cases rs) (auto split: option.splits)

lemma least_row_mem: "least_row le rs = Some r \<Longrightarrow> r \<in> set rs"
  by (induction rs arbitrary: r) (auto split: option.splits if_splits)

lemma least_row_least:
  assumes tot: "\<And>a b. le a b \<or> le b a" and tr: "\<And>a b c. le a b \<Longrightarrow> le b c \<Longrightarrow> le a c"
  shows "least_row le rs = Some r \<Longrightarrow> q \<in> set rs \<Longrightarrow> le r q"
proof (induction rs arbitrary: r q)
  case Nil
  then show ?case by simp
next
  case (Cons a rs)
  have refl: "le x x" for x using tot by blast
  show ?case
  proof (cases "least_row le rs")
    case None
    with Cons.prems refl show ?thesis by auto
  next
    case (Some m)
    have m: "\<And>x. x \<in> set rs \<Longrightarrow> le m x" using Cons.IH [OF Some] .
    show ?thesis
    proof (cases "le a m")
      case True
      with Some Cons.prems(1) have "r = a" by simp
      with Cons.prems(2) m True refl tr show ?thesis by (auto intro: tr)
    next
      case False
      with Some Cons.prems(1) have r: "r = m" by simp
      with False tot have "le m a" by blast
      with Cons.prems(2) m r show ?thesis by auto
    qed
  qed
qed

lemma set_order_rows [simp]: "set (order_rows le rs) = set rs"
proof -
  have ins: "set (insert_ordered le r qs) = insert r (set qs)" for r qs
    by (induction qs) auto
  show ?thesis by (induction rs) (auto simp: order_rows_def ins)
qed

lemma mset_order_rows: "mset (order_rows le rs) = mset rs"
proof -
  have ins: "mset (insert_ordered le r qs) = add_mset r (mset qs)" for r qs
    by (induction qs) auto
  show ?thesis by (induction rs) (auto simp: order_rows_def ins)
qed

lemma distinct_order_rows: "distinct (map key (order_rows le rs)) = distinct (map key rs)"
proof -
  have "mset (map key (order_rows le rs)) = mset (map key rs)" by (simp add: mset_order_rows)
  then show ?thesis by (rule mset_eq_imp_distinct_iff)
qed

lemma sorted_order_rows:
  assumes total: "\<And>a b. le a b \<or> le b a" and trans: "\<And>a b c. le a b \<Longrightarrow> le b c \<Longrightarrow> le a c"
  shows "sorted_wrt le (order_rows le rs)"
proof -
  have mem: "x \<in> set (insert_ordered le r qs) \<Longrightarrow> x = r \<or> x \<in> set qs" for x r qs
    by (induction qs) (auto split: if_splits)
  have ins: "sorted_wrt le qs \<Longrightarrow> sorted_wrt le (insert_ordered le r qs)" for r qs
  proof (induction qs)
    case (Cons q qs)
    then show ?case using total [of r q] trans by (auto dest!: mem)
  qed simp
  show ?thesis by (induction rs) (auto simp: order_rows_def ins)
qed

section \<open>Laws of the statements\<close>

lemma find_row_key: "find_row key k rs = Some r \<Longrightarrow> key r = k \<and> r \<in> set rs"
  by (induction rs) (auto split: if_splits)

lemma find_row_None: "find_row key k rs = None \<longleftrightarrow> k \<notin> key ` set rs"
  by (induction rs) auto

lemma find_row_mem:
  "distinct_rows key rs \<Longrightarrow> r \<in> set rs \<Longrightarrow> find_row key (key r) rs = Some r"
  by (induction rs) (auto simp: distinct_rows_def image_iff)

lemma find_row_append:
  "find_row key k (rs @ ss) = (case find_row key k rs of None \<Rightarrow> find_row key k ss | Some r \<Rightarrow> Some r)"
  by (induction rs) auto

lemma find_row_update [store_simps]:
  assumes "\<And>r. P r \<Longrightarrow> key (f r) = key r"
  shows "find_row key k (update_rows P f rs) =
    map_option (\<lambda>r. if P r then f r else r) (find_row key k rs)"
  using assms by (induction rs) (auto simp: update_rows_def)

lemma find_row_delete [store_simps]:
  assumes "distinct_rows key rs"
  shows "find_row key k (delete_rows P rs) =
    (case find_row key k rs of None \<Rightarrow> None | Some r \<Rightarrow> if P r then None else Some r)"
  using assms
proof (induction rs)
  case Nil
  then show ?case by (simp add: delete_rows_def)
next
  case (Cons a rs)
  then have IH: "find_row key k (delete_rows P rs) =
      (case find_row key k rs of None \<Rightarrow> None | Some r \<Rightarrow> if P r then None else Some r)"
    and fresh: "key a \<notin> key ` set rs"
    by (auto simp: distinct_rows_def)
  show ?case
  proof (cases "key a = k")
    case True
    with fresh have "find_row key k rs = None" by (simp add: find_row_None)
    with IH True show ?thesis by (simp add: delete_rows_def)
  next
    case False
    with IH show ?thesis by (simp add: delete_rows_def)
  qed
qed

lemma insert_row_Inr [guard_simps]:
  "insert_row key r rs = Inr rs' \<longleftrightarrow> find_row key (key r) rs = None \<and> rs' = rs @ [r]"
  by (auto simp: insert_row_def)

lemma find_row_upsert [store_simps]:
  assumes "\<And>old. key old = key r \<Longrightarrow> key (merge old r) = key r"
  shows "find_row key k (upsert_row key merge r rs) =
    (if k = key r
     then Some (case find_row key k rs of None \<Rightarrow> r | Some old \<Rightarrow> merge old r)
     else find_row key k rs)"
proof (cases "find_row key (key r) rs")
  case None
  then show ?thesis
    by (auto simp: upsert_row_def find_row_append split: option.splits)
next
  case (Some a)
  have u: "find_row key k (upsert_row key merge r rs) =
      map_option (\<lambda>x. if key x = key r then merge x r else x) (find_row key k rs)"
    using Some assms find_row_update [of "\<lambda>old. key old = key r" key "\<lambda>old. merge old r" k rs]
    by (simp add: upsert_row_def)
  show ?thesis
    using Some by (cases "find_row key k rs") (auto simp: u dest: find_row_key)
qed

lemma distinct_update [store_simps]:
  assumes "\<And>r. P r \<Longrightarrow> key (f r) = key r"
  shows "distinct_rows key (update_rows P f rs) = distinct_rows key rs"
proof -
  have "map key (update_rows P f rs) = map key rs"
    using assms by (simp add: update_rows_def)
  then show ?thesis by (simp add: distinct_rows_def)
qed

lemma distinct_insert: "insert_row key r rs = Inr rs' \<Longrightarrow> distinct_rows key rs \<Longrightarrow> distinct_rows key rs'"
  by (auto simp: guard_simps distinct_rows_def find_row_None)

lemma distinct_delete: "distinct_rows key rs \<Longrightarrow> distinct_rows key (delete_rows P rs)"
  by (induction rs) (auto simp: distinct_rows_def delete_rows_def)

lemma distinct_upsert:
  assumes "\<And>old. key old = key r \<Longrightarrow> key (merge old r) = key r" "distinct_rows key rs"
  shows "distinct_rows key (upsert_row key merge r rs)"
proof (cases "find_row key (key r) rs")
  case None
  with assms(2) show ?thesis
    by (auto simp: upsert_row_def distinct_rows_def find_row_None)
next
  case (Some a)
  with assms distinct_update [of "\<lambda>old. key old = key r" key "\<lambda>old. merge old r" rs]
  show ?thesis by (simp add: upsert_row_def)
qed

lemma row_count_append [simp]: "row_count P (rs @ ss) = row_count P rs + row_count P ss"
  by (simp add: row_count_def)

lemma row_count_Cons [simp]: "row_count P (r # rs) = (if P r then 1 else 0) + row_count P rs"
  by (simp add: row_count_def)

lemma row_count_Nil [simp]: "row_count P [] = 0"
  by (simp add: row_count_def)

lemma row_count_update_mono:
  assumes "\<And>r. U r \<Longrightarrow> P (f r) \<Longrightarrow> P r"
  shows "row_count P (update_rows U f rs) \<le> row_count P rs"
  using assms by (induction rs) (auto simp: update_rows_def)

lemma row_count_none: "(\<And>r. r \<in> set rs \<Longrightarrow> \<not> P r) \<Longrightarrow> row_count P rs = 0"
  by (induction rs) auto

text \<open>An update of one row by its key changes a count by at most one.\<close>

lemma row_count_update_one:
  assumes "distinct_rows key rs"
  shows "row_count P (update_rows (\<lambda>r. key r = k) f rs) \<le> Suc (row_count P rs)"
  using assms
proof (induction rs)
  case Nil
  then show ?case by (simp add: update_rows_def)
next
  case (Cons a rs)
  then have IH: "row_count P (update_rows (\<lambda>r. key r = k) f rs) \<le> Suc (row_count P rs)"
    and fresh: "key a \<notin> key ` set rs"
    by (auto simp: distinct_rows_def)
  show ?case
  proof (cases "key a = k")
    case True
    with fresh have "update_rows (\<lambda>r. key r = k) f rs = rs"
      unfolding update_rows_def by (intro map_idI) (metis image_eqI)
    with True show ?thesis by (simp add: update_rows_def)
  next
    case False
    with IH show ?thesis by (simp add: update_rows_def)
  qed
qed

section \<open>The interface of one table of a database\<close>

locale table_store =
  fixes rows :: "'d \<Rightarrow> 'r list"
    and put :: "'r list \<Rightarrow> 'd \<Rightarrow> 'd"
    and key :: "'r \<Rightarrow> 'k"
  assumes rows_put: "rows (put rs d) = rs"
    and put_put: "put rs (put ss d) = put rs d"
    and put_rows: "put (rows d) d = d"
begin

lemma lookup_after_update:
  assumes "\<And>r. key (f r) = key r"
  shows "find_row key k (rows (put (update_rows (\<lambda>r. key r = j) f (rows d)) d)) =
    (if k = j then map_option f (find_row key k (rows d)) else find_row key k (rows d))"
proof (cases "find_row key k (rows d)")
  case None
  with assms show ?thesis by (auto simp: rows_put find_row_update)
next
  case (Some r)
  then have "key r = k" using find_row_key by metis
  with assms Some show ?thesis by (auto simp: rows_put find_row_update)
qed

lemma lookup_after_insert:
  assumes "insert_row key r (rows d) = Inr rs"
  shows "find_row key k (rows (put rs d)) =
    (if k = key r then Some r else find_row key k (rows d))"
  using assms by (auto simp: guard_simps rows_put find_row_append split: option.splits)

lemma lookup_after_upsert:
  assumes "\<And>old. key old = key r \<Longrightarrow> key (merge old r) = key r"
  shows "find_row key k (rows (put (upsert_row key merge r (rows d)) d)) =
    (if k = key r
     then Some (case find_row key k (rows d) of None \<Rightarrow> r | Some old \<Rightarrow> merge old r)
     else find_row key k (rows d))"
  using find_row_upsert [of key r merge k "rows d"] assms by (simp add: rows_put)

lemma lookup_after_delete:
  assumes "distinct_rows key (rows d)" "find_row key k (rows d) = Some r" "\<not> P r"
  shows "find_row key k (rows (put (delete_rows P (rows d)) d)) = Some r"
  using assms by (simp add: rows_put find_row_delete)

end

end
