(* ===== verification/Regex.thy ===== *)
theory Regex
  imports Prelude
begin

text \<open>
  The part of Python's \<open>re\<close> the program uses: greedy backtracking over character classes,
  sequence, alternation, repetition, word boundaries and a one-character look-behind.
  \<open>match_ends r s i\<close> lists the ends of the matches of \<open>r\<close> that start at \<open>i\<close> in the order the
  backtracking matcher tries them, so its first element is the match \<open>re\<close> returns.
\<close>

section \<open>Patterns and matches\<close>

datatype re =
    Eps
  | Cls "char \<Rightarrow> bool"
  | Cat re re
  | Alt re re
  | Star re
  | WordBoundary
  | NotWordBehind
  | StartOfText

text \<open>Python's \<open>\w\<close> on code points below 256.\<close>

definition word_char :: "char \<Rightarrow> bool" where
  "word_char c = (let n = code c in
     (48 \<le> n \<and> n \<le> 57) \<or> (65 \<le> n \<and> n \<le> 90) \<or> n = 95 \<or> (97 \<le> n \<and> n \<le> 122) \<or>
     n \<in> {170, 178, 179, 181, 185, 186, 188, 189, 190} \<or>
     (192 \<le> n \<and> n \<noteq> 215 \<and> n \<noteq> 247))"

definition word_at :: "string \<Rightarrow> nat \<Rightarrow> bool" where
  "word_at s i = (i < length s \<and> word_char (s ! i))"

definition word_before :: "string \<Rightarrow> nat \<Rightarrow> bool" where
  "word_before s i = (0 < i \<and> word_at s (i - 1))"

function match_ends :: "re \<Rightarrow> string \<Rightarrow> nat \<Rightarrow> nat list" where
  "match_ends Eps s i = [i]"
| "match_ends (Cls p) s i = (if i < length s \<and> p (s ! i) then [Suc i] else [])"
| "match_ends (Cat a b) s i = concat (map (match_ends b s) (match_ends a s i))"
| "match_ends (Alt a b) s i = match_ends a s i @ match_ends b s i"
| "match_ends (Star a) s i =
     concat (map (\<lambda>j. if i < j \<and> j \<le> length s then match_ends (Star a) s j else [])
       (match_ends a s i)) @ [i]"
| "match_ends WordBoundary s i = (if word_before s i \<noteq> word_at s i then [i] else [])"
| "match_ends NotWordBehind s i = (if word_before s i then [] else [i])"
| "match_ends StartOfText s i = (if i = 0 then [i] else [])"
  by pat_completeness auto
termination
  by (relation "measures [\<lambda>(r, s, i). size r, \<lambda>(r, s, i). length s - i]") auto

declare match_ends.simps(5) [simp del]

lemma match_ends_bounds: "j \<in> set (match_ends r s i) \<Longrightarrow> i \<le> length s \<Longrightarrow> i \<le> j \<and> j \<le> length s"
proof (induction r s i arbitrary: j rule: match_ends.induct)
  case (3 a b s i)
  then obtain m where m: "m \<in> set (match_ends a s i)" "j \<in> set (match_ends b s m)" by auto
  have b: "i \<le> m" "m \<le> length s" using "3.IH"(1) [OF m(1) "3.prems"(2)] by auto
  have "m \<le> j \<and> j \<le> length s" by (rule "3.IH"(2) [OF m b(2)])
  with b show ?case by simp
next
  case (5 a s i)
  show ?case
  proof (cases "j = i")
    case True
    with "5.prems"(2) show ?thesis by simp
  next
    case False
    with "5.prems"(1) obtain m where m: "m \<in> set (match_ends a s i)" "i < m" "m \<le> length s"
      "j \<in> set (match_ends (Star a) s m)"
      by (auto simp: match_ends.simps(5) [of a s i] split: if_splits)
    have "m \<le> j \<and> j \<le> length s" by (rule "5.IH"(2) [OF m(1) _ m(4) m(3)]) (use m in simp)
    with m(2) show ?thesis by simp
  qed
qed (auto split: if_splits)

section \<open>Search and substitution\<close>

text \<open>\<open>search_from\<close> is \<open>pattern.search(text)\<close>: the leftmost match, as its start and end.\<close>

fun search_from :: "re \<Rightarrow> string \<Rightarrow> nat list \<Rightarrow> (nat \<times> nat) option" where
  "search_from r s [] = None"
| "search_from r s (i # is) =
     (case match_ends r s i of [] \<Rightarrow> search_from r s is | j # _ \<Rightarrow> Some (i, j))"

definition re_search :: "re \<Rightarrow> string \<Rightarrow> bool" where
  "re_search r s = (search_from r s [0..<Suc (length s)] \<noteq> None)"

text \<open>\<open>pattern.match\<close> at the start, and \<open>pattern.fullmatch\<close>.\<close>

definition re_match_start :: "re \<Rightarrow> string \<Rightarrow> bool" where
  "re_match_start r s = (match_ends r s 0 \<noteq> [])"

definition re_fullmatch :: "re \<Rightarrow> string \<Rightarrow> bool" where
  "re_fullmatch r s = (length s \<in> set (match_ends r s 0))"

text \<open>
  \<open>pattern.sub(r"\1" + tail, text)\<close> for a pattern that is a group followed by a rest and never
  matches the empty string: the group's text is kept, the rest is replaced by \<open>tail\<close>.
\<close>

definition group_match :: "re \<Rightarrow> re \<Rightarrow> string \<Rightarrow> nat \<Rightarrow> (nat \<times> nat) option" where
  "group_match g rest s i =
     (case concat (map (\<lambda>j. map (Pair j) (match_ends rest s j)) (match_ends g s i)) of
        [] \<Rightarrow> None | p # _ \<Rightarrow> Some p)"

function sub_group_from :: "re \<Rightarrow> re \<Rightarrow> string \<Rightarrow> string \<Rightarrow> nat \<Rightarrow> string" where
  "sub_group_from g rest tail s i =
     (if length s \<le> i then []
      else (case group_match g rest s i of
          Some (j, e) \<Rightarrow>
            if i < e then take (j - i) (drop i s) @ tail @ sub_group_from g rest tail s e
            else s ! i # sub_group_from g rest tail s (Suc i)
        | None \<Rightarrow> s ! i # sub_group_from g rest tail s (Suc i)))"
  by pat_completeness auto
termination
  by (relation "measure (\<lambda>(g, rest, tail, s, i). length s - i)") auto

declare sub_group_from.simps [simp del]

definition re_sub_group :: "re \<Rightarrow> re \<Rightarrow> string \<Rightarrow> string \<Rightarrow> string" where
  "re_sub_group g rest tail s = sub_group_from g rest tail s 0"

text \<open>Without a match the text is unchanged.\<close>

lemma sub_group_from_no_match:
  assumes "\<And>k. group_match g rest s k = None"
  shows "sub_group_from g rest tail s i = drop i s"
proof (induction "length s - i" arbitrary: i)
  case 0
  then show ?case by (subst sub_group_from.simps) simp
next
  case (Suc n)
  then have i: "i < length s" and n: "n = length s - Suc i" by auto
  from Suc(1) [OF n] i assms show ?case
    by (subst sub_group_from.simps) (simp add: Cons_nth_drop_Suc)
qed

section \<open>Pattern builders\<close>

definition ch :: "char \<Rightarrow> re" where
  "ch c = Cls (\<lambda>x. x = c)"

definition lower_ascii :: "char \<Rightarrow> char" where
  "lower_ascii c = (if 65 \<le> code c \<and> code c \<le> 90 then char_of (code c + 32) else c)"

fun lit_ci :: "string \<Rightarrow> re" where
  "lit_ci [] = Eps"
| "lit_ci (c # cs) = Cat (Cls (\<lambda>x. lower_ascii x = c)) (lit_ci cs)"

definition opt :: "re \<Rightarrow> re" where
  "opt r = Alt r Eps"

definition plus :: "re \<Rightarrow> re" where
  "plus r = Cat r (Star r)"

fun alts :: "re list \<Rightarrow> re" where
  "alts [] = Cls (\<lambda>_. False)"
| "alts [r] = r"
| "alts (r # rs) = Alt r (alts rs)"

fun cats :: "re list \<Rightarrow> re" where
  "cats [] = Eps"
| "cats [r] = r"
| "cats (r # rs) = Cat r (cats rs)"

definition ascii_alpha :: "char \<Rightarrow> bool" where
  "ascii_alpha c = ((65 \<le> code c \<and> code c \<le> 90) \<or> (97 \<le> code c \<and> code c \<le> 122))"

definition space :: re where
  "space = Cls py_space"

definition not_space :: re where
  "not_space = Cls (\<lambda>c. \<not> py_space c)"

end
