(* ===== verification/Redaction.thy ===== *)
theory Redaction
  imports Regex
begin

text \<open>
  \<open>mediaflow/domain/manual_safety.py\<close>: the redaction of credential values in durable evidence
  text, and the projection of a persisted path to its public form, which is either the exact
  stored path or the bounded marker.
\<close>

section \<open>Credential redaction\<close>

definition auth_scheme :: re where
  "auth_scheme = opt (cats [Alt (lit_ci ''bearer'') (lit_ci ''basic''), plus space])"

definition secret_value :: re where
  "secret_value = alts [
     cats [ch (CHR 0x22), Star (Cls (\<lambda>c. c \<noteq> CHR 0x22)), ch (CHR 0x22)],
     cats [ch (CHR 0x27), Star (Cls (\<lambda>c. c \<noteq> CHR 0x27)), ch (CHR 0x27)],
     plus (Cls (\<lambda>c. \<not> py_space c \<and> c \<noteq> CHR '','' \<and> c \<noteq> CHR '';''))]"

definition secret_rest :: re where
  "secret_rest = cats [auth_scheme, secret_value]"

definition authorization_group :: re where
  "authorization_group =
     cats [WordBoundary, lit_ci ''authorization'', WordBoundary, Star space, ch (CHR '':''), Star space]"

definition secret_names :: re where
  "secret_names = alts [
     cats [lit_ci ''api'', opt (Cls (\<lambda>c. c = CHR ''_'' \<or> c = CHR ''-'')), lit_ci ''key'', opt (lit_ci ''s'')],
     lit_ci ''password'', lit_ci ''passwd'', lit_ci ''secret'',
     cats [lit_ci ''token'', opt (lit_ci ''s'')], lit_ci ''authorization'',
     cats [lit_ci ''cookie'', opt (lit_ci ''s'')]]"

definition secret_assignment_group :: re where
  "secret_assignment_group =
     cats [WordBoundary, secret_names, WordBoundary, Star space,
       Cls (\<lambda>c. c = CHR '':'' \<or> c = CHR ''=''), Star space]"

definition redact_evidence_text :: "string \<Rightarrow> nat option \<Rightarrow> string" where
  "redact_evidence_text value limit =
     (let text = (case limit of None \<Rightarrow> value | Some n \<Rightarrow> take n value);
          text = re_sub_group authorization_group secret_rest ''[redacted]'' text
      in re_sub_group secret_assignment_group secret_rest ''[redacted]'' text)"

definition contains_manual_secret :: "string \<Rightarrow> bool" where
  "contains_manual_secret text =
     (re_search (Cat authorization_group secret_rest) text \<or>
      re_search (Cat secret_assignment_group secret_rest) text)"

definition safe_manual_error :: "string \<Rightarrow> string \<Rightarrow> string" where
  "safe_manual_error value fallback =
     (let r = redact_evidence_text value (Some 512) in if r = [] then fallback else r)"

section \<open>Path shapes and the public form of an identity\<close>

definition evidence_path_shapes :: "re list" where
  "evidence_path_shapes = [
     cats [Cls ascii_alpha,
       Star (Cls (\<lambda>c. ascii_alpha c \<or> ascii_digit c \<or> c = CHR ''+'' \<or> c = CHR ''.'' \<or> c = CHR ''-'')),
       ch (CHR '':''), ch (CHR ''/''), ch (CHR ''/'')],
     cats [Alt StartOfText (Cls (\<lambda>c. py_space c \<or> c = CHR ''('' \<or> c = CHR ''['' \<or> c = CHR 0x22 \<or> c = CHR 0x27)),
       ch (CHR ''/''), Cls (\<lambda>c. \<not> py_space c \<and> c \<noteq> CHR 0x22 \<and> c \<noteq> CHR 0x27)],
     cats [WordBoundary, Cls ascii_alpha, ch (CHR '':''), Cls (\<lambda>c. c = CHR 0x5C \<or> c = CHR ''/'')],
     cats [ch (CHR 0x5C), ch (CHR 0x5C)]]"

definition contains_evidence_path_shape :: "string \<Rightarrow> bool" where
  "contains_evidence_path_shape text = list_ex (\<lambda>p. re_search p text) evidence_path_shapes"

definition identity_path_redaction :: string where
  "identity_path_redaction = ''[redacted-path]''"

text \<open>The length of the UTF-8 encoding: one byte below 128, two up to 255.\<close>

definition utf8_length :: "string \<Rightarrow> nat" where
  "utf8_length s = sum_list (map (\<lambda>c. if code c < 128 then 1 else 2) s)"

definition drive_prefix :: re where
  "drive_prefix = cats [Cls ascii_alpha, ch (CHR '':'')]"

definition scheme_prefix :: re where
  "scheme_prefix = cats [Cls ascii_alpha,
     Star (Cls (\<lambda>c. ascii_alpha c \<or> ascii_digit c \<or> c = CHR ''+'' \<or> c = CHR ''.'' \<or> c = CHR ''-'')), ch (CHR '':'')]"

definition unsafe_identity :: "nat \<Rightarrow> nat option \<Rightarrow> string \<Rightarrow> bool" where
  "unsafe_identity max_characters max_bytes text =
     (let segments = split_on (CHR ''/'') (replace_char (CHR 0x5C) (CHR ''/'') text) in
      strip text = [] \<or>
      length text > max_characters \<or>
      (case max_bytes of None \<Rightarrow> False | Some b \<Rightarrow> utf8_length text > b) \<or>
      starts_with ''/'' text \<or> starts_with [CHR 0x5C] text \<or> starts_with ''~'' text \<or>
      re_match_start drive_prefix text \<or>
      re_match_start scheme_prefix text \<or>
      ''..'' \<in> set segments \<or>
      redact_evidence_text text None \<noteq> text \<or>
      contains_evidence_path_shape text)"

definition bounded_storage_relative_path ::
  "string option \<Rightarrow> nat \<Rightarrow> nat option \<Rightarrow> string option" where
  "bounded_storage_relative_path value max_characters max_bytes =
     (case value of
        None \<Rightarrow> None
      | Some text \<Rightarrow>
          if unsafe_identity max_characters max_bytes text then Some identity_path_redaction
          else Some text)"

definition bounded_identity_path :: "string option \<Rightarrow> string option" where
  "bounded_identity_path value = bounded_storage_relative_path value 512 None"

definition bounded_manual_source_path :: "string option \<Rightarrow> string option" where
  "bounded_manual_source_path value = bounded_storage_relative_path value 4096 (Some 4096)"

definition searchable_identity_text :: "string option \<Rightarrow> string option" where
  "searchable_identity_text value =
     (let published = bounded_identity_path value in
      if published = None \<or> published = Some identity_path_redaction then None else published)"

section \<open>Lemmas\<close>

lemma bounded_storage_relative_path_Some:
  "bounded_storage_relative_path (Some t) m b = Some u \<Longrightarrow>
    u = identity_path_redaction \<or> (u = t \<and> \<not> unsafe_identity m b t)"
  by (auto simp: bounded_storage_relative_path_def split: if_splits)

lemma safe_identity_facts:
  assumes "\<not> unsafe_identity m b t"
  shows "strip t \<noteq> []" "length t \<le> m" "\<not> starts_with ''/'' t" "\<not> starts_with [CHR 0x5C] t"
    "\<not> starts_with ''~'' t" "redact_evidence_text t None = t" "\<not> contains_evidence_path_shape t"
    "''..'' \<notin> set (split_on (CHR ''/'') (replace_char (CHR 0x5C) (CHR ''/'') t))"
  using assms by (auto simp: unsafe_identity_def Let_def)

end
