(* ===== verification/Task_Model.thy ===== *)
theory Task_Model
  imports Tables Redaction
begin

text \<open>
  \<open>mediaflow/domain/task_persistence.py\<close>: the durable Task, its items and Results, the status
  vocabularies and their classes, the Task's own totals and flow status over its item population,
  and the bounded display context of an admission.
\<close>

section \<open>Status vocabularies\<close>

datatype task_status =
    TaskPending | TaskRunning | TaskCompleted | TaskPartialSuccess | TaskFailed | TaskCancelled | TaskPaused

text \<open>The five current flow statuses; the other two are legacy rows only.\<close>

definition task_flow_statuses :: "task_status list" where
  "task_flow_statuses = [TaskPending, TaskRunning, TaskCompleted, TaskFailed, TaskCancelled]"

datatype item_status =
    Pending | Processing | DryRun | Success | Partial | Failed | Skipped | Cancelled
  | WaitingConfirm | WaitingRecognition | WaitingMetadata | WaitingMetadataCorrection
  | WaitingClassification | Paused | Ignored

fun item_status_value :: "item_status \<Rightarrow> string" where
  "item_status_value Pending = ''pending''"
| "item_status_value Processing = ''processing''"
| "item_status_value DryRun = ''dry_run''"
| "item_status_value Success = ''success''"
| "item_status_value Partial = ''partial''"
| "item_status_value Failed = ''failed''"
| "item_status_value Skipped = ''skipped''"
| "item_status_value Cancelled = ''cancelled''"
| "item_status_value WaitingConfirm = ''waiting_confirm''"
| "item_status_value WaitingRecognition = ''waiting_recognition''"
| "item_status_value WaitingMetadata = ''waiting_metadata''"
| "item_status_value WaitingMetadataCorrection = ''waiting_metadata_correction''"
| "item_status_value WaitingClassification = ''waiting_classification''"
| "item_status_value Paused = ''paused''"
| "item_status_value Ignored = ''ignored''"

definition item_retryable :: "item_status \<Rightarrow> bool" where
  "item_retryable s = (s \<in> {Processing, Partial, Failed, Cancelled, Paused})"

definition settled_item :: "item_status \<Rightarrow> bool" where
  "settled_item s = (s \<in> {DryRun, Success, Skipped, Cancelled, Failed, Partial, Ignored})"

definition completed_item :: "item_status \<Rightarrow> bool" where
  "completed_item s = (s \<in> {DryRun, Success, Skipped})"

definition failed_item :: "item_status \<Rightarrow> bool" where
  "failed_item s = (s \<in> {Partial, Failed})"

lemmas item_classes = settled_item_def completed_item_def failed_item_def item_retryable_def

definition history_excluded_item_stage :: string where
  "history_excluded_item_stage = ''history_excluded''"

definition history_unavailable_item_stage :: string where
  "history_unavailable_item_stage = ''history_unavailable''"

definition non_organizing_item_stages :: "string list" where
  "non_organizing_item_stages = [history_excluded_item_stage, history_unavailable_item_stage]"

definition history_unavailable_item_reason :: string where
  "history_unavailable_item_reason =
     ''history gate: this source's organizing history could not be read, so nothing was processed (fail-closed)''"

definition history_excluded_item_reason :: "string \<Rightarrow> string" where
  "history_excluded_item_reason status =
     ''history gate: this source version's latest formal organizing outcome is '' @ status @
     '', so nothing was processed; a manual organize may still include it explicitly''"

section \<open>Task commands\<close>

definition retryable_task_commands :: "string list" where
  "retryable_task_commands = [''organize'', ''retry'', ''retry-failed'', ''manual_organize'',
     ''metadata-correction-continuation'', ''recovery-continuation'', ''file-metadata-correction'',
     ''files_direct_command'', ''files_delete'', ''files_transfer'',
     ''media_files_direct_command'', ''media_files_delete'', ''media_files_transfer'']"

definition require_retryable_task_command :: "string \<Rightarrow> unit result" where
  "require_retryable_task_command command =
     raise_if (hd (split_on (CHR '':'') command) \<notin> set retryable_task_commands) ValueError (Inr ())"

definition direct_command_task_command :: "string \<Rightarrow> bool \<Rightarrow> string" where
  "direct_command_task_command operation media_library =
     (if media_library then ''media_'' @ operation else operation)"

section \<open>Records\<close>

record ptask =
  t_id :: string
  t_command :: string
  t_status :: task_status
  t_execute_authorized :: bool
  t_created_at :: instant
  t_updated_at :: instant
  t_started_at :: "instant option"
  t_completed_at :: "instant option"
  t_total_items :: int
  t_completed_items :: int
  t_failed_items :: int
  t_error :: "string option"
  t_pause_requested :: bool
  t_scope_path :: "string option"
  t_item_limit :: "int option"
  t_snapshot_id :: "string option"
  t_snapshot_digest :: "string option"

record pitem =
  i_id :: string
  i_task_id :: string
  i_storage_id :: string
  i_resource_library_id :: string
  i_source_path :: string
  i_source_display :: string
  i_status :: item_status
  i_stage :: string
  i_attempts :: int
  i_created_at :: instant
  i_updated_at :: instant
  i_plan_id :: "string option"
  i_destination_storage_id :: "string option"
  i_destination_path :: "string option"
  i_execution_status :: "string option"
  i_error :: "string option"
  i_source_occurrence_id :: "string option"
  i_source_fingerprint :: "string option"
  i_source_fingerprint_state :: string
  i_source_observed_at :: "instant option"
  i_progress :: "string option"
  i_source_storage_path :: "string option"
  i_lock_owner_token :: "string option"

text \<open>
  A Result; \<open>'d\<close> is the type of its two effect lists: a list of strings in memory, a stored JSON
  document in the table. Attachment results are JSON objects.
\<close>

datatype json =
    JNull | JBool bool | JNum rat | JStr string | JArr "json list" | JObj "(string \<times> json) list"

datatype doc = DocNull | DocList "string list" | DocNotList | DocUndecodable

record 'd presult =
  r_id :: string
  r_task_id :: string
  r_item_id :: string
  r_source_storage_id :: string
  r_source_path :: string
  r_destination_storage_id :: "string option"
  r_destination_path :: "string option"
  r_recognition_type :: "string option"
  r_provider :: "string option"
  r_provider_id :: "string option"
  r_metadata_policy_id :: "string option"
  r_naming_policy_id :: "string option"
  r_classification_policy_id :: "string option"
  r_organize_policy_id :: "string option"
  r_operation :: "string option"
  r_status :: string
  r_created_at :: instant
  r_title :: "string option"
  r_error :: "string option"
  r_completed_operations :: 'd
  r_attachment_count :: int
  r_retry_attempts :: int
  r_retry_category :: "string option"
  r_cleanup_status :: "string option"
  r_cleanup_step_count :: int
  r_effect_certainty :: string
  r_uncertain_effects :: 'd
  r_source_occurrence_id :: "string option"
  r_source_fingerprint :: "string option"
  r_source_fingerprint_state :: string
  r_primary_completed :: bool
  r_attachment_results :: "json list"
  r_source_observed_at :: "instant option"

text \<open>The claimable admission record of one bounded Copy, Move or Delete under Files.\<close>

datatype transfer_status =
    TransferAdmitted | TransferRunning | TransferPaused | TransferCompleted
  | TransferPartialSuccess | TransferFailed | TransferCancelled

definition terminal_transfer :: "transfer_status \<Rightarrow> bool" where
  "terminal_transfer s =
     (s \<in> {TransferCompleted, TransferPartialSuccess, TransferFailed, TransferCancelled})"

record transfer =
  tr_id :: string
  tr_task_id :: string
  tr_status :: transfer_status
  tr_authority :: string
  tr_snapshot_id :: string
  tr_snapshot_digest :: string
  tr_worker :: "string option"
  tr_token :: "string option"
  tr_claimed_at :: "instant option"
  tr_expires_at :: "instant option"
  tr_attempts :: nat
  tr_error :: "string option"
  tr_next_action :: "string option"
  tr_created_at :: instant
  tr_updated_at :: instant
  tr_completed_at :: "instant option"
  tr_mutation_state :: "string option"
  tr_flight_item :: "string option"
  tr_flight_path :: "string option"
  tr_flight_action :: "string option"

definition transfer_mutation_in_flight :: string where
  "transfer_mutation_in_flight = ''mutation_in_flight''"

text \<open>Redaction of JSON evidence and of a whole Result.\<close>

fun redact_evidence_value :: "json \<Rightarrow> json" where
  "redact_evidence_value (JStr s) = JStr (redact_evidence_text s None)"
| "redact_evidence_value (JObj kvs) = JObj (map (\<lambda>(k, v). (k, redact_evidence_value v)) kvs)"
| "redact_evidence_value (JArr vs) = JArr (map redact_evidence_value vs)"
| "redact_evidence_value v = v"

definition redact_persistent_result :: "string list presult \<Rightarrow> bool \<Rightarrow> string list presult" where
  "redact_persistent_result r redact_identity = r\<lparr>
     r_source_path := (if redact_identity then redact_evidence_text (r_source_path r) None
                       else r_source_path r),
     r_destination_path := (if redact_identity
                            then map_option (\<lambda>p. redact_evidence_text p None) (r_destination_path r)
                            else r_destination_path r),
     r_title := map_option (\<lambda>p. redact_evidence_text p None) (r_title r),
     r_error := map_option (\<lambda>p. redact_evidence_text p None) (r_error r),
     r_completed_operations := map (\<lambda>p. redact_evidence_text p None) (r_completed_operations r),
     r_uncertain_effects := map (\<lambda>p. redact_evidence_text p None) (r_uncertain_effects r),
     r_attachment_results := map redact_evidence_value (take 64 (r_attachment_results r))\<rparr>"

lemma redact_keeps_identity [simp]:
  "r_id (redact_persistent_result r b) = r_id r"
  "r_task_id (redact_persistent_result r b) = r_task_id r"
  "r_item_id (redact_persistent_result r b) = r_item_id r"
  "r_effect_certainty (redact_persistent_result r b) = r_effect_certainty r"
  "r_status (redact_persistent_result r b) = r_status r"
  "(r_uncertain_effects (redact_persistent_result r b) = []) = (r_uncertain_effects r = [])"
  "(r_completed_operations (redact_persistent_result r b) = []) = (r_completed_operations r = [])"
  by (simp_all add: redact_persistent_result_def)

section \<open>Totals and flow status of a Task's item population\<close>

definition task_item_counts :: "pitem list \<Rightarrow> int \<times> int \<times> int" where
  "task_item_counts items =
     (int (length items),
      int (length (filter (\<lambda>i. settled_item (i_status i)) items)),
      int (length (filter (\<lambda>i. failed_item (i_status i)) items)))"

definition task_work_status :: "pitem list \<Rightarrow> task_status" where
  "task_work_status items =
     (if items = [] then TaskRunning
      else if list_ex (\<lambda>i. \<not> settled_item (i_status i)) items then TaskRunning
      else TaskCompleted)"

section \<open>Display context\<close>

record display_context =
  c_source_scope :: "string option"
  c_target_scope :: "string option"
  c_labels :: "string list"
  c_origin_definition_id :: "string option"
  c_origin_definition_name :: "string option"
  c_origin_kind :: "string option"

definition clamp_text :: "nat \<Rightarrow> string \<Rightarrow> string" where
  "clamp_text maximum v = strip (take maximum (strip v))"

definition clamp_optional :: "nat \<Rightarrow> string option \<Rightarrow> string option" where
  "clamp_optional maximum v =
     (case v of None \<Rightarrow> None | Some s \<Rightarrow> (let t = clamp_text maximum s in if t = [] then None else Some t))"

text \<open>The label loop: skip empty and repeated labels, stop at eight.\<close>

fun clamp_labels :: "string list \<Rightarrow> string list \<Rightarrow> string list" where
  "clamp_labels labels [] = labels"
| "clamp_labels labels (l # ls) =
     (let t = clamp_text 120 l in
      if t = [] \<or> t \<in> set labels then clamp_labels labels ls
      else let labels' = labels @ [t] in
        if 8 \<le> length labels' then labels' else clamp_labels labels' ls)"

definition run_display_context :: "display_context \<Rightarrow> display_context" where
  "run_display_context c = \<lparr>
     c_source_scope = clamp_optional 320 (c_source_scope c),
     c_target_scope = clamp_optional 320 (c_target_scope c),
     c_labels = clamp_labels [] (c_labels c),
     c_origin_definition_id = clamp_optional 128 (c_origin_definition_id c),
     c_origin_definition_name = clamp_optional 120 (c_origin_definition_name c),
     c_origin_kind = clamp_optional 64 (c_origin_kind c)\<rparr>"

definition display_search_text :: "display_context \<Rightarrow> string option" where
  "display_search_text c =
     (let opts = (\<lambda>v. case v of None \<Rightarrow> [] | Some s \<Rightarrow> [s]);
          parts = c_labels c @ opts (c_source_scope c) @ opts (c_target_scope c);
          text = join_with '' '' (filter (\<lambda>p. p \<noteq> []) parts)
      in if text = [] then None else Some text)"

definition relative_display_scope :: "string option \<Rightarrow> string option" where
  "relative_display_scope value =
     (let text = strip (case value of None \<Rightarrow> [] | Some s \<Rightarrow> s) in
      if text = [] \<or> starts_with ''/'' text \<or> starts_with [CHR 0x5C] text \<or> starts_with ''~'' text \<or>
         CHR 0x5C \<in> set text \<or> (1 < length text \<and> text ! 1 = CHR '':'') \<or>
         list_ex (\<lambda>seg. seg \<in> {[], ''.'', ''..''}) (split_on (CHR ''/'') text)
      then None else Some text)"

definition join_display_scope :: "string \<Rightarrow> string option \<Rightarrow> string option" where
  "join_display_scope name relative =
     (let rel = (case relative of None \<Rightarrow> [] | Some s \<Rightarrow> s) in
      if name \<noteq> [] \<and> rel \<noteq> [] then Some (name @ ''/'' @ rel)
      else if name \<noteq> [] then Some name
      else if rel \<noteq> [] then Some rel else None)"

section \<open>Lemmas\<close>

lemma clamp_text_length: "length (clamp_text m s) \<le> m"
  unfolding clamp_text_def
  by (rule le_trans [OF length_strip_le]) simp

lemma clamp_labels_inv:
  "length labels < 8 \<Longrightarrow> distinct labels \<Longrightarrow> (\<forall>l \<in> set labels. l \<noteq> [] \<and> length l \<le> 120) \<Longrightarrow>
    length (clamp_labels labels ls) \<le> 8 \<and> distinct (clamp_labels labels ls) \<and>
    (\<forall>l \<in> set (clamp_labels labels ls). l \<noteq> [] \<and> length l \<le> 120)"
proof (induction labels ls rule: clamp_labels.induct)
  case (1 labels)
  then show ?case by simp
next
  case (2 labels l ls)
  let ?t = "clamp_text 120 l"
  show ?case
  proof (cases "?t = [] \<or> ?t \<in> set labels")
    case True
    then have "clamp_labels labels (l # ls) = clamp_labels labels ls" by (simp add: Let_def)
    with "2.IH"(1) [OF refl True] "2.prems" show ?thesis by simp
  next
    case False
    let ?new = "labels @ [?t]"
    have inv: "distinct ?new" "\<forall>l \<in> set ?new. l \<noteq> [] \<and> length l \<le> 120"
      using False "2.prems" clamp_text_length [of 120 l] by auto
    show ?thesis
    proof (cases "8 \<le> length ?new")
      case True
      with False have "clamp_labels labels (l # ls) = ?new" by (simp add: Let_def)
      with inv "2.prems"(1) show ?thesis by simp
    next
      case less: False
      with False have "clamp_labels labels (l # ls) = clamp_labels ?new ls" by (simp add: Let_def)
      with "2.IH"(2) [OF refl False refl less _ inv] less show ?thesis by simp
    qed
  qed
qed

lemma filter_settled_failed:
  "length (filter (\<lambda>i. failed_item (i_status i)) items) \<le>
   length (filter (\<lambda>i. settled_item (i_status i)) items)"
  by (induction items) (auto simp: item_classes)

end
