(* ===== verification/Scheduling_Model.thy ===== *)
theory Scheduling_Model
  imports Task_Model
begin

text \<open>
  \<open>mediaflow/domain/task_scheduling.py\<close>: the queue, claim and control facts of one Task, the
  claim fence a guarded publication is made under, the bounded identity values, and the rules that
  keep the known source of a TaskItem.
\<close>

section \<open>Vocabularies\<close>

datatype queue_state = NotAdmitted | Queued | Claimed | WaitingHuman | QueuePaused | Settled

definition queue_holds_capacity :: "queue_state \<Rightarrow> bool" where
  "queue_holds_capacity q = (q \<in> {Queued, Claimed})"

datatype trigger = Manual | Schedule | RunOnce

datatype control = ControlPause | ControlCancel

datatype publication = StartPub | ProgressPub | OutcomePub

datatype machine_stage = Discovery | StabilityWait | Analysis | Execution

datatype mutation_state = MutationInFlight

section \<open>Bounded values\<close>

definition bounded_text :: "string \<Rightarrow> nat \<Rightarrow> string result" where
  "bounded_text value maximum =
     (let normalized = strip value in
      raise_if (normalized = []) ValueError
      (raise_if (length normalized > maximum) ValueError
      (raise_if (list_ex (\<lambda>c. code c \<in> {13, 10, 0}) normalized) ValueError
      (Inr normalized))))"

definition require_capacity :: "pynum \<Rightarrow> nat result" where
  "require_capacity c =
     (case c of
        PyInt n \<Rightarrow> if 1 \<le> n \<and> n \<le> 10000 then Inr (nat n) else Inl ValueError
      | _ \<Rightarrow> Inl ValueError)"

definition lease_in_range :: "rat \<Rightarrow> rat result" where
  "lease_in_range v = (if 0 < v \<and> v \<le> 86400 then Inr v else Inl ValueError)"

fun require_lease_seconds :: "pynum \<Rightarrow> rat result" where
  "require_lease_seconds (PyInt n) = lease_in_range (of_int n)"
| "require_lease_seconds (PyFloat x) = lease_in_range x"
| "require_lease_seconds _ = Inl ValueError"

lemma bounded_text_Inr:
  "bounded_text v m = Inr t \<longleftrightarrow>
    t = strip v \<and> t \<noteq> [] \<and> length t \<le> m \<and> list_all (\<lambda>c. code c \<notin> {13, 10, 0}) t"
  by (auto simp: bounded_text_def Let_def guard_simps list_ex_iff list_all_iff)

lemma require_capacity_Inr [guard_simps]:
  "require_capacity c = Inr n \<longleftrightarrow> c = PyInt (int n) \<and> 1 \<le> n \<and> n \<le> 10000"
  by (cases c) (auto simp: require_capacity_def)

lemma require_lease_range:
  "require_lease_seconds l = Inr v \<Longrightarrow> 0 < v \<and> v \<le> 86400"
  by (cases l) (auto simp: lease_in_range_def split: if_splits)

section \<open>Admission values\<close>

record admission_context =
  a_trigger :: trigger
  a_principal :: string
  a_request_id :: "string option"

definition make_admission_context :: "trigger \<Rightarrow> string \<Rightarrow> string option \<Rightarrow> admission_context result" where
  "make_admission_context trig who request_id =
     bind_result (bounded_text who 128) (\<lambda>p.
     (case request_id of
        None \<Rightarrow> Inr \<lparr>a_trigger = trig, a_principal = p, a_request_id = None\<rparr>
      | Some r \<Rightarrow> bind_result (bounded_text r 128) (\<lambda>r'.
          Inr \<lparr>a_trigger = trig, a_principal = p, a_request_id = Some r'\<rparr>)))"

record admission_request =
  q_command :: string
  q_execute_authorized :: bool
  q_context :: admission_context
  q_scope_path :: "string option"
  q_item_limit :: "int option"
  q_snapshot_id :: "string option"
  q_snapshot_digest :: "string option"

definition bounded_optional :: "string option \<Rightarrow> nat \<Rightarrow> unit result" where
  "bounded_optional v m =
     (case v of None \<Rightarrow> Inr () | Some s \<Rightarrow> bind_result (bounded_text s m) (\<lambda>_. Inr ()))"

definition make_admission_request ::
  "string \<Rightarrow> bool \<Rightarrow> admission_context \<Rightarrow> string option \<Rightarrow> int option \<Rightarrow> string option \<Rightarrow>
   string option \<Rightarrow> admission_request result" where
  "make_admission_request command authorized ctx scope limit snapshot digest =
     bind_result (bounded_text command 64) (\<lambda>c.
     raise_if (case limit of None \<Rightarrow> False | Some n \<Rightarrow> n < 1) ValueError
     (raise_if ((snapshot = None) \<noteq> (digest = None)) ValueError
     (bind_result (bounded_optional snapshot 256) (\<lambda>_.
      bind_result (bounded_optional digest 256) (\<lambda>_.
      Inr \<lparr>q_command = c, q_execute_authorized = authorized, q_context = ctx, q_scope_path = scope,
           q_item_limit = limit, q_snapshot_id = snapshot, q_snapshot_digest = digest\<rparr>)))))"

section \<open>The scheduling facts of one Task\<close>

record sched =
  s_task_id :: string
  s_queue_state :: queue_state
  s_trigger :: trigger
  s_principal :: string
  s_request_id :: "string option"
  s_created_at :: instant
  s_updated_at :: instant
  s_stage :: "machine_stage option"
  s_eligible_at :: "instant option"
  s_generation :: nat
  s_token :: "string option"
  s_worker :: "string option"
  s_claimed_at :: "instant option"
  s_expires_at :: "instant option"
  s_heartbeat_at :: "instant option"
  s_control_revision :: nat
  s_control :: "control option"
  s_control_requested_at :: "instant option"
  s_control_acknowledged_at :: "instant option"
  s_mutation_state :: "mutation_state option"
  s_mutation_item :: "string option"
  s_mutation_action :: "string option"
  s_continuation_actor :: "string option"

text \<open>The checks of the dataclass constructor that its field types do not already give.\<close>

definition truthy :: "string option \<Rightarrow> bool" where
  "truthy v = (case v of None \<Rightarrow> False | Some s \<Rightarrow> s \<noteq> [])"

definition sched_valid :: "sched \<Rightarrow> bool" where
  "sched_valid s =
     ((s_mutation_state s \<noteq> None \<longrightarrow> truthy (s_mutation_item s) \<and> truthy (s_mutation_action s)) \<and>
      (case s_continuation_actor s of None \<Rightarrow> True
       | Some a \<Rightarrow> (\<exists>t. bounded_text a 128 = Inr t)))"

definition holds_capacity :: "sched \<Rightarrow> bool" where
  "holds_capacity s = queue_holds_capacity (s_queue_state s)"

definition mutation_in_flight :: "sched \<Rightarrow> bool" where
  "mutation_in_flight s = (s_mutation_state s = Some MutationInFlight)"

definition claim_matches :: "sched \<Rightarrow> string \<Rightarrow> string \<Rightarrow> nat \<Rightarrow> bool" where
  "claim_matches s worker_id claim_token generation =
     (s_queue_state s = Claimed \<and> s_worker s = Some worker_id \<and> s_token s = Some claim_token \<and>
      s_generation s = generation)"

definition claim_live_at :: "sched \<Rightarrow> instant \<Rightarrow> bool" where
  "claim_live_at s now =
     (s_queue_state s = Claimed \<and> (case s_expires_at s of None \<Rightarrow> False | Some e \<Rightarrow> e > now))"

record fence =
  f_task_id :: string
  f_worker_id :: string
  f_token :: string
  f_generation :: nat
  f_now :: instant

text \<open>The constructor of a fence.\<close>

definition make_fence :: "string \<Rightarrow> string \<Rightarrow> string \<Rightarrow> nat \<Rightarrow> datetime \<Rightarrow> fence result" where
  "make_fence task worker token generation now =
     bind_result (bounded_text task 200) (\<lambda>_.
     bind_result (bounded_text worker 200) (\<lambda>_.
     bind_result (bounded_text token 512) (\<lambda>_.
     raise_if (generation < 1) ValueError
     (bind_result (require_aware now) (\<lambda>t.
       Inr \<lparr>f_task_id = task, f_worker_id = worker, f_token = token, f_generation = generation,
            f_now = t\<rparr>)))))"

record claim =
  k_task :: ptask
  k_state :: sched

text \<open>\<open>claim.fence(now)\<close>; the two asserts are branches.\<close>

definition claim_fence :: "claim \<Rightarrow> datetime \<Rightarrow> fence result" where
  "claim_fence c now =
     (case (s_worker (k_state c), s_token (k_state c)) of
        (Some w, Some tok) \<Rightarrow> make_fence (t_id (k_task c)) w tok (s_generation (k_state c)) now
      | _ \<Rightarrow> Inl AssertionError)"

record admission =
  d_task :: ptask
  d_state :: sched
  d_duplicate :: bool

section \<open>The known source of a TaskItem\<close>

text \<open>Python's \<open>a or b\<close> on optional text: an empty string counts as missing.\<close>

definition text_or :: "string option \<Rightarrow> string option \<Rightarrow> string option" where
  "text_or a b = (if truthy a then a else b)"

definition known_differs :: "'a option \<Rightarrow> 'a option \<Rightarrow> bool" where
  "known_differs old new = (old \<noteq> None \<and> new \<noteq> None \<and> new \<noteq> old)"

definition known_source_conflict :: "pitem \<Rightarrow> pitem \<Rightarrow> bool \<Rightarrow> string option" where
  "known_source_conflict stored published include_observed_at =
     (if i_resource_library_id published \<noteq> i_resource_library_id stored
      then Some ''ResourceLibrary binding''
      else if known_differs (i_source_occurrence_id stored) (i_source_occurrence_id published)
      then Some ''source occurrence''
      else if known_differs (i_source_fingerprint stored) (i_source_fingerprint published)
      then Some ''source fingerprint''
      else if known_differs (i_source_storage_path stored) (i_source_storage_path published)
      then Some ''source Storage path''
      else if i_source_fingerprint_state stored = ''verified'' \<and>
              i_source_occurrence_id published \<noteq> None \<and>
              i_source_fingerprint_state published \<noteq> ''verified''
      then Some ''verified source fingerprint state''
      else if include_observed_at \<and>
              known_differs (i_source_observed_at stored) (i_source_observed_at published)
      then Some ''first source observation''
      else None)"

definition resume_item_source_binding :: "pitem \<Rightarrow> pitem \<Rightarrow> pitem result" where
  "resume_item_source_binding previous item =
     raise_if (known_source_conflict previous item False \<noteq> None) TaskSourceIdentityConflict
     (Inr (item\<lparr>
        i_resource_library_id := i_resource_library_id previous,
        i_source_occurrence_id :=
          text_or (i_source_occurrence_id previous) (i_source_occurrence_id item),
        i_source_fingerprint :=
          text_or (i_source_fingerprint previous) (i_source_fingerprint item),
        i_source_fingerprint_state :=
          (if i_source_occurrence_id previous \<noteq> None then i_source_fingerprint_state previous
           else i_source_fingerprint_state item),
        i_source_observed_at :=
          (case i_source_observed_at previous of None \<Rightarrow> i_source_observed_at item | Some t \<Rightarrow> Some t),
        i_source_storage_path :=
          text_or (i_source_storage_path previous) (i_source_storage_path item)\<rparr>))"

definition require_preserved_item_source :: "pitem \<Rightarrow> pitem \<Rightarrow> unit result" where
  "require_preserved_item_source stored published =
     raise_if (known_source_conflict stored published True \<noteq> None) TaskSourceIdentityConflict
     (Inr ())"

definition require_result_matches_item_source :: "pitem \<Rightarrow> 'd presult \<Rightarrow> unit result" where
  "require_result_matches_item_source stored result =
     raise_if (r_source_storage_id result \<noteq> i_storage_id stored \<or>
               r_source_path result \<noteq> i_source_path stored) TaskSourceIdentityConflict
     (raise_if (known_differs (i_source_occurrence_id stored) (r_source_occurrence_id result))
        TaskSourceIdentityConflict
     (raise_if (known_differs (i_source_fingerprint stored) (r_source_fingerprint result))
        TaskSourceIdentityConflict
     (raise_if (i_source_fingerprint_state stored = ''verified'' \<and>
                r_source_occurrence_id result \<noteq> None \<and> r_source_fingerprint result \<noteq> None \<and>
                r_source_fingerprint_state result \<noteq> ''verified'') TaskSourceIdentityConflict
     (raise_if (known_differs (i_source_observed_at stored) (r_source_observed_at result))
        TaskSourceIdentityConflict
     (Inr ())))))"

section \<open>Lemmas\<close>

lemma claim_fence_Inr:
  assumes "claim_fence c now = Inr f"
  shows "f_task_id f = t_id (k_task c) \<and> s_worker (k_state c) = Some (f_worker_id f) \<and>
    s_token (k_state c) = Some (f_token f) \<and> f_generation f = s_generation (k_state c) \<and>
    now = Aware (f_now f)"
  using assms
  by (auto simp: claim_fence_def make_fence_def guard_simps split: option.splits)

text \<open>A merge keeps every fact the durable item already knew.\<close>

lemma resume_keeps_known_source:
  assumes "resume_item_source_binding p i = Inr m"
  shows "i_resource_library_id m = i_resource_library_id p"
    and "truthy (i_source_occurrence_id p) \<Longrightarrow> i_source_occurrence_id m = i_source_occurrence_id p"
    and "truthy (i_source_fingerprint p) \<Longrightarrow> i_source_fingerprint m = i_source_fingerprint p"
    and "truthy (i_source_storage_path p) \<Longrightarrow> i_source_storage_path m = i_source_storage_path p"
    and "i_source_observed_at p \<noteq> None \<Longrightarrow> i_source_observed_at m = i_source_observed_at p"
    and "i_id m = i_id i" "i_attempts m = i_attempts i" "i_task_id m = i_task_id i"
  using assms
  by (auto simp: resume_item_source_binding_def guard_simps text_or_def)

end
