(* ===== verification/Kernel_Store.thy ===== *)
theory Kernel_Store
  imports Scheduling_Model "HOL-Library.AList"
begin

text \<open>
  The part of \<open>mediaflow/infrastructure/sqlite_runtime.py\<close> every kernel transaction shares: the
  tables as a record of row lists, the row codecs that matter (item upsert, Result insert), and the
  guards the transactions read inside \<open>BEGIN IMMEDIATE\<close>. Foreign keys are not enforced (SQLite's
  default, never switched on by the program), so they do not appear; primary keys and the UNIQUE
  columns do.
\<close>

section \<open>Rows\<close>

datatype worker_status = WorkerLive | WorkerStale | WorkerStopped

record worker =
  w_id :: string
  w_label :: string
  w_registered_at :: instant
  w_interval :: rat
  w_commands :: "string list"
  w_snapshot_id :: "string option"
  w_snapshot_digest :: "string option"
  w_schema :: int
  w_heartbeat_at :: instant
  w_status :: worker_status

text \<open>A TaskItem row: the item and the newer confirmed Task its source was handed off to.\<close>

record item_row =
  ir_item :: pitem
  ir_superseded_by :: "string option"

record file_lock =
  l_storage_id :: string
  l_path :: string
  l_task_id :: string
  l_acquired_at :: instant
  l_owner_token :: string

text \<open>The columns of \<open>pipeline_evidence\<close> besides its JSON document.\<close>

record evidence =
  e_id :: string
  e_task_id :: string
  e_item_id :: string
  e_attempts :: int
  e_source_storage_id :: string
  e_source_path :: string
  e_captured_at :: instant
  e_snapshot_id :: "string option"
  e_snapshot_digest :: "string option"
  e_outcome :: string

record display_row =
  dr_task_id :: string
  dr_source_scope :: "string option"
  dr_target_scope :: "string option"
  dr_search_text :: "string option"
  dr_created_at :: instant
  dr_origin_definition_id :: "string option"
  dr_origin_definition_name :: "string option"
  dr_origin_kind :: "string option"

record initial_execution =
  x_task_id :: string
  x_stage_status :: string
  x_started_at :: instant
  x_finished_at :: instant
  x_item_count :: nat
  x_success_count :: nat
  x_uncertain_count :: nat
  x_partial_effect_count :: nat
  x_skipped_count :: nat
  x_cancelled_count :: nat
  x_failed_count :: nat
  x_attachment_failed_count :: nat
  x_unreadable_count :: nat
  x_waiting_count :: nat
  x_recorded_at :: instant

datatype execution_status =
  ExecAdmitted | ExecRunning | ExecCompleted | ExecPartialSuccess | ExecFailed | ExecCancelled

record execution =
  m_id :: string
  m_task_id :: string
  m_status :: execution_status
  m_next_action :: string
  m_error :: "string option"
  m_updated_at :: instant
  m_completed_at :: "instant option"

datatype execution_item_status =
  ExecItemAdmitted | ExecItemRunning | ExecItemSuccess | ExecItemSkipped | ExecItemFailed
| ExecItemPartial | ExecItemCancelled

record execution_item =
  mi_id :: string
  mi_execution_id :: string
  mi_status :: execution_item_status
  mi_stage :: string
  mi_result_id :: "string option"
  mi_effect_certainty :: string
  mi_completed_operations :: "string list"
  mi_uncertain_effects :: "string list"
  mi_error :: "string option"
  mi_next_action :: string
  mi_updated_at :: instant

datatype discovery_status =
  DiscQueued | DiscRunning | DiscPaused | DiscWaitingStability | DiscAnalyzing | DiscCompleted
| DiscPartialSuccess | DiscFailed | DiscCancelled

text \<open>
  The columns of a Files discovery a Task release touches. \<open>v_progress\<close> is its JSON progress
  document, or None when the stored text is not JSON.
\<close>

record discovery =
  v_id :: string
  v_task_id :: "string option"
  v_created_at :: instant
  v_status :: discovery_status
  v_version :: nat
  v_pause_requested :: bool
  v_cancel_requested :: bool
  v_claim_worker :: "string option"
  v_claim_token :: "string option"
  v_claim_expires_at :: "instant option"
  v_updated_at :: instant
  v_progress :: "json option"
  v_sources :: "json list"
  v_frozen_at :: "instant option"
  v_intent_id :: "string option"
  v_preview_id :: "string option"
  v_error :: "string option"

record db =
  db_tasks :: "ptask list"
  db_sched :: "sched list"
  db_items :: "item_row list"
  db_results :: "doc presult list"
  db_evidence :: "evidence list"
  db_locks :: "file_lock list"
  db_workers :: "worker list"
  db_displays :: "display_row list"
  db_initial :: "initial_execution list"
  db_executions :: "execution list"
  db_execution_items :: "execution_item list"
  db_discoveries :: "discovery list"
  db_transfers :: "transfer list"

abbreviation item_key :: "item_row \<Rightarrow> string" where
  "item_key r \<equiv> i_id (ir_item r)"

abbreviation lock_key :: "file_lock \<Rightarrow> string \<times> string" where
  "lock_key l \<equiv> (l_storage_id l, l_path l)"

interpretation tasks_table: table_store db_tasks "\<lambda>rs d. d\<lparr>db_tasks := rs\<rparr>" t_id
  by unfold_locales simp_all

interpretation sched_table: table_store db_sched "\<lambda>rs d. d\<lparr>db_sched := rs\<rparr>" s_task_id
  by unfold_locales simp_all

interpretation items_table: table_store db_items "\<lambda>rs d. d\<lparr>db_items := rs\<rparr>" item_key
  by unfold_locales simp_all

interpretation results_table: table_store db_results "\<lambda>rs d. d\<lparr>db_results := rs\<rparr>" r_id
  by unfold_locales simp_all

interpretation locks_table: table_store db_locks "\<lambda>rs d. d\<lparr>db_locks := rs\<rparr>" lock_key
  by unfold_locales simp_all

interpretation workers_table: table_store db_workers "\<lambda>rs d. d\<lparr>db_workers := rs\<rparr>" w_id
  by unfold_locales simp_all

interpretation initial_table: table_store db_initial "\<lambda>rs d. d\<lparr>db_initial := rs\<rparr>" x_task_id
  by unfold_locales simp_all

interpretation transfers_table: table_store db_transfers "\<lambda>rs d. d\<lparr>db_transfers := rs\<rparr>" tr_id
  by unfold_locales simp_all

section \<open>Reading rows\<close>

definition get_task :: "db \<Rightarrow> string \<Rightarrow> ptask option" where
  "get_task d task_id = find_row t_id task_id (db_tasks d)"

definition scheduled_state :: "db \<Rightarrow> string \<Rightarrow> sched option" where
  "scheduled_state d task_id = find_row s_task_id task_id (db_sched d)"

definition item_row_of :: "db \<Rightarrow> string \<Rightarrow> item_row option" where
  "item_row_of d item_id = find_row item_key item_id (db_items d)"

definition get_item :: "db \<Rightarrow> string \<Rightarrow> pitem option" where
  "get_item d item_id = map_option ir_item (item_row_of d item_id)"

definition get_worker :: "db \<Rightarrow> string \<Rightarrow> worker option" where
  "get_worker d worker_id = find_row w_id worker_id (db_workers d)"

definition task_rows :: "db \<Rightarrow> string \<Rightarrow> item_row list" where
  "task_rows d task_id = filter (\<lambda>r. i_task_id (ir_item r) = task_id) (db_items d)"

definition item_order :: "pitem \<Rightarrow> pitem \<Rightarrow> bool" where
  "item_order a b =
     (i_created_at a < i_created_at b \<or> (i_created_at a = i_created_at b \<and> text_le (i_id a) (i_id b)))"

text \<open>
  \<open>list_items\<close>: one Task's items oldest first, by page. A page is bounded by a cursor on
  either side, and one read backwards is reversed again before it is returned.
\<close>

definition cursor_before :: "instant \<times> string \<Rightarrow> pitem \<Rightarrow> bool" where
  "cursor_before c i =
     (fst c < i_created_at i \<or> (fst c = i_created_at i \<and> text_le (snd c) (i_id i) \<and> snd c \<noteq> i_id i))"

definition cursor_after :: "instant \<times> string \<Rightarrow> pitem \<Rightarrow> bool" where
  "cursor_after c i =
     (i_created_at i < fst c \<or> (i_created_at i = fst c \<and> text_le (i_id i) (snd c) \<and> i_id i \<noteq> snd c))"

definition limit_rows :: "nat option \<Rightarrow> 'a list \<Rightarrow> 'a list" where
  "limit_rows n xs = (case n of None \<Rightarrow> xs | Some k \<Rightarrow> take k xs)"

definition list_items ::
  "db \<Rightarrow> string \<Rightarrow> nat option \<Rightarrow> (instant \<times> string) option \<Rightarrow> (instant \<times> string) option \<Rightarrow>
   string list option \<Rightarrow> pitem list result" where
  "list_items d task_id limit after before statuses =
     raise_if (after \<noteq> None \<and> before \<noteq> None) ValueError
     (raise_if (case statuses of None \<Rightarrow> False | Some ss \<Rightarrow> ss = [] \<or> [] \<in> set ss) ValueError
     (let rows = map ir_item (task_rows d task_id);
          wanted = (case statuses of None \<Rightarrow> rows
                    | Some ss \<Rightarrow> filter (\<lambda>i. item_status_value (i_status i) \<in> set ss) rows)
      in case before of
           Some c \<Rightarrow>
             Inr (rev (limit_rows limit
               (order_rows (\<lambda>a b. item_order b a) (filter (cursor_after c) wanted))))
         | None \<Rightarrow>
             Inr (limit_rows limit (order_rows item_order
               (case after of None \<Rightarrow> wanted | Some c \<Rightarrow> filter (cursor_before c) wanted)))))"

definition task_items :: "db \<Rightarrow> string \<Rightarrow> pitem list" where
  "task_items d task_id = order_rows item_order (map ir_item (task_rows d task_id))"

lemma list_items_plain: "list_items d task_id None None None None = Inr (task_items d task_id)"
  by (simp add: list_items_def task_items_def limit_rows_def Let_def)

lemma set_task_items [simp]: "set (task_items d task_id) = ir_item ` set (task_rows d task_id)"
  by (simp add: task_items_def)

section \<open>Writing one scheduling row\<close>

text \<open>\<open>UPDATE task_scheduling SET ... WHERE task_id=?\<close>.\<close>

definition update_sched :: "string \<Rightarrow> (sched \<Rightarrow> sched) \<Rightarrow> db \<Rightarrow> db" where
  "update_sched task_id f d =
     d\<lparr>db_sched := update_rows (\<lambda>s. s_task_id s = task_id) f (db_sched d)\<rparr>"

definition update_task :: "string \<Rightarrow> (ptask \<Rightarrow> ptask) \<Rightarrow> db \<Rightarrow> db" where
  "update_task task_id f d =
     d\<lparr>db_tasks := update_rows (\<lambda>t. t_id t = task_id) f (db_tasks d)\<rparr>"

definition capacity_use :: "db \<Rightarrow> nat" where
  "capacity_use d = row_count holds_capacity (db_sched d)"

definition scheduled_claim :: "db \<Rightarrow> fence \<Rightarrow> bool" where
  "scheduled_claim d f =
     (case scheduled_state d (f_task_id f) of
        None \<Rightarrow> False
      | Some s \<Rightarrow> claim_matches s (f_worker_id f) (f_token f) (f_generation f) \<and>
                  claim_live_at s (f_now f))"

end
