(* ===== verification/Kernel_Guards.thy ===== *)
theory Kernel_Guards
  imports Kernel_Store
begin

text \<open>
  The guards of the kernel transactions (\<open>_require_scheduled_item_locked\<close> and its neighbours in
  \<open>sqlite_runtime.py\<close>) and the two row writes they protect: the TaskItem upsert and the insertion of
  an attempt's Result.
\<close>

section \<open>Item states the kernel distinguishes\<close>

definition resumable_item :: "item_status \<Rightarrow> bool" where
  "resumable_item s = (s \<in> {Pending, Paused, Failed, WaitingConfirm})"

definition machine_item :: "item_status \<Rightarrow> bool" where
  "machine_item s = (s \<in> {Pending, Processing})"

definition boundary_clearing_certainty :: "string \<Rightarrow> bool" where
  "boundary_clearing_certainty c = (c \<in> {''none'', ''verified_complete''})"

definition terminal_execution :: "execution_status \<Rightarrow> bool" where
  "terminal_execution s = (s \<in> {ExecCompleted, ExecPartialSuccess, ExecFailed, ExecCancelled})"

section \<open>Stored effect documents\<close>

fun stored_uncertain_effects :: "doc \<Rightarrow> bool" where
  "stored_uncertain_effects DocNull = False"
| "stored_uncertain_effects DocUndecodable = True"
| "stored_uncertain_effects DocNotList = True"
| "stored_uncertain_effects (DocList xs) = (xs \<noteq> [])"

fun stored_effect_list_is_empty :: "doc \<Rightarrow> bool" where
  "stored_effect_list_is_empty DocNull = True"
| "stored_effect_list_is_empty DocUndecodable = False"
| "stored_effect_list_is_empty DocNotList = False"
| "stored_effect_list_is_empty (DocList xs) = (xs = [])"

definition zero_effect_result :: "doc presult \<Rightarrow> bool" where
  "zero_effect_result r =
     (r_effect_certainty r = ''none'' \<and> r_status r \<notin> {''success'', ''partial''} \<and>
      \<not> stored_uncertain_effects (r_uncertain_effects r) \<and>
      stored_effect_list_is_empty (r_completed_operations r))"

definition replay_safe :: "db \<Rightarrow> string \<Rightarrow> bool" where
  "replay_safe d item_id =
     list_all zero_effect_result (filter (\<lambda>r. r_item_id r = item_id) (db_results d))"

section \<open>Guards\<close>

definition superseded_row :: "item_row \<Rightarrow> bool" where
  "superseded_row r = truthy (ir_superseded_by r)"

definition item_is_superseded :: "db \<Rightarrow> string \<Rightarrow> string \<Rightarrow> bool" where
  "item_is_superseded d task_id item_id =
     (case item_row_of d item_id of None \<Rightarrow> False
      | Some r \<Rightarrow> i_task_id (ir_item r) = task_id \<and> superseded_row r)"

definition recorded_unknown_boundary_is_finished :: "db \<Rightarrow> string \<Rightarrow> sched \<Rightarrow> bool" where
  "recorded_unknown_boundary_is_finished d task_id s =
     (case s_mutation_item s of
        None \<Rightarrow> False
      | Some item_id \<Rightarrow>
          (case item_row_of d item_id of
             None \<Rightarrow> False
           | Some r \<Rightarrow> i_task_id (ir_item r) = task_id \<and> \<not> machine_item (i_status (ir_item r)) \<and>
               \<not> list_ex (\<lambda>q. machine_item (i_status (ir_item q))) (task_rows d task_id)))"

text \<open>The status every durable sibling will have once the passed items are written.\<close>

definition overlay_statuses :: "item_row list \<Rightarrow> pitem list \<Rightarrow> (string \<times> item_status) list" where
  "overlay_statuses rows items =
     foldl (\<lambda>m i. AList.update (i_id i) (i_status i) m)
       (map (\<lambda>r. (i_id (ir_item r), i_status (ir_item r))) rows) items"

definition require_no_machine_items :: "db \<Rightarrow> string \<Rightarrow> pitem list \<Rightarrow> unit result" where
  "require_no_machine_items d task_id items =
     raise_if (list_ex (\<lambda>p. machine_item (snd p)) (overlay_statuses (task_rows d task_id) items))
       TaskControlRejected (Inr ())"

definition require_scheduled_item :: "db \<Rightarrow> string \<Rightarrow> pitem \<Rightarrow> publication \<Rightarrow> unit result" where
  "require_scheduled_item d task_id item stage =
     raise_if (i_task_id item \<noteq> task_id) TaskSchedulingError
     (bind_result
       (case item_row_of d (i_id item) of
          None \<Rightarrow> Inr None
        | Some row \<Rightarrow>
            raise_if (i_task_id (ir_item row) \<noteq> i_task_id item) TaskSchedulingError
            (raise_if (i_storage_id (ir_item row) \<noteq> i_storage_id item \<or>
                       i_source_path (ir_item row) \<noteq> i_source_path item) TaskSchedulingError
            (raise_if (superseded_row row) TaskSchedulingError
            (bind_result (require_preserved_item_source (ir_item row) item) (\<lambda>_.
             Inr (Some (ir_item row)))))))
       (\<lambda>stored.
         let expected = (if stage = StartPub
                         then Some (case stored of None \<Rightarrow> 1 | Some s \<Rightarrow> i_attempts s + 1)
                         else map_option i_attempts stored)
         in raise_if (expected \<noteq> Some (i_attempts item)) TaskSchedulingError
           (if stage = StartPub
            then
              bind_result
                (case stored of None \<Rightarrow> Inr ()
                 | Some s \<Rightarrow>
                     raise_if (\<not> resumable_item (i_status s)) TaskSchedulingError
                     (raise_if (\<not> replay_safe d (i_id item)) TaskSchedulingError (Inr ())))
                (\<lambda>_. raise_if (case scheduled_state d task_id of None \<Rightarrow> False
                               | Some st \<Rightarrow> s_mutation_item st = Some (i_id item))
                       TaskSchedulingError (Inr ()))
            else
              (case stored of
                 None \<Rightarrow> Inl TaskSchedulingError
               | Some s \<Rightarrow>
                   raise_if (stage = OutcomePub \<and> i_status s \<noteq> Processing) TaskSchedulingError
                   (raise_if
                     ((list_ex (\<lambda>r. r_item_id r = i_id item \<and>
                          r_id r = i_id item @ '':'' @ show_int (i_attempts item)) (db_results d) \<or>
                       settled_item (i_status s)) \<and>
                      item\<lparr>i_lock_owner_token := None\<rparr> \<noteq> s\<lparr>i_updated_at := i_updated_at item\<rparr>)
                     TaskSchedulingError
                   (Inr ()))))))"

definition require_scheduled_authority :: "db \<Rightarrow> ptask \<Rightarrow> unit result" where
  "require_scheduled_authority d task =
     (case get_task d (t_id task) of
        None \<Rightarrow> Inl LookupError
      | Some row \<Rightarrow>
          raise_if (t_command row \<noteq> t_command task \<or>
                    t_execute_authorized row \<noteq> t_execute_authorized task \<or>
                    t_created_at row \<noteq> t_created_at task \<or>
                    t_scope_path row \<noteq> t_scope_path task \<or>
                    t_item_limit row \<noteq> t_item_limit task \<or>
                    t_snapshot_id row \<noteq> t_snapshot_id task \<or>
                    t_snapshot_digest row \<noteq> t_snapshot_digest task)
            TaskSchedulingError (Inr ()))"

text \<open>The columns a fenced aggregate publication writes.\<close>

definition publish_task_columns :: "ptask \<Rightarrow> ptask \<Rightarrow> ptask" where
  "publish_task_columns task row = row\<lparr>
     t_status := t_status task, t_updated_at := t_updated_at task,
     t_started_at := t_started_at task, t_completed_at := t_completed_at task,
     t_total_items := t_total_items task, t_completed_items := t_completed_items task,
     t_failed_items := t_failed_items task, t_error := t_error task,
     t_pause_requested := t_pause_requested task\<rparr>"

definition publish_task_row :: "ptask \<Rightarrow> db \<Rightarrow> db" where
  "publish_task_row task = update_task (t_id task) (publish_task_columns task)"

section \<open>The TaskItem upsert\<close>

definition coalesce :: "'a option \<Rightarrow> 'a option \<Rightarrow> 'a option" where
  "coalesce a b = (case a of None \<Rightarrow> b | Some x \<Rightarrow> Some x)"

definition item_columns :: "pitem \<Rightarrow> pitem" where
  "item_columns i = i\<lparr>i_lock_owner_token := None\<rparr>"

definition merge_item :: "pitem \<Rightarrow> pitem \<Rightarrow> pitem" where
  "merge_item old new = old\<lparr>
     i_status := i_status new, i_stage := i_stage new, i_attempts := i_attempts new,
     i_updated_at := i_updated_at new, i_plan_id := i_plan_id new,
     i_destination_storage_id := i_destination_storage_id new,
     i_destination_path := i_destination_path new,
     i_execution_status := i_execution_status new, i_error := i_error new,
     i_progress := i_progress new,
     i_source_occurrence_id := coalesce (i_source_occurrence_id new) (i_source_occurrence_id old),
     i_source_fingerprint := coalesce (i_source_fingerprint new) (i_source_fingerprint old),
     i_source_fingerprint_state :=
       (if i_source_occurrence_id new = None then i_source_fingerprint_state old
        else i_source_fingerprint_state new),
     i_source_observed_at := coalesce (i_source_observed_at new) (i_source_observed_at old),
     i_source_storage_path := coalesce (i_source_storage_path new) (i_source_storage_path old)\<rparr>"

definition merge_row :: "item_row \<Rightarrow> item_row \<Rightarrow> item_row" where
  "merge_row old new = old\<lparr>ir_item := merge_item (ir_item old) (ir_item new)\<rparr>"

text \<open>A new row may not repeat another row's (Task, Storage, source): UNIQUE.\<close>

definition item_source_taken :: "item_row list \<Rightarrow> pitem \<Rightarrow> bool" where
  "item_source_taken rows i =
     list_ex (\<lambda>r. i_task_id (ir_item r) = i_task_id i \<and> i_storage_id (ir_item r) = i_storage_id i \<and>
                  i_source_path (ir_item r) = i_source_path i) rows"

definition upsert_item :: "pitem \<Rightarrow> db \<Rightarrow> db result" where
  "upsert_item i d =
     raise_if (item_row_of d (i_id i) = None \<and> item_source_taken (db_items d) i) IntegrityError
     (Inr (d\<lparr>db_items := upsert_row item_key merge_row
               \<lparr>ir_item = item_columns i, ir_superseded_by = None\<rparr> (db_items d)\<rparr>))"

section \<open>The Result of one attempt\<close>

definition bind_result_to_occurrence :: "db \<Rightarrow> string list presult \<Rightarrow> string list presult" where
  "bind_result_to_occurrence d r =
     (if truthy (r_source_occurrence_id r) \<and> truthy (r_source_fingerprint r) then r
      else (case get_item d (r_item_id r) of
              None \<Rightarrow> r
            | Some i \<Rightarrow> r\<lparr>
                r_source_occurrence_id := text_or (r_source_occurrence_id r) (i_source_occurrence_id i),
                r_source_fingerprint := text_or (r_source_fingerprint r) (i_source_fingerprint i),
                r_source_fingerprint_state := i_source_fingerprint_state i,
                r_source_observed_at := coalesce (r_source_observed_at r) (i_source_observed_at i)\<rparr>))"

text \<open>The column values: a redacted Result whose effect lists are JSON documents.\<close>

definition result_values :: "string list presult \<Rightarrow> doc presult" where
  "result_values r0 = (let r = redact_persistent_result r0 False in
     \<lparr>r_id = r_id r, r_task_id = r_task_id r, r_item_id = r_item_id r,
      r_source_storage_id = r_source_storage_id r, r_source_path = r_source_path r,
      r_destination_storage_id = r_destination_storage_id r,
      r_destination_path = r_destination_path r, r_recognition_type = r_recognition_type r,
      r_provider = r_provider r, r_provider_id = r_provider_id r,
      r_metadata_policy_id = r_metadata_policy_id r, r_naming_policy_id = r_naming_policy_id r,
      r_classification_policy_id = r_classification_policy_id r,
      r_organize_policy_id = r_organize_policy_id r, r_operation = r_operation r,
      r_status = r_status r, r_created_at = r_created_at r, r_title = r_title r,
      r_error = r_error r, r_completed_operations = DocList (r_completed_operations r),
      r_attachment_count = r_attachment_count r, r_retry_attempts = r_retry_attempts r,
      r_retry_category = r_retry_category r, r_cleanup_status = r_cleanup_status r,
      r_cleanup_step_count = r_cleanup_step_count r, r_effect_certainty = r_effect_certainty r,
      r_uncertain_effects = DocList (r_uncertain_effects r),
      r_source_occurrence_id = r_source_occurrence_id r,
      r_source_fingerprint = r_source_fingerprint r,
      r_source_fingerprint_state = r_source_fingerprint_state r,
      r_primary_completed = r_primary_completed r,
      r_attachment_results = r_attachment_results r,
      r_source_observed_at = r_source_observed_at r\<rparr>)"

text \<open>\<open>INSERT\<close> refuses an existing Result; \<open>INSERT OR REPLACE\<close> drops it first.\<close>

definition insert_result :: "string list presult \<Rightarrow> bool \<Rightarrow> db \<Rightarrow> db result" where
  "insert_result r allow_replace d =
     (let row = result_values (bind_result_to_occurrence d r);
          rows = (if allow_replace then delete_rows (\<lambda>q. r_id q = r_id row) (db_results d)
                  else db_results d)
      in bind_result (insert_row r_id row rows) (\<lambda>rs. Inr (d\<lparr>db_results := rs\<rparr>)))"

end
