(* ===== verification/Kernel_Claim.thy ===== *)
theory Kernel_Claim
  imports Kernel_Guards
begin

text \<open>
  Admission, the Worker's eligibility, the two claims, the heartbeat and the running boundary:
  \<open>admit_scheduled_task\<close>, \<open>claim_next_scheduled_task\<close>, \<open>claim_scheduled_task\<close>,
  \<open>heartbeat_scheduled_claim\<close> and \<open>begin_scheduled_work\<close> of \<open>sqlite_runtime.py\<close>. Each is the body of
  one transaction; a body that raises is rolled back by \<open>atomic\<close>.
\<close>

section \<open>Admission\<close>

definition require_scheduled_admission_values :: "ptask \<Rightarrow> sched \<Rightarrow> unit result" where
  "require_scheduled_admission_values task st =
     raise_if (t_id task \<noteq> s_task_id st) ValueError
     (raise_if (t_status task \<noteq> TaskPending) ValueError
     (raise_if (t_started_at task \<noteq> None \<or> t_completed_at task \<noteq> None) ValueError
     (raise_if (s_queue_state st \<noteq> Queued) ValueError
     (raise_if (s_generation st \<noteq> 0 \<or> s_token st \<noteq> None \<or> s_worker st \<noteq> None \<or>
                s_claimed_at st \<noteq> None \<or> s_expires_at st \<noteq> None \<or> s_heartbeat_at st \<noteq> None)
        ValueError
     (raise_if (s_control st \<noteq> None \<or> s_mutation_state st \<noteq> None) ValueError
     (Inr ()))))))"

definition same_admission_context :: "ptask \<Rightarrow> sched \<Rightarrow> ptask \<Rightarrow> sched \<Rightarrow> bool" where
  "same_admission_context stored_task stored_state task st =
     (t_command stored_task = t_command task \<and>
      t_execute_authorized stored_task = t_execute_authorized task \<and>
      t_scope_path stored_task = t_scope_path task \<and>
      t_item_limit stored_task = t_item_limit task \<and>
      t_snapshot_id stored_task = t_snapshot_id task \<and>
      t_snapshot_digest stored_task = t_snapshot_digest task \<and>
      s_trigger stored_state = s_trigger st)"

definition scheduled_admission :: "db \<Rightarrow> string \<Rightarrow> string \<Rightarrow> (ptask \<times> sched) option" where
  "scheduled_admission d who request_id =
     (case find (\<lambda>s. s_principal s = who \<and> s_request_id s = Some request_id) (db_sched d) of
        None \<Rightarrow> None
      | Some s \<Rightarrow> map_option (\<lambda>t. (t, s)) (get_task d (s_task_id s)))"

text \<open>
  The two uniqueness constraints of \<open>task_scheduling\<close>: its primary key, and the index over
  (principal, request) of the admissions that carry a request identity.
\<close>

definition insert_sched :: "sched \<Rightarrow> sched list \<Rightarrow> sched list result" where
  "insert_sched st rows =
     raise_if (s_request_id st \<noteq> None \<and>
               list_ex (\<lambda>s. s_principal s = s_principal st \<and> s_request_id s = s_request_id st) rows)
       IntegrityError
     (insert_row s_task_id st rows)"

definition insert_display :: "string \<Rightarrow> display_context \<Rightarrow> instant \<Rightarrow> db \<Rightarrow> db" where
  "insert_display task_id c created_at d =
     d\<lparr>db_displays := delete_rows (\<lambda>r. dr_task_id r = task_id) (db_displays d) @
        [\<lparr>dr_task_id = task_id, dr_source_scope = c_source_scope c,
          dr_target_scope = c_target_scope c, dr_search_text = display_search_text c,
          dr_created_at = created_at, dr_origin_definition_id = c_origin_definition_id c,
          dr_origin_definition_name = c_origin_definition_name c,
          dr_origin_kind = c_origin_kind c\<rparr>]\<rparr>"

definition admit_new :: "ptask \<Rightarrow> sched \<Rightarrow> display_context option \<Rightarrow> db \<Rightarrow> db result" where
  "admit_new task st display d =
     bind_result (insert_row t_id task (db_tasks d)) (\<lambda>ts.
     let d1 = d\<lparr>db_tasks := ts\<rparr>;
         d2 = (case display of None \<Rightarrow> d1
               | Some c \<Rightarrow> insert_display (t_id task) c (t_created_at task) d1)
     in bind_result (insert_sched st (db_sched d2)) (\<lambda>ss. Inr (d2\<lparr>db_sched := ss\<rparr>)))"

definition admit_scheduled_task ::
  "ptask \<Rightarrow> sched \<Rightarrow> pynum \<Rightarrow> display_context option \<Rightarrow> (db, admission) body" where
  "admit_scheduled_task task st capacity display d =
     bind_result (require_capacity capacity) (\<lambda>cap.
     bind_result (require_scheduled_admission_values task st) (\<lambda>_.
     (case Option.bind (s_request_id st) (scheduled_admission d (s_principal st)) of
        Some (stored_task, stored_state) \<Rightarrow>
          raise_if (\<not> same_admission_context stored_task stored_state task st) TaskAdmissionConflict
          (Inr (\<lparr>d_task = stored_task, d_state = stored_state, d_duplicate = True\<rparr>, d))
      | None \<Rightarrow>
          raise_if (cap \<le> capacity_use d) TaskQueueFull
          (bind_result (admit_new task st display d) (\<lambda>d'.
           Inr (\<lparr>d_task = task, d_state = st, d_duplicate = False\<rparr>, d'))))))"

section \<open>The Worker\<close>

definition schema_version :: int where
  "schema_version = 58"

definition worker_stale_threshold_seconds :: "rat \<Rightarrow> rat" where
  "worker_stale_threshold_seconds interval = max (interval * 3) 10"

definition scheduled_worker :: "db \<Rightarrow> string \<Rightarrow> instant \<Rightarrow> worker result" where
  "scheduled_worker d worker_id now =
     (case get_worker d worker_id of
        None \<Rightarrow> Inl TaskWorkerRejected
      | Some w \<Rightarrow>
          raise_if (w_status w = WorkerStopped) TaskWorkerRejected
          (raise_if (w_schema w \<noteq> schema_version) TaskWorkerRejected
          (raise_if (of_int (now - w_heartbeat_at w) / 1000000 >
                     worker_stale_threshold_seconds (w_interval w)) TaskWorkerRejected
          (raise_if (w_commands w = []) TaskWorkerRejected
          (Inr w)))))"

section \<open>Claims\<close>

definition pin_matches :: "worker \<Rightarrow> ptask \<Rightarrow> bool" where
  "pin_matches w t =
     (w_snapshot_id w = None \<or>
      (t_snapshot_id t = w_snapshot_id w \<and> w_snapshot_digest w \<noteq> None \<and>
       t_snapshot_digest t = w_snapshot_digest w))"

definition claimable :: "db \<Rightarrow> worker \<Rightarrow> instant \<Rightarrow> string option \<Rightarrow> sched \<Rightarrow> bool" where
  "claimable d w now only s =
     (s_queue_state s \<in> {Queued, Claimed} \<and>
      (case s_eligible_at s of None \<Rightarrow> True | Some e \<Rightarrow> e \<le> now) \<and>
      (s_token s = None \<or> (case s_expires_at s of None \<Rightarrow> True | Some e \<Rightarrow> e \<le> now)) \<and>
      s_mutation_state s = None \<and>
      (case only of None \<Rightarrow> True | Some k \<Rightarrow> s_task_id s = k) \<and>
      (case get_task d (s_task_id s) of
         None \<Rightarrow> False
       | Some t \<Rightarrow> t_status t = TaskPending \<and> t_command t \<in> set (w_commands w) \<and> pin_matches w t))"

definition queue_instant :: "sched \<Rightarrow> instant" where
  "queue_instant s = (case s_eligible_at s of None \<Rightarrow> s_created_at s | Some e \<Rightarrow> e)"

definition queue_order :: "sched \<Rightarrow> sched \<Rightarrow> bool" where
  "queue_order a b =
     (queue_instant a < queue_instant b \<or>
      (queue_instant a = queue_instant b \<and>
       (s_created_at a < s_created_at b \<or>
        (s_created_at a = s_created_at b \<and> text_le (s_task_id a) (s_task_id b)))))"

definition claimable_scheduled_task ::
  "db \<Rightarrow> worker \<Rightarrow> instant \<Rightarrow> string option \<Rightarrow> sched option" where
  "claimable_scheduled_task d w now only =
     least_row queue_order (filter (claimable d w now only) (db_sched d))"

definition grant_claim :: "string \<Rightarrow> string \<Rightarrow> instant \<Rightarrow> instant \<Rightarrow> sched \<Rightarrow> sched" where
  "grant_claim worker_id token now expires s = s\<lparr>
     s_queue_state := Claimed, s_generation := s_generation s + 1, s_token := Some token,
     s_worker := Some worker_id, s_claimed_at := Some now, s_expires_at := Some expires,
     s_heartbeat_at := Some now, s_updated_at := now\<rparr>"

definition require_claim_values :: "string \<Rightarrow> string \<Rightarrow> pynum \<Rightarrow> rat result" where
  "require_claim_values worker_id token lease =
     raise_if (strip worker_id = [] \<or> 200 < length worker_id) ValueError
     (raise_if (strip token = [] \<or> 512 < length token) ValueError
     (require_lease_seconds lease))"

definition claim_in_transaction ::
  "string option \<Rightarrow> instant \<Rightarrow> string \<Rightarrow> string \<Rightarrow> rat \<Rightarrow> (db, claim option) body" where
  "claim_in_transaction only now worker_id token lease d =
     bind_result (scheduled_worker d worker_id now) (\<lambda>w.
     (case claimable_scheduled_task d w now only of
        None \<Rightarrow> Inr (None, d)
      | Some row \<Rightarrow>
          (let hit = (\<lambda>s. s_task_id s = s_task_id row \<and> s_generation s = s_generation row \<and>
                          s_queue_state s \<in> {Queued, Claimed} \<and> s_mutation_state s = None);
               d' = d\<lparr>db_sched := update_rows hit
                        (grant_claim worker_id token now (now + seconds_to_us lease)) (db_sched d)\<rparr>
           in if row_count hit (db_sched d) \<noteq> 1 then Inr (None, d)
              else (case (scheduled_state d' (s_task_id row), get_task d' (s_task_id row)) of
                      (Some s, Some t) \<Rightarrow> Inr (Some \<lparr>k_task = t, k_state = s\<rparr>, d')
                    | _ \<Rightarrow> Inl TaskSchedulingError))))"

definition claim_next_scheduled_task ::
  "datetime \<Rightarrow> string \<Rightarrow> string \<Rightarrow> pynum \<Rightarrow> (db, claim option) body" where
  "claim_next_scheduled_task now worker_id token lease d =
     bind_result (require_claim_values worker_id token lease) (\<lambda>seconds.
     bind_result (require_aware now) (\<lambda>t.
     claim_in_transaction None t worker_id token seconds d))"

definition claim_scheduled_task ::
  "string \<Rightarrow> datetime \<Rightarrow> string \<Rightarrow> string \<Rightarrow> pynum \<Rightarrow> (db, claim option) body" where
  "claim_scheduled_task task_id now worker_id token lease d =
     bind_result (bounded_text task_id 200) (\<lambda>_.
     bind_result (require_claim_values worker_id token lease) (\<lambda>seconds.
     bind_result (require_aware now) (\<lambda>t.
     claim_in_transaction (Some task_id) t worker_id token seconds d)))"

section \<open>Heartbeat and the running boundary\<close>

definition extend_claim :: "instant \<Rightarrow> instant \<Rightarrow> sched \<Rightarrow> sched" where
  "extend_claim now expires s =
     s\<lparr>s_expires_at := Some expires, s_heartbeat_at := Some now, s_updated_at := now\<rparr>"

definition heartbeat_scheduled_claim :: "fence \<Rightarrow> pynum \<Rightarrow> (db, sched option) body" where
  "heartbeat_scheduled_claim f lease d =
     bind_result (require_lease_seconds lease) (\<lambda>seconds.
     let hit = (\<lambda>s. s_task_id s = f_task_id f \<and>
                    claim_matches s (f_worker_id f) (f_token f) (f_generation f));
         d' = d\<lparr>db_sched := update_rows hit
                  (extend_claim (f_now f) (f_now f + seconds_to_us seconds)) (db_sched d)\<rparr>
     in if row_count hit (db_sched d) \<noteq> 1 then Inr (None, d')
        else Inr (scheduled_state d' (f_task_id f), d'))"

definition start_task :: "instant \<Rightarrow> ptask \<Rightarrow> ptask" where
  "start_task now t = t\<lparr>
     t_status := TaskRunning, t_updated_at := now,
     t_started_at := coalesce (t_started_at t) (Some now), t_pause_requested := False\<rparr>"

definition enter_stage :: "machine_stage option \<Rightarrow> instant \<Rightarrow> sched \<Rightarrow> sched" where
  "enter_stage stage now s = s\<lparr>s_stage := stage, s_updated_at := now\<rparr>"

definition begin_scheduled_work :: "fence \<Rightarrow> machine_stage \<Rightarrow> (db, sched option) body" where
  "begin_scheduled_work f stage d =
     (if \<not> scheduled_claim d f then Inr (None, d)
      else
        let pending = (\<lambda>t. t_id t = f_task_id f \<and> t_status t = TaskPending);
            d1 = d\<lparr>db_tasks := update_rows pending (start_task (f_now f)) (db_tasks d)\<rparr>;
            d2 = update_sched (f_task_id f) (enter_stage (Some stage) (f_now f)) d1
        in if row_count pending (db_tasks d) \<noteq> 1 then Inr (None, d)
           else Inr (scheduled_state d2 (f_task_id f), d2))"

end
