(* ===== verification/Stage_Evidence.thy ===== *)
theory Stage_Evidence
  imports Kernel_Guards
begin

text \<open>
  The write-once evidence of a Task's first execution stage: \<open>_TASK_ITEM_STAGE_EVIDENCE_SELECT\<close> over
  each item and its latest Result, and \<open>_record_initial_execution_locked\<close>, which freezes the totals.
  SQL's NULL logic is written out: a comparison with a missing Result is false.
\<close>

section \<open>The evidence of one item\<close>

definition ascii_lower :: "string \<Rightarrow> string" where
  "ascii_lower s = map (\<lambda>c. if 65 \<le> code c \<and> code c \<le> 90 then char_of (code c + 32) else c) s"

definition uncertain_certainty :: "string \<Rightarrow> bool" where
  "uncertain_certainty c = (c \<in> {''unknown'', ''attempted_unverified''})"

definition known_certainty :: "string \<Rightarrow> bool" where
  "known_certainty c =
     (c \<in> {''none'', ''verified_complete'', ''partial'', ''unknown'', ''attempted_unverified''})"

fun doc_array_nonempty :: "doc \<Rightarrow> bool" where
  "doc_array_nonempty (DocList xs) = (xs \<noteq> [])"
| "doc_array_nonempty _ = False"

fun doc_is_array :: "doc \<Rightarrow> bool" where
  "doc_is_array (DocList xs) = True"
| "doc_is_array _ = False"

text \<open>\<open>json_extract(a, '$.key')\<close> where it is text; any other value is in none of the lists below.\<close>

fun json_text_field :: "string \<Rightarrow> json \<Rightarrow> string option" where
  "json_text_field k (JObj kvs) = (case map_of kvs k of Some (JStr s) \<Rightarrow> Some s | _ \<Rightarrow> None)"
| "json_text_field k _ = None"

fun is_json_object :: "json \<Rightarrow> bool" where
  "is_json_object (JObj kvs) = True"
| "is_json_object _ = False"

definition attachment_failed :: "json \<Rightarrow> bool" where
  "attachment_failed a =
     (is_json_object a \<and>
      ((case json_text_field ''status'' a of None \<Rightarrow> False
        | Some s \<Rightarrow> ascii_lower s \<in> {''failed'', ''partial'', ''skipped'', ''ignored'', ''cancelled'',
                                      ''unexecuted''}) \<or>
       (case json_text_field ''effect_certainty'' a of None \<Rightarrow> False
        | Some c \<Rightarrow> c \<in> {''unknown'', ''attempted_unverified'', ''partial''})))"

definition attachment_unreadable :: "json \<Rightarrow> bool" where
  "attachment_unreadable a =
     (\<not> is_json_object a \<or>
      (case (json_text_field ''status'' a, json_text_field ''effect_certainty'' a) of
         (Some s, Some c) \<Rightarrow>
           ascii_lower s \<notin> {''success'', ''failed'', ''partial'', ''skipped'', ''ignored'',
                             ''cancelled'', ''unexecuted''} \<or>
           \<not> known_certainty c \<or>
           (ascii_lower s = ''success'' \<and> c \<noteq> ''verified_complete'')
       | _ \<Rightarrow> True))"

record item_evidence =
  n_disposition :: string
  n_succeeded :: bool
  n_uncertain :: bool
  n_partial_effect :: bool
  n_unreadable :: bool
  n_attachment_failed :: nat
  n_attachment_unreadable :: nat

definition stage_evidence :: "pitem \<Rightarrow> doc presult option \<Rightarrow> item_evidence" where
  "stage_evidence i latest =
     (case latest of
        None \<Rightarrow>
          \<lparr>n_disposition = item_status_value (i_status i), n_succeeded = False, n_uncertain = False,
           n_partial_effect = False, n_unreadable = True, n_attachment_failed = 0,
           n_attachment_unreadable = 0\<rparr>
      | Some r \<Rightarrow>
          \<lparr>n_disposition = ascii_lower (r_status r),
           n_succeeded =
             ((r_effect_certainty r = ''verified_complete'' \<and> ascii_lower (r_status r) = ''success'') \<or>
              r_primary_completed r),
           n_uncertain =
             (uncertain_certainty (r_effect_certainty r) \<or> doc_array_nonempty (r_uncertain_effects r)),
           n_partial_effect = (r_effect_certainty r = ''partial''),
           n_unreadable =
             (\<not> known_certainty (r_effect_certainty r) \<or> \<not> doc_is_array (r_uncertain_effects r) \<or>
              int (length (r_attachment_results r)) \<noteq> r_attachment_count r),
           n_attachment_failed = length (filter attachment_failed (r_attachment_results r)),
           n_attachment_unreadable =
             length (filter attachment_unreadable (r_attachment_results r))\<rparr>)"

text \<open>The latest Result of an item of this Task: newest first, then the greater Result id.\<close>

definition result_order :: "doc presult \<Rightarrow> doc presult \<Rightarrow> bool" where
  "result_order a b =
     (r_created_at b < r_created_at a \<or>
      (r_created_at a = r_created_at b \<and> text_le (r_id b) (r_id a)))"

definition latest_result :: "db \<Rightarrow> string \<Rightarrow> string \<Rightarrow> doc presult option" where
  "latest_result d task_id item_id =
     least_row result_order
       (filter (\<lambda>r. r_task_id r = task_id \<and> r_item_id r = item_id) (db_results d))"

section \<open>Freezing the totals\<close>

definition settled_disposition :: "string \<Rightarrow> bool" where
  "settled_disposition s =
     (s \<in> {''success'', ''failed'', ''partial'', ''skipped'', ''ignored'', ''cancelled''})"

definition task_evidence :: "db \<Rightarrow> string \<Rightarrow> item_evidence list" where
  "task_evidence d task_id =
     map (\<lambda>r. stage_evidence (ir_item r) (latest_result d task_id (i_id (ir_item r))))
       (task_rows d task_id)"

definition initial_execution_row ::
  "db \<Rightarrow> string \<Rightarrow> string \<Rightarrow> instant \<Rightarrow> instant \<Rightarrow> initial_execution" where
  "initial_execution_row d task_id label started finished =
     (let es = task_evidence d task_id; count = (\<lambda>P. length (filter P es)) in
      \<lparr>x_task_id = task_id, x_stage_status = label, x_started_at = started, x_finished_at = finished,
       x_item_count = length es,
       x_success_count = count n_succeeded,
       x_uncertain_count = count n_uncertain,
       x_partial_effect_count = count n_partial_effect,
       x_skipped_count = count (\<lambda>e. n_disposition e \<in> {''skipped'', ''ignored''}),
       x_cancelled_count = count (\<lambda>e. n_disposition e = ''cancelled''),
       x_failed_count = count (\<lambda>e. n_disposition e \<in> {''failed'', ''partial''}),
       x_attachment_failed_count = sum_list (map n_attachment_failed es),
       x_unreadable_count = count (\<lambda>e. n_unreadable e \<or> 0 < n_attachment_unreadable e \<or>
                                        \<not> settled_disposition (n_disposition e)),
       x_waiting_count = count (\<lambda>e. \<not> settled_disposition (n_disposition e)),
       x_recorded_at = finished\<rparr>)"

definition record_initial_execution ::
  "string \<Rightarrow> string \<Rightarrow> instant \<Rightarrow> instant \<Rightarrow> db \<Rightarrow> db" where
  "record_initial_execution task_id label started finished d =
     (if find_row x_task_id task_id (db_initial d) \<noteq> None then d
      else d\<lparr>db_initial := db_initial d @ [initial_execution_row d task_id label started finished]\<rparr>)"

section \<open>Lemmas\<close>

text \<open>Every item has exactly one disposition, so the four classes partition the items.\<close>

lemma disposition_partition:
  "length (filter (\<lambda>e. n_disposition e = ''success'') es) +
   length (filter (\<lambda>e. n_disposition e \<in> {''skipped'', ''ignored''}) es) +
   length (filter (\<lambda>e. n_disposition e = ''cancelled'') es) +
   length (filter (\<lambda>e. n_disposition e \<in> {''failed'', ''partial''}) es) +
   length (filter (\<lambda>e. \<not> settled_disposition (n_disposition e)) es) = length es"
proof (induction es)
  case Nil
  show ?case by simp
next
  case (Cons e es)
  then show ?case
    by (simp add: settled_disposition_def)
qed

lemma waiting_le_unreadable:
  "x_waiting_count (initial_execution_row d k l s f) \<le> x_unreadable_count (initial_execution_row d k l s f)"
proof -
  have "length (filter P xs) \<le> length (filter Q xs)" if "\<And>x. P x \<Longrightarrow> Q x" for P Q and xs :: "item_evidence list"
    using that by (induction xs) auto
  then show ?thesis by (simp add: initial_execution_row_def Let_def)
qed

lemma initial_execution_frame [simp]:
  "db_sched (record_initial_execution k l s f d) = db_sched d"
  "db_tasks (record_initial_execution k l s f d) = db_tasks d"
  "db_items (record_initial_execution k l s f d) = db_items d"
  "db_results (record_initial_execution k l s f d) = db_results d"
  "db_evidence (record_initial_execution k l s f d) = db_evidence d"
  "db_locks (record_initial_execution k l s f d) = db_locks d"
  "db_workers (record_initial_execution k l s f d) = db_workers d"
  by (simp_all add: record_initial_execution_def)

end
