(* ===== verification/Kernel_Control.thy ===== *)
theory Kernel_Control
  imports Kernel_Claim Stage_Evidence
begin

text \<open>
  Cooperative control and the transitions that give a slot back or take it again:
  \<open>request_scheduled_control\<close>, \<open>release_scheduled_claim\<close>, \<open>yield_scheduled_claim\<close>,
  \<open>requeue_scheduled_task\<close>, \<open>requeue_scheduled_analysis\<close>, \<open>resume_scheduled_task\<close> and
  \<open>request_scheduled_task_control\<close> of \<open>sqlite_runtime.py\<close>. The observers told of a settled Task
  after the commit are callbacks that cannot change the database; they are left out.
\<close>

section \<open>Requesting a control\<close>

definition accept_control :: "control \<Rightarrow> instant \<Rightarrow> sched \<Rightarrow> sched" where
  "accept_control c now s = s\<lparr>
     s_control := Some c, s_control_requested_at := Some now,
     s_control_revision := s_control_revision s + 1, s_updated_at := now\<rparr>"

definition request_scheduled_control :: "string \<Rightarrow> control \<Rightarrow> datetime \<Rightarrow> (db, sched) body" where
  "request_scheduled_control task_id c now d =
     bind_result (require_aware now) (\<lambda>t.
     (case scheduled_state d task_id of
        None \<Rightarrow> Inl TaskControlRejected
      | Some s \<Rightarrow>
          if s_control s = Some c then Inr (s, d)
          else
            raise_if (s_queue_state s = Settled) TaskControlRejected
            (raise_if (s_control s = Some ControlCancel) TaskControlRejected
            (let d' = update_sched task_id (accept_control c t) d in
             (case scheduled_state d' task_id of
                None \<Rightarrow> Inl AssertionError
              | Some s' \<Rightarrow> Inr (s', d'))))))"

text \<open>What an acknowledged control makes of the Task and of its unfinished items.\<close>

definition pausable_item :: "item_status \<Rightarrow> bool" where
  "pausable_item s = (s \<in> {Pending, Processing})"

definition cancellable_item :: "item_status \<Rightarrow> bool" where
  "cancellable_item s =
     (s \<in> {Pending, Processing, Paused, WaitingConfirm, WaitingRecognition, WaitingMetadata,
            WaitingMetadataCorrection, WaitingClassification})"

fun control_items :: "control \<Rightarrow> instant \<Rightarrow> pitem list \<Rightarrow> pitem list" where
  "control_items ControlPause now items =
     map (\<lambda>i. i\<lparr>i_status := Paused, i_stage := ''paused'', i_updated_at := now, i_error := None\<rparr>)
       (filter (\<lambda>i. pausable_item (i_status i)) items)"
| "control_items ControlCancel now items =
     map (\<lambda>i. i\<lparr>i_status := Cancelled, i_stage := ''cancelled'', i_updated_at := now,
               i_error := Some ''task cancelled''\<rparr>)
       (filter (\<lambda>i. cancellable_item (i_status i)) items)"

fun control_queue_state :: "control \<Rightarrow> queue_state" where
  "control_queue_state ControlPause = QueuePaused"
| "control_queue_state ControlCancel = Settled"

fun control_task :: "control \<Rightarrow> instant \<Rightarrow> ptask \<Rightarrow> ptask" where
  "control_task ControlPause now t =
     t\<lparr>t_status := TaskRunning, t_updated_at := now, t_completed_at := None, t_error := None,
       t_pause_requested := False\<rparr>"
| "control_task ControlCancel now t =
     t\<lparr>t_status := TaskCancelled, t_updated_at := now, t_completed_at := Some now,
       t_error := Some ''task cancelled'', t_pause_requested := False\<rparr>"

section \<open>The linked discovery and manual execution\<close>

fun json_set_field :: "string \<Rightarrow> json \<Rightarrow> (string \<times> json) list \<Rightarrow> (string \<times> json) list" where
  "json_set_field k v [] = [(k, v)]"
| "json_set_field k v ((k', v') # kvs) =
     (if k' = k then (k, v) # kvs else (k', v') # json_set_field k v kvs)"

fun set_phase :: "string \<Rightarrow> string \<Rightarrow> json \<Rightarrow> json" where
  "set_phase phase message (JObj kvs) =
     JObj (json_set_field ''message'' (JStr message) (json_set_field ''phase'' (JStr phase) kvs))"
| "set_phase phase message j = j"

definition cancelled_message :: string where
  "cancelled_message =
     ''this organizing work was cancelled by the operator; its known '' @
     ''findings and summary are preserved as history and no further '' @
     ''analysis or execution is admitted for it''"

fun settle_discovery :: "control \<Rightarrow> instant \<Rightarrow> discovery \<Rightarrow> discovery" where
  "settle_discovery ControlPause now v =
     (if v_status v \<in> {DiscCompleted, DiscPartialSuccess, DiscCancelled} then v
      else v\<lparr>v_status := DiscPaused, v_version := v_version v + 1, v_pause_requested := True,
             v_claim_worker := None, v_claim_token := None, v_claim_expires_at := None,
             v_updated_at := now\<rparr>)"
| "settle_discovery ControlCancel now v =
     (if v_status v \<in> {DiscFailed, DiscCancelled, DiscPaused} then v
      else v\<lparr>v_status := DiscCancelled, v_version := v_version v + 1, v_cancel_requested := True,
             v_claim_worker := None, v_claim_token := None, v_claim_expires_at := None,
             v_updated_at := now,
             v_progress := map_option (set_phase ''cancelled'' cancelled_message) (v_progress v)\<rparr>)"

definition publish_discovery_control :: "discovery \<Rightarrow> control \<Rightarrow> instant \<Rightarrow> db \<Rightarrow> db" where
  "publish_discovery_control v c now d =
     d\<lparr>db_discoveries :=
         update_rows (\<lambda>w. v_id w = v_id v) (settle_discovery c now) (db_discoveries d)\<rparr>"

fun publish_execution_items ::
  "string \<Rightarrow> execution_item list \<Rightarrow> execution_item list \<Rightarrow> execution_item list result" where
  "publish_execution_items execution_id [] rows = Inr rows"
| "publish_execution_items execution_id (i # is) rows =
     (let hit = (\<lambda>r. mi_id r = mi_id i \<and> mi_execution_id r = execution_id) in
      raise_if (row_count hit rows \<noteq> 1) LookupError
      (publish_execution_items execution_id is
        (update_rows hit
          (\<lambda>r. r\<lparr>mi_status := mi_status i, mi_stage := mi_stage i, mi_result_id := mi_result_id i,
                 mi_effect_certainty := mi_effect_certainty i,
                 mi_completed_operations := mi_completed_operations i,
                 mi_uncertain_effects := mi_uncertain_effects i, mi_error := mi_error i,
                 mi_next_action := mi_next_action i, mi_updated_at := mi_updated_at i\<rparr>) rows)))"

definition publish_manual_execution ::
  "control option \<Rightarrow> execution \<Rightarrow> execution_item list \<Rightarrow> db \<Rightarrow> db result" where
  "publish_manual_execution c e items d =
     raise_if (c \<noteq> Some ControlCancel \<and> \<not> terminal_execution (m_status e)) TaskControlRejected
     (let hit = (\<lambda>r. m_id r = m_id e) in
      raise_if (row_count hit (db_executions d) \<noteq> 1) LookupError
      (bind_result (publish_execution_items (m_id e) items (db_execution_items d)) (\<lambda>rows.
       Inr (d\<lparr>db_executions := update_rows hit
                (\<lambda>r. r\<lparr>m_status := m_status e, m_next_action := m_next_action e,
                       m_error := m_error e, m_updated_at := m_updated_at e,
                       m_completed_at := m_completed_at e\<rparr>) (db_executions d),
              db_execution_items := rows\<rparr>))))"

section \<open>Release\<close>

record release =
  g_task :: ptask
  g_items :: "pitem list"
  g_queue_state :: queue_state
  g_stage :: "machine_stage option"
  g_revision :: "nat option"
  g_discovery :: "discovery option"
  g_execution :: "execution option"
  g_execution_items :: "execution_item list"
  g_initial_stage :: "string option"
  g_close_boundary :: bool

definition clear_mutation :: "instant \<Rightarrow> sched \<Rightarrow> sched" where
  "clear_mutation now s = s\<lparr>
     s_mutation_state := None, s_mutation_item := None, s_mutation_action := None,
     s_updated_at := now\<rparr>"

definition drop_claim :: "sched \<Rightarrow> sched" where
  "drop_claim s = s\<lparr>
     s_token := None, s_worker := None, s_claimed_at := None, s_expires_at := None,
     s_heartbeat_at := None\<rparr>"

definition give_back :: "queue_state \<Rightarrow> machine_stage option \<Rightarrow> instant \<Rightarrow> sched \<Rightarrow> sched" where
  "give_back q stage now s = (drop_claim s)\<lparr>
     s_queue_state := q, s_stage := stage,
     s_control_acknowledged_at :=
       (if s_control s \<noteq> None then Some now else s_control_acknowledged_at s),
     s_updated_at := now\<rparr>"

fun publish_release_items :: "string \<Rightarrow> pitem list \<Rightarrow> db \<Rightarrow> db result" where
  "publish_release_items task_id [] d = Inr d"
| "publish_release_items task_id (i # is) d =
     (if item_is_superseded d task_id (i_id i) then publish_release_items task_id is d
      else bind_result (require_scheduled_item d task_id i ProgressPub) (\<lambda>_.
           bind_result (upsert_item i d) (publish_release_items task_id is)))"

definition release_values :: "fence option \<Rightarrow> release \<Rightarrow> unit result" where
  "release_values f g =
     raise_if (g_queue_state g \<notin> {WaitingHuman, QueuePaused, Settled}) ValueError
     (raise_if (case f of None \<Rightarrow> False | Some w \<Rightarrow> t_id (g_task g) \<noteq> f_task_id w)
        TaskSchedulingError
     (raise_if (list_ex (\<lambda>i. i_task_id i \<noteq> t_id (g_task g)) (g_items g)) TaskSchedulingError
     (raise_if (case g_execution g of None \<Rightarrow> False | Some e \<Rightarrow> m_task_id e \<noteq> t_id (g_task g))
        TaskSchedulingError
     (raise_if (list_ex (\<lambda>i. case g_execution g of None \<Rightarrow> True
                             | Some e \<Rightarrow> mi_execution_id i \<noteq> m_id e) (g_execution_items g))
        TaskSchedulingError
     (Inr ())))))"

definition release_now :: "fence option \<Rightarrow> release \<Rightarrow> instant" where
  "release_now f g = (case f of None \<Rightarrow> t_updated_at (g_task g) | Some w \<Rightarrow> f_now w)"

text \<open>The marker of a finished pass is cleared first, when the caller asked for it.\<close>

definition close_recorded_boundary :: "release \<Rightarrow> instant \<Rightarrow> sched \<Rightarrow> db \<Rightarrow> db" where
  "close_recorded_boundary g now s d =
     (if mutation_in_flight s \<and> g_close_boundary g \<and>
         recorded_unknown_boundary_is_finished d (t_id (g_task g)) s
      then update_sched (t_id (g_task g)) (clear_mutation now) d else d)"

text \<open>The refusals of an open transaction; None is the silent refusal of a lost claim.\<close>

definition release_guards :: "fence option \<Rightarrow> release \<Rightarrow> sched \<Rightarrow> db \<Rightarrow> unit option result" where
  "release_guards f g s d =
     raise_if (mutation_in_flight s) TaskControlRejected
     (raise_if (case g_revision g of None \<Rightarrow> False | Some n \<Rightarrow> s_control_revision s \<noteq> n)
        TaskControlRejected
     (raise_if (g_revision g = None \<and> s_control s = Some ControlCancel) TaskControlRejected
     (case f of
        Some w \<Rightarrow> if scheduled_claim d w then Inr (Some ()) else Inr None
      | None \<Rightarrow> raise_if (s_token s \<noteq> None) TaskControlRejected (Inr (Some ())))))"

definition release_writes :: "release \<Rightarrow> instant \<Rightarrow> sched \<Rightarrow> db \<Rightarrow> db result" where
  "release_writes g now s d =
     (let task = g_task g; k = t_id task in
      bind_result (require_no_machine_items d k (g_items g)) (\<lambda>_.
      bind_result (require_scheduled_authority d task) (\<lambda>_.
      bind_result (publish_release_items k (g_items g) (publish_task_row task d)) (\<lambda>d2.
      bind_result
        (case g_execution g of None \<Rightarrow> Inr d2
         | Some e \<Rightarrow> publish_manual_execution (s_control s) e (g_execution_items g) d2) (\<lambda>d3.
      let d4 = (case (g_initial_stage g, t_started_at task) of
                  (Some label, Some started) \<Rightarrow> record_initial_execution k label started now d3
                | _ \<Rightarrow> d3);
          d5 = d4\<lparr>db_locks := delete_rows (\<lambda>l. l_task_id l = k) (db_locks d4)\<rparr>;
          d6 = update_sched k (give_back (g_queue_state g) (g_stage g) now) d5
      in Inr (case (g_discovery g, s_control s) of
                (Some v, Some c) \<Rightarrow> publish_discovery_control v c now d6
              | _ \<Rightarrow> d6))))))"

definition release_scheduled_claim :: "fence option \<Rightarrow> release \<Rightarrow> (db, sched option) body" where
  "release_scheduled_claim f g d =
     bind_result (release_values f g) (\<lambda>_.
     let k = t_id (g_task g); now = release_now f g in
     (case scheduled_state d k of
        None \<Rightarrow> Inl TaskControlRejected
      | Some s0 \<Rightarrow>
          (let d1 = close_recorded_boundary g now s0 d in
           (case scheduled_state d1 k of
              None \<Rightarrow> Inl AssertionError
            | Some s \<Rightarrow>
                bind_result (release_guards f g s d1) (\<lambda>go.
                (case go of
                   None \<Rightarrow> Inr (None, d)
                 | Some _ \<Rightarrow> bind_result (release_writes g now s d1) (\<lambda>d2.
                     Inr (scheduled_state d2 k, d2))))))))"

section \<open>Yield\<close>

text \<open>The token and the Worker of the yielded claim stay in the row.\<close>

definition yield_row :: "machine_stage \<Rightarrow> instant option \<Rightarrow> instant \<Rightarrow> sched \<Rightarrow> sched" where
  "yield_row stage eligible now s = s\<lparr>
     s_queue_state := Queued, s_stage := Some stage, s_eligible_at := eligible,
     s_claimed_at := None, s_expires_at := None, s_heartbeat_at := None, s_updated_at := now\<rparr>"

definition yield_scheduled_claim ::
  "fence \<Rightarrow> ptask \<Rightarrow> pitem list \<Rightarrow> machine_stage \<Rightarrow> datetime option \<Rightarrow> (db, sched option) body" where
  "yield_scheduled_claim f task items stage eligible d =
     raise_if (t_id task \<noteq> f_task_id f) TaskSchedulingError
     (bind_result (require_aware_opt eligible) (\<lambda>e.
     raise_if (list_ex (\<lambda>i. i_task_id i \<noteq> t_id task) items) TaskSchedulingError
     (if \<not> scheduled_claim d f then Inr (None, d)
      else (case scheduled_state d (f_task_id f) of
         None \<Rightarrow> Inl TaskControlRejected
       | Some s \<Rightarrow>
           raise_if (mutation_in_flight s) TaskControlRejected
           (raise_if (s_control s \<noteq> None) TaskControlRejected
           (bind_result (require_scheduled_authority d task) (\<lambda>_.
            let d1 = publish_task_row task d;
                d2 = d1\<lparr>db_sched := update_rows
                       (\<lambda>s. s_task_id s = f_task_id f \<and> s_token s = Some (f_token f) \<and>
                            s_generation s = f_generation f)
                       (yield_row stage e (f_now f)) (db_sched d1)\<rparr>
            in Inr (scheduled_state d2 (f_task_id f), d2))))))))"

section \<open>Re-entry\<close>

definition reopen_task :: "task_status \<Rightarrow> instant \<Rightarrow> ptask \<Rightarrow> ptask" where
  "reopen_task status now t = t\<lparr>
     t_status := status, t_updated_at := now, t_completed_at := None, t_error := None,
     t_pause_requested := False\<rparr>"

definition forget_control :: "sched \<Rightarrow> sched" where
  "forget_control s =
     s\<lparr>s_control := None, s_control_requested_at := None, s_control_acknowledged_at := None\<rparr>"

definition reenter ::
  "queue_state \<Rightarrow> machine_stage option \<Rightarrow> instant option \<Rightarrow> instant \<Rightarrow> sched \<Rightarrow> sched" where
  "reenter q stage eligible now s = (forget_control (drop_claim s))\<lparr>
     s_queue_state := q, s_stage := stage, s_eligible_at := eligible,
     s_generation := s_generation s + 1, s_updated_at := now\<rparr>"

definition reentry_guards :: "db \<Rightarrow> string \<Rightarrow> nat option \<Rightarrow> ptask result" where
  "reentry_guards d task_id revision =
     (case scheduled_state d task_id of
        None \<Rightarrow> Inl TaskControlRejected
      | Some s \<Rightarrow>
          raise_if (s_queue_state s \<notin> {WaitingHuman, QueuePaused}) TaskControlRejected
          (raise_if (mutation_in_flight s) TaskControlRejected
          (raise_if (s_control s = Some ControlCancel) TaskControlRejected
          (raise_if (case revision of None \<Rightarrow> False | Some n \<Rightarrow> s_control_revision s \<noteq> n)
             TaskControlRejected
          (case get_task d task_id of
             None \<Rightarrow> Inl LookupError
           | Some t \<Rightarrow> raise_if (t_status t = TaskCancelled) TaskControlRejected (Inr t))))))"

definition bounded_actor :: "string option \<Rightarrow> string option result" where
  "bounded_actor a =
     (case a of None \<Rightarrow> Inr None | Some s \<Rightarrow> bind_result (bounded_text s 128) (\<lambda>t. Inr (Some t)))"

definition requeue_scheduled_task ::
  "string \<Rightarrow> string option \<Rightarrow> string option \<Rightarrow> nat option \<Rightarrow> pynum \<Rightarrow> datetime \<Rightarrow>
   machine_stage option \<Rightarrow> datetime option \<Rightarrow> string option \<Rightarrow> (db, sched) body" where
  "requeue_scheduled_task task_id snapshot digest revision capacity now stage eligible actor d =
     bind_result (require_capacity capacity) (\<lambda>cap.
     bind_result (require_aware now) (\<lambda>t.
     raise_if ((snapshot = None) \<noteq> (digest = None)) ValueError
     (bind_result (require_aware_opt eligible) (\<lambda>e.
     bind_result (bounded_actor actor) (\<lambda>a.
     bind_result (reentry_guards d task_id revision) (\<lambda>task.
     raise_if ((t_snapshot_id task, t_snapshot_digest task) \<noteq> (snapshot, digest))
       TaskControlRejected
     (raise_if (cap \<le> capacity_use d) TaskQueueFull
     (let d1 = update_task task_id (reopen_task TaskPending t) d;
          d2 = update_sched task_id
                 (\<lambda>s. (reenter Queued stage e t s)\<lparr>s_continuation_actor := a\<rparr>) d1
      in (case scheduled_state d2 task_id of
            None \<Rightarrow> Inl AssertionError
          | Some s \<Rightarrow> Inr (s, d2))))))))))"

definition requeue_scheduled_analysis ::
  "string \<Rightarrow> discovery \<Rightarrow> nat \<Rightarrow> pynum \<Rightarrow> datetime \<Rightarrow> machine_stage \<Rightarrow> (db, discovery option) body" where
  "requeue_scheduled_analysis task_id v expected_version capacity now stage d =
     bind_result (require_capacity capacity) (\<lambda>cap.
     bind_result (require_aware now) (\<lambda>t.
     raise_if (v_task_id v \<noteq> Some task_id) ValueError
     (bind_result (reentry_guards d task_id None) (\<lambda>task.
     raise_if (cap \<le> capacity_use d) TaskQueueFull
     (let hit = (\<lambda>w. v_id w = v_id v \<and> v_version w = expected_version);
          d1 = d\<lparr>db_discoveries := update_rows hit
                 (\<lambda>w. w\<lparr>v_status := v_status v, v_version := v_version v, v_progress := v_progress v,
                        v_preview_id := v_preview_id v, v_error := v_error v,
                        v_updated_at := v_updated_at v, v_pause_requested := False,
                        v_claim_worker := None, v_claim_token := None,
                        v_claim_expires_at := None\<rparr>) (db_discoveries d)\<rparr>;
          d2 = update_task task_id (reopen_task TaskPending t) d1;
          d3 = update_sched task_id (reenter Queued (Some stage) None t) d2
      in raise_if (row_count hit (db_discoveries d) \<noteq> 1) DiscoveryConflict
         (Inr (find_row v_id (v_id v) (db_discoveries d3), d3)))))))"

section \<open>Operator entrances that run several transactions\<close>

definition newest_discovery :: "discovery \<Rightarrow> discovery \<Rightarrow> bool" where
  "newest_discovery a b =
     (v_created_at b < v_created_at a \<or>
      (v_created_at a = v_created_at b \<and> text_le (v_id b) (v_id a)))"

definition get_media_discovery_for_task :: "db \<Rightarrow> string \<Rightarrow> discovery option result" where
  "get_media_discovery_for_task d task_id =
     raise_if (strip task_id = []) ValueError
     (Inr (least_row newest_discovery (filter (\<lambda>v. v_task_id v = Some task_id) (db_discoveries d))))"

definition settles_immediately :: "sched \<Rightarrow> bool" where
  "settles_immediately s =
     (s_token s = None \<and> \<not> mutation_in_flight s \<and>
      s_queue_state s \<in> {Queued, WaitingHuman, QueuePaused})"

definition control_release ::
  "ptask \<Rightarrow> pitem list \<Rightarrow> control \<Rightarrow> instant \<Rightarrow> nat \<Rightarrow> discovery option \<Rightarrow> release" where
  "control_release task items c now revision v =
     \<lparr>g_task = control_task c now task, g_items = control_items c now items,
      g_queue_state = control_queue_state c, g_stage = None, g_revision = Some revision,
      g_discovery = v, g_execution = None, g_execution_items = [], g_initial_stage = None,
      g_close_boundary = False\<rparr>"

text \<open>\<open>expected_version\<close> is compared with the text of an instant, here with the instant itself.\<close>

definition read_current :: "string \<Rightarrow> instant option \<Rightarrow> (db, ptask) tx" where
  "read_current task_id expected_version = read_tx (\<lambda>d.
     (case get_task d task_id of
        None \<Rightarrow> Inl LookupError
      | Some t \<Rightarrow>
          raise_if (expected_version \<noteq> None \<and> expected_version \<noteq> Some (t_updated_at t))
            TaskControlRejected (Inr t)))"

definition request_scheduled_task_control ::
  "string \<Rightarrow> control \<Rightarrow> instant option \<Rightarrow> datetime \<Rightarrow> (db, ptask) tx" where
  "request_scheduled_task_control task_id c expected_version now =
     bind_tx (return_tx (require_aware now)) (\<lambda>t.
     bind_tx (read_current task_id expected_version) (\<lambda>current.
     bind_tx (atomic (request_scheduled_control task_id c now)) (\<lambda>s.
     bind_tx (read_tx (\<lambda>d. get_media_discovery_for_task d task_id)) (\<lambda>v.
     if \<not> settles_immediately s then return_tx (Inr current)
     else
       bind_tx (read_tx (\<lambda>d. Inr (task_items d task_id))) (\<lambda>items.
       bind_tx (atomic (release_scheduled_claim None
                 (control_release current items c t (s_control_revision s) v))) (\<lambda>_.
       read_tx (\<lambda>d. Inr (case get_task d task_id of None \<Rightarrow> current | Some u \<Rightarrow> u))))))))"

definition resume_row :: "instant \<Rightarrow> sched \<Rightarrow> sched" where
  "resume_row now s = reenter WaitingHuman None None now s"

definition resume_waiting :: "string \<Rightarrow> instant \<Rightarrow> (db, unit) body" where
  "resume_waiting task_id now d =
     (case scheduled_state d task_id of
        None \<Rightarrow> Inl TaskControlRejected
      | Some s \<Rightarrow>
          raise_if (s_queue_state s \<noteq> QueuePaused) TaskControlRejected
          (raise_if (s_control s = Some ControlCancel) TaskControlRejected
          (Inr ((), update_sched task_id (resume_row now)
                      (update_task task_id (reopen_task TaskRunning now) d)))))"

fun discovery_status_value :: "discovery_status \<Rightarrow> string" where
  "discovery_status_value DiscQueued = ''queued''"
| "discovery_status_value DiscRunning = ''running''"
| "discovery_status_value DiscPaused = ''paused''"
| "discovery_status_value DiscWaitingStability = ''waiting_stability''"
| "discovery_status_value DiscAnalyzing = ''analyzing''"
| "discovery_status_value DiscCompleted = ''completed''"
| "discovery_status_value DiscPartialSuccess = ''partial_success''"
| "discovery_status_value DiscFailed = ''failed''"
| "discovery_status_value DiscCancelled = ''cancelled''"

definition resumed_message :: string where
  "resumed_message =
     ''resumed by the operator; the resident Worker continues the same scope''"

definition resumed_discovery :: "discovery \<Rightarrow> instant \<Rightarrow> discovery \<times> machine_stage" where
  "resumed_discovery v now =
     (let frozen = (v_frozen_at v \<noteq> None \<and> v_sources v \<noteq> []);
          target = (if frozen \<and> v_intent_id v \<noteq> None then DiscAnalyzing else DiscQueued);
          stage = (if frozen \<and> v_intent_id v \<noteq> None then Analysis else Discovery)
      in (v\<lparr>v_status := target, v_version := v_version v + 1, v_pause_requested := False,
            v_updated_at := now, v_error := None,
            v_progress :=
              map_option (set_phase (discovery_status_value target) resumed_message) (v_progress v)\<rparr>,
          stage))"

definition resume_scheduled_task ::
  "string \<Rightarrow> instant option \<Rightarrow> pynum \<Rightarrow> datetime \<Rightarrow> (db, ptask) tx" where
  "resume_scheduled_task task_id expected_version capacity now =
     bind_tx (return_tx (require_capacity capacity)) (\<lambda>_.
     bind_tx (return_tx (require_aware now)) (\<lambda>t.
     bind_tx (read_current task_id expected_version) (\<lambda>current.
     bind_tx (read_tx (\<lambda>d.
       (case scheduled_state d task_id of
          None \<Rightarrow> Inl TaskControlRejected
        | Some s \<Rightarrow>
            raise_if (s_control s = Some ControlCancel) TaskControlRejected
            (raise_if (s_queue_state s \<noteq> QueuePaused) TaskControlRejected
            (get_media_discovery_for_task d task_id))))) (\<lambda>found.
     let finish = read_tx (\<lambda>d. Inr (case get_task d task_id of None \<Rightarrow> current | Some u \<Rightarrow> u)) in
     (case found of
        Some v \<Rightarrow>
          if v_status v = DiscPaused
          then bind_tx (atomic (requeue_scheduled_analysis task_id (fst (resumed_discovery v t))
                 (v_version v) capacity now (snd (resumed_discovery v t)))) (\<lambda>_. finish)
          else bind_tx (atomic (resume_waiting task_id t)) (\<lambda>_. finish)
      | None \<Rightarrow> bind_tx (atomic (resume_waiting task_id t)) (\<lambda>_. finish))))))"

end
