(* ===== verification/Kernel_Items.thy ===== *)
theory Kernel_Items
  imports Kernel_Control
begin

text \<open>
  Fenced publication: \<open>upsert_scheduled_item\<close>, \<open>begin_scheduled_item_with_ownership\<close>,
  \<open>begin_scheduled_mutation\<close>, \<open>publish_scheduled_item_outcome\<close> and \<open>publish_scheduled_task\<close> of
  \<open>sqlite_runtime.py\<close>. The two questions the ownership start asks of the rest of the database (who
  else owns the source, and what its latest formal outcome was) are arguments; every property of the
  start holds whatever they answer.
\<close>

section \<open>Start and progress\<close>

definition upsert_scheduled_item :: "fence \<Rightarrow> pitem \<Rightarrow> publication \<Rightarrow> (db, bool) body" where
  "upsert_scheduled_item f item stage d =
     (if \<not> scheduled_claim d f then Inr (False, d)
      else bind_result (require_scheduled_item d (f_task_id f) item stage) (\<lambda>_.
           bind_result (upsert_item item d) (\<lambda>d'. Inr (True, d'))))"

definition excluding_outcome :: "string \<Rightarrow> bool" where
  "excluding_outcome s = (s \<in> {''failed'', ''partial''})"

definition skipped_by_history :: "pitem \<Rightarrow> string \<Rightarrow> string \<Rightarrow> pitem" where
  "skipped_by_history item stage reason =
     item\<lparr>i_status := Skipped, i_stage := stage, i_execution_status := None,
          i_error := Some reason, i_progress := None\<rparr>"

text \<open>
  \<open>_scheduled_history_gate_item_locked\<close>: the row to write instead of the start, if any. A history
  that cannot be read is \<open>Inl\<close>; \<open>Inr (Some s)\<close> is the status of the latest formal outcome.
\<close>

definition history_gate_item :: "string option result \<Rightarrow> pitem \<Rightarrow> pitem option" where
  "history_gate_item history item =
     (case history of
        Inl _ \<Rightarrow> Some (skipped_by_history item history_unavailable_item_stage
                        history_unavailable_item_reason)
      | Inr None \<Rightarrow> None
      | Inr (Some s) \<Rightarrow>
          if excluding_outcome s
          then Some (skipped_by_history item history_excluded_item_stage (history_excluded_item_reason s))
          else None)"

definition begin_scheduled_item_with_ownership ::
  "(db \<Rightarrow> pitem \<Rightarrow> 'o option) \<Rightarrow> (db \<Rightarrow> pitem \<Rightarrow> string option result) \<Rightarrow> fence \<Rightarrow> pitem \<Rightarrow>
   publication \<Rightarrow> bool \<Rightarrow> (db, bool \<times> 'o option) body" where
  "begin_scheduled_item_with_ownership owner_of history_of f item stage exclude_failed_history d =
     raise_if (i_source_storage_path item = None) ValueError
     (if \<not> scheduled_claim d f then Inr ((False, None), d)
      else (case owner_of d item of
              Some owner \<Rightarrow> Inr ((False, Some owner), d)
            | None \<Rightarrow>
                let gated = (if exclude_failed_history
                             then history_gate_item (history_of d item) item else None);
                    written = (case gated of None \<Rightarrow> item | Some g \<Rightarrow> g)
                in bind_result (require_scheduled_item d (f_task_id f) written stage) (\<lambda>_.
                   bind_result (upsert_item written d) (\<lambda>d'. Inr ((True, None), d')))))"

section \<open>The mutation boundary\<close>

definition mark_mutation :: "string \<Rightarrow> string \<Rightarrow> instant \<Rightarrow> sched \<Rightarrow> sched" where
  "mark_mutation item_id action now s = s\<lparr>
     s_mutation_state := Some MutationInFlight, s_mutation_item := Some item_id,
     s_mutation_action := Some action, s_updated_at := now\<rparr>"

definition max_mutation_action_length :: nat where
  "max_mutation_action_length = 128"

definition begin_scheduled_mutation :: "fence \<Rightarrow> string \<Rightarrow> string \<Rightarrow> (db, bool) body" where
  "begin_scheduled_mutation f item_id action d =
     bind_result (bounded_text action max_mutation_action_length) (\<lambda>act.
     (if \<not> scheduled_claim d f then Inr (False, d)
      else (case item_row_of d item_id of
              None \<Rightarrow> Inl TaskSchedulingError
            | Some r \<Rightarrow>
                raise_if (i_task_id (ir_item r) \<noteq> f_task_id f) TaskSchedulingError
                (raise_if (i_status (ir_item r) \<noteq> Processing) TaskSchedulingError
                (raise_if (\<not> replay_safe d item_id) TaskSchedulingError
                (case scheduled_state d (f_task_id f) of
                   None \<Rightarrow> Inl TaskClaimFenceLost
                 | Some s \<Rightarrow>
                     raise_if (mutation_in_flight s) TaskSchedulingError
                     (Inr (True, update_sched (f_task_id f)
                                   (mark_mutation item_id act (f_now f)) d))))))))"

section \<open>Outcome\<close>

definition append_evidence :: "evidence \<Rightarrow> db \<Rightarrow> db" where
  "append_evidence e d = d\<lparr>db_evidence :=
     delete_rows (\<lambda>r. e_id r = e_id e) (db_evidence d) @
     [e\<lparr>e_source_path := redact_evidence_text (e_source_path e) None\<rparr>]\<rparr>"

definition require_matching_evidence :: "fence \<Rightarrow> pitem \<Rightarrow> pitem \<Rightarrow> evidence option \<Rightarrow> unit result" where
  "require_matching_evidence f item stored ev =
     (case ev of None \<Rightarrow> Inr ()
      | Some e \<Rightarrow>
          raise_if (e_task_id e \<noteq> f_task_id f \<or> e_item_id e \<noteq> i_id item \<or>
                    e_source_storage_id e \<noteq> i_storage_id stored \<or>
                    e_source_path e \<noteq> i_source_path stored) TaskSchedulingError (Inr ()))"

definition require_evidence_pin :: "ptask \<Rightarrow> evidence option \<Rightarrow> unit result" where
  "require_evidence_pin t ev =
     (case ev of None \<Rightarrow> Inr ()
      | Some e \<Rightarrow>
          raise_if ((e_snapshot_id e \<noteq> None \<or> e_snapshot_digest e \<noteq> None) \<and>
                    (e_snapshot_id e, e_snapshot_digest e) \<noteq> (t_snapshot_id t, t_snapshot_digest t))
            TaskSchedulingError (Inr ()))"

definition clears_boundary :: "sched option \<Rightarrow> string \<Rightarrow> string list presult \<Rightarrow> bool" where
  "clears_boundary st item_id r =
     ((case st of None \<Rightarrow> False | Some s \<Rightarrow> s_mutation_item s = Some item_id) \<and>
      boundary_clearing_certainty (r_effect_certainty r) \<and>
      r_uncertain_effects r = [] \<and>
      (r_effect_certainty r = ''verified_complete'' \<or> r_completed_operations r = []))"

definition outcome_guards ::
  "fence \<Rightarrow> pitem \<Rightarrow> string list presult \<Rightarrow> evidence option \<Rightarrow> db \<Rightarrow> unit result" where
  "outcome_guards f item r ev d =
     bind_result (require_scheduled_item d (f_task_id f) item OutcomePub) (\<lambda>_.
     (case get_item d (i_id item) of
        None \<Rightarrow> Inl TaskSchedulingError
      | Some stored \<Rightarrow>
          raise_if (r_task_id r \<noteq> f_task_id f \<or> r_item_id r \<noteq> i_id item) TaskSchedulingError
          (bind_result (require_result_matches_item_source stored r) (\<lambda>_.
           raise_if (r_source_storage_id r \<noteq> i_storage_id stored \<or>
                     r_source_path r \<noteq> i_source_path stored) TaskSchedulingError
           (bind_result (require_matching_evidence f item stored ev) (\<lambda>_.
            (case get_task d (f_task_id f) of
               None \<Rightarrow> Inl LookupError
             | Some t \<Rightarrow> require_evidence_pin t ev)))))))"

definition publish_scheduled_item_outcome ::
  "fence \<Rightarrow> pitem \<Rightarrow> string list presult \<Rightarrow> evidence option \<Rightarrow> bool \<Rightarrow> (db, bool) body" where
  "publish_scheduled_item_outcome f item r ev clear_hint d =
     (if \<not> scheduled_claim d f then Inr (False, d)
      else bind_result (outcome_guards f item r ev d) (\<lambda>_.
           bind_result (case insert_result r False d of
                          Inl IntegrityError \<Rightarrow> Inl TaskResultConflict | x \<Rightarrow> x) (\<lambda>d1.
           bind_result (upsert_item item d1) (\<lambda>d2.
           let d3 = (case ev of None \<Rightarrow> d2 | Some e \<Rightarrow> append_evidence e d2)
           in Inr (True,
                if clears_boundary (scheduled_state d3 (f_task_id f)) (i_id item) r
                then d3\<lparr>db_sched := update_rows
                        (\<lambda>s. s_task_id s = f_task_id f \<and> s_mutation_item s = Some (i_id item))
                        (clear_mutation (f_now f)) (db_sched d3)\<rparr>
                else d3)))))"

section \<open>The Task aggregate\<close>

definition publish_scheduled_task :: "fence \<Rightarrow> ptask \<Rightarrow> (db, bool) body" where
  "publish_scheduled_task f task d =
     raise_if (t_id task \<noteq> f_task_id f) TaskSchedulingError
     (if \<not> scheduled_claim d f then Inr (False, d)
      else bind_result (require_scheduled_authority d task) (\<lambda>_.
           Inr (True, publish_task_row task d)))"

end
