(* ===== verification/Kernel_Rows.thy ===== *)
theory Kernel_Rows
  imports Kernel_Items
begin

text \<open>
  The abstract lifecycle of one scheduling row, and the refinement that ties the transactions to it:
  \<open>row_step m s s'\<close> is what move \<open>m\<close> may do to a row, independent of any table, and each transaction
  leaves every row either alone or after moves of its own kind (\<open>evolves\<close>). Row invariants are then
  proved over the relation, by cases, and hold of every transaction.
\<close>

section \<open>The moves of a row\<close>

datatype move =
    MClaim | MBeat | MStage | MControl | MClear | MFencedRelease | MFreeRelease | MYield
  | MReenter | MResume | MMark

definition parked :: "queue_state \<Rightarrow> bool" where
  "parked q = (q \<in> {WaitingHuman, QueuePaused, Settled})"

inductive row_step :: "move \<Rightarrow> sched \<Rightarrow> sched \<Rightarrow> bool" where
  claim: "\<lbrakk>s_queue_state s \<in> {Queued, Claimed}; s_mutation_state s = None;
           s_token s = None \<or> (case s_expires_at s of None \<Rightarrow> True | Some e \<Rightarrow> e \<le> now)\<rbrakk>
    \<Longrightarrow> row_step MClaim s (grant_claim w tok now e s)"
| beat: "s_queue_state s = Claimed \<Longrightarrow> row_step MBeat s (extend_claim now e s)"
| stage: "s_queue_state s = Claimed \<Longrightarrow> row_step MStage s (enter_stage st now s)"
| control: "\<lbrakk>s_queue_state s \<noteq> Settled; s_control s \<noteq> Some ControlCancel\<rbrakk>
    \<Longrightarrow> row_step MControl s (accept_control c now s)"
| clear: "s_queue_state s = Claimed \<Longrightarrow> row_step MClear s (clear_mutation now s)"
| fenced: "\<lbrakk>s_queue_state s = Claimed; s_mutation_state s = None; parked q\<rbrakk>
    \<Longrightarrow> row_step MFencedRelease s (give_back q st now s)"
| free: "\<lbrakk>s_token s = None; s_mutation_state s = None; parked q\<rbrakk>
    \<Longrightarrow> row_step MFreeRelease s (give_back q st now s)"
| yield: "\<lbrakk>s_queue_state s = Claimed; s_mutation_state s = None; s_control s = None\<rbrakk>
    \<Longrightarrow> row_step MYield s (yield_row st' e' now s)"
| reenter: "\<lbrakk>s_queue_state s \<in> {WaitingHuman, QueuePaused}; s_mutation_state s = None;
             s_control s \<noteq> Some ControlCancel\<rbrakk>
    \<Longrightarrow> row_step MReenter s ((reenter Queued st e' now s)\<lparr>s_continuation_actor := a\<rparr>)"
| resume: "\<lbrakk>s_queue_state s = QueuePaused; s_control s \<noteq> Some ControlCancel\<rbrakk>
    \<Longrightarrow> row_step MResume s (resume_row now s)"
| mark: "\<lbrakk>s_queue_state s = Claimed; s_mutation_state s = None\<rbrakk>
    \<Longrightarrow> row_step MMark s (mark_mutation i act now s)"

inductive_cases row_stepE: "row_step m s s'"
inductive_simps row_step_claim_simp: "row_step MClaim s s'"
inductive_simps row_step_mark_simp: "row_step MMark s s'"

text \<open>The row transformers of the transactions, unfolded together.\<close>

lemmas row_updates = grant_claim_def extend_claim_def enter_stage_def accept_control_def
  clear_mutation_def give_back_def drop_claim_def yield_row_def reenter_def forget_control_def
  resume_row_def mark_mutation_def parked_def

definition row_trans :: "move set \<Rightarrow> sched \<Rightarrow> sched \<Rightarrow> bool" where
  "row_trans L = (\<lambda>s s'. \<exists>m \<in> L. row_step m s s')\<^sup>*\<^sup>*"

lemma row_trans_refl [simp, intro]: "row_trans L s s"
  by (simp add: row_trans_def)

lemma row_trans_step: "row_step m s s' \<Longrightarrow> m \<in> L \<Longrightarrow> row_trans L s s'"
  unfolding row_trans_def by (rule r_into_rtranclp) blast

lemma row_trans_trans: "row_trans L s t \<Longrightarrow> row_trans L t u \<Longrightarrow> row_trans L s u"
  unfolding row_trans_def by (rule rtranclp_trans)

lemma row_trans_mono: "row_trans L s t \<Longrightarrow> L \<subseteq> M \<Longrightarrow> row_trans M s t"
  unfolding row_trans_def by (erule rtranclp_mono [THEN predicate2D, rotated]) blast

text \<open>Invariance along moves, for a property of a row and for a relation to an earlier row.\<close>

lemma row_trans_invariant:
  assumes "row_trans L s t" "P s" "\<And>m a b. m \<in> L \<Longrightarrow> row_step m a b \<Longrightarrow> P a \<Longrightarrow> P b"
  shows "P t"
  using assms(1) unfolding row_trans_def
  by (induction rule: rtranclp_induct) (use assms(2,3) in blast)+

lemma row_step_task: "row_step m s s' \<Longrightarrow> s_task_id s' = s_task_id s"
  by (erule row_stepE) (simp_all add: row_updates)

lemma row_trans_task: "row_trans L s t \<Longrightarrow> s_task_id t = s_task_id s"
  by (rule row_trans_invariant [where P = "\<lambda>r. s_task_id r = s_task_id s"])
    (auto dest: row_step_task)

section \<open>Invariants of a row\<close>

text \<open>
  A claimed row has an owner and a lease; a parked row has none; a mutation is in flight only under
  a claim. A queued row may carry the token of the owner that yielded it.
\<close>

definition row_ok :: "sched \<Rightarrow> bool" where
  "row_ok s =
     (s_queue_state s \<noteq> NotAdmitted \<and>
      (s_queue_state s = Claimed \<longrightarrow>
         s_token s \<noteq> None \<and> s_worker s \<noteq> None \<and> s_claimed_at s \<noteq> None \<and>
         s_expires_at s \<noteq> None \<and> s_heartbeat_at s \<noteq> None \<and> 0 < s_generation s) \<and>
      (parked (s_queue_state s) \<longrightarrow>
         s_token s = None \<and> s_worker s = None \<and> s_claimed_at s = None \<and>
         s_expires_at s = None \<and> s_heartbeat_at s = None) \<and>
      (s_queue_state s = Queued \<longrightarrow>
         s_claimed_at s = None \<and> s_expires_at s = None \<and> s_heartbeat_at s = None) \<and>
      (s_mutation_state s \<noteq> None \<longrightarrow> s_queue_state s = Claimed \<and> s_mutation_item s \<noteq> None))"

definition fresh_row :: "sched \<Rightarrow> bool" where
  "fresh_row s =
     (s_queue_state s = Queued \<and> s_generation s = 0 \<and> s_token s = None \<and> s_worker s = None \<and>
      s_claimed_at s = None \<and> s_expires_at s = None \<and> s_heartbeat_at s = None \<and>
      s_control s = None \<and> s_mutation_state s = None)"

lemma fresh_row_ok: "fresh_row s \<Longrightarrow> row_ok s"
  by (auto simp: fresh_row_def row_ok_def parked_def)

lemma row_step_ok: "row_step m s s' \<Longrightarrow> row_ok s \<Longrightarrow> row_ok s'"
  by (erule row_stepE) (auto simp: row_ok_def row_updates)

lemma row_trans_ok: "row_trans L s t \<Longrightarrow> row_ok s \<Longrightarrow> row_ok t"
  by (erule row_trans_invariant) (auto intro: row_step_ok)

lemma row_step_generation: "row_step m s s' \<Longrightarrow> s_generation s \<le> s_generation s'"
  by (erule row_stepE) (auto simp: row_updates)

lemma row_step_cancel: "row_step m s s' \<Longrightarrow> s_control s = Some ControlCancel \<Longrightarrow> s_control s' = Some ControlCancel"
  by (erule row_stepE) (auto simp: row_updates)

lemma row_step_revision: "row_step m s s' \<Longrightarrow> s_control_revision s \<le> s_control_revision s'"
  by (erule row_stepE) (auto simp: row_updates)

text \<open>The moves that take no slot.\<close>

lemma row_step_capacity: "row_step m s s' \<Longrightarrow> m \<noteq> MReenter \<Longrightarrow> holds_capacity s' \<Longrightarrow> holds_capacity s"
  by (erule row_stepE) (auto simp: row_updates holds_capacity_def queue_holds_capacity_def)

lemma row_step_admission:
  "row_step m s s' \<Longrightarrow> s_trigger s' = s_trigger s \<and> s_principal s' = s_principal s \<and>
    s_request_id s' = s_request_id s \<and> s_created_at s' = s_created_at s"
  by (erule row_stepE) (simp_all add: row_updates)

text \<open>Only an unfenced release leaves the settled state.\<close>

lemma row_step_settled:
  "row_step m s s' \<Longrightarrow> m \<noteq> MFreeRelease \<Longrightarrow> s_queue_state s = Settled \<Longrightarrow> s' = s"
  by (erule row_stepE) (auto simp: row_updates)

text \<open>While a mutation is in flight the claim keeps its owner, and only the marked boundary ends.\<close>

lemma row_step_in_flight:
  "row_step m s s' \<Longrightarrow> row_ok s \<Longrightarrow> s_mutation_state s \<noteq> None \<Longrightarrow>
    s_queue_state s' = Claimed \<and> s_generation s' = s_generation s \<and> s_token s' = s_token s \<and>
    s_worker s' = s_worker s \<and>
    (m \<noteq> MClear \<longrightarrow> s_mutation_state s' = s_mutation_state s \<and>
       s_mutation_item s' = s_mutation_item s \<and> s_mutation_action s' = s_mutation_action s)"
  by (erule row_stepE) (auto simp: row_ok_def row_updates)

section \<open>Evolution of the whole table\<close>

definition evolves :: "move set \<Rightarrow> db \<Rightarrow> db \<Rightarrow> bool" where
  "evolves L d d' = list_all2 (row_trans L) (db_sched d) (db_sched d')"

lemma evolves_refl [simp, intro]: "db_sched d' = db_sched d \<Longrightarrow> evolves L d d'"
  by (simp add: evolves_def list.rel_refl)

lemma list_all2_row_trans_trans:
  "list_all2 (row_trans L) xs ys \<Longrightarrow> list_all2 (row_trans L) ys zs \<Longrightarrow> list_all2 (row_trans L) xs zs"
  by (rule list_all2_trans [of "row_trans L" "row_trans L" "row_trans L"]) (rule row_trans_trans)

lemma evolves_trans: "evolves L d e \<Longrightarrow> evolves L e g \<Longrightarrow> evolves L d g"
  unfolding evolves_def by (rule list_all2_row_trans_trans)

lemma evolves_mono: "evolves L d d' \<Longrightarrow> L \<subseteq> M \<Longrightarrow> evolves M d d'"
  unfolding evolves_def by (erule list_all2_mono) (rule row_trans_mono)

lemma update_rows_trans:
  "(\<And>s. s \<in> set rs \<Longrightarrow> P s \<Longrightarrow> row_trans L s (f s)) \<Longrightarrow> list_all2 (row_trans L) rs (update_rows P f rs)"
  by (induction rs) (auto simp: update_rows_def)

lemma evolves_keys: "evolves L d d' \<Longrightarrow> map s_task_id (db_sched d') = map s_task_id (db_sched d)"
  unfolding evolves_def
  by (induction rule: list_all2_induct) (auto dest: row_trans_task)

lemma evolves_distinct: "evolves L d d' \<Longrightarrow> distinct_rows s_task_id (db_sched d') = distinct_rows s_task_id (db_sched d)"
  by (simp add: distinct_rows_def evolves_keys)

lemma list_all2_find:
  "list_all2 (row_trans L) rs ss \<Longrightarrow>
    (find_row s_task_id k rs = None \<and> find_row s_task_id k ss = None) \<or>
    (\<exists>s t. find_row s_task_id k rs = Some s \<and> find_row s_task_id k ss = Some t \<and> row_trans L s t)"
  by (induction rule: list_all2_induct) (auto dest: row_trans_task)

lemma evolves_state:
  assumes "evolves L d d'" "scheduled_state d k = Some s"
  obtains t where "scheduled_state d' k = Some t" "row_trans L s t"
  using assms list_all2_find [of L "db_sched d" "db_sched d'" k]
  by (auto simp: evolves_def scheduled_state_def)

lemma evolves_none: "evolves L d d' \<Longrightarrow> scheduled_state d' k = None \<longleftrightarrow> scheduled_state d k = None"
  using list_all2_find [of L "db_sched d" "db_sched d'" k]
  by (auto simp: evolves_def scheduled_state_def)

lemma evolves_all:
  assumes "evolves L d d'" "\<forall>s \<in> set (db_sched d). P s"
    "\<And>m a b. m \<in> L \<Longrightarrow> row_step m a b \<Longrightarrow> P a \<Longrightarrow> P b"
  shows "\<forall>s \<in> set (db_sched d'). P s"
proof -
  have "list_all2 (row_trans L) xs ys \<Longrightarrow> \<forall>s \<in> set xs. P s \<Longrightarrow> \<forall>s \<in> set ys. P s" for xs ys
    by (induction rule: list_all2_induct) (auto intro: row_trans_invariant [where P = P] assms(3))
  with assms(1,2) show ?thesis by (auto simp: evolves_def)
qed

lemma evolves_capacity:
  assumes "evolves L d d'" "MReenter \<notin> L"
  shows "capacity_use d' \<le> capacity_use d"
proof -
  have step: "holds_capacity t \<Longrightarrow> holds_capacity s" if "row_trans L s t" for s t
    using that row_trans_invariant [of L s t "\<lambda>r. holds_capacity r \<longrightarrow> holds_capacity s"]
      row_step_capacity assms(2) by blast
  have "list_all2 (row_trans L) xs ys \<Longrightarrow> row_count holds_capacity ys \<le> row_count holds_capacity xs" for xs ys
    by (induction rule: list_all2_induct) (auto dest: step)
  with assms(1) show ?thesis by (simp add: evolves_def capacity_use_def)
qed

text \<open>A key names at most one row.\<close>

lemma scheduled_state_unique:
  "distinct_rows s_task_id (db_sched d) \<Longrightarrow> s \<in> set (db_sched d) \<Longrightarrow>
    scheduled_state d (s_task_id s) = Some s"
  by (simp add: scheduled_state_def find_row_mem)

lemma scheduled_state_mem: "scheduled_state d k = Some s \<Longrightarrow> s \<in> set (db_sched d) \<and> s_task_id s = k"
  unfolding scheduled_state_def using find_row_key by metis

lemma evolves_update:
  assumes "distinct_rows s_task_id (db_sched d)" "scheduled_state d k = Some s"
    "\<And>r. P r \<Longrightarrow> s_task_id r = k" "P s \<Longrightarrow> row_trans L s (f s)"
  shows "list_all2 (row_trans L) (db_sched d) (update_rows P f (db_sched d))"
  using assms by (intro update_rows_trans) (metis option.inject scheduled_state_unique)

lemma scheduled_state_update_sched:
  assumes "\<And>s. s_task_id (f s) = s_task_id s"
  shows "scheduled_state (update_sched k f d) j =
    (if j = k then map_option f (scheduled_state d j) else scheduled_state d j)"
  using sched_table.lookup_after_update [of f j k d] assms
  by (simp add: scheduled_state_def update_sched_def)

end
