(* ===== verification/Kernel_Refine.thy ===== *)
theory Kernel_Refine
  imports Kernel_Rows
begin

text \<open>
  Each transaction implements the row lifecycle: the rows of \<open>task_scheduling\<close> it leaves are the old
  ones after moves of the transaction's own kind. Frames say which tables a transaction keeps.
\<close>

section \<open>Frames\<close>

lemma upsert_item_frame:
  assumes "upsert_item i d = Inr d'"
  shows "db_sched d' = db_sched d" "db_tasks d' = db_tasks d" "db_results d' = db_results d"
    "db_locks d' = db_locks d" "db_workers d' = db_workers d" "db_evidence d' = db_evidence d"
    "db_initial d' = db_initial d" "db_discoveries d' = db_discoveries d"
  using assms by (auto simp: upsert_item_def guard_simps)

lemma insert_result_frame:
  assumes "insert_result r b d = Inr d'"
  shows "db_sched d' = db_sched d" "db_tasks d' = db_tasks d" "db_items d' = db_items d"
    "db_locks d' = db_locks d" "db_workers d' = db_workers d" "db_evidence d' = db_evidence d"
  using assms by (auto simp: insert_result_def guard_simps Let_def)

lemma append_evidence_frame [simp]:
  "db_sched (append_evidence e d) = db_sched d" "db_tasks (append_evidence e d) = db_tasks d"
  "db_items (append_evidence e d) = db_items d" "db_results (append_evidence e d) = db_results d"
  by (simp_all add: append_evidence_def)

lemma update_task_frame [simp]:
  "db_sched (update_task k f d) = db_sched d" "db_items (update_task k f d) = db_items d"
  "db_results (update_task k f d) = db_results d" "db_locks (update_task k f d) = db_locks d"
  "db_initial (update_task k f d) = db_initial d"
  by (simp_all add: update_task_def)

lemma update_sched_frame [simp]:
  "db_tasks (update_sched k f d) = db_tasks d" "db_items (update_sched k f d) = db_items d"
  "db_results (update_sched k f d) = db_results d" "db_locks (update_sched k f d) = db_locks d"
  "db_initial (update_sched k f d) = db_initial d" "get_task (update_sched k f d) j = get_task d j"
  by (simp_all add: update_sched_def get_task_def)

lemma publish_task_row_frame [simp]:
  "db_sched (publish_task_row t d) = db_sched d" "db_items (publish_task_row t d) = db_items d"
  "db_results (publish_task_row t d) = db_results d" "db_locks (publish_task_row t d) = db_locks d"
  "db_initial (publish_task_row t d) = db_initial d"
  by (simp_all add: publish_task_row_def)

lemma publish_release_items_frame:
  "publish_release_items k is d = Inr d' \<Longrightarrow>
    db_sched d' = db_sched d \<and> db_tasks d' = db_tasks d \<and> db_results d' = db_results d \<and>
    db_locks d' = db_locks d \<and> db_initial d' = db_initial d"
  by (induction "is" arbitrary: d) (auto simp: guard_simps upsert_item_frame split: if_splits)

lemma publish_manual_execution_frame:
  assumes "publish_manual_execution c e is d = Inr d'"
  shows "db_sched d' = db_sched d" "db_tasks d' = db_tasks d" "db_items d' = db_items d"
    "db_results d' = db_results d" "db_locks d' = db_locks d" "db_initial d' = db_initial d"
  using assms by (auto simp: publish_manual_execution_def guard_simps Let_def)

lemma publish_discovery_frame [simp]:
  "db_sched (publish_discovery_control v c now d) = db_sched d"
  "db_tasks (publish_discovery_control v c now d) = db_tasks d"
  "db_items (publish_discovery_control v c now d) = db_items d"
  "db_results (publish_discovery_control v c now d) = db_results d"
  "db_locks (publish_discovery_control v c now d) = db_locks d"
  by (simp_all add: publish_discovery_control_def)

section \<open>Claims, heartbeat, running boundary\<close>

lemma scheduled_claim_Some:
  "scheduled_claim d f \<Longrightarrow> \<exists>s. scheduled_state d (f_task_id f) = Some s \<and>
     claim_matches s (f_worker_id f) (f_token f) (f_generation f) \<and> claim_live_at s (f_now f)"
  by (auto simp: scheduled_claim_def split: option.splits)

lemma claimable_scheduled_task_row:
  "claimable_scheduled_task d w now only = Some s \<Longrightarrow> s \<in> set (db_sched d) \<and> claimable d w now only s"
  unfolding claimable_scheduled_task_def by (drule least_row_mem) simp

text \<open>A granted claim: the row it was granted on, and the row it left.\<close>

lemma claim_in_transaction_Some:
  assumes "claim_in_transaction only now w tok lease d = Inr (Some c, d')"
    and "distinct_rows s_task_id (db_sched d)"
  obtains wk s where "scheduled_worker d w now = Inr wk" "scheduled_state d (s_task_id s) = Some s"
    "claimable_scheduled_task d wk now only = Some s" "claimable d wk now only s"
    "k_state c = grant_claim w tok now (now + seconds_to_us lease) s"
    "get_task d (s_task_id s) = Some (k_task c)"
    "d' = d\<lparr>db_sched := update_rows (\<lambda>r. s_task_id r = s_task_id s \<and>
       s_generation r = s_generation s \<and> s_queue_state r \<in> {Queued, Claimed} \<and>
       s_mutation_state r = None) (grant_claim w tok now (now + seconds_to_us lease)) (db_sched d)\<rparr>"
proof -
  from assms(1) obtain wk s where wk: "scheduled_worker d w now = Inr wk"
    and s: "claimable_scheduled_task d wk now only = Some s"
    by (auto simp: claim_in_transaction_def guard_simps split: option.splits)
  let ?hit = "\<lambda>r. s_task_id r = s_task_id s \<and> s_generation r = s_generation s \<and>
    s_queue_state r \<in> {Queued, Claimed} \<and> s_mutation_state r = None"
  let ?g = "grant_claim w tok now (now + seconds_to_us lease)"
  let ?d = "d\<lparr>db_sched := update_rows ?hit ?g (db_sched d)\<rparr>"
  from claimable_scheduled_task_row [OF s] have mem: "s \<in> set (db_sched d)"
    and c: "claimable d wk now only s" by auto
  have st: "scheduled_state d (s_task_id s) = Some s"
    using assms(2) mem by (rule scheduled_state_unique)
  have st': "scheduled_state ?d (s_task_id s) = Some (?g s)"
    using st c find_row_update [of ?hit s_task_id ?g "s_task_id s" "db_sched d"]
    by (simp add: scheduled_state_def claimable_def grant_claim_def)
  have t: "get_task ?d (s_task_id s) = get_task d (s_task_id s)" by (simp add: get_task_def)
  from assms(1) wk s st' t have "k_state c = ?g s" "get_task d (s_task_id s) = Some (k_task c)" "d' = ?d"
    by (auto simp: claim_in_transaction_def Let_def split: if_splits option.splits)
  with that wk st s c show thesis by blast
qed

lemma claim_in_transaction_None:
  "claim_in_transaction only now w tok lease d = Inr (None, d') \<Longrightarrow> d' = d"
  unfolding claim_in_transaction_def Let_def bind_result_def
  by (cases "scheduled_worker d w now"; simp split: option.splits if_splits)

lemma claim_in_transaction_evolves:
  assumes "claim_in_transaction only now w tok lease d = Inr (r, d')"
    and "distinct_rows s_task_id (db_sched d)"
  shows "evolves {MClaim} d d'"
proof (cases r)
  case None
  with assms(1) have "d' = d" using claim_in_transaction_None by blast
  then show ?thesis by simp
next
  case (Some c)
  with assms obtain wk s where st: "scheduled_state d (s_task_id s) = Some s"
    and c: "claimable d wk now only s"
    and d': "d' = d\<lparr>db_sched := update_rows (\<lambda>r. s_task_id r = s_task_id s \<and>
       s_generation r = s_generation s \<and> s_queue_state r \<in> {Queued, Claimed} \<and>
       s_mutation_state r = None) (grant_claim w tok now (now + seconds_to_us lease)) (db_sched d)\<rparr>"
    by (auto elim: claim_in_transaction_Some)
  have "row_step MClaim s (grant_claim w tok now (now + seconds_to_us lease) s)"
    using c by (intro row_step.claim) (auto simp: claimable_def)
  then show ?thesis
    using st assms(2) unfolding d' evolves_def
    by (auto intro!: evolves_update row_trans_step)
qed

lemma claim_next_evolves:
  "claim_next_scheduled_task now w tok lease d = Inr (r, d') \<Longrightarrow>
    distinct_rows s_task_id (db_sched d) \<Longrightarrow> evolves {MClaim} d d'"
  by (auto simp: claim_next_scheduled_task_def guard_simps intro: claim_in_transaction_evolves)

lemma claim_task_evolves:
  "claim_scheduled_task k now w tok lease d = Inr (r, d') \<Longrightarrow>
    distinct_rows s_task_id (db_sched d) \<Longrightarrow> evolves {MClaim} d d'"
  by (auto simp: claim_scheduled_task_def guard_simps intro: claim_in_transaction_evolves)

lemma heartbeat_evolves:
  assumes "heartbeat_scheduled_claim f lease d = Inr (r, d')"
  shows "evolves {MBeat} d d'"
proof -
  from assms obtain v where d': "d' = d\<lparr>db_sched := update_rows
      (\<lambda>s. s_task_id s = f_task_id f \<and> claim_matches s (f_worker_id f) (f_token f) (f_generation f))
      (extend_claim (f_now f) (f_now f + seconds_to_us v)) (db_sched d)\<rparr>"
    by (auto simp: heartbeat_scheduled_claim_def guard_simps Let_def split: if_splits)
  show ?thesis unfolding d' evolves_def
    by (auto intro!: update_rows_trans row_trans_step row_step.beat simp: claim_matches_def)
qed

lemma evolves_update_sched:
  assumes "distinct_rows s_task_id (db_sched d)" "scheduled_state d k = Some s" "row_step m s (f s)"
    "m \<in> L" "db_sched e = db_sched d"
  shows "evolves L d (update_sched k f e)"
  using assms unfolding evolves_def update_sched_def
  by (auto intro!: evolves_update intro: row_trans_step)

lemma begin_work_evolves:
  assumes "begin_scheduled_work f stage d = Inr (r, d')" "distinct_rows s_task_id (db_sched d)"
  shows "evolves {MStage} d d'"
proof (cases "scheduled_claim d f")
  case True
  then obtain s where "scheduled_state d (f_task_id f) = Some s" "s_queue_state s = Claimed"
    by (auto dest!: scheduled_claim_Some simp: claim_matches_def)
  with assms show ?thesis
    by (auto simp: begin_scheduled_work_def Let_def split: if_splits
        intro!: evolves_update_sched [where m = MStage and s = s] row_step.stage)
next
  case False
  with assms show ?thesis by (auto simp: begin_scheduled_work_def)
qed

section \<open>Control, release, yield, re-entry\<close>

lemma request_control_evolves:
  assumes "request_scheduled_control k c now d = Inr (r, d')" "distinct_rows s_task_id (db_sched d)"
  shows "evolves {MControl} d d'"
  using assms
  by (auto simp: request_scheduled_control_def guard_simps Let_def split: option.splits if_splits
      intro!: evolves_update_sched row_step.control)

lemma release_writes_sched:
  assumes "release_writes g now s d = Inr d'"
  shows "db_sched d' = db_sched (update_sched (t_id (g_task g)) (give_back (g_queue_state g) (g_stage g) now) d)"
  using assms
  by (auto simp: release_writes_def guard_simps Let_def update_sched_def record_initial_execution_def
      dest!: publish_release_items_frame publish_manual_execution_frame(1) split: option.splits)

lemma close_boundary_sched:
  "db_sched (close_recorded_boundary g now s d) =
    (if mutation_in_flight s \<and> g_close_boundary g \<and>
        recorded_unknown_boundary_is_finished d (t_id (g_task g)) s
     then db_sched (update_sched (t_id (g_task g)) (clear_mutation now) d) else db_sched d)"
  by (simp add: close_recorded_boundary_def)

lemma mutation_state_cases: "\<not> mutation_in_flight s \<longleftrightarrow> s_mutation_state s = None"
  by (metis mutation_in_flight_def mutation_state.exhaust not_None_eq)

lemma release_Some:
  assumes "release_scheduled_claim f g d = Inr (r, d')"
  shows "(r = None \<and> d' = d \<and> f \<noteq> None) \<or>
    (\<exists>s0 s. let k = t_id (g_task g); now = release_now f g; d1 = close_recorded_boundary g now s0 d in
       release_values f g = Inr () \<and>
       scheduled_state d k = Some s0 \<and> scheduled_state d1 k = Some s \<and>
       release_guards f g s d1 = Inr (Some ()) \<and> release_writes g now s d1 = Inr d' \<and>
       r = scheduled_state d' k)"
  using assms
  by (auto simp: release_scheduled_claim_def guard_simps Let_def release_guards_def
      split: option.splits if_splits)

lemma release_values_parked: "release_values f g = Inr u \<Longrightarrow> parked (g_queue_state g)"
  by (auto simp: release_values_def guard_simps parked_def)

lemma release_evolves:
  assumes rel: "release_scheduled_claim f g d = Inr (r, d')"
    and dist: "distinct_rows s_task_id (db_sched d)" and ok: "\<forall>s \<in> set (db_sched d). row_ok s"
  shows "evolves (case f of None \<Rightarrow> {MFreeRelease} | Some _ \<Rightarrow> {MClear, MFencedRelease}) d d'"
  using release_Some [OF rel]
proof (elim disjE exE)
  assume "r = None \<and> d' = d \<and> f \<noteq> None"
  then show ?thesis by auto
next
  fix s0 s
  let ?k = "t_id (g_task g)" and ?now = "release_now f g"
  let ?d1 = "close_recorded_boundary g ?now s0 d"
  let ?given = "give_back (g_queue_state g) (g_stage g) ?now"
  assume "let k = ?k; now = ?now; d1 = close_recorded_boundary g now s0 d in
       release_values f g = Inr () \<and> scheduled_state d k = Some s0 \<and> scheduled_state d1 k = Some s \<and>
       release_guards f g s d1 = Inr (Some ()) \<and> release_writes g now s d1 = Inr d' \<and>
       r = scheduled_state d' k"
  then have vals: "release_values f g = Inr ()" and s0: "scheduled_state d ?k = Some s0"
    and s: "scheduled_state ?d1 ?k = Some s" and gd: "release_guards f g s ?d1 = Inr (Some ())"
    and wr: "release_writes g ?now s ?d1 = Inr d'"
    by (auto simp: Let_def)
  note q = release_values_parked [OF vals]
  have mut: "s_mutation_state s = None"
    using gd by (simp add: release_guards_def guard_simps mutation_state_cases)
  have ok0: "row_ok s0" using ok scheduled_state_mem [OF s0] by blast
  have closes: "evolves {MClear} d ?d1 \<and> (s_mutation_state s0 = None \<longrightarrow> ?d1 = d)"
    using s0 dist ok0
    by (auto simp: close_recorded_boundary_def mutation_in_flight_def row_ok_def
        intro!: evolves_update_sched row_step.clear)
  have dist1: "distinct_rows s_task_id (db_sched ?d1)"
    using closes dist evolves_distinct by blast
  have backs: "evolves L ?d1 d'" if "row_step m s (?given s)" "m \<in> L" for m L
    using evolves_update_sched [where f = ?given and e = ?d1, OF dist1 s that refl]
      release_writes_sched [OF wr]
    by (simp add: evolves_def)
  show ?thesis
  proof (cases f)
    case None
    with gd have tok: "s_token s = None" by (simp add: release_guards_def guard_simps)
    have "s_mutation_state s0 = None"
    proof (rule ccontr)
      assume "s_mutation_state s0 \<noteq> None"
      with ok0 have t0: "s_token s0 \<noteq> None" by (auto simp: row_ok_def)
      have "s_token s = s_token s0"
        using s s0 by (auto simp: close_recorded_boundary_def scheduled_state_update_sched
            clear_mutation_def split: if_splits)
      with t0 tok show False by simp
    qed
    with closes have "?d1 = d" by blast
    then show ?thesis
      using backs [of MFreeRelease "{MFreeRelease}"] tok mut q None by (simp add: row_step.free)
  next
    case (Some w)
    with gd have "scheduled_claim ?d1 w" by (simp add: release_guards_def guard_simps split: if_splits)
    moreover from vals Some have "f_task_id w = ?k" by (simp add: release_values_def guard_simps)
    ultimately have "s_queue_state s = Claimed"
      using s by (auto dest!: scheduled_claim_Some simp: claim_matches_def)
    then have "evolves {MClear, MFencedRelease} ?d1 d'"
      using backs [of MFencedRelease] mut q by (simp add: row_step.fenced)
    moreover have "evolves {MClear, MFencedRelease} d ?d1"
      using closes by (auto intro: evolves_mono)
    ultimately show ?thesis using Some by (auto intro: evolves_trans)
  qed
qed

lemma yield_evolves:
  assumes "yield_scheduled_claim f task items stage e d = Inr (r, d')"
    and "distinct_rows s_task_id (db_sched d)"
  shows "evolves {MYield} d d'"
proof (cases "scheduled_claim d f")
  case False
  with assms show ?thesis by (auto simp: yield_scheduled_claim_def guard_simps)
next
  case True
  then obtain s where s: "scheduled_state d (f_task_id f) = Some s"
    and c: "s_queue_state s = Claimed"
    by (auto dest!: scheduled_claim_Some simp: claim_matches_def)
  from assms(1) True s obtain e' where m: "s_mutation_state s = None" "s_control s = None"
    and d': "db_sched d' = update_rows
        (\<lambda>r. s_task_id r = f_task_id f \<and> s_token r = Some (f_token f) \<and> s_generation r = f_generation f)
        (yield_row stage e' (f_now f)) (db_sched d)"
    by (auto simp: yield_scheduled_claim_def guard_simps Let_def mutation_state_cases)
  show ?thesis
    unfolding evolves_def d' using assms(2) s
    by (rule evolves_update) (auto intro!: row_trans_step row_step.yield c m)
qed

lemma reentry_guards_Inr:
  "reentry_guards d k n = Inr t \<longleftrightarrow>
    get_task d k = Some t \<and> t_status t \<noteq> TaskCancelled \<and>
    (\<exists>s. scheduled_state d k = Some s \<and> s_queue_state s \<in> {WaitingHuman, QueuePaused} \<and>
       s_mutation_state s = None \<and> s_control s \<noteq> Some ControlCancel \<and>
       (\<forall>m. n = Some m \<longrightarrow> s_control_revision s = m))"
  by (auto simp: reentry_guards_def guard_simps mutation_state_cases split: option.splits)

lemma requeue_evolves:
  assumes "requeue_scheduled_task k sid dig rv cap now stage e actor d = Inr (r, d')"
    and "distinct_rows s_task_id (db_sched d)"
  shows "evolves {MReenter} d d'"
  using assms
  by (auto simp: requeue_scheduled_task_def guard_simps Let_def reentry_guards_Inr
      split: option.splits intro!: evolves_update_sched row_step.reenter)

text \<open>A re-analysis leaves the continuation actor as it was.\<close>

lemma reenter_keeps_actor:
  "s_queue_state s \<in> {WaitingHuman, QueuePaused} \<Longrightarrow> s_mutation_state s = None \<Longrightarrow>
    s_control s \<noteq> Some ControlCancel \<Longrightarrow> row_step MReenter s (reenter Queued st e now s)"
  using row_step.reenter [where s = s and st = st and e' = e and now = now and a = "s_continuation_actor s"]
  by (simp add: reenter_def forget_control_def drop_claim_def)

lemma requeue_analysis_evolves:
  assumes "requeue_scheduled_analysis k v n cap now stage d = Inr (r, d')"
    and "distinct_rows s_task_id (db_sched d)"
  shows "evolves {MReenter} d d'"
  using assms
  by (auto simp: requeue_scheduled_analysis_def guard_simps Let_def reentry_guards_Inr
      intro!: evolves_update_sched reenter_keeps_actor)

lemma resume_waiting_evolves:
  assumes "resume_waiting k now d = Inr (r, d')" "distinct_rows s_task_id (db_sched d)"
  shows "evolves {MResume} d d'"
  using assms
  by (auto simp: resume_waiting_def guard_simps split: option.splits
      intro!: evolves_update_sched row_step.resume)

section \<open>Publication\<close>

lemma upsert_scheduled_item_frame:
  "upsert_scheduled_item f i stage d = Inr (r, d') \<Longrightarrow> db_sched d' = db_sched d \<and> db_tasks d' = db_tasks d \<and>
    db_results d' = db_results d"
  by (auto simp: upsert_scheduled_item_def guard_simps upsert_item_frame split: if_splits)

lemma begin_item_frame:
  "begin_scheduled_item_with_ownership own hist f i stage b d = Inr (r, d') \<Longrightarrow>
    db_sched d' = db_sched d \<and> db_tasks d' = db_tasks d \<and> db_results d' = db_results d"
  by (auto simp: begin_scheduled_item_with_ownership_def guard_simps Let_def upsert_item_frame
      split: if_splits option.splits)

lemma begin_mutation_evolves:
  assumes "begin_scheduled_mutation f i act d = Inr (r, d')" "distinct_rows s_task_id (db_sched d)"
  shows "evolves {MMark} d d'"
proof (cases "scheduled_claim d f")
  case False
  with assms show ?thesis by (auto simp: begin_scheduled_mutation_def guard_simps)
next
  case True
  then obtain s where s: "scheduled_state d (f_task_id f) = Some s" "s_queue_state s = Claimed"
    by (auto dest!: scheduled_claim_Some simp: claim_matches_def)
  with assms True show ?thesis
    by (auto simp: begin_scheduled_mutation_def guard_simps mutation_state_cases
        split: option.splits intro!: evolves_update_sched [where s = s] row_step.mark)
qed

lemma insert_result_conflict:
  "(case insert_result r b d of Inl IntegrityError \<Rightarrow> Inl TaskResultConflict | x \<Rightarrow> x) = Inr d' \<longleftrightarrow>
    insert_result r b d = Inr d'"
  by (auto split: sum.splits pyerr.splits)

lemma outcome_evolves:
  assumes "publish_scheduled_item_outcome f i r ev hint d = Inr (x, d')"
    and "distinct_rows s_task_id (db_sched d)"
  shows "evolves {MClear} d d'"
proof (cases "scheduled_claim d f")
  case False
  with assms show ?thesis by (auto simp: publish_scheduled_item_outcome_def)
next
  case True
  then obtain s where s: "scheduled_state d (f_task_id f) = Some s" and c: "s_queue_state s = Claimed"
    by (auto dest!: scheduled_claim_Some simp: claim_matches_def)
  from assms(1) True have "db_sched d' = db_sched d \<or> db_sched d' = update_rows
      (\<lambda>s. s_task_id s = f_task_id f \<and> s_mutation_item s = Some (i_id i))
      (clear_mutation (f_now f)) (db_sched d)"
    by (auto simp: publish_scheduled_item_outcome_def guard_simps Let_def insert_result_conflict
        insert_result_frame upsert_item_frame split: option.splits)
  moreover have "list_all2 (row_trans {MClear}) (db_sched d) (update_rows
      (\<lambda>s. s_task_id s = f_task_id f \<and> s_mutation_item s = Some (i_id i))
      (clear_mutation (f_now f)) (db_sched d))"
    using assms(2) s by (rule evolves_update) (auto intro!: row_trans_step row_step.clear c)
  ultimately show ?thesis by (auto simp: evolves_def list.rel_refl)
qed

lemma publish_task_frame:
  "publish_scheduled_task f t d = Inr (r, d') \<Longrightarrow> db_sched d' = db_sched d"
  by (auto simp: publish_scheduled_task_def guard_simps split: if_splits)

section \<open>Admission\<close>

lemma insert_sched_Inr:
  "insert_sched st rows = Inr rows' \<longleftrightarrow>
    rows' = rows @ [st] \<and> find_row s_task_id (s_task_id st) rows = None \<and>
    (s_request_id st = None \<or>
     (\<forall>s \<in> set rows. s_principal s = s_principal st \<longrightarrow> s_request_id s \<noteq> s_request_id st))"
  by (auto simp: insert_sched_def guard_simps list_ex_iff)

lemma insert_display_frame [simp]:
  "db_sched (insert_display k c t d) = db_sched d" "db_tasks (insert_display k c t d) = db_tasks d"
  "db_items (insert_display k c t d) = db_items d" "db_results (insert_display k c t d) = db_results d"
  by (simp_all add: insert_display_def)

lemma admit_new_Inr:
  assumes "admit_new task st display d = Inr d'"
  shows "db_sched d' = db_sched d @ [st]" "db_tasks d' = db_tasks d @ [task]"
    "db_items d' = db_items d" "db_results d' = db_results d"
    "scheduled_state d (s_task_id st) = None" "get_task d (t_id task) = None"
    "s_request_id st = None \<or>
     (\<forall>s \<in> set (db_sched d). s_principal s = s_principal st \<longrightarrow> s_request_id s \<noteq> s_request_id st)"
  using assms
  by (auto simp: admit_new_def guard_simps Let_def insert_sched_Inr scheduled_state_def get_task_def
      split: option.splits)

lemma admission_values_fresh:
  "require_scheduled_admission_values task st = Inr u \<Longrightarrow>
    fresh_row st \<and> t_id task = s_task_id st \<and> t_status task = TaskPending"
  by (auto simp: require_scheduled_admission_values_def guard_simps fresh_row_def)

lemma admit_cases:
  assumes "admit_scheduled_task task st capacity display d = Inr (a, d')"
  obtains
    (duplicate) t s where "a = \<lparr>d_task = t, d_state = s, d_duplicate = True\<rparr>" "d' = d"
      "same_admission_context t s task st" "s \<in> set (db_sched d)" "s_request_id st \<noteq> None"
      "s_principal s = s_principal st" "s_request_id s = s_request_id st"
      "get_task d (s_task_id s) = Some t"
  | (new) cap where "a = \<lparr>d_task = task, d_state = st, d_duplicate = False\<rparr>" "fresh_row st"
      "t_id task = s_task_id st" "t_status task = TaskPending"
      "capacity = PyInt (int cap)" "capacity_use d < cap" "admit_new task st display d = Inr d'"
proof -
  from assms obtain cap where cap: "capacity = PyInt (int cap)"
    and vals: "require_scheduled_admission_values task st = Inr ()"
    and rest: "(case Option.bind (s_request_id st) (scheduled_admission d (s_principal st)) of
        Some (t, s) \<Rightarrow> raise_if (\<not> same_admission_context t s task st) TaskAdmissionConflict
          (Inr (\<lparr>d_task = t, d_state = s, d_duplicate = True\<rparr>, d))
      | None \<Rightarrow> raise_if (cap \<le> capacity_use d) TaskQueueFull
          (bind_result (admit_new task st display d) (\<lambda>d'.
           Inr (\<lparr>d_task = task, d_state = st, d_duplicate = False\<rparr>, d')))) = Inr (a, d')"
    by (auto simp: admit_scheduled_task_def guard_simps)
  note fresh = admission_values_fresh [OF vals]
  show thesis
  proof (cases "Option.bind (s_request_id st) (scheduled_admission d (s_principal st))")
    case None
    with rest fresh cap new show thesis by (auto simp: guard_simps)
  next
    case (Some p)
    obtain t s where p: "p = (t, s)" by (cases p)
    from Some p obtain rid where rid: "s_request_id st = Some rid"
      and adm: "scheduled_admission d (s_principal st) rid = Some (t, s)"
      by (cases "s_request_id st") auto
    from adm have "s \<in> set (db_sched d)" "s_principal s = s_principal st" "s_request_id s = Some rid"
      "get_task d (s_task_id s) = Some t"
      by (auto simp: scheduled_admission_def find_Some_iff split: option.splits)
    with rest Some p rid duplicate show thesis by (auto simp: guard_simps)
  qed
qed

end
