(* ===== verification/Kernel_Machine.thy ===== *)
theory Kernel_Machine
  imports Kernel_Refine
begin

text \<open>
  The kernel as a state machine: one operation per repository transaction, each run atomically, and
  the databases a sequence of them reaches, whatever the callers are and however their transactions
  interleave. The invariants every reachable database satisfies are proved here.
\<close>

section \<open>Operations and runs\<close>

datatype kernel_op =
    AdmitOp ptask sched "display_context option"
  | ClaimNextOp datetime string string pynum
  | ClaimOp string datetime string string pynum
  | HeartbeatOp fence pynum
  | BeginWorkOp fence machine_stage
  | ControlOp string control datetime
  | ReleaseOp "fence option" release
  | YieldOp fence ptask "pitem list" machine_stage "datetime option"
  | RequeueOp string "string option" "string option" "nat option" datetime "machine_stage option"
      "datetime option" "string option"
  | ReanalyzeOp string discovery nat datetime machine_stage
  | ResumeOp string instant
  | ItemOp fence pitem publication
  | StartItemOp "db \<Rightarrow> pitem \<Rightarrow> string option" "db \<Rightarrow> pitem \<Rightarrow> string option result" fence pitem
      publication bool
  | MutateOp fence string string
  | OutcomeOp fence pitem "string list presult" "evidence option" bool
  | PublishOp fence ptask

definition commit :: "('a \<times> db) result \<Rightarrow> db result" where
  "commit r = bind_result r (\<lambda>p. Inr (snd p))"

text \<open>The database an operation commits under the capacity in force, or the exception it raises.\<close>

fun perform :: "nat \<Rightarrow> kernel_op \<Rightarrow> db \<Rightarrow> db result" where
  "perform cap (AdmitOp task st disp) d = commit (admit_scheduled_task task st (PyInt (int cap)) disp d)"
| "perform cap (ClaimNextOp now w tok lease) d = commit (claim_next_scheduled_task now w tok lease d)"
| "perform cap (ClaimOp k now w tok lease) d = commit (claim_scheduled_task k now w tok lease d)"
| "perform cap (HeartbeatOp f lease) d = commit (heartbeat_scheduled_claim f lease d)"
| "perform cap (BeginWorkOp f stage) d = commit (begin_scheduled_work f stage d)"
| "perform cap (ControlOp k c now) d = commit (request_scheduled_control k c now d)"
| "perform cap (ReleaseOp f g) d = commit (release_scheduled_claim f g d)"
| "perform cap (YieldOp f task items stage e) d = commit (yield_scheduled_claim f task items stage e d)"
| "perform cap (RequeueOp k sid dig n now stage e actor) d =
     commit (requeue_scheduled_task k sid dig n (PyInt (int cap)) now stage e actor d)"
| "perform cap (ReanalyzeOp k v n now stage) d =
     commit (requeue_scheduled_analysis k v n (PyInt (int cap)) now stage d)"
| "perform cap (ResumeOp k now) d = commit (resume_waiting k now d)"
| "perform cap (ItemOp f i stage) d = commit (upsert_scheduled_item f i stage d)"
| "perform cap (StartItemOp own hist f i stage b) d =
     commit (begin_scheduled_item_with_ownership own hist f i stage b d)"
| "perform cap (MutateOp f i act) d = commit (begin_scheduled_mutation f i act d)"
| "perform cap (OutcomeOp f i r ev hint) d = commit (publish_scheduled_item_outcome f i r ev hint d)"
| "perform cap (PublishOp f task) d = commit (publish_scheduled_task f task d)"

fun moves_of :: "kernel_op \<Rightarrow> move set" where
  "moves_of (ClaimNextOp now w tok lease) = {MClaim}"
| "moves_of (ClaimOp k now w tok lease) = {MClaim}"
| "moves_of (HeartbeatOp f lease) = {MBeat}"
| "moves_of (BeginWorkOp f stage) = {MStage}"
| "moves_of (ControlOp k c now) = {MControl}"
| "moves_of (ReleaseOp None g) = {MFreeRelease}"
| "moves_of (ReleaseOp (Some f) g) = {MClear, MFencedRelease}"
| "moves_of (YieldOp f task items stage e) = {MYield}"
| "moves_of (RequeueOp k sid dig n now stage e actor) = {MReenter}"
| "moves_of (ReanalyzeOp k v n now stage) = {MReenter}"
| "moves_of (ResumeOp k now) = {MResume}"
| "moves_of (MutateOp f i act) = {MMark}"
| "moves_of (OutcomeOp f i r ev hint) = {MClear}"
| "moves_of _ = {}"

text \<open>Runs of allowed operations under capacities that never exceed \<open>C\<close>.\<close>

inductive kernel_run :: "(kernel_op \<Rightarrow> bool) \<Rightarrow> nat \<Rightarrow> db \<Rightarrow> db \<Rightarrow> bool" for allowed C where
  start: "kernel_run allowed C d d"
| step: "\<lbrakk>kernel_run allowed C d e; allowed op; cap \<le> C; perform cap op e = Inr e'\<rbrakk>
    \<Longrightarrow> kernel_run allowed C d e'"

lemma commit_Inr [guard_simps]: "commit r = Inr d' \<longleftrightarrow> (\<exists>x. r = Inr (x, d'))"
  by (auto simp: commit_def guard_simps)

lemma kernel_run_trans:
  "kernel_run A C d e \<Longrightarrow> kernel_run A C e g \<Longrightarrow> kernel_run A C d g"
  by (rotate_tac 1, induction rule: kernel_run.induct) (auto intro: kernel_run.intros)

section \<open>Well-formed databases\<close>

definition db_ok :: "db \<Rightarrow> bool" where
  "db_ok d =
     (distinct_rows t_id (db_tasks d) \<and> distinct_rows s_task_id (db_sched d) \<and>
      distinct_rows item_key (db_items d) \<and> distinct_rows r_id (db_results d) \<and>
      (\<forall>s \<in> set (db_sched d). row_ok s \<and> s_task_id s \<in> t_id ` set (db_tasks d)))"

lemma db_ok_rows: "db_ok d \<Longrightarrow> distinct_rows s_task_id (db_sched d) \<and> (\<forall>s \<in> set (db_sched d). row_ok s)"
  by (simp add: db_ok_def)

text \<open>Every operation but an admission only moves rows.\<close>

theorem perform_evolves:
  assumes "db_ok d" "perform cap op d = Inr d'" "\<And>task st disp. op \<noteq> AdmitOp task st disp"
  shows "evolves (moves_of op) d d'"
proof -
  note ok = db_ok_rows [OF assms(1), THEN conjunct1] db_ok_rows [OF assms(1), THEN conjunct2]
  show ?thesis
  proof (cases op)
    case (AdmitOp task st disp)
    with assms(3) show ?thesis by blast
  next
    case (ReleaseOp f g)
    with assms(2) ok release_evolves [of f g d _ d'] show ?thesis
      by (cases f) (auto simp: guard_simps)
  next
    case (ItemOp f i stage)
    with assms(2) show ?thesis by (auto simp: guard_simps dest: upsert_scheduled_item_frame)
  next
    case (StartItemOp own hist f i stage b)
    with assms(2) show ?thesis by (auto simp: guard_simps dest: begin_item_frame)
  next
    case (PublishOp f task)
    with assms(2) show ?thesis by (auto simp: guard_simps dest: publish_task_frame)
  qed (use assms(2) ok in \<open>auto simp: guard_simps intro: claim_next_evolves claim_task_evolves
      heartbeat_evolves begin_work_evolves request_control_evolves yield_evolves requeue_evolves
      requeue_analysis_evolves resume_waiting_evolves begin_mutation_evolves outcome_evolves\<close>)
qed

lemma perform_admit:
  assumes "perform cap (AdmitOp task st disp) d = Inr d'"
  obtains "d' = d"
  | "fresh_row st" "t_id task = s_task_id st" "t_status task = TaskPending" "capacity_use d < cap"
    "admit_new task st disp d = Inr d'"
proof -
  from assms obtain a where "admit_scheduled_task task st (PyInt (int cap)) disp d = Inr (a, d')"
    by (auto simp: guard_simps)
  then show thesis
    by (rule admit_cases) (use that in auto)
qed

section \<open>Tasks, items and Results under an operation\<close>

definition same_authority :: "ptask \<Rightarrow> ptask \<Rightarrow> bool" where
  "same_authority t u =
     (t_id u = t_id t \<and> t_command u = t_command t \<and>
      t_execute_authorized u = t_execute_authorized t \<and> t_created_at u = t_created_at t \<and>
      t_scope_path u = t_scope_path t \<and> t_item_limit u = t_item_limit t \<and>
      t_snapshot_id u = t_snapshot_id t \<and> t_snapshot_digest u = t_snapshot_digest t)"

definition tasks_evolve :: "db \<Rightarrow> db \<Rightarrow> bool" where
  "tasks_evolve d d' =
     (\<exists>ts new. db_tasks d' = ts @ new \<and> list_all2 same_authority (db_tasks d) ts \<and>
        (new = [] \<or> (\<exists>t. new = [t] \<and> get_task d (t_id t) = None)))"

lemma same_authority_refl [simp]: "same_authority t t"
  by (simp add: same_authority_def)

lemma same_authority_trans: "same_authority t u \<Longrightarrow> same_authority u v \<Longrightarrow> same_authority t v"
  by (simp add: same_authority_def)

lemma tasks_evolve_refl [simp]: "db_tasks d' = db_tasks d \<Longrightarrow> tasks_evolve d d'"
  unfolding tasks_evolve_def
  by (rule exI [where x = "db_tasks d"]) (simp add: list.rel_refl)

lemma tasks_evolve_update:
  "(\<And>t. same_authority t (f t)) \<Longrightarrow> db_tasks d' = update_rows P f (db_tasks d) \<Longrightarrow> tasks_evolve d d'"
  unfolding tasks_evolve_def update_rows_def
  by (rule exI [where x = "db_tasks d'"]) (simp add: list_all2_map2 list.rel_refl)

lemma list_all2_find_task:
  "list_all2 same_authority ts us \<Longrightarrow>
    (find_row t_id k ts = None \<and> find_row t_id k us = None) \<or>
    (\<exists>t u. find_row t_id k ts = Some t \<and> find_row t_id k us = Some u \<and> same_authority t u)"
  by (induction rule: list_all2_induct) (auto simp: same_authority_def)

lemma tasks_evolve_get:
  assumes "tasks_evolve d d'" "get_task d k = Some t"
  obtains u where "get_task d' k = Some u" "same_authority t u"
proof -
  from assms(1) obtain ts new where d': "db_tasks d' = ts @ new"
    and l: "list_all2 same_authority (db_tasks d) ts"
    unfolding tasks_evolve_def by auto
  from list_all2_find_task [OF l, of k] assms(2) obtain u where
    "find_row t_id k ts = Some u" "same_authority t u"
    by (auto simp: get_task_def)
  with d' that show thesis by (simp add: get_task_def find_row_append)
qed

lemma tasks_evolve_keys:
  assumes "tasks_evolve d d'"
  shows "distinct_rows t_id (db_tasks d) \<Longrightarrow> distinct_rows t_id (db_tasks d')"
    and "t_id ` set (db_tasks d) \<subseteq> t_id ` set (db_tasks d')"
proof -
  from assms obtain ts new where d': "db_tasks d' = ts @ new"
    and l: "list_all2 same_authority (db_tasks d) ts"
    and n: "new = [] \<or> (\<exists>t. new = [t] \<and> get_task d (t_id t) = None)"
    unfolding tasks_evolve_def by auto
  have m: "map t_id ts = map t_id (db_tasks d)"
    using l by (induction rule: list_all2_induct) (auto simp: same_authority_def)
  then have s: "t_id ` set ts = t_id ` set (db_tasks d)" by (metis set_map)
  show "t_id ` set (db_tasks d) \<subseteq> t_id ` set (db_tasks d')" using d' s by auto
  show "distinct_rows t_id (db_tasks d')" if "distinct_rows t_id (db_tasks d)"
    using that n m s by (auto simp: distinct_rows_def d' get_task_def find_row_None
        simp flip: set_map)
qed

lemma authority_updates:
  "same_authority t (start_task now t)" "same_authority t (publish_task_columns p t)"
  "same_authority t (reopen_task q now t)"
  by (simp_all add: same_authority_def start_task_def publish_task_columns_def reopen_task_def)

lemma publish_task_row_tasks: "db_tasks d' = db_tasks (publish_task_row p d) \<Longrightarrow> tasks_evolve d d'"
  by (rule tasks_evolve_update [where f = "publish_task_columns p"])
    (simp_all add: authority_updates publish_task_row_def update_task_def)

lemma update_task_tasks:
  "db_tasks d' = db_tasks (update_task k (reopen_task q now) d) \<Longrightarrow> tasks_evolve d d'"
  by (rule tasks_evolve_update [where f = "reopen_task q now"])
    (simp_all add: authority_updates update_task_def)

lemma close_boundary_frame [simp]:
  "db_tasks (close_recorded_boundary g now s d) = db_tasks d"
  "db_items (close_recorded_boundary g now s d) = db_items d"
  "db_results (close_recorded_boundary g now s d) = db_results d"
  "db_locks (close_recorded_boundary g now s d) = db_locks d"
  "db_initial (close_recorded_boundary g now s d) = db_initial d"
  by (simp_all add: close_recorded_boundary_def)

text \<open>The tables a release leaves, from the state after its item publications.\<close>

lemma release_writes_tables:
  assumes "release_writes g now s d = Inr d'"
  obtains d2 where "require_no_machine_items d (t_id (g_task g)) (g_items g) = Inr ()"
    "require_scheduled_authority d (g_task g) = Inr ()"
    "publish_release_items (t_id (g_task g)) (g_items g) (publish_task_row (g_task g) d) = Inr d2"
    "db_tasks d' = db_tasks d2" "db_items d' = db_items d2" "db_results d' = db_results d2"
    "db_locks d' = delete_rows (\<lambda>l. l_task_id l = t_id (g_task g)) (db_locks d)"
proof -
  from assms obtain d2 d3 where 1: "require_no_machine_items d (t_id (g_task g)) (g_items g) = Inr ()"
    "require_scheduled_authority d (g_task g) = Inr ()"
    "publish_release_items (t_id (g_task g)) (g_items g) (publish_task_row (g_task g) d) = Inr d2"
    and d3: "(case g_execution g of None \<Rightarrow> Inr d2
         | Some e \<Rightarrow> publish_manual_execution (s_control s) e (g_execution_items g) d2) = Inr d3"
    and d': "d' = (let k = t_id (g_task g);
        d4 = (case (g_initial_stage g, t_started_at (g_task g)) of
                  (Some label, Some started) \<Rightarrow> record_initial_execution k label started now d3
                | _ \<Rightarrow> d3);
          d5 = d4\<lparr>db_locks := delete_rows (\<lambda>l. l_task_id l = k) (db_locks d4)\<rparr>;
          d6 = update_sched k (give_back (g_queue_state g) (g_stage g) now) d5
      in (case (g_discovery g, s_control s) of
                (Some v, Some c) \<Rightarrow> publish_discovery_control v c now d6
              | _ \<Rightarrow> d6))"
    by (auto simp: release_writes_def guard_simps Let_def)
  have e: "db_tasks d3 = db_tasks d2" "db_items d3 = db_items d2" "db_results d3 = db_results d2"
    "db_locks d3 = db_locks d2"
    using d3 publish_manual_execution_frame by (auto split: option.splits)
  have l: "db_locks d2 = db_locks d" using publish_release_items_frame [OF 1(3)] by simp
  show thesis
    by (rule that [OF 1]) (use e l d' in \<open>auto simp: Let_def split: option.splits\<close>)
qed

lemma release_tasks:
  assumes "release_scheduled_claim f g d = Inr (r, d')"
  shows "tasks_evolve d d'"
  using release_Some [OF assms]
proof (elim disjE exE)
  fix s0 s
  assume "let k = t_id (g_task g); now = release_now f g; d1 = close_recorded_boundary g now s0 d in
       release_values f g = Inr () \<and> scheduled_state d k = Some s0 \<and> scheduled_state d1 k = Some s \<and>
       release_guards f g s d1 = Inr (Some ()) \<and> release_writes g now s d1 = Inr d' \<and>
       r = scheduled_state d' k"
  then have "release_writes g (release_now f g) s (close_recorded_boundary g (release_now f g) s0 d) = Inr d'"
    by (simp add: Let_def)
  then show ?thesis
  proof (rule release_writes_tables)
    fix d2
    assume p: "publish_release_items (t_id (g_task g)) (g_items g)
        (publish_task_row (g_task g) (close_recorded_boundary g (release_now f g) s0 d)) = Inr d2"
      and t: "db_tasks d' = db_tasks d2"
    show ?thesis
      by (rule publish_task_row_tasks [where p = "g_task g"])
        (use publish_release_items_frame [OF p] t in \<open>simp add: publish_task_row_def update_task_def\<close>)
  qed
qed simp

lemma claim_in_transaction_frame:
  assumes "claim_in_transaction only now w tok lease d = Inr (r, d')"
  shows "db_tasks d' = db_tasks d \<and> db_items d' = db_items d \<and> db_results d' = db_results d \<and>
    db_locks d' = db_locks d"
  using assms unfolding claim_in_transaction_def Let_def bind_result_def
  by (cases "scheduled_worker d w now"; auto split: option.splits if_splits)

lemma outcome_frame:
  "publish_scheduled_item_outcome f i r ev hint d = Inr (x, d') \<Longrightarrow> db_tasks d' = db_tasks d"
  by (cases "scheduled_claim d f")
    (auto simp: publish_scheduled_item_outcome_def guard_simps Let_def insert_result_conflict
      insert_result_frame upsert_item_frame split: option.splits)

theorem perform_tasks:
  assumes "perform cap op d = Inr d'"
  shows "tasks_evolve d d'"
proof (cases op)
  case (AdmitOp task st disp)
  show ?thesis
  proof (rule perform_admit [OF assms [unfolded AdmitOp]])
    assume "admit_new task st disp d = Inr d'"
    then have "db_tasks d' = db_tasks d @ [task]" "get_task d (t_id task) = None"
      by (rule admit_new_Inr)+
    then show ?thesis unfolding tasks_evolve_def
      by (intro exI [where x = "db_tasks d"] exI [where x = "[task]"]) (simp add: list.rel_refl)
  qed simp
next
  case (BeginWorkOp f stage)
  have u: "db_tasks e = update_rows P (start_task now) (db_tasks d) \<Longrightarrow> tasks_evolve d e" for P now e
    by (rule tasks_evolve_update [where f = "start_task now" and P = P]) (auto simp: authority_updates)
  from assms BeginWorkOp show ?thesis
    by (auto simp: guard_simps begin_scheduled_work_def Let_def split: if_splits intro!: u)
next
  case (ReleaseOp f g)
  with assms show ?thesis by (auto simp: guard_simps intro: release_tasks)
next
  case (YieldOp f task items stage e)
  have u: "db_tasks e = db_tasks (publish_task_row task d) \<Longrightarrow> tasks_evolve d e" for e
    by (rule publish_task_row_tasks)
  from assms YieldOp show ?thesis
    by (cases "scheduled_claim d f")
      (auto simp: guard_simps yield_scheduled_claim_def Let_def split: option.splits intro!: u)
next
  case (RequeueOp k sid dig n now stage e actor)
  have u: "db_tasks e = db_tasks (update_task k (reopen_task TaskPending t) d) \<Longrightarrow> tasks_evolve d e" for t e
    by (rule update_task_tasks)
  from assms RequeueOp show ?thesis
    by (auto simp: guard_simps requeue_scheduled_task_def Let_def split: option.splits intro!: u)
next
  case (ReanalyzeOp k v n now stage)
  with assms obtain t where t: "now = Aware t"
    by (auto simp: guard_simps requeue_scheduled_analysis_def)
  have u: "db_tasks e = db_tasks (update_task k (reopen_task TaskPending t) d) \<Longrightarrow> tasks_evolve d e" for e
    by (rule update_task_tasks)
  from assms ReanalyzeOp t show ?thesis
    by (auto simp: guard_simps requeue_scheduled_analysis_def Let_def update_task_def intro!: u)
next
  case (ResumeOp k now)
  with assms show ?thesis
    by (auto simp: guard_simps resume_waiting_def split: option.splits intro!: update_task_tasks)
next
  case (PublishOp f task)
  have u: "db_tasks e = db_tasks (publish_task_row task d) \<Longrightarrow> tasks_evolve d e" for e
    by (rule publish_task_row_tasks)
  from assms PublishOp show ?thesis
    by (cases "scheduled_claim d f") (auto simp: guard_simps publish_scheduled_task_def intro!: u)
qed (use assms in \<open>auto simp: guard_simps claim_next_scheduled_task_def claim_scheduled_task_def
    heartbeat_scheduled_claim_def request_scheduled_control_def begin_scheduled_mutation_def Let_def
    dest: claim_in_transaction_frame upsert_scheduled_item_frame begin_item_frame outcome_frame
    split: if_splits option.splits\<close>)

end
