(* ===== verification/Kernel_Items_Kept.thy ===== *)
theory Kernel_Items_Kept
  imports Kernel_Machine
begin

text \<open>
  What a kernel operation may do to TaskItem rows and Results: an item keeps its identity and its
  attempt count never falls, and does not grow either once an effect that is not proved empty is
  recorded, a handed-off item is untouched, a recorded outcome that may not be replayed is frozen, and Results are only ever appended.
\<close>

section \<open>One item\<close>

text \<open>
  A frozen item: settled, and either not a failure or a failure whose recorded effects are not
  provably empty.
\<close>

definition frozen_item :: "doc presult list \<Rightarrow> pitem \<Rightarrow> bool" where
  "frozen_item rs i =
     (settled_item (i_status i) \<and>
      (\<not> resumable_item (i_status i) \<or>
       \<not> list_all zero_effect_result (filter (\<lambda>r. r_item_id r = i_id i) rs)))"

definition item_kept :: "doc presult list \<Rightarrow> item_row \<Rightarrow> item_row \<Rightarrow> bool" where
  "item_kept rs r r' =
     (item_key r' = item_key r \<and> ir_superseded_by r' = ir_superseded_by r \<and>
      i_task_id (ir_item r') = i_task_id (ir_item r) \<and>
      i_storage_id (ir_item r') = i_storage_id (ir_item r) \<and>
      i_source_path (ir_item r') = i_source_path (ir_item r) \<and>
      i_resource_library_id (ir_item r') = i_resource_library_id (ir_item r) \<and>
      i_created_at (ir_item r') = i_created_at (ir_item r) \<and>
      i_attempts (ir_item r) \<le> i_attempts (ir_item r') \<and>
      (\<not> list_all zero_effect_result (filter (\<lambda>q. r_item_id q = item_key r) rs) \<longrightarrow>
        i_attempts (ir_item r') = i_attempts (ir_item r)) \<and>
      (superseded_row r \<longrightarrow> r' = r) \<and>
      (frozen_item rs (ir_item r) \<longrightarrow>
        (\<exists>t. ir_item r' = (ir_item r)\<lparr>i_updated_at := t\<rparr>)) \<and>
      (\<forall>v. i_source_occurrence_id (ir_item r) = Some v \<longrightarrow> i_source_occurrence_id (ir_item r') = Some v) \<and>
      (\<forall>v. i_source_fingerprint (ir_item r) = Some v \<longrightarrow> i_source_fingerprint (ir_item r') = Some v) \<and>
      (\<forall>v. i_source_storage_path (ir_item r) = Some v \<longrightarrow> i_source_storage_path (ir_item r') = Some v))"

lemma item_kept_refl [simp]: "item_kept rs r r"
  by (auto simp: item_kept_def intro: exI [where x = "i_updated_at (ir_item r)"])

lemma frozen_updated_at [simp]: "frozen_item rs (i\<lparr>i_updated_at := t\<rparr>) = frozen_item rs i"
  by (simp add: frozen_item_def)

lemma item_kept_trans:
  assumes "item_kept rs a b" "item_kept rs b c"
  shows "item_kept rs a c"
proof -
  have "\<exists>t. ir_item c = (ir_item a)\<lparr>i_updated_at := t\<rparr>" if fr: "frozen_item rs (ir_item a)"
  proof -
    from assms(1) fr obtain t where t: "ir_item b = (ir_item a)\<lparr>i_updated_at := t\<rparr>"
      by (auto simp: item_kept_def)
    with assms(2) fr obtain u where "ir_item c = (ir_item b)\<lparr>i_updated_at := u\<rparr>"
      by (auto simp: item_kept_def)
    with t show ?thesis by auto
  qed
  moreover have "superseded_row a \<Longrightarrow> superseded_row b"
    using assms(1) by (auto simp: item_kept_def)
  ultimately show ?thesis using assms by (auto simp: item_kept_def)
qed

lemma merge_same_item:
  "merge_item s (s\<lparr>i_updated_at := t\<rparr>) = s\<lparr>i_updated_at := t\<rparr>"
  by (simp add: merge_item_def coalesce_def split: option.splits)

lemma known_not_differs:
  "\<not> known_differs (Some v) new \<Longrightarrow> coalesce new (Some v) = Some v"
  by (auto simp: known_differs_def coalesce_def split: option.splits)

lemma preserved_source:
  assumes "require_preserved_item_source old new = Inr u"
  shows "\<not> known_differs (i_source_occurrence_id old) (i_source_occurrence_id new)"
    "\<not> known_differs (i_source_fingerprint old) (i_source_fingerprint new)"
    "\<not> known_differs (i_source_storage_path old) (i_source_storage_path new)"
  using assms
  by (auto simp: require_preserved_item_source_def guard_simps known_source_conflict_def split: if_splits)

text \<open>What a passed guard says of the durable row.\<close>

lemma require_item_row:
  assumes "require_scheduled_item d k i stage = Inr u" "item_row_of d (i_id i) = Some r"
  shows "i_task_id i = k" "i_task_id (ir_item r) = k" "i_storage_id (ir_item r) = i_storage_id i"
    "i_source_path (ir_item r) = i_source_path i" "\<not> superseded_row r"
    "require_preserved_item_source (ir_item r) i = Inr ()"
    "i_attempts i = (if stage = StartPub then i_attempts (ir_item r) + 1 else i_attempts (ir_item r))"
    "stage = StartPub \<Longrightarrow> resumable_item (i_status (ir_item r)) \<and> replay_safe d (i_id i)"
    "stage = OutcomePub \<Longrightarrow> i_status (ir_item r) = Processing"
    "stage \<noteq> StartPub \<Longrightarrow> settled_item (i_status (ir_item r)) \<Longrightarrow>
      i\<lparr>i_lock_owner_token := None\<rparr> = (ir_item r)\<lparr>i_updated_at := i_updated_at i\<rparr>"
  using assms
  by (auto simp: require_scheduled_item_def guard_simps Let_def split: if_splits)

lemma merge_row_kept:
  assumes g: "require_scheduled_item d k i stage = Inr u" and r: "item_row_of d (i_id i) = Some r"
  shows "item_kept (db_results d) r (merge_row r \<lparr>ir_item = item_columns i, ir_superseded_by = None\<rparr>)"
proof -
  let ?m = "merge_item (ir_item r) (item_columns i)"
  note row = require_item_row [OF g r]
  have key: "item_key r = i_id i" using r find_row_key unfolding item_row_of_def by metis
  have frozen: "\<exists>t. ?m = (ir_item r)\<lparr>i_updated_at := t\<rparr>" if f: "frozen_item (db_results d) (ir_item r)"
  proof -
    have "stage \<noteq> StartPub" using row(8) f key by (auto simp: frozen_item_def replay_safe_def)
    with row(10) f have "item_columns i = (ir_item r)\<lparr>i_updated_at := i_updated_at i\<rparr>"
      by (simp add: frozen_item_def item_columns_def)
    then show ?thesis using merge_same_item by metis
  qed
  have attempts: "i_attempts i = i_attempts (ir_item r)"
    if "\<not> list_all zero_effect_result (filter (\<lambda>q. r_item_id q = item_key r) (db_results d))"
    using row(7,8) that key by (auto simp: replay_safe_def)
  note kd = preserved_source [OF row(6)]
  have src: "i_source_occurrence_id (ir_item r) = Some v \<Longrightarrow> i_source_occurrence_id ?m = Some v"
    "i_source_fingerprint (ir_item r) = Some v \<Longrightarrow> i_source_fingerprint ?m = Some v"
    "i_source_storage_path (ir_item r) = Some v \<Longrightarrow> i_source_storage_path ?m = Some v" for v
    using kd known_not_differs by (simp_all add: merge_item_def item_columns_def)
  show ?thesis
    using row(5,7) frozen src attempts
    by (auto simp: item_kept_def merge_row_def)
      (simp_all add: merge_item_def item_columns_def)
qed

section \<open>The item table\<close>

definition items_evolve :: "db \<Rightarrow> db \<Rightarrow> bool" where
  "items_evolve d d' =
     (\<exists>rs new. db_items d' = rs @ new \<and> list_all2 (item_kept (db_results d)) (db_items d) rs \<and>
        distinct (map item_key new) \<and> (\<forall>r \<in> set new. item_row_of d (item_key r) = None))"

lemma items_evolve_refl [simp]: "db_items d' = db_items d \<Longrightarrow> items_evolve d d'"
  unfolding items_evolve_def
  by (intro exI [where x = "db_items d"] exI [where x = "[]"]) (simp add: list.rel_refl)

lemma kept_keys:
  "list_all2 (item_kept w) rs ss \<Longrightarrow> map item_key ss = map item_key rs"
  by (induction rule: list_all2_induct) (auto simp: item_kept_def)

lemma items_evolve_keys:
  assumes "items_evolve d d'"
  shows "distinct_rows item_key (db_items d) \<Longrightarrow> distinct_rows item_key (db_items d')"
proof -
  from assms obtain rs new where d': "db_items d' = rs @ new"
    and l: "list_all2 (item_kept (db_results d)) (db_items d) rs"
    and n: "distinct (map item_key new)" "\<forall>r \<in> set new. item_row_of d (item_key r) = None"
    unfolding items_evolve_def by auto
  have m: "item_key ` set rs = item_key ` set (db_items d)" "distinct (map item_key rs) = distinct (map item_key (db_items d))"
    using kept_keys [OF l] by (metis set_map, metis)
  have f: "item_key ` set new \<inter> item_key ` set (db_items d) = {}"
    using n(2) by (auto simp: item_row_of_def find_row_None)
  show "distinct_rows item_key (db_items d')" if "distinct_rows item_key (db_items d)"
    using that m(2) n(1) f unfolding m(1) [symmetric]
    by (simp add: distinct_rows_def d' inf_commute)
qed

lemma list_all2_find_item:
  "list_all2 (item_kept w) rs ss \<Longrightarrow>
    (find_row item_key k rs = None \<and> find_row item_key k ss = None) \<or>
    (\<exists>r s. find_row item_key k rs = Some r \<and> find_row item_key k ss = Some s \<and> item_kept w r s)"
  by (induction rule: list_all2_induct) (auto simp: item_kept_def)

lemma items_evolve_row:
  assumes "items_evolve d d'" "item_row_of d k = Some r"
  obtains s where "item_row_of d' k = Some s" "item_kept (db_results d) r s"
proof -
  from assms(1) obtain rs new where d': "db_items d' = rs @ new"
    and l: "list_all2 (item_kept (db_results d)) (db_items d) rs"
    unfolding items_evolve_def by auto
  from list_all2_find_item [OF l, of k] assms(2) obtain s where
    "find_row item_key k rs = Some s" "item_kept (db_results d) r s"
    by (auto simp: item_row_of_def)
  with d' that show thesis by (simp add: item_row_of_def find_row_append)
qed

lemma items_evolve_trans:
  assumes 1: "items_evolve d e" and 2: "items_evolve e g" and res: "db_results e = db_results d"
  shows "items_evolve d g"
proof -
  from 1 obtain rs n where e: "db_items e = rs @ n"
    and le: "list_all2 (item_kept (db_results d)) (db_items d) rs"
    and ne: "distinct (map item_key n)" "\<forall>r \<in> set n. item_row_of d (item_key r) = None"
    unfolding items_evolve_def by auto
  from 2 res e obtain ss m where g: "db_items g = ss @ m"
    and lg: "list_all2 (item_kept (db_results d)) (rs @ n) ss"
    and ng: "distinct (map item_key m)" "\<forall>r \<in> set m. item_row_of e (item_key r) = None"
    unfolding items_evolve_def by auto
  from lg obtain s1 s2 where ss: "ss = s1 @ s2" and l1: "list_all2 (item_kept (db_results d)) rs s1"
    and l2: "list_all2 (item_kept (db_results d)) n s2"
    by (auto simp: list_all2_append1)
  have k: "item_key ` set rs = item_key ` set (db_items d)" "map item_key s2 = map item_key n"
    "item_key ` set s2 = item_key ` set n"
    using kept_keys [OF le] kept_keys [OF l2] by (metis set_map)+
  have l: "list_all2 (item_kept (db_results d)) (db_items d) s1"
    by (rule list_all2_trans [OF item_kept_trans le l1])
  have "item_key ` set m \<inter> item_key ` set n = {}"
    using ng(2) e by (auto simp: item_row_of_def find_row_None)
  with ne(1) ng(1) k(2,3) have dm: "distinct (map item_key (s2 @ m))"
    by (simp add: inf_commute)
  have fm: "\<forall>r \<in> set (s2 @ m). item_row_of d (item_key r) = None"
  proof
    fix r assume r: "r \<in> set (s2 @ m)"
    have n: "x \<in> item_key ` set n \<Longrightarrow> x \<notin> item_key ` set (db_items d)" for x
      using ne(2) by (auto simp: item_row_of_def find_row_None)
    have m: "x \<in> item_key ` set m \<Longrightarrow> x \<notin> item_key ` set (db_items d)" for x
      using ng(2) e unfolding k(1) [symmetric] by (auto simp: item_row_of_def find_row_None)
    from r have "item_key r \<in> item_key ` set n \<or> item_key r \<in> item_key ` set m"
      using k(3) by auto
    with n m show "item_row_of d (item_key r) = None"
      by (auto simp only: item_row_of_def find_row_None)
  qed
  show ?thesis
    unfolding items_evolve_def using g ss l dm fm
    by (intro exI [where x = s1] exI [where x = "s2 @ m"]) simp
qed

lemma upsert_item_evolves:
  assumes g: "require_scheduled_item d k i stage = Inr u" and up: "upsert_item i e = Inr e'"
    and e: "db_items e = db_items d"
    and dist: "distinct_rows item_key (db_items d)"
  shows "items_evolve d e'"
proof -
  let ?new = "\<lparr>ir_item = item_columns i, ir_superseded_by = None\<rparr>"
  have key: "item_key ?new = i_id i" by (simp add: item_columns_def)
  from up e have e': "db_items e' = upsert_row item_key merge_row ?new (db_items d)"
    by (auto simp: upsert_item_def guard_simps)
  show ?thesis
  proof (cases "item_row_of d (i_id i)")
    case None
    with e' key have "db_items e' = db_items d @ [?new]" "item_row_of d (item_key ?new) = None"
      by (simp_all add: upsert_row_def item_row_of_def)
    then show ?thesis
      unfolding items_evolve_def
      by (intro exI [where x = "db_items d"] exI [where x = "[?new]"]) (simp add: list.rel_refl)
  next
    case (Some r)
    with e' key have e'': "db_items e' = update_rows (\<lambda>o'. item_key o' = i_id i) (\<lambda>o'. merge_row o' ?new) (db_items d)"
      by (simp add: upsert_row_def item_row_of_def)
    have uniq: "q = r" if "q \<in> set (db_items d)" "item_key q = i_id i" for q
      using find_row_mem [OF dist that(1)] that(2) Some by (simp add: item_row_of_def)
    have "list_all2 (item_kept (db_results d)) (db_items d) (db_items e')"
      unfolding e'' update_rows_def
      using merge_row_kept [OF g Some] uniq
      by (auto simp: list_all2_map2 intro!: list.rel_refl_strong)
    then show ?thesis
      unfolding items_evolve_def
      by (intro exI [where x = "db_items e'"] exI [where x = "[]"]) simp
  qed
qed

lemma release_items_evolve:
  assumes "publish_release_items k is d = Inr d'" "distinct_rows item_key (db_items d)"
  shows "items_evolve d d'"
  using assms
proof (induction "is" arbitrary: d)
  case Nil
  then show ?case by simp
next
  case (Cons i "is")
  show ?case
  proof (cases "item_is_superseded d k (i_id i)")
    case True
    with Cons show ?thesis by simp
  next
    case False
    with Cons.prems(1) obtain e where g: "require_scheduled_item d k i ProgressPub = Inr ()"
      and e: "upsert_item i d = Inr e" and rest: "publish_release_items k is e = Inr d'"
      by (auto simp: guard_simps)
    have s: "items_evolve d e" by (rule upsert_item_evolves [OF g e refl Cons.prems(2)])
    have "items_evolve e d'"
      by (rule Cons.IH [OF rest items_evolve_keys [OF s Cons.prems(2)]])
    with s show ?thesis by (rule items_evolve_trans) (rule upsert_item_frame(3) [OF e])
  qed
qed

end
