(* ===== verification/Kernel_Invariants.thy ===== *)
theory Kernel_Invariants
  imports Kernel_Items_Kept
begin

text \<open>
  Every operation keeps the database well formed, and the facts about runs that follow: what happens
  to rows, Tasks, items and Results however many operations are performed and by whom. Then the fence of
  an operation: what a caller without the claim can write, and the rows a committed release leaves.
\<close>

section \<open>Items and Results under an operation\<close>

lemma release_items:
  assumes "release_scheduled_claim f g d = Inr (r, d')" "distinct_rows item_key (db_items d)"
  shows "items_evolve d d' \<and> db_results d' = db_results d"
  using release_Some [OF assms(1)]
proof (elim disjE exE)
  fix s0 s
  let ?d1 = "close_recorded_boundary g (release_now f g) s0 d"
  assume "let k = t_id (g_task g); now = release_now f g; d1 = close_recorded_boundary g now s0 d in
       release_values f g = Inr () \<and> scheduled_state d k = Some s0 \<and> scheduled_state d1 k = Some s \<and>
       release_guards f g s d1 = Inr (Some ()) \<and> release_writes g now s d1 = Inr d' \<and>
       r = scheduled_state d' k"
  then have "release_writes g (release_now f g) s ?d1 = Inr d'" by (simp add: Let_def)
  then show ?thesis
  proof (rule release_writes_tables)
    fix d2
    assume p: "publish_release_items (t_id (g_task g)) (g_items g) (publish_task_row (g_task g) ?d1) = Inr d2"
      and t: "db_items d' = db_items d2" "db_results d' = db_results d2"
    have 1: "items_evolve d (publish_task_row (g_task g) ?d1)" by simp
    have 2: "items_evolve (publish_task_row (g_task g) ?d1) d2"
      using p by (rule release_items_evolve) (simp add: assms(2))
    have "items_evolve d d2" by (rule items_evolve_trans [OF 1 2]) simp
    with t publish_release_items_frame [OF p] show ?thesis by (simp add: items_evolve_def)
  qed
qed simp

lemma outcome_items_results:
  assumes "publish_scheduled_item_outcome f i r ev hint d = Inr (x, d')"
    and dist: "distinct_rows item_key (db_items d)"
  shows "items_evolve d d' \<and> (\<exists>new. db_results d' = db_results d @ new) \<and>
    (distinct_rows r_id (db_results d) \<longrightarrow> distinct_rows r_id (db_results d'))"
proof (cases "scheduled_claim d f")
  case False
  with assms show ?thesis by (auto simp: publish_scheduled_item_outcome_def)
next
  case True
  with assms(1) obtain d1 d2 where g: "outcome_guards f i r ev d = Inr ()"
    and d1: "insert_result r False d = Inr d1" and d2: "upsert_item i d1 = Inr d2"
    and d': "db_items d' = db_items d2" "db_results d' = db_results d2"
    by (auto simp: publish_scheduled_item_outcome_def guard_simps Let_def insert_result_conflict
        split: option.splits)
  from g have "require_scheduled_item d (f_task_id f) i OutcomePub = Inr ()"
    by (simp add: outcome_guards_def guard_simps)
  then have "items_evolve d d2"
    using d2 insert_result_frame(3) [OF d1] dist by (rule upsert_item_evolves)
  moreover from d1 obtain row where "insert_row r_id row (db_results d) = Inr (db_results d1)"
    by (auto simp: insert_result_def guard_simps Let_def)
  then have "\<exists>new. db_results d1 = db_results d @ new"
    "distinct_rows r_id (db_results d) \<longrightarrow> distinct_rows r_id (db_results d1)"
    by (auto simp: guard_simps) (auto intro: distinct_insert simp: guard_simps)
  ultimately show ?thesis
    using d' upsert_item_frame(3) [OF d2] by (simp add: items_evolve_def)
qed

lemma upsert_scheduled_items:
  assumes "upsert_scheduled_item f i stage d = Inr (r, d')" "distinct_rows item_key (db_items d)"
  shows "items_evolve d d'"
  using assms upsert_item_evolves [of d "f_task_id f" i stage "()" d]
  by (cases "scheduled_claim d f") (auto simp: upsert_scheduled_item_def guard_simps)

lemma begin_item_items:
  assumes "begin_scheduled_item_with_ownership own hist f i stage b d = Inr (r, d')"
    and dist: "distinct_rows item_key (db_items d)"
  shows "items_evolve d d'"
proof (cases "scheduled_claim d f \<and> own d i = None")
  case False
  with assms have "d' = d"
    by (auto simp: begin_scheduled_item_with_ownership_def guard_simps split: if_splits option.splits)
  then show ?thesis by simp
next
  case True
  with assms(1) obtain w where g: "require_scheduled_item d (f_task_id f) w stage = Inr ()"
    and u: "upsert_item w d = Inr d'"
    by (auto simp: begin_scheduled_item_with_ownership_def guard_simps Let_def)
  show ?thesis by (rule upsert_item_evolves [OF g u refl dist])
qed

theorem perform_items_results:
  assumes "perform cap op d = Inr d'" "distinct_rows item_key (db_items d)"
  shows "items_evolve d d' \<and> (\<exists>new. db_results d' = db_results d @ new) \<and>
    (distinct_rows r_id (db_results d) \<longrightarrow> distinct_rows r_id (db_results d'))"
proof -
  have same: ?thesis if "db_items d' = db_items d" "db_results d' = db_results d"
    using that by simp
  show ?thesis
  proof (cases op)
    case (AdmitOp task st disp)
    with assms(1) show ?thesis
      by (elim perform_admit [of cap task st disp d d', simplified AdmitOp [symmetric]])
        (auto intro!: same simp: admit_new_Inr)
  next
    case (ReleaseOp f g)
    with assms release_items show ?thesis by (auto simp: guard_simps)
  next
    case (ItemOp f i stage)
    with assms upsert_scheduled_items upsert_scheduled_item_frame show ?thesis
      by (fastforce simp: guard_simps)
  next
    case (StartItemOp own hist f i stage b)
    with assms begin_item_items begin_item_frame show ?thesis by (fastforce simp: guard_simps)
  next
    case (OutcomeOp f i r ev hint)
    with assms outcome_items_results show ?thesis by (auto simp: guard_simps)
  next
    case (ClaimNextOp now w tok lease)
    with assms(1) show ?thesis
      by (auto simp: guard_simps claim_next_scheduled_task_def dest: claim_in_transaction_frame intro!: same)
  next
    case (ClaimOp k now w tok lease)
    with assms(1) show ?thesis
      by (auto simp: guard_simps claim_scheduled_task_def dest: claim_in_transaction_frame intro!: same)
  qed (use assms(1) in \<open>auto simp: guard_simps heartbeat_scheduled_claim_def begin_scheduled_work_def
      request_scheduled_control_def yield_scheduled_claim_def requeue_scheduled_task_def
      requeue_scheduled_analysis_def resume_waiting_def begin_scheduled_mutation_def
      publish_scheduled_task_def Let_def intro!: same split: if_splits option.splits\<close>)
qed

section \<open>Well-formedness is kept\<close>

theorem perform_ok:
  assumes ok: "db_ok d" and p: "perform cap op d = Inr d'"
  shows "db_ok d'"
proof -
  have tasks: "distinct_rows t_id (db_tasks d')" "t_id ` set (db_tasks d) \<subseteq> t_id ` set (db_tasks d')"
    using tasks_evolve_keys [OF perform_tasks [OF p]] ok by (auto simp: db_ok_def)
  have items: "distinct_rows item_key (db_items d')" "distinct_rows r_id (db_results d')"
    using perform_items_results [OF p] items_evolve_keys ok by (auto simp: db_ok_def)
  have "distinct_rows s_task_id (db_sched d') \<and>
      (\<forall>s \<in> set (db_sched d'). row_ok s \<and> s_task_id s \<in> t_id ` set (db_tasks d'))"
  proof (cases "\<exists>task st disp. op = AdmitOp task st disp")
    case True
    then obtain task st disp where op: "op = AdmitOp task st disp" by blast
    show ?thesis
      by (rule perform_admit [OF p [unfolded op]])
        (use ok in \<open>auto simp: db_ok_def admit_new_Inr fresh_row_ok distinct_rows_def
          scheduled_state_def find_row_None dest!: admit_new_Inr(1,2,5)\<close>)
  next
    case False
    then have ev: "evolves (moves_of op) d d'" using perform_evolves [OF ok p] by blast
    let ?P = "\<lambda>s. row_ok s \<and> s_task_id s \<in> t_id ` set (db_tasks d')"
    have "\<forall>s \<in> set (db_sched d'). ?P s"
      using ev by (rule evolves_all) (use ok tasks in \<open>auto simp: db_ok_def row_step_ok row_step_task\<close>)
    then show ?thesis using evolves_distinct [OF ev] ok by (simp add: db_ok_def)
  qed
  with tasks items show ?thesis by (simp add: db_ok_def)
qed

lemma run_ok: "kernel_run A C d d' \<Longrightarrow> db_ok d \<Longrightarrow> db_ok d'"
  by (induction rule: kernel_run.induct) (auto intro: perform_ok)

section \<open>One row along a run\<close>

text \<open>The moves the allowed operations can make.\<close>

definition allowed_moves :: "(kernel_op \<Rightarrow> bool) \<Rightarrow> move set" where
  "allowed_moves A = (\<Union>op \<in> Collect A. moves_of op)"

lemma perform_row:
  assumes "db_ok d" "perform cap op d = Inr d'" "scheduled_state d k = Some s"
  obtains t where "scheduled_state d' k = Some t" "row_trans (moves_of op) s t"
proof (cases "\<exists>task st disp. op = AdmitOp task st disp")
  case True
  then obtain task st disp where op: "op = AdmitOp task st disp" by blast
  show thesis
  proof (rule perform_admit [OF assms(2) [unfolded op]])
    assume "d' = d"
    with assms(3) that show thesis by auto
  next
    assume "admit_new task st disp d = Inr d'"
    then have "db_sched d' = db_sched d @ [st]" by (rule admit_new_Inr)
    with assms(3) that show thesis by (auto simp: scheduled_state_def find_row_append)
  qed
next
  case False
  with assms that show thesis using perform_evolves evolves_state by metis
qed

lemma run_row:
  assumes "kernel_run A C d d'" "db_ok d" "scheduled_state d k = Some s"
  obtains t where "scheduled_state d' k = Some t" "row_trans (allowed_moves A) s t"
proof -
  have "\<exists>t. scheduled_state d' k = Some t \<and> row_trans (allowed_moves A) s t"
    using assms
  proof (induction rule: kernel_run.induct)
    case (start d)
    then show ?case by auto
  next
    case (step d e op cap e')
    then obtain t where t: "scheduled_state e k = Some t" "row_trans (allowed_moves A) s t" by blast
    obtain u where u: "scheduled_state e' k = Some u" "row_trans (moves_of op) t u"
      by (rule perform_row [OF run_ok [OF step.hyps(1) step.prems(1)] step.hyps(4) t(1)])
    have "row_trans (allowed_moves A) t u"
      using u(2) by (rule row_trans_mono) (use step.hyps(2) in \<open>auto simp: allowed_moves_def\<close>)
    with t(2) u(1) show ?case by (auto intro: row_trans_trans)
  qed
  with that show thesis by blast
qed

section \<open>Capacity along a run\<close>

lemma perform_capacity:
  assumes "db_ok d" "perform cap op d = Inr d'"
  shows "capacity_use d' \<le> max (capacity_use d) cap"
proof (cases "MReenter \<in> moves_of op")
  case True
  then have guard: "capacity_use d < cap"
    and one: "\<exists>f k d1. db_sched d' = update_rows (\<lambda>s. s_task_id s = k) f (db_sched d)"
    using assms(2)
    by (cases op rule: moves_of.cases;
        auto simp: guard_simps requeue_scheduled_task_def requeue_scheduled_analysis_def Let_def
          update_sched_def split: option.splits)+
  from one have "capacity_use d' \<le> Suc (capacity_use d)"
    using row_count_update_one [of s_task_id "db_sched d" holds_capacity] assms(1)
    by (auto simp: capacity_use_def db_ok_def)
  with guard show ?thesis by simp
next
  case False
  show ?thesis
  proof (cases "\<exists>task st disp. op = AdmitOp task st disp")
    case True
    then obtain task st disp where op: "op = AdmitOp task st disp" by blast
    show ?thesis
      by (rule perform_admit [OF assms(2) [unfolded op]])
        (auto simp: capacity_use_def dest!: admit_new_Inr(1))
  next
    case no: False
    then have "evolves (moves_of op) d d'" using perform_evolves [OF assms] by blast
    with False have "capacity_use d' \<le> capacity_use d" by (rule evolves_capacity [rotated])
    then show ?thesis by simp
  qed
qed

section \<open>Results, items and Tasks along a run\<close>

lemma run_results:
  assumes "kernel_run A C d d'" "db_ok d"
  shows "\<exists>new. db_results d' = db_results d @ new"
  using assms
proof (induction rule: kernel_run.induct)
  case (start d)
  then show ?case by auto
next
  case (step d e op cap e')
  then have "db_ok e" by (blast intro: run_ok)
  with step perform_items_results [OF step.hyps(4)] show ?case by (force simp: db_ok_def)
qed

lemma run_authority:
  assumes "kernel_run A C d d'" "get_task d k = Some t"
  shows "\<exists>u. get_task d' k = Some u \<and> same_authority t u"
  using assms
proof (induction rule: kernel_run.induct)
  case (start d)
  then show ?case by simp
next
  case (step d e op cap e')
  then obtain u where u: "get_task e k = Some u" "same_authority t u" by blast
  obtain v where "get_task e' k = Some v" "same_authority u v"
    by (rule tasks_evolve_get [OF perform_tasks [OF step.hyps(4)] u(1)])
  with u(2) show ?case by (blast intro: same_authority_trans)
qed

lemma frozen_item_mono: "frozen_item rs i \<Longrightarrow> frozen_item (rs @ new) i"
  by (auto simp: frozen_item_def)

text \<open>A frozen item stays as it is along a run, up to the instant of its last write.\<close>

lemma run_frozen:
  assumes "kernel_run A C d d'" "db_ok d" "item_row_of d k = Some r"
    "frozen_item (db_results d) (ir_item r)"
  shows "\<exists>r' t. item_row_of d' k = Some r' \<and> ir_item r' = (ir_item r)\<lparr>i_updated_at := t\<rparr> \<and>
    frozen_item (db_results d') (ir_item r')"
  using assms
proof (induction rule: kernel_run.induct)
  case (start d)
  then show ?case by (intro exI [where x = r] exI [where x = "i_updated_at (ir_item r)"]) simp
next
  case (step d e op cap e')
  then obtain q t where q: "item_row_of e k = Some q" "ir_item q = (ir_item r)\<lparr>i_updated_at := t\<rparr>"
    "frozen_item (db_results e) (ir_item q)"
    by blast
  have ok: "db_ok e" using step by (blast intro: run_ok)
  note ev = perform_items_results [OF step.hyps(4)]
  from ev ok have ie: "items_evolve e e'" by (simp add: db_ok_def)
  obtain z where z: "item_row_of e' k = Some z" "item_kept (db_results e) q z"
    by (rule items_evolve_row [OF ie q(1)])
  from z(2) q(3) obtain u where u: "ir_item z = (ir_item q)\<lparr>i_updated_at := u\<rparr>"
    by (auto simp: item_kept_def)
  obtain new where "db_results e' = db_results e @ new" using ev ok by (auto simp: db_ok_def)
  with q(3) u have "frozen_item (db_results e') (ir_item z)" by (simp add: frozen_item_mono)
  with z u q(2) show ?case by (intro exI [where x = z] exI [where x = u]) simp
qed

text \<open>Once an effect that is not proved empty is recorded, no run adds an attempt to the item.\<close>

lemma unsafe_results:
  "q \<in> set (db_results d) \<Longrightarrow> \<not> zero_effect_result q \<Longrightarrow> \<not> replay_safe d (r_item_id q)"
  by (auto simp: replay_safe_def list_all_iff)

lemma run_attempts:
  assumes "kernel_run A C d d'" "db_ok d" "item_row_of d k = Some r"
    "q \<in> set (db_results d)" "r_item_id q = k" "\<not> zero_effect_result q"
  shows "\<exists>r'. item_row_of d' k = Some r' \<and> i_attempts (ir_item r') = i_attempts (ir_item r)"
  using assms
proof (induction rule: kernel_run.induct)
  case (start d)
  then show ?case by blast
next
  case (step d e op cap e')
  then obtain u where u: "item_row_of e k = Some u" "i_attempts (ir_item u) = i_attempts (ir_item r)" by blast
  have ok: "db_ok e" using step by (blast intro: run_ok)
  have "q \<in> set (db_results e)" using run_results [OF step.hyps(1) step.prems(1)] step.prems(3) by auto
  then have "\<not> replay_safe e k" using step.prems(4,5) unsafe_results by blast
  moreover have "item_key u = k" using u(1) find_row_key unfolding item_row_of_def by metis
  ultimately have unsafe: "\<not> list_all zero_effect_result (filter (\<lambda>q. r_item_id q = item_key u) (db_results e))"
    by (simp add: replay_safe_def)
  have ie: "items_evolve e e'" using perform_items_results [OF step.hyps(4)] ok by (simp add: db_ok_def)
  obtain z where "item_row_of e' k = Some z" "item_kept (db_results e) u z"
    by (rule items_evolve_row [OF ie u(1)])
  with unsafe u(2) show ?case by (auto simp: item_kept_def)
qed

section \<open>Fenced ownership\<close>

text \<open>
  The interface of a fenced resource: its generation never falls, a holder names the current
  generation, and a step that keeps the generation gives it to nobody new. A fence that has been
  lost is then lost for good.
\<close>

locale fenced_resource =
  fixes owns :: "'s \<Rightarrow> 'f \<Rightarrow> bool" and generation :: "'s \<Rightarrow> nat" and names :: "'f \<Rightarrow> nat"
    and moves :: "'s \<Rightarrow> 's \<Rightarrow> bool"
  assumes grows: "moves s s' \<Longrightarrow> generation s \<le> generation s'"
    and current: "owns s f \<Longrightarrow> names f = generation s"
    and no_regain: "moves s s' \<Longrightarrow> generation s' = generation s \<Longrightarrow> owns s' f \<Longrightarrow> owns s f"
begin

definition lost :: "'f \<Rightarrow> 's \<Rightarrow> bool" where
  "lost f s = (names f \<le> generation s \<and> \<not> owns s f)"

lemma lost_step: "moves s s' \<Longrightarrow> lost f s \<Longrightarrow> lost f s'"
  unfolding lost_def using grows current no_regain by (metis le_antisym le_trans)

lemma lost_forever: "moves\<^sup>*\<^sup>* s s' \<Longrightarrow> lost f s \<Longrightarrow> lost f s'"
  by (induction rule: rtranclp_induct) (auto intro: lost_step)

lemma superseded_lost: "names f < generation s \<Longrightarrow> lost f s"
  unfolding lost_def using current by force

end

abbreviation fence_matches :: "sched \<Rightarrow> fence \<Rightarrow> bool" where
  "fence_matches s f \<equiv> claim_matches s (f_worker_id f) (f_token f) (f_generation f)"

abbreviation any_move :: "sched \<Rightarrow> sched \<Rightarrow> bool" where
  "any_move \<equiv> \<lambda>s s'. \<exists>m \<in> UNIV. row_step m s s'"

interpretation claim_fence: fenced_resource fence_matches s_generation f_generation any_move
proof unfold_locales
  show "any_move s s' \<Longrightarrow> s_generation s \<le> s_generation s'" for s s'
    by (auto dest: row_step_generation)
  show "fence_matches s f \<Longrightarrow> f_generation f = s_generation s" for s f
    by (simp add: claim_matches_def)
  show "any_move s s' \<Longrightarrow> s_generation s' = s_generation s \<Longrightarrow> fence_matches s' f \<Longrightarrow> fence_matches s f"
    for s s' f
    by (auto elim!: row_stepE simp: claim_matches_def row_updates)
qed

lemma run_lost:
  assumes "kernel_run A C d d'" "db_ok d" "scheduled_state d k = Some s" "claim_fence.lost f s"
  obtains t where "scheduled_state d' k = Some t" "claim_fence.lost f t"
proof -
  obtain t where t: "scheduled_state d' k = Some t" "row_trans (allowed_moves A) s t"
    by (rule run_row [OF assms(1,2,3)])
  from t(2) have "row_trans UNIV s t" by (rule row_trans_mono) simp
  then have "claim_fence.lost f t"
    unfolding row_trans_def using assms(4) by (rule claim_fence.lost_forever)
  with t(1) that show thesis by blast
qed

fun op_fence :: "kernel_op \<Rightarrow> fence option" where
  "op_fence (HeartbeatOp f lease) = Some f"
| "op_fence (BeginWorkOp f stage) = Some f"
| "op_fence (ReleaseOp f g) = f"
| "op_fence (YieldOp f task items stage e) = Some f"
| "op_fence (ItemOp f i stage) = Some f"
| "op_fence (StartItemOp own hist f i stage b) = Some f"
| "op_fence (MutateOp f i act) = Some f"
| "op_fence (OutcomeOp f i r ev hint) = Some f"
| "op_fence (PublishOp f task) = Some f"
| "op_fence _ = None"

lemma update_rows_none: "(\<And>r. r \<in> set rs \<Longrightarrow> \<not> P r) \<Longrightarrow> update_rows P f rs = rs"
  unfolding update_rows_def by (rule map_idI) simp

lemma heartbeat_lost:
  assumes "heartbeat_scheduled_claim f lease d = Inr (r, d')"
    and "distinct_rows s_task_id (db_sched d)"
    and "\<And>s. scheduled_state d (f_task_id f) = Some s \<Longrightarrow> \<not> fence_matches s f"
  shows "d' = d"
proof -
  let ?hit = "\<lambda>s. s_task_id s = f_task_id f \<and> fence_matches s f"
  have none: "\<not> ?hit s" if "s \<in> set (db_sched d)" for s
    using that assms(2,3) scheduled_state_unique by metis
  from assms(1) obtain g where "d' = d\<lparr>db_sched := update_rows ?hit g (db_sched d)\<rparr>"
    by (auto simp: heartbeat_scheduled_claim_def guard_simps Let_def split: if_splits)
  with none show ?thesis by (simp add: update_rows_none)
qed

text \<open>An operation under a fence that does not hold the claim commits nothing.\<close>

lemma unclaimed_no_write:
  assumes "op_fence op = Some f" "perform cap op d = Inr d'"
    and dist: "distinct_rows s_task_id (db_sched d)"
    and lost: "\<And>s. scheduled_state d (f_task_id f) = Some s \<Longrightarrow> \<not> fence_matches s f"
  shows "d' = d"
proof -
  have no: "\<not> scheduled_claim d f"
    using lost by (auto simp: scheduled_claim_def split: option.splits)
  show ?thesis
  proof (cases op)
    case (HeartbeatOp g lease)
    with assms heartbeat_lost show ?thesis by (auto simp: guard_simps)
  next
    case (ReleaseOp g rel)
    with assms(1,2) obtain r where rel: "release_scheduled_claim (Some f) rel d = Inr (r, d')"
      by (auto simp: guard_simps)
    from release_Some [OF rel] show ?thesis
    proof (elim disjE exE)
      fix s0 s
      let ?d1 = "close_recorded_boundary rel (release_now (Some f) rel) s0 d"
      assume a: "let k = t_id (g_task rel); now = release_now (Some f) rel;
         d1 = close_recorded_boundary rel now s0 d in
         release_values (Some f) rel = Inr () \<and> scheduled_state d k = Some s0 \<and>
         scheduled_state d1 k = Some s \<and> release_guards (Some f) rel s d1 = Inr (Some ()) \<and>
         release_writes rel now s d1 = Inr d' \<and> r = scheduled_state d' k"
      then have k: "f_task_id f = t_id (g_task rel)" and s0: "scheduled_state d (t_id (g_task rel)) = Some s0"
        and s: "scheduled_state ?d1 (t_id (g_task rel)) = Some s" and c: "scheduled_claim ?d1 f"
        by (auto simp: Let_def release_values_def release_guards_def guard_simps split: if_splits)
      have "fence_matches s f" using c s k by (auto dest: scheduled_claim_Some)
      moreover have "s_queue_state s = s_queue_state s0 \<and> s_worker s = s_worker s0 \<and>
          s_token s = s_token s0 \<and> s_generation s = s_generation s0"
        using s s0 by (auto simp: close_recorded_boundary_def scheduled_state_update_sched
            clear_mutation_def split: if_splits)
      ultimately have "fence_matches s0 f" by (simp add: claim_matches_def)
      with lost s0 k show ?thesis by simp
    qed simp
  qed (use assms(1,2) no in \<open>auto simp: guard_simps begin_scheduled_work_def yield_scheduled_claim_def
      upsert_scheduled_item_def begin_scheduled_item_with_ownership_def begin_scheduled_mutation_def
      publish_scheduled_item_outcome_def publish_scheduled_task_def\<close>)
qed

lemma outcome_sched:
  assumes "publish_scheduled_item_outcome f i r ev hint d = Inr (x, d')"
  shows "db_sched d' = db_sched d \<or>
    (clears_boundary (scheduled_state d (f_task_id f)) (i_id i) r \<and>
     db_sched d' = update_rows (\<lambda>s. s_task_id s = f_task_id f \<and> s_mutation_item s = Some (i_id i))
       (clear_mutation (f_now f)) (db_sched d))"
proof (cases "scheduled_claim d f")
  case True
  have st: "db_sched e = db_sched d \<Longrightarrow> scheduled_state e = scheduled_state d" for e
    by (rule ext) (simp add: scheduled_state_def)
  from assms True obtain d1 d2 where "insert_result r False d = Inr d1" "upsert_item i d1 = Inr d2"
    and d': "d' = (let d3 = (case ev of None \<Rightarrow> d2 | Some e \<Rightarrow> append_evidence e d2)
        in if clears_boundary (scheduled_state d3 (f_task_id f)) (i_id i) r
           then d3\<lparr>db_sched := update_rows
                   (\<lambda>s. s_task_id s = f_task_id f \<and> s_mutation_item s = Some (i_id i))
                   (clear_mutation (f_now f)) (db_sched d3)\<rparr>
           else d3)"
    by (auto simp: publish_scheduled_item_outcome_def guard_simps Let_def insert_result_conflict)
  then have "db_sched d2 = db_sched d" by (simp add: insert_result_frame upsert_item_frame)
  then have e: "db_sched (case ev of None \<Rightarrow> d2 | Some e \<Rightarrow> append_evidence e d2) = db_sched d"
    by (simp split: option.splits)
  show ?thesis
    unfolding d' Let_def st [OF e] by (simp add: e)
qed (use assms in \<open>auto simp: publish_scheduled_item_outcome_def\<close>)

lemma close_boundary_state:
  "scheduled_state (close_recorded_boundary g now s d) j =
    (if j = t_id (g_task g) \<and> mutation_in_flight s \<and> g_close_boundary g \<and>
        recorded_unknown_boundary_is_finished d (t_id (g_task g)) s
     then map_option (clear_mutation now) (scheduled_state d j) else scheduled_state d j)"
  by (simp add: close_recorded_boundary_def scheduled_state_update_sched clear_mutation_def)

text \<open>The row a committed release leaves, and the rows it does not touch.\<close>

lemma release_states:
  assumes "release_scheduled_claim f g d = Inr (r, d')"
  shows "(r = None \<and> d' = d \<and> f \<noteq> None) \<or>
    (\<exists>s0 s. scheduled_state d (t_id (g_task g)) = Some s0 \<and> \<not> mutation_in_flight s \<and>
       scheduled_state (close_recorded_boundary g (release_now f g) s0 d) (t_id (g_task g)) = Some s \<and>
       release_guards f g s (close_recorded_boundary g (release_now f g) s0 d) = Inr (Some ()) \<and>
       release_writes g (release_now f g) s (close_recorded_boundary g (release_now f g) s0 d) = Inr d' \<and>
       r = scheduled_state d' (t_id (g_task g)) \<and>
       release_values f g = Inr () \<and>
       (\<forall>j. scheduled_state d' j =
          (if j = t_id (g_task g) then Some (give_back (g_queue_state g) (g_stage g) (release_now f g) s)
           else scheduled_state d j)))"
  using release_Some [OF assms]
proof (elim disjE exE)
  fix s0 s
  let ?k = "t_id (g_task g)" and ?now = "release_now f g"
  let ?d1 = "close_recorded_boundary g ?now s0 d"
  assume "let k = ?k; now = ?now; d1 = close_recorded_boundary g now s0 d in
       release_values f g = Inr () \<and> scheduled_state d k = Some s0 \<and> scheduled_state d1 k = Some s \<and>
       release_guards f g s d1 = Inr (Some ()) \<and> release_writes g now s d1 = Inr d' \<and>
       r = scheduled_state d' k"
  then have a: "release_values f g = Inr ()" "scheduled_state d ?k = Some s0"
    "scheduled_state ?d1 ?k = Some s" "release_guards f g s ?d1 = Inr (Some ())"
    "release_writes g ?now s ?d1 = Inr d'" "r = scheduled_state d' ?k"
    by (simp_all add: Let_def)
  have "scheduled_state d' = scheduled_state (update_sched ?k (give_back (g_queue_state g) (g_stage g) ?now) ?d1)"
    using release_writes_sched [OF a(5)] by (intro ext) (simp add: scheduled_state_def)
  then have "\<forall>j. scheduled_state d' j = (if j = ?k then Some (give_back (g_queue_state g) (g_stage g) ?now s)
           else scheduled_state d j)"
    using a(3) by (auto simp: scheduled_state_update_sched close_boundary_state give_back_def drop_claim_def)
  moreover have "\<not> mutation_in_flight s" using a(4) by (simp add: release_guards_def guard_simps)
  ultimately show ?thesis using a by blast
qed simp

end
