(* ===== verification/Kernel_Examples.thy ===== *)
theory Kernel_Examples
  imports Kernel_Invariants
begin

text \<open>
  A concrete database and the steps of one Task through it, on which the properties are applied: a
  registered Worker, one admitted Task, its claim, its running boundary, one item, the item's
  mutation boundary, its Result and the release.
\<close>

section \<open>Executing a list of operations\<close>

fun run_ops :: "nat \<Rightarrow> kernel_op list \<Rightarrow> db \<Rightarrow> db result" where
  "run_ops cap [] d = Inr d"
| "run_ops cap (op # ops) d = bind_result (perform cap op d) (run_ops cap ops)"

lemma run_ops_run:
  "run_ops cap ops d = Inr d' \<Longrightarrow> \<forall>op \<in> set ops. A op \<Longrightarrow> cap \<le> C \<Longrightarrow> kernel_run A C d d'"
proof (induction ops arbitrary: d)
  case Nil
  then show ?case by (simp add: kernel_run.start)
next
  case (Cons op ops)
  then obtain e where e: "perform cap op d = Inr e" "run_ops cap ops e = Inr d'"
    by (auto simp: guard_simps)
  have "kernel_run A C d e"
    using kernel_run.step [OF kernel_run.start, of A op cap C d e] Cons.prems e(1) by simp
  moreover have "kernel_run A C e d'" using Cons e(2) by simp
  ultimately show ?case by (rule kernel_run_trans)
qed

definition after :: "nat \<Rightarrow> kernel_op list \<Rightarrow> db \<Rightarrow> db" where
  "after cap ops d = (case run_ops cap ops d of Inl _ \<Rightarrow> d | Inr d' \<Rightarrow> d')"

definition runs :: "nat \<Rightarrow> kernel_op list \<Rightarrow> db \<Rightarrow> bool" where
  "runs cap ops d = (case run_ops cap ops d of Inl _ \<Rightarrow> False | Inr _ \<Rightarrow> True)"

lemma runs_after: "runs cap ops d \<Longrightarrow> run_ops cap ops d = Inr (after cap ops d)"
  by (simp add: runs_def after_def split: sum.splits)

lemma run_after:
  "runs cap ops d \<Longrightarrow> kernel_run (\<lambda>_. True) cap d (after cap ops d)"
  using run_ops_run [OF runs_after] by simp

section \<open>A database and its operations\<close>

definition demo_task :: ptask where
  "demo_task = \<lparr>t_id = ''t1'', t_command = ''organize'', t_status = TaskPending,
     t_execute_authorized = True, t_created_at = 0, t_updated_at = 0, t_started_at = None,
     t_completed_at = None, t_total_items = 0, t_completed_items = 0, t_failed_items = 0,
     t_error = None, t_pause_requested = False, t_scope_path = None, t_item_limit = None,
     t_snapshot_id = Some ''snap'', t_snapshot_digest = Some ''dig''\<rparr>"

definition demo_sched :: sched where
  "demo_sched = \<lparr>s_task_id = ''t1'', s_queue_state = Queued, s_trigger = Manual,
     s_principal = ''alice'', s_request_id = Some ''r1'', s_created_at = 0, s_updated_at = 0,
     s_stage = None, s_eligible_at = None, s_generation = 0, s_token = None, s_worker = None,
     s_claimed_at = None, s_expires_at = None, s_heartbeat_at = None, s_control_revision = 0,
     s_control = None, s_control_requested_at = None, s_control_acknowledged_at = None,
     s_mutation_state = None, s_mutation_item = None, s_mutation_action = None,
     s_continuation_actor = None\<rparr>"

definition demo_worker :: worker where
  "demo_worker = \<lparr>w_id = ''w1'', w_label = ''one'', w_registered_at = 0, w_interval = 5,
     w_commands = [''organize''], w_snapshot_id = None, w_snapshot_digest = None,
     w_schema = 58, w_heartbeat_at = 0, w_status = WorkerLive\<rparr>"

definition demo_db :: db where
  "demo_db = \<lparr>db_tasks = [], db_sched = [], db_items = [], db_results = [], db_evidence = [],
     db_locks = [], db_workers = [demo_worker], db_displays = [], db_initial = [],
     db_executions = [], db_execution_items = [], db_discoveries = [], db_transfers = []\<rparr>"

definition demo_fence :: "string \<Rightarrow> nat \<Rightarrow> instant \<Rightarrow> fence" where
  "demo_fence token gen now = \<lparr>f_task_id = ''t1'', f_worker_id = ''w1'', f_token = token,
     f_generation = gen, f_now = now\<rparr>"

definition demo_item :: "item_status \<Rightarrow> int \<Rightarrow> instant \<Rightarrow> pitem" where
  "demo_item status attempts now = \<lparr>i_id = ''i1'', i_task_id = ''t1'', i_storage_id = ''nas'',
     i_resource_library_id = ''lib'', i_source_path = ''a.mkv'', i_source_display = ''a.mkv'',
     i_status = status, i_stage = ''pipeline'', i_attempts = attempts, i_created_at = 2,
     i_updated_at = now, i_plan_id = None, i_destination_storage_id = None,
     i_destination_path = None, i_execution_status = None, i_error = None,
     i_source_occurrence_id = None, i_source_fingerprint = None,
     i_source_fingerprint_state = ''unverified'', i_source_observed_at = None,
     i_progress = None, i_source_storage_path = None, i_lock_owner_token = None\<rparr>"

definition demo_result :: "string \<Rightarrow> string \<Rightarrow> string list presult" where
  "demo_result status certainty = \<lparr>r_id = ''i1:1'', r_task_id = ''t1'', r_item_id = ''i1'',
     r_source_storage_id = ''nas'', r_source_path = ''a.mkv'', r_destination_storage_id = None,
     r_destination_path = None, r_recognition_type = None, r_provider = None,
     r_provider_id = None, r_metadata_policy_id = None, r_naming_policy_id = None,
     r_classification_policy_id = None, r_organize_policy_id = None, r_operation = None,
     r_status = status, r_created_at = 4, r_title = None, r_error = None,
     r_completed_operations = [], r_attachment_count = 0, r_retry_attempts = 0,
     r_retry_category = None, r_cleanup_status = None, r_cleanup_step_count = 0,
     r_effect_certainty = certainty, r_uncertain_effects = [], r_source_occurrence_id = None,
     r_source_fingerprint = None, r_source_fingerprint_state = ''unverified'',
     r_primary_completed = False, r_attachment_results = [], r_source_observed_at = None\<rparr>"

definition demo_release :: "queue_state \<Rightarrow> task_status \<Rightarrow> nat option \<Rightarrow> release" where
  "demo_release q status n = \<lparr>g_task = demo_task\<lparr>t_status := status, t_updated_at := 5\<rparr>,
     g_items = [], g_queue_state = q, g_stage = None, g_revision = n, g_discovery = None,
     g_execution = None, g_execution_items = [], g_initial_stage = None,
     g_close_boundary = False\<rparr>"

text \<open>The steps, in order.\<close>

definition op_admit :: kernel_op where
  "op_admit = AdmitOp demo_task demo_sched None"

definition op_claim :: kernel_op where
  "op_claim = ClaimNextOp (Aware 1) ''w1'' ''tok'' (PyInt 30)"

definition op_begin :: kernel_op where
  "op_begin = BeginWorkOp (demo_fence ''tok'' 1 1) Execution"

definition op_item :: kernel_op where
  "op_item = ItemOp (demo_fence ''tok'' 1 2) (demo_item Processing 1 2) StartPub"

definition op_mutate :: kernel_op where
  "op_mutate = MutateOp (demo_fence ''tok'' 1 3) ''i1'' ''move''"

definition op_outcome :: kernel_op where
  "op_outcome = OutcomeOp (demo_fence ''tok'' 1 4) (demo_item Success 1 4)
     (demo_result ''success'' ''verified_complete'') None True"

definition op_settle :: kernel_op where
  "op_settle = ReleaseOp (Some (demo_fence ''tok'' 1 5)) (demo_release Settled TaskCompleted None)"

lemmas demo_ops = op_admit_def op_claim_def op_begin_def op_item_def op_mutate_def op_outcome_def
  op_settle_def

definition demo_claimed :: db where
  "demo_claimed = after 2 [op_admit, op_claim] demo_db"

definition demo_mutating :: db where
  "demo_mutating = after 2 [op_admit, op_claim, op_begin, op_item, op_mutate] demo_db"

definition demo_recorded :: db where
  "demo_recorded = after 2 [op_admit, op_claim, op_begin, op_item, op_mutate, op_outcome] demo_db"

definition demo_settled :: db where
  "demo_settled =
     after 2 [op_admit, op_claim, op_begin, op_item, op_mutate, op_outcome, op_settle] demo_db"

lemma demo_db_ok: "db_ok demo_db"
  by (simp add: db_ok_def demo_db_def distinct_rows_def)

lemma demo_runs:
  "runs 2 [op_admit, op_claim] demo_db"
  "runs 2 [op_admit, op_claim, op_begin, op_item, op_mutate] demo_db"
  "runs 2 [op_admit, op_claim, op_begin, op_item, op_mutate, op_outcome] demo_db"
  "runs 2 [op_admit, op_claim, op_begin, op_item, op_mutate, op_outcome, op_settle] demo_db"
  by code_simp+

lemma demo_kernel_runs:
  "kernel_run (\<lambda>_. True) 2 demo_db demo_claimed"
  "kernel_run (\<lambda>_. True) 2 demo_db demo_mutating"
  "kernel_run (\<lambda>_. True) 2 demo_db demo_recorded"
  "kernel_run (\<lambda>_. True) 2 demo_db demo_settled"
  unfolding demo_claimed_def demo_mutating_def demo_recorded_def demo_settled_def
  by (rule run_after, rule demo_runs)+

lemmas demo_ok = demo_kernel_runs [THEN run_ok, OF demo_db_ok]

end
