(* ===== verification/Kernel_Properties.thy ===== *)
theory Kernel_Properties
  imports Kernel_Examples Kernel_Invariants
begin

text \<open>
  What the scheduling kernel guarantees, over every run of its operations and for each operation by
  itself, with each property applied to the concrete Task of \<open>Kernel_Examples\<close>.
\<close>

section \<open>Runs\<close>

text \<open>C2: However many admissions, claims, releases and re-entries are performed, by whatever callers and in
  whatever order, the Tasks holding a slot never outnumber the largest capacity in force.\<close>

theorem capacity_never_exceeded:
  assumes "kernel_run A C d d'" "db_ok d" "capacity_use d \<le> C"
  shows "capacity_use d' \<le> C"
  using assms
proof (induction rule: kernel_run.induct)
  case (start d)
  then show ?case by simp
next
  case (step d e op cap e')
  then have "capacity_use e \<le> C" "db_ok e" by (auto intro: run_ok)
  with perform_capacity [OF _ step.hyps(4)] step.hyps(3) show ?case by fastforce
qed

theorem capacity_never_exceeded_witness: "capacity_use demo_settled \<le> 2"
  by (rule capacity_never_exceeded [OF demo_kernel_runs(4) demo_db_ok])
    (simp add: demo_db_def capacity_use_def)

text \<open>C3: A Worker whose claim was lost (taken over, released, yielded or re-queued) never gets it back by
  the same fence: after any run the fence fails, and no operation under it writes anything.\<close>

theorem lost_fence_writes_nothing:
  assumes "kernel_run A C d d'" "db_ok d" "scheduled_state d (f_task_id f) = Some s"
    and "f_generation f \<le> s_generation s" "\<not> fence_matches s f"
    and "op_fence op = Some f" "perform cap op d' = Inr e"
  shows "\<not> scheduled_claim d' f \<and> e = d'"
proof -
  from assms(4,5) have l: "claim_fence.lost f s" by (simp add: claim_fence.lost_def)
  obtain t where t: "scheduled_state d' (f_task_id f) = Some t" "claim_fence.lost f t"
    by (rule run_lost [OF assms(1,2,3) l])
  then have n: "\<not> fence_matches t f" by (simp add: claim_fence.lost_def)
  have ok: "db_ok d'" using run_ok assms(1,2) by blast
  have "e = d'"
    by (rule unclaimed_no_write [OF assms(6,7)]) (use ok t n in \<open>auto simp: db_ok_def\<close>)
  with t n show ?thesis by (auto simp: scheduled_claim_def)
qed

theorem lost_fence_writes_nothing_witness:
  "\<not> scheduled_claim demo_settled (demo_fence ''tok'' 1 6) \<and>
   perform 2 (PublishOp (demo_fence ''tok'' 1 6) demo_task) demo_settled = Inr demo_settled"
proof -
  let ?f = "demo_fence ''tok'' 1 6" and ?s = "the (scheduled_state demo_settled ''t1'')"
  have s: "scheduled_state demo_settled (f_task_id ?f) = Some ?s" "f_generation ?f \<le> s_generation ?s"
    "\<not> fence_matches ?s ?f"
    by code_simp+
  obtain e where e: "perform 2 (PublishOp ?f demo_task) demo_settled = Inr e"
  proof (rule that)
    show "perform 2 (PublishOp ?f demo_task) demo_settled =
        Inr (after 2 [PublishOp ?f demo_task] demo_settled)"
      by code_simp
  qed
  from lost_fence_writes_nothing [OF kernel_run.start demo_ok(4) s _ e] show ?thesis
    using e by simp
qed





end
