(* ===== verification/Run_Properties.thy ===== *)
theory Run_Properties
  imports Kernel_Examples Kernel_Invariants
begin

text \<open>
  What holds between any two databases of a run: admitted authority, recorded Results and final item
  outcomes are kept, an accepted cancel and a settled Task are final. The last theorem says
  when a settled Task opens again, because a release without a claim does not look at the state.
\<close>

text \<open>Nothing a kernel operation does changes what was admitted: after any run every Task still has its
  command, authority, admission instant, scope, limit and configuration pin.\<close>

theorem admitted_authority_immutable:
  assumes "kernel_run A C d d'" "get_task d k = Some t"
  shows "\<exists>u. get_task d' k = Some u \<and> t_command u = t_command t \<and>
    t_execute_authorized u = t_execute_authorized t \<and> t_created_at u = t_created_at t \<and>
    t_scope_path u = t_scope_path t \<and> t_item_limit u = t_item_limit t \<and>
    t_snapshot_id u = t_snapshot_id t \<and> t_snapshot_digest u = t_snapshot_digest t"
  using run_authority [OF assms] by (auto simp: same_authority_def)

theorem admitted_authority_immutable_witness:
  "\<exists>u. get_task demo_settled ''t1'' = Some u \<and> t_execute_authorized u \<and> t_snapshot_id u = Some ''snap''"
proof -
  let ?ops = "[op_begin, op_item, op_mutate, op_outcome, op_settle]"
  have "runs 2 ?ops demo_claimed" by code_simp
  then have r: "kernel_run (\<lambda>_. True) 2 demo_claimed (after 2 ?ops demo_claimed)" by (rule run_after)
  have e: "after 2 ?ops demo_claimed = demo_settled" by code_simp
  have t: "get_task demo_claimed ''t1'' = Some demo_task" by code_simp
  have "t_execute_authorized demo_task \<and> t_snapshot_id demo_task = Some ''snap''" by code_simp
  with admitted_authority_immutable [OF r t] e show ?thesis by auto
qed

text \<open>A recorded Result is never changed or lost, and at most one Result carries an attempt's identity:
  the Results of a later database are the earlier ones followed by new ones.\<close>

theorem results_append_only:
  assumes "kernel_run A C d d'" "db_ok d"
  shows "(\<exists>new. db_results d' = db_results d @ new) \<and> distinct (map r_id (db_results d'))"
  using run_results [OF assms] run_ok [OF assms] by (auto simp: db_ok_def distinct_rows_def)

theorem results_append_only_witness:
  "map r_id (db_results demo_settled) = [''i1:1''] \<and> distinct (map r_id (db_results demo_settled))"
proof -
  have "map r_id (db_results demo_settled) = [''i1:1'']" by code_simp
  with results_append_only [OF demo_kernel_runs(4) demo_db_ok] show ?thesis by simp
qed

text \<open>C20: An item whose outcome is final (anything settled but a failure proved free of effects) keeps that
  outcome through any run: later operations can only touch the instant of its last write.\<close>

theorem final_outcome_is_frozen:
  assumes "kernel_run A C d d'" "db_ok d" "item_row_of d k = Some r"
    "frozen_item (db_results d) (ir_item r)"
  shows "\<exists>r' t. item_row_of d' k = Some r' \<and> ir_item r' = (ir_item r)\<lparr>i_updated_at := t\<rparr>"
  using run_frozen [OF assms] by blast

theorem final_outcome_is_frozen_witness:
  "\<exists>r'. item_row_of demo_settled ''i1'' = Some r' \<and> i_status (ir_item r') = Success"
proof -
  have "runs 2 [op_settle] demo_recorded" by code_simp
  then have r: "kernel_run (\<lambda>_. True) 2 demo_recorded (after 2 [op_settle] demo_recorded)"
    by (rule run_after)
  have e: "after 2 [op_settle] demo_recorded = demo_settled" by code_simp
  let ?r = "the (item_row_of demo_recorded ''i1'')"
  have i: "item_row_of demo_recorded ''i1'' = Some ?r" by code_simp
  have f: "frozen_item (db_results demo_recorded) (ir_item ?r)" by code_simp
  have s: "i_status (ir_item ?r) = Success" by code_simp
  from final_outcome_is_frozen [OF r demo_ok(3) i f] e s show ?thesis by auto
qed

text \<open>An accepted cancel is final: no operation clears it or turns it into a pause.\<close>

theorem cancel_is_irrevocable:
  assumes "kernel_run A C d d'" "db_ok d" "scheduled_state d k = Some s"
    "s_control s = Some ControlCancel"
  shows "\<exists>t. scheduled_state d' k = Some t \<and> s_control t = Some ControlCancel"
proof -
  obtain t where t: "scheduled_state d' k = Some t" "row_trans (allowed_moves A) s t"
    by (rule run_row [OF assms(1,2,3)])
  have "s_control t = Some ControlCancel"
    using t(2) assms(4) by (rule row_trans_invariant) (auto dest: row_step_cancel)
  with t(1) show ?thesis by blast
qed

theorem cancel_is_irrevocable_witness:
  "\<exists>t. scheduled_state (after 2 [ReleaseOp (Some (demo_fence ''tok'' 1 9))
       (demo_release Settled TaskCancelled (Some 1))]
     (after 2 [ControlOp ''t1'' ControlCancel (Aware 8)] demo_claimed)) ''t1'' = Some t \<and>
     s_control t = Some ControlCancel"
proof -
  let ?d = "after 2 [ControlOp ''t1'' ControlCancel (Aware 8)] demo_claimed"
  let ?op = "ReleaseOp (Some (demo_fence ''tok'' 1 9)) (demo_release Settled TaskCancelled (Some 1))"
  have r1: "kernel_run (\<lambda>_. True) 2 demo_claimed ?d" by (rule run_after) code_simp
  have r2: "kernel_run (\<lambda>_. True) 2 ?d (after 2 [?op] ?d)" by (rule run_after) code_simp
  let ?s = "the (scheduled_state ?d ''t1'')"
  have s: "scheduled_state ?d ''t1'' = Some ?s" "s_control ?s = Some ControlCancel" by code_simp+
  show ?thesis by (rule cancel_is_irrevocable [OF r2 run_ok [OF r1 demo_ok(1)] s])
qed

text \<open>A settled Task stays settled, its scheduling facts unchanged, through every run without an unfenced
  release.\<close>

theorem settled_is_final:
  assumes "kernel_run (\<lambda>op. \<forall>g. op \<noteq> ReleaseOp None g) C d d'" "db_ok d"
    "scheduled_state d k = Some s" "s_queue_state s = Settled"
  shows "scheduled_state d' k = Some s"
proof -
  let ?A = "\<lambda>op. \<forall>g. op \<noteq> ReleaseOp None g"
  obtain t where t: "scheduled_state d' k = Some t" "row_trans (allowed_moves ?A) s t"
    by (rule run_row [OF assms(1,2,3)])
  have free: "MFreeRelease \<notin> allowed_moves ?A"
  proof
    assume "MFreeRelease \<in> allowed_moves ?A"
    then obtain op where "?A op" "MFreeRelease \<in> moves_of op" by (auto simp: allowed_moves_def)
    then show False by (cases op rule: moves_of.cases) auto
  qed
  have "t = s"
    using t(2) by (rule row_trans_invariant) (use free assms(4) in \<open>auto dest: row_step_settled\<close>)
  with t(1) show ?thesis by simp
qed

theorem settled_is_final_witness:
  "s_queue_state (the (scheduled_state (after 2 [PublishOp (demo_fence ''tok'' 1 9) demo_task]
     demo_settled) ''t1'')) = Settled"
proof -
  let ?op = "PublishOp (demo_fence ''tok'' 1 9) demo_task"
  have "runs 2 [?op] demo_settled" by code_simp
  then have r: "kernel_run (\<lambda>op. \<forall>g. op \<noteq> ReleaseOp None g) 2 demo_settled (after 2 [?op] demo_settled)"
    by (rule run_ops_run [OF runs_after]) simp_all
  let ?s = "the (scheduled_state demo_settled ''t1'')"
  have s: "scheduled_state demo_settled ''t1'' = Some ?s" "s_queue_state ?s = Settled" by code_simp+
  from settled_is_final [OF r demo_ok(4) s] s(2) show ?thesis by simp
qed





end
