(* ===== verification/Admission_Properties.thy ===== *)
theory Admission_Properties
  imports Kernel_Examples Kernel_Invariants
begin

text \<open>
  Admission: one Task per request identity of a principal, in every reachable database, and the
  exact outcome of an admission. Claims: the oldest claimable Task is granted, and one is granted
  whenever there is one.
\<close>

definition unique_requests :: "db \<Rightarrow> bool" where
  "unique_requests d = (\<forall>s \<in> set (db_sched d). \<forall>t \<in> set (db_sched d).
     s_request_id s \<noteq> None \<longrightarrow> s_principal s = s_principal t \<longrightarrow> s_request_id s = s_request_id t \<longrightarrow>
     s_task_id s = s_task_id t)"

lemma evolves_origin:
  assumes "evolves L d d'" "t \<in> set (db_sched d')"
  obtains s where "s \<in> set (db_sched d)" "row_trans L s t"
proof -
  have "list_all2 (row_trans L) xs ys \<Longrightarrow> t \<in> set ys \<Longrightarrow> \<exists>s \<in> set xs. row_trans L s t" for xs ys
    by (induction rule: list_all2_induct) auto
  with assms that show thesis by (auto simp: evolves_def)
qed

lemma row_trans_admission:
  "row_trans L s t \<Longrightarrow> s_principal t = s_principal s \<and> s_request_id t = s_request_id s \<and>
    s_task_id t = s_task_id s"
  by (erule row_trans_invariant [where P = "\<lambda>t. s_principal t = s_principal s \<and>
      s_request_id t = s_request_id s \<and> s_task_id t = s_task_id s"])
    (auto dest: row_step_admission row_step_task)

lemma perform_unique:
  assumes "db_ok d" "unique_requests d" "perform cap op d = Inr d'"
  shows "unique_requests d'"
proof (cases "\<exists>task st disp. op = AdmitOp task st disp")
  case True
  then obtain task st disp where op: "op = AdmitOp task st disp" by blast
  show ?thesis
  proof (rule perform_admit [OF assms(3) [unfolded op]])
    assume new: "admit_new task st disp d = Inr d'"
    have d': "db_sched d' = db_sched d @ [st]" by (rule admit_new_Inr(1) [OF new])
    have fresh: "s_request_id s \<noteq> s_request_id st"
      if "s_request_id st \<noteq> None" "s \<in> set (db_sched d)" "s_principal s = s_principal st" for s
      using admit_new_Inr(7) [OF new] that by auto
    show ?thesis
      unfolding unique_requests_def d'
    proof (intro ballI impI)
      fix s t
      assume m: "s \<in> set (db_sched d @ [st])" "t \<in> set (db_sched d @ [st])"
        and e: "s_request_id s \<noteq> None" "s_principal s = s_principal t" "s_request_id s = s_request_id t"
      show "s_task_id s = s_task_id t"
      proof (cases "s = st \<or> t = st")
        case True
        then show ?thesis
        proof (cases "s = t")
          case False
          have "s_request_id st \<noteq> None" using True e by metis
          with True False m e fresh [of s] fresh [of t] have False
            by (metis Un_iff empty_iff insert_iff list.set(1) list.set(2) set_append)
          then show ?thesis by blast
        qed simp
      next
        case False
        with m have "s \<in> set (db_sched d)" "t \<in> set (db_sched d)" by auto
        with e assms(2) show ?thesis unfolding unique_requests_def by blast
      qed
    qed
  qed (use assms(2) in simp)
next
  case False
  then have ev: "evolves (moves_of op) d d'" using perform_evolves [OF assms(1,3)] by blast
  show ?thesis
    unfolding unique_requests_def
  proof (intro ballI impI)
    fix s t
    assume m: "s \<in> set (db_sched d')" "t \<in> set (db_sched d')"
      and e: "s_request_id s \<noteq> None" "s_principal s = s_principal t" "s_request_id s = s_request_id t"
    obtain s0 where s0: "s0 \<in> set (db_sched d)" "row_trans (moves_of op) s0 s"
      by (rule evolves_origin [OF ev m(1)])
    obtain t0 where t0: "t0 \<in> set (db_sched d)" "row_trans (moves_of op) t0 t"
      by (rule evolves_origin [OF ev m(2)])
    note same = row_trans_admission [OF s0(2)] row_trans_admission [OF t0(2)]
    have "s_task_id s0 = s_task_id t0"
      using assms(2) s0(1) t0(1) e same unfolding unique_requests_def by metis
    with same show "s_task_id s = s_task_id t" by simp
  qed
qed

text \<open>C22: After any run two scheduling rows of one principal never share a request identity: a request
  that is repeated admits no second Task.\<close>

theorem one_task_per_request:
  assumes "kernel_run A C d d'" "db_ok d" "unique_requests d"
  shows "unique_requests d'"
  using assms
proof (induction rule: kernel_run.induct)
  case (start d)
  then show ?case by simp
next
  case (step d e op cap e')
  then show ?case using perform_unique run_ok by metis
qed

theorem one_task_per_request_witness: "unique_requests demo_settled"
  by (rule one_task_per_request [OF demo_kernel_runs(4) demo_db_ok])
    (simp add: unique_requests_def demo_db_def)

text \<open>Admission on every branch: a repeated request answers with the stored Task and writes nothing, the
  same identity for other work is refused, a full queue refuses, and otherwise exactly one queued row
  and its Task appear.\<close>

theorem admission_outcome:
  assumes "1 \<le> cap" "cap \<le> 10000" "require_scheduled_admission_values task st = Inr ()"
    and "get_task d (t_id task) = None" "scheduled_state d (t_id task) = None"
    and "unique_requests d" "db_ok d"
  shows
    "case Option.bind (s_request_id st) (scheduled_admission d (s_principal st)) of
       Some (t, s) \<Rightarrow> admit_scheduled_task task st (PyInt (int cap)) disp d =
         (if same_admission_context t s task st
          then Inr (\<lparr>d_task = t, d_state = s, d_duplicate = True\<rparr>, d) else Inl TaskAdmissionConflict)
     | None \<Rightarrow>
         (if cap \<le> capacity_use d
          then admit_scheduled_task task st (PyInt (int cap)) disp d = Inl TaskQueueFull
          else \<exists>d'. admit_scheduled_task task st (PyInt (int cap)) disp d =
                 Inr (\<lparr>d_task = task, d_state = st, d_duplicate = False\<rparr>, d') \<and>
               get_task d' (t_id task) = Some task \<and> scheduled_state d' (t_id task) = Some st \<and>
               capacity_use d' = capacity_use d + 1 \<and> db_items d' = db_items d \<and>
               db_results d' = db_results d)"
proof -
  have cap: "require_capacity (PyInt (int cap)) = Inr cap"
    using assms(1,2) by (simp add: require_capacity_Inr)
  note fresh = admission_values_fresh [OF assms(3)]
  show ?thesis
  proof (cases "Option.bind (s_request_id st) (scheduled_admission d (s_principal st))")
    case (Some p)
    then show ?thesis
      by (cases p) (auto simp: admit_scheduled_task_def cap assms(3))
  next
    case None
    have req: "s_request_id st = None \<or>
      (\<forall>s \<in> set (db_sched d). s_principal s = s_principal st \<longrightarrow> s_request_id s \<noteq> s_request_id st)"
    proof (cases "s_request_id st")
      case (Some rid)
      with None have adm: "scheduled_admission d (s_principal st) rid = None" by simp
      have "find (\<lambda>s. s_principal s = s_principal st \<and> s_request_id s = Some rid) (db_sched d) = None"
      proof (rule ccontr)
        assume "find (\<lambda>s. s_principal s = s_principal st \<and> s_request_id s = Some rid) (db_sched d) \<noteq> None"
        then obtain s where f: "find (\<lambda>s. s_principal s = s_principal st \<and> s_request_id s = Some rid) (db_sched d) = Some s"
          by blast
        then have "s \<in> set (db_sched d)" by (auto simp: find_Some_iff)
        then have "s_task_id s \<in> t_id ` set (db_tasks d)" using assms(7) by (simp add: db_ok_def)
        then have "get_task d (s_task_id s) \<noteq> None" by (simp add: get_task_def find_row_None)
        with adm f show False by (auto simp: scheduled_admission_def)
      qed
      with Some show ?thesis by (auto simp: find_None_iff)
    qed simp
    obtain d2 where d2: "d2 = (case disp of None \<Rightarrow> d\<lparr>db_tasks := db_tasks d @ [task]\<rparr>
        | Some c \<Rightarrow> insert_display (t_id task) c (t_created_at task) (d\<lparr>db_tasks := db_tasks d @ [task]\<rparr>))"
      by blast
    have same: "db_sched d2 = db_sched d" "db_tasks d2 = db_tasks d @ [task]"
      "db_items d2 = db_items d" "db_results d2 = db_results d"
      by (simp_all add: d2 split: option.splits)
    have new: "admit_new task st disp d = Inr (d2\<lparr>db_sched := db_sched d @ [st]\<rparr>)"
    proof -
      have i: "insert_row t_id task (db_tasks d) = Inr (db_tasks d @ [task])"
        using assms(4) by (simp add: insert_row_Inr get_task_def)
      have j: "insert_sched st (db_sched d) = Inr (db_sched d @ [st])"
        using assms(5) fresh req by (simp add: insert_sched_Inr scheduled_state_def)
      show ?thesis by (simp add: admit_new_def i Let_def same(1) j flip: d2)
    qed
    have st: "get_task (d2\<lparr>db_sched := db_sched d @ [st]\<rparr>) (t_id task) = Some task"
      "scheduled_state (d2\<lparr>db_sched := db_sched d @ [st]\<rparr>) (t_id task) = Some st"
      "capacity_use (d2\<lparr>db_sched := db_sched d @ [st]\<rparr>) = capacity_use d + 1"
      using assms(4,5) fresh same(2)
      by (auto simp: get_task_def scheduled_state_def find_row_append capacity_use_def
          holds_capacity_def queue_holds_capacity_def fresh_row_def)
    show ?thesis
      using None new st same(3,4)
      by (auto simp: admit_scheduled_task_def cap assms(3))
  qed
qed

theorem admission_outcome_witness:
  "\<exists>d'. admit_scheduled_task demo_task demo_sched (PyInt 2) None demo_db =
     Inr (\<lparr>d_task = demo_task, d_state = demo_sched, d_duplicate = False\<rparr>, d') \<and> capacity_use d' = 1"
proof -
  have g: "require_scheduled_admission_values demo_task demo_sched = Inr ()" by code_simp
  have n: "get_task demo_db (t_id demo_task) = None" "scheduled_state demo_db (t_id demo_task) = None"
    "Option.bind (s_request_id demo_sched) (scheduled_admission demo_db (s_principal demo_sched)) = None"
    "capacity_use demo_db = 0"
    by code_simp+
  have u: "unique_requests demo_db" by (simp add: unique_requests_def demo_db_def)
  show ?thesis
    using admission_outcome [OF _ _ g n(1,2) u demo_db_ok, of 2 None] n(3,4) by auto
qed

section \<open>Claims\<close>

lemma queue_order_total: "queue_order a b \<or> queue_order b a"
  using text_le_total by (auto simp: queue_order_def)

lemma queue_order_trans: "queue_order a b \<Longrightarrow> queue_order b c \<Longrightarrow> queue_order a c"
  using text_le_trans by (auto simp: queue_order_def)

text \<open>A granted claim is on the oldest Task the Worker may take: it was queued (or its lease had lapsed),
  pending, due, free of mutations and supported by the Worker, no such Task precedes it in the queue,
  and the new generation, token and lease are in the row while every other row is untouched.\<close>

theorem claim_takes_the_oldest:
  assumes "claim_next_scheduled_task (Aware now) w tok lease d = Inr (Some c, d')" "db_ok d"
  shows "\<exists>wk s seconds. scheduled_worker d w now = Inr wk \<and> s \<in> set (db_sched d) \<and>
    claimable d wk now None s \<and> (\<forall>q \<in> set (db_sched d). claimable d wk now None q \<longrightarrow> queue_order s q) \<and>
    require_claim_values w tok lease = Inr seconds \<and>
    k_state c = grant_claim w tok now (now + seconds_to_us seconds) s \<and>
    get_task d (s_task_id s) = Some (k_task c) \<and>
    (\<forall>j. scheduled_state d' j = (if j = s_task_id s then Some (k_state c) else scheduled_state d j)) \<and>
    db_tasks d' = db_tasks d \<and> db_items d' = db_items d"
proof -
  from assms(1) obtain v where v: "require_claim_values w tok lease = Inr v"
    and c: "claim_in_transaction None now w tok v d = Inr (Some c, d')"
    by (auto simp: claim_next_scheduled_task_def guard_simps)
  have dist: "distinct_rows s_task_id (db_sched d)" using assms(2) by (simp add: db_ok_def)
  let ?g = "grant_claim w tok now (now + seconds_to_us v)"
  show ?thesis
  proof (rule claim_in_transaction_Some [OF c dist])
    fix wk and s :: sched
    let ?hit = "\<lambda>r. s_task_id r = s_task_id s \<and> s_generation r = s_generation s \<and>
      s_queue_state r \<in> {Queued, Claimed} \<and> s_mutation_state r = None"
    assume wk: "scheduled_worker d w now = Inr wk" and st: "scheduled_state d (s_task_id s) = Some s"
      and least: "claimable_scheduled_task d wk now None = Some s" and cl: "claimable d wk now None s"
      and k: "k_state c = ?g s" and t: "get_task d (s_task_id s) = Some (k_task c)"
      and d': "d' = d\<lparr>db_sched := update_rows ?hit ?g (db_sched d)\<rparr>"
    have order: "\<forall>q \<in> set (db_sched d). claimable d wk now None q \<longrightarrow> queue_order s q"
    proof (intro ballI impI)
      fix q assume "q \<in> set (db_sched d)" "claimable d wk now None q"
      then have q: "q \<in> set (filter (claimable d wk now None) (db_sched d))" by simp
      show "queue_order s q"
        by (rule least_row_least [OF queue_order_total queue_order_trans
              least [unfolded claimable_scheduled_task_def] q])
    qed
    have u: "scheduled_state d' j = map_option (\<lambda>r. if ?hit r then ?g r else r) (scheduled_state d j)" for j
      unfolding d' scheduled_state_def
      using find_row_update [of ?hit s_task_id ?g j "db_sched d"] by (simp add: grant_claim_def)
    have hit: "?hit s" using cl by (simp add: claimable_def)
    have "scheduled_state d' j = (if j = s_task_id s then Some (k_state c) else scheduled_state d j)" for j
    proof (cases "j = s_task_id s")
      case True
      then show ?thesis unfolding u using st hit k by simp
    next
      case False
      have "\<not> ?hit r" if "scheduled_state d j = Some r" for r
        using scheduled_state_mem [OF that] False by auto
      then show ?thesis unfolding u using False by (cases "scheduled_state d j") auto
    qed
    then have rows: "\<forall>j. scheduled_state d' j = (if j = s_task_id s then Some (k_state c) else scheduled_state d j)"
      by blast
    have mem: "s \<in> set (db_sched d)" using scheduled_state_mem [OF st] by blast
    have frame: "db_tasks d' = db_tasks d" "db_items d' = db_items d" by (simp_all add: d')
    show ?thesis
      by (rule exI [where x = wk], rule exI [where x = s], rule exI [where x = v])
        (intro conjI wk mem cl order v k t rows frame)
  qed
qed

theorem claim_takes_the_oldest_witness:
  "\<exists>wk s. scheduled_worker (after 2 [op_admit] demo_db) ''w1'' 1 = Inr wk \<and>
     s \<in> set (db_sched (after 2 [op_admit] demo_db)) \<and>
     (\<forall>q \<in> set (db_sched (after 2 [op_admit] demo_db)).
        claimable (after 2 [op_admit] demo_db) wk 1 None q \<longrightarrow> queue_order s q)"
proof -
  let ?d = "after 2 [op_admit] demo_db"
  let ?r = "claim_next_scheduled_task (Aware 1) ''w1'' ''tok'' (PyInt 30) ?d"
  have e: "?r = Inr (Some (the (fst (projr ?r))), snd (projr ?r))" by code_simp
  have "kernel_run (\<lambda>_. True) 2 demo_db ?d" by (rule run_after) code_simp
  then have ok: "db_ok ?d" using demo_db_ok by (rule run_ok)
  from claim_takes_the_oldest [OF e ok] show ?thesis by blast
qed

text \<open>A claimable Task is always handed out: when the Worker is eligible and some row is claimable, the
  claim succeeds; it answers None exactly when nothing is claimable.\<close>

theorem claim_answers:
  assumes "require_claim_values w tok lease = Inr seconds" "scheduled_worker d w now = Inr wk" "db_ok d"
  shows "((\<exists>c d'. claim_next_scheduled_task (Aware now) w tok lease d = Inr (Some c, d')) \<longleftrightarrow>
      (\<exists>s \<in> set (db_sched d). claimable d wk now None s)) \<and>
    (claim_next_scheduled_task (Aware now) w tok lease d = Inr (None, d) \<longleftrightarrow>
      (\<forall>s \<in> set (db_sched d). \<not> claimable d wk now None s))"
proof -
  have dist: "distinct_rows s_task_id (db_sched d)" using assms(3) by (simp add: db_ok_def)
  have c: "claim_next_scheduled_task (Aware now) w tok lease d = claim_in_transaction None now w tok seconds d"
    by (simp add: claim_next_scheduled_task_def assms(1))
  have none: "claim_in_transaction None now w tok seconds d = Inr (None, d)"
    if "\<forall>s \<in> set (db_sched d). \<not> claimable d wk now None s"
  proof -
    have "claimable_scheduled_task d wk now None = None"
      using that by (simp add: claimable_scheduled_task_def filter_empty_conv)
    then show ?thesis by (simp add: claim_in_transaction_def assms(2))
  qed
  have some: "\<exists>c d'. claim_in_transaction None now w tok seconds d = Inr (Some c, d')"
    if ex: "\<exists>s \<in> set (db_sched d). claimable d wk now None s"
  proof -
    have "claimable_scheduled_task d wk now None \<noteq> None"
      using ex by (simp add: claimable_scheduled_task_def filter_empty_conv)
    then obtain s where s: "claimable_scheduled_task d wk now None = Some s" by blast
    note mem = claimable_scheduled_task_row [OF s]
    let ?hit = "\<lambda>r. s_task_id r = s_task_id s \<and> s_generation r = s_generation s \<and>
      s_queue_state r \<in> {Queued, Claimed} \<and> s_mutation_state r = None"
    let ?g = "grant_claim w tok now (now + seconds_to_us seconds)"
    have st: "scheduled_state d (s_task_id s) = Some s" using dist mem by (simp add: scheduled_state_unique)
    have hit: "?hit s" using mem by (simp add: claimable_def)
    have "row_count ?hit rs = 1" if "distinct_rows s_task_id rs" "s \<in> set rs" for rs
      using that
    proof (induction rs)
      case (Cons r rs)
      show ?case
      proof (cases "r = s")
        case True
        have fresh: "s_task_id s \<notin> s_task_id ` set rs"
          using Cons.prems(1) True by (simp add: distinct_rows_def)
        have "row_count ?hit rs = 0"
          by (rule row_count_none) (use fresh image_eqI in metis)
        with True hit show ?thesis by simp
      next
        case False
        with Cons show ?thesis by (auto simp: distinct_rows_def)
      qed
    qed simp
    then have one: "row_count ?hit (db_sched d) = 1" using dist mem by blast
    have st': "scheduled_state (d\<lparr>db_sched := update_rows ?hit ?g (db_sched d)\<rparr>) (s_task_id s) = Some (?g s)"
      using st hit by (simp add: scheduled_state_def find_row_update grant_claim_def)
    obtain t where t: "get_task d (s_task_id s) = Some t"
      using mem by (auto simp: claimable_def split: option.splits)
    then have t': "get_task (d\<lparr>db_sched := x\<rparr>) (s_task_id s) = Some t" for x
      by (simp add: get_task_def)
    show ?thesis
      using one st' by (simp add: claim_in_transaction_def assms(2) s Let_def t')
  qed
  show ?thesis
    unfolding c using none some by (metis Pair_inject option.distinct(1) sum.inject(2))
qed

theorem claim_answers_witness:
  "claim_next_scheduled_task (Aware 1) ''w1'' ''tok'' (PyInt 30) demo_db = Inr (None, demo_db)"
proof -
  have v: "require_claim_values ''w1'' ''tok'' (PyInt 30) = Inr 30"
    "scheduled_worker demo_db ''w1'' 1 = Inr demo_worker"
    by code_simp+
  have "db_sched demo_db = []" by (simp add: demo_db_def)
  with claim_answers [OF v demo_db_ok] show ?thesis by simp
qed

end
