(* ===== verification/Release_Properties.thy ===== *)
theory Release_Properties
  imports Kernel_Examples Kernel_Invariants
begin

text \<open>
  Release: the slot is given back and the Task keeps no item in a machine state.
\<close>

section \<open>Release\<close>

text \<open>The statuses a list of rows agrees with, except on handed-off rows.\<close>

definition agrees :: "db \<Rightarrow> string \<Rightarrow> (string \<rightharpoonup> item_status) \<Rightarrow> bool" where
  "agrees d k m = (\<forall>r \<in> set (task_rows d k). \<not> superseded_row r \<longrightarrow> m (item_key r) = Some (i_status (ir_item r)))"

lemma overlay_conv:
  "map_of (foldl (\<lambda>m i. AList.update (i_id i) (i_status i) m) al items) =
   foldl (\<lambda>m i. m(i_id i \<mapsto> i_status i)) (map_of al) items"
  by (induction items arbitrary: al) (simp_all add: AList.update_conv')

lemma item_row_unique:
  "distinct_rows item_key (db_items d) \<Longrightarrow> r \<in> set (db_items d) \<Longrightarrow> item_row_of d (item_key r) = Some r"
  unfolding item_row_of_def by (rule find_row_mem)

lemma agrees_start:
  assumes "distinct_rows item_key (db_items d)"
  shows "agrees d k (map_of (map (\<lambda>r. (i_id (ir_item r), i_status (ir_item r))) (task_rows d k)))"
proof -
  have "distinct (map fst (map (\<lambda>r. (i_id (ir_item r), i_status (ir_item r))) (task_rows d k)))"
    using assms by (simp add: distinct_rows_def task_rows_def comp_def distinct_map_filter)
  then show ?thesis unfolding agrees_def by (auto intro!: map_of_is_SomeI)
qed

lemma upsert_item_rows:
  assumes up: "upsert_item i d = Inr e" and dist: "distinct_rows item_key (db_items d)"
    and r: "r \<in> set (db_items e)"
  shows "(item_key r = i_id i \<and> i_status (ir_item r) = i_status i) \<or>
    (item_key r \<noteq> i_id i \<and> r \<in> set (db_items d))"
proof -
  let ?new = "\<lparr>ir_item = item_columns i, ir_superseded_by = None\<rparr>"
  from up have "db_items e = upsert_row item_key merge_row ?new (db_items d)"
    by (auto simp: upsert_item_def guard_simps)
  moreover have "r \<in> set (db_items d) \<Longrightarrow> item_key r = i_id i \<Longrightarrow> item_row_of d (i_id i) = Some r"
    using item_row_unique [OF dist] by metis
  ultimately show ?thesis
    using r
    by (auto simp: upsert_row_def update_rows_def item_columns_def merge_row_def merge_item_def
        item_row_of_def split: if_splits)
qed

lemma publish_items_agree:
  assumes "publish_release_items k is d = Inr d'" "distinct_rows item_key (db_items d)" "agrees d k m"
  shows "agrees d' k (foldl (\<lambda>m i. m(i_id i \<mapsto> i_status i)) m is)"
  using assms
proof (induction "is" arbitrary: d m)
  case Nil
  then show ?case by simp
next
  case (Cons i "is")
  show ?case
  proof (cases "item_is_superseded d k (i_id i)")
    case True
    have "agrees d k (m(i_id i \<mapsto> i_status i))"
      unfolding agrees_def
    proof (intro ballI impI)
      fix r assume r: "r \<in> set (task_rows d k)" "\<not> superseded_row r"
      then have "item_row_of d (item_key r) = Some r"
        using Cons.prems(2) item_row_unique by (simp add: task_rows_def)
      with True r have "item_key r \<noteq> i_id i" by (auto simp: item_is_superseded_def)
      with r Cons.prems(3) show "(m(i_id i \<mapsto> i_status i)) (item_key r) = Some (i_status (ir_item r))"
        by (simp add: agrees_def)
    qed
    moreover have "publish_release_items k is d = Inr d'" using Cons.prems(1) True by simp
    ultimately show ?thesis using Cons.IH Cons.prems(2) by (simp del: fun_upd_apply)
  next
    case False
    with Cons.prems(1) obtain e where g: "require_scheduled_item d k i ProgressPub = Inr ()"
      and e: "upsert_item i d = Inr e" and rest: "publish_release_items k is e = Inr d'"
      by (auto simp: guard_simps)
    have dist: "distinct_rows item_key (db_items e)"
      using items_evolve_keys [OF upsert_item_evolves [OF g e refl Cons.prems(2)] Cons.prems(2)] .
    have "agrees e k (m(i_id i \<mapsto> i_status i))"
      unfolding agrees_def
    proof (intro ballI impI)
      fix r assume r: "r \<in> set (task_rows e k)" "\<not> superseded_row r"
      then have "r \<in> set (db_items e)" by (simp add: task_rows_def)
      from upsert_item_rows [OF e Cons.prems(2) this] r Cons.prems(3)
      show "(m(i_id i \<mapsto> i_status i)) (item_key r) = Some (i_status (ir_item r))"
        by (auto simp: agrees_def task_rows_def)
    qed
    from Cons.IH [OF rest dist this] show ?thesis by simp
  qed
qed

lemma no_machine_after:
  assumes "require_no_machine_items d k is = Inr u" "publish_release_items k is e = Inr d'"
    and "distinct_rows item_key (db_items d)" "db_items e = db_items d"
  shows "\<forall>r \<in> set (task_rows d' k). \<not> superseded_row r \<longrightarrow> \<not> machine_item (i_status (ir_item r))"
proof (intro ballI impI)
  fix r assume r: "r \<in> set (task_rows d' k)" "\<not> superseded_row r"
  let ?al = "map (\<lambda>r. (i_id (ir_item r), i_status (ir_item r))) (task_rows d k)"
  have rows: "task_rows e k = task_rows d k" using assms(4) by (simp add: task_rows_def)
  have "agrees e k (map_of ?al)"
    using agrees_start [of e k] assms(3,4) unfolding rows by simp
  moreover have "distinct_rows item_key (db_items e)" by (simp add: assms(3,4))
  ultimately have "agrees d' k (foldl (\<lambda>m i. m(i_id i \<mapsto> i_status i)) (map_of ?al) is)"
    using publish_items_agree [OF assms(2)] by blast
  with r have "map_of (overlay_statuses (task_rows d k) is) (item_key r) = Some (i_status (ir_item r))"
    by (simp add: agrees_def overlay_statuses_def overlay_conv)
  then have "(item_key r, i_status (ir_item r)) \<in> set (overlay_statuses (task_rows d k) is)"
    by (rule map_of_SomeD)
  with assms(1) show "\<not> machine_item (i_status (ir_item r))"
    by (auto simp: require_no_machine_items_def guard_simps list_ex_iff)
qed

lemma release_gives_back_task:
  assumes "release_scheduled_claim f g d = Inr (Some s', d')" "db_ok d"
  shows "\<exists>t. get_task d' (t_id (g_task g)) = Some t \<and> t_status t = t_status (g_task g)"
  using release_states [OF assms(1)]
proof (elim disjE exE conjE)
  fix s0 s
  let ?k = "t_id (g_task g)" and ?now = "release_now f g"
  let ?d1 = "close_recorded_boundary g ?now s0 d"
  assume w: "release_writes g ?now s ?d1 = Inr d'"
  obtain d2 where au: "require_scheduled_authority ?d1 (g_task g) = Inr ()"
    and p: "publish_release_items ?k (g_items g) (publish_task_row (g_task g) ?d1) = Inr d2"
    and t: "db_tasks d' = db_tasks d2"
    by (rule release_writes_tables [OF w]) blast
  obtain row0 where "get_task ?d1 ?k = Some row0"
    using au by (auto simp: require_scheduled_authority_def split: option.splits)
  then have "get_task (publish_task_row (g_task g) ?d1) ?k = Some (publish_task_columns (g_task g) row0)"
    using tasks_table.lookup_after_update [of "publish_task_columns (g_task g)" ?k ?k ?d1]
    by (simp add: get_task_def publish_task_row_def update_task_def publish_task_columns_def)
  then have "get_task d' ?k = Some (publish_task_columns (g_task g) row0)"
    using publish_release_items_frame [OF p] t by (simp add: get_task_def)
  then show ?thesis by (simp add: publish_task_columns_def)
qed simp

text \<open>C23: A committed release gives the slot back truthfully: the Task holds no slot and no claim, none of
  its items is still queued or processing (handed-off items aside), its file locks are gone, the
  aggregate carries the published status, and no other Task's scheduling row has moved.\<close>

theorem release_gives_the_slot_back:
  assumes "release_scheduled_claim f g d = Inr (Some s', d')" "db_ok d"
  shows "scheduled_state d' (t_id (g_task g)) = Some s' \<and> s_queue_state s' = g_queue_state g \<and>
    \<not> holds_capacity s' \<and> s_token s' = None \<and> s_mutation_state s' = None \<and>
    (\<forall>r \<in> set (task_rows d' (t_id (g_task g))).
       \<not> superseded_row r \<longrightarrow> \<not> machine_item (i_status (ir_item r))) \<and>
    (\<forall>l \<in> set (db_locks d'). l_task_id l \<noteq> t_id (g_task g)) \<and>
    (\<exists>t. get_task d' (t_id (g_task g)) = Some t \<and> t_status t = t_status (g_task g)) \<and>
    (\<forall>j. j \<noteq> t_id (g_task g) \<longrightarrow> scheduled_state d' j = scheduled_state d j)"
  using release_states [OF assms(1)]
proof (elim disjE exE conjE)
  fix s0 s
  let ?k = "t_id (g_task g)" and ?now = "release_now f g"
  let ?d1 = "close_recorded_boundary g ?now s0 d"
  assume n: "\<not> mutation_in_flight s" and w: "release_writes g ?now s ?d1 = Inr d'"
    and r: "Some s' = scheduled_state d' ?k" and v: "release_values f g = Inr ()"
    and all: "\<forall>j. scheduled_state d' j = (if j = ?k
      then Some (give_back (g_queue_state g) (g_stage g) ?now s) else scheduled_state d j)"
  have s': "s' = give_back (g_queue_state g) (g_stage g) ?now s" using r all by simp
  have row: "s_queue_state s' = g_queue_state g" "\<not> holds_capacity s'" "s_token s' = None"
    "s_mutation_state s' = None"
    using release_values_parked [OF v] n
    by (auto simp: s' give_back_def drop_claim_def holds_capacity_def queue_holds_capacity_def
        parked_def mutation_state_cases)
  obtain d2 where no: "require_no_machine_items ?d1 ?k (g_items g) = Inr ()"
    and p: "publish_release_items ?k (g_items g) (publish_task_row (g_task g) ?d1) = Inr d2"
    and t: "db_tasks d' = db_tasks d2" "db_items d' = db_items d2"
      "db_locks d' = delete_rows (\<lambda>l. l_task_id l = ?k) (db_locks ?d1)"
    by (rule release_writes_tables [OF w]) blast
  have "\<forall>r \<in> set (task_rows d2 ?k). \<not> superseded_row r \<longrightarrow> \<not> machine_item (i_status (ir_item r))"
    by (rule no_machine_after [OF no p]) (use assms(2) in \<open>simp_all add: db_ok_def\<close>)
  then have items: "\<forall>r \<in> set (task_rows d' ?k). \<not> superseded_row r \<longrightarrow> \<not> machine_item (i_status (ir_item r))"
    using t(2) by (simp add: task_rows_def)
  have locks: "\<forall>l \<in> set (db_locks d'). l_task_id l \<noteq> ?k" using t(3) by (simp add: delete_rows_def)
  note task = release_gives_back_task [OF assms]
  with row items locks all r task show ?thesis by simp
qed simp

theorem release_gives_the_slot_back_witness:
  "\<exists>s'. scheduled_state demo_settled ''t1'' = Some s' \<and> \<not> holds_capacity s' \<and>
     (\<forall>r \<in> set (task_rows demo_settled ''t1''). \<not> superseded_row r \<longrightarrow> \<not> machine_item (i_status (ir_item r)))"
proof -
  let ?g = "demo_release Settled TaskCompleted None"
  let ?r = "release_scheduled_claim (Some (demo_fence ''tok'' 1 5)) ?g demo_recorded"
  have e: "?r = Inr (Some (the (fst (projr ?r))), demo_settled)" by code_simp
  have k: "t_id (g_task ?g) = ''t1''" by code_simp
  from release_gives_the_slot_back [OF e demo_ok(3)] k show ?thesis by auto
qed

end
