(* ===== verification/Item_Properties.thy ===== *)
theory Item_Properties
  imports Kernel_Examples Kernel_Invariants
begin

text \<open>
  Items: attempts, the mutation boundary, the recorded outcome, and the operations that hand work
  over (yield, control, requeue).
\<close>

section \<open>Items\<close>

text \<open>What an item publication leaves at the item's key, and at the other keys.\<close>

lemma upsert_item_lookup:
  assumes "upsert_item i d = Inr d'"
  shows "item_row_of d' j =
    (if j = i_id i
     then Some (case item_row_of d j of None \<Rightarrow> \<lparr>ir_item = item_columns i, ir_superseded_by = None\<rparr>
       | Some old \<Rightarrow> merge_row old \<lparr>ir_item = item_columns i, ir_superseded_by = None\<rparr>)
     else item_row_of d j)"
proof -
  let ?new = "\<lparr>ir_item = item_columns i, ir_superseded_by = None\<rparr>"
  from assms have "d' = d\<lparr>db_items := upsert_row item_key merge_row ?new (db_items d)\<rparr>"
    by (auto simp: upsert_item_def guard_simps)
  with items_table.lookup_after_upsert [of ?new merge_row j d] show ?thesis
    by (simp add: item_row_of_def item_columns_def merge_row_def merge_item_def)
qed

lemma start_guard:
  assumes "upsert_scheduled_item f i StartPub d = Inr (True, d')"
  shows "item_row_of d (i_id i) = None \<or> replay_safe d (i_id i)"
proof (cases "item_row_of d (i_id i)")
  case (Some r)
  from assms have "require_scheduled_item d (f_task_id f) i StartPub = Inr ()"
    by (auto simp: upsert_scheduled_item_def guard_simps split: if_splits)
  from require_item_row(8) [OF this Some] show ?thesis by simp
qed simp

lemma mutation_boundary_guard:
  "begin_scheduled_mutation f item_id action d = Inr (True, d') \<Longrightarrow> replay_safe d item_id"
  by (auto simp: begin_scheduled_mutation_def guard_simps split: if_splits option.splits)

text \<open>A started item advances exactly one attempt: the Worker holds a live claim, a stored item was queued,
  paused, failed or awaiting confirmation with only provably effect-free Results and no marker on it,
  a new one starts at its first attempt, and only this item's row changes.\<close>

theorem start_advances_one_attempt:
  assumes "upsert_scheduled_item f i StartPub d = Inr (True, d')"
  shows "scheduled_claim d f \<and> i_task_id i = f_task_id f \<and>
    (case item_row_of d (i_id i) of
       None \<Rightarrow> i_attempts i = 1
     | Some old \<Rightarrow> i_attempts i = i_attempts (ir_item old) + 1 \<and>
         i_status (ir_item old) \<in> {Pending, Paused, Failed, WaitingConfirm} \<and>
         \<not> superseded_row old \<and> replay_safe d (i_id i)) \<and>
    (\<forall>s. scheduled_state d (f_task_id f) = Some s \<longrightarrow> s_mutation_item s \<noteq> Some (i_id i)) \<and>
    (\<exists>new. item_row_of d' (i_id i) = Some new \<and> i_attempts (ir_item new) = i_attempts i \<and>
       i_status (ir_item new) = i_status i) \<and>
    (\<forall>j. j \<noteq> i_id i \<longrightarrow> item_row_of d' j = item_row_of d j) \<and> db_sched d' = db_sched d"
proof -
  from assms have c: "scheduled_claim d f" and g: "require_scheduled_item d (f_task_id f) i StartPub = Inr ()"
    and u: "upsert_item i d = Inr d'"
    by (auto simp: upsert_scheduled_item_def guard_simps split: if_splits)
  have mark: "\<forall>s. scheduled_state d (f_task_id f) = Some s \<longrightarrow> s_mutation_item s \<noteq> Some (i_id i)"
    using g by (auto simp: require_scheduled_item_def guard_simps Let_def split: option.splits if_splits)
  have old: "case item_row_of d (i_id i) of
       None \<Rightarrow> i_attempts i = 1
     | Some old \<Rightarrow> i_attempts i = i_attempts (ir_item old) + 1 \<and>
         i_status (ir_item old) \<in> {Pending, Paused, Failed, WaitingConfirm} \<and>
         \<not> superseded_row old \<and> replay_safe d (i_id i)"
  proof (cases "item_row_of d (i_id i)")
    case None
    with g show ?thesis by (simp add: require_scheduled_item_def guard_simps Let_def)
  next
    case (Some r)
    with require_item_row [OF g Some] show ?thesis by (simp add: resumable_item_def)
  qed
  have task: "i_task_id i = f_task_id f" using g by (simp add: require_scheduled_item_def guard_simps)
  have new: "\<exists>new. item_row_of d' (i_id i) = Some new \<and> i_attempts (ir_item new) = i_attempts i \<and>
       i_status (ir_item new) = i_status i"
    by (auto simp: upsert_item_lookup [OF u] item_columns_def merge_row_def merge_item_def split: option.splits)
  show ?thesis
    using c task old mark new upsert_item_lookup [OF u] upsert_item_frame(1) [OF u] by simp
qed

theorem start_advances_one_attempt_witness:
  "\<exists>d'. upsert_scheduled_item (demo_fence ''tok'' 1 2) (demo_item Processing 1 2) StartPub
       (after 2 [op_begin] demo_claimed) = Inr (True, d') \<and>
     (\<exists>new. item_row_of d' ''i1'' = Some new \<and> i_attempts (ir_item new) = 1)"
proof -
  let ?r = "upsert_scheduled_item (demo_fence ''tok'' 1 2) (demo_item Processing 1 2) StartPub
       (after 2 [op_begin] demo_claimed)"
  have e: "?r = Inr (True, snd (projr ?r))" by code_simp
  have i: "i_id (demo_item Processing 1 2) = ''i1''" "i_attempts (demo_item Processing 1 2) = 1"
    by code_simp+
  from start_advances_one_attempt [OF e] e i show ?thesis by (metis (no_types, lifting))
qed

text \<open>A Storage mutation is only ever entered for an item of the claimed Task that is processing, whose
  recorded Results prove that nothing happened yet, and while no other boundary is open; the boundary
  it leaves names exactly that item, and nothing else is written.\<close>

theorem mutation_boundary_is_guarded:
  assumes "begin_scheduled_mutation f item_id action d = Inr (True, d')"
  shows "\<exists>r s. scheduled_claim d f \<and> item_row_of d item_id = Some r \<and>
    i_task_id (ir_item r) = f_task_id f \<and> i_status (ir_item r) = Processing \<and>
    (\<forall>q \<in> set (db_results d). r_item_id q = item_id \<longrightarrow> zero_effect_result q) \<and>
    scheduled_state d (f_task_id f) = Some s \<and> s_mutation_state s = None \<and>
    scheduled_state d' (f_task_id f) = Some (mark_mutation item_id (strip action) (f_now f) s) \<and>
    (\<forall>j. j \<noteq> f_task_id f \<longrightarrow> scheduled_state d' j = scheduled_state d j) \<and>
    db_tasks d' = db_tasks d \<and> db_items d' = db_items d \<and> db_results d' = db_results d"
proof -
  from assms have c: "scheduled_claim d f"
    by (auto simp: begin_scheduled_mutation_def guard_simps split: if_splits)
  from assms c obtain r s where "item_row_of d item_id = Some r" "i_task_id (ir_item r) = f_task_id f"
    "i_status (ir_item r) = Processing" "replay_safe d item_id"
    "scheduled_state d (f_task_id f) = Some s" "\<not> mutation_in_flight s"
    "d' = update_sched (f_task_id f) (mark_mutation item_id (strip action) (f_now f)) d"
    by (auto simp: begin_scheduled_mutation_def guard_simps bounded_text_Inr split: option.splits)
  with c show ?thesis
    by (auto simp: scheduled_state_update_sched mark_mutation_def replay_safe_def list_all_iff
        mutation_state_cases)
qed

theorem mutation_boundary_is_guarded_witness:
  "\<exists>r. item_row_of (after 2 [op_begin, op_item] demo_claimed) ''i1'' = Some r \<and>
     i_status (ir_item r) = Processing"
proof -
  let ?r = "begin_scheduled_mutation (demo_fence ''tok'' 1 3) ''i1'' ''move''
       (after 2 [op_begin, op_item] demo_claimed)"
  have e: "?r = Inr (True, snd (projr ?r))" by code_simp
  from mutation_boundary_is_guarded [OF e] show ?thesis by blast
qed

text \<open>A committed publication: its guards, and the rows it leaves.\<close>

lemma outcome_written:
  assumes "publish_scheduled_item_outcome f i r ev hint d = Inr (True, d')" "scheduled_state d (f_task_id f) = Some s"
  obtains d1 d2 where "outcome_guards f i r ev d = Inr ()" "insert_result r False d = Inr d1"
    "upsert_item i d1 = Inr d2" "db_results d' = db_results d1" "db_items d' = db_items d2"
    "db_tasks d' = db_tasks d" "db_locks d' = db_locks d"
    "db_evidence d' = (case ev of None \<Rightarrow> db_evidence d | Some e \<Rightarrow> db_evidence (append_evidence e d))"
    "db_sched d' = (if clears_boundary (Some s) (i_id i) r
      then update_rows (\<lambda>s. s_task_id s = f_task_id f \<and> s_mutation_item s = Some (i_id i))
        (clear_mutation (f_now f)) (db_sched d) else db_sched d)"
proof -
  from assms(1) obtain d1 d2 where g: "outcome_guards f i r ev d = Inr ()"
    and d1: "insert_result r False d = Inr d1" and d2: "upsert_item i d1 = Inr d2"
    and d': "d' = (let d3 = (case ev of None \<Rightarrow> d2 | Some e \<Rightarrow> append_evidence e d2)
        in if clears_boundary (scheduled_state d3 (f_task_id f)) (i_id i) r
           then d3\<lparr>db_sched := update_rows
                   (\<lambda>s. s_task_id s = f_task_id f \<and> s_mutation_item s = Some (i_id i))
                   (clear_mutation (f_now f)) (db_sched d3)\<rparr>
           else d3)"
    by (auto simp: publish_scheduled_item_outcome_def guard_simps Let_def insert_result_conflict split: if_splits)
  define d3 where "d3 = (case ev of None \<Rightarrow> d2 | Some e \<Rightarrow> append_evidence e d2)"
  note frame = insert_result_frame [OF d1] upsert_item_frame [OF d2]
  have d3: "db_sched d3 = db_sched d" "db_results d3 = db_results d1" "db_items d3 = db_items d2"
    "db_tasks d3 = db_tasks d" "db_locks d3 = db_locks d"
    "db_evidence d3 = (case ev of None \<Rightarrow> db_evidence d | Some e \<Rightarrow> db_evidence (append_evidence e d))"
    using frame by (simp_all add: d3_def append_evidence_def split: option.splits)
  with d' assms(2) show thesis
    by (intro that [OF g d1 d2]) (simp_all add: d3_def [symmetric] Let_def scheduled_state_def)
qed

lemma stored_result: "r_id (result_values (bind_result_to_occurrence d r)) = r_id r"
  by (auto simp: result_values_def bind_result_to_occurrence_def Let_def split: option.splits)

text \<open>C24: An attempt's outcome is published whole: the claim is live, the stored item was processing in this
  very attempt, exactly the Result given (redacted, its source bound to the item) is appended under a
  new identity, the item's row gets the published columns and no other row of an item changes, the marker
  is cleared if and only if it names this item and the Result proves its effect, and no other scheduling
  row, no Task and no lock changes; the evidence given is the only one written.\<close>

theorem outcome_is_atomic_and_verified:
  assumes "publish_scheduled_item_outcome f i r ev hint d = Inr (True, d')" "db_ok d"
  shows "scheduled_claim d f \<and> r_task_id r = f_task_id f \<and> r_item_id r = i_id i \<and>
    (\<forall>q \<in> set (db_results d). r_id q \<noteq> r_id r) \<and>
    db_results d' = db_results d @ [result_values (bind_result_to_occurrence d r)] \<and>
    (\<exists>old. item_row_of d (i_id i) = Some old \<and> i_status (ir_item old) = Processing \<and>
       i_attempts (ir_item old) = i_attempts i \<and>
       item_row_of d' (i_id i) = Some (old\<lparr>ir_item := merge_item (ir_item old) (item_columns i)\<rparr>)) \<and>
    (\<forall>j. j \<noteq> i_id i \<longrightarrow> item_row_of d' j = item_row_of d j) \<and>
    (\<exists>s. scheduled_state d (f_task_id f) = Some s \<and>
       scheduled_state d' (f_task_id f) =
         Some (if s_mutation_item s = Some (i_id i) \<and> boundary_clearing_certainty (r_effect_certainty r) \<and>
                  r_uncertain_effects r = [] \<and>
                  (r_effect_certainty r = ''verified_complete'' \<or> r_completed_operations r = [])
               then clear_mutation (f_now f) s else s)) \<and>
    (\<forall>k. k \<noteq> f_task_id f \<longrightarrow> scheduled_state d' k = scheduled_state d k) \<and>
    db_tasks d' = db_tasks d \<and> db_locks d' = db_locks d \<and>
    db_evidence d' = (case ev of None \<Rightarrow> db_evidence d | Some e \<Rightarrow> db_evidence (append_evidence e d))"
proof -
  from assms(1) have c: "scheduled_claim d f"
    by (auto simp: publish_scheduled_item_outcome_def split: if_splits)
  then obtain s where s: "scheduled_state d (f_task_id f) = Some s" by (auto dest: scheduled_claim_Some)
  obtain d1 d2 where g: "outcome_guards f i r ev d = Inr ()" and d1: "insert_result r False d = Inr d1"
    and d2: "upsert_item i d1 = Inr d2" and res: "db_results d' = db_results d1" and items: "db_items d' = db_items d2"
    and frame: "db_tasks d' = db_tasks d" "db_locks d' = db_locks d"
      "db_evidence d' = (case ev of None \<Rightarrow> db_evidence d | Some e \<Rightarrow> db_evidence (append_evidence e d))"
    and sched: "db_sched d' = (if clears_boundary (Some s) (i_id i) r
      then update_rows (\<lambda>s. s_task_id s = f_task_id f \<and> s_mutation_item s = Some (i_id i))
        (clear_mutation (f_now f)) (db_sched d) else db_sched d)"
    by (rule outcome_written [OF assms(1) s])
  have gi: "require_scheduled_item d (f_task_id f) i OutcomePub = Inr ()"
    and gr: "r_task_id r = f_task_id f" "r_item_id r = i_id i"
    using g by (auto simp: outcome_guards_def guard_simps split: option.splits)
  obtain old where old: "item_row_of d (i_id i) = Some old"
    using g by (auto simp: outcome_guards_def get_item_def guard_simps split: option.splits)
  have new: "db_results d1 = db_results d @ [result_values (bind_result_to_occurrence d r)]"
    "\<forall>q \<in> set (db_results d). r_id q \<noteq> r_id r"
    using d1 stored_result by (auto simp: insert_result_def guard_simps Let_def find_row_None image_iff)
  have rows: "item_row_of d' j = (if j = i_id i
      then Some (old\<lparr>ir_item := merge_item (ir_item old) (item_columns i)\<rparr>) else item_row_of d j)" for j
    using items upsert_item_lookup [OF d2, of j] insert_result_frame(3) [OF d1] old
    by (simp add: item_row_of_def merge_row_def)
  have "scheduled_state d' k = (if k = f_task_id f
      then Some (if clears_boundary (Some s) (i_id i) r then clear_mutation (f_now f) s else s)
      else scheduled_state d k)" for k
    using s sched scheduled_state_mem [OF s]
    by (cases "find_row s_task_id k (db_sched d)")
      (auto simp: scheduled_state_def find_row_update clear_mutation_def clears_boundary_def dest: find_row_key)
  then show ?thesis
    using c gr new res s require_item_row(7,9) [OF gi old] old
    by (auto simp: clears_boundary_def rows frame)
qed

theorem outcome_is_atomic_and_verified_witness:
  "\<exists>s. scheduled_state demo_recorded ''t1'' = Some s \<and> s_mutation_state s = None"
proof -
  let ?i = "demo_item Success 1 4" and ?r = "demo_result ''success'' ''verified_complete''"
  have e: "publish_scheduled_item_outcome (demo_fence ''tok'' 1 4) ?i ?r None True demo_mutating =
      Inr (True, demo_recorded)"
    by code_simp
  have k: "f_task_id (demo_fence ''tok'' 1 4) = ''t1''" "i_id ?i = ''i1''"
    "r_effect_certainty ?r = ''verified_complete''" "r_uncertain_effects ?r = []"
    by code_simp+
  have m: "s_mutation_item (the (scheduled_state demo_mutating ''t1'')) = Some ''i1''" by code_simp
  from outcome_is_atomic_and_verified [OF e demo_ok(2)] k m show ?thesis
    by (auto simp: boundary_clearing_certainty_def clear_mutation_def)
qed

text \<open>Whichever way an attempt is started, alone or with the question who owns the source.\<close>

lemma owned_start_guard:
  assumes "begin_scheduled_item_with_ownership own hist f i StartPub b d = Inr ((True, o'), d')"
  shows "item_row_of d (i_id i) = None \<or> replay_safe d (i_id i)"
proof -
  from assms obtain w where g: "require_scheduled_item d (f_task_id f) w StartPub = Inr ()" and w: "i_id w = i_id i"
    by (fastforce simp: begin_scheduled_item_with_ownership_def guard_simps Let_def history_gate_item_def
        skipped_by_history_def split: if_splits option.splits sum.splits)
  show ?thesis using require_item_row(8) [OF g] w by (cases "item_row_of d (i_id i)") auto
qed

text \<open>C16: An effect that is not proved empty is never replayed: once such a Result of a stored item is
  recorded, any run leaves the attempts of the item as many as they were; after it no Storage mutation of
  the item is entered, and neither of the two ways to start an attempt of it commits, whatever they are told
  about the owner of the source and the history.\<close>

theorem unproved_effect_is_never_replayed:
  assumes "kernel_run A C d d'" "db_ok d" "item_row_of d item_id = Some r" "q \<in> set (db_results d)"
    "r_item_id q = item_id" "\<not> zero_effect_result q"
  shows "(\<exists>r'. item_row_of d' item_id = Some r' \<and> i_attempts (ir_item r') = i_attempts (ir_item r)) \<and>
    (\<forall>f action e. begin_scheduled_mutation f item_id action d' \<noteq> Inr (True, e)) \<and>
    (\<forall>f i e. i_id i = item_id \<longrightarrow> upsert_scheduled_item f i StartPub d' \<noteq> Inr (True, e)) \<and>
    (\<forall>own hist f i b o' e. i_id i = item_id \<longrightarrow>
       begin_scheduled_item_with_ownership own hist f i StartPub b d' \<noteq> Inr ((True, o'), e))"
proof -
  obtain r' where r': "item_row_of d' item_id = Some r'" "i_attempts (ir_item r') = i_attempts (ir_item r)"
    using run_attempts [OF assms] by blast
  have "q \<in> set (db_results d')" using run_results [OF assms(1,2)] assms(4) by auto
  then have unsafe: "\<not> replay_safe d' item_id" using unsafe_results assms(5,6) by blast
  have "begin_scheduled_mutation f item_id action d' \<noteq> Inr (True, e)" for f action e
    using mutation_boundary_guard [of f item_id action d' e] unsafe by blast
  moreover have "upsert_scheduled_item f i StartPub d' \<noteq> Inr (True, e)" if "i_id i = item_id" for f i e
    using start_guard [of f i d' e] that unsafe r'(1) by auto
  moreover have "begin_scheduled_item_with_ownership own hist f i StartPub b d' \<noteq> Inr ((True, o'), e)"
    if "i_id i = item_id" for own hist f i b o' e
    using owned_start_guard [of own hist f i b d' o' e] that unsafe r'(1) by auto
  ultimately show ?thesis using r' by blast
qed

theorem unproved_effect_is_never_replayed_witness:
  "(\<exists>r. item_row_of demo_settled ''i1'' = Some r \<and> i_attempts (ir_item r) = 1) \<and>
   begin_scheduled_mutation (demo_fence ''tok'' 1 9) ''i1'' ''move'' demo_settled \<noteq> Inr (True, demo_settled) \<and>
   begin_scheduled_item_with_ownership (\<lambda>_ _. None :: string option) (\<lambda>_ _. Inr None) (demo_fence ''tok'' 1 9)
     (demo_item Processing 2 9) StartPub False demo_settled \<noteq> Inr ((True, None), demo_settled)"
proof -
  have "runs 2 [op_settle] demo_recorded" by code_simp
  then have r: "kernel_run (\<lambda>_. True) 2 demo_recorded (after 2 [op_settle] demo_recorded)"
    by (rule run_after)
  have e: "after 2 [op_settle] demo_recorded = demo_settled" by code_simp
  let ?r = "the (item_row_of demo_recorded ''i1'')"
  have i: "item_row_of demo_recorded ''i1'' = Some ?r" and a: "i_attempts (ir_item ?r) = 1"
    and p: "i_id (demo_item Processing 2 9) = ''i1''"
    by code_simp+
  have q: "hd (db_results demo_recorded) \<in> set (db_results demo_recorded)"
    "r_item_id (hd (db_results demo_recorded)) = ''i1''"
    "\<not> zero_effect_result (hd (db_results demo_recorded))"
    by code_simp+
  from unproved_effect_is_never_replayed [OF r demo_ok(3) i q, where 'a = string] e a p show ?thesis by simp
qed

section \<open>Running, yielding, control, re-entry\<close>

text \<open>A yielded Task keeps its slot and is queued for another pass, but its row also keeps the token of the
  Worker that yielded it: a pause or cancel requested now is not settled at once, although nobody
  works on the Task, and waits for the next claim.\<close>

theorem yield_keeps_slot_and_token:
  assumes "yield_scheduled_claim f task items stage e d = Inr (Some s', d')" "db_ok d"
  shows "scheduled_state d' (f_task_id f) = Some s' \<and> s_queue_state s' = Queued \<and> holds_capacity s' \<and>
    s_expires_at s' = None \<and> \<not> scheduled_claim d' f \<and>
    s_token s' = Some (f_token f) \<and> \<not> settles_immediately s' \<and>
    db_items d' = db_items d"
proof -
  have c: "scheduled_claim d f"
    using assms(1) by (auto simp: yield_scheduled_claim_def guard_simps split: if_splits)
  then obtain s where s: "scheduled_state d (f_task_id f) = Some s" and m: "fence_matches s f"
    by (auto dest: scheduled_claim_Some)
  let ?hit = "\<lambda>r. s_task_id r = f_task_id f \<and> s_token r = Some (f_token f) \<and> s_generation r = f_generation f"
  from assms(1) c s obtain e' where d': "db_sched d' = update_rows ?hit (yield_row stage e' (f_now f)) (db_sched d)"
    and s': "scheduled_state d' (f_task_id f) = Some s'" and i: "db_items d' = db_items d"
    by (auto simp: yield_scheduled_claim_def guard_simps Let_def)
  have "scheduled_state d' (f_task_id f) = Some (yield_row stage e' (f_now f) s)"
    using s m scheduled_state_mem [OF s] find_row_update [of ?hit s_task_id "yield_row stage e' (f_now f)"]
    unfolding scheduled_state_def d' by (simp add: yield_row_def claim_matches_def)
  with s' have "s' = yield_row stage e' (f_now f) s" by simp
  with s' i m show ?thesis
    by (auto simp: yield_row_def holds_capacity_def queue_holds_capacity_def claim_matches_def
        settles_immediately_def scheduled_claim_def)
qed

theorem yield_keeps_slot_and_token_witness:
  "\<exists>s'. scheduled_state (after 2 [YieldOp (demo_fence ''tok'' 1 2) demo_task [] Analysis None] demo_claimed)
       ''t1'' = Some s' \<and> s_queue_state s' = Queued \<and> \<not> settles_immediately s'"
proof -
  let ?r = "yield_scheduled_claim (demo_fence ''tok'' 1 2) demo_task [] Analysis None demo_claimed"
  let ?d = "after 2 [YieldOp (demo_fence ''tok'' 1 2) demo_task [] Analysis None] demo_claimed"
  have e: "?r = Inr (Some (the (fst (projr ?r))), ?d)" by code_simp
  have k: "f_task_id (demo_fence ''tok'' 1 2) = ''t1''" by code_simp
  from yield_keeps_slot_and_token [OF e demo_ok(1)] k show ?thesis by auto
qed

text \<open>C20: A control request on every branch: unknown Tasks are refused; the same request again changes
  nothing; a settled Task and a pause after an accepted cancel are refused; otherwise the request is
  stored with the next revision, and the claim, the slot and every Task and item stay as they were.\<close>

theorem control_request_outcome:
  "request_scheduled_control k c (Aware now) d =
     (case scheduled_state d k of
        None \<Rightarrow> Inl TaskControlRejected
      | Some s \<Rightarrow>
          if s_control s = Some c then Inr (s, d)
          else if s_queue_state s = Settled \<or> s_control s = Some ControlCancel then Inl TaskControlRejected
          else Inr (s\<lparr>s_control := Some c, s_control_requested_at := Some now,
                      s_control_revision := s_control_revision s + 1, s_updated_at := now\<rparr>,
                    update_sched k (accept_control c now) d))"
proof -
  have u: "scheduled_state (update_sched k (accept_control c now) d) k =
      map_option (accept_control c now) (scheduled_state d k)"
    by (simp add: scheduled_state_update_sched accept_control_def)
  show ?thesis
    by (cases "scheduled_state d k")
      (auto simp: request_scheduled_control_def Let_def u accept_control_def raise_if_def)
qed

text \<open>Re-entry on every branch: parked work that was not cancelled, under its admitted pin and the observed
  revision, becomes one queued slot of a new generation with the control forgotten and the Task
  pending; at full capacity the call is refused.\<close>

theorem requeue_outcome:
  assumes "1 \<le> cap" "cap \<le> 10000" "(sid = None) = (dig = None)"
  shows "requeue_scheduled_task k sid dig n (PyInt (int cap)) (Aware now) stage None None d =
    (case (scheduled_state d k, get_task d k) of
       (Some s, Some t) \<Rightarrow>
         if s_queue_state s \<in> {WaitingHuman, QueuePaused} \<and> s_mutation_state s = None \<and>
            s_control s \<noteq> Some ControlCancel \<and> (n = None \<or> n = Some (s_control_revision s)) \<and>
            t_status t \<noteq> TaskCancelled \<and> t_snapshot_id t = sid \<and> t_snapshot_digest t = dig
         then if cap \<le> capacity_use d then Inl TaskQueueFull
           else Inr ((reenter Queued stage None now s)\<lparr>s_continuation_actor := None\<rparr>,
             update_sched k (\<lambda>s. (reenter Queued stage None now s)\<lparr>s_continuation_actor := None\<rparr>)
               (update_task k (reopen_task TaskPending now) d))
         else Inl TaskControlRejected
     | (Some s, None) \<Rightarrow>
         if s_queue_state s \<in> {WaitingHuman, QueuePaused} \<and> s_mutation_state s = None \<and>
            s_control s \<noteq> Some ControlCancel \<and> (n = None \<or> n = Some (s_control_revision s))
         then Inl LookupError else Inl TaskControlRejected
     | (None, _) \<Rightarrow> Inl TaskControlRejected)"
proof -
  let ?f = "\<lambda>s. (reenter Queued stage None now s)\<lparr>s_continuation_actor := None\<rparr>"
  have cap: "require_capacity (PyInt (int cap)) = Inr cap"
    using assms(1,2) by (simp add: require_capacity_Inr)
  have u: "scheduled_state (update_sched k ?f (update_task k g d)) k = map_option ?f (scheduled_state d k)" for g
    using scheduled_state_update_sched [of ?f k "update_task k g d" k]
    by (simp add: reenter_def forget_control_def drop_claim_def scheduled_state_def)
  have mi: "mutation_in_flight s \<longleftrightarrow> s_mutation_state s \<noteq> None" for s
    using mutation_state_cases [of s] by auto
  show ?thesis
    using assms(3)
    by (auto simp: requeue_scheduled_task_def cap bounded_actor_def reentry_guards_def raise_if_def
        mi u Let_def split: option.splits)
qed

definition demo_paused :: db where
  "demo_paused =
     after 2 [ControlOp ''t1'' ControlPause (Aware 2),
       ReleaseOp (Some (demo_fence ''tok'' 1 3)) (demo_release QueuePaused TaskRunning (Some 1))] demo_claimed"

theorem requeue_outcome_witness:
  "\<exists>x. requeue_scheduled_task ''t1'' (Some ''snap'') (Some ''dig'') (Some 1) (PyInt (int 2)) (Aware 9)
     None None None demo_paused = Inr x"
proof -
  let ?s = "the (scheduled_state demo_paused ''t1'')" and ?t = "the (get_task demo_paused ''t1'')"
  have f: "scheduled_state demo_paused ''t1'' = Some ?s" "get_task demo_paused ''t1'' = Some ?t"
    "s_queue_state ?s = QueuePaused" "s_mutation_state ?s = None" "s_control ?s = Some ControlPause"
    "s_control_revision ?s = 1" "t_status ?t = TaskRunning" "t_snapshot_id ?t = Some ''snap''"
    "t_snapshot_digest ?t = Some ''dig''" "capacity_use demo_paused = 0"
    by code_simp+
  then obtain s t where g: "scheduled_state demo_paused ''t1'' = Some s" "get_task demo_paused ''t1'' = Some t"
    "s_queue_state s = QueuePaused" "s_mutation_state s = None" "s_control s = Some ControlPause"
    "s_control_revision s = 1" "t_status t = TaskRunning" "t_snapshot_id t = Some ''snap''"
    "t_snapshot_digest t = Some ''dig''" "capacity_use demo_paused = 0"
    by blast
  show ?thesis
    by (subst requeue_outcome) (simp_all add: g)
qed

end
