(* ===== verification/Scheduling_Service.thy ===== *)
theory Scheduling_Service
  imports Kernel_Items
begin

text \<open>
  \<open>mediaflow/application/task_scheduling.py\<close>: the engine the entrances and Workers call. Each
  operation is a sequence of the repository's transactions (\<open>tx\<close>): what an earlier one committed
  stays when a later step raises. Identities the code draws at random (Task ids, claim tokens) and the
  clock are arguments, and so is \<open>uuid5\<close>, a function of its text alone. The capacity is the value in
  force at the call, which the service reads again each time; the fallback for repositories without
  the combined ownership transaction is left out, since the SQLite repository has it.
\<close>

section \<open>Instants, leases, lookups\<close>

definition service_now :: "instant \<Rightarrow> datetime option \<Rightarrow> instant result" where
  "service_now clock now = (case now of None \<Rightarrow> Inr clock | Some d \<Rightarrow> require_aware d)"

definition service_lease :: "rat \<Rightarrow> pynum option \<Rightarrow> rat result" where
  "service_lease usual lease =
     require_lease_seconds (case lease of None \<Rightarrow> PyFloat usual | Some l \<Rightarrow> l)"

definition require_task :: "string \<Rightarrow> (db, ptask) tx" where
  "require_task k = read_tx (\<lambda>d. case get_task d k of None \<Rightarrow> Inl LookupError | Some t \<Rightarrow> Inr t)"

definition require_state :: "string \<Rightarrow> (db, sched) tx" where
  "require_state k =
     read_tx (\<lambda>d. case scheduled_state d k of None \<Rightarrow> Inl TaskControlRejected | Some s \<Rightarrow> Inr s)"

definition require_no_pending_control :: "string \<Rightarrow> (db, unit) tx" where
  "require_no_pending_control k =
     bind_tx (require_state k) (\<lambda>s. return_tx (raise_if (s_control s \<noteq> None) TaskControlRejected (Inr ())))"

definition claim_task_id :: "claim \<Rightarrow> string" where
  "claim_task_id c = t_id (k_task c)"

definition require_task_matches_claim :: "claim \<Rightarrow> ptask \<Rightarrow> unit result" where
  "require_task_matches_claim c task =
     raise_if (t_id task \<noteq> claim_task_id c) TaskControlRejected (Inr ())"

text \<open>A repository answer of None means the claim was lost.\<close>

definition owned :: "(db, 'a option) tx \<Rightarrow> (db, 'a) tx" where
  "owned m = bind_tx m (\<lambda>r. return_tx (case r of None \<Rightarrow> Inl TaskClaimFenceLost | Some x \<Rightarrow> Inr x))"

definition owned_write :: "(db, bool) tx \<Rightarrow> (db, unit) tx" where
  "owned_write m = bind_tx m (\<lambda>b. return_tx (raise_if (\<not> b) TaskClaimFenceLost (Inr ())))"

definition reload_item :: "string \<Rightarrow> pitem \<Rightarrow> (db, pitem) tx" where
  "reload_item k fallback = read_tx (\<lambda>d. Inr (case get_item d k of None \<Rightarrow> fallback | Some i \<Rightarrow> i))"

definition with_fence :: "claim \<Rightarrow> instant \<Rightarrow> (fence \<Rightarrow> (db, 'a) tx) \<Rightarrow> (db, 'a) tx" where
  "with_fence c now m = bind_tx (return_tx (claim_fence c (Aware now))) m"

section \<open>Admission\<close>

definition build_scheduled_task_admission ::
  "string \<Rightarrow> string \<Rightarrow> bool \<Rightarrow> trigger \<Rightarrow> string \<Rightarrow> string option \<Rightarrow> string option \<Rightarrow> int option \<Rightarrow>
   string option \<Rightarrow> string option \<Rightarrow> bool \<Rightarrow> machine_stage option \<Rightarrow> datetime option \<Rightarrow> datetime \<Rightarrow>
   (ptask \<times> sched) result" where
  "build_scheduled_task_admission new_id command authorized trig who request_id scope limit
       snapshot digest require_snapshot stage eligible now =
     bind_result (require_aware_opt eligible) (\<lambda>e.
     bind_result (require_aware now) (\<lambda>t.
     bind_result (make_admission_context trig who request_id) (\<lambda>ctx.
     bind_result (make_admission_request command authorized ctx scope limit snapshot digest) (\<lambda>q.
     raise_if (require_snapshot \<and> q_snapshot_id q = None) ValueError
     (Inr
       (\<lparr>t_id = new_id, t_command = q_command q, t_status = TaskPending,
         t_execute_authorized = q_execute_authorized q, t_created_at = t, t_updated_at = t,
         t_started_at = None, t_completed_at = None, t_total_items = 0, t_completed_items = 0,
         t_failed_items = 0, t_error = None, t_pause_requested = False,
         t_scope_path = q_scope_path q, t_item_limit = q_item_limit q,
         t_snapshot_id = q_snapshot_id q, t_snapshot_digest = q_snapshot_digest q\<rparr>,
        \<lparr>s_task_id = new_id, s_queue_state = Queued, s_trigger = a_trigger (q_context q),
         s_principal = a_principal (q_context q), s_request_id = a_request_id (q_context q),
         s_created_at = t, s_updated_at = t, s_stage = stage, s_eligible_at = e, s_generation = 0,
         s_token = None, s_worker = None, s_claimed_at = None, s_expires_at = None,
         s_heartbeat_at = None, s_control_revision = 0, s_control = None,
         s_control_requested_at = None, s_control_acknowledged_at = None,
         s_mutation_state = None, s_mutation_item = None, s_mutation_action = None,
         s_continuation_actor = None\<rparr>))))))"

definition service_admit ::
  "string \<Rightarrow> instant \<Rightarrow> pynum \<Rightarrow> string \<Rightarrow> bool \<Rightarrow> trigger \<Rightarrow> string \<Rightarrow> string option \<Rightarrow>
   string option \<Rightarrow> int option \<Rightarrow> string option \<Rightarrow> string option \<Rightarrow> bool \<Rightarrow> machine_stage option \<Rightarrow>
   datetime option \<Rightarrow> display_context option \<Rightarrow> datetime option \<Rightarrow> (db, admission) tx" where
  "service_admit new_id clock capacity command authorized trig who request_id scope limit
       snapshot digest require_snapshot stage eligible display now =
     bind_tx (return_tx (service_now clock now)) (\<lambda>t.
     bind_tx (return_tx (build_scheduled_task_admission new_id command authorized trig who request_id
       scope limit snapshot digest require_snapshot stage eligible (Aware t))) (\<lambda>(task, st).
     bind_tx (return_tx (require_capacity capacity)) (\<lambda>cap.
     atomic (admit_scheduled_task task st (PyInt (int cap)) display))))"

section \<open>Claim, heartbeat, running boundary\<close>

definition claim_token_or :: "string option \<Rightarrow> string \<Rightarrow> string" where
  "claim_token_or given fresh = (case given of Some t \<Rightarrow> if t = [] then fresh else t | None \<Rightarrow> fresh)"

definition service_claim_next ::
  "instant \<Rightarrow> rat \<Rightarrow> string \<Rightarrow> string \<Rightarrow> string option \<Rightarrow> datetime option \<Rightarrow> pynum option \<Rightarrow>
   (db, claim option) tx" where
  "service_claim_next clock usual fresh worker_id token now lease =
     bind_tx (return_tx (service_now clock now)) (\<lambda>t.
     bind_tx (return_tx (service_lease usual lease)) (\<lambda>v.
     atomic (claim_next_scheduled_task (Aware t) worker_id (claim_token_or token fresh) (PyFloat v))))"

definition service_claim ::
  "instant \<Rightarrow> rat \<Rightarrow> string \<Rightarrow> string \<Rightarrow> string \<Rightarrow> string option \<Rightarrow> datetime option \<Rightarrow> pynum option \<Rightarrow>
   (db, claim option) tx" where
  "service_claim clock usual fresh task_id worker_id token now lease =
     bind_tx (return_tx (service_now clock now)) (\<lambda>t.
     bind_tx (return_tx (raise_if (strip task_id = []) ValueError (Inr ()))) (\<lambda>_.
     bind_tx (return_tx (service_lease usual lease)) (\<lambda>v.
     atomic (claim_scheduled_task (strip task_id) (Aware t) worker_id (claim_token_or token fresh)
       (PyFloat v)))))"

definition service_heartbeat ::
  "instant \<Rightarrow> rat \<Rightarrow> claim \<Rightarrow> datetime option \<Rightarrow> pynum option \<Rightarrow> (db, claim) tx" where
  "service_heartbeat clock usual c now lease =
     bind_tx (return_tx (service_now clock now)) (\<lambda>t.
     with_fence c t (\<lambda>f.
     bind_tx (return_tx (service_lease usual lease)) (\<lambda>v.
     bind_tx (owned (atomic (heartbeat_scheduled_claim f (PyFloat v)))) (\<lambda>s.
     bind_tx (require_task (claim_task_id c)) (\<lambda>task.
     return_tx (Inr \<lparr>k_task = task, k_state = s\<rparr>))))))"

definition service_begin_work ::
  "instant \<Rightarrow> claim \<Rightarrow> machine_stage \<Rightarrow> datetime option \<Rightarrow> (db, claim) tx" where
  "service_begin_work clock c stage now =
     bind_tx (return_tx (service_now clock now)) (\<lambda>t.
     bind_tx (require_no_pending_control (claim_task_id c)) (\<lambda>_.
     with_fence c t (\<lambda>f.
     bind_tx (owned (atomic (begin_scheduled_work f stage))) (\<lambda>s.
     bind_tx (require_task (claim_task_id c)) (\<lambda>task.
     return_tx (Inr \<lparr>k_task = task, k_state = s\<rparr>))))))"

section \<open>Control\<close>

definition settle_release ::
  "control \<Rightarrow> instant \<Rightarrow> ptask \<Rightarrow> pitem list \<Rightarrow> nat \<Rightarrow> discovery option \<Rightarrow> execution option \<Rightarrow>
   execution_item list \<Rightarrow> string option \<Rightarrow> bool \<Rightarrow> release" where
  "settle_release c now task items n v e eis label close =
     \<lparr>g_task = control_task c now task, g_items = control_items c now items,
      g_queue_state = control_queue_state c, g_stage = None, g_revision = Some n,
      g_discovery = v, g_execution = e, g_execution_items = eis, g_initial_stage = label,
      g_close_boundary = close\<rparr>"

definition settle_control ::
  "ptask \<Rightarrow> sched \<Rightarrow> instant \<Rightarrow> fence option \<Rightarrow> discovery option \<Rightarrow> execution option \<Rightarrow>
   execution_item list \<Rightarrow> string option \<Rightarrow> bool \<Rightarrow> (db, sched) tx" where
  "settle_control task s now f v e eis label close =
     (case s_control s of
        None \<Rightarrow> return_tx (Inl TaskControlRejected)
      | Some c \<Rightarrow>
          bind_tx (read_tx (\<lambda>d. Inr (task_items d (t_id task)))) (\<lambda>items.
          owned (atomic (release_scheduled_claim f
            (settle_release c now task items (s_control_revision s) v e eis label close)))))"

definition service_request_control ::
  "instant \<Rightarrow> string \<Rightarrow> control \<Rightarrow> datetime option \<Rightarrow> (db, sched) tx" where
  "service_request_control clock task_id c now =
     bind_tx (return_tx (service_now clock now)) (\<lambda>t.
     bind_tx (atomic (request_scheduled_control task_id c (Aware t))) (\<lambda>s.
     if s_token s = None \<and> s_queue_state s \<in> {Queued, WaitingHuman, QueuePaused}
     then bind_tx (require_task task_id) (\<lambda>task. settle_control task s t None None None [] None False)
     else return_tx (Inr s)))"

definition service_acknowledge_control ::
  "instant \<Rightarrow> claim \<Rightarrow> discovery option \<Rightarrow> execution option \<Rightarrow> execution_item list \<Rightarrow>
   datetime option \<Rightarrow> string option \<Rightarrow> bool \<Rightarrow> (db, sched) tx" where
  "service_acknowledge_control clock c v e eis now label close =
     bind_tx (return_tx (service_now clock now)) (\<lambda>t.
     bind_tx (require_state (claim_task_id c)) (\<lambda>s.
     if s_control s = None then return_tx (Inl TaskControlRejected)
     else bind_tx (require_task (claim_task_id c)) (\<lambda>task.
          with_fence c t (\<lambda>f. settle_control task s t (Some f) v e eis label close))))"

text \<open>\<open>defer_to_human\<close> and \<open>settle\<close> differ only in the queue state they publish.\<close>

definition release_under_claim ::
  "queue_state \<Rightarrow> instant \<Rightarrow> claim \<Rightarrow> ptask \<Rightarrow> pitem list \<Rightarrow> datetime option \<Rightarrow> string option \<Rightarrow>
   bool \<Rightarrow> execution option \<Rightarrow> execution_item list \<Rightarrow> (db, sched) tx" where
  "release_under_claim q clock c task items now label close e eis =
     bind_tx (return_tx (service_now clock now)) (\<lambda>t.
     bind_tx (return_tx (require_task_matches_claim c task)) (\<lambda>_.
     with_fence c t (\<lambda>f.
     owned (atomic (release_scheduled_claim (Some f)
       \<lparr>g_task = task\<lparr>t_updated_at := t\<rparr>, g_items = map (\<lambda>i. i\<lparr>i_updated_at := t\<rparr>) items,
        g_queue_state = q, g_stage = None, g_revision = None, g_discovery = None,
        g_execution = e, g_execution_items = eis, g_initial_stage = label,
        g_close_boundary = close\<rparr>)))))"

definition service_defer_to_human ::
  "instant \<Rightarrow> claim \<Rightarrow> ptask \<Rightarrow> pitem list \<Rightarrow> datetime option \<Rightarrow> string option \<Rightarrow> bool \<Rightarrow>
   execution option \<Rightarrow> execution_item list \<Rightarrow> (db, sched) tx" where
  "service_defer_to_human = release_under_claim WaitingHuman"

definition service_settle ::
  "instant \<Rightarrow> claim \<Rightarrow> ptask \<Rightarrow> pitem list \<Rightarrow> datetime option \<Rightarrow> string option \<Rightarrow> bool \<Rightarrow>
   execution option \<Rightarrow> execution_item list \<Rightarrow> (db, sched) tx" where
  "service_settle = release_under_claim Settled"

definition service_yield_claim ::
  "instant \<Rightarrow> claim \<Rightarrow> ptask \<Rightarrow> pitem list \<Rightarrow> machine_stage \<Rightarrow> datetime option \<Rightarrow> datetime option \<Rightarrow>
   (db, sched) tx" where
  "service_yield_claim clock c task items stage eligible now =
     bind_tx (return_tx (service_now clock now)) (\<lambda>t.
     bind_tx (return_tx (require_aware_opt eligible)) (\<lambda>_.
     bind_tx (return_tx (require_task_matches_claim c task)) (\<lambda>_.
     bind_tx (require_state (claim_task_id c)) (\<lambda>s.
     bind_tx (return_tx (raise_if (s_control s \<noteq> None \<or> mutation_in_flight s) TaskControlRejected (Inr ()))) (\<lambda>_.
     with_fence c t (\<lambda>f.
     owned (atomic (yield_scheduled_claim f (task\<lparr>t_status := TaskPending, t_updated_at := t\<rparr>)
       (map (\<lambda>i. i\<lparr>i_updated_at := t\<rparr>) items) stage eligible))))))))"

definition service_requeue ::
  "instant \<Rightarrow> pynum \<Rightarrow> string \<Rightarrow> string option \<Rightarrow> string option \<Rightarrow> nat option \<Rightarrow> machine_stage option \<Rightarrow>
   datetime option \<Rightarrow> string option \<Rightarrow> datetime option \<Rightarrow> (db, sched) tx" where
  "service_requeue clock capacity task_id sid dig n stage eligible actor now =
     bind_tx (return_tx (require_capacity capacity)) (\<lambda>cap.
     bind_tx (return_tx (service_now clock now)) (\<lambda>t.
     atomic (requeue_scheduled_task task_id sid dig n (PyInt (int cap)) (Aware t) stage eligible actor)))"

section \<open>Items\<close>

record item_source =
  src_storage_id :: string
  src_resource_library_id :: string
  src_source_path :: string
  src_source_display :: string
  src_occurrence_id :: "string option"
  src_fingerprint :: "string option"
  src_fingerprint_state :: string
  src_observed_at :: "instant option"
  src_storage_path :: "string option"

definition started_item :: "string \<Rightarrow> string \<Rightarrow> item_source \<Rightarrow> pitem option \<Rightarrow> instant \<Rightarrow> pitem" where
  "started_item item_id task_id src previous now =
     \<lparr>i_id = item_id, i_task_id = task_id, i_storage_id = src_storage_id src,
      i_resource_library_id = src_resource_library_id src, i_source_path = src_source_path src,
      i_source_display = src_source_display src, i_status = Processing, i_stage = ''pipeline'',
      i_attempts = (case previous of None \<Rightarrow> 0 | Some p \<Rightarrow> i_attempts p) + 1,
      i_created_at = (case previous of None \<Rightarrow> now | Some p \<Rightarrow> i_created_at p),
      i_updated_at = now, i_plan_id = None, i_destination_storage_id = None,
      i_destination_path = None, i_execution_status = None, i_error = None,
      i_source_occurrence_id = src_occurrence_id src,
      i_source_fingerprint = src_fingerprint src,
      i_source_fingerprint_state = src_fingerprint_state src,
      i_source_observed_at = src_observed_at src, i_progress = None,
      i_source_storage_path = src_storage_path src, i_lock_owner_token = None\<rparr>"

definition start_with_ownership ::
  "(db \<Rightarrow> pitem \<Rightarrow> string option) \<Rightarrow> (db \<Rightarrow> pitem \<Rightarrow> string option result) \<Rightarrow> fence \<Rightarrow> pitem \<Rightarrow>
   bool \<Rightarrow> (db, unit) tx" where
  "start_with_ownership owner_of history_of f item exclude_history =
     bind_tx (atomic (begin_scheduled_item_with_ownership owner_of history_of f item StartPub
       exclude_history)) (\<lambda>(written, owner).
     return_tx (if written then Inr ()
                else if owner \<noteq> None then Inl TaskSourceOwnedError else Inl TaskClaimFenceLost))"

definition item_identity :: "(string \<Rightarrow> string) \<Rightarrow> string \<Rightarrow> string \<Rightarrow> string \<Rightarrow> string" where
  "item_identity uuid5 task_id storage_id source_path =
     uuid5 (task_id @ '':'' @ storage_id @ '':'' @ source_path)"

definition require_running :: "string \<Rightarrow> (db, unit) tx" where
  "require_running k =
     bind_tx (require_task k) (\<lambda>task.
     bind_tx (return_tx (raise_if (t_status task \<noteq> TaskRunning) TaskControlRejected (Inr ()))) (\<lambda>_.
     require_no_pending_control k))"

definition service_begin_item ::
  "(string \<Rightarrow> string) \<Rightarrow> (db \<Rightarrow> pitem \<Rightarrow> string option) \<Rightarrow> (db \<Rightarrow> pitem \<Rightarrow> string option result) \<Rightarrow>
   instant \<Rightarrow> claim \<Rightarrow> item_source \<Rightarrow> bool \<Rightarrow> bool \<Rightarrow> datetime option \<Rightarrow> (db, pitem) tx" where
  "service_begin_item uuid5 owner_of history_of clock c src enforce_ownership exclude_history now =
     bind_tx (return_tx (raise_if
       (exclude_history \<and> \<not> (enforce_ownership \<and> src_storage_path src \<noteq> None)) ValueError (Inr ()))) (\<lambda>_.
     bind_tx (return_tx (service_now clock now)) (\<lambda>t.
     bind_tx (require_running (claim_task_id c)) (\<lambda>_.
     let item_id = item_identity uuid5 (claim_task_id c) (src_storage_id src) (src_source_path src) in
     bind_tx (read_tx (\<lambda>d. Inr (get_item d item_id))) (\<lambda>previous.
     let fresh = started_item item_id (claim_task_id c) src previous t in
     bind_tx (return_tx (case previous of None \<Rightarrow> Inr fresh
                         | Some p \<Rightarrow> resume_item_source_binding p fresh)) (\<lambda>started.
     with_fence c t (\<lambda>f.
     bind_tx (if enforce_ownership \<and> src_storage_path src \<noteq> None
              then start_with_ownership owner_of history_of f started exclude_history
              else owned_write (atomic (upsert_scheduled_item f started StartPub))) (\<lambda>_.
     reload_item item_id started)))))))"

definition service_begin_existing_item ::
  "instant \<Rightarrow> claim \<Rightarrow> pitem \<Rightarrow> string \<Rightarrow> datetime option \<Rightarrow> (db, pitem) tx" where
  "service_begin_existing_item clock c item stage now =
     bind_tx (return_tx (service_now clock now)) (\<lambda>t.
     bind_tx (require_running (claim_task_id c)) (\<lambda>_.
     let started = item\<lparr>i_task_id := claim_task_id c, i_status := Processing, i_stage := stage,
                        i_attempts := i_attempts item + 1, i_updated_at := t\<rparr> in
     with_fence c t (\<lambda>f.
     bind_tx (owned_write (atomic (upsert_scheduled_item f started StartPub))) (\<lambda>_.
     reload_item (i_id item) started))))"

definition service_record_item :: "instant \<Rightarrow> claim \<Rightarrow> pitem \<Rightarrow> datetime option \<Rightarrow> (db, pitem) tx" where
  "service_record_item clock c item now =
     bind_tx (return_tx (service_now clock now)) (\<lambda>t.
     with_fence c t (\<lambda>f.
     bind_tx (owned_write (atomic (upsert_scheduled_item f item ProgressPub))) (\<lambda>_.
     reload_item (i_id item) item)))"

definition service_begin_mutation ::
  "instant \<Rightarrow> claim \<Rightarrow> pitem \<Rightarrow> string \<Rightarrow> datetime option \<Rightarrow> (db, unit) tx" where
  "service_begin_mutation clock c item action now =
     bind_tx (return_tx (service_now clock now)) (\<lambda>t.
     with_fence c t (\<lambda>f. owned_write (atomic (begin_scheduled_mutation f (i_id item) action))))"

definition service_complete_item ::
  "instant \<Rightarrow> claim \<Rightarrow> pitem \<Rightarrow> string list presult \<Rightarrow> evidence option \<Rightarrow> datetime option \<Rightarrow>
   (db, pitem) tx" where
  "service_complete_item clock c item r ev now =
     bind_tx (return_tx (service_now clock now)) (\<lambda>t.
     bind_tx (return_tx (raise_if (r_id r \<noteq> i_id item @ '':'' @ show_int (i_attempts item)) ValueError
       (Inr ()))) (\<lambda>_.
     bind_tx (require_state (claim_task_id c)) (\<lambda>s.
     with_fence c t (\<lambda>f.
     bind_tx (owned_write (atomic (publish_scheduled_item_outcome f item r ev
       (s_mutation_item s = Some (i_id item))))) (\<lambda>_.
     reload_item (i_id item) item)))))"

definition service_publish_task :: "instant \<Rightarrow> claim \<Rightarrow> ptask \<Rightarrow> datetime option \<Rightarrow> (db, ptask) tx" where
  "service_publish_task clock c task now =
     bind_tx (return_tx (service_now clock now)) (\<lambda>t.
     with_fence c t (\<lambda>f.
     bind_tx (owned_write (atomic (publish_scheduled_task f (task\<lparr>t_updated_at := t\<rparr>)))) (\<lambda>_.
     require_task (claim_task_id c))))"

end
