(* ===== verification/Control_Properties.thy ===== *)
theory Control_Properties
  imports Release_Properties Item_Properties Scheduling_Service
begin

text \<open>
  The application layer: how refusals of its sequenced transactions leave the database, and control
  through it: the cancel of work nobody owns goes through.
\<close>

section \<open>Sequenced transactions\<close>

text \<open>Operations that leave the database as it was whenever they raise.\<close>

definition all_or_nothing :: "(db, 'a) tx \<Rightarrow> bool" where
  "all_or_nothing m = (\<forall>d e d'. m d = (Inl e, d') \<longrightarrow> d' = d)"

definition read_only :: "(db, 'a) tx \<Rightarrow> bool" where
  "read_only m = (\<forall>d r d'. m d = (r, d') \<longrightarrow> d' = d)"

definition total_after :: "(db, 'a) tx \<Rightarrow> bool" where
  "total_after m = (\<forall>d. \<exists>x. m d = (Inr x, d))"

lemma all_or_nothing_atomic [intro]: "all_or_nothing (atomic b)"
  by (auto simp: all_or_nothing_def guard_simps)

lemma read_only_aon: "read_only m \<Longrightarrow> all_or_nothing m"
  by (simp add: read_only_def all_or_nothing_def)

lemma read_only_return [intro, simp]: "read_only (return_tx r)"
  by (auto simp: read_only_def guard_simps)

lemma read_only_read [intro, simp]: "read_only (read_tx f)"
  by (auto simp: read_only_def guard_simps)

lemma read_only_bind [intro]: "read_only m \<Longrightarrow> (\<And>x. read_only (f x)) \<Longrightarrow> read_only (bind_tx m f)"
  unfolding read_only_def bind_tx_def by (auto split: prod.splits sum.splits) blast+

lemma aon_bind_read: "read_only m \<Longrightarrow> (\<And>x. all_or_nothing (f x)) \<Longrightarrow> all_or_nothing (bind_tx m f)"
  unfolding all_or_nothing_def read_only_def by (auto simp: guard_simps) blast+

lemma aon_bind_total: "all_or_nothing m \<Longrightarrow> (\<And>x. total_after (f x)) \<Longrightarrow> all_or_nothing (bind_tx m f)"
  unfolding all_or_nothing_def total_after_def by (auto simp: guard_simps) (metis Inl_Inr_False prod.inject)+

lemma total_reload [intro, simp]: "total_after (reload_item k i)"
  by (simp add: total_after_def reload_item_def read_tx_def)

lemma read_only_service [intro, simp]:
  "read_only (require_task k)" "read_only (require_state k)" "read_only (require_no_pending_control k)"
  "read_only (require_running k)"
  by (auto simp: require_task_def require_state_def require_no_pending_control_def require_running_def
      intro!: read_only_bind)

lemma aon_with_fence: "(\<And>f. all_or_nothing (m f)) \<Longrightarrow> all_or_nothing (with_fence c t m)"
  by (simp add: with_fence_def aon_bind_read)

text \<open>A silent refusal writes nothing, so turning it into an exception keeps the operation whole.\<close>

lemma aon_owned:
  assumes "\<And>d d'. b d = Inr (None, d') \<Longrightarrow> d' = d"
  shows "all_or_nothing (owned (atomic b))"
  using assms by (auto simp: all_or_nothing_def owned_def guard_simps split: option.splits)

lemma aon_owned_write:
  assumes "\<And>d d'. b d = Inr (False, d') \<Longrightarrow> d' = d"
  shows "all_or_nothing (owned_write (atomic b))"
  using assms by (auto simp: all_or_nothing_def owned_write_def guard_simps raise_if_def split: if_splits)

lemma release_None: "release_scheduled_claim f g d = Inr (None, d') \<Longrightarrow> d' = d"
  by (drule release_states) auto

lemma yield_None: "yield_scheduled_claim f task items stage e d = Inr (None, d') \<Longrightarrow> d' = d"
proof (cases "scheduled_claim d f")
  case True
  assume y: "yield_scheduled_claim f task items stage e d = Inr (None, d')"
  from True obtain s where s: "scheduled_state d (f_task_id f) = Some s"
    by (auto dest: scheduled_claim_Some)
  let ?hit = "\<lambda>r. s_task_id r = f_task_id f \<and> s_token r = Some (f_token f) \<and> s_generation r = f_generation f"
  from y True s obtain e' where "db_sched d' = update_rows ?hit (yield_row stage e' (f_now f)) (db_sched d)"
    and "scheduled_state d' (f_task_id f) = None"
    by (auto simp: yield_scheduled_claim_def guard_simps Let_def)
  with s have False
    using find_row_update [of ?hit s_task_id "yield_row stage e' (f_now f)"]
    by (simp add: scheduled_state_def yield_row_def)
  then show ?thesis ..
qed (auto simp: yield_scheduled_claim_def guard_simps)

lemma item_False: "upsert_scheduled_item f i stage d = Inr (False, d') \<Longrightarrow> d' = d"
  by (auto simp: upsert_scheduled_item_def guard_simps split: if_splits)

lemma outcome_False: "publish_scheduled_item_outcome f i r ev hint d = Inr (False, d') \<Longrightarrow> d' = d"
  by (auto simp: publish_scheduled_item_outcome_def guard_simps Let_def split: if_splits)

lemma mutation_False: "begin_scheduled_mutation f i act d = Inr (False, d') \<Longrightarrow> d' = d"
  by (auto simp: begin_scheduled_mutation_def guard_simps split: if_splits option.splits)

lemma start_owned_aon: "all_or_nothing (start_with_ownership own hist f i b)"
  by (auto simp: all_or_nothing_def start_with_ownership_def guard_simps
      begin_scheduled_item_with_ownership_def Let_def split: if_splits option.splits)

text \<open>A service call that refuses writes nothing: when settling, deferring, yielding, re-queueing, starting,
  recording or completing an item, or entering a mutation raises (a lost claim, a pending control, a
  stale attempt, an owned source, a full queue), the database is exactly what it was.\<close>

theorem refused_service_calls_write_nothing:
  "all_or_nothing (service_settle clock c task items now label close e eis) \<and>
   all_or_nothing (service_defer_to_human clock c task items now label close e eis) \<and>
   all_or_nothing (service_acknowledge_control clock c v e eis now label close) \<and>
   all_or_nothing (service_yield_claim clock c task items stage eligible now) \<and>
   all_or_nothing (service_requeue clock capacity k sid dig n mstage eligible actor now) \<and>
   all_or_nothing (service_begin_item uuid5 own hist clock c src enforce exclude now) \<and>
   all_or_nothing (service_begin_existing_item clock c item st now) \<and>
   all_or_nothing (service_record_item clock c item now) \<and>
   all_or_nothing (service_begin_mutation clock c item action now) \<and>
   all_or_nothing (service_complete_item clock c item r ev now)"
proof (intro conjI)
  have rel: "all_or_nothing (owned (atomic (release_scheduled_claim f g)))" for f g
    by (rule aon_owned) (rule release_None)
  note ro = aon_bind_read [OF read_only_return] aon_bind_read [OF read_only_read]
    aon_bind_read [OF read_only_service(1)] aon_bind_read [OF read_only_service(2)]
    aon_bind_read [OF read_only_service(4)] aon_with_fence
  note aon_return = read_only_aon [OF read_only_return]
  show "all_or_nothing (service_settle clock c task items now label close e eis)"
    unfolding service_settle_def release_under_claim_def by (intro ro rel)
  show "all_or_nothing (service_defer_to_human clock c task items now label close e eis)"
    unfolding service_defer_to_human_def release_under_claim_def by (intro ro rel)
  have settle: "all_or_nothing (settle_control tk s t f v e eis label close)" for tk s t f
    unfolding settle_control_def by (cases "s_control s") (auto intro!: ro rel aon_return)
  show "all_or_nothing (service_acknowledge_control clock c v e eis now label close)"
    unfolding service_acknowledge_control_def
    by (intro ro) (auto intro!: ro settle aon_return)
  show "all_or_nothing (service_yield_claim clock c task items stage eligible now)"
    unfolding service_yield_claim_def by (intro ro aon_owned) (rule yield_None)
  show "all_or_nothing (service_requeue clock capacity k sid dig n mstage eligible actor now)"
    unfolding service_requeue_def by (intro ro all_or_nothing_atomic)
  show "all_or_nothing (service_begin_item uuid5 own hist clock c src enforce exclude now)"
    unfolding service_begin_item_def Let_def
    by (intro ro aon_bind_total total_reload)
      (auto intro!: start_owned_aon aon_owned_write dest: item_False)
  show "all_or_nothing (service_begin_existing_item clock c item st now)"
    unfolding service_begin_existing_item_def Let_def
    by (intro ro aon_bind_total total_reload aon_owned_write) (rule item_False)
  show "all_or_nothing (service_record_item clock c item now)"
    unfolding service_record_item_def
    by (intro ro aon_bind_total total_reload aon_owned_write) (rule item_False)
  show "all_or_nothing (service_begin_mutation clock c item action now)"
    unfolding service_begin_mutation_def by (intro ro aon_owned_write) (rule mutation_False)
  show "all_or_nothing (service_complete_item clock c item r ev now)"
    unfolding service_complete_item_def
    by (intro ro aon_bind_total total_reload aon_owned_write) (rule outcome_False)
qed

section \<open>Control of work nobody owns\<close>

text \<open>An update that keeps a durable item's identity and source passes the progress guard.\<close>

lemma progress_guard_passes:
  assumes "item_row_of d (i_id i) = Some r" "\<not> superseded_row r"
    and "i_task_id i = k" "i_task_id (ir_item r) = k" "i_storage_id i = i_storage_id (ir_item r)"
    and "i_source_path i = i_source_path (ir_item r)" "i_attempts i = i_attempts (ir_item r)"
    and "known_source_conflict (ir_item r) i True = None"
    and "\<not> settled_item (i_status (ir_item r))"
    and "\<forall>q \<in> set (db_results d). r_item_id q = i_id i \<longrightarrow>
      r_id q \<noteq> i_id i @ '':'' @ show_int (i_attempts i)"
  shows "require_scheduled_item d k i ProgressPub = Inr ()"
  using assms
  by (auto simp: require_scheduled_item_def require_preserved_item_source_def Let_def list_ex_iff raise_if_def)

lemma no_self_conflict:
  "known_source_conflict i (i\<lparr>i_status := a, i_stage := b, i_updated_at := c, i_error := e\<rparr>) True = None"
  by (simp add: known_source_conflict_def known_differs_def)

lemma upsert_item_other:
  "upsert_item i d = Inr e \<Longrightarrow> j \<noteq> i_id i \<Longrightarrow> item_row_of e j = item_row_of d j"
  by (simp add: upsert_item_lookup)

text \<open>The items an update is ready for: each is a durable row handed off, or unsettled and unrecorded.\<close>

definition ready :: "db \<Rightarrow> string \<Rightarrow> pitem \<Rightarrow> bool" where
  "ready d k i =
     (\<exists>r. item_row_of d (i_id i) = Some r \<and> i_task_id i = k \<and> i_task_id (ir_item r) = k \<and>
        (\<exists>a b c e. i = (ir_item r)\<lparr>i_status := a, i_stage := b, i_updated_at := c, i_error := e\<rparr>) \<and>
        \<not> settled_item (i_status (ir_item r)) \<and>
        (\<forall>q \<in> set (db_results d). r_item_id q = i_id i \<longrightarrow>
           r_id q \<noteq> i_id i @ '':'' @ show_int (i_attempts i)))"

lemma publish_ready_items:
  assumes "\<forall>i \<in> set is. ready d k i" "distinct (map i_id is)"
  shows "\<exists>d'. publish_release_items k is d = Inr d'"
  using assms
proof (induction "is" arbitrary: d)
  case Nil
  then show ?case by simp
next
  case (Cons i "is")
  have "ready d k i" using Cons.prems(1) by simp
  then obtain r a b c e where r: "item_row_of d (i_id i) = Some r" "i_task_id i = k"
      "i_task_id (ir_item r) = k" "\<not> settled_item (i_status (ir_item r))"
      "\<forall>q \<in> set (db_results d). r_item_id q = i_id i \<longrightarrow> r_id q \<noteq> i_id i @ '':'' @ show_int (i_attempts i)"
    and i: "i = (ir_item r)\<lparr>i_status := a, i_stage := b, i_updated_at := c, i_error := e\<rparr>"
    unfolding ready_def by blast
  show ?case
  proof (cases "superseded_row r")
    case True
    with r have "item_is_superseded d k (i_id i)" by (simp add: item_is_superseded_def)
    with Cons show ?thesis by simp
  next
    case False
    have same: "i_storage_id i = i_storage_id (ir_item r)" "i_source_path i = i_source_path (ir_item r)"
      "i_attempts i = i_attempts (ir_item r)" "known_source_conflict (ir_item r) i True = None"
      by (subst i, simp)+ (subst i, rule no_self_conflict)
    have g: "require_scheduled_item d k i ProgressPub = Inr ()"
      by (rule progress_guard_passes [OF r(1) False r(2,3) same r(4,5)])
    obtain z where e: "upsert_item i d = Inr z" using r(1) by (simp add: upsert_item_def)
    have rest: "\<forall>j \<in> set is. ready z k j"
    proof
      fix j assume j: "j \<in> set is"
      with Cons.prems(2) have "i_id j \<noteq> i_id i" by (metis distinct.simps(2) image_eqI list.simps(9) set_map)
      then have "item_row_of z (i_id j) = item_row_of d (i_id j)" by (simp add: upsert_item_other [OF e])
      with Cons.prems(1) j upsert_item_frame(3) [OF e] show "ready z k j" by (auto simp: ready_def)
    qed
    from Cons.IH [OF rest] Cons.prems(2) obtain d' where "publish_release_items k is z = Inr d'" by auto
    with g e False r(1) show ?thesis by (simp add: item_is_superseded_def)
  qed
qed

lemma task_row_lookup:
  "distinct_rows item_key (db_items d) \<Longrightarrow> r \<in> set (task_rows d k) \<Longrightarrow> item_row_of d (item_key r) = Some r"
  unfolding item_row_of_def task_rows_def by (rule find_row_mem) simp_all

lemma distinct_task_items:
  "distinct_rows item_key (db_items d) \<Longrightarrow> distinct (map i_id (task_items d k))"
  unfolding task_items_def distinct_order_rows
  by (simp add: task_rows_def distinct_rows_def comp_def distinct_map_filter)

text \<open>The items an accepted control writes, when none of them has a recorded outcome.\<close>

lemma control_items_ready:
  assumes "distinct_rows item_key (db_items d)"
    and "\<forall>r \<in> set (task_rows d k). cancellable_item (i_status (ir_item r)) \<longrightarrow>
      (\<forall>q \<in> set (db_results d). r_item_id q = item_key r \<longrightarrow>
         r_id q \<noteq> item_key r @ '':'' @ show_int (i_attempts (ir_item r)))"
  shows "(\<forall>i \<in> set (control_items c now (task_items d k)). ready d k i) \<and>
    distinct (map i_id (control_items c now (task_items d k)))"
proof
  have sub: "pausable_item x \<Longrightarrow> cancellable_item x" "cancellable_item x \<Longrightarrow> \<not> settled_item x" for x
    by (auto simp: pausable_item_def cancellable_item_def settled_item_def)
  have up: "ready d k ((ir_item r)\<lparr>i_status := a, i_stage := b, i_updated_at := now, i_error := e\<rparr>)"
    if "r \<in> set (task_rows d k)" "cancellable_item (i_status (ir_item r))" for r a b e
    using that task_row_lookup [OF assms(1) that(1)] sub assms(2) unfolding ready_def
    by (auto simp: task_rows_def)
  show "\<forall>i \<in> set (control_items c now (task_items d k)). ready d k i"
    by (cases c) (auto intro!: up sub)
  have m: "map i_id (control_items c now xs) =
      map i_id (filter (\<lambda>i. case c of ControlPause \<Rightarrow> pausable_item (i_status i)
        | ControlCancel \<Rightarrow> cancellable_item (i_status i)) xs)" for xs
    by (cases c) simp_all
  show "distinct (map i_id (control_items c now (task_items d k)))"
    unfolding m using distinct_task_items [OF assms(1)] by (simp add: distinct_map_filter)
qed

lemma control_items_not_machine:
  assumes "distinct_rows item_key (db_items d)"
  shows "require_no_machine_items d k (control_items c now (task_items d k)) = Inr ()"
proof -
  let ?is = "control_items c now (task_items d k)"
  let ?al = "map (\<lambda>r. (i_id (ir_item r), i_status (ir_item r))) (task_rows d k)"
  have st: "\<not> machine_item (i_status i)" if "i \<in> set ?is" for i
    using that by (cases c) (auto simp: machine_item_def)
  have fold: "foldl (\<lambda>m i. m(i_id i \<mapsto> i_status i)) m is j = Some v \<Longrightarrow>
      (\<exists>i \<in> set is. v = i_status i) \<or> (j \<notin> i_id ` set is \<and> m j = Some v)" for m "is" j v
    by (induction "is" arbitrary: m) (fastforce split: if_splits)+
  have "\<not> machine_item v" if "(j, v) \<in> set (overlay_statuses (task_rows d k) ?is)" for j v
  proof -
    have dist: "distinct (map fst (overlay_statuses (task_rows d k) ?is))"
    proof -
      have upd: "distinct (map fst al) \<Longrightarrow> distinct (map fst (foldl (\<lambda>m i. AList.update (i_id i) (i_status i) m) al is))" for al "is"
        by (induction "is" arbitrary: al) (auto intro: distinct_update)
      have "distinct (map fst ?al)"
        using assms by (simp add: distinct_rows_def task_rows_def comp_def distinct_map_filter)
      then show ?thesis unfolding overlay_statuses_def by (rule upd)
    qed
    then have "map_of (overlay_statuses (task_rows d k) ?is) j = Some v" using that by simp
    then have "foldl (\<lambda>m i. m(i_id i \<mapsto> i_status i)) (map_of ?al) ?is j = Some v"
      by (simp add: overlay_statuses_def overlay_conv)
    then consider i where "i \<in> set ?is" "v = i_status i" | "j \<notin> i_id ` set ?is" "map_of ?al j = Some v"
      using fold by blast
    then show ?thesis
    proof cases
      case 1
      with st show ?thesis by blast
    next
      case 2
      from map_of_SomeD [OF 2(2)] obtain r where r: "r \<in> set (task_rows d k)" "j = item_key r"
        "v = i_status (ir_item r)"
        by auto
      have "j \<in> i_id ` set ?is" if "machine_item v"
        using that r by (cases c) (force simp: machine_item_def pausable_item_def cancellable_item_def image_iff)+
      with 2(1) show ?thesis by blast
    qed
  qed
  then show ?thesis by (auto simp: require_no_machine_items_def list_ex_iff raise_if_def)
qed

lemma control_keeps_authority:
  assumes "get_task d k = Some t"
  shows "require_scheduled_authority d (control_task c now t) = Inr ()"
proof -
  have "t_id t = k" using assms find_row_key unfolding get_task_def by metis
  with assms show ?thesis by (cases c) (simp_all add: require_scheduled_authority_def raise_if_def)
qed

lemma accepted_cancel:
  assumes "scheduled_state d k = Some s" "s_token s = None" "s_mutation_state s = None"
    "s_queue_state s \<in> {Queued, WaitingHuman, QueuePaused}"
  obtains s1 d1 where "request_scheduled_control k ControlCancel (Aware t) d = Inr (s1, d1)"
    "scheduled_state d1 k = Some s1" "s_control s1 = Some ControlCancel" "s_token s1 = None"
    "s_queue_state s1 = s_queue_state s" "s_mutation_state s1 = None"
    "db_tasks d1 = db_tasks d" "db_items d1 = db_items d" "db_results d1 = db_results d"
proof (cases "s_control s = Some ControlCancel")
  case True
  show thesis
    by (rule that [of s d]) (use True assms in \<open>simp_all add: request_scheduled_control_def\<close>)
next
  case False
  let ?d1 = "update_sched k (accept_control ControlCancel t) d"
  have st: "scheduled_state ?d1 k = Some (accept_control ControlCancel t s)"
    using assms(1) by (simp add: scheduled_state_update_sched accept_control_def)
  show thesis
    by (rule that [of "accept_control ControlCancel t s" ?d1])
      (use False assms st in \<open>auto simp: request_scheduled_control_def Let_def raise_if_def accept_control_def\<close>)
qed

text \<open>The release that settles an accepted cancel passes every guard.\<close>

abbreviation cancel_release :: "instant \<Rightarrow> ptask \<Rightarrow> db \<Rightarrow> sched \<Rightarrow> release" where
  "cancel_release t task d s \<equiv>
     settle_release ControlCancel t task (task_items d (t_id task)) (s_control_revision s) None None [] None False"

lemma cancel_is_released:
  assumes "db_ok d" "scheduled_state d k = Some s" "s_token s = None" "s_mutation_state s = None"
    "get_task d k = Some task"
    "\<forall>r \<in> set (task_rows d k). cancellable_item (i_status (ir_item r)) \<longrightarrow>
      (\<forall>q \<in> set (db_results d). r_item_id q = item_key r \<longrightarrow>
         r_id q \<noteq> item_key r @ '':'' @ show_int (i_attempts (ir_item r)))"
  shows "\<exists>s' d'. release_scheduled_claim None (cancel_release t task d s) d = Inr (Some s', d') \<and>
    scheduled_state d' k = Some s' \<and> s_queue_state s' = Settled \<and> s_control s' = s_control s \<and>
    (\<exists>u. get_task d' k = Some u \<and> t_status u = TaskCancelled)"
proof -
  have tid: "t_id task = k" using assms(5) find_row_key unfolding get_task_def by metis
  let ?g = "cancel_release t task d s"
  have g: "g_task ?g = control_task ControlCancel t task" "t_id (g_task ?g) = k" "t_updated_at (g_task ?g) = t"
    "g_items ?g = control_items ControlCancel t (task_items d k)" "g_queue_state ?g = Settled"
    "g_revision ?g = Some (s_control_revision s)" "g_discovery ?g = None" "g_execution ?g = None"
    "g_execution_items ?g = []" "g_initial_stage ?g = None" "g_close_boundary ?g = False"
    by (simp_all add: settle_release_def tid)
  have dist: "distinct_rows item_key (db_items d)" using assms(1) by (simp add: db_ok_def)
  have ready: "\<forall>i \<in> set (g_items ?g). ready d k i" "distinct (map i_id (g_items ?g))"
    using control_items_ready [OF dist, of k ControlCancel t] assms(6) g(4) by simp_all
  have own: "list_ex (\<lambda>i. i_task_id i \<noteq> k) (g_items ?g) = False"
    using ready(1) by (auto simp: list_ex_iff ready_def)
  have guards: "close_recorded_boundary ?g t s d = d" "release_now None ?g = t" "release_guards None ?g s d = Inr (Some ())"
    by (simp_all add: close_recorded_boundary_def release_guards_def release_now_def mutation_in_flight_def assms(3,4) g)
  have vals: "release_values None ?g = Inr ()" by (simp add: release_values_def own g(2,5,8,9))
  have "\<forall>i \<in> set (g_items ?g). ready (publish_task_row (g_task ?g) d) k i"
    using ready(1) by (simp add: ready_def item_row_of_def)
  then obtain d2 where d2: "publish_release_items k (g_items ?g) (publish_task_row (g_task ?g) d) = Inr d2"
    using publish_ready_items ready(2) by blast
  have nm: "require_no_machine_items d k (g_items ?g) = Inr ()"
    unfolding g(4) by (rule control_items_not_machine [OF dist])
  have auth: "require_scheduled_authority d (g_task ?g) = Inr ()"
    unfolding g(1) by (rule control_keeps_authority [OF assms(5)])
  obtain d' where wr: "release_writes ?g t s d = Inr d'"
    using nm auth d2 by (simp add: release_writes_def g(2) Let_def g(8,10,7))
  have rel: "release_scheduled_claim None ?g d = Inr (scheduled_state d' k, d')"
    by (simp add: release_scheduled_claim_def g(2) assms(2) guards vals wr Let_def)
  from release_states [OF rel] g(2,5) guards assms(2) obtain s' where s': "scheduled_state d' k = Some s'"
    "s' = give_back Settled (g_stage ?g) t s"
    by auto
  with rel have rel': "release_scheduled_claim None ?g d = Inr (Some s', d')" by simp
  moreover have "s_queue_state s' = Settled" "s_control s' = s_control s"
    using s'(2) by (simp_all add: give_back_def drop_claim_def)
  moreover have "\<exists>u. get_task d' k = Some u \<and> t_status u = TaskCancelled"
    using release_gives_back_task [OF rel' assms(1)] g(1,2) by simp
  ultimately show ?thesis using s'(1) by blast
qed

text \<open>C21: An operator's cancel of work nobody owns always goes through: a Task that is queued, waiting for a
  human or paused, without a claim, and whose unfinished items have no recorded outcome, is settled as
  cancelled by the one service call, whatever its items, display rows and locks are.\<close>

theorem unowned_work_is_always_cancellable:
  assumes "db_ok d" "scheduled_state d k = Some s" "s_token s = None"
    and "s_queue_state s \<in> {Queued, WaitingHuman, QueuePaused}"
    and "\<forall>r \<in> set (task_rows d k). cancellable_item (i_status (ir_item r)) \<longrightarrow>
      (\<forall>q \<in> set (db_results d). r_item_id q = item_key r \<longrightarrow>
         r_id q \<noteq> item_key r @ '':'' @ show_int (i_attempts (ir_item r)))"
  shows "\<exists>s' d'. service_request_control clock k ControlCancel (Some (Aware t)) d = (Inr s', d') \<and>
    scheduled_state d' k = Some s' \<and> s_queue_state s' = Settled \<and> s_control s' = Some ControlCancel \<and>
    (\<exists>u. get_task d' k = Some u \<and> t_status u = TaskCancelled)"
proof -
  have row: "row_ok s" and mem: "k \<in> t_id ` set (db_tasks d)"
    using assms(1) scheduled_state_mem [OF assms(2)] by (auto simp: db_ok_def)
  have mut: "s_mutation_state s = None" using row assms(4) by (auto simp: row_ok_def)
  obtain task where task: "get_task d k = Some task"
    using mem by (cases "get_task d k") (auto simp: get_task_def find_row_None)
  then have tid: "t_id task = k" using find_row_key unfolding get_task_def by metis
  obtain s1 d1 where req: "request_scheduled_control k ControlCancel (Aware t) d = Inr (s1, d1)"
    and s1: "scheduled_state d1 k = Some s1" "s_control s1 = Some ControlCancel" "s_token s1 = None"
      "s_queue_state s1 = s_queue_state s" "s_mutation_state s1 = None"
    and d1: "db_tasks d1 = db_tasks d" "db_items d1 = db_items d" "db_results d1 = db_results d"
    by (rule accepted_cancel [OF assms(2,3) mut assms(4)])
  have "perform 0 (ControlOp k ControlCancel (Aware t)) d = Inr d1" using req by (simp add: commit_def)
  then have ok1: "db_ok d1" by (rule perform_ok [OF assms(1)])
  have task1: "get_task d1 k = Some task" using task d1(1) by (simp add: get_task_def)
  have rows: "task_rows d1 k = task_rows d k" using d1(2) by (simp add: task_rows_def)
  obtain s' d' where rel: "release_scheduled_claim None (cancel_release t task d1 s1) d1 = Inr (Some s', d')"
    and s': "scheduled_state d' k = Some s'" "s_queue_state s' = Settled" "s_control s' = s_control s1"
      "\<exists>u. get_task d' k = Some u \<and> t_status u = TaskCancelled"
    using cancel_is_released [OF ok1 s1(1,3,5) task1, of t] assms(5) unfolding rows d1(3) by blast
  have "service_request_control clock k ControlCancel (Some (Aware t)) d = (Inr s', d')"
    using req s1 assms(4) task1 rel tid
    by (simp add: service_request_control_def service_now_def bind_tx_def return_tx_def atomic_def
        require_task_def read_tx_def settle_control_def owned_def)
  with s' s1(2) show ?thesis by auto
qed

theorem unowned_work_is_always_cancellable_witness:
  "\<exists>s' d'. service_request_control 9 ''t1'' ControlCancel (Some (Aware 2)) (after 2 [op_admit] demo_db) = (Inr s', d') \<and>
     s_queue_state s' = Settled"
proof -
  let ?d = "after 2 [op_admit] demo_db"
  have "runs 2 [op_admit] demo_db" by code_simp
  then have ok: "db_ok ?d" by (rule run_ok [OF run_after demo_db_ok])
  obtain s where s: "scheduled_state ?d ''t1'' = Some s" "s_token s = None" "s_queue_state s = Queued"
  proof (rule that)
    show "scheduled_state ?d ''t1'' = Some demo_sched" by code_simp
    show "s_token demo_sched = None" "s_queue_state demo_sched = Queued" by (simp_all add: demo_sched_def)
  qed
  have "task_rows ?d ''t1'' = []" by code_simp
  then show ?thesis
    using unowned_work_is_always_cancellable [OF ok s(1,2), of 9 2] s(3) by auto
qed

end
