(* ===== verification/Model_Properties.thy ===== *)
theory Model_Properties
  imports Kernel_Examples Kernel_Invariants
begin

text \<open>
  The data model by itself: published paths, the display context of an admission, the known source
  of a TaskItem, and the totals of a Task's item population.
\<close>

section \<open>Published paths\<close>

lemma marker_is_safe:
  "\<not> unsafe_identity 512 None identity_path_redaction"
  "\<not> unsafe_identity 4096 (Some 4096) identity_path_redaction"
  by code_simp+

text \<open>A published path is the exact stored path or the marker: an exact one is bounded, relative, free of
  a parent segment, of a credential the redaction would change and of every absolute path shape; and
  publishing what was published changes nothing, so a path survives any number of projections.\<close>

theorem published_path_is_safe_and_stable:
  assumes "bounded_manual_source_path (Some stored) = Some p"
  shows "(p = stored \<or> p = identity_path_redaction) \<and> length p \<le> 4096 \<and> utf8_length p \<le> 4096 \<and>
    \<not> starts_with ''/'' p \<and> \<not> starts_with ''~'' p \<and>
    ''..'' \<notin> set (split_on (CHR ''/'') (replace_char (CHR 0x5C) (CHR ''/'') p)) \<and>
    redact_evidence_text p None = p \<and> \<not> contains_evidence_path_shape p \<and>
    bounded_manual_source_path (Some p) = Some p"
proof -
  have safe: "(p = stored \<or> p = identity_path_redaction) \<and> \<not> unsafe_identity 4096 (Some 4096) p"
    using assms bounded_storage_relative_path_Some [of stored 4096 "Some 4096" p] marker_is_safe(2)
    by (auto simp: bounded_manual_source_path_def)
  then have "utf8_length p \<le> 4096" by (simp add: unsafe_identity_def Let_def)
  with safe safe_identity_facts [of 4096 "Some 4096" p] show ?thesis
    by (simp add: bounded_manual_source_path_def bounded_storage_relative_path_def)
qed

theorem published_path_is_safe_and_stable_witness:
  "bounded_manual_source_path (Some ''films/a.mkv'') = Some ''films/a.mkv''"
proof -
  have "bounded_manual_source_path (Some ''films/a.mkv'') = Some ''films/a.mkv''" by code_simp
  from published_path_is_safe_and_stable [OF this] show ?thesis by blast
qed

section \<open>Display context\<close>

lemma clamp_text_idem: "clamp_text m (clamp_text m v) = clamp_text m v"
  using clamp_text_length [of m v] by (simp add: clamp_text_def)

lemma clamp_optional_idem: "clamp_optional m (clamp_optional m v) = clamp_optional m v"
  by (simp add: clamp_optional_def Let_def clamp_text_idem split: option.splits)

lemma clamp_optional_bound: "clamp_optional m v = Some s \<Longrightarrow> s \<noteq> [] \<and> length s \<le> m"
  using clamp_text_length [of m] by (auto simp: clamp_optional_def Let_def split: option.splits if_splits)

lemma clamp_labels_clamped:
  "\<forall>l \<in> set labels. clamp_text 120 l = l \<Longrightarrow> \<forall>l \<in> set (clamp_labels labels ls). clamp_text 120 l = l"
proof (induction ls arbitrary: labels)
  case (Cons l ls)
  let ?t = "clamp_text 120 l"
  have "clamp_labels labels (l # ls) \<in>
      {clamp_labels labels ls, labels @ [?t], clamp_labels (labels @ [?t]) ls}"
    by (simp add: Let_def)
  moreover have "\<forall>m \<in> set (labels @ [?t]). clamp_text 120 m = m"
    using Cons.prems by (simp add: clamp_text_idem)
  ultimately show ?case
    using Cons.IH [OF Cons.prems] Cons.IH [of "labels @ [?t]"] by (metis empty_iff insert_iff)
qed simp

text \<open>Labels that are already clamped, distinct, nonempty and few pass through.\<close>

lemma clamp_labels_stable:
  "\<forall>l \<in> set ls. clamp_text 120 l = l \<and> l \<noteq> [] \<Longrightarrow> distinct (labels @ ls) \<Longrightarrow>
    length labels + length ls \<le> 8 \<Longrightarrow> clamp_labels labels ls = labels @ ls"
proof (induction ls arbitrary: labels)
  case (Cons l ls)
  show ?case
  proof (cases ls)
    case Nil
    with Cons.prems show ?thesis by (simp add: Let_def)
  next
    case (Cons l' ls')
    with Cons.prems Cons.IH [of "labels @ [l]"] show ?thesis by (auto simp: Let_def)
  qed
qed simp

text \<open>The display context of an admission is in normal form whatever was passed: at most eight distinct
  nonempty labels of at most 120 characters, each scope and origin absent or nonempty and within its
  bound; and a stored context read back and recorded again is unchanged.\<close>

theorem display_context_normal_form:
  "let c = run_display_context raw in
     length (c_labels c) \<le> 8 \<and> distinct (c_labels c) \<and>
     list_all (\<lambda>l. l \<noteq> [] \<and> length l \<le> 120) (c_labels c) \<and>
     list_all (\<lambda>(v, m). v = None \<or> (\<exists>s. v = Some s \<and> s \<noteq> [] \<and> length s \<le> m))
       [(c_source_scope c, 320), (c_target_scope c, 320), (c_origin_definition_id c, 128),
        (c_origin_definition_name c, 120), (c_origin_kind c, 64)] \<and>
     run_display_context c = c"
proof -
  let ?ls = "clamp_labels [] (c_labels raw)"
  have inv: "length ?ls \<le> 8" "distinct ?ls" "\<forall>l \<in> set ?ls. l \<noteq> [] \<and> length l \<le> 120"
    using clamp_labels_inv [of "[]" "c_labels raw"] by simp_all
  moreover have "\<forall>l \<in> set ?ls. clamp_text 120 l = l"
    using clamp_labels_clamped [of "[]" "c_labels raw"] by simp
  ultimately have "clamp_labels [] ?ls = ?ls"
    using clamp_labels_stable [of ?ls "[]"] by simp
  moreover have "clamp_optional m v = None \<or> (\<exists>s. clamp_optional m v = Some s \<and> s \<noteq> [] \<and> length s \<le> m)" for m v
    using clamp_optional_bound [of m v] by (cases "clamp_optional m v") auto
  ultimately show ?thesis
    using inv by (simp add: Let_def run_display_context_def clamp_optional_idem list_all_iff)
qed

text \<open>A relative display scope is never absolute and never leaves its root: it starts with neither a
  slash nor a tilde, has no backslash and no drive letter, none of its segments is empty or a dot or a parent,
  and reading it again gives it back.\<close>

theorem display_scope_stays_inside:
  assumes "relative_display_scope v = Some s"
  shows "s \<noteq> [] \<and> \<not> starts_with ''/'' s \<and> \<not> starts_with ''~'' s \<and> CHR 0x5C \<notin> set s \<and>
    (1 < length s \<longrightarrow> s ! 1 \<noteq> CHR '':'') \<and>
    list_all (\<lambda>seg. seg \<noteq> [] \<and> seg \<noteq> ''.'' \<and> seg \<noteq> ''..'') (split_on (CHR ''/'') s) \<and>
    relative_display_scope (Some s) = Some s"
proof -
  obtain t where t: "s = strip t" "t = (case v of None \<Rightarrow> [] | Some u \<Rightarrow> u)"
    using assms by (auto simp: relative_display_scope_def Let_def split: if_splits)
  have "strip s = s" by (simp add: t(1))
  with assms show ?thesis
    by (auto simp: relative_display_scope_def Let_def list_ex_iff list_all_iff split: if_splits)
qed

theorem display_scope_stays_inside_witness:
  "relative_display_scope (Some (strip '' films/2024 '')) = Some ''films/2024''"
proof -
  have "relative_display_scope (Some '' films/2024 '') = Some ''films/2024''" by code_simp
  from display_scope_stays_inside [OF this] show ?thesis by code_simp
qed

section \<open>The known source of an item\<close>

text \<open>Resuming an item under a new attempt never changes the source it is known by: whenever the merge is
  accepted, every known binding, occurrence, fingerprint, Storage path and first observation of the
  durable item is in the merged one, and the fence of a later publication accepts the merge.\<close>

theorem resumed_item_keeps_its_source:
  assumes "resume_item_source_binding old new = Inr merged"
    "i_source_occurrence_id old \<noteq> Some []" "i_source_fingerprint old \<noteq> Some []"
    "i_source_storage_path old \<noteq> Some []"
  shows "i_resource_library_id merged = i_resource_library_id old \<and>
    (i_source_occurrence_id old \<noteq> None \<longrightarrow> i_source_occurrence_id merged = i_source_occurrence_id old) \<and>
    (i_source_fingerprint old \<noteq> None \<longrightarrow> i_source_fingerprint merged = i_source_fingerprint old) \<and>
    (i_source_storage_path old \<noteq> None \<longrightarrow> i_source_storage_path merged = i_source_storage_path old) \<and>
    (i_source_observed_at old \<noteq> None \<longrightarrow> i_source_observed_at merged = i_source_observed_at old) \<and>
    (i_source_occurrence_id old \<noteq> None \<longrightarrow>
       i_source_fingerprint_state merged = i_source_fingerprint_state old) \<and>
    i_attempts merged = i_attempts new \<and> i_status merged = i_status new \<and>
    require_preserved_item_source old merged = Inr ()"
proof -
  have none: "known_source_conflict old new False = None"
    using assms(1) by (auto simp: resume_item_source_binding_def guard_simps)
  have m: "i_resource_library_id merged = i_resource_library_id old"
    "i_source_occurrence_id merged = text_or (i_source_occurrence_id old) (i_source_occurrence_id new)"
    "i_source_fingerprint merged = text_or (i_source_fingerprint old) (i_source_fingerprint new)"
    "i_source_storage_path merged = text_or (i_source_storage_path old) (i_source_storage_path new)"
    "i_source_fingerprint_state merged =
       (if i_source_occurrence_id old \<noteq> None then i_source_fingerprint_state old
        else i_source_fingerprint_state new)"
    "i_source_observed_at merged = (case i_source_observed_at old of None \<Rightarrow> i_source_observed_at new | Some t \<Rightarrow> Some t)"
    "i_attempts merged = i_attempts new" "i_status merged = i_status new"
    using assms(1) by (auto simp: resume_item_source_binding_def guard_simps)
  have known: "text_or a b = a" if "a \<noteq> Some []" "a \<noteq> None" for a b
    using that by (cases a) (simp_all add: text_or_def truthy_def)
  have keep: "i_source_occurrence_id old \<noteq> None \<Longrightarrow> i_source_occurrence_id merged = i_source_occurrence_id old"
    "i_source_fingerprint old \<noteq> None \<Longrightarrow> i_source_fingerprint merged = i_source_fingerprint old"
    "i_source_storage_path old \<noteq> None \<Longrightarrow> i_source_storage_path merged = i_source_storage_path old"
    "i_source_observed_at old \<noteq> None \<Longrightarrow> i_source_observed_at merged = i_source_observed_at old"
    using assms(2-4) by (auto simp: m(2-4,6) known)
  have state: "\<not> (i_source_fingerprint_state old = ''verified'' \<and> i_source_occurrence_id merged \<noteq> None \<and>
      i_source_fingerprint_state merged \<noteq> ''verified'')"
  proof (cases "i_source_occurrence_id old")
    case None
    then show ?thesis
      using none by (auto simp: m(2,5) text_or_def truthy_def known_source_conflict_def split: if_splits)
  qed (simp add: m(5))
  have "known_source_conflict old merged True = None"
    using keep state m(1) unfolding known_source_conflict_def known_differs_def by auto
  then show ?thesis
    using keep m(1,5,7,8) by (simp add: require_preserved_item_source_def raise_if_def)
qed

theorem resumed_item_keeps_its_source_witness:
  "i_source_fingerprint (projr (resume_item_source_binding
      ((demo_item Failed 1 1)\<lparr>i_source_fingerprint := Some ''f''\<rparr>) (demo_item Processing 2 5))) = Some ''f''"
proof -
  let ?old = "(demo_item Failed 1 1)\<lparr>i_source_fingerprint := Some ''f''\<rparr>"
  let ?r = "resume_item_source_binding ?old (demo_item Processing 2 5)"
  have r: "?r = Inr (projr ?r)" by code_simp
  have "i_source_occurrence_id ?old \<noteq> Some []" "i_source_fingerprint ?old \<noteq> Some []"
    "i_source_storage_path ?old \<noteq> Some []" by code_simp+
  from resumed_item_keeps_its_source [OF r this] show ?thesis by (simp add: demo_item_def)
qed

section \<open>Totals\<close>

text \<open>A Task's own totals and flow status agree: the failed items are among the settled ones and those
  among all; the Task is completed exactly when it has items and every one of them is settled, and
  then its settled count is its total.\<close>

theorem totals_agree_with_flow_status:
  "case task_item_counts items of (every, settled, failed) \<Rightarrow>
     0 \<le> failed \<and> failed \<le> settled \<and> settled \<le> every \<and>
     (task_work_status items = TaskCompleted \<longleftrightarrow> 0 < every \<and> settled = every) \<and>
     (task_work_status items = TaskRunning \<longleftrightarrow> \<not> (0 < every \<and> settled = every))"
proof -
  let ?P = "\<lambda>i. settled_item (i_status i)"
  have len: "length (filter ?P items) \<le> length items" by (rule length_filter_le)
  have all: "length (filter ?P items) = length items \<longleftrightarrow> (\<forall>i \<in> set items. ?P i)"
    by (metis filter_True filter_id_conv length_filter_less less_irrefl)
  show ?thesis
    using filter_settled_failed [of items] len all
    by (auto simp: task_item_counts_def task_work_status_def list_ex_iff)
qed

end
