(* ===== verification/Paging_Properties.thy ===== *)
theory Paging_Properties
  imports Kernel_Examples Kernel_Invariants
begin

text \<open>
  The paged read of a Task's items: pages in either direction join to the one ordered list.
\<close>

section \<open>The order of items\<close>

lemma text_le_antisym: "text_le s t \<Longrightarrow> text_le t s \<Longrightarrow> s = t"
proof (induction s t rule: text_le.induct)
  case (1 t)
  then show ?case by (cases t) auto
next
  case (3 c s d t)
  then have "code c = code d" by auto
  then have "c = d" by (simp add: code_def)
  with 3 show ?case by auto
qed auto

lemma item_order_total: "item_order a b \<or> item_order b a"
  using text_le_total by (auto simp: item_order_def)

lemma item_order_trans: "item_order a b \<Longrightarrow> item_order b c \<Longrightarrow> item_order a c"
  using text_le_trans by (auto simp: item_order_def)

lemma item_order_antisym: "item_order a b \<Longrightarrow> item_order b a \<Longrightarrow> i_id a = i_id b"
  using text_le_antisym by (auto simp: item_order_def)

text \<open>A list is determined by its rows and its order, when distinct rows are ordered one way only.\<close>

lemma sorted_wrt_unique:
  assumes "sorted_wrt le xs" "sorted_wrt le ys" "mset xs = mset ys"
    and "\<And>a b. a \<in> set xs \<Longrightarrow> b \<in> set xs \<Longrightarrow> le a b \<Longrightarrow> le b a \<Longrightarrow> a = b"
  shows "xs = ys"
  using assms
proof (induction xs arbitrary: ys)
  case (Cons x xs)
  then obtain y ys' where ys: "ys = y # ys'" by (cases ys) auto
  have sets: "set (x # xs) = set (y # ys')" using Cons.prems(3) ys by (metis set_mset_mset)
  have "x = y"
  proof (rule ccontr)
    assume ne: "x \<noteq> y"
    have "x \<in> set (y # ys')" "y \<in> set (x # xs)" using sets by (metis list.set_intros(1))+
    with ne have "x \<in> set ys'" "y \<in> set xs" by auto
    with Cons.prems(1,2) ys have "le x y" "le y x" by auto
    with Cons.prems(4) \<open>y \<in> set xs\<close> ne show False by auto
  qed
  with Cons ys show ?case by auto
qed simp

lemma order_rows_sorted_id:
  assumes "sorted_wrt item_order xs" "mset xs = mset ys" "distinct (map i_id xs)"
  shows "order_rows item_order ys = xs"
proof (rule sym, rule sorted_wrt_unique [where le = item_order, OF assms(1)])
  show "sorted_wrt item_order (order_rows item_order ys)"
    by (rule sorted_order_rows) (use item_order_total item_order_trans in blast)+
  show "mset xs = mset (order_rows item_order ys)" using assms(2) by (simp add: mset_order_rows)
  show "a = b" if "a \<in> set xs" "b \<in> set xs" "item_order a b" "item_order b a" for a b
    using item_order_antisym [OF that(3,4)] that(1,2) assms(3) by (metis distinct_map inj_onD)
qed

lemma filter_around:
  "\<forall>y \<in> set p. \<not> P y \<Longrightarrow> \<not> P x \<Longrightarrow> \<forall>y \<in> set q. P y \<Longrightarrow> filter P (p @ x # q) = q"
  "\<forall>y \<in> set p. P y \<Longrightarrow> \<not> P x \<Longrightarrow> \<forall>y \<in> set q. \<not> P y \<Longrightarrow> filter P (p @ x # q) = p"
  by (simp_all add: filter_id_conv [THEN iffD2] filter_empty_conv [THEN iffD2])

text \<open>The rows a cursor selects out of an ordered list.\<close>

lemma cursor_splits:
  assumes "sorted_wrt item_order (p @ x # q)" "distinct (map i_id (p @ x # q))"
  shows "filter (cursor_before (i_created_at x, i_id x)) (p @ x # q) = q"
    "filter (cursor_after (i_created_at x, i_id x)) (p @ x # q) = p"
proof -
  have before: "cursor_before (i_created_at x, i_id x) y \<longleftrightarrow> item_order x y \<and> i_id x \<noteq> i_id y \<or>
      i_created_at x < i_created_at y" for y
    by (auto simp: cursor_before_def item_order_def)
  have after: "cursor_after (i_created_at x, i_id x) y \<longleftrightarrow> item_order y x \<and> i_id x \<noteq> i_id y \<or>
      i_created_at y < i_created_at x" for y
    by (auto simp: cursor_after_def item_order_def)
  have p: "\<forall>y \<in> set p. item_order y x \<and> i_id x \<noteq> i_id y" using assms by (auto simp: sorted_wrt_append)
  have q: "\<forall>y \<in> set q. item_order x y \<and> i_id x \<noteq> i_id y" using assms by (auto simp: sorted_wrt_append)
  have 1: "\<forall>y \<in> set p. \<not> cursor_before (i_created_at x, i_id x) y"
  proof
    fix y assume "y \<in> set p"
    with p have y: "item_order y x" "i_id x \<noteq> i_id y" by blast+
    have "\<not> item_order x y" using item_order_antisym [OF y(1)] y(2) by metis
    moreover have "\<not> i_created_at x < i_created_at y" using y(1) by (auto simp: item_order_def)
    ultimately show "\<not> cursor_before (i_created_at x, i_id x) y" by (simp add: before)
  qed
  have 2: "\<forall>y \<in> set q. \<not> cursor_after (i_created_at x, i_id x) y"
  proof
    fix y assume "y \<in> set q"
    with q have y: "item_order x y" "i_id x \<noteq> i_id y" by blast+
    have "\<not> item_order y x" using item_order_antisym [OF y(1)] y(2) by metis
    moreover have "\<not> i_created_at y < i_created_at x" using y(1) by (auto simp: item_order_def)
    ultimately show "\<not> cursor_after (i_created_at x, i_id x) y" by (simp add: after)
  qed
  have 3: "\<forall>y \<in> set q. cursor_before (i_created_at x, i_id x) y" using q before by blast
  have 4: "\<forall>y \<in> set p. cursor_after (i_created_at x, i_id x) y" using p after by blast
  have 5: "\<not> cursor_before (i_created_at x, i_id x) x" "\<not> cursor_after (i_created_at x, i_id x) x"
    by (simp_all add: cursor_before_def cursor_after_def)
  show "filter (cursor_before (i_created_at x, i_id x)) (p @ x # q) = q"
    by (rule filter_around(1) [OF 1 5(1) 3])
  show "filter (cursor_after (i_created_at x, i_id x)) (p @ x # q) = p"
    by (rule filter_around(2) [OF 4 5(2) 2])
qed

section \<open>Pages\<close>

definition wanted_items :: "db \<Rightarrow> string \<Rightarrow> string list option \<Rightarrow> pitem list" where
  "wanted_items d k st =
     (case st of None \<Rightarrow> map ir_item (task_rows d k)
      | Some ss \<Rightarrow> filter (\<lambda>i. item_status_value (i_status i) \<in> set ss) (map ir_item (task_rows d k)))"

text \<open>The two scans around a row: forwards what follows it, backwards what precedes it, nearest first.\<close>

lemma scans_around:
  assumes "sorted_wrt item_order (p @ x # q)" "distinct (map i_id (p @ x # q))" "mset (p @ x # q) = mset w"
  shows "order_rows item_order (filter (cursor_before (i_created_at x, i_id x)) w) = q"
    "order_rows (\<lambda>a b. item_order b a) (filter (cursor_after (i_created_at x, i_id x)) w) = rev p"
proof -
  let ?c = "(i_created_at x, i_id x)" and ?desc = "\<lambda>a b. item_order b a"
  have split: "filter (cursor_before ?c) (p @ x # q) = q" "filter (cursor_after ?c) (p @ x # q) = p"
    by (rule cursor_splits; use assms(1,2) in simp)+
  show "order_rows item_order (filter (cursor_before ?c) w) = q"
  proof (rule order_rows_sorted_id)
    show "sorted_wrt item_order q" using assms(1) by (simp add: sorted_wrt_append)
    show "mset q = mset (filter (cursor_before ?c) w)" by (subst split(1) [symmetric]) (simp only: mset_filter assms(3))
    show "distinct (map i_id q)" using assms(2) by simp
  qed
  let ?nearest = "rev (order_rows ?desc (filter (cursor_after ?c) w))"
  have "?nearest = p"
  proof (rule sorted_wrt_unique [where le = item_order])
    have "sorted_wrt ?desc (order_rows ?desc (filter (cursor_after ?c) w))"
      by (rule sorted_order_rows) (use item_order_total item_order_trans in blast)+
    then show "sorted_wrt item_order ?nearest" by (simp add: sorted_wrt_rev)
    show "sorted_wrt item_order p" using assms(1) by (simp add: sorted_wrt_append)
    have "mset (filter (cursor_after ?c) w) = mset (filter (cursor_after ?c) (p @ x # q))"
      by (simp only: mset_filter assms(3))
    then show m: "mset ?nearest = mset p" by (simp add: mset_order_rows split(2) del: filter_append filter.simps)
    show "a = b" if "a \<in> set ?nearest" "b \<in> set ?nearest" "item_order a b" "item_order b a" for a b
    proof -
      have "a \<in> set p" "b \<in> set p" using that(1,2) m by (metis set_mset_mset)+
      with item_order_antisym [OF that(3,4)] assms(2) show ?thesis
        by (metis Un_iff distinct_map inj_onD set_append)
    qed
  qed
  then show "order_rows ?desc (filter (cursor_after ?c) w) = rev p" by (metis rev_rev_ident)
qed

text \<open>C26: Pages join. However the whole list of a Task's items splits around an item, the page of bounded
  length ends at it, the pages after its cursor are the rest in order from the front, and the pages
  before its cursor are the earlier ones in order, read from the back: no item is skipped or repeated.\<close>

theorem item_pages_join:
  assumes "distinct_rows item_key (db_items d)" "list_items d k None None None st = Inr every"
    "every = p @ x # q"
  shows "sorted_wrt item_order every \<and>
    list_items d k (Some (length p + 1)) None None st = Inr (p @ [x]) \<and>
    list_items d k (Some n) (Some (i_created_at x, i_id x)) None st = Inr (take n q) \<and>
    list_items d k (Some n) None (Some (i_created_at x, i_id x)) st = Inr (drop (length p - n) p)"
proof -
  let ?c = "(i_created_at x, i_id x)" and ?w = "wanted_items d k st"
  have ok: "\<not> (case st of None \<Rightarrow> False | Some ss \<Rightarrow> ss = [] \<or> [] \<in> set ss)"
    using assms(2) by (auto simp: list_items_def guard_simps)
  have every: "every = order_rows item_order ?w"
    using assms(2) by (auto simp: list_items_def guard_simps limit_rows_def wanted_items_def Let_def)
  have sorted: "sorted_wrt item_order every"
    unfolding every by (rule sorted_order_rows) (use item_order_total item_order_trans in blast)+
  have "distinct (map i_id (map ir_item (task_rows d k)))"
    using assms(1) by (simp add: task_rows_def distinct_rows_def comp_def distinct_map_filter)
  then have dist: "distinct (map i_id every)"
    unfolding every distinct_order_rows wanted_items_def
    by (cases st) (simp_all add: distinct_map_filter)
  have ms: "mset every = mset ?w" by (simp add: every mset_order_rows)
  note scans = scans_around [OF sorted [unfolded assms(3)] dist [unfolded assms(3)] ms [unfolded assms(3)]]
  have "list_items d k (Some (length p + 1)) None None st = Inr (take (length p + 1) every)"
    using ok unfolding every by (cases st) (auto simp: list_items_def limit_rows_def wanted_items_def Let_def raise_if_def)
  moreover have "list_items d k (Some n) (Some ?c) None st = Inr (take n q)"
    using ok scans(1) by (cases st) (auto simp: list_items_def limit_rows_def wanted_items_def Let_def raise_if_def)
  moreover have "list_items d k (Some n) None (Some ?c) st = Inr (rev (take n (rev p)))"
    using ok scans(2) by (cases st) (auto simp: list_items_def limit_rows_def wanted_items_def Let_def raise_if_def)
  ultimately show ?thesis using sorted by (simp add: assms(3) take_rev)
qed

definition demo_three :: db where
  "demo_three = demo_db\<lparr>db_items := map (\<lambda>(n, t). \<lparr>ir_item = (demo_item Success 1 9)\<lparr>i_id := n, i_created_at := t\<rparr>,
     ir_superseded_by = None\<rparr>) [(''b'', 4), (''c'', 1), (''a'', 4)]\<rparr>"

theorem item_pages_join_witness:
  "map i_id (projr (list_items demo_three ''t1'' (Some 1) (Some (4, ''a'')) None None)) = [''b'']"
proof -
  let ?e = "projr (list_items demo_three ''t1'' None None None None)"
  have e: "list_items demo_three ''t1'' None None None None = Inr ?e" by code_simp
  have d: "distinct_rows item_key (db_items demo_three)" by code_simp
  have s: "?e = take 1 ?e @ (?e ! 1) # drop 2 ?e" by code_simp
  have c: "i_created_at (?e ! 1) = 4 \<and> i_id (?e ! 1) = ''a'' \<and> map i_id (take 1 (drop 2 ?e)) = [''b'']" by code_simp
  from item_pages_join [OF d e s, of 1] c show ?thesis by simp
qed

end
