(* ===== verification/Refinement_Properties.thy ===== *)
theory Refinement_Properties
  imports Kernel_Examples Kernel_Invariants
begin

text \<open>
  The refinement of the row lifecycle by the transactions, and the write-once evidence of a Task's
  first execution stage.
\<close>

section \<open>Refinement\<close>

text \<open>C1: The transactions refine the lifecycle of one scheduling row: an operation leaves the row of every
  Task where the moves of its own kind can take it, removes none, and creates only the fresh queued row of
  the Task it admits. So whatever holds along \<open>row_step\<close> holds of the database.\<close>

theorem kernel_refines_row_lifecycle:
  assumes "db_ok d" "perform cap op d = Inr d'"
  shows "(\<forall>k s. scheduled_state d k = Some s \<longrightarrow>
      (\<exists>t. scheduled_state d' k = Some t \<and> row_trans (moves_of op) s t)) \<and>
    (\<forall>k t. scheduled_state d k = None \<longrightarrow> scheduled_state d' k = Some t \<longrightarrow>
      fresh_row t \<and> (\<exists>task disp. op = AdmitOp task t disp \<and> k = t_id task))"
proof (cases "\<exists>task st disp. op = AdmitOp task st disp")
  case True
  then obtain task st disp where op: "op = AdmitOp task st disp" by blast
  show ?thesis
  proof (rule perform_admit [OF assms(2) [unfolded op]])
    assume new: "fresh_row st" "t_id task = s_task_id st" "admit_new task st disp d = Inr d'"
    have d': "db_sched d' = db_sched d @ [st]" by (rule admit_new_Inr(1) [OF new(3)])
    have app: "find_row s_task_id k (rs @ [st]) =
        (case find_row s_task_id k rs of Some r \<Rightarrow> Some r | None \<Rightarrow> if s_task_id st = k then Some st else None)" for k rs
      by (induction rs) auto
    show ?thesis
      using new by (auto simp: scheduled_state_def d' app op split: option.splits if_splits)
  qed (simp add: op)
next
  case False
  then have ev: "evolves (moves_of op) d d'" using perform_evolves [OF assms] by blast
  show ?thesis
    using evolves_none [OF ev] by (metis evolves_state [OF ev] option.distinct(1))
qed

theorem kernel_refines_row_lifecycle_witness:
  "\<exists>t. scheduled_state demo_claimed ''t1'' = Some t \<and> row_trans {MClaim} demo_sched t"
proof -
  let ?d = "after 2 [op_admit] demo_db"
  have "runs 2 [op_admit] demo_db" by code_simp
  then have ok: "db_ok ?d" by (rule run_ok [OF run_after demo_db_ok])
  have p: "perform 2 op_claim ?d = Inr demo_claimed" by code_simp
  have s: "scheduled_state ?d ''t1'' = Some demo_sched" by code_simp
  have m: "moves_of op_claim = {MClaim}" by (simp add: op_claim_def)
  from kernel_refines_row_lifecycle [OF ok p] s m show ?thesis by metis
qed

section \<open>The first execution stage\<close>

definition stage_row_ok :: "initial_execution \<Rightarrow> bool" where
  "stage_row_ok x =
     (x_skipped_count x + x_cancelled_count x + x_failed_count x + x_waiting_count x \<le> x_item_count x \<and>
      x_success_count x \<le> x_item_count x \<and> x_uncertain_count x \<le> x_item_count x \<and>
      x_partial_effect_count x \<le> x_item_count x \<and> x_unreadable_count x \<le> x_item_count x \<and>
      x_waiting_count x \<le> x_unreadable_count x)"

lemma initial_row_ok: "stage_row_ok (initial_execution_row d k label s f)"
proof -
  have "x_skipped_count (initial_execution_row d k label s f) + x_cancelled_count (initial_execution_row d k label s f) +
      x_failed_count (initial_execution_row d k label s f) + x_waiting_count (initial_execution_row d k label s f) \<le>
      x_item_count (initial_execution_row d k label s f)"
    using disposition_partition [of "task_evidence d k"] by (simp add: initial_execution_row_def Let_def)
  then show ?thesis
    using waiting_le_unreadable [of d k label s f]
    by (simp add: stage_row_ok_def) (simp add: initial_execution_row_def Let_def)
qed

definition freezes :: "db \<Rightarrow> db \<Rightarrow> bool" where
  "freezes d d' =
     (db_initial d' = db_initial d \<or>
      (\<exists>x. db_initial d' = db_initial d @ [x] \<and> stage_row_ok x \<and>
           find_row x_task_id (x_task_id x) (db_initial d) = None))"

lemma freezes_same [simp]: "db_initial d' = db_initial d \<Longrightarrow> freezes d d'"
  by (simp add: freezes_def)

lemma freezes_record: "freezes d (record_initial_execution k label s f d)"
proof (cases "find_row x_task_id k (db_initial d)")
  case None
  have "x_task_id (initial_execution_row d k label s f) = k" by (simp add: initial_execution_row_def Let_def)
  with None initial_row_ok [of d k label s f] show ?thesis
    by (auto simp: freezes_def record_initial_execution_def)
qed (simp add: freezes_def record_initial_execution_def)

lemma release_writes_freeze:
  assumes "release_writes g now s d = Inr d'"
  shows "freezes d d'"
proof -
  let ?k = "t_id (g_task g)"
  from assms obtain d2 d3 where
    d2: "publish_release_items ?k (g_items g) (publish_task_row (g_task g) d) = Inr d2"
    and d3: "(case g_execution g of None \<Rightarrow> Inr d2
         | Some e \<Rightarrow> publish_manual_execution (s_control s) e (g_execution_items g) d2) = Inr d3"
    and d': "d' = (let k = t_id (g_task g);
        d4 = (case (g_initial_stage g, t_started_at (g_task g)) of
                  (Some label, Some started) \<Rightarrow> record_initial_execution k label started now d3
                | _ \<Rightarrow> d3);
          d5 = d4\<lparr>db_locks := delete_rows (\<lambda>l. l_task_id l = k) (db_locks d4)\<rparr>;
          d6 = update_sched k (give_back (g_queue_state g) (g_stage g) now) d5
      in (case (g_discovery g, s_control s) of
                (Some v, Some c) \<Rightarrow> publish_discovery_control v c now d6
              | _ \<Rightarrow> d6))"
    by (auto simp: release_writes_def guard_simps Let_def)
  let ?d4 = "case (g_initial_stage g, t_started_at (g_task g)) of
                  (Some label, Some started) \<Rightarrow> record_initial_execution ?k label started now d3
                | _ \<Rightarrow> d3"
  have i2: "db_initial d2 = db_initial d" using publish_release_items_frame [OF d2] by simp
  have i3: "db_initial d3 = db_initial d2"
    using d3 publish_manual_execution_frame by (auto split: option.splits)
  have disc: "db_initial (publish_discovery_control v c now e) = db_initial e" for v c e
    by (simp add: publish_discovery_control_def)
  have i4: "db_initial d' = db_initial ?d4"
    unfolding d' Let_def by (simp add: disc split: option.splits)
  have "freezes d3 ?d4"
    using freezes_record by (simp split: option.splits)
  with i2 i3 i4 show ?thesis by (simp add: freezes_def)
qed

lemma release_freezes:
  assumes "release_scheduled_claim f g d = Inr (r, d')"
  shows "freezes d d'"
  using release_Some [OF assms]
proof (elim disjE exE)
  fix s0 s
  assume "let k = t_id (g_task g); now = release_now f g; d1 = close_recorded_boundary g now s0 d in
       release_values f g = Inr () \<and> scheduled_state d k = Some s0 \<and> scheduled_state d1 k = Some s \<and>
       release_guards f g s d1 = Inr (Some ()) \<and> release_writes g now s d1 = Inr d' \<and>
       r = scheduled_state d' k"
  then have "release_writes g (release_now f g) s (close_recorded_boundary g (release_now f g) s0 d) = Inr d'"
    by (simp add: Let_def)
  from release_writes_freeze [OF this] show ?thesis
    by (simp add: freezes_def close_recorded_boundary_def split: if_splits)
qed simp

lemma claim_in_transaction_initial:
  assumes "claim_in_transaction only now w tok lease d = Inr (r, d')"
  shows "db_initial d' = db_initial d"
  using assms unfolding claim_in_transaction_def Let_def bind_result_def
  by (cases "scheduled_worker d w now"; auto split: option.splits if_splits)

lemma item_ops_initial:
  "upsert_scheduled_item f i stage d = Inr (b, d') \<Longrightarrow> db_initial d' = db_initial d"
  "begin_scheduled_item_with_ownership own hist f i stage x d = Inr (y, d') \<Longrightarrow> db_initial d' = db_initial d"
  by (auto simp: upsert_scheduled_item_def begin_scheduled_item_with_ownership_def guard_simps Let_def
      upsert_item_frame split: if_splits option.splits)

lemma outcome_initial:
  assumes "publish_scheduled_item_outcome f i r ev hint d = Inr (x, d')"
  shows "db_initial d' = db_initial d"
proof -
  have ins: "db_initial d1 = db_initial d" if "insert_result r b d = Inr d1" for d1 b
    using that by (auto simp: insert_result_def guard_simps Let_def)
  have ev: "db_initial (append_evidence e c) = db_initial c" for e c by (simp add: append_evidence_def)
  show ?thesis
    using assms ins
    by (cases "scheduled_claim d f")
      (auto simp: publish_scheduled_item_outcome_def guard_simps Let_def insert_result_conflict ev
        upsert_item_frame split: option.splits)
qed

lemma perform_freezes:
  assumes "perform cap op d = Inr d'"
  shows "freezes d d'"
proof (cases op)
  case (AdmitOp task st disp)
  have ins: "db_initial (insert_display k c t e) = db_initial e" for k c t e
    by (simp add: insert_display_def)
  show ?thesis
    by (rule perform_admit [OF assms [unfolded AdmitOp]])
      (auto simp: admit_new_def guard_simps Let_def ins split: option.splits)
next
  case (ReleaseOp f g)
  with assms show ?thesis by (auto simp: guard_simps intro: release_freezes)
next
  case (YieldOp f task items stage e)
  with assms show ?thesis
    by (cases "scheduled_claim d f")
      (auto simp: guard_simps yield_scheduled_claim_def Let_def split: option.splits)
next
  case (OutcomeOp f i r ev hint)
  with assms show ?thesis by (auto simp: guard_simps dest: outcome_initial)
qed (use assms in \<open>auto simp: guard_simps claim_next_scheduled_task_def claim_scheduled_task_def
    heartbeat_scheduled_claim_def request_scheduled_control_def begin_scheduled_mutation_def Let_def
    begin_scheduled_work_def requeue_scheduled_task_def requeue_scheduled_analysis_def resume_waiting_def
    publish_scheduled_task_def update_task_def update_sched_def publish_task_row_def
    dest: claim_in_transaction_initial item_ops_initial
    split: if_splits option.splits\<close>)

text \<open>The evidence of a Task's first execution stage is written once and counts what it claims to count:
  after any run the row is the one that was there, every row (old ones given) has disjoint outcome
  classes that fit in its item count, and no Task has two.\<close>

theorem first_stage_evidence_is_frozen:
  assumes "kernel_run A C d d'" "list_all stage_row_ok (db_initial d)"
    "distinct_rows x_task_id (db_initial d)"
  shows "(\<exists>new. db_initial d' = db_initial d @ new) \<and> list_all stage_row_ok (db_initial d') \<and>
    distinct_rows x_task_id (db_initial d')"
  using assms
proof (induction rule: kernel_run.induct)
  case (step d e op cap e')
  then obtain new where e: "db_initial e = db_initial d @ new" "list_all stage_row_ok (db_initial e)"
      "distinct_rows x_task_id (db_initial e)"
    by auto
  from perform_freezes [OF step.hyps(4)] show ?case
    unfolding freezes_def
  proof (elim disjE exE conjE)
    fix x
    assume "db_initial e' = db_initial e @ [x]" "stage_row_ok x" "find_row x_task_id (x_task_id x) (db_initial e) = None"
    with e show ?thesis by (auto simp: distinct_rows_def find_row_None)
  qed (use e in simp)
qed simp

theorem first_stage_evidence_is_frozen_witness:
  "\<exists>new. db_initial demo_settled = db_initial demo_db @ new"
proof -
  have "list_all stage_row_ok (db_initial demo_db)" "distinct_rows x_task_id (db_initial demo_db)"
    by (simp_all add: demo_db_def distinct_rows_def)
  from first_stage_evidence_is_frozen [OF demo_kernel_runs(4) this] show ?thesis by blast
qed

end
