(* ===== verification/Transfer_Claims.thy ===== *)
theory Transfer_Claims
  imports Kernel_Guards Kernel_Claim
begin

text \<open>
  The claim authority of durable Files transfers, in \<open>sqlite_runtime.py\<close>: the two claims, the
  running boundary, the mutation boundary, heartbeat, pause, re-queue, release and finish. Each is
  one guarded UPDATE of the \<open>files_transfers\<close> row; a claim selects its row by a query before it.
  Unlike a kernel Task, a transfer has no claim generation: ownership is its token alone.
\<close>

section \<open>Guards\<close>

definition active_transfer :: "transfer \<Rightarrow> bool" where
  "active_transfer t = (tr_status t \<in> {TransferAdmitted, TransferRunning})"

definition lease_elapsed :: "instant \<Rightarrow> transfer \<Rightarrow> bool" where
  "lease_elapsed now t = (case tr_expires_at t of None \<Rightarrow> True | Some e \<Rightarrow> e \<le> now)"

definition lease_unexpired :: "instant \<Rightarrow> transfer \<Rightarrow> bool" where
  "lease_unexpired now t = (case tr_expires_at t of None \<Rightarrow> True | Some e \<Rightarrow> e > now)"

definition get_files_transfer :: "db \<Rightarrow> string \<Rightarrow> transfer option" where
  "get_files_transfer d k = find_row tr_id k (db_transfers d)"

definition require_files_transfer :: "db \<Rightarrow> string \<Rightarrow> transfer result" where
  "require_files_transfer d k =
     (case get_files_transfer d k of None \<Rightarrow> Inl LookupError | Some t \<Rightarrow> Inr t)"

definition require_token :: "string \<Rightarrow> unit result" where
  "require_token tok = raise_if (strip tok = []) ValueError (Inr ())"

text \<open>One guarded UPDATE of a transfer row, and whether it changed a row.\<close>

definition update_transfer :: "(transfer \<Rightarrow> bool) \<Rightarrow> (transfer \<Rightarrow> transfer) \<Rightarrow> db \<Rightarrow> bool \<times> db" where
  "update_transfer P f d =
     (row_count P (db_transfers d) = 1, d\<lparr>db_transfers := update_rows P f (db_transfers d)\<rparr>)"

section \<open>Claims\<close>

definition supports_transfer :: "db \<Rightarrow> string list option \<Rightarrow> transfer \<Rightarrow> bool" where
  "supports_transfer d commands t =
     (case commands of None \<Rightarrow> True
      | Some cs \<Rightarrow> (case get_task d (tr_task_id t) of None \<Rightarrow> False | Some u \<Rightarrow> t_command u \<in> set cs))"

text \<open>\<open>in_flight\<close> tells the resolution claim from the ordinary one.\<close>

definition claimable_transfer :: "bool \<Rightarrow> instant \<Rightarrow> transfer \<Rightarrow> bool" where
  "claimable_transfer in_flight now t =
     (active_transfer t \<and> lease_elapsed now t \<and> ((tr_mutation_state t \<noteq> None) = in_flight))"

definition transfer_order :: "transfer \<Rightarrow> transfer \<Rightarrow> bool" where
  "transfer_order a b =
     (tr_updated_at a < tr_updated_at b \<or>
      (tr_updated_at a = tr_updated_at b \<and>
       (tr_created_at a < tr_created_at b \<or>
        (tr_created_at a = tr_created_at b \<and> text_le (tr_id a) (tr_id b)))))"

definition select_transfer :: "bool \<Rightarrow> instant \<Rightarrow> string list option \<Rightarrow> db \<Rightarrow> string option" where
  "select_transfer in_flight now commands d =
     map_option tr_id (least_row transfer_order
       (filter (\<lambda>t. claimable_transfer in_flight now t \<and> supports_transfer d commands t) (db_transfers d)))"

definition lease_transfer :: "string \<Rightarrow> string \<Rightarrow> instant \<Rightarrow> instant \<Rightarrow> transfer \<Rightarrow> transfer" where
  "lease_transfer worker_id token now expires t = t\<lparr>
     tr_worker := Some worker_id, tr_token := Some token, tr_claimed_at := Some now,
     tr_expires_at := Some expires, tr_attempts := tr_attempts t + 1, tr_updated_at := now\<rparr>"

text \<open>The UPDATE repeats the conditions of the query, so a row taken in between is not taken twice.\<close>

definition grant_transfer ::
  "bool \<Rightarrow> string \<Rightarrow> string \<Rightarrow> string \<Rightarrow> instant \<Rightarrow> instant \<Rightarrow> db \<Rightarrow> bool \<times> db" where
  "grant_transfer in_flight k worker_id token now expires =
     update_transfer (\<lambda>t. tr_id t = k \<and> claimable_transfer in_flight now t)
       (lease_transfer worker_id token now expires)"

definition claim_files_transfer ::
  "bool \<Rightarrow> datetime \<Rightarrow> string \<Rightarrow> string \<Rightarrow> pynum \<Rightarrow> string list option \<Rightarrow> (db, transfer option) tx" where
  "claim_files_transfer in_flight now worker_id token lease commands =
     bind_tx (return_tx (require_claim_values worker_id token lease)) (\<lambda>seconds.
     bind_tx (return_tx (require_aware now)) (\<lambda>t.
     if commands = Some [] then return_tx (Inr None)
     else bind_tx (read_tx (\<lambda>d. Inr (select_transfer in_flight t commands d))) (\<lambda>found.
       case found of
         None \<Rightarrow> return_tx (Inr None)
       | Some k \<Rightarrow>
           bind_tx (atomic (\<lambda>d. Inr (grant_transfer in_flight k worker_id token t (t + seconds_to_us seconds) d)))
             (\<lambda>granted. if granted then read_tx (\<lambda>d. Inr (get_files_transfer d k))
                        else return_tx (Inr None)))))"

definition claim_next_files_transfer ::
  "datetime \<Rightarrow> string \<Rightarrow> string \<Rightarrow> pynum \<Rightarrow> string list option \<Rightarrow> (db, transfer option) tx" where
  "claim_next_files_transfer = claim_files_transfer False"

definition claim_expired_files_transfer_mutation ::
  "datetime \<Rightarrow> string \<Rightarrow> string \<Rightarrow> pynum \<Rightarrow> string list option \<Rightarrow> (db, transfer option) tx" where
  "claim_expired_files_transfer_mutation = claim_files_transfer True"

section \<open>Steps of the claim owner\<close>

text \<open>The check every step opens with, then its guarded UPDATE.\<close>

definition owner_step ::
  "string \<Rightarrow> datetime \<Rightarrow> (instant \<Rightarrow> db \<Rightarrow> (bool \<times> db) result) \<Rightarrow> (db, bool) body" where
  "owner_step token now m d =
     bind_result (require_token token) (\<lambda>_. bind_result (require_aware now) (\<lambda>t. m t d))"

definition owned_transfer :: "string \<Rightarrow> string \<Rightarrow> transfer \<Rightarrow> bool" where
  "owned_transfer k token t = (tr_id t = k \<and> tr_token t = Some token)"

definition begin_files_transfer :: "string \<Rightarrow> string \<Rightarrow> datetime \<Rightarrow> (db, bool) body" where
  "begin_files_transfer k token now = owner_step token now (\<lambda>t d.
     Inr (update_transfer
       (\<lambda>r. owned_transfer k token r \<and> active_transfer r \<and> lease_unexpired t r)
       (\<lambda>r. r\<lparr>tr_status := TransferRunning, tr_error := None, tr_next_action := None,
              tr_updated_at := t\<rparr>) d))"

definition begin_files_transfer_mutation ::
  "string \<Rightarrow> string \<Rightarrow> datetime \<Rightarrow> string \<Rightarrow> string \<Rightarrow> string \<Rightarrow> (db, bool) body" where
  "begin_files_transfer_mutation k token now item_id entry_path action = owner_step token now (\<lambda>t d.
     raise_if (item_id = [] \<or> entry_path = [] \<or> action = []) ValueError
     (Inr (update_transfer
       (\<lambda>r. owned_transfer k token r \<and> active_transfer r \<and> lease_unexpired t r \<and>
            tr_mutation_state r = None)
       (\<lambda>r. r\<lparr>tr_mutation_state := Some transfer_mutation_in_flight, tr_flight_item := Some item_id,
              tr_flight_path := Some entry_path, tr_flight_action := Some action,
              tr_updated_at := t\<rparr>) d)))"

definition forget_flight :: "instant \<Rightarrow> transfer \<Rightarrow> transfer" where
  "forget_flight now r = r\<lparr>
     tr_mutation_state := None, tr_flight_item := None, tr_flight_path := None,
     tr_flight_action := None, tr_updated_at := now\<rparr>"

text \<open>\<open>_transfer_claim_locked\<close>: a blank token owns nothing, a naive instant is refused.\<close>

definition transfer_claim :: "db \<Rightarrow> string \<Rightarrow> string \<Rightarrow> datetime \<Rightarrow> bool result" where
  "transfer_claim d k token now =
     (if strip token = [] then Inr False
      else bind_result (require_aware now) (\<lambda>t.
        Inr (list_ex (\<lambda>r. owned_transfer k token r \<and> active_transfer r \<and> lease_unexpired t r)
              (db_transfers d))))"

definition transfer_claim_is_current :: "db \<Rightarrow> string \<Rightarrow> string \<Rightarrow> datetime \<Rightarrow> bool result" where
  "transfer_claim_is_current d k token now =
     (if strip token = [] then Inr False
      else bind_result (require_aware now) (\<lambda>t.
        Inr (list_ex (\<lambda>r. owned_transfer k token r \<and> tr_status r = TransferRunning \<and> lease_unexpired t r)
              (db_transfers d))))"

definition clear_files_transfer_mutation :: "string \<Rightarrow> string \<Rightarrow> datetime \<Rightarrow> (db, bool) body" where
  "clear_files_transfer_mutation k token now = owner_step token now (\<lambda>t d.
     bind_result (transfer_claim d k token now) (\<lambda>live.
     if \<not> live then Inr (False, d)
     else (let (hit, d') = update_transfer
             (\<lambda>r. owned_transfer k token r \<and> tr_mutation_state r = Some transfer_mutation_in_flight)
             (forget_flight t) d
           in Inr (hit, if hit then d' else d))))"

text \<open>The lease is the caller's number, unchecked here; \<open>timedelta\<close> takes any number.\<close>

definition heartbeat_files_transfer_claim :: "string \<Rightarrow> string \<Rightarrow> datetime \<Rightarrow> rat \<Rightarrow> (db, bool) body" where
  "heartbeat_files_transfer_claim k token now lease = owner_step token now (\<lambda>t d.
     Inr (update_transfer
       (\<lambda>r. owned_transfer k token r \<and> tr_status r = TransferRunning)
       (\<lambda>r. r\<lparr>tr_expires_at := Some (t + seconds_to_us lease), tr_updated_at := t\<rparr>) d))"

definition end_transfer :: "transfer \<Rightarrow> instant \<Rightarrow> transfer \<Rightarrow> transfer" where
  "end_transfer outcome now r = (forget_flight now r)\<lparr>
     tr_status := tr_status outcome, tr_error := tr_error outcome,
     tr_next_action := tr_next_action outcome, tr_completed_at := Some now\<rparr>"

definition finish_files_transfer :: "transfer \<Rightarrow> string \<Rightarrow> datetime \<Rightarrow> (db, bool) body" where
  "finish_files_transfer outcome token now = owner_step token now (\<lambda>t d.
     Inr (update_transfer (\<lambda>r. owned_transfer (tr_id outcome) token r \<and> active_transfer r)
       (end_transfer outcome t) d))"

definition disown_transfer :: "transfer_status \<Rightarrow> instant \<Rightarrow> transfer \<Rightarrow> transfer" where
  "disown_transfer s now r = r\<lparr>
     tr_status := s, tr_worker := None, tr_token := None, tr_claimed_at := None,
     tr_expires_at := None, tr_updated_at := now\<rparr>"

definition pause_files_transfer :: "string \<Rightarrow> string \<Rightarrow> datetime \<Rightarrow> (db, bool) body" where
  "pause_files_transfer k token now = owner_step token now (\<lambda>t d.
     Inr (update_transfer
       (\<lambda>r. owned_transfer k token r \<and> tr_status r = TransferRunning \<and> tr_mutation_state r = None)
       (disown_transfer TransferPaused t) d))"

definition requeueable_transfer :: "instant \<Rightarrow> transfer \<Rightarrow> bool" where
  "requeueable_transfer now r =
     (tr_status r \<in> {TransferPaused, TransferRunning} \<and> lease_elapsed now r \<and> tr_mutation_state r = None)"

text \<open>A refused re-queue raises, whatever the reason its message gives.\<close>

definition requeue_files_transfer :: "string \<Rightarrow> datetime \<Rightarrow> (db, transfer) body" where
  "requeue_files_transfer k now d =
     bind_result (require_aware now) (\<lambda>t.
     let (hit, d') = update_transfer (\<lambda>r. tr_id r = k \<and> requeueable_transfer t r)
           (\<lambda>r. (disown_transfer TransferAdmitted t r)\<lparr>tr_error := None, tr_next_action := None\<rparr>) d
     in if hit then bind_result (require_files_transfer d' k) (\<lambda>r. Inr (r, d'))
        else raise_if (get_files_transfer d k = None) LookupError (Inl ValueError))"

definition release_files_transfer_claim ::
  "string \<Rightarrow> string \<Rightarrow> datetime \<Rightarrow> string \<Rightarrow> string \<Rightarrow> (db, bool) body" where
  "release_files_transfer_claim k token now error next_action = owner_step token now (\<lambda>t d.
     Inr (update_transfer (\<lambda>r. owned_transfer k token r \<and> active_transfer r)
       (\<lambda>r. (disown_transfer TransferAdmitted t r)\<lparr>tr_error := Some error,
              tr_next_action := Some next_action\<rparr>) d))"

end
