(* ===== verification/File_Locks.thy ===== *)
theory File_Locks
  imports Transfer_Claims
begin

text \<open>
  The short-lived exclusions on source paths (\<open>acquire\<close> ... \<open>reclaim_task_locks\<close> of
  \<open>sqlite_runtime.py\<close>): one row per Storage and normalized path, owned by a Task under a generation
  (the owner token) that tells two Workers of the same Task apart.
\<close>

section \<open>Normalized paths\<close>

fun lock_parts :: "string list \<Rightarrow> string list result" where
  "lock_parts [] = Inr []"
| "lock_parts (part # rest) =
     (if part = [] \<or> part = ''.'' then lock_parts rest
      else raise_if (part = ''..'') ValueError
        (bind_result (lock_parts rest) (\<lambda>ps. Inr (part # ps))))"

definition lock_path :: "string \<Rightarrow> string result" where
  "lock_path path =
     bind_result (lock_parts (split_on (CHR ''/'') (replace_char (CHR 0x5C) (CHR ''/'') path)))
       (\<lambda>parts. raise_if (parts = []) ValueError (Inr (join_with ''/'' parts)))"

section \<open>Operations\<close>

text \<open>\<open>fresh\<close> is the random generation the repository mints when the caller names none.\<close>

definition lock_generation :: "string option \<Rightarrow> string \<Rightarrow> string" where
  "lock_generation given fresh =
     (case given of None \<Rightarrow> fresh | Some t \<Rightarrow> if strip t = [] then fresh else t)"

definition acquire_lock ::
  "string \<Rightarrow> string \<Rightarrow> string \<Rightarrow> instant \<Rightarrow> string option \<Rightarrow> string \<Rightarrow> (db, bool) body" where
  "acquire_lock storage_id path task_id acquired_at token fresh d =
     bind_result (lock_path path) (\<lambda>p.
     (case insert_row lock_key
             \<lparr>l_storage_id = storage_id, l_path = p, l_task_id = task_id, l_acquired_at = acquired_at,
              l_owner_token = lock_generation token fresh\<rparr> (db_locks d) of
        Inl _ \<Rightarrow> Inr (False, d)
      | Inr rows \<Rightarrow> Inr (True, d\<lparr>db_locks := rows\<rparr>)))"

text \<open>A transfer fence is a transfer, its claim token and an instant; a lost one answers without writing.\<close>

definition fence_lost :: "db \<Rightarrow> (string \<times> string \<times> datetime) option \<Rightarrow> bool result" where
  "fence_lost d fence =
     (case fence of None \<Rightarrow> Inr False
      | Some (k, token, now) \<Rightarrow> bind_result (transfer_claim d k token now) (\<lambda>live. Inr (\<not> live)))"

definition adopt_or_acquire_lock ::
  "string \<Rightarrow> string \<Rightarrow> string \<Rightarrow> datetime \<Rightarrow> string \<Rightarrow> (string \<times> string \<times> datetime) option \<Rightarrow>
   (db, bool) body" where
  "adopt_or_acquire_lock storage_id path task_id acquired_at token fence d =
     raise_if (strip token = []) ValueError
     (raise_if (task_id = []) ValueError
     (bind_result (require_aware acquired_at) (\<lambda>t.
      bind_result (lock_path path) (\<lambda>p.
      bind_result (fence_lost d fence) (\<lambda>lost.
      if lost then Inr (False, d)
      else (case find_row lock_key (storage_id, p) (db_locks d) of
              Some l \<Rightarrow>
                if l_task_id l \<noteq> task_id then Inr (False, d)
                else Inr (True, d\<lparr>db_locks := update_rows
                       (\<lambda>r. lock_key r = (storage_id, p) \<and> l_task_id r = task_id)
                       (\<lambda>r. r\<lparr>l_owner_token := token, l_acquired_at := t\<rparr>) (db_locks d)\<rparr>)
            | None \<Rightarrow>
                bind_result (insert_row lock_key
                  \<lparr>l_storage_id = storage_id, l_path = p, l_task_id = task_id, l_acquired_at = t,
                   l_owner_token = token\<rparr> (db_locks d)) (\<lambda>rows.
                Inr (True, d\<lparr>db_locks := rows\<rparr>))))))))"

definition rotate_task_locks ::
  "string \<Rightarrow> string \<Rightarrow> (string \<times> string \<times> datetime) option \<Rightarrow> (db, nat) body" where
  "rotate_task_locks task_id token fence d =
     raise_if (strip token = []) ValueError
     (raise_if (task_id = []) ValueError
     (bind_result (fence_lost d fence) (\<lambda>lost.
      if lost then Inr (0, d)
      else Inr (row_count (\<lambda>r. l_task_id r = task_id) (db_locks d),
                d\<lparr>db_locks := update_rows (\<lambda>r. l_task_id r = task_id)
                    (\<lambda>r. r\<lparr>l_owner_token := token\<rparr>) (db_locks d)\<rparr>))))"

definition owned_lock :: "string \<Rightarrow> string option \<Rightarrow> file_lock \<Rightarrow> bool" where
  "owned_lock task_id token l =
     (l_task_id l = task_id \<and> (case token of None \<Rightarrow> True | Some t \<Rightarrow> l_owner_token l = t))"

definition lock_owned :: "string \<Rightarrow> string \<Rightarrow> string \<Rightarrow> string option \<Rightarrow> db \<Rightarrow> bool result" where
  "lock_owned storage_id path task_id token d =
     bind_result (lock_path path) (\<lambda>p.
     Inr (list_ex (\<lambda>l. lock_key l = (storage_id, p) \<and> owned_lock task_id token l) (db_locks d)))"

definition release_lock :: "string \<Rightarrow> string \<Rightarrow> string \<Rightarrow> string option \<Rightarrow> (db, bool) body" where
  "release_lock storage_id path task_id token d =
     bind_result (lock_path path) (\<lambda>p.
     let mine = (\<lambda>l. lock_key l = (storage_id, p) \<and> owned_lock task_id token l) in
     Inr (row_count mine (db_locks d) = 1, d\<lparr>db_locks := delete_rows mine (db_locks d)\<rparr>))"

definition reclaim_task_locks :: "string \<Rightarrow> string option \<Rightarrow> (db, nat) body" where
  "reclaim_task_locks task_id token d =
     Inr (row_count (owned_lock task_id token) (db_locks d),
          d\<lparr>db_locks := delete_rows (owned_lock task_id token) (db_locks d)\<rparr>)"

section \<open>Laws of normalization\<close>

text \<open>The parts of a normalized path: no separator, nothing empty, no dot and no parent.\<close>

definition clean_part :: "string \<Rightarrow> bool" where
  "clean_part p = (p \<noteq> [] \<and> p \<noteq> ''.'' \<and> p \<noteq> ''..'')"

lemma lock_parts_Inr:
  "lock_parts xs = Inr ps \<Longrightarrow> set ps \<subseteq> set xs \<and> list_all clean_part ps"
proof (induction xs arbitrary: ps)
  case (Cons x xs)
  then show ?case
    by (auto simp: guard_simps clean_part_def split: if_splits)
qed simp

lemma lock_parts_clean: "list_all clean_part ps \<Longrightarrow> lock_parts ps = Inr ps"
  by (induction ps) (auto simp: clean_part_def)

end
