(* ===== verification/Transfer_Publication.thy ===== *)
theory Transfer_Publication
  imports File_Locks Kernel_Items
begin

text \<open>
  Admission of a Files transfer with its Task and items, and the publications its claim owner makes:
  one item, one item with its outcome, the Task aggregate, and the convergence of a failed pass.
\<close>

section \<open>Admission\<close>

definition insert_item :: "pitem \<Rightarrow> db \<Rightarrow> db result" where
  "insert_item i d =
     raise_if (item_row_of d (i_id i) \<noteq> None \<or> item_source_taken (db_items d) i) IntegrityError
     (Inr (d\<lparr>db_items := db_items d @ [\<lparr>ir_item = item_columns i, ir_superseded_by = None\<rparr>]\<rparr>))"

fun insert_items :: "pitem list \<Rightarrow> db \<Rightarrow> db result" where
  "insert_items [] d = Inr d"
| "insert_items (i # is) d = bind_result (insert_item i d) (insert_items is)"

text \<open>The primary key, and the UNIQUE Task of a transfer.\<close>

definition insert_transfer :: "transfer \<Rightarrow> db \<Rightarrow> db result" where
  "insert_transfer t d =
     raise_if (list_ex (\<lambda>r. tr_task_id r = tr_task_id t) (db_transfers d)) IntegrityError
     (bind_result (insert_row tr_id t (db_transfers d)) (\<lambda>rs. Inr (d\<lparr>db_transfers := rs\<rparr>)))"

definition get_files_transfer_for_task :: "db \<Rightarrow> string \<Rightarrow> transfer option" where
  "get_files_transfer_for_task d k = find_row tr_task_id k (db_transfers d)"

definition same_transfer_admission :: "ptask \<Rightarrow> transfer option \<Rightarrow> ptask \<Rightarrow> transfer \<Rightarrow> bool" where
  "same_transfer_admission stored_task stored task t =
     (case stored of None \<Rightarrow> False
      | Some s \<Rightarrow>
          t_command stored_task = t_command task \<and> tr_id s = tr_id t \<and>
          tr_authority s = tr_authority t \<and> tr_snapshot_id s = tr_snapshot_id t \<and>
          tr_snapshot_digest s = tr_snapshot_digest t)"

definition admit_files_transfer ::
  "ptask \<Rightarrow> pitem list \<Rightarrow> transfer \<Rightarrow> display_context option \<Rightarrow> (db, unit) body" where
  "admit_files_transfer task items t display d =
     (case get_task d (t_id task) of
        Some stored \<Rightarrow>
          raise_if (\<not> same_transfer_admission stored (get_files_transfer_for_task d (t_id task)) task t)
            ValueError (Inr ((), d))
      | None \<Rightarrow>
          bind_result (insert_row t_id task (db_tasks d)) (\<lambda>ts.
          bind_result (insert_items items (d\<lparr>db_tasks := ts\<rparr>)) (\<lambda>d1.
          bind_result (insert_transfer t d1) (\<lambda>d2.
          Inr ((), case display of None \<Rightarrow> d2
                   | Some c \<Rightarrow> insert_display (t_id task) c (t_created_at task) d2)))))"

section \<open>Publications of the claim owner\<close>

definition reject_scheduling_managed_task :: "db \<Rightarrow> string \<Rightarrow> unit result" where
  "reject_scheduling_managed_task d k =
     raise_if (scheduled_state d k \<noteq> None) TaskSchedulingBypass (Inr ())"

definition clear_mutation_locked :: "string \<Rightarrow> string \<Rightarrow> instant \<Rightarrow> db \<Rightarrow> db" where
  "clear_mutation_locked k token now d =
     snd (update_transfer (\<lambda>r. owned_transfer k token r \<and> tr_mutation_state r \<noteq> None)
            (forget_flight now) d)"

text \<open>The shape of the three guarded publications: refuse a kernel Task, then write under a live claim.\<close>

definition under_transfer_claim ::
  "string \<Rightarrow> string \<Rightarrow> string \<Rightarrow> datetime \<Rightarrow> (instant \<Rightarrow> db \<Rightarrow> db result) \<Rightarrow> (db, bool) body" where
  "under_transfer_claim task_id k token now write d =
     bind_result (reject_scheduling_managed_task d task_id) (\<lambda>_.
     bind_result (transfer_claim d k token now) (\<lambda>live.
     if \<not> live then Inr (False, d)
     else bind_result (require_aware now) (\<lambda>t. bind_result (write t d) (\<lambda>d'. Inr (True, d')))))"

definition upsert_item_guarded :: "pitem \<Rightarrow> string \<Rightarrow> string \<Rightarrow> datetime \<Rightarrow> (db, bool) body" where
  "upsert_item_guarded item k token now =
     under_transfer_claim (i_task_id item) k token now (\<lambda>t d.
       bind_result (upsert_item item d) (\<lambda>d1. Inr (clear_mutation_locked k token t d1)))"

definition complete_item_with_evidence_guarded ::
  "pitem \<Rightarrow> string list presult \<Rightarrow> evidence option \<Rightarrow> string \<Rightarrow> string \<Rightarrow> datetime \<Rightarrow> (db, bool) body" where
  "complete_item_with_evidence_guarded item r ev k token now =
     under_transfer_claim (i_task_id item) k token now (\<lambda>t d.
       bind_result (insert_result r True d) (\<lambda>d1.
       bind_result (upsert_item item d1) (\<lambda>d2.
       let d3 = (case ev of None \<Rightarrow> d2 | Some e \<Rightarrow> append_evidence e d2)
       in Inr (clear_mutation_locked k token t d3))))"

definition write_task :: "ptask \<Rightarrow> db \<Rightarrow> db" where
  "write_task task = update_task (t_id task) (\<lambda>_. task)"

definition update_task_guarded :: "ptask \<Rightarrow> string \<Rightarrow> string \<Rightarrow> datetime \<Rightarrow> (db, bool) body" where
  "update_task_guarded task k token now =
     under_transfer_claim (t_id task) k token now (\<lambda>t d.
       raise_if (get_task d (t_id task) = None) LookupError (Inr (write_task task d)))"

fun upsert_items :: "pitem list \<Rightarrow> db \<Rightarrow> db result" where
  "upsert_items [] d = Inr d"
| "upsert_items (i # is) d = bind_result (upsert_item i d) (upsert_items is)"

fun insert_results :: "string list presult list \<Rightarrow> db \<Rightarrow> db result" where
  "insert_results [] d = Inr d"
| "insert_results (r # rs) d = bind_result (insert_result r True d) (insert_results rs)"

definition converge_files_transfer_failure ::
  "transfer \<Rightarrow> string \<Rightarrow> datetime \<Rightarrow> ptask option \<Rightarrow> pitem list \<Rightarrow> string list presult list \<Rightarrow>
   (db, bool) body" where
  "converge_files_transfer_failure outcome token now task items results d =
     bind_result (transfer_claim d (tr_id outcome) token now) (\<lambda>live.
     if \<not> live then Inr (False, d)
     else bind_result (require_aware now) (\<lambda>t.
       let (hit, d1) = update_transfer
             (\<lambda>r. owned_transfer (tr_id outcome) token r \<and> active_transfer r)
             (end_transfer outcome t) d
       in if \<not> hit then Inr (False, d)
          else bind_result (upsert_items items
                 (case task of None \<Rightarrow> d1 | Some u \<Rightarrow> write_task u d1)) (\<lambda>d2.
               bind_result (insert_results results d2) (\<lambda>d3. Inr (True, d3)))))"

end
