(* ===== verification/Transfer_Machine.thy ===== *)
theory Transfer_Machine
  imports Transfer_Publication Kernel_Invariants
begin

text \<open>
  Files transfers and the Task kernel over one database: the lifecycle of one transfer row as a step
  relation, the operations of both components as one machine, and what each leaves of the other's
  tables.
\<close>

section \<open>The lifecycle of a transfer row\<close>

text \<open>Who moves a row: a claim granting a token at an instant, the holder of a token, or the operator.\<close>

datatype tmove = TmGrant bool string instant | TmOwner string | TmRequeue

inductive transfer_step :: "tmove \<Rightarrow> transfer \<Rightarrow> transfer \<Rightarrow> bool" where
  grant: "claimable_transfer fl now t \<Longrightarrow> transfer_step (TmGrant fl tok now) t (lease_transfer w tok now e t)"
| begin_work: "\<lbrakk>tr_token t = Some tok; active_transfer t; lease_unexpired now t\<rbrakk>
    \<Longrightarrow> transfer_step (TmOwner tok) t
          (t\<lparr>tr_status := TransferRunning, tr_error := None, tr_next_action := None, tr_updated_at := now\<rparr>)"
| mutate: "\<lbrakk>tr_token t = Some tok; active_transfer t; lease_unexpired now t; tr_mutation_state t = None\<rbrakk>
    \<Longrightarrow> transfer_step (TmOwner tok) t
          (t\<lparr>tr_mutation_state := Some transfer_mutation_in_flight, tr_flight_item := Some i,
             tr_flight_path := Some p, tr_flight_action := Some a, tr_updated_at := now\<rparr>)"
| forget: "\<lbrakk>tr_token t = Some tok; active_transfer t; tr_mutation_state t \<noteq> None\<rbrakk>
    \<Longrightarrow> transfer_step (TmOwner tok) t (forget_flight now t)"
| beat: "\<lbrakk>tr_token t = Some tok; tr_status t = TransferRunning\<rbrakk>
    \<Longrightarrow> transfer_step (TmOwner tok) t (t\<lparr>tr_expires_at := Some e, tr_updated_at := now\<rparr>)"
| finish: "\<lbrakk>tr_token t = Some tok; active_transfer t\<rbrakk>
    \<Longrightarrow> transfer_step (TmOwner tok) t (end_transfer outcome now t)"
| pause: "\<lbrakk>tr_token t = Some tok; tr_status t = TransferRunning; tr_mutation_state t = None\<rbrakk>
    \<Longrightarrow> transfer_step (TmOwner tok) t (disown_transfer TransferPaused now t)"
| requeue: "requeueable_transfer now t
    \<Longrightarrow> transfer_step TmRequeue t
          ((disown_transfer TransferAdmitted now t)\<lparr>tr_error := None, tr_next_action := None\<rparr>)"
| release: "\<lbrakk>tr_token t = Some tok; active_transfer t\<rbrakk>
    \<Longrightarrow> transfer_step (TmOwner tok) t
          ((disown_transfer TransferAdmitted now t)\<lparr>tr_error := Some er, tr_next_action := Some na\<rparr>)"

inductive_cases transfer_stepE: "transfer_step m t t'"
inductive_simps transfer_step_requeue_simp: "transfer_step TmRequeue t t'"

lemmas transfer_updates = lease_transfer_def forget_flight_def end_transfer_def disown_transfer_def
  active_transfer_def requeueable_transfer_def claimable_transfer_def

lemma transfer_step_key: "transfer_step m t t' \<Longrightarrow> tr_id t' = tr_id t \<and> tr_task_id t' = tr_task_id t"
  by (erule transfer_stepE) (simp_all add: transfer_updates)

lemma transfer_step_pin:
  "transfer_step m t t' \<Longrightarrow> tr_authority t' = tr_authority t \<and> tr_snapshot_id t' = tr_snapshot_id t \<and>
    tr_snapshot_digest t' = tr_snapshot_digest t \<and> tr_created_at t' = tr_created_at t"
  by (erule transfer_stepE) (simp_all add: transfer_updates)

text \<open>No step leaves a terminal row.\<close>

lemma transfer_step_live: "transfer_step m t t' \<Longrightarrow> \<not> terminal_transfer (tr_status t)"
  by (erule transfer_stepE) (auto simp: transfer_updates terminal_transfer_def)

text \<open>An in-flight boundary yields only to its owner, or to a claim that resolves it.\<close>

lemma transfer_step_flight:
  "transfer_step m t t' \<Longrightarrow> tr_mutation_state t \<noteq> None \<Longrightarrow>
    (\<exists>tok now. m = TmGrant True tok now \<and> lease_elapsed now t) \<or> (\<exists>tok. m = TmOwner tok \<and> tr_token t = Some tok)"
  by (erule transfer_stepE) (auto simp: transfer_updates)

lemma transfer_step_holder:
  "transfer_step m t t' \<Longrightarrow> tr_token t' = tr_token t \<or> tr_token t' = None \<or>
    (\<exists>fl tok now. m = TmGrant fl tok now \<and> tr_token t' = Some tok)"
  by (erule transfer_stepE) (auto simp: transfer_updates)

text \<open>What a boundary records, in every row of a reachable database.\<close>

definition transfer_ok :: "transfer \<Rightarrow> bool" where
  "transfer_ok t =
     (tr_mutation_state t \<noteq> None \<longrightarrow>
        active_transfer t \<and> tr_mutation_state t = Some transfer_mutation_in_flight \<and>
        tr_flight_item t \<noteq> None \<and> tr_flight_path t \<noteq> None \<and> tr_flight_action t \<noteq> None)"

lemma transfer_step_ok: "transfer_step m t t' \<Longrightarrow> transfer_ok t \<Longrightarrow> transfer_ok t'"
  by (erule transfer_stepE) (auto simp: transfer_ok_def transfer_updates)

section \<open>Tokens\<close>

text \<open>
  The interface of a resource held under a token: a step hands out a token only where it grants one.
  A token that is not held, and not granted again, is never held again.
\<close>

locale token_claim =
  fixes holder :: "'s \<Rightarrow> 't option" and granted :: "'m \<Rightarrow> 't option"
    and moves :: "'m \<Rightarrow> 's \<Rightarrow> 's \<Rightarrow> bool"
  assumes handed: "moves m s s' \<Longrightarrow> holder s' = holder s \<or> holder s' = None \<or> holder s' = granted m"
begin

lemma not_handed: "moves m s s' \<Longrightarrow> granted m \<noteq> Some tok \<Longrightarrow> holder s \<noteq> Some tok \<Longrightarrow> holder s' \<noteq> Some tok"
  using handed by fastforce

lemma stays_lost:
  assumes "(\<lambda>s s'. \<exists>m. granted m \<noteq> Some tok \<and> moves m s s')\<^sup>*\<^sup>* s s'" "holder s \<noteq> Some tok"
  shows "holder s' \<noteq> Some tok"
  using assms
proof (induction rule: rtranclp_induct)
  case (step y z)
  then obtain m where m: "granted m \<noteq> Some tok" "moves m y z" by blast
  from not_handed [OF m(2,1)] step show ?case by blast
qed

end

fun granted_token :: "tmove \<Rightarrow> string option" where
  "granted_token (TmGrant fl tok now) = Some tok"
| "granted_token m = None"

interpretation transfer_token: token_claim tr_token granted_token transfer_step
  by unfold_locales (auto dest: transfer_step_holder)

text \<open>The kernel's rows obey the same law, with their own grants.\<close>

definition row_grant :: "move \<times> string option \<Rightarrow> string option" where
  "row_grant m = (if fst m = MClaim then snd m else None)"

definition row_grant_step :: "move \<times> string option \<Rightarrow> sched \<Rightarrow> sched \<Rightarrow> bool" where
  "row_grant_step m s s' = (row_step (fst m) s s' \<and> (fst m = MClaim \<longrightarrow> snd m = s_token s'))"

interpretation kernel_token: token_claim s_token row_grant row_grant_step
  by unfold_locales (auto simp: row_grant_step_def row_grant_def row_updates elim!: row_stepE)

section \<open>Operations\<close>

datatype transfer_op =
    TAdmit ptask "pitem list" transfer "display_context option"
  | TGrant bool string string string instant instant
  | TBegin string string datetime
  | TMutate string string datetime string string string
  | TClear string string datetime
  | TBeat string string datetime rat
  | TFinish transfer string datetime
  | TPause string string datetime
  | TRequeue string datetime
  | TRelease string string datetime string string
  | TItem pitem string string datetime
  | TOutcome pitem "string list presult" "evidence option" string string datetime
  | TTask ptask string string datetime
  | TConverge transfer string datetime "ptask option" "pitem list" "string list presult list"
  | LAcquire string string string instant "string option" string
  | LAdopt string string string datetime string "(string \<times> string \<times> datetime) option"
  | LRotate string string "(string \<times> string \<times> datetime) option"
  | LRelease string string string "string option"
  | LReclaim string "string option"

fun perform_transfer :: "transfer_op \<Rightarrow> db \<Rightarrow> db result" where
  "perform_transfer (TAdmit task items t disp) d = commit (admit_files_transfer task items t disp d)"
| "perform_transfer (TGrant fl k w tok now e) d = Inr (snd (grant_transfer fl k w tok now e d))"
| "perform_transfer (TBegin k tok now) d = commit (begin_files_transfer k tok now d)"
| "perform_transfer (TMutate k tok now i p a) d = commit (begin_files_transfer_mutation k tok now i p a d)"
| "perform_transfer (TClear k tok now) d = commit (clear_files_transfer_mutation k tok now d)"
| "perform_transfer (TBeat k tok now lease) d = commit (heartbeat_files_transfer_claim k tok now lease d)"
| "perform_transfer (TFinish t tok now) d = commit (finish_files_transfer t tok now d)"
| "perform_transfer (TPause k tok now) d = commit (pause_files_transfer k tok now d)"
| "perform_transfer (TRequeue k now) d = commit (requeue_files_transfer k now d)"
| "perform_transfer (TRelease k tok now er na) d = commit (release_files_transfer_claim k tok now er na d)"
| "perform_transfer (TItem i k tok now) d = commit (upsert_item_guarded i k tok now d)"
| "perform_transfer (TOutcome i r ev k tok now) d =
     commit (complete_item_with_evidence_guarded i r ev k tok now d)"
| "perform_transfer (TTask task k tok now) d = commit (update_task_guarded task k tok now d)"
| "perform_transfer (TConverge t tok now task items rs) d =
     commit (converge_files_transfer_failure t tok now task items rs d)"
| "perform_transfer (LAcquire sid p k t0 given fresh) d = commit (acquire_lock sid p k t0 given fresh d)"
| "perform_transfer (LAdopt sid p k t0 tok f) d = commit (adopt_or_acquire_lock sid p k t0 tok f d)"
| "perform_transfer (LRotate k tok f) d = commit (rotate_task_locks k tok f d)"
| "perform_transfer (LRelease sid p k tok) d = commit (release_lock sid p k tok d)"
| "perform_transfer (LReclaim k tok) d = commit (reclaim_task_locks k tok d)"

text \<open>The row move of an operation, and the transfer it names.\<close>

fun transfer_move :: "transfer_op \<Rightarrow> (string \<times> tmove) option" where
  "transfer_move (TGrant fl k w tok now e) = Some (k, TmGrant fl tok now)"
| "transfer_move (TBegin k tok now) = Some (k, TmOwner tok)"
| "transfer_move (TMutate k tok now i p a) = Some (k, TmOwner tok)"
| "transfer_move (TClear k tok now) = Some (k, TmOwner tok)"
| "transfer_move (TBeat k tok now lease) = Some (k, TmOwner tok)"
| "transfer_move (TFinish t tok now) = Some (tr_id t, TmOwner tok)"
| "transfer_move (TPause k tok now) = Some (k, TmOwner tok)"
| "transfer_move (TRequeue k now) = Some (k, TmRequeue)"
| "transfer_move (TRelease k tok now er na) = Some (k, TmOwner tok)"
| "transfer_move (TItem i k tok now) = Some (k, TmOwner tok)"
| "transfer_move (TOutcome i r ev k tok now) = Some (k, TmOwner tok)"
| "transfer_move (TConverge t tok now task items rs) = Some (tr_id t, TmOwner tok)"
| "transfer_move op = None"

text \<open>How the table may change: every row stays or makes one step of this kind.\<close>

definition moved :: "(string \<times> tmove) option \<Rightarrow> transfer \<Rightarrow> transfer \<Rightarrow> bool" where
  "moved m t t' = (t' = t \<or> (\<exists>mv. m = Some (tr_id t, mv) \<and> transfer_step mv t t'))"

definition transfers_move :: "(string \<times> tmove) option \<Rightarrow> transfer list \<Rightarrow> transfer list \<Rightarrow> bool" where
  "transfers_move m = list_all2 (moved m)"

lemma moved_refl [simp, intro]: "moved m t t"
  by (simp add: moved_def)

lemma moved_step: "transfer_step mv t t' \<Longrightarrow> tr_id t = k \<Longrightarrow> moved (Some (k, mv)) t t'"
  by (simp add: moved_def)

lemma transfers_move_refl [simp, intro]: "transfers_move m ts ts"
  by (simp add: transfers_move_def list.rel_refl)

lemma transfers_move_update:
  "(\<And>t. t \<in> set ts \<Longrightarrow> P t \<Longrightarrow> tr_id t = k \<and> transfer_step mv t (f t)) \<Longrightarrow>
    transfers_move (Some (k, mv)) ts (update_rows P f ts)"
  unfolding transfers_move_def by (induction ts) (auto simp: update_rows_def intro: moved_step)

lemma transfers_move_keys: "transfers_move m ts us \<Longrightarrow> map tr_id us = map tr_id ts"
  unfolding transfers_move_def
  by (induction rule: list_all2_induct) (auto simp: moved_def dest: transfer_step_key)

section \<open>What the kernel leaves of the transfers\<close>

named_theorems transfers_kept

lemma transfers_kept_writes [transfers_kept]:
  "db_transfers (update_task k f d) = db_transfers d"
  "db_transfers (update_sched k f' d) = db_transfers d"
  "db_transfers (publish_task_row t d) = db_transfers d"
  "db_transfers (append_evidence e d) = db_transfers d"
  "db_transfers (insert_display k c now d) = db_transfers d"
  "db_transfers (record_initial_execution k l st now d) = db_transfers d"
  "db_transfers (publish_discovery_control v ct now d) = db_transfers d"
  "db_transfers (close_recorded_boundary g now s d) = db_transfers d"
  by (simp_all add: update_task_def update_sched_def publish_task_row_def append_evidence_def
      insert_display_def record_initial_execution_def publish_discovery_control_def
      close_recorded_boundary_def)

lemma upsert_item_transfers [transfers_kept]: "upsert_item i d = Inr d' \<Longrightarrow> db_transfers d' = db_transfers d"
  by (auto simp: upsert_item_def guard_simps)

lemma insert_result_transfers [transfers_kept]: "insert_result r b d = Inr d' \<Longrightarrow> db_transfers d' = db_transfers d"
  by (auto simp: insert_result_def guard_simps Let_def)

lemma release_items_transfers [transfers_kept]:
  "publish_release_items k is d = Inr d' \<Longrightarrow> db_transfers d' = db_transfers d"
  by (induction "is" arbitrary: d) (auto simp: guard_simps transfers_kept split: if_splits)

lemma manual_execution_transfers [transfers_kept]:
  "publish_manual_execution c e is d = Inr d' \<Longrightarrow> db_transfers d' = db_transfers d"
  by (auto simp: publish_manual_execution_def guard_simps Let_def)

lemma release_writes_transfers:
  assumes "release_writes g now s d = Inr d'"
  shows "db_transfers d' = db_transfers d"
  using assms
  by (auto simp: release_writes_def guard_simps Let_def transfers_kept split: option.splits)

lemma claim_transfers:
  "claim_in_transaction only now w tok lease d = Inr (r, d') \<Longrightarrow> db_transfers d' = db_transfers d"
  unfolding claim_in_transaction_def Let_def bind_result_def
  by (cases "scheduled_worker d w now"; auto split: option.splits if_splits)

lemma outcome_transfers:
  "publish_scheduled_item_outcome f i r ev hint d = Inr (x, d') \<Longrightarrow> db_transfers d' = db_transfers d"
  by (cases "scheduled_claim d f")
    (auto simp: publish_scheduled_item_outcome_def guard_simps Let_def insert_result_conflict
      transfers_kept split: option.splits)

lemma admit_new_transfers: "admit_new task st disp d = Inr d' \<Longrightarrow> db_transfers d' = db_transfers d"
  by (auto simp: admit_new_def guard_simps Let_def transfers_kept split: option.splits)

lemma kernel_keeps_transfers:
  assumes "perform cap op d = Inr d'"
  shows "db_transfers d' = db_transfers d"
proof (cases op)
  case (AdmitOp task st disp)
  with assms have "perform cap (AdmitOp task st disp) d = Inr d'" by simp
  then show ?thesis by (rule perform_admit) (auto dest: admit_new_transfers)
next
  case (ReleaseOp f g)
  with assms obtain r where "release_scheduled_claim f g d = Inr (r, d')" by (auto simp: guard_simps)
  from release_Some [OF this] show ?thesis
    by (auto simp: Let_def transfers_kept dest!: release_writes_transfers)
next
  case (OutcomeOp f i r ev hint)
  with assms show ?thesis by (auto simp: guard_simps dest: outcome_transfers)
next
  case (ClaimNextOp now w tok lease)
  with assms show ?thesis
    by (auto simp: guard_simps claim_next_scheduled_task_def dest: claim_transfers)
next
  case (ClaimOp k now w tok lease)
  with assms show ?thesis
    by (auto simp: guard_simps claim_scheduled_task_def dest: claim_transfers)
next
  case (YieldOp f task items stage e)
  with assms show ?thesis
    by (auto simp: guard_simps yield_scheduled_claim_def Let_def transfers_kept
        split: if_splits option.splits)
next
  case (RequeueOp k sid dig n now stage e actor)
  with assms show ?thesis
    by (auto simp: guard_simps requeue_scheduled_task_def Let_def transfers_kept
        split: if_splits option.splits)
next
  case (ReanalyzeOp k v n now stage)
  with assms show ?thesis
    by (auto simp: guard_simps requeue_scheduled_analysis_def Let_def transfers_kept split: if_splits)
qed (use assms in \<open>auto simp: guard_simps heartbeat_scheduled_claim_def begin_scheduled_work_def
    request_scheduled_control_def resume_waiting_def upsert_scheduled_item_def
    begin_scheduled_item_with_ownership_def begin_scheduled_mutation_def publish_scheduled_task_def
    Let_def transfers_kept split: if_splits option.splits\<close>)

section \<open>What an operation does to the transfers\<close>

lemma update_transfer_rows: "update_transfer P f d = (hit, d') \<Longrightarrow> db_transfers d' = update_rows P f (db_transfers d)"
  by (auto simp: update_transfer_def)

lemma update_transfer_moves:
  assumes "update_transfer P f d = (hit, d')" "\<And>t. P t \<Longrightarrow> tr_id t = k \<and> transfer_step mv t (f t)"
  shows "transfers_move (Some (k, mv)) (db_transfers d) (db_transfers d')"
  using assms by (simp add: update_transfer_rows transfers_move_update)

lemma claim_row:
  assumes "transfer_claim d k tok now = Inr True"
  obtains r t where "now = Aware t" "r \<in> set (db_transfers d)" "owned_transfer k tok r"
    "active_transfer r" "lease_unexpired t r"
  using assms by (auto simp: transfer_claim_def guard_simps list_ex_iff split: if_splits)

text \<open>A live claim is on the one row of its key, so what its owner clears is active.\<close>

lemma clear_moves:
  assumes "distinct_rows tr_id (db_transfers d)" "transfer_claim d k tok now = Inr True"
    and "\<And>r. P r \<Longrightarrow> owned_transfer k tok r \<and> tr_mutation_state r \<noteq> None"
  shows "transfers_move (Some (k, TmOwner tok)) (db_transfers d) (update_rows P (forget_flight u) (db_transfers d))"
proof (rule transfers_move_update)
  fix r assume r: "r \<in> set (db_transfers d)" "P r"
  from assms(2) obtain q where q: "q \<in> set (db_transfers d)" "owned_transfer k tok q" "active_transfer q"
    by (rule claim_row)
  from r q assms(3) have "tr_id r = k" "tr_id q = k" by (auto simp: owned_transfer_def)
  with assms(1) r(1) q(1) have "r = q" by (metis find_row_mem option.inject)
  with q assms(3) r(2) show "tr_id r = k \<and> transfer_step (TmOwner tok) r (forget_flight u r)"
    by (auto simp: owned_transfer_def intro: forget)
qed

lemma under_claim_moves:
  assumes "under_transfer_claim j k tok now write d = Inr (b, d')" "distinct_rows tr_id (db_transfers d)"
    and "\<And>t d'. transfer_claim d k tok now = Inr True \<Longrightarrow> write t d = Inr d' \<Longrightarrow>
      transfers_move m (db_transfers d) (db_transfers d')"
  shows "transfers_move m (db_transfers d) (db_transfers d')"
  using assms by (auto simp: under_transfer_claim_def guard_simps split: if_splits)

lemma clear_locked_moves:
  assumes "transfer_claim d k tok now = Inr True" "distinct_rows tr_id (db_transfers d)"
    and "db_transfers e = db_transfers d"
  shows "transfers_move (Some (k, TmOwner tok)) (db_transfers d) (db_transfers (clear_mutation_locked k tok u e))"
  using assms by (auto simp: clear_mutation_locked_def update_transfer_def intro!: clear_moves [where k = k and now = now])

lemma insert_item_transfers: "insert_item i d = Inr d' \<Longrightarrow> db_transfers d' = db_transfers d"
  by (auto simp: insert_item_def guard_simps)

lemma insert_items_transfers: "insert_items is d = Inr d' \<Longrightarrow> db_transfers d' = db_transfers d"
  by (induction "is" arbitrary: d) (auto simp: guard_simps dest: insert_item_transfers)

lemma upsert_items_transfers: "upsert_items is d = Inr d' \<Longrightarrow> db_transfers d' = db_transfers d"
  by (induction "is" arbitrary: d) (auto simp: guard_simps dest!: upsert_item_transfers)

lemma insert_results_transfers: "insert_results rs d = Inr d' \<Longrightarrow> db_transfers d' = db_transfers d"
  by (induction rs arbitrary: d) (auto simp: guard_simps dest!: insert_result_transfers)

lemma write_task_transfers [simp]: "db_transfers (write_task u d) = db_transfers d"
  by (simp add: write_task_def transfers_kept)

lemma admit_transfer_moves:
  assumes "admit_files_transfer task items t disp d = Inr (r, d')"
  shows "db_transfers d' = db_transfers d \<or>
    (db_transfers d' = db_transfers d @ [t] \<and> get_files_transfer d (tr_id t) = None \<and>
     get_files_transfer_for_task d (tr_task_id t) = None)"
proof (cases "get_task d (t_id task)")
  case None
  with assms obtain ts d1 d2 where "insert_row t_id task (db_tasks d) = Inr ts"
    "insert_items items (d\<lparr>db_tasks := ts\<rparr>) = Inr d1" "insert_transfer t d1 = Inr d2"
    "db_transfers d' = db_transfers d2"
    by (auto simp: admit_files_transfer_def guard_simps transfers_kept split: option.splits)
  then show ?thesis
    by (auto simp: insert_transfer_def guard_simps get_files_transfer_def get_files_transfer_for_task_def
        find_row_None list_ex_iff image_iff dest!: insert_items_transfers)
qed (use assms in \<open>auto simp: admit_files_transfer_def guard_simps\<close>)

lemma converge_moves:
  assumes "converge_files_transfer_failure t tok now task items rs d = Inr (b, d')"
  shows "transfers_move (Some (tr_id t, TmOwner tok)) (db_transfers d) (db_transfers d')"
proof -
  have s: "tr_id r = tr_id t \<and> transfer_step (TmOwner tok) r (end_transfer t u r)"
    if "owned_transfer (tr_id t) tok r \<and> active_transfer r" for u r
    using that by (auto simp: owned_transfer_def intro: finish)
  show ?thesis
    using assms
    by (auto simp: converge_files_transfer_failure_def guard_simps Let_def update_transfer_def s
        intro!: transfers_move_update dest!: upsert_items_transfers insert_results_transfers
        split: if_splits option.splits)
qed

lemma owner_step_moves:
  assumes "owner_step tok now m d = Inr (b, d')"
    and "\<And>t. now = Aware t \<Longrightarrow> m t d = Inr (b, d') \<Longrightarrow> Q"
  shows Q
  using assms by (auto simp: owner_step_def guard_simps)

lemma lock_ops_transfers:
  "acquire_lock sid p k t0 given fresh d = Inr (b, d') \<Longrightarrow> db_transfers d' = db_transfers d"
  "adopt_or_acquire_lock sid p k now tok f d = Inr (b, d') \<Longrightarrow> db_transfers d' = db_transfers d"
  "rotate_task_locks k tok f d = Inr (n, d') \<Longrightarrow> db_transfers d' = db_transfers d"
  "release_lock sid p k given d = Inr (b, d') \<Longrightarrow> db_transfers d' = db_transfers d"
  "reclaim_task_locks k given d = Inr (n, d') \<Longrightarrow> db_transfers d' = db_transfers d"
  by (auto simp: acquire_lock_def insert_row_def adopt_or_acquire_lock_def rotate_task_locks_def release_lock_def
      reclaim_task_locks_def guard_simps Let_def split: sum.splits if_splits option.splits)

theorem perform_transfer_moves:
  assumes "perform_transfer op d = Inr d'" "distinct_rows tr_id (db_transfers d)"
    "\<And>task items t disp. op \<noteq> TAdmit task items t disp"
  shows "transfers_move (transfer_move op) (db_transfers d) (db_transfers d')"
proof (cases op)
  case (TAdmit task items t disp)
  with assms(3) show ?thesis by blast
next
  case (TGrant fl k w tok now e)
  with assms(1) show ?thesis
    by (auto simp: grant_transfer_def update_transfer_def intro!: transfers_move_update grant)
next
  case (TItem i k tok now)
  with assms obtain b where b: "upsert_item_guarded i k tok now d = Inr (b, d')" by (auto simp: guard_simps)
  show ?thesis
    using b unfolding upsert_item_guarded_def TItem
    by (rule under_claim_moves)
      (use assms(2) in \<open>auto simp: guard_simps intro!: clear_locked_moves dest!: upsert_item_transfers\<close>)
next
  case (TOutcome i r ev k tok now)
  with assms obtain b where b: "complete_item_with_evidence_guarded i r ev k tok now d = Inr (b, d')"
    by (auto simp: guard_simps)
  show ?thesis
    using b unfolding complete_item_with_evidence_guarded_def TOutcome
    by (rule under_claim_moves)
      (use assms(2) in \<open>auto simp: guard_simps Let_def transfers_kept intro!: clear_locked_moves
          dest!: upsert_item_transfers insert_result_transfers split: option.splits\<close>)
next
  case (TTask task k tok now)
  with assms obtain b where b: "update_task_guarded task k tok now d = Inr (b, d')" by (auto simp: guard_simps)
  show ?thesis
    using b unfolding update_task_guarded_def TTask
    by (rule under_claim_moves) (use assms(2) in \<open>auto simp: guard_simps\<close>)
next
  case (TConverge t tok now task items rs)
  with assms(1) show ?thesis by (auto simp: guard_simps intro: converge_moves)
next
  case (TClear k tok now)
  with assms(1) obtain b where "clear_files_transfer_mutation k tok now d = Inr (b, d')"
    by (auto simp: guard_simps)
  then show ?thesis
    using assms(2) unfolding TClear clear_files_transfer_mutation_def
    by (elim owner_step_moves) (auto simp: guard_simps update_transfer_def Let_def
        intro!: clear_moves [where k = k and now = now] split: if_splits)
next
  case (TRequeue k now)
  with assms(1) show ?thesis
    by (auto simp: guard_simps requeue_files_transfer_def update_transfer_def Let_def
        intro!: transfers_move_update requeue split: if_splits)
next
  case (TMutate k tok now i p a)
  with assms(1) show ?thesis
    by (auto simp: guard_simps begin_files_transfer_mutation_def owner_step_def update_transfer_def
        owned_transfer_def intro!: transfers_move_update mutate)
qed (use assms(1) in \<open>auto simp: guard_simps owner_step_def update_transfer_def owned_transfer_def
    begin_files_transfer_def heartbeat_files_transfer_claim_def finish_files_transfer_def
    pause_files_transfer_def release_files_transfer_claim_def lock_ops_transfers
    intro!: transfers_move_update begin_work beat finish pause release\<close>)

end
