(* ===== verification/Transfer_System.thy ===== *)
theory Transfer_System
  imports Transfer_Machine
begin

text \<open>
  The two components as one system over one database: every interleaving of kernel transactions with
  the transactions of Files transfers and of file locks.
\<close>

section \<open>Runs of the system\<close>

datatype system_op = KernelOp nat kernel_op | TransferOp transfer_op

fun perform_system :: "system_op \<Rightarrow> db \<Rightarrow> db result" where
  "perform_system (KernelOp cap op) d = perform cap op d"
| "perform_system (TransferOp op) d = perform_transfer op d"

inductive system_run :: "(system_op \<Rightarrow> bool) \<Rightarrow> db \<Rightarrow> db \<Rightarrow> bool" for allowed where
  start: "system_run allowed d d"
| step: "\<lbrakk>system_run allowed d e; allowed op; perform_system op e = Inr e'\<rbrakk> \<Longrightarrow> system_run allowed d e'"

fun system_move :: "system_op \<Rightarrow> (string \<times> tmove) option" where
  "system_move (TransferOp op) = transfer_move op"
| "system_move (KernelOp cap op) = None"

section \<open>One step on the transfers\<close>

definition transfers_ok :: "db \<Rightarrow> bool" where
  "transfers_ok d = distinct_rows tr_id (db_transfers d)"

text \<open>Existing rows move as the operation says; at most one fresh row is appended.\<close>

lemma system_step_transfers:
  assumes "perform_system op d = Inr d'" "transfers_ok d"
  obtains ts new where "db_transfers d' = ts @ new" "transfers_move (system_move op) (db_transfers d) ts"
    "new = [] \<or> (\<exists>t. new = [t] \<and> get_files_transfer d (tr_id t) = None)"
proof (cases op)
  case (KernelOp cap kop)
  with assms(1) have "db_transfers d' = db_transfers d" by (auto dest: kernel_keeps_transfers)
  with that [of "db_transfers d" "[]"] show thesis by simp
next
  case (TransferOp top)
  show thesis
  proof (cases "\<exists>task items t disp. top = TAdmit task items t disp")
    case True
    with TransferOp assms(1) obtain task items t disp r where
      "admit_files_transfer task items t disp d = Inr (r, d')" by (auto simp: guard_simps)
    from admit_transfer_moves [OF this] that [of "db_transfers d" "[]"] that [of "db_transfers d" "[t]"]
    show thesis by auto
  next
    case False
    with TransferOp assms have "transfers_move (transfer_move top) (db_transfers d) (db_transfers d')"
      by (auto simp: transfers_ok_def intro: perform_transfer_moves)
    with TransferOp that [of "db_transfers d'" "[]"] show thesis by simp
  qed
qed

lemma system_step_ok:
  assumes "perform_system op d = Inr d'" "transfers_ok d"
  shows "transfers_ok d'"
proof -
  from assms obtain ts new where d': "db_transfers d' = ts @ new"
    and m: "transfers_move (system_move op) (db_transfers d) ts"
    and n: "new = [] \<or> (\<exists>t. new = [t] \<and> get_files_transfer d (tr_id t) = None)"
    by (rule system_step_transfers)
  from transfers_move_keys [OF m] have k: "map tr_id ts = map tr_id (db_transfers d)" .
  then have "tr_id ` set ts = tr_id ` set (db_transfers d)" by (metis set_map)
  with n k assms(2) show ?thesis
    by (auto simp: transfers_ok_def distinct_rows_def d' get_files_transfer_def find_row_None
        simp flip: set_map)
qed

lemma transfers_move_find:
  "transfers_move m ts us \<Longrightarrow> find_row tr_id k ts = Some t \<Longrightarrow>
    \<exists>u. find_row tr_id k us = Some u \<and> moved m t u"
  unfolding transfers_move_def
  by (induction rule: list_all2_induct) (auto simp: moved_def dest: transfer_step_key split: if_splits)

text \<open>A row is never deleted, and moves only as the operation's kind allows.\<close>

lemma system_step_row:
  assumes "perform_system op d = Inr d'" "transfers_ok d" "get_files_transfer d k = Some t"
  obtains u where "get_files_transfer d' k = Some u" "moved (system_move op) t u"
proof -
  from assms obtain ts new where d': "db_transfers d' = ts @ new"
    and m: "transfers_move (system_move op) (db_transfers d) ts"
    by (metis system_step_transfers)
  from transfers_move_find [OF m] assms(3) obtain u where
    "find_row tr_id k ts = Some u" "moved (system_move op) t u"
    by (auto simp: get_files_transfer_def)
  with d' that [of u] show thesis by (simp add: get_files_transfer_def find_row_append)
qed

lemma system_run_ok: "system_run A d d' \<Longrightarrow> transfers_ok d \<Longrightarrow> transfers_ok d'"
  by (induction rule: system_run.induct) (auto dest: system_step_ok)

text \<open>What a run preserves of one row, from what one step preserves.\<close>

lemma system_run_row:
  assumes "system_run A d d'" "transfers_ok d" "get_files_transfer d k = Some t" "P t"
    and "\<And>op t u. A op \<Longrightarrow> P t \<Longrightarrow> moved (system_move op) t u \<Longrightarrow> P u"
  shows "\<exists>u. get_files_transfer d' k = Some u \<and> P u"
  using assms(1-4)
proof (induction rule: system_run.induct)
  case (step d e op e')
  then obtain t' where t': "get_files_transfer e k = Some t'" "P t'" by blast
  from step.hyps(1) step.prems(1) have "transfers_ok e" by (rule system_run_ok)
  with step.hyps(3) t'(1) obtain u where "get_files_transfer e' k = Some u" "moved (system_move op) t' u"
    by (metis system_step_row)
  with assms(5) step.hyps(2) t'(2) show ?case by blast
qed simp

section \<open>Locks\<close>

text \<open>The Task whose locks an operation may take away or re-label, and under which generation.\<close>

fun touches_locks :: "system_op \<Rightarrow> file_lock \<Rightarrow> bool" where
  "touches_locks (KernelOp cap (ReleaseOp f g)) l = (l_task_id l = t_id (g_task g))"
| "touches_locks (TransferOp (LAdopt sid p k t0 tok f)) l = (l_task_id l = k)"
| "touches_locks (TransferOp (LRotate k tok f)) l = (l_task_id l = k)"
| "touches_locks (TransferOp (LRelease sid p k given)) l = owned_lock k given l"
| "touches_locks (TransferOp (LReclaim k given)) l = owned_lock k given l"
| "touches_locks op l = False"

definition locks_ok :: "db \<Rightarrow> bool" where
  "locks_ok d = distinct_rows lock_key (db_locks d)"

named_theorems locks_kept

lemma locks_kept_writes [locks_kept]:
  "db_locks (update_task k f d) = db_locks d"
  "db_locks (update_sched k f' d) = db_locks d"
  "db_locks (publish_task_row t d) = db_locks d"
  "db_locks (append_evidence e d) = db_locks d"
  "db_locks (insert_display k c now d) = db_locks d"
  "db_locks (record_initial_execution k l st now d) = db_locks d"
  "db_locks (publish_discovery_control v ct now d) = db_locks d"
  "db_locks (write_task u d) = db_locks d"
  "db_locks (clear_mutation_locked k tok now d) = db_locks d"
  by (simp_all add: update_task_def update_sched_def publish_task_row_def append_evidence_def
      insert_display_def record_initial_execution_def publish_discovery_control_def
      write_task_def clear_mutation_locked_def update_transfer_def)

lemma admit_new_locks: "admit_new task st disp d = Inr d' \<Longrightarrow> db_locks d' = db_locks d"
  by (auto simp: admit_new_def guard_simps Let_def locks_kept split: option.splits)

lemma outcome_locks:
  "publish_scheduled_item_outcome f i r ev hint d = Inr (x, d') \<Longrightarrow> db_locks d' = db_locks d"
  by (cases "scheduled_claim d f")
    (auto simp: publish_scheduled_item_outcome_def guard_simps Let_def insert_result_conflict
      locks_kept insert_result_frame upsert_item_frame split: option.splits)

text \<open>The only lock a kernel transaction ends is that of the Task a release gives back.\<close>

lemma kernel_locks:
  assumes "perform cap op d = Inr d'"
  shows "db_locks d' = db_locks d \<or>
    (\<exists>f g. op = ReleaseOp f g \<and> db_locks d' = delete_rows (\<lambda>l. l_task_id l = t_id (g_task g)) (db_locks d))"
proof (cases op)
  case (AdmitOp task st disp)
  with assms have "perform cap (AdmitOp task st disp) d = Inr d'" by simp
  then show ?thesis by (rule perform_admit) (auto dest: admit_new_locks)
next
  case (ReleaseOp f g)
  with assms obtain r where "release_scheduled_claim f g d = Inr (r, d')" by (auto simp: guard_simps)
  from release_Some [OF this] ReleaseOp show ?thesis
    by (auto simp: Let_def elim!: release_writes_tables)
next
  case (OutcomeOp f i r ev hint)
  with assms show ?thesis by (auto simp: guard_simps dest: outcome_locks)
next
  case (ClaimNextOp now w tok lease)
  with assms show ?thesis
    by (auto simp: guard_simps claim_next_scheduled_task_def dest: claim_in_transaction_frame)
next
  case (ClaimOp k now w tok lease)
  with assms show ?thesis
    by (auto simp: guard_simps claim_scheduled_task_def dest: claim_in_transaction_frame)
next
  case (YieldOp f task items stage e)
  with assms show ?thesis
    by (auto simp: guard_simps yield_scheduled_claim_def Let_def locks_kept
        split: if_splits option.splits)
next
  case (RequeueOp k sid dig n now stage e actor)
  with assms show ?thesis
    by (auto simp: guard_simps requeue_scheduled_task_def Let_def locks_kept
        split: if_splits option.splits)
next
  case (ReanalyzeOp k v n now stage)
  with assms show ?thesis
    by (auto simp: guard_simps requeue_scheduled_analysis_def Let_def locks_kept
        split: if_splits option.splits)
qed (use assms in \<open>auto simp: guard_simps heartbeat_scheduled_claim_def begin_scheduled_work_def
    request_scheduled_control_def resume_waiting_def upsert_scheduled_item_def
    begin_scheduled_item_with_ownership_def begin_scheduled_mutation_def publish_scheduled_task_def
    Let_def locks_kept upsert_item_frame split: if_splits option.splits\<close>)

lemma item_lists_locks:
  "insert_items is d = Inr d' \<Longrightarrow> db_locks d' = db_locks d"
  "upsert_items is d = Inr d' \<Longrightarrow> db_locks d' = db_locks d"
  by (induction "is" arbitrary: d) (auto simp: guard_simps insert_item_def upsert_item_frame)

lemma result_list_locks: "insert_results rs d = Inr d' \<Longrightarrow> db_locks d' = db_locks d"
  by (induction rs arbitrary: d) (auto simp: guard_simps insert_result_frame)

lemma under_claim_locks:
  assumes "under_transfer_claim j k tok now write d = Inr (b, d')"
    and "\<And>t d'. write t d = Inr d' \<Longrightarrow> db_locks d' = db_locks d"
  shows "db_locks d' = db_locks d"
  using assms by (auto simp: under_transfer_claim_def guard_simps split: if_splits)

lemma transfer_writes_locks:
  "admit_files_transfer task items t disp d = Inr (u, d') \<Longrightarrow> db_locks d' = db_locks d"
  "upsert_item_guarded i k tok now d = Inr (b, d') \<Longrightarrow> db_locks d' = db_locks d"
  "complete_item_with_evidence_guarded i r ev k tok now d = Inr (b, d') \<Longrightarrow> db_locks d' = db_locks d"
  "update_task_guarded task k tok now d = Inr (b, d') \<Longrightarrow> db_locks d' = db_locks d"
  "converge_files_transfer_failure t tok now tsk items rs d = Inr (b, d') \<Longrightarrow> db_locks d' = db_locks d"
      apply (auto simp: admit_files_transfer_def insert_transfer_def guard_simps locks_kept
        dest!: item_lists_locks split: option.splits) [1]
     apply (unfold upsert_item_guarded_def, erule under_claim_locks,
        auto simp: guard_simps locks_kept upsert_item_frame) [1]
    apply (unfold complete_item_with_evidence_guarded_def, erule under_claim_locks,
        auto simp: guard_simps Let_def locks_kept upsert_item_frame insert_result_frame split: option.splits) [1]
   apply (unfold update_task_guarded_def, erule under_claim_locks, auto simp: guard_simps locks_kept) [1]
  apply (auto simp: converge_files_transfer_failure_def guard_simps Let_def update_transfer_def locks_kept
      dest!: item_lists_locks result_list_locks split: if_splits option.splits) [1]
  done

lemma lock_updates:
  assumes "find_row lock_key c (db_locks d) = Some l" "\<And>r. lock_key (g r) = lock_key r" "\<not> P l"
  shows "find_row lock_key c (update_rows P g (db_locks d)) = Some l"
  using assms by (simp add: find_row_update)

lemma lock_inserted:
  assumes "find_row lock_key c (db_locks d) = Some l" "insert_row lock_key m (db_locks d) = Inr ls"
  shows "find_row lock_key c ls = Some l"
  using assms by (auto simp: guard_simps find_row_append)

text \<open>A lock outlives every operation that is not its Task's.\<close>

lemma transfer_keeps_lock:
  assumes "perform_transfer op d = Inr d'" "locks_ok d" "find_row lock_key c (db_locks d) = Some l"
    "\<not> touches_locks (TransferOp op) l"
  shows "find_row lock_key c (db_locks d') = Some l"
proof (cases op)
  case (LAcquire sid p k t0 given fresh)
  with assms show ?thesis
    by (auto simp: guard_simps acquire_lock_def insert_row_def find_row_append split: if_splits)
next
  case (LAdopt sid p k now tok f)
  with assms show ?thesis
    by (auto simp: guard_simps adopt_or_acquire_lock_def find_row_append
        intro!: lock_updates split: if_splits option.splits)
next
  case (LRotate k tok f)
  with assms show ?thesis
    by (auto simp: guard_simps rotate_task_locks_def intro!: lock_updates split: if_splits)
next
  case (LRelease sid p k given)
  with assms show ?thesis
    by (auto simp: guard_simps release_lock_def Let_def locks_ok_def find_row_delete)
next
  case (LReclaim k given)
  with assms show ?thesis
    by (auto simp: guard_simps reclaim_task_locks_def locks_ok_def find_row_delete)
qed (use assms(1,3) in \<open>auto simp: guard_simps grant_transfer_def owner_step_def update_transfer_def
    begin_files_transfer_def begin_files_transfer_mutation_def clear_files_transfer_mutation_def
    heartbeat_files_transfer_claim_def finish_files_transfer_def pause_files_transfer_def
    release_files_transfer_claim_def requeue_files_transfer_def Let_def
    dest!: transfer_writes_locks split: if_splits\<close>)

lemma acquire_cases:
  assumes "acquire_lock sid p k t0 given fresh d = Inr (b, d')"
  shows "d' = d \<or> (\<exists>l ls. insert_row lock_key l (db_locks d) = Inr ls \<and> d' = d\<lparr>db_locks := ls\<rparr>)"
  using assms by (auto simp: acquire_lock_def bind_result_def split: sum.splits)

lemma adopt_cases:
  assumes "adopt_or_acquire_lock sid p k now tok f d = Inr (b, d')"
  shows "d' = d \<or> (\<exists>l ls. insert_row lock_key l (db_locks d) = Inr ls \<and> d' = d\<lparr>db_locks := ls\<rparr>) \<or>
    (\<exists>P t. d' = d\<lparr>db_locks := update_rows P (\<lambda>r. r\<lparr>l_owner_token := tok, l_acquired_at := t\<rparr>) (db_locks d)\<rparr>)"
proof -
  from assms obtain t q lost where "\<not> lost \<longrightarrow> (case find_row lock_key (sid, q) (db_locks d) of
      Some l \<Rightarrow>
        if l_task_id l \<noteq> k then Inr (False, d)
        else Inr (True, d\<lparr>db_locks := update_rows (\<lambda>r. lock_key r = (sid, q) \<and> l_task_id r = k)
               (\<lambda>r. r\<lparr>l_owner_token := tok, l_acquired_at := t\<rparr>) (db_locks d)\<rparr>)
    | None \<Rightarrow> bind_result (insert_row lock_key \<lparr>l_storage_id = sid, l_path = q, l_task_id = k,
          l_acquired_at = t, l_owner_token = tok\<rparr> (db_locks d)) (\<lambda>rows.
        Inr (True, d\<lparr>db_locks := rows\<rparr>))) = Inr (b, d')" "lost \<longrightarrow> d' = d"
    unfolding adopt_or_acquire_lock_def by (auto simp only: guard_simps split: if_splits)
  then show ?thesis
    by (cases "find_row lock_key (sid, q) (db_locks d)") (auto simp: bind_result_Inr split: if_splits)
qed

lemma transfer_locks_ok:
  assumes "perform_transfer op d = Inr d'" "locks_ok d"
  shows "locks_ok d'"
proof (cases op)
  case (LAcquire sid p k t0 given fresh)
  with assms show ?thesis
    by (auto simp: locks_ok_def commit_Inr dest!: acquire_cases intro: distinct_insert)
next
  case (LAdopt sid p k now tok f)
  with assms show ?thesis
    by (auto simp: locks_ok_def commit_Inr Tables.distinct_update dest!: adopt_cases intro: distinct_insert)
next
  case (LRotate k tok f)
  with assms show ?thesis
    by (auto simp: guard_simps rotate_task_locks_def locks_ok_def Tables.distinct_update split: if_splits)
next
  case (LRelease sid p k given)
  with assms show ?thesis
    by (auto simp: guard_simps release_lock_def Let_def locks_ok_def intro: Tables.distinct_delete)
next
  case (LReclaim k given)
  with assms show ?thesis
    by (auto simp: guard_simps reclaim_task_locks_def locks_ok_def intro: Tables.distinct_delete)
qed (use assms in \<open>auto simp: guard_simps grant_transfer_def owner_step_def update_transfer_def locks_ok_def
    begin_files_transfer_def begin_files_transfer_mutation_def clear_files_transfer_mutation_def
    heartbeat_files_transfer_claim_def finish_files_transfer_def pause_files_transfer_def
    release_files_transfer_claim_def requeue_files_transfer_def Let_def
    dest!: transfer_writes_locks split: if_splits\<close>)

lemma system_step_lock:
  assumes "perform_system op d = Inr d'" "locks_ok d" "find_row lock_key c (db_locks d) = Some l"
    "\<not> touches_locks op l"
  shows "find_row lock_key c (db_locks d') = Some l"
proof (cases op)
  case (KernelOp cap kop)
  with assms(1) have k: "perform cap kop d = Inr d'" by simp
  from kernel_locks [OF k] assms KernelOp show ?thesis
    by (auto simp: locks_ok_def find_row_delete)
next
  case (TransferOp top)
  with assms show ?thesis by (auto intro: transfer_keeps_lock)
qed

lemma system_step_locks_ok:
  assumes "perform_system op d = Inr d'" "locks_ok d"
  shows "locks_ok d'"
proof (cases op)
  case (KernelOp cap kop)
  with assms(1) have "perform cap kop d = Inr d'" by simp
  from kernel_locks [OF this] assms(2) show ?thesis
    by (auto simp: locks_ok_def intro: Tables.distinct_delete)
next
  case (TransferOp top)
  with assms show ?thesis by (auto intro: transfer_locks_ok)
qed

lemma system_run_locks_ok: "system_run A d d' \<Longrightarrow> locks_ok d \<Longrightarrow> locks_ok d'"
  by (induction rule: system_run.induct) (auto dest: system_step_locks_ok)

section \<open>Fences of a transfer\<close>

text \<open>The transfer and token an operation is fenced by.\<close>

fun transfer_fence :: "transfer_op \<Rightarrow> (string \<times> string) option" where
  "transfer_fence (TBegin k tok now) = Some (k, tok)"
| "transfer_fence (TMutate k tok now i p a) = Some (k, tok)"
| "transfer_fence (TClear k tok now) = Some (k, tok)"
| "transfer_fence (TBeat k tok now lease) = Some (k, tok)"
| "transfer_fence (TFinish t tok now) = Some (tr_id t, tok)"
| "transfer_fence (TPause k tok now) = Some (k, tok)"
| "transfer_fence (TRelease k tok now er na) = Some (k, tok)"
| "transfer_fence (TItem i k tok now) = Some (k, tok)"
| "transfer_fence (TOutcome i r ev k tok now) = Some (k, tok)"
| "transfer_fence (TTask task k tok now) = Some (k, tok)"
| "transfer_fence (TConverge t tok now task items rs) = Some (tr_id t, tok)"
| "transfer_fence (LAdopt sid p j now gen (Some (k, tok, t0))) = Some (k, tok)"
| "transfer_fence (LRotate j gen (Some (k, tok, t0))) = Some (k, tok)"
| "transfer_fence op = None"

lemma unowned_claim:
  assumes "\<forall>r \<in> set (db_transfers d). \<not> owned_transfer k tok r"
  shows "transfer_claim d k tok now \<noteq> Inr True"
  using assms by (auto elim: claim_row)

lemma unowned_update:
  assumes "\<forall>r \<in> set (db_transfers d). \<not> owned_transfer k tok r"
    "d' = d\<lparr>db_transfers := update_rows P f (db_transfers d)\<rparr>" "\<And>r. P r \<Longrightarrow> owned_transfer k tok r"
  shows "d' = d"
proof -
  from assms(1,3) have "update_rows P f (db_transfers d) = db_transfers d"
    by (intro update_rows_none) blast
  with assms(2) show ?thesis by simp
qed

text \<open>An operation whose transfer claim is not held commits nothing.\<close>

lemma unowned_no_write:
  assumes "transfer_fence op = Some (k, tok)" "perform_transfer op d = Inr d'"
    and no: "\<forall>r \<in> set (db_transfers d). \<not> owned_transfer k tok r"
  shows "d' = d"
proof -
  note nc = unowned_claim [OF no]
  note u = unowned_update [OF no]
  show ?thesis
  proof (cases op)
    case (TItem i k' tok' now)
    with assms(1,2) nc show ?thesis
      by (auto simp: guard_simps upsert_item_guarded_def under_transfer_claim_def split: if_splits)
  next
    case (TOutcome i r ev k' tok' now)
    with assms(1,2) nc show ?thesis
      by (auto simp: guard_simps complete_item_with_evidence_guarded_def under_transfer_claim_def
          split: if_splits)
  next
    case (TTask task k' tok' now)
    with assms(1,2) nc show ?thesis
      by (auto simp: guard_simps update_task_guarded_def under_transfer_claim_def split: if_splits)
  next
    case (TConverge t tok' now task items rs)
    with assms(1,2) nc show ?thesis
      by (auto simp: guard_simps converge_files_transfer_failure_def split: if_splits)
  next
    case (LAdopt sid p j now gen f)
    with assms(1,2) nc show ?thesis
      by (cases f) (auto simp: guard_simps adopt_or_acquire_lock_def fence_lost_def split: if_splits)
  next
    case (LRotate j gen f)
    with assms(1,2) nc show ?thesis
      by (cases f) (auto simp: guard_simps rotate_task_locks_def fence_lost_def split: if_splits)
  next
    case (TClear k' tok' now)
    with assms(1,2) nc show ?thesis
      by (auto simp: guard_simps clear_files_transfer_mutation_def owner_step_def split: if_splits)
  qed (use assms(1,2) in \<open>auto simp: guard_simps owner_step_def update_transfer_def intro!: u
      simp: begin_files_transfer_def begin_files_transfer_mutation_def heartbeat_files_transfer_claim_def
      finish_files_transfer_def pause_files_transfer_def release_files_transfer_claim_def\<close>)
qed

end
