(* ===== verification/Transfer_Properties.thy ===== *)
theory Transfer_Properties
  imports Transfer_System Kernel_Examples
begin

text \<open>
  What the system keeps of a Files transfer and of a file lock through every interleaving of kernel,
  transfer and lock transactions, with a concrete transfer for the witnesses.
\<close>

section \<open>A transfer and its steps\<close>

fun run_system :: "system_op list \<Rightarrow> db \<Rightarrow> db result" where
  "run_system [] d = Inr d"
| "run_system (op # ops) d = bind_result (perform_system op d) (run_system ops)"

lemma run_system_run:
  "run_system ops e = Inr d' \<Longrightarrow> \<forall>op \<in> set ops. A op \<Longrightarrow> system_run A d e \<Longrightarrow> system_run A d d'"
  by (induction ops arbitrary: e) (auto simp: guard_simps intro: system_run.step)

definition system_after :: "system_op list \<Rightarrow> db \<Rightarrow> db" where
  "system_after ops d = (case run_system ops d of Inl e \<Rightarrow> d | Inr d' \<Rightarrow> d')"

lemma system_after_run:
  assumes "run_system ops d = Inr d'" "\<forall>op \<in> set ops. A op"
  shows "system_run A d (system_after ops d)"
  using run_system_run [OF assms system_run.start] assms(1) by (simp add: system_after_def)

definition demo_transfer :: transfer where
  "demo_transfer = \<lparr>tr_id = ''f1'', tr_task_id = ''t9'', tr_status = TransferAdmitted,
     tr_authority = ''auth'', tr_snapshot_id = ''snap'', tr_snapshot_digest = ''dig'',
     tr_worker = None, tr_token = None, tr_claimed_at = None, tr_expires_at = None,
     tr_attempts = 0, tr_error = None, tr_next_action = None, tr_created_at = 0,
     tr_updated_at = 0, tr_completed_at = None, tr_mutation_state = None,
     tr_flight_item = None, tr_flight_path = None, tr_flight_action = None\<rparr>"

definition files_task :: ptask where
  "files_task = demo_task\<lparr>t_id := ''t9'', t_command := ''files_copy''\<rparr>"

definition files_db :: db where
  "files_db = system_after [TransferOp (TAdmit files_task [] demo_transfer None)] demo_claimed"

definition files_claimed :: db where
  "files_claimed = system_after
     [TransferOp (TGrant False ''f1'' ''w2'' ''ft'' 10 40), TransferOp (TBegin ''f1'' ''ft'' (Aware 11)),
      TransferOp (LAcquire ''nas'' ''dir/a.mkv'' ''t9'' 12 (Some ''ft'') ''x'')] files_db"

definition files_mutating :: db where
  "files_mutating = system_after
     [TransferOp (TMutate ''f1'' ''ft'' (Aware 13) ''i9'' ''dir/a.mkv'' ''copy'')] files_claimed"

definition files_ended :: db where
  "files_ended = system_after
     [TransferOp (TFinish (demo_transfer\<lparr>tr_status := TransferCompleted\<rparr>) ''ft'' (Aware 14))] files_claimed"

definition files_released :: db where
  "files_released = system_after
     [TransferOp (TRelease ''f1'' ''ft'' (Aware 14) ''lost storage'' ''retry'')] files_claimed"

lemma runs_system:
  assumes "case run_system ops d of Inl e \<Rightarrow> False | Inr d' \<Rightarrow> True" "\<forall>op \<in> set ops. A op"
  shows "system_run A d (system_after ops d)"
  using assms by (auto split: sum.splits intro: system_after_run)

lemma demo_distinct:
  "transfers_ok files_db" "transfers_ok files_claimed" "transfers_ok files_mutating"
  "locks_ok files_claimed" "transfers_ok files_ended" "transfers_ok files_released"
  by code_simp+

lemma transfer_order_total: "transfer_order a b \<or> transfer_order b a"
  using text_le_total by (auto simp: transfer_order_def)

lemma transfer_order_trans: "transfer_order a b \<Longrightarrow> transfer_order b c \<Longrightarrow> transfer_order a c"
  by (auto simp: transfer_order_def intro: text_le_trans)

lemma claim_lease_positive: "require_claim_values w tok lease = Inr s \<Longrightarrow> 0 \<le> s"
  by (auto simp: require_claim_values_def guard_simps dest: require_lease_range)

lemma split_on_subset: "x \<in> set (split_on c s) \<Longrightarrow> set x \<subseteq> set s"
proof (induction s arbitrary: x)
  case (Cons a s)
  then show ?case by (cases "split_on c s") (auto split: if_splits, fastforce+)
qed simp

lemma join_with_mem: "c \<in> set (join_with sep ps) \<Longrightarrow> c \<in> set sep \<or> (\<exists>p \<in> set ps. c \<in> set p)"
  by (induction sep ps rule: join_with.induct) auto

section \<open>Transfers\<close>

text \<open>C27: While the mutation of a transfer is in flight its row is untouched by everything but the holder of
  its token and, once the lease has run out, a claim that resolves it: no admission, no ordinary
  claim, no re-queue, no other owner and no transaction of the Task kernel changes any field, and
  the ordinary claim never selects it.\<close>

theorem in_flight_transfer_is_exclusive:
  assumes "system_run allowed d d'" "transfers_ok d" "get_files_transfer d k = Some t"
    and "tr_mutation_state t \<noteq> None" "tr_token t = Some tok"
    and "\<And>op. allowed op \<Longrightarrow> system_move op \<noteq> Some (k, TmOwner tok)"
    and "\<And>op tok' now. allowed op \<Longrightarrow> system_move op = Some (k, TmGrant True tok' now) \<Longrightarrow>
      \<not> lease_elapsed now t"
  shows "get_files_transfer d' k = Some t \<and> select_transfer False now commands d' \<noteq> Some k"
proof -
  have k: "tr_id t = k" using assms(3) find_row_key by (metis get_files_transfer_def)
  have "\<exists>u. get_files_transfer d' k = Some u \<and> u = t"
    by (rule system_run_row [OF assms(1-3)])
      (use assms(4-7) k in \<open>auto simp: moved_def dest!: transfer_step_flight\<close>)
  then have kept: "get_files_transfer d' k = Some t" by simp
  have "distinct_rows tr_id (db_transfers d')"
    using system_run_ok [OF assms(1,2)] by (simp add: transfers_ok_def)
  then have only: "r = t" if "r \<in> set (db_transfers d')" "tr_id r = k" for r
    using kept that by (metis find_row_mem get_files_transfer_def option.inject)
  have "select_transfer False now commands d' \<noteq> Some k"
  proof
    assume "select_transfer False now commands d' = Some k"
    then obtain r where "r \<in> set (db_transfers d')" "tr_id r = k" "claimable_transfer False now r"
      by (auto simp: select_transfer_def dest!: least_row_mem)
    with only assms(4) show False by (auto simp: claimable_transfer_def)
  qed
  with kept show ?thesis by simp
qed

theorem in_flight_transfer_is_exclusive_witness:
  "map_option tr_flight_action (get_files_transfer (system_after
     [KernelOp 2 op_begin, TransferOp (TGrant False ''f1'' ''w3'' ''gt'' 90 99),
      TransferOp (TGrant True ''f1'' ''w3'' ''gt'' 39 99), TransferOp (TPause ''f1'' ''zz'' (Aware 15))]
     files_mutating) ''f1'') = Some (Some ''copy'')"
proof -
  let ?ops = "[KernelOp 2 op_begin, TransferOp (TGrant False ''f1'' ''w3'' ''gt'' 90 99),
      TransferOp (TGrant True ''f1'' ''w3'' ''gt'' 39 99), TransferOp (TPause ''f1'' ''zz'' (Aware 15))]"
  let ?A = "\<lambda>op. op \<in> set ?ops"
  let ?t = "the (get_files_transfer files_mutating ''f1'')"
  have "case run_system ?ops files_mutating of Inl e \<Rightarrow> False | Inr d \<Rightarrow> True" by code_simp
  then have r: "system_run ?A files_mutating (system_after ?ops files_mutating)"
    by (rule runs_system) simp
  have t: "get_files_transfer files_mutating ''f1'' = Some ?t" by code_simp
  have m: "tr_mutation_state ?t \<noteq> None" and o: "tr_token ?t = Some ''ft''" and e: "tr_expires_at ?t = Some 40"
    and a: "tr_flight_action ?t = Some ''copy''"
    by code_simp+
  have "get_files_transfer (system_after ?ops files_mutating) ''f1'' = Some ?t \<and>
      select_transfer False 0 None (system_after ?ops files_mutating) \<noteq> Some ''f1''"
    by (rule in_flight_transfer_is_exclusive [OF r demo_distinct(3) t m o])
      (auto simp: op_begin_def lease_elapsed_def e)
  with a show ?thesis by simp
qed

text \<open>A transfer that has ended, and what an admitted one was admitted for, are final: through any
  interleaving a terminal row keeps every field, and every row keeps its Task, authority, snapshot
  pin and creation instant.\<close>

theorem ended_transfer_is_final:
  assumes "system_run allowed d d'" "transfers_ok d" "get_files_transfer d k = Some t"
  shows "\<exists>u. get_files_transfer d' k = Some u \<and> (terminal_transfer (tr_status t) \<longrightarrow> u = t) \<and>
    tr_task_id u = tr_task_id t \<and> tr_authority u = tr_authority t \<and>
    tr_snapshot_id u = tr_snapshot_id t \<and> tr_snapshot_digest u = tr_snapshot_digest t \<and>
    tr_created_at u = tr_created_at t"
  by (rule system_run_row [OF assms(1-3)])
    (auto simp: moved_def dest: transfer_step_live transfer_step_key transfer_step_pin)

theorem ended_transfer_is_final_witness:
  "map_option tr_status (get_files_transfer (system_after
     [TransferOp (TGrant False ''f1'' ''w3'' ''gt'' 90 99), TransferOp (TBeat ''f1'' ''ft'' (Aware 91) 5)]
     files_ended) ''f1'') = Some TransferCompleted"
proof -
  let ?ops = "[TransferOp (TGrant False ''f1'' ''w3'' ''gt'' 90 99), TransferOp (TBeat ''f1'' ''ft'' (Aware 91) 5)]"
  let ?t = "the (get_files_transfer files_ended ''f1'')"
  have "case run_system ?ops files_ended of Inl e \<Rightarrow> False | Inr d \<Rightarrow> True" by code_simp
  then have r: "system_run (\<lambda>_. True) files_ended (system_after ?ops files_ended)"
    by (rule runs_system) simp
  have t: "get_files_transfer files_ended ''f1'' = Some ?t" by code_simp
  have s: "tr_status ?t = TransferCompleted" by code_simp
  from ended_transfer_is_final [OF r demo_distinct(5) t] s show ?thesis
    by (auto simp: terminal_transfer_def)
qed

text \<open>A claim that was taken away stays taken away: once the transfer is not held under a token, and no
  claim grants that token again, no operation fenced by it (a step, a publication, a convergence, a
  lock adoption or rotation) changes anything in the database.\<close>

theorem lost_transfer_claim_writes_nothing:
  assumes "system_run allowed d e" "transfers_ok d" "get_files_transfer d k = Some t"
    and "tr_token t \<noteq> Some tok"
    and "\<And>op fl now. allowed op \<Longrightarrow> system_move op \<noteq> Some (k, TmGrant fl tok now)"
    and "transfer_fence op = Some (k, tok)" "perform_transfer op e = Inr e'"
  shows "e' = e"
proof -
  have "\<exists>u. get_files_transfer e k = Some u \<and> tr_id u = k \<and> tr_token u \<noteq> Some tok"
  proof (rule system_run_row [OF assms(1-3)])
    show "tr_id t = k \<and> tr_token t \<noteq> Some tok"
      using assms(3,4) find_row_key by (metis get_files_transfer_def)
  next
    fix op t u assume "allowed op" "tr_id t = k \<and> tr_token t \<noteq> Some tok" "moved (system_move op) t u"
    moreover from this obtain mv where "u = t \<or> (system_move op = Some (k, mv) \<and> transfer_step mv t u)"
      by (auto simp: moved_def)
    moreover have "granted_token mv \<noteq> Some tok" if "system_move op = Some (k, mv)"
      using that assms(5) \<open>allowed op\<close> by (cases mv) auto
    ultimately show "tr_id u = k \<and> tr_token u \<noteq> Some tok"
      by (metis transfer_step_key transfer_token.not_handed)
  qed
  then obtain u where u: "get_files_transfer e k = Some u" "tr_token u \<noteq> Some tok" by blast
  have "distinct_rows tr_id (db_transfers e)"
    using system_run_ok [OF assms(1,2)] by (simp add: transfers_ok_def)
  with u have "\<forall>r \<in> set (db_transfers e). \<not> owned_transfer k tok r"
    by (metis find_row_mem get_files_transfer_def option.inject owned_transfer_def)
  with assms(6,7) show ?thesis by (rule unowned_no_write)
qed

theorem lost_transfer_claim_writes_nothing_witness:
  "perform_transfer (TTask files_task ''f1'' ''ft'' (Aware 61)) (system_after
     [TransferOp (TGrant False ''f1'' ''w3'' ''gt'' 60 99)] files_released) =
   Inr (system_after [TransferOp (TGrant False ''f1'' ''w3'' ''gt'' 60 99)] files_released)"
proof -
  let ?ops = "[TransferOp (TGrant False ''f1'' ''w3'' ''gt'' 60 99)]"
  let ?e = "system_after ?ops files_released"
  let ?op = "TTask files_task ''f1'' ''ft'' (Aware 61)"
  let ?t = "the (get_files_transfer files_released ''f1'')"
  have "case run_system ?ops files_released of Inl e \<Rightarrow> False | Inr d \<Rightarrow> True" by code_simp
  then have r: "system_run (\<lambda>op. op \<in> set ?ops) files_released ?e" by (rule runs_system) simp
  have t: "get_files_transfer files_released ''f1'' = Some ?t" by code_simp
  have n: "tr_token ?t \<noteq> Some ''ft''" by code_simp
  have "case perform_transfer ?op ?e of Inl e \<Rightarrow> False | Inr d \<Rightarrow> True" by code_simp
  then obtain e' where e': "perform_transfer ?op ?e = Inr e'" by (auto split: sum.splits)
  have "e' = ?e"
    by (rule lost_transfer_claim_writes_nothing [OF r demo_distinct(6) t n _ _ e']) auto
  with e' show ?thesis by simp
qed

text \<open>The ordinary claim takes the transfer that waited longest: of the active rows whose lease has run
  out, that have no mutation in flight and whose command the Worker supports, the least recently
  updated one, and grants it whole (token, Worker, lease, one more attempt). Every other transfer is
  unchanged.\<close>

theorem transfer_claim_takes_the_oldest:
  assumes "claim_next_files_transfer now w tok lease commands d = (Inr (Some t), d')" "transfers_ok d"
  shows "\<exists>r u e. now = Aware u \<and> get_files_transfer d (tr_id t) = Some r \<and> claimable_transfer False u r \<and>
    t = lease_transfer w tok u e r \<and> u \<le> e \<and> get_files_transfer d' (tr_id t) = Some t \<and>
    (\<forall>q \<in> set (db_transfers d). claimable_transfer False u q \<and> supports_transfer d commands q \<longrightarrow>
       transfer_order r q) \<and>
    (\<forall>j. j \<noteq> tr_id t \<longrightarrow> get_files_transfer d' j = get_files_transfer d j)"
proof -
  from assms(1) obtain s u k where s: "Inr s = require_claim_values w tok lease" and u: "Inr u = require_aware now"
    and sel: "select_transfer False u commands d = Some k"
    and gr: "grant_transfer False k w tok u (u + seconds_to_us s) d = (True, d')"
    and t: "Some t = get_files_transfer d' k"
    by (auto simp: claim_next_files_transfer_def claim_files_transfer_def guard_simps
        split: if_splits option.splits)
  have d': "d' = snd (grant_transfer False k w tok u (u + seconds_to_us s) d)" using gr by simp
  have u: "now = Aware u" using u [symmetric] by (simp add: guard_simps)
  let ?c = "\<lambda>q. claimable_transfer False u q \<and> supports_transfer d commands q"
  from sel obtain r where r: "least_row transfer_order (filter ?c (db_transfers d)) = Some r" "tr_id r = k"
    by (auto simp: select_transfer_def)
  from least_row_mem [OF r(1)] have m: "r \<in> set (db_transfers d)" "?c r" by auto
  have f: "get_files_transfer d k = Some r"
    using m(1) r(2) assms(2) by (auto simp: transfers_ok_def get_files_transfer_def find_row_mem)
  have g: "get_files_transfer d' j = map_option (\<lambda>q. if tr_id q = k \<and> claimable_transfer False u q
      then lease_transfer w tok u (u + seconds_to_us s) q else q) (get_files_transfer d j)" for j
    unfolding d' grant_transfer_def update_transfer_def get_files_transfer_def
    by (simp add: find_row_update lease_transfer_def)
  have key: "tr_id q = j" if "get_files_transfer d j = Some q" for q j
    using that find_row_key by (metis get_files_transfer_def)
  have e: "t = lease_transfer w tok u (u + seconds_to_us s) r" using g [of k] f t m(2) r(2) by simp
  then have k: "tr_id t = k" using r(2) by (simp add: lease_transfer_def)
  have "transfer_order r q" if "q \<in> set (db_transfers d)" "?c q" for q
    by (rule least_row_least [OF transfer_order_total transfer_order_trans r(1)]) (use that in auto)
  moreover have "get_files_transfer d' j = get_files_transfer d j" if "j \<noteq> k" for j
    using g [of j] key [of j] that by (cases "get_files_transfer d j") auto
  moreover have "u \<le> u + seconds_to_us s" using claim_lease_positive [OF s [symmetric]] by (simp add: seconds_to_us_nonneg)
  ultimately show ?thesis using u f m(2) e k t by auto
qed

theorem transfer_claim_takes_the_oldest_witness:
  "\<exists>t d' r. claim_next_files_transfer (Aware 10) ''w2'' ''ft'' (PyInt 30) None files_db = (Inr (Some t), d') \<and>
    get_files_transfer files_db (tr_id t) = Some r \<and> claimable_transfer False 10 r \<and>
    (\<forall>q \<in> set (db_transfers files_db). claimable_transfer False 10 q \<longrightarrow> transfer_order r q)"
proof -
  let ?m = "claim_next_files_transfer (Aware 10) ''w2'' ''ft'' (PyInt 30) None files_db"
  have "case fst ?m of Inr (Some t) \<Rightarrow> True | _ \<Rightarrow> False" by code_simp
  then obtain t where "fst ?m = Inr (Some t)" by (auto split: sum.splits option.splits)
  then have m: "?m = (Inr (Some t), snd ?m)" by (simp add: prod_eq_iff)
  from transfer_claim_takes_the_oldest [OF m demo_distinct(1)] obtain r where
    "get_files_transfer files_db (tr_id t) = Some r" "claimable_transfer False 10 r"
    "\<forall>q \<in> set (db_transfers files_db). claimable_transfer False 10 q \<longrightarrow> transfer_order r q"
    by (auto simp: supports_transfer_def)
  with m show ?thesis by blast
qed

section \<open>Locks\<close>

text \<open>C28: A file lock excludes every other Task until its own Task gives it up: through any interleaving that
  holds no release, reclaim, adoption or rotation of this Task and generation, acquiring any spelling
  of the path answers no and writes nothing, the generation still owns the lock, and another Task
  does not.\<close>

theorem file_lock_excludes:
  assumes "system_run allowed d d'" "locks_ok d" "find_row lock_key (sid, q) (db_locks d) = Some l"
    and "\<And>op. allowed op \<Longrightarrow> \<not> touches_locks op l" "lock_path p = Inr q"
  shows "acquire_lock sid p k t0 given fresh d' = Inr (False, d') \<and>
    lock_owned sid p (l_task_id l) (Some (l_owner_token l)) d' = Inr True \<and>
    lock_owned sid p k given d' = Inr (owned_lock k given l)"
proof -
  from assms(1-4) have kept: "find_row lock_key (sid, q) (db_locks d') = Some l"
  proof (induction rule: system_run.induct)
    case (step d e op e')
    from step.hyps(1) step.prems(1) have ok: "locks_ok e" by (rule system_run_locks_ok)
    show ?case
      by (rule system_step_lock [OF step.hyps(3) ok step.IH [OF step.prems] step.prems(3) [OF step.hyps(2)]])
  qed simp
  have ok: "distinct_rows lock_key (db_locks d')"
    using system_run_locks_ok [OF assms(1,2)] by (simp add: locks_ok_def)
  have l: "l \<in> set (db_locks d')" "lock_key l = (sid, q)" using find_row_key [OF kept] by auto
  have only: "m = l" if "m \<in> set (db_locks d')" "lock_key m = (sid, q)" for m
    using find_row_mem [OF ok that(1)] kept that(2) by simp
  have "list_ex (\<lambda>m. lock_key m = (sid, q) \<and> owned_lock j g m) (db_locks d') = owned_lock j g l" for j g
    using l only unfolding list_ex_iff by blast
  then have own: "lock_owned sid p j g d' = Inr (owned_lock j g l)" for j g
    by (simp only: lock_owned_def assms(5) bind_result_simps)
  have "acquire_lock sid p k t0 given fresh d' = Inr (False, d')"
    using assms(5) kept by (simp add: acquire_lock_def insert_row_def)
  moreover have "owned_lock (l_task_id l) (Some (l_owner_token l)) l" by (simp add: owned_lock_def)
  ultimately show ?thesis using own by simp
qed

theorem file_lock_excludes_witness:
  "acquire_lock ''nas'' ''/dir//./a.mkv'' ''t1'' 20 None ''y'' (system_after
     [TransferOp (LReclaim ''t9'' (Some ''old'')), TransferOp (LAcquire ''nas'' ''b.mkv'' ''t1'' 13 None ''z'')]
     files_claimed) =
   Inr (False, system_after
     [TransferOp (LReclaim ''t9'' (Some ''old'')), TransferOp (LAcquire ''nas'' ''b.mkv'' ''t1'' 13 None ''z'')]
     files_claimed)"
proof -
  let ?ops = "[TransferOp (LReclaim ''t9'' (Some ''old'')), TransferOp (LAcquire ''nas'' ''b.mkv'' ''t1'' 13 None ''z'')]"
  let ?l = "the (find_row lock_key (''nas'', ''dir/a.mkv'') (db_locks files_claimed))"
  have "case run_system ?ops files_claimed of Inl e \<Rightarrow> False | Inr d \<Rightarrow> True" by code_simp
  then have r: "system_run (\<lambda>op. op \<in> set ?ops) files_claimed (system_after ?ops files_claimed)"
    by (rule runs_system) simp
  have f: "find_row lock_key (''nas'', ''dir/a.mkv'') (db_locks files_claimed) = Some ?l" by code_simp
  have g: "l_owner_token ?l = ''ft''" by code_simp
  have p: "lock_path ''/dir//./a.mkv'' = Inr ''dir/a.mkv''" by code_simp
  show ?thesis
    by (rule file_lock_excludes [OF r demo_distinct(4) f _ p, THEN conjunct1])
      (auto simp: owned_lock_def g)
qed

text \<open>The key of a lock is a normal form: normalizing it again changes nothing, it has no backslash, and
  its parts are neither empty nor dots nor a parent directory, so no spelling escapes the lock of
  its file.\<close>

theorem lock_path_normal:
  assumes "lock_path p = Inr q"
  shows "lock_path q = Inr q \<and> q \<noteq> [] \<and> CHR 0x5C \<notin> set q \<and>
    (\<forall>part \<in> set (split_on (CHR ''/'') q). part \<noteq> [] \<and> part \<noteq> ''.'' \<and> part \<noteq> ''..'')"
proof -
  let ?r = "replace_char (CHR 0x5C) (CHR ''/'') p"
  from assms obtain ps where ps: "lock_parts (split_on (CHR ''/'') ?r) = Inr ps" "ps \<noteq> []"
    and q: "q = join_with ''/'' ps"
    by (auto simp: lock_path_def guard_simps)
  from lock_parts_Inr [OF ps(1)] have sub: "set ps \<subseteq> set (split_on (CHR ''/'') ?r)"
    and clean: "list_all clean_part ps" by auto
  have s: "split_on (CHR ''/'') q = ps"
    unfolding q by (rule split_join) (use ps(2) sub split_on_no_sep in blast)+
  have "CHR 0x5C \<notin> set x" if "x \<in> set ps" for x
    using that sub split_on_subset [of x "CHR ''/''" ?r] by (auto simp: replace_char_def)
  then have nb: "CHR 0x5C \<notin> set q" unfolding q by (auto dest: join_with_mem)
  then have "replace_char (CHR 0x5C) (CHR ''/'') q = q"
    by (auto simp: replace_char_def intro!: map_idI)
  with s ps(2) clean q have "lock_path q = Inr q"
    by (simp add: lock_path_def lock_parts_clean)
  moreover have "q \<noteq> []" using s ps(2) clean by (auto simp: clean_part_def)
  ultimately show ?thesis using nb s clean by (auto simp: clean_part_def list_all_iff)
qed

theorem lock_path_normal_witness: "lock_path ''dir/a.mkv'' = Inr ''dir/a.mkv''"
proof -
  have "lock_path ''./dir//a.mkv'' = Inr ''dir/a.mkv''" by code_simp
  from lock_path_normal [OF this] show ?thesis by simp
qed

section \<open>A publication that does not look at the kernel\<close>

definition stolen_task :: ptask where
  "stolen_task = demo_task\<lparr>t_status := TaskFailed, t_error := Some ''boom''\<rparr>"

lemma row_count_one:
  assumes "distinct_rows key rs" "r \<in> set rs" "P r" "\<forall>q \<in> set rs. P q \<longrightarrow> q = r"
  shows "row_count P rs = 1"
  using assms
proof (induction rs)
  case (Cons a rs)
  have a: "key a \<notin> key ` set rs" "distinct_rows key rs" using Cons.prems(1) by (simp_all add: distinct_rows_def)
  note only = Cons.prems(4)
  show ?case
  proof (cases "a = r")
    case True
    with a have "r \<notin> set rs" by blast
    then have "row_count P rs = 0" using only by (intro row_count_none) (metis list.set_intros(2))
    with True Cons.prems(3) show ?thesis by simp
  next
    case False
    with only have "\<not> P a" by (metis list.set_intros(1))
    moreover have "row_count P rs = 1"
      by (rule Cons.IH [OF a(2) _ Cons.prems(3)]) (use Cons.prems(2) False only in auto)
    ultimately show ?thesis by simp
  qed
qed simp

text \<open>C29: The convergence of a failed transfer writes whatever Task it is handed, also one the scheduling
  kernel owns: under a live transfer claim it commits that Task's aggregate, where the guarded Task
  publication of the same claim refuses it.\<close>

theorem convergence_ignores_the_kernel:
  assumes "transfer_claim d (tr_id t) tok now = Inr True" "transfers_ok d"
    and "get_task d (t_id u) \<noteq> None" "scheduled_state d (t_id u) \<noteq> None"
  shows "(\<exists>d'. converge_files_transfer_failure t tok now (Some u) [] [] d = Inr (True, d') \<and>
      get_task d' (t_id u) = Some u) \<and>
    update_task_guarded u (tr_id t) tok now d = Inl TaskSchedulingBypass"
proof -
  from assms(1) obtain r s where s: "now = Aware s" and r: "r \<in> set (db_transfers d)"
    "owned_transfer (tr_id t) tok r" "active_transfer r"
    by (rule claim_row)
  have "row_count (\<lambda>r. owned_transfer (tr_id t) tok r \<and> active_transfer r) (db_transfers d) = 1"
  proof (rule row_count_one [where key = tr_id and r = r])
    show dist: "distinct_rows tr_id (db_transfers d)" using assms(2) by (simp add: transfers_ok_def)
    show "\<forall>q \<in> set (db_transfers d). owned_transfer (tr_id t) tok q \<and> active_transfer q \<longrightarrow> q = r"
      using find_row_mem [OF dist] r by (metis option.inject owned_transfer_def)
  qed (use r in auto)
  moreover have "get_task (write_task u e) (t_id u) = Some u" if "db_tasks e = db_tasks d" for e
  proof -
    obtain v where v: "find_row t_id (t_id u) (db_tasks d) = Some v" using assms(3) by (auto simp: get_task_def)
    then have "t_id v = t_id u" using find_row_key by metis
    with v that find_row_update [of "\<lambda>r. t_id r = t_id u" t_id "\<lambda>_. u" "t_id u" "db_tasks d"]
    show ?thesis by (simp add: get_task_def write_task_def update_task_def)
  qed
  ultimately show ?thesis
    using assms(1,4) s
    by (auto simp: converge_files_transfer_failure_def update_transfer_def update_task_guarded_def
        under_transfer_claim_def reject_scheduling_managed_task_def)
qed

theorem convergence_ignores_the_kernel_witness:
  "\<exists>d'. converge_files_transfer_failure demo_transfer ''ft'' (Aware 15) (Some stolen_task) [] [] files_claimed =
      Inr (True, d') \<and> get_task d' ''t1'' = Some stolen_task"
proof -
  have c: "transfer_claim files_claimed (tr_id demo_transfer) ''ft'' (Aware 15) = Inr True" by code_simp
  have g: "get_task files_claimed (t_id stolen_task) \<noteq> None" by code_simp
  have k: "scheduled_state files_claimed (t_id stolen_task) \<noteq> None" by code_simp
  have i: "t_id stolen_task = ''t1''" by code_simp
  from convergence_ignores_the_kernel [OF c demo_distinct(2) g k] i show ?thesis by simp
qed

end
