(* ===== verification/Calendar.thy ===== *)
theory Calendar
  imports Prelude
begin

text \<open>
  The calendar that Python's \<open>datetime\<close> module gives the cron scanner: dates with their ordinal and
  weekday, the addition of days, and naive wall-clock times, both ordered as Python orders them.
\<close>

section \<open>Dates\<close>

datatype cdate = Date (date_year: nat) (date_month: nat) (date_day: nat)

definition leap_year :: "nat \<Rightarrow> bool" where
  "leap_year y = (y mod 4 = 0 \<and> (y mod 100 \<noteq> 0 \<or> y mod 400 = 0))"

definition days_in_month :: "nat \<Rightarrow> nat \<Rightarrow> nat" where
  "days_in_month y m =
     (if m = 2 then if leap_year y then 29 else 28 else if m \<in> {4, 6, 9, 11} then 30 else 31)"

fun valid_date :: "cdate \<Rightarrow> bool" where
  "valid_date (Date y m d) =
     (1 \<le> y \<and> y \<le> 9999 \<and> 1 \<le> m \<and> m \<le> 12 \<and> 1 \<le> d \<and> d \<le> days_in_month y m)"

definition days_before_year :: "nat \<Rightarrow> nat" where
  "days_before_year y = (let x = y - 1 in x * 365 + (x div 4 - x div 100) + x div 400)"

fun days_before_month :: "nat \<Rightarrow> nat \<Rightarrow> nat" where
  "days_before_month y 0 = 0"
| "days_before_month y (Suc m) = (if m = 0 then 0 else days_before_month y m + days_in_month y m)"

fun ordinal :: "cdate \<Rightarrow> nat" where
  "ordinal (Date y m d) = days_before_year y + days_before_month y m + d"

text \<open>Monday is 0.\<close>

definition weekday :: "cdate \<Rightarrow> nat" where
  "weekday d = (ordinal d + 6) mod 7"

fun next_day :: "cdate \<Rightarrow> cdate" where
  "next_day (Date y m d) =
     (if d < days_in_month y m then Date y m (d + 1)
      else if m < 12 then Date y (m + 1) 1 else Date (y + 1) 1 1)"

definition last_date :: cdate where
  "last_date = Date 9999 12 31"

text \<open>\<open>date + timedelta(days=n)\<close>.\<close>

fun add_days :: "nat \<Rightarrow> cdate \<Rightarrow> cdate result" where
  "add_days 0 d = Inr d"
| "add_days (Suc n) d = raise_if (d = last_date) OverflowError (add_days n (next_day d))"

instantiation cdate :: linorder
begin

definition less_eq_cdate :: "cdate \<Rightarrow> cdate \<Rightarrow> bool" where
  "a \<le> b \<longleftrightarrow> date_year a < date_year b \<or> (date_year a = date_year b \<and>
     (date_month a < date_month b \<or> (date_month a = date_month b \<and> date_day a \<le> date_day b)))"

definition less_cdate :: "cdate \<Rightarrow> cdate \<Rightarrow> bool" where
  "a < b \<longleftrightarrow> a \<le> b \<and> \<not> b \<le> (a :: cdate)"

instance
  by standard (auto simp: less_eq_cdate_def less_cdate_def cdate.expand)

end

section \<open>Ordinals\<close>

lemma days_in_month_pos [simp]: "0 < days_in_month y m"
  by (simp add: days_in_month_def)

lemma div_100_le_4: "(x :: nat) div 100 \<le> x div 4"
  by (rule div_le_mono2) simp_all

lemma days_before_year_Suc:
  assumes "1 \<le> y"
  shows "days_before_year (Suc y) = days_before_year y + (if leap_year y then 366 else 365)"
proof -
  obtain x where y: "y = Suc x" using assms by (cases y) auto
  have s: "Suc x div 4 = x div 4 + (if Suc x mod 4 = 0 then 1 else 0)"
    "Suc x div 100 = x div 100 + (if Suc x mod 100 = 0 then 1 else 0)"
    "Suc x div 400 = x div 400 + (if Suc x mod 400 = 0 then 1 else 0)"
    by (simp_all add: div_Suc)
  have m: "Suc x mod 100 = 0 \<Longrightarrow> Suc x mod 4 = 0" "Suc x mod 400 = 0 \<Longrightarrow> Suc x mod 100 = 0"
    by presburger+
  show ?thesis
    using m div_100_le_4 [of x]
    by (auto simp: y days_before_year_def leap_year_def s Let_def algebra_simps)
qed

lemma days_before_month_year: "days_before_month y 13 = (if leap_year y then 366 else 365)"
  by (simp add: days_before_month.simps(2) days_in_month_def eval_nat_numeral)

lemma days_before_month_le:
  assumes "1 \<le> m" "m < n"
  shows "days_before_month y m + days_in_month y m \<le> days_before_month y n"
  using assms
proof (induction n)
  case (Suc n)
  then show ?case by (cases "m = n") auto
qed simp

lemma days_before_year_le:
  assumes "1 \<le> y" "y < z"
  shows "days_before_year y + (if leap_year y then 366 else 365) \<le> days_before_year z"
  using assms
proof (induction z)
  case (Suc z)
  then show ?case
    using days_before_year_Suc [of z] by (cases "y = z") auto
qed simp

lemma ordinal_in_year:
  assumes "valid_date (Date y m d)"
  shows "days_before_month y m + d \<le> (if leap_year y then 366 else 365)"
  using assms days_before_month_le [of m 13 y] days_before_month_year [of y] by auto

lemma ordinal_less:
  assumes "valid_date a" "valid_date b" "a < b"
  shows "ordinal a < ordinal b"
proof -
  obtain y m d where a: "a = Date y m d" by (cases a)
  obtain z n e where b: "b = Date z n e" by (cases b)
  consider "y < z" | "y = z" "m < n" | "y = z" "m = n" "d < e"
    using assms(3) by (auto simp: a b less_cdate_def less_eq_cdate_def)
  then show ?thesis
  proof cases
    case 1
    then show ?thesis
      using assms ordinal_in_year [of y m d] days_before_year_le [of y z] by (auto simp: a b)
  next
    case 2
    then show ?thesis using assms days_before_month_le [of m n y] by (auto simp: a b)
  next
    case 3
    then show ?thesis by (simp add: a b)
  qed
qed

lemma ordinal_inject: "valid_date a \<Longrightarrow> valid_date b \<Longrightarrow> ordinal a = ordinal b \<Longrightarrow> a = b"
  using ordinal_less by (metis less_irrefl linorder_neqE)

lemma ordinal_le: "valid_date a \<Longrightarrow> valid_date b \<Longrightarrow> a \<le> b \<longleftrightarrow> ordinal a \<le> ordinal b"
  using ordinal_less by (metis leD leI order.order_iff_strict)

lemma next_day_valid: "valid_date d \<Longrightarrow> d \<noteq> last_date \<Longrightarrow> valid_date (next_day d)"
  by (cases d) (auto simp: last_date_def days_in_month_def split: if_splits)

lemma ordinal_next_day: "valid_date d \<Longrightarrow> ordinal (next_day d) = Suc (ordinal d)"
proof -
  assume v: "valid_date d"
  obtain y m k where d: "d = Date y m k" by (cases d)
  show ?thesis
  proof (cases "k < days_in_month y m")
    case False
    with v have k: "k = days_in_month y m" by (simp add: d)
    show ?thesis
    proof (cases "m < 12")
      case True
      then show ?thesis using v k by (simp add: d)
    next
      case False
      with v have "m = 12" by (simp add: d)
      then show ?thesis
        using v k days_before_month_year [of y] days_before_year_Suc [of y]
        by (simp add: d eval_nat_numeral)
    qed
  qed (simp add: d)
qed

lemma add_days_valid: "add_days n d = Inr e \<Longrightarrow> valid_date d \<Longrightarrow> valid_date e \<and> ordinal e = ordinal d + n"
proof (induction n arbitrary: d)
  case (Suc n)
  then show ?case
    using ordinal_next_day [of d] next_day_valid [of d] by (auto simp: guard_simps)
qed simp

lemma add_days_reaches:
  assumes "valid_date d" "valid_date e" "ordinal e = ordinal d + n"
  shows "add_days n d = Inr e"
  using assms
proof (induction n arbitrary: d)
  case 0
  then show ?case by (simp add: ordinal_inject)
next
  case (Suc n)
  have "d \<noteq> last_date"
  proof
    assume "d = last_date"
    then have "e \<le> d" using Suc.prems(2) by (cases e) (auto simp: last_date_def less_eq_cdate_def days_in_month_def split: if_splits)
    with Suc.prems show False by (auto simp: ordinal_le)
  qed
  with Suc show ?case by (auto simp: guard_simps ordinal_next_day next_day_valid)
qed

lemma add_days_prefix:
  assumes "add_days n d = Inr e" "k \<le> n"
  shows "\<exists>c. add_days k d = Inr c"
  using assms
proof (induction k arbitrary: n d)
  case (Suc k)
  then obtain m where "n = Suc m" by (cases n) auto
  with Suc show ?case by (auto simp: guard_simps)
qed simp

section \<open>How soon a day recurs\<close>

lemma next_leap_year:
  obtains j where "1 \<le> j" "j \<le> (if leap_year y then 8 else 7)" "leap_year (y + j)"
    "\<And>k. 1 \<le> k \<Longrightarrow> k < j \<Longrightarrow> \<not> leap_year (y + k)"
proof -
  define P where "P j = (1 \<le> j \<and> leap_year (y + j))" for j
  have ex: "\<exists>j. P j \<and> j \<le> (if leap_year y then 8 else 7)"
  proof -
    let ?a = "4 - y mod 4"
    have a: "(y + ?a) mod 4 = 0" "1 \<le> ?a" "?a \<le> 4" by presburger+
    show ?thesis
    proof (cases "leap_year (y + ?a)")
      case True
      with a show ?thesis by (intro exI [where x = ?a]) (auto simp: P_def)
    next
      case False
      with a have h: "(y + ?a) mod 100 = 0" by (auto simp: leap_year_def)
      have four: "(b + 4) mod 4 = 0 \<and> (b + 4) mod 100 \<noteq> 0" if "b mod 4 = 0" "b mod 100 = 0" for b :: nat
        using that by presburger
      from four [OF a(1) h] have "(y + (?a + 4)) mod 4 = 0" "(y + (?a + 4)) mod 100 \<noteq> 0"
        by (simp_all add: add.assoc)
      then have l: "leap_year (y + (?a + 4))" by (simp add: leap_year_def)
      have same: "leap_year y" if "y mod 4 = 0" "(y + 4) mod 100 = 0"
      proof -
        have "y mod 100 \<noteq> 0" using that by presburger
        with that(1) show ?thesis by (simp add: leap_year_def)
      qed
      have "leap_year y" if "?a = 4" using same h that a(1) by simp
      moreover have "?a = 4 \<or> ?a + 4 \<le> 7" by linarith
      ultimately have "?a + 4 \<le> (if leap_year y then 8 else 7)" using a(3) by (auto split: if_split)
      moreover have "P (?a + 4)" using l unfolding P_def by simp
      ultimately show ?thesis by blast
    qed
  qed
  define j where "j = (LEAST j. P j)"
  from ex obtain i where i: "P i" "i \<le> (if leap_year y then 8 else 7)" by blast
  then have "P j" "j \<le> i" unfolding j_def by (auto intro: LeastI Least_le)
  moreover have "\<not> P k" if "k < j" for k using that not_less_Least unfolding j_def by blast
  ultimately show thesis using i(2) by (intro that [of j]) (auto simp: P_def)
qed

lemma days_before_year_add:
  assumes "1 \<le> y" "1 \<le> j" "\<And>k. 1 \<le> k \<Longrightarrow> k < j \<Longrightarrow> \<not> leap_year (y + k)"
  shows "days_before_year (y + j) = days_before_year y + 365 * j + (if leap_year y then 1 else 0)"
  using assms(2,3)
proof (induction j)
  case (Suc j)
  show ?case
  proof (cases "j = 0")
    case True
    then show ?thesis using assms(1) days_before_year_Suc [of y] by simp
  next
    case False
    then have "\<not> leap_year (y + j)" "days_before_year (y + j) = days_before_year y + 365 * j + (if leap_year y then 1 else 0)"
      using Suc by simp_all
    then show ?thesis using assms(1) days_before_year_Suc [of "y + j"] by simp
  qed
qed simp

text \<open>Every day of the calendar recurs within 732 days, the leap day within 2921.\<close>

lemma day_recurs:
  assumes s: "valid_date s" "date_year s \<le> 9990" and m: "1 \<le> m" "m \<le> 12" and d: "1 \<le> d" "d \<le> days_in_month 2000 m"
  obtains y where "valid_date (Date y m d)" "ordinal s \<le> ordinal (Date y m d)"
    "ordinal (Date y m d) \<le> ordinal s + (if m = 2 \<and> d = 29 then 2921 else 732)"
proof -
  obtain sy sm sd where sd: "s = Date sy sm sd" by (cases s)
  have sy: "1 \<le> sy" "sy \<le> 9990" using s by (simp_all add: sd)
  show thesis
  proof (cases "m = 2 \<and> d = 29")
    case False
    let ?t = "Date (sy + 1) m d"
    from False d have "d \<le> days_in_month (sy + 1) m" by (auto simp: days_in_month_def leap_year_def split: if_splits)
    then have v: "valid_date ?t" using sy m d by simp
    moreover have "ordinal s < ordinal ?t"
      using ordinal_less [OF s(1) v] by (simp add: sd less_cdate_def less_eq_cdate_def)
    moreover have "ordinal ?t \<le> ordinal s + 732"
      using ordinal_in_year [OF v] days_before_year_Suc [OF sy(1)] by (auto simp: sd split: if_splits)
    ultimately show thesis using False by (intro that [of "sy + 1"]) (auto simp only: if_False)
  next
    case True
    have feb: "days_before_month y 2 = 31" for y by (simp add: numeral_2_eq_2 days_in_month_def)
    have leap: "valid_date (Date y 2 29)" if "leap_year y" "1 \<le> y" "y \<le> 9999" for y
      using that by (simp add: days_in_month_def)
    show thesis
    proof (cases "leap_year sy \<and> s \<le> Date sy 2 29")
      case this_year: True
      have v: "valid_date (Date sy 2 29)" using leap this_year sy by simp
      have "ordinal s \<le> ordinal (Date sy 2 29)" using ordinal_le [OF s(1) v] this_year by simp
      moreover have "ordinal (Date sy 2 29) \<le> ordinal s + 2921" by (simp add: sd feb)
      ultimately show thesis using that [of sy] v True by simp
    next
      case later: False
      obtain j where j: "1 \<le> j" "j \<le> (if leap_year sy then 8 else 7)" "leap_year (sy + j)"
        "\<And>k. 1 \<le> k \<Longrightarrow> k < j \<Longrightarrow> \<not> leap_year (sy + k)" by (rule next_leap_year [of sy]) blast
      then have "sy + j \<le> 9999" using sy by (simp split: if_splits)
      then have v: "valid_date (Date (sy + j) 2 29)" using leap [OF j(3)] sy by simp
      have o: "ordinal (Date (sy + j) 2 29) = days_before_year sy + 365 * j + (if leap_year sy then 1 else 0) + 60"
        using days_before_year_add [OF sy(1) j(1,4)] by (simp add: feb)
      have "s < Date (sy + j) 2 29" using j(1) by (simp add: sd less_cdate_def less_eq_cdate_def)
      from ordinal_less [OF s(1) v this] have lo: "ordinal s \<le> ordinal (Date (sy + j) 2 29)" by simp
      have "ordinal (Date (sy + j) 2 29) \<le> ordinal s + 2921"
      proof (cases "leap_year sy")
        case True
        with later have g: "Date sy 2 29 < s" by simp
        have "valid_date (Date sy 2 29)" using leap True sy by simp
        from ordinal_less [OF this s(1) g] have "days_before_year sy + 60 < ordinal s" by (simp add: feb)
        with o True j(2) show ?thesis by simp
      next
        case False
        have "days_before_year sy \<le> ordinal s" by (simp add: sd)
        with o False j(2) show ?thesis by simp
      qed
      with lo v True show thesis by (intro that [of "sy + j"]) simp_all
    qed
  qed
qed

section \<open>Wall-clock times\<close>

text \<open>A naive \<open>datetime\<close>: the last component counts the microseconds of its minute.\<close>

datatype wall = Wall (wall_date: cdate) (wall_hour: nat) (wall_minute: nat) (wall_rest: nat)

instantiation wall :: linorder
begin

definition less_eq_wall :: "wall \<Rightarrow> wall \<Rightarrow> bool" where
  "a \<le> b \<longleftrightarrow> wall_date a < wall_date b \<or> (wall_date a = wall_date b \<and>
     (wall_hour a < wall_hour b \<or> (wall_hour a = wall_hour b \<and>
      (wall_minute a < wall_minute b \<or> (wall_minute a = wall_minute b \<and> wall_rest a \<le> wall_rest b)))))"

definition less_wall :: "wall \<Rightarrow> wall \<Rightarrow> bool" where
  "a < b \<longleftrightarrow> a \<le> b \<and> \<not> b \<le> (a :: wall)"

instance
  by standard (auto simp: less_eq_wall_def less_wall_def wall.expand)

end

end
