(* ===== verification/Cron.thy ===== *)
theory Cron
  imports Calendar
begin

text \<open>
  \<open>domain/cron.py\<close>: the five cron fields, their parser, and the scan for the next occurrence. What
  \<open>zoneinfo\<close> knows of a timezone enters as two functions: the wall time of an instant, and the
  instant of a wall time (with \<open>fold=0\<close>).
\<close>

section \<open>Loops that return\<close>

text \<open>\<open>for x in xs\<close> with a \<open>return\<close> in its body, over a list and over a range.\<close>

fun first_return :: "('x \<Rightarrow> 'r option result) \<Rightarrow> 'x list \<Rightarrow> 'r option result" where
  "first_return f [] = Inr None"
| "first_return f (x # xs) =
     bind_result (f x) (\<lambda>r. case r of None \<Rightarrow> first_return f xs | Some v \<Rightarrow> Inr (Some v))"

function range_return :: "(nat \<Rightarrow> 'r option result) \<Rightarrow> nat \<Rightarrow> nat \<Rightarrow> 'r option result" where
  "range_return f i n =
     (if i < n
      then bind_result (f i) (\<lambda>r. case r of None \<Rightarrow> range_return f (i + 1) n | Some v \<Rightarrow> Inr (Some v))
      else Inr None)"
  by pat_completeness auto
termination by (relation "measure (\<lambda>(f, i, n). n - i)") auto

declare range_return.simps [simp del]

section \<open>Fields\<close>

record cron_field =
  cf_values :: "nat set"
  cf_wildcard :: bool

definition star :: string where
  "star = ''*''"

definition cron_step :: "string \<Rightarrow> string \<Rightarrow> nat result" where
  "cron_step base s =
     raise_if (\<not> py_isdigit s) ValueError
     (bind_result (py_int s) (\<lambda>n.
      raise_if (n < 1) ValueError
      (raise_if (base \<noteq> star \<and> CHR ''-'' \<notin> set base) ValueError (Inr n))))"

definition cron_bounds :: "nat \<Rightarrow> nat \<Rightarrow> string \<Rightarrow> (nat \<times> nat) result" where
  "cron_bounds lo hi base =
     (if base = star then Inr (lo, hi)
      else if CHR ''-'' \<in> set base then
        (case split_on (CHR ''-'') base of
           [a, b] \<Rightarrow>
             raise_if (\<not> (py_isdigit a \<and> py_isdigit b)) ValueError
             (bind_result (py_int a) (\<lambda>i. bind_result (py_int b) (\<lambda>j.
              raise_if (j < i) ValueError (Inr (i, j)))))
         | _ \<Rightarrow> Inl ValueError)
      else if py_isdigit base then bind_result (py_int base) (\<lambda>i. Inr (i, i))
      else Inl ValueError)"

text \<open>\<open>range(start, end + 1, step)\<close>.\<close>

definition step_range :: "nat \<Rightarrow> nat \<Rightarrow> nat \<Rightarrow> nat list" where
  "step_range a b k = (if a \<le> b then map (\<lambda>i. a + i * k) [0..<(b - a) div k + 1] else [])"

definition cron_token :: "nat \<Rightarrow> nat \<Rightarrow> string \<Rightarrow> nat set result" where
  "cron_token lo hi token =
     raise_if (token = []) ValueError
     (let parts = split_on (CHR ''/'') token; base = hd parts in
      raise_if (2 < length parts) ValueError
      (bind_result (if length parts = 2 then cron_step base (parts ! 1) else Inr 1) (\<lambda>k.
       bind_result (cron_bounds lo hi base) (\<lambda>(a, b).
       raise_if (a < lo \<or> hi < b) ValueError (Inr (set (step_range a b k)))))))"

fun cron_tokens :: "nat \<Rightarrow> nat \<Rightarrow> string list \<Rightarrow> nat set result" where
  "cron_tokens lo hi [] = Inr {}"
| "cron_tokens lo hi (t # ts) =
     bind_result (cron_token lo hi t) (\<lambda>v. bind_result (cron_tokens lo hi ts) (\<lambda>w. Inr (v \<union> w)))"

definition parse_cron_field :: "nat \<Rightarrow> nat \<Rightarrow> string \<Rightarrow> cron_field result" where
  "parse_cron_field lo hi source =
     raise_if (source = [] \<or> list_ex py_space source) ValueError
     (bind_result (cron_tokens lo hi (split_on (CHR '','') source)) (\<lambda>vs.
      raise_if (vs = {}) ValueError (Inr \<lparr>cf_values = vs, cf_wildcard = (source = star)\<rparr>)))"

section \<open>Expressions\<close>

record cron_expression =
  ce_source :: string
  ce_minutes :: cron_field
  ce_hours :: cron_field
  ce_days :: cron_field
  ce_months :: cron_field
  ce_weekdays :: cron_field

definition parse_cron :: "string \<Rightarrow> cron_expression result" where
  "parse_cron source =
     raise_if (128 < length source) ValueError
     (case split_ws source of
        [mi, ho, da, mo, we] \<Rightarrow>
          bind_result (parse_cron_field 0 59 mi) (\<lambda>fmi.
          bind_result (parse_cron_field 0 23 ho) (\<lambda>fho.
          bind_result (parse_cron_field 1 31 da) (\<lambda>fda.
          bind_result (parse_cron_field 1 12 mo) (\<lambda>fmo.
          bind_result (parse_cron_field 0 6 we) (\<lambda>fwe.
          Inr \<lparr>ce_source = join_with '' '' [mi, ho, da, mo, we], ce_minutes = fmi, ce_hours = fho,
               ce_days = fda, ce_months = fmo, ce_weekdays = fwe\<rparr>)))))
      | _ \<Rightarrow> Inl ValueError)"

definition date_matches :: "cron_expression \<Rightarrow> cdate \<Rightarrow> bool" where
  "date_matches e d =
     (let day_match = (date_month d \<in> cf_values (ce_months e) \<and> date_day d \<in> cf_values (ce_days e));
          weekday_match = ((weekday d + 1) mod 7 \<in> cf_values (ce_weekdays e));
          selected_day =
            (if cf_wildcard (ce_days e) \<and> cf_wildcard (ce_weekdays e) then True
             else if cf_wildcard (ce_days e) then weekday_match
             else if cf_wildcard (ce_weekdays e) then day_match
             else day_match \<or> weekday_match)
      in date_month d \<in> cf_values (ce_months e) \<and> selected_day)"

section \<open>The scan\<close>

definition cron_window :: nat where
  "cron_window = 366 * 8"

definition cron_candidate ::
  "(instant \<Rightarrow> wall) \<Rightarrow> (wall \<Rightarrow> instant) \<Rightarrow> instant \<Rightarrow> bool \<Rightarrow> cdate \<Rightarrow> nat \<Rightarrow> nat \<Rightarrow> instant option" where
  "cron_candidate local_of instant_of boundary incl d h m =
     (let naive = Wall d h m 0; candidate = instant_of naive in
      if local_of candidate \<noteq> naive then None
      else if boundary < candidate \<or> (incl \<and> candidate = boundary) then Some candidate
      else None)"

definition scan_date ::
  "(instant \<Rightarrow> wall) \<Rightarrow> (wall \<Rightarrow> instant) \<Rightarrow> cron_expression \<Rightarrow> instant \<Rightarrow> bool \<Rightarrow> cdate \<Rightarrow>
   instant option result" where
  "scan_date local_of instant_of e boundary incl d =
     (if \<not> date_matches e d then Inr None
      else first_return (\<lambda>h. first_return
             (\<lambda>m. Inr (cron_candidate local_of instant_of boundary incl d h m))
             (sorted_list_of_set (cf_values (ce_minutes e))))
           (sorted_list_of_set (cf_values (ce_hours e))))"

definition cron_next ::
  "(instant \<Rightarrow> wall) \<Rightarrow> (wall \<Rightarrow> instant) \<Rightarrow> cron_expression \<Rightarrow> bool \<Rightarrow> datetime \<Rightarrow> instant result" where
  "cron_next local_of instant_of e incl now =
     bind_result (require_aware now) (\<lambda>boundary.
     let local_start = wall_date (local_of boundary) in
     bind_result (range_return (\<lambda>i. bind_result (add_days i local_start)
         (scan_date local_of instant_of e boundary incl)) 0 cron_window) (\<lambda>r.
     case r of None \<Rightarrow> Inl ValueError | Some c \<Rightarrow> Inr c))"

definition next_at_or_after ::
  "(instant \<Rightarrow> wall) \<Rightarrow> (wall \<Rightarrow> instant) \<Rightarrow> cron_expression \<Rightarrow> datetime \<Rightarrow> instant result" where
  "next_at_or_after local_of instant_of e now = cron_next local_of instant_of e True now"

definition next_after ::
  "(instant \<Rightarrow> wall) \<Rightarrow> (wall \<Rightarrow> instant) \<Rightarrow> cron_expression \<Rightarrow> datetime \<Rightarrow> instant result" where
  "next_after local_of instant_of e now = cron_next local_of instant_of e False now"

section \<open>What the loops answer\<close>

lemma first_return_None: "first_return f xs = Inr None \<longleftrightarrow> (\<forall>x \<in> set xs. f x = Inr None)"
  by (induction xs) (auto simp: guard_simps split: option.splits)

lemma first_return_Some:
  assumes "first_return f xs = Inr (Some v)" "sorted xs"
  shows "\<exists>x \<in> set xs. f x = Inr (Some v) \<and> (\<forall>y \<in> set xs. y < x \<longrightarrow> f y = Inr None)"
  using assms
proof (induction xs)
  case (Cons x xs)
  have le: "\<forall>y \<in> set xs. x \<le> y" and srt: "sorted xs" using Cons.prems(2) by simp_all
  from Cons.prems(1) obtain r where r: "f x = Inr r"
    "(case r of None \<Rightarrow> first_return f xs | Some v \<Rightarrow> Inr (Some v)) = Inr (Some v)"
    by (simp add: bind_result_Inr) blast
  then consider "f x = Inr (Some v)" | "f x = Inr None" "first_return f xs = Inr (Some v)"
    by (cases r) simp_all
  then show ?case
  proof cases
    case 1
    with le show ?thesis by (intro bexI [where x = x]) (auto simp: not_less [symmetric])
  next
    case 2
    from Cons.IH [OF 2(2) srt] obtain z where z: "z \<in> set xs" "f z = Inr (Some v)"
      "\<forall>y \<in> set xs. y < z \<longrightarrow> f y = Inr None" by blast
    with 2(1) show ?thesis by (intro bexI [where x = z]) auto
  qed
qed simp

text \<open>The loop over a range is the loop over its list.\<close>

lemma range_return_list: "range_return f i n = first_return f [i..<n]"
proof (induction "n - i" arbitrary: i)
  case 0
  then show ?case by (simp add: range_return.simps [of f i n])
next
  case (Suc k)
  then have "i < n" "range_return f (i + 1) n = first_return f [Suc i..<n]" by simp_all
  then show ?case by (simp add: range_return.simps [of f i n] upt_conv_Cons)
qed

lemma first_return_found:
  assumes "first_return f xs \<noteq> Inr None" "\<And>x e. x \<in> set xs \<Longrightarrow> f x \<noteq> Inl e"
  shows "\<exists>v. first_return f xs = Inr (Some v)"
  using assms
proof (induction xs)
  case (Cons x xs)
  obtain r where r: "f x = Inr r" using Cons.prems(2) [of x] by (cases "f x") auto
  show ?case
  proof (cases r)
    case None
    with r Cons show ?thesis by simp
  qed (simp add: r)
qed simp

lemma first_return_append:
  "first_return f (xs @ ys) =
     bind_result (first_return f xs) (\<lambda>r. case r of None \<Rightarrow> first_return f ys | Some v \<Rightarrow> Inr (Some v))"
  by (induction xs) (auto simp: bind_result_def split: sum.splits option.splits)

section \<open>What the parser accepts\<close>

definition field_within :: "nat \<Rightarrow> nat \<Rightarrow> cron_field \<Rightarrow> bool" where
  "field_within lo hi f = (cf_values f \<noteq> {} \<and> cf_values f \<subseteq> {lo..hi})"

lemma step_range_within: "set (step_range a b k) \<subseteq> {a..b}"
proof
  fix x assume "x \<in> set (step_range a b k)"
  then obtain i where "i < (b - a) div k + 1" and i: "x = a + i * k" "a \<le> b"
    unfolding step_range_def by (auto simp only: set_map set_upt image_iff split: if_splits) auto
  then have "i \<le> (b - a) div k" by simp
  then have "i * k \<le> (b - a) div k * k" by (rule mult_le_mono1)
  also have "\<dots> \<le> b - a" by (rule div_times_less_eq_dividend)
  finally show "x \<in> {a..b}" using i by auto
qed

lemma cron_token_within: "cron_token lo hi t = Inr vs \<Longrightarrow> vs \<subseteq> {lo..hi}"
  using step_range_within by (fastforce simp: cron_token_def guard_simps Let_def)

lemma cron_tokens_within: "cron_tokens lo hi ts = Inr vs \<Longrightarrow> vs \<subseteq> {lo..hi}"
proof (induction ts arbitrary: vs)
  case (Cons t ts)
  then obtain v w where "cron_token lo hi t = Inr v" "cron_tokens lo hi ts = Inr w" "vs = v \<union> w"
    by (auto simp: guard_simps)
  with Cons.IH cron_token_within show ?case by blast
qed simp

lemma parse_cron_field_within: "parse_cron_field lo hi s = Inr f \<Longrightarrow> field_within lo hi f"
  by (auto simp: parse_cron_field_def guard_simps field_within_def dest!: cron_tokens_within)

lemma parse_cron_Inr:
  assumes "parse_cron s = Inr e"
  obtains mi ho da mo we where "length s \<le> 128" "split_ws s = [mi, ho, da, mo, we]"
    "ce_source e = join_with '' '' [mi, ho, da, mo, we]"
    "parse_cron_field 0 59 mi = Inr (ce_minutes e)" "parse_cron_field 0 23 ho = Inr (ce_hours e)"
    "parse_cron_field 1 31 da = Inr (ce_days e)" "parse_cron_field 1 12 mo = Inr (ce_months e)"
    "parse_cron_field 0 6 we = Inr (ce_weekdays e)"
  using assms
  by (auto simp: parse_cron_def guard_simps split: list.splits)

lemma parse_cron_within:
  assumes "parse_cron s = Inr e"
  shows "field_within 0 59 (ce_minutes e)" "field_within 0 23 (ce_hours e)" "field_within 1 31 (ce_days e)"
    "field_within 1 12 (ce_months e)" "field_within 0 6 (ce_weekdays e)"
  by (rule parse_cron_Inr [OF assms], erule parse_cron_field_within)+

section \<open>Words of a line\<close>

definition good_word :: "string \<Rightarrow> bool" where
  "good_word w = (w \<noteq> [] \<and> list_all (\<lambda>c. \<not> py_space c) w)"

lemma words_from_good:
  "list_all (\<lambda>c. \<not> py_space c) cur \<Longrightarrow> list_all good_word (words_from cur s)"
  by (induction cur s rule: words_from.induct) (auto simp: good_word_def)

lemma words_from_word:
  "list_all (\<lambda>c. \<not> py_space c) w \<Longrightarrow>
    words_from cur (w @ CHR '' '' # s) = (if rev cur @ w = [] then [] else [rev cur @ w]) @ words_from [] s"
  by (induction w arbitrary: cur) (auto simp: py_space_def code_def)

lemma words_from_last:
  "list_all (\<lambda>c. \<not> py_space c) w \<Longrightarrow> words_from cur w = (if rev cur @ w = [] then [] else [rev cur @ w])"
  by (induction w arbitrary: cur) auto

lemma split_ws_join: "list_all good_word ws \<Longrightarrow> split_ws (join_with '' '' ws) = ws"
  by (induction "'' ''" ws rule: join_with.induct)
    (auto simp: split_ws_def good_word_def words_from_word words_from_last)

lemma length_words_from: "length (join_with '' '' (words_from cur s)) \<le> length cur + length s"
proof (induction cur s rule: words_from.induct)
  case (2 cur c cs)
  show ?case
  proof (cases "py_space c \<and> cur \<noteq> []")
    case True
    have "length (join_with '' '' (rev cur # ws)) \<le> length cur + 1 + length (join_with '' '' ws)" for ws
      by (cases ws) auto
    from this [of "words_from [] cs"] 2 True show ?thesis by simp
  next
    case False
    with 2 show ?thesis by auto
  qed
qed auto

end
