(* ===== verification/Cron_Properties.thy ===== *)
theory Cron_Properties
  imports Cron
begin

text \<open>
  The parser of cron expressions is a normalizer, and the scan finds the next occurrence: the least
  instant after the boundary whose wall time the expression matches, in any timezone whose wall clock
  obeys the laws below.
\<close>

section \<open>What the scan of one date answers\<close>

text \<open>An occurrence: an instant that the expression's wall time denotes, and that shows this wall time.\<close>

definition cron_occurs ::
  "(instant \<Rightarrow> wall) \<Rightarrow> (wall \<Rightarrow> instant) \<Rightarrow> cron_expression \<Rightarrow> instant \<Rightarrow> bool" where
  "cron_occurs local_of instant_of e i =
     (let w = local_of i in
      instant_of w = i \<and> wall_rest w = 0 \<and> valid_date (wall_date w) \<and> date_matches e (wall_date w) \<and>
      wall_hour w \<in> cf_values (ce_hours e) \<and> wall_minute w \<in> cf_values (ce_minutes e))"

definition after_boundary :: "bool \<Rightarrow> instant \<Rightarrow> instant \<Rightarrow> bool" where
  "after_boundary incl b i = (b < i \<or> (incl \<and> i = b))"

definition finite_times :: "cron_expression \<Rightarrow> bool" where
  "finite_times e = (finite (cf_values (ce_hours e)) \<and> finite (cf_values (ce_minutes e)))"

lemma candidate_Some:
  "cron_candidate L I b incl d h m = Some c \<longleftrightarrow>
    c = I (Wall d h m 0) \<and> L c = Wall d h m 0 \<and> after_boundary incl b c"
  by (auto simp: cron_candidate_def after_boundary_def Let_def)

lemma first_candidate:
  "first_return (\<lambda>m. Inr (g m)) ms = Inr None \<longleftrightarrow> (\<forall>m \<in> set ms. g m = None)"
  by (simp add: first_return_None)

lemma scan_date_None:
  assumes "scan_date L I e b incl d = Inr None" "finite_times e" "date_matches e d"
    "h \<in> cf_values (ce_hours e)" "m \<in> cf_values (ce_minutes e)"
  shows "cron_candidate L I b incl d h m = None"
  using assms by (auto simp: scan_date_def first_return_None finite_times_def)

lemma scan_date_Some:
  assumes "scan_date L I e b incl d = Inr (Some c)" "finite_times e"
  obtains h m where "date_matches e d" "h \<in> cf_values (ce_hours e)" "m \<in> cf_values (ce_minutes e)"
    "cron_candidate L I b incl d h m = Some c"
    "\<forall>h' \<in> cf_values (ce_hours e). \<forall>m' \<in> cf_values (ce_minutes e).
       h' < h \<or> (h' = h \<and> m' < m) \<longrightarrow> cron_candidate L I b incl d h' m' = None"
proof -
  let ?H = "sorted_list_of_set (cf_values (ce_hours e))"
  let ?M = "sorted_list_of_set (cf_values (ce_minutes e))"
  let ?in = "\<lambda>h. first_return (\<lambda>m. Inr (cron_candidate L I b incl d h m)) ?M"
  have sets: "set ?H = cf_values (ce_hours e)" "set ?M = cf_values (ce_minutes e)"
    using assms(2) by (simp_all add: finite_times_def)
  from assms(1) have md: "date_matches e d" and run: "first_return ?in ?H = Inr (Some c)"
    by (auto simp: scan_date_def split: if_splits)
  from first_return_Some [OF run] obtain h where h: "h \<in> set ?H" "?in h = Inr (Some c)"
    "\<forall>y \<in> set ?H. y < h \<longrightarrow> ?in y = Inr None" by auto
  from first_return_Some [OF h(2)] obtain m where m: "m \<in> set ?M"
    "cron_candidate L I b incl d h m = Some c"
    "\<forall>y \<in> set ?M. y < m \<longrightarrow> cron_candidate L I b incl d h y = None" by auto
  show thesis
    by (rule that [of h m]) (use md h m sets in \<open>auto simp: first_return_None\<close>)
qed

lemma first_return_Inl: "first_return f xs = Inl x \<Longrightarrow> \<exists>y \<in> set xs. f y = Inl x"
  by (induction xs) (auto simp: bind_result_def split: sum.splits option.splits)

lemma scan_date_total: "scan_date L I e b incl d \<noteq> Inl x"
  by (auto simp: scan_date_def dest!: first_return_Inl)

lemma add_days_Inl: "add_days n d = Inl x \<Longrightarrow> x = OverflowError"
  by (induction n arbitrary: d) (auto simp: guard_simps)

section \<open>The laws of a wall clock\<close>

text \<open>
  Within its range a wall clock shows valid dates; the wall time an instant shows is denoted (with
  \<open>fold=0\<close>) by that instant or an earlier one that shows it too; and among wall times that exist, a
  later one denotes a later instant. A wall time skipped by a change of offset does not exist.
\<close>

locale wall_clock =
  fixes local_of :: "instant \<Rightarrow> wall" and instant_of :: "wall \<Rightarrow> instant" and in_range :: "instant \<Rightarrow> bool"
  assumes valid: "in_range b \<Longrightarrow> valid_date (wall_date (local_of b))"
    and denoted: "in_range b \<Longrightarrow> instant_of (local_of b) \<le> b \<and> local_of (instant_of (local_of b)) = local_of b"
    and forward: "local_of (instant_of v) = v \<Longrightarrow> local_of (instant_of w) = w \<Longrightarrow> v \<le> w \<Longrightarrow>
      instant_of v \<le> instant_of w"
begin

lemma start_before:
  assumes "in_range b" "cron_occurs local_of instant_of e i" "after_boundary incl b i"
  shows "wall_date (local_of b) \<le> wall_date (local_of i)"
proof (rule ccontr)
  assume "\<not> wall_date (local_of b) \<le> wall_date (local_of i)"
  then have "local_of i \<le> local_of b" and ne: "local_of i \<noteq> local_of b"
    by (auto simp: less_eq_wall_def)
  moreover have i: "instant_of (local_of i) = i" using assms(2) by (simp add: cron_occurs_def Let_def)
  ultimately have "i \<le> b" using forward [of "local_of i" "local_of b"] denoted [OF assms(1)] by simp
  with assms(3) have "i = b" by (auto simp: after_boundary_def)
  with ne show False by simp
qed

text \<open>The day on which the scan meets an occurrence.\<close>

lemma day_of:
  assumes "in_range b" "cron_occurs local_of instant_of e i" "after_boundary incl b i"
  defines "j \<equiv> ordinal (wall_date (local_of i)) - ordinal (wall_date (local_of b))"
  shows "add_days j (wall_date (local_of b)) = Inr (wall_date (local_of i))"
    "ordinal (wall_date (local_of i)) = ordinal (wall_date (local_of b)) + j"
proof -
  have v: "valid_date (wall_date (local_of i))" "valid_date (wall_date (local_of b))"
    using assms valid by (simp_all add: cron_occurs_def Let_def)
  with start_before [OF assms(1-3)] have "ordinal (wall_date (local_of b)) \<le> ordinal (wall_date (local_of i))"
    by (simp add: ordinal_le)
  then show "ordinal (wall_date (local_of i)) = ordinal (wall_date (local_of b)) + j" by (simp add: j_def)
  then show "add_days j (wall_date (local_of b)) = Inr (wall_date (local_of i))"
    by (rule add_days_reaches [OF v(2,1)])
qed

lemma met_on_day:
  assumes "cron_occurs local_of instant_of e i" "after_boundary incl b i" "finite_times e"
  shows "scan_date local_of instant_of e b incl (wall_date (local_of i)) \<noteq> Inr None"
    "cron_candidate local_of instant_of b incl (wall_date (local_of i)) (wall_hour (local_of i))
       (wall_minute (local_of i)) = Some i"
proof -
  have w: "local_of i = Wall (wall_date (local_of i)) (wall_hour (local_of i)) (wall_minute (local_of i)) 0"
    using assms(1) by (cases "local_of i") (simp add: cron_occurs_def Let_def)
  then show c: "cron_candidate local_of instant_of b incl (wall_date (local_of i)) (wall_hour (local_of i))
       (wall_minute (local_of i)) = Some i"
    using assms(1,2) by (simp add: candidate_Some cron_occurs_def Let_def)
  show "scan_date local_of instant_of e b incl (wall_date (local_of i)) \<noteq> Inr None"
    using c assms(1,3) by (auto simp: cron_occurs_def Let_def dest: scan_date_None)
qed

lemma scan_meets:
  assumes "cron_next local_of instant_of e incl (Aware b) = Inr r"
  obtains k d where "add_days k (wall_date (local_of b)) = Inr d"
    "scan_date local_of instant_of e b incl d = Inr (Some r)"
    "\<forall>j c. j < k \<longrightarrow> add_days j (wall_date (local_of b)) = Inr c \<longrightarrow>
       scan_date local_of instant_of e b incl c = Inr None"
proof -
  let ?f = "\<lambda>i. bind_result (add_days i (wall_date (local_of b))) (scan_date local_of instant_of e b incl)"
  from assms have run: "first_return ?f [0..<cron_window] = Inr (Some r)"
    by (auto simp: cron_next_def guard_simps range_return_list Let_def split: option.splits)
  from first_return_Some [OF run] obtain k where k: "?f k = Inr (Some r)" "k < cron_window"
    "\<forall>j < cron_window. j < k \<longrightarrow> ?f j = Inr None" by auto
  from k(1) obtain d where d: "add_days k (wall_date (local_of b)) = Inr d"
    "scan_date local_of instant_of e b incl d = Inr (Some r)" by (auto simp: guard_simps)
  have "scan_date local_of instant_of e b incl c = Inr None"
    if "j < k" "add_days j (wall_date (local_of b)) = Inr c" for j c
  proof -
    from k(2,3) that(1) have "?f j = Inr None" by simp
    with that(2) show ?thesis by simp
  qed
  then show thesis by (intro that [OF d]) blast
qed

theorem next_is_least:
  assumes "in_range b" "finite_times e" "cron_next local_of instant_of e incl (Aware b) = Inr r"
  shows "cron_occurs local_of instant_of e r \<and> after_boundary incl b r \<and>
    (\<forall>i. cron_occurs local_of instant_of e i \<longrightarrow> after_boundary incl b i \<longrightarrow> r \<le> i)"
proof -
  let ?start = "wall_date (local_of b)"
  from assms(3) obtain k d where k: "add_days k ?start = Inr d"
    "scan_date local_of instant_of e b incl d = Inr (Some r)"
    "\<forall>j c. j < k \<longrightarrow> add_days j ?start = Inr c \<longrightarrow> scan_date local_of instant_of e b incl c = Inr None"
    by (rule scan_meets)
  from k(2) assms(2) obtain h m where hm: "date_matches e d" "h \<in> cf_values (ce_hours e)"
    "m \<in> cf_values (ce_minutes e)" "cron_candidate local_of instant_of b incl d h m = Some r"
    "\<forall>h' \<in> cf_values (ce_hours e). \<forall>m' \<in> cf_values (ce_minutes e).
       h' < h \<or> (h' = h \<and> m' < m) \<longrightarrow> cron_candidate local_of instant_of b incl d h' m' = None"
    by (rule scan_date_Some)
  from hm(4) have r: "instant_of (Wall d h m 0) = r" "local_of r = Wall d h m 0" "after_boundary incl b r"
    by (auto simp: candidate_Some)
  have dv: "valid_date d" "ordinal d = ordinal ?start + k"
    using add_days_valid [OF k(1)] valid [OF assms(1)] by auto
  have occ: "cron_occurs local_of instant_of e r" using r hm dv by (simp add: cron_occurs_def Let_def)
  have "r \<le> i" if i: "cron_occurs local_of instant_of e i" "after_boundary incl b i" for i
  proof (rule ccontr)
    let ?w = "local_of i"
    assume "\<not> r \<le> i"
    moreover have e: "instant_of ?w = i" using i(1) by (simp add: cron_occurs_def Let_def)
    ultimately have lt: "?w < Wall d h m 0" using forward [of "Wall d h m 0" ?w] r by (metis not_le)
    define j where "j = ordinal (wall_date ?w) - ordinal ?start"
    from day_of [OF assms(1) i] have j: "add_days j ?start = Inr (wall_date ?w)"
      "ordinal (wall_date ?w) = ordinal ?start + j" by (simp_all add: j_def)
    have wv: "valid_date (wall_date ?w)" using i(1) by (simp add: cron_occurs_def Let_def)
    from lt have "wall_date ?w \<le> d" by (auto simp: less_wall_def less_eq_wall_def)
    then have "j \<le> k" using ordinal_le [OF wv dv(1)] j(2) dv(2) by simp
    moreover have "\<not> j < k" using met_on_day(1) [OF i assms(2)] k(3) j(1) by blast
    ultimately have d: "wall_date ?w = d" using j(1) k(1) by simp
    with lt have "wall_hour ?w < h \<or> (wall_hour ?w = h \<and> wall_minute ?w < m)"
      by (auto simp: less_wall_def less_eq_wall_def)
    with hm(5) met_on_day(2) [OF i assms(2)] i(1) d show False by (auto simp: cron_occurs_def Let_def)
  qed
  with occ r(3) show ?thesis by blast
qed

theorem refusal_is_a_gap:
  assumes "in_range b" "finite_times e" "cron_next local_of instant_of e incl (Aware b) = Inl ValueError"
    "cron_occurs local_of instant_of e i" "after_boundary incl b i"
  shows "ordinal (wall_date (local_of b)) + cron_window \<le> ordinal (wall_date (local_of i))"
proof (rule ccontr)
  let ?f = "\<lambda>i. bind_result (add_days i (wall_date (local_of b))) (scan_date local_of instant_of e b incl)"
  have "first_return ?f [0..<cron_window] = Inr None"
  proof -
    have "first_return ?f [0..<cron_window] \<noteq> Inl ValueError"
      using scan_date_total by (auto dest!: first_return_Inl add_days_Inl simp: bind_result_def split: sum.splits)
    with assms(3) show ?thesis
      by (auto simp: cron_next_def range_return_list Let_def bind_result_def split: sum.splits option.splits)
  qed
  then have none: "?f k = Inr None" if "k < cron_window" for k using that by (simp add: first_return_None)
  assume "\<not> ordinal (wall_date (local_of b)) + cron_window \<le> ordinal (wall_date (local_of i))"
  then have "ordinal (wall_date (local_of i)) - ordinal (wall_date (local_of b)) < cron_window"
    by (simp add: cron_window_def)
  from none [OF this] day_of(1) [OF assms(1,4,5)] met_on_day(1) [OF assms(4,5,2)] show False by simp
qed

lemma scan_finds:
  assumes "in_range b" "finite_times e" "cron_occurs local_of instant_of e i" "after_boundary incl b i"
    "ordinal (wall_date (local_of i)) < ordinal (wall_date (local_of b)) + cron_window"
  shows "\<exists>r. cron_next local_of instant_of e incl (Aware b) = Inr r"
proof -
  let ?f = "\<lambda>k. bind_result (add_days k (wall_date (local_of b))) (scan_date local_of instant_of e b incl)"
  define j where "j = ordinal (wall_date (local_of i)) - ordinal (wall_date (local_of b))"
  from day_of [OF assms(1,3,4)] have j: "add_days j (wall_date (local_of b)) = Inr (wall_date (local_of i))"
    "ordinal (wall_date (local_of i)) = ordinal (wall_date (local_of b)) + j" by (simp_all add: j_def)
  have fj: "?f j \<noteq> Inr None" using j(1) met_on_day(1) [OF assms(3,4,2)] by simp
  then have some: "first_return ?f [0..<Suc j] \<noteq> Inr None" unfolding first_return_None by auto
  have ok: "?f k \<noteq> Inl x" if k: "k \<in> set [0..<Suc j]" for k x
  proof -
    obtain c where "add_days k (wall_date (local_of b)) = Inr c"
      using add_days_prefix [OF j(1), of k] k by auto
    then show ?thesis by (simp add: scan_date_total)
  qed
  from first_return_found [OF some ok] obtain v where v: "first_return ?f [0..<Suc j] = Inr (Some v)" by auto
  have "[0..<cron_window] = [0..<Suc j] @ [Suc j..<cron_window]"
    using upt_add_eq_append [of 0 "Suc j" "cron_window - Suc j"] assms(5) j(2) by simp
  then have "first_return ?f [0..<cron_window] = Inr (Some v)"
    using first_return_append [of ?f "[0..<Suc j]" "[Suc j..<cron_window]"] v by simp
  then show ?thesis by (simp add: cron_next_def range_return_list Let_def)
qed

end

section \<open>The days an expression selects\<close>

lemma weekday_cron: "(weekday d + 1) mod 7 = ordinal d mod 7"
proof -
  have "((n + 6) mod 7 + 1) mod 7 = n mod 7" for n :: nat by presburger
  then show ?thesis by (simp add: weekday_def)
qed

lemma weekday_shift: "(n + (w + 7 - n mod 7) mod 7) mod 7 = w mod 7" for n w :: nat
proof -
  have "n + (w + 7 - n mod 7) = 7 * (n div 7 + 1) + w"
  proof -
    have eq: "n + (w + 7 - r) = 7 * (q + 1) + w" if "n = 7 * q + r" "r < 7" for q r
      using that by simp
    show ?thesis by (rule eq) simp_all
  qed
  then show ?thesis by (metis mod_add_right_eq mod_mult_self4)
qed

text \<open>A parsed expression selects a day within every 2921 days, if one of its days exists at all.\<close>

lemma selected_day_recurs:
  assumes p: "parse_cron src = Inr e" and s: "valid_date s" "date_year s \<le> 9990"
    and m: "m \<in> cf_values (ce_months e)" and d: "d \<in> cf_values (ce_days e)" "d \<le> days_in_month 2000 m"
  obtains t where "valid_date t" "date_matches e t" "ordinal s \<le> ordinal t" "ordinal t \<le> ordinal s + 2921"
proof -
  note within = parse_cron_within [OF p]
  from within(3,4) m d have md: "1 \<le> m" "m \<le> 12" "1 \<le> d" by (auto simp: field_within_def)
  show thesis
  proof (cases "cf_wildcard (ce_days e) \<and> \<not> cf_wildcard (ce_weekdays e)")
    case False
    from day_recurs [OF s md(1,2,3) d(2)] obtain y where y: "valid_date (Date y m d)"
      "ordinal s \<le> ordinal (Date y m d)"
      "ordinal (Date y m d) \<le> ordinal s + (if m = 2 \<and> d = 29 then 2921 else 732)" .
    then have "ordinal (Date y m d) \<le> ordinal s + 2921" by (simp split: if_splits)
    moreover have "date_matches e (Date y m d)"
      using False m d(1) by (auto simp: date_matches_def Let_def)
    ultimately show thesis using y by (intro that [of "Date y m d"])
  next
    case True
    from within(5) obtain w where w: "w \<in> cf_values (ce_weekdays e)" "w \<le> 6"
      unfolding field_within_def by fastforce
    have one: "(1::nat) \<le> days_in_month 2000 m" by (simp add: Suc_leI)
    from day_recurs [OF s md(1,2) le_refl one] obtain y where y: "valid_date (Date y m 1)"
      "ordinal s \<le> ordinal (Date y m 1)" "ordinal (Date y m 1) \<le> ordinal s + 732" by auto
    define k where "k = (w + 7 - ordinal (Date y m 1) mod 7) mod 7"
    have k: "k \<le> 6" "(ordinal (Date y m 1) + k) mod 7 = w"
      using w(2) weekday_shift [of "ordinal (Date y m 1)" w] unfolding k_def
      by (simp_all only: mod_less)
    let ?t = "Date y m (1 + k)"
    have "7 \<le> days_in_month y m" by (simp add: days_in_month_def)
    with y(1) k(1) have v: "valid_date ?t" by simp
    have o: "ordinal ?t = ordinal (Date y m 1) + k" by simp
    have "date_matches e ?t"
      using True m w k(2) weekday_cron [of ?t] unfolding o by (simp add: date_matches_def)
    with v o y k(1) show thesis by (intro that [of ?t]) auto
  qed
qed

section \<open>The clock of UTC\<close>

text \<open>UTC from 1970 on: every wall time is denoted by exactly one instant.\<close>

definition day_us :: int where
  "day_us = 86400000000"

definition epoch_date :: cdate where
  "epoch_date = Date 1970 1 1"

fun days_on :: "nat \<Rightarrow> cdate \<Rightarrow> cdate" where
  "days_on 0 d = d"
| "days_on (Suc n) d = (if d = last_date then d else days_on n (next_day d))"

definition utc_local :: "instant \<Rightarrow> wall" where
  "utc_local t =
     (let r = nat (t mod day_us)
      in Wall (days_on (nat (t div day_us)) epoch_date) (r div 3600000000)
           (r mod 3600000000 div 60000000) (r mod 60000000))"

definition utc_instant :: "wall \<Rightarrow> instant" where
  "utc_instant w =
     (int (ordinal (wall_date w)) - int (ordinal epoch_date)) * day_us +
     int (wall_hour w * 3600000000 + wall_minute w * 60000000 + wall_rest w)"

definition utc_range :: "instant \<Rightarrow> bool" where
  "utc_range t = (0 \<le> t \<and> t div day_us + int (ordinal epoch_date) \<le> int (ordinal last_date))"

lemma days_on_valid: "valid_date d \<Longrightarrow> valid_date (days_on n d)"
  by (induction n arbitrary: d) (auto simp: next_day_valid)

lemma days_on_ordinal:
  "valid_date d \<Longrightarrow> ordinal d + n \<le> ordinal last_date \<Longrightarrow> ordinal (days_on n d) = ordinal d + n"
  by (induction n arbitrary: d) (auto simp: ordinal_next_day next_day_valid)

lemma utc_wall:
  assumes "w = utc_local t"
  shows "valid_date (wall_date w)" "wall_hour w < 24" "wall_minute w < 60" "wall_rest w < 60000000"
proof -
  have r: "nat (t mod day_us) < 24 * 3600000000" by (simp add: day_us_def nat_less_iff)
  show "valid_date (wall_date w)"
    by (simp add: assms utc_local_def Let_def days_on_valid epoch_date_def days_in_month_def)
  show "wall_hour w < 24"
    using r by (simp add: assms utc_local_def Let_def less_mult_imp_div_less)
  have "nat (t mod day_us) mod 3600000000 < 60 * 60000000" by simp
  then show "wall_minute w < 60"
    unfolding assms utc_local_def Let_def by (simp add: less_mult_imp_div_less)
  show "wall_rest w < 60000000" by (simp add: assms utc_local_def Let_def)
qed

interpretation utc: wall_clock utc_local utc_instant utc_range
proof
  fix b assume "utc_range b"
  show "valid_date (wall_date (utc_local b))" by (rule utc_wall) simp
next
  fix b assume b: "utc_range b"
  have e: "valid_date epoch_date" by (simp add: epoch_date_def days_in_month_def)
  have "ordinal epoch_date + nat (b div day_us) \<le> ordinal last_date"
    using b by (auto simp: utc_range_def day_us_def)
  then have o: "ordinal (days_on (nat (b div day_us)) epoch_date) = ordinal epoch_date + nat (b div day_us)"
    by (rule days_on_ordinal [OF e])
  have r: "0 \<le> b mod day_us" "0 \<le> b div day_us" using b by (auto simp: day_us_def utc_range_def)
  have split: "n div 3600000000 * 3600000000 + n mod 3600000000 div 60000000 * 60000000 + n mod 60000000 = n" for n :: nat
  proof -
    have "n mod 3600000000 mod 60000000 = n mod 60000000" by (rule mod_mod_cancel) simp
    then show ?thesis
      using div_mult_mod_eq [of n 3600000000] div_mult_mod_eq [of "n mod 3600000000" 60000000] by linarith
  qed
  have "utc_instant (utc_local b) = b"
    using r split [of "nat (b mod day_us)"]
    by (simp add: utc_instant_def utc_local_def Let_def o)
  then show "utc_instant (utc_local b) \<le> b \<and> utc_local (utc_instant (utc_local b)) = utc_local b" by simp
next
  fix v w assume "utc_local (utc_instant v) = v" "utc_local (utc_instant w) = w" "v \<le> w"
  note v = utc_wall [OF this(1) [symmetric]] and w = utc_wall [OF this(2) [symmetric]]
  let ?t = "\<lambda>x. wall_hour x * 3600000000 + wall_minute x * 60000000 + wall_rest x"
  consider "wall_date v < wall_date w" | "wall_date v = wall_date w" "?t v \<le> ?t w"
    using \<open>v \<le> w\<close> v(3,4) unfolding less_eq_wall_def by fastforce
  then show "utc_instant v \<le> utc_instant w"
  proof cases
    case 1
    with v(1) w(1) have "ordinal (wall_date v) < ordinal (wall_date w)" by (rule ordinal_less)
    then have "int (ordinal (wall_date v)) + 1 \<le> int (ordinal (wall_date w))" by simp
    then have "(int (ordinal (wall_date v)) - int (ordinal epoch_date)) * day_us + day_us \<le>
        (int (ordinal (wall_date w)) - int (ordinal epoch_date)) * day_us"
      by (simp add: day_us_def)
    moreover have "int (?t v) < day_us" using v(2-4) by (simp add: day_us_def)
    ultimately show ?thesis by (simp add: utc_instant_def)
  next
    case 2
    then show ?thesis by (simp add: utc_instant_def)
  qed
qed

lemma parsed_finite: "parse_cron s = Inr e \<Longrightarrow> finite_times e"
  using parse_cron_within [of s e] by (auto simp: finite_times_def field_within_def intro: finite_subset)

lemma days_on_add: "add_days n d = Inr e \<Longrightarrow> days_on n d = e"
  by (induction n arbitrary: d) (auto simp: guard_simps)

lemma clock_split:
  assumes "m < 60" "r < 60000000"
  shows "(h * 3600000000 + m * 60000000 + r) div 3600000000 = (h :: nat)"
    "(h * 3600000000 + m * 60000000 + r) mod 3600000000 div 60000000 = m"
    "(h * 3600000000 + m * 60000000 + r) mod 60000000 = r"
proof -
  have i: "m * 60000000 + r < 3600000000" using assms by simp
  have x: "h * 3600000000 + m * 60000000 + r = (m * 60000000 + r) + h * 3600000000" by simp
  show "(h * 3600000000 + m * 60000000 + r) div 3600000000 = h"
    using i unfolding x by (subst div_mult_self1) simp_all
  have "(h * 3600000000 + m * 60000000 + r) mod 3600000000 = m * 60000000 + r"
    using i unfolding x by (subst mod_mult_self1) simp
  moreover have "(m * 60000000 + r) div 60000000 = m" using assms(2) by simp
  ultimately show "(h * 3600000000 + m * 60000000 + r) mod 3600000000 div 60000000 = m" by simp
  have y: "h * 3600000000 + m * 60000000 + r = r + (h * 60 + m) * 60000000" by simp
  show "(h * 3600000000 + m * 60000000 + r) mod 60000000 = r"
    using assms(2) unfolding y by (subst mod_mult_self1) simp
qed

text \<open>Every wall time from 1970 on exists in UTC.\<close>

lemma utc_exists:
  assumes "valid_date t" "epoch_date \<le> t" "h < 24" "m < 60" "r < 60000000"
  shows "utc_local (utc_instant (Wall t h m r)) = Wall t h m r"
proof -
  have e: "valid_date epoch_date" by (simp add: epoch_date_def days_in_month_def)
  define n where "n = ordinal t - ordinal epoch_date"
  have n: "ordinal t = ordinal epoch_date + n" using assms ordinal_le [OF e assms(1)] by (simp add: n_def)
  have d: "days_on n epoch_date = t" using add_days_reaches [OF e assms(1) n] by (rule days_on_add)
  let ?x = "h * 3600000000 + m * 60000000 + r"
  have x: "int ?x < day_us" using assms(3-5) by (simp add: day_us_def)
  have i: "utc_instant (Wall t h m r) = int ?x + int n * day_us" by (simp add: utc_instant_def n)
  have "utc_instant (Wall t h m r) div day_us = int n" "utc_instant (Wall t h m r) mod day_us = int ?x"
    using x unfolding i by (simp_all add: day_us_def)
  then have "utc_local (utc_instant (Wall t h m r)) =
      Wall (days_on n epoch_date) (?x div 3600000000) (?x mod 3600000000 div 60000000) (?x mod 60000000)"
    unfolding utc_local_def Let_def by (simp only: nat_int)
  then show ?thesis by (simp only: d clock_split [OF assms(4,5)])
qed

lemma utc_later: "ordinal epoch_date + 2 \<le> ordinal (wall_date w) \<Longrightarrow> 0 < utc_instant w"
proof -
  assume "ordinal epoch_date + 2 \<le> ordinal (wall_date w)"
  then have "2 \<le> int (ordinal (wall_date w)) - int (ordinal epoch_date)" by linarith
  then have "2 * day_us \<le> (int (ordinal (wall_date w)) - int (ordinal epoch_date)) * day_us"
    by (rule mult_right_mono) (simp add: day_us_def)
  then show ?thesis by (simp add: utc_instant_def day_us_def)
qed

lemma two_days_on:
  assumes "valid_date d" "date_year d \<le> 9980"
  shows "\<exists>e. valid_date e \<and> date_year e \<le> 9990 \<and> ordinal e = ordinal d + 2"
proof -
  have y: "date_year (next_day x) \<le> date_year x + 1" for x by (cases x) simp
  have n: "x \<noteq> last_date" if "date_year x \<le> 9981" for x using that by (auto simp: last_date_def)
  have 1: "valid_date (next_day d)" "date_year (next_day d) \<le> 9981"
    using assms n next_day_valid [of d] y [of d] by auto
  then have "valid_date (next_day (next_day d))" "date_year (next_day (next_day d)) \<le> 9990"
    using n next_day_valid [of "next_day d"] y [of "next_day d"] by auto
  then show ?thesis using 1 assms(1) by (auto simp: ordinal_next_day)
qed

section \<open>Properties\<close>

text \<open>C31: Parsing normalizes: the stored source of a parsed expression parses to that very expression, and
  every field has values, all within the bounds of its unit.\<close>

theorem cron_parse_normal:
  assumes "parse_cron s = Inr e"
  shows "parse_cron (ce_source e) = Inr e \<and> field_within 0 59 (ce_minutes e) \<and>
    field_within 0 23 (ce_hours e) \<and> field_within 1 31 (ce_days e) \<and>
    field_within 1 12 (ce_months e) \<and> field_within 0 6 (ce_weekdays e)"
proof -
  from assms obtain mi ho da mo we where len: "length s \<le> 128" and w: "split_ws s = [mi, ho, da, mo, we]"
    and src: "ce_source e = join_with '' '' [mi, ho, da, mo, we]"
    and f: "parse_cron_field 0 59 mi = Inr (ce_minutes e)" "parse_cron_field 0 23 ho = Inr (ce_hours e)"
      "parse_cron_field 1 31 da = Inr (ce_days e)" "parse_cron_field 1 12 mo = Inr (ce_months e)"
      "parse_cron_field 0 6 we = Inr (ce_weekdays e)"
    by (rule parse_cron_Inr)
  have "length (ce_source e) \<le> 128" using length_words_from [of "[]" s] w len src by (simp add: split_ws_def)
  moreover have "split_ws (ce_source e) = [mi, ho, da, mo, we]"
  proof -
    have "list_all good_word (split_ws s)" unfolding split_ws_def by (rule words_from_good) simp
    then show ?thesis unfolding src w by (rule split_ws_join)
  qed
  ultimately have "parse_cron (ce_source e) = Inr e"
    using f src by (simp add: parse_cron_def)
  with parse_cron_within [OF assms] show ?thesis by blast
qed

theorem cron_parse_normal_witness:
  "\<exists>e. parse_cron ''  */15   8-18/2 *  1,7 1-5 '' = Inr e \<and> parse_cron (ce_source e) = Inr e \<and>
    ce_source e = ''*/15 8-18/2 * 1,7 1-5'' \<and> field_within 0 23 (ce_hours e)"
proof -
  let ?r = "parse_cron ''  */15   8-18/2 *  1,7 1-5 ''"
  have "case ?r of Inl x \<Rightarrow> False | Inr e \<Rightarrow> ce_source e = ''*/15 8-18/2 * 1,7 1-5''" by code_simp
  then obtain e where e: "?r = Inr e" "ce_source e = ''*/15 8-18/2 * 1,7 1-5''" by (auto split: sum.splits)
  from cron_parse_normal [OF e(1)] e show ?thesis by auto
qed

text \<open>C30: The scan answers with the next occurrence: in a timezone whose wall clock obeys the laws, what it
  returns is an occurrence of the expression after the boundary (or on it, where the caller allows
  that), and no earlier instant after the boundary is one. A refusal for lack of an occurrence means
  that every later occurrence lies beyond the eight-year window.\<close>

theorem cron_next_is_the_next_occurrence:
  assumes "wall_clock local_of instant_of in_range" "in_range b" "parse_cron s = Inr e"
  shows "(cron_next local_of instant_of e incl (Aware b) = Inr r \<longrightarrow>
      cron_occurs local_of instant_of e r \<and> after_boundary incl b r \<and>
      (\<forall>i. cron_occurs local_of instant_of e i \<and> after_boundary incl b i \<longrightarrow> r \<le> i)) \<and>
    (cron_next local_of instant_of e incl (Aware b) = Inl ValueError \<longrightarrow>
      (\<forall>i. cron_occurs local_of instant_of e i \<and> after_boundary incl b i \<longrightarrow>
        ordinal (wall_date (local_of b)) + cron_window \<le> ordinal (wall_date (local_of i))))"
proof -
  note fin = parsed_finite [OF assms(3)]
  from wall_clock.next_is_least [OF assms(1,2) fin] wall_clock.refusal_is_a_gap [OF assms(1,2) fin]
  show ?thesis by blast
qed

lemma epoch_facts: "valid_date epoch_date" "ordinal epoch_date = 719163" "utc_range 0"
  "utc_local 0 = Wall epoch_date 0 0 0"
proof -
  show e: "valid_date epoch_date" by (simp add: epoch_date_def days_in_month_def)
  have "valid_date last_date" by (simp add: last_date_def days_in_month_def)
  from ordinal_le [OF e this] show "utc_range 0"
    by (simp add: utc_range_def epoch_date_def last_date_def less_eq_cdate_def del: ordinal.simps)
  show "ordinal epoch_date = 719163" by (simp add: epoch_date_def days_before_year_def)
  show "utc_local 0 = Wall epoch_date 0 0 0" by (simp add: utc_local_def day_us_def)
qed

definition first_sunday :: cdate where
  "first_sunday = Date 1970 1 4"

theorem cron_next_is_the_next_occurrence_witness:
  "\<exists>e r. parse_cron ''30 4 * * 0'' = Inr e \<and> cron_next utc_local utc_instant e False (Aware 0) = Inr r \<and>
    cron_occurs utc_local utc_instant e r \<and> 0 < r \<and> r \<le> utc_instant (Wall first_sunday 4 30 0)"
proof -
  let ?i = "utc_instant (Wall first_sunday 4 30 0)"
  have "case parse_cron ''30 4 * * 0'' of Inl x \<Rightarrow> False
      | Inr e \<Rightarrow> 30 \<in> cf_values (ce_minutes e) \<and> 4 \<in> cf_values (ce_hours e) \<and> cf_wildcard (ce_days e) \<and>
          1 \<in> cf_values (ce_months e) \<and> 0 \<in> cf_values (ce_weekdays e)" by code_simp
  then obtain e where e: "parse_cron ''30 4 * * 0'' = Inr e" and
    f: "30 \<in> cf_values (ce_minutes e)" "4 \<in> cf_values (ce_hours e)" "cf_wildcard (ce_days e)"
      "1 \<in> cf_values (ce_months e)" "0 \<in> cf_values (ce_weekdays e)"
    by (auto split: sum.splits)
  have s: "valid_date first_sunday" "epoch_date \<le> first_sunday" "ordinal first_sunday = 719166"
    by (simp_all add: first_sunday_def epoch_date_def days_in_month_def less_eq_cdate_def days_before_year_def)
  have l: "utc_local ?i = Wall first_sunday 4 30 0" using s by (intro utc_exists) simp_all
  have "date_matches e first_sunday"
    unfolding date_matches_def weekday_cron using f s(3) by (simp add: first_sunday_def)
  then have o: "cron_occurs utc_local utc_instant e ?i" using l s f by (simp add: cron_occurs_def)
  have a: "after_boundary False 0 ?i" using s epoch_facts by (simp add: after_boundary_def utc_instant_def day_us_def)
  have "ordinal (wall_date (utc_local ?i)) < ordinal (wall_date (utc_local 0)) + cron_window"
    by (simp add: l s epoch_facts cron_window_def)
  from utc.scan_finds [OF epoch_facts(3) parsed_finite [OF e] o a this] obtain r where
    r: "cron_next utc_local utc_instant e False (Aware 0) = Inr r" by blast
  with cron_next_is_the_next_occurrence [OF utc.wall_clock_axioms epoch_facts(3) e] e o a show ?thesis
    by (auto simp: after_boundary_def)
qed

text \<open>The eight-year window is wide enough: an expression one of whose days exists in some year always
  has a next occurrence, the leap day too, when one of its wall times exists on every date, a change
  of offset repeats less than two days, and the calendar does not end within the window.\<close>

theorem cron_window_suffices:
  assumes "wall_clock local_of instant_of in_range" "in_range b" "parse_cron s = Inr e"
    and "m \<in> cf_values (ce_months e)" "d \<in> cf_values (ce_days e)" "d \<le> days_in_month 2000 m"
    and "h \<in> cf_values (ce_hours e)" "mi \<in> cf_values (ce_minutes e)"
    and "\<And>t. valid_date t \<Longrightarrow> wall_date (local_of b) \<le> t \<Longrightarrow>
      local_of (instant_of (Wall t h mi 0)) = Wall t h mi 0"
    and "\<And>w. local_of (instant_of w) = w \<Longrightarrow>
      ordinal (wall_date (local_of b)) + 2 \<le> ordinal (wall_date w) \<Longrightarrow> b < instant_of w"
    and "date_year (wall_date (local_of b)) \<le> 9980"
  shows "\<exists>r. cron_next local_of instant_of e incl (Aware b) = Inr r"
proof -
  let ?s = "wall_date (local_of b)"
  have sv: "valid_date ?s" using wall_clock.valid [OF assms(1,2)] .
  note fin = parsed_finite [OF assms(3)]
  from sv obtain s2 where s2: "valid_date s2" "date_year s2 \<le> 9990" "ordinal s2 = ordinal ?s + 2"
    using two_days_on assms(11) by metis
  from selected_day_recurs [OF assms(3) s2(1,2) assms(4,5,6)] obtain t where t: "valid_date t"
    "date_matches e t" "ordinal s2 \<le> ordinal t" "ordinal t \<le> ordinal s2 + 2921" .
  let ?i = "instant_of (Wall t h mi 0)"
  have l: "local_of ?i = Wall t h mi 0"
    using assms(9) [OF t(1)] ordinal_le [OF sv t(1)] t(3) s2(3) by simp
  have "cron_occurs local_of instant_of e ?i" using l t assms(7,8) by (simp add: cron_occurs_def Let_def)
  moreover have "after_boundary incl b ?i" using assms(10) [OF l] t(3) s2(3) by (simp add: after_boundary_def)
  moreover have "ordinal (wall_date (local_of ?i)) < ordinal ?s + cron_window"
    using l t(4) s2(3) by (simp add: cron_window_def)
  ultimately show ?thesis by (rule wall_clock.scan_finds [OF assms(1,2) fin])
qed

theorem cron_window_suffices_witness:
  "\<exists>e r. parse_cron ''0 0 29 2 *'' = Inr e \<and> cron_next utc_local utc_instant e True (Aware 0) = Inr r"
proof -
  have "case parse_cron ''0 0 29 2 *'' of Inl x \<Rightarrow> False | Inr e \<Rightarrow>
      2 \<in> cf_values (ce_months e) \<and> 29 \<in> cf_values (ce_days e) \<and> 0 \<in> cf_values (ce_hours e) \<and>
      0 \<in> cf_values (ce_minutes e)" by code_simp
  then obtain e where e: "parse_cron ''0 0 29 2 *'' = Inr e" "2 \<in> cf_values (ce_months e)"
    "29 \<in> cf_values (ce_days e)" "0 \<in> cf_values (ce_hours e)" "0 \<in> cf_values (ce_minutes e)"
    by (auto split: sum.splits)
  have d: "29 \<le> days_in_month 2000 2" by (simp add: days_in_month_def leap_year_def)
  have y: "date_year (wall_date (utc_local 0)) \<le> 9980" by (simp add: epoch_facts epoch_date_def)
  have "\<exists>r. cron_next utc_local utc_instant e True (Aware 0) = Inr r"
    by (rule cron_window_suffices [OF utc.wall_clock_axioms epoch_facts(3) e(1,2,3) d e(4,5) _ _ y])
      (simp_all add: epoch_facts(4) utc_exists utc_later)
  with e(1) show ?thesis by blast
qed

end
