(* ===== verification/Posix_Paths.thy ===== *)
theory Posix_Paths
  imports Prelude
begin

text \<open>
  The functions of \<open>posixpath\<close> the program composes paths with: \<open>normpath\<close>, \<open>join\<close>, \<open>split\<close> and
  \<open>splitext\<close>; and the test of a relative path it repeats in several modules.
\<close>

section \<open>normpath\<close>

definition nul :: char where
  "nul = CHR 0x00"

definition slash :: char where
  "slash = CHR ''/''"

definition backslash :: char where
  "backslash = CHR 0x5C"

text \<open>The component loop, and the leading slashes it keeps.\<close>

fun normal_parts :: "bool \<Rightarrow> string list \<Rightarrow> string list \<Rightarrow> string list" where
  "normal_parts rooted new [] = new"
| "normal_parts rooted new (c # cs) =
     (if c = [] \<or> c = ''.'' then normal_parts rooted new cs
      else if c \<noteq> ''..'' \<or> (\<not> rooted \<and> new = []) \<or> (new \<noteq> [] \<and> last new = ''..'')
      then normal_parts rooted (new @ [c]) cs
      else normal_parts rooted (butlast new) cs)"

definition leading_slashes :: "string \<Rightarrow> string" where
  "leading_slashes s =
     (if starts_with ''//'' s \<and> \<not> starts_with ''///'' s then ''//''
      else if starts_with ''/'' s then ''/'' else [])"

definition normpath :: "string \<Rightarrow> string" where
  "normpath s =
     (if s = [] then ''.''
      else let p = leading_slashes s @ join_with [slash] (normal_parts (starts_with ''/'' s) [] (split_on slash s))
           in if p = [] then ''.'' else p)"

section \<open>join\<close>

definition join_step :: "string \<Rightarrow> string \<Rightarrow> string" where
  "join_step a b =
     (if starts_with ''/'' b then b else if a = [] \<or> last a = slash then a @ b else a @ [slash] @ b)"

definition path_join :: "string \<Rightarrow> string list \<Rightarrow> string" where
  "path_join a bs = foldl join_step a bs"

section \<open>split and splitext\<close>

definition path_basename :: "string \<Rightarrow> string" where
  "path_basename s = last (split_on slash s)"

definition path_dirname :: "string \<Rightarrow> string" where
  "path_dirname s =
     (let head = take (length s - length (path_basename s)) s in
      if list_all (\<lambda>c. c = slash) head then head
      else rev (dropWhile (\<lambda>c. c = slash) (rev head)))"

text \<open>The extension starts at the last dot of the base name, unless only dots precede it there.\<close>

definition path_splitext :: "string \<Rightarrow> string \<times> string" where
  "path_splitext s =
     (let tail = path_basename s; parts = split_on (CHR ''.'') tail; ext = last parts;
          stem = take (length tail - length ext - 1) tail in
      if 1 < length parts \<and> list_ex (\<lambda>c. c \<noteq> CHR ''.'') stem
      then (take (length s - length ext - 1) s, CHR ''.'' # ext) else (s, []))"

section \<open>Relative paths\<close>

definition unsafe_part :: "string \<Rightarrow> bool" where
  "unsafe_part s = (s = [] \<or> s = ''.'' \<or> s = ''..'')"

definition unsafe_relative_path :: "string \<Rightarrow> bool" where
  "unsafe_relative_path s =
     (s = [] \<or> starts_with ''/'' s \<or> starts_with [backslash] s \<or> backslash \<in> set s \<or> nul \<in> set s \<or>
      list_ex unsafe_part (split_on slash s))"

text \<open>What it leaves: components that are no navigation and hold no separator.\<close>

definition safe_part :: "string \<Rightarrow> bool" where
  "safe_part s = (\<not> unsafe_part s \<and> slash \<notin> set s \<and> backslash \<notin> set s \<and> nul \<notin> set s)"

lemma starts_slash: "starts_with ''/'' s \<longleftrightarrow> (\<exists>t. s = slash # t)"
  by (cases s) (auto simp: starts_with_def slash_def)

lemma split_on_hd_empty: "split_on c (c # s) = [] # split_on c s"
  by simp

lemma split_on_members: "p \<in> set (split_on c s) \<Longrightarrow> set p \<subseteq> set s"
  by (induction s arbitrary: p) (auto split: if_splits list.splits, blast+)

lemma split_on_covers: "x \<in> set s \<Longrightarrow> x \<noteq> c \<Longrightarrow> \<exists>p \<in> set (split_on c s). x \<in> set p"
  by (induction s) (auto split: list.splits)

lemma safe_relative_iff: "\<not> unsafe_relative_path s \<longleftrightarrow> list_all safe_part (split_on slash s)"
proof
  assume s: "\<not> unsafe_relative_path s"
  show "list_all safe_part (split_on slash s)"
  proof (unfold list_all_iff, rule ballI)
    fix p assume p: "p \<in> set (split_on slash s)"
    show "safe_part p"
      using s p split_on_members [OF p] split_on_no_sep [OF p]
      by (auto simp: unsafe_relative_path_def safe_part_def list_ex_iff)
  qed
next
  assume all: "list_all safe_part (split_on slash s)"
  have "x \<noteq> backslash \<and> x \<noteq> nul" if x: "x \<in> set s" for x
  proof (cases "x = slash")
    case True
    then show ?thesis by (simp add: slash_def backslash_def nul_def)
  next
    case False
    from split_on_covers [OF x this] all show ?thesis by (auto simp: list_all_iff safe_part_def)
  qed
  moreover have "s \<noteq> []" "\<not> starts_with ''/'' s"
    using all by (auto simp: starts_slash safe_part_def unsafe_part_def)
  moreover have "\<not> list_ex unsafe_part (split_on slash s)"
    using all by (auto simp: list_ex_iff list_all_iff safe_part_def)
  moreover have "\<not> starts_with [backslash] s"
    using calculation(1) by (cases s) (auto simp: starts_with_def)
  ultimately show "\<not> unsafe_relative_path s" by (auto simp: unsafe_relative_path_def)
qed

lemma safe_part_iff: "safe_part p \<longleftrightarrow> \<not> unsafe_relative_path p \<and> slash \<notin> set p"
proof (cases "slash \<in> set p")
  case False
  then show ?thesis by (simp add: safe_relative_iff split_on_simple)
qed (simp add: safe_part_def)

lemma split_on_sep: "split_on c (s @ c # t) = split_on c s @ split_on c t"
  by (induction s) (auto split: list.splits simp: Cons_eq_append_conv)

lemma safe_path_split:
  assumes "\<not> unsafe_relative_path s"
  shows "s \<noteq> []" "hd s \<noteq> slash" "last s \<noteq> slash"
proof -
  show "s \<noteq> []" using assms by (auto simp: unsafe_relative_path_def)
  show "hd s \<noteq> slash" using assms by (cases s) (auto simp: unsafe_relative_path_def starts_slash)
  show "last s \<noteq> slash"
  proof
    assume "last s = slash"
    then obtain t where "s = t @ [slash]" using \<open>s \<noteq> []\<close> by (metis append_butlast_last_id)
    moreover have "[] \<in> set (split_on slash (t @ [slash]))" for t
      using split_on_sep [of slash t "[]"] by simp
    ultimately show False using assms by (auto simp: safe_relative_iff list_all_iff safe_part_def unsafe_part_def)
  qed
qed

text \<open>Joining safe relative paths puts one slash between them.\<close>

lemma join_step_safe: "\<not> unsafe_relative_path a \<Longrightarrow> \<not> unsafe_relative_path b \<Longrightarrow> join_step a b = a @ [slash] @ b"
  using safe_path_split [of a] safe_path_split [of b] by (auto simp: join_step_def starts_slash)

lemma safe_append:
  "\<not> unsafe_relative_path (a @ [slash] @ b) \<longleftrightarrow> \<not> unsafe_relative_path a \<and> \<not> unsafe_relative_path b"
  by (simp add: safe_relative_iff split_on_sep)

lemma path_join_safe:
  assumes "\<not> unsafe_relative_path a" "\<forall>b \<in> set bs. \<not> unsafe_relative_path b"
  shows "path_join a bs = join_with [slash] (a # bs) \<and> \<not> unsafe_relative_path (path_join a bs) \<and>
    split_on slash (path_join a bs) = concat (map (split_on slash) (a # bs))"
  using assms
proof (induction bs arbitrary: a)
  case Nil
  then show ?case by (simp add: path_join_def)
next
  case (Cons b bs)
  let ?ab = "a @ [slash] @ b"
  have j: "path_join a (b # bs) = path_join ?ab bs"
    using Cons.prems join_step_safe [of a b] by (simp add: path_join_def)
  have "\<not> unsafe_relative_path ?ab" using Cons.prems safe_append [of a b] by auto
  from Cons.IH [OF this] Cons.prems show ?case unfolding j by (cases bs) (auto simp: split_on_sep)
qed

section \<open>Normal paths\<close>

lemma normal_parts_safe: "list_all (\<lambda>c. \<not> unsafe_part c) cs \<Longrightarrow> normal_parts rooted new cs = new @ cs"
  by (induction cs arbitrary: new) (auto simp: unsafe_part_def)

lemma safe_parts_not_unsafe: "list_all safe_part cs \<Longrightarrow> list_all (\<lambda>c. \<not> unsafe_part c) cs"
  by (auto simp: list_all_iff safe_part_def)

lemma normpath_safe: "\<not> unsafe_relative_path s \<Longrightarrow> normpath s = s"
proof -
  assume s: "\<not> unsafe_relative_path s"
  then have "\<not> starts_with ''/'' s" "s \<noteq> []" using safe_path_split [OF s] by (auto simp: starts_slash)
  moreover from this have "leading_slashes s = []" by (cases s) (auto simp: leading_slashes_def starts_with_def)
  ultimately show ?thesis
    using s normal_parts_safe [OF safe_parts_not_unsafe, of "split_on slash s" False "[]"]
    by (simp add: normpath_def safe_relative_iff join_split)
qed

lemma safe_path_forward:
  assumes "\<not> unsafe_relative_path s"
  shows "\<not> unsafe_part s \<and> \<not> starts_with ''../'' s"
proof
  show "\<not> unsafe_part s"
  proof (cases "slash \<in> set s")
    case True
    then show ?thesis by (auto simp: unsafe_part_def slash_def)
  next
    case False
    then show ?thesis using assms by (simp add: safe_relative_iff split_on_simple safe_part_def)
  qed
  show "\<not> starts_with ''../'' s"
  proof
    assume "starts_with ''../'' s"
    then obtain t where t: "s = ''..'' @ slash # t"
      unfolding starts_with_def slash_def by (metis append_take_drop_id append_Cons append_Nil)
    show False using assms unfolding t by (simp add: safe_relative_iff split_on_sep split_on_simple safe_part_def unsafe_part_def slash_def)
  qed
qed

end
