(* ===== verification/Automation_Model.thy ===== *)
theory Automation_Model
  imports Kernel_Invariants Cron Posix_Paths
begin

text \<open>
  The values of \<open>domain/automation.py\<close>: the scope of a definition, managed definitions, the schedules
  of the configuration file, emitted occurrences and the loaded configuration. Each is made by the checks
  of its \<open>__post_init__\<close>. \<open>AutomationTaskRunMode\<close> and the commands a schedule may carry have one member
  each, so they are no field here. \<open>ZoneInfo\<close> is a function from names to wall clocks that may raise;
  the clock a check reads is an argument.
\<close>

section \<open>Texts\<close>

definition hex_lower :: "char \<Rightarrow> bool" where
  "hex_lower c = (ascii_digit c \<or> (97 \<le> code c \<and> code c \<le> 102))"

definition is_sha256 :: "string \<Rightarrow> bool" where
  "is_sha256 s = (length s = 64 \<and> list_all hex_lower s)"

definition bad_text :: "nat \<Rightarrow> string \<Rightarrow> bool" where
  "bad_text m s = (strip s = [] \<or> m < length s \<or> nul \<in> set s)"

definition bounded_note :: "nat \<Rightarrow> string option \<Rightarrow> bool" where
  "bounded_note m v = (case v of None \<Rightarrow> True | Some s \<Rightarrow> length s \<le> m \<and> nul \<notin> set s)"

section \<open>Instants\<close>

text \<open>\<open>t + timedelta(seconds=x)\<close>, and its bound, the end of the year 9999.\<close>

definition max_instant :: instant where
  "max_instant = 253402300799999999"

definition add_seconds :: "instant \<Rightarrow> rat \<Rightarrow> instant result" where
  "add_seconds t x = (let r = t + seconds_to_us x in raise_if (max_instant < r) OverflowError (Inr r))"

section \<open>Scopes\<close>

definition normalize_scope :: "string option \<Rightarrow> string option result" where
  "normalize_scope v =
     (case v of None \<Rightarrow> Inr None
      | Some s \<Rightarrow>
          if s = [] then Inr None
          else raise_if (1024 < length s) ValueError
            (raise_if (nul \<in> set s \<or> starts_with ''/'' s \<or> starts_with [backslash] s \<or> backslash \<in> set s \<or>
                       list_ex unsafe_part (split_on slash s)) ValueError
            (let p = normpath s in
             raise_if (unsafe_part p \<or> starts_with ''../'' p) ValueError (Inr (Some p)))))"

lemma normalize_scope_Some:
  "normalize_scope (Some s) = Inr v \<longleftrightarrow>
    (s = [] \<and> v = None) \<or> (v = Some s \<and> length s \<le> 1024 \<and> \<not> unsafe_relative_path s)"
proof (cases "unsafe_relative_path s \<or> 1024 < length s")
  case True
  then show ?thesis by (auto simp: normalize_scope_def unsafe_relative_path_def guard_simps)
next
  case False
  then have "normpath s = s" "\<not> unsafe_part s" "\<not> starts_with ''../'' s"
    using normpath_safe [of s] safe_path_forward [of s] by simp_all
  then show ?thesis using False by (auto simp: normalize_scope_def unsafe_relative_path_def guard_simps)
qed

section \<open>Schedules and definitions\<close>

type_synonym zones = "string \<Rightarrow> ((instant \<Rightarrow> wall) \<times> (wall \<Rightarrow> instant)) result"

datatype schedule_kind = Every rat | CronAt string string

record schedule_def =
  sd_id :: string
  sd_kind :: schedule_kind
  sd_limit :: "int option"
  sd_enabled :: bool

text \<open>A missing zone is a \<open>LookupError\<close>; it and a \<open>ValueError\<close> become the check's own \<open>ValueError\<close>.\<close>

definition as_value_error :: "'a result \<Rightarrow> 'a result" where
  "as_value_error r = (case r of Inl e \<Rightarrow> Inl (if e = LookupError then ValueError else e) | Inr x \<Rightarrow> Inr x)"

definition cron_after :: "zones \<Rightarrow> cron_expression \<Rightarrow> string \<Rightarrow> instant \<Rightarrow> instant result" where
  "cron_after zones e tz now =
     bind_result (zones tz) (\<lambda>(local_of, instant_of). next_after local_of instant_of e (Aware now))"

definition cron_at_or_after :: "zones \<Rightarrow> cron_expression \<Rightarrow> string \<Rightarrow> instant \<Rightarrow> instant result" where
  "cron_at_or_after zones e tz now =
     bind_result (zones tz) (\<lambda>(local_of, instant_of). next_at_or_after local_of instant_of e (Aware now))"

definition make_schedule :: "zones \<Rightarrow> instant \<Rightarrow> schedule_def \<Rightarrow> schedule_def result" where
  "make_schedule zones clock s =
     raise_if (sd_id s = []) ValueError
     (bind_result (case sd_kind s of
          Every x \<Rightarrow> raise_if (x \<le> 0) ValueError (Inr ())
        | CronAt source tz \<Rightarrow> bind_result (parse_cron source) (\<lambda>e.
            bind_result (as_value_error (cron_after zones e tz clock)) (\<lambda>_. Inr ()))) (\<lambda>_.
      raise_if (case sd_limit s of None \<Rightarrow> False | Some n \<Rightarrow> n < 1) ValueError (Inr s)))"

record adefinition =
  af_id :: string
  af_name :: string
  af_library :: string
  af_scope :: "string option"
  af_interval :: "pynum option"
  af_cron :: "string option"
  af_timezone :: "string option"
  af_limit :: int
  af_enabled :: bool

definition max_item_limit :: int where
  "max_item_limit = 10000"

definition max_interval_seconds :: rat where
  "max_interval_seconds = 31536000"

definition interval_value :: "pynum \<Rightarrow> rat result" where
  "interval_value v =
     (case v of PyInt i \<Rightarrow> Inr (of_int i) | PyFloat r \<Rightarrow> Inr r | _ \<Rightarrow> Inl ValueError)"

definition make_definition :: "zones \<Rightarrow> instant \<Rightarrow> adefinition \<Rightarrow> adefinition result" where
  "make_definition zones clock d =
     raise_if (bad_text 64 (af_id d) \<or> slash \<in> set (af_id d) \<or> backslash \<in> set (af_id d)) ValueError
     (raise_if (bad_text 120 (af_name d)) ValueError
     (raise_if (bad_text 64 (af_library d)) ValueError
     (bind_result (normalize_scope (af_scope d)) (\<lambda>scope.
      raise_if (\<not> (1 \<le> af_limit d \<and> af_limit d \<le> max_item_limit)) ValueError
      (raise_if ((af_interval d \<noteq> None) = (af_cron d \<noteq> None)) ValueError
      (case af_interval d of
         Some v \<Rightarrow>
           raise_if (af_timezone d \<noteq> None) ValueError
           (bind_result (interval_value v) (\<lambda>x.
            raise_if (\<not> (0 < x \<and> x \<le> max_interval_seconds)) ValueError
            (Inr (d\<lparr>af_scope := scope, af_interval := Some (PyFloat x)\<rparr>))))
       | None \<Rightarrow>
           (case (af_cron d, af_timezone d) of
              (Some source, Some tz) \<Rightarrow>
                raise_if (strip source = []) ValueError
                (raise_if (bad_text 64 tz) ValueError
                (bind_result (parse_cron source) (\<lambda>e.
                 bind_result (as_value_error (cron_after zones e tz clock)) (\<lambda>_.
                 Inr (d\<lparr>af_scope := scope\<rparr>)))))
            | _ \<Rightarrow> Inl ValueError)))))))"

text \<open>\<open>_definition_schedule\<close> and \<open>_definition_limit\<close> read a definition again at each tick.\<close>

definition definition_schedule :: "adefinition \<Rightarrow> schedule_kind result" where
  "definition_schedule d =
     (case (af_interval d, af_cron d) of
        (Some v, None) \<Rightarrow> bind_result (interval_value v) (\<lambda>x. raise_if (x \<le> 0) ValueError (Inr (Every x)))
      | (None, Some source) \<Rightarrow>
          (case af_timezone d of
             None \<Rightarrow> Inl ValueError
           | Some tz \<Rightarrow> raise_if (strip source = []) ValueError (Inr (CronAt source tz)))
      | _ \<Rightarrow> Inl ValueError)"

definition definition_limit :: "adefinition \<Rightarrow> int result" where
  "definition_limit d = raise_if (\<not> (1 \<le> af_limit d \<and> af_limit d \<le> max_item_limit)) ValueError (Inr (af_limit d))"

section \<open>Occurrences\<close>

record occurrence =
  oc_id :: string
  oc_definition :: string
  oc_at :: instant
  oc_emitted :: instant
  oc_task :: string
  oc_fingerprint :: string
  oc_version :: int
  oc_revision_id :: string
  oc_revision_version :: int
  oc_revision_digest :: string
  oc_library :: string
  oc_scope :: "string option"
  oc_limit :: int
  oc_outcome :: string
  oc_reason :: "string option"
  oc_next_action :: "string option"

definition bad_note :: "nat \<Rightarrow> string option \<Rightarrow> bool" where
  "bad_note m v = (case v of None \<Rightarrow> False | Some s \<Rightarrow> strip s = [] \<or> m < length s)"

definition make_occurrence :: "occurrence \<Rightarrow> occurrence result" where
  "make_occurrence v =
     raise_if (bad_text 192 (oc_id v) \<or> bad_text 128 (oc_definition v) \<or> bad_text 128 (oc_task v) \<or>
               bad_text 128 (oc_revision_id v) \<or> bad_text 128 (oc_library v)) ValueError
     (raise_if (\<not> is_sha256 (oc_fingerprint v)) ValueError
     (raise_if (\<not> is_sha256 (oc_revision_digest v)) ValueError
     (raise_if (oc_version v < 1 \<or> oc_revision_version v < 1) ValueError
     (bind_result (normalize_scope (oc_scope v)) (\<lambda>scope.
      raise_if (\<not> (1 \<le> oc_limit v \<and> oc_limit v \<le> max_item_limit)) ValueError
      (raise_if (bad_note 64 (Some (oc_outcome v)) \<or> bad_note 256 (oc_reason v) \<or> bad_note 512 (oc_next_action v)) ValueError
      (Inr (v\<lparr>oc_scope := scope\<rparr>))))))))"

section \<open>The loaded configuration\<close>

record configuration =
  cg_id :: string
  cg_digest :: string
  cg_schedules :: "schedule_def list"
  cg_capacity :: int
  cg_definitions :: "adefinition list"
  cg_version :: "int option"
  cg_libraries :: "string list"
  cg_enabled_libraries :: "string list"

definition make_configuration :: "configuration \<Rightarrow> configuration result" where
  "make_configuration c =
     raise_if (cg_id c = [] \<or> cg_digest c = []) ValueError
     (raise_if (\<not> (1 \<le> cg_capacity c \<and> cg_capacity c \<le> 10000)) ValueError
     (raise_if (case cg_version c of None \<Rightarrow> False | Some v \<Rightarrow> v < 1) ValueError (Inr c)))"

end
