(* ===== verification/Automation_Store.thy ===== *)
theory Automation_Store
  imports Automation_Model
begin

text \<open>
  The durable side of schedules: \<open>domain/automation.py\<close>'s due states and occurrences, and the
  transactions of \<open>sqlite_runtime.py\<close> that admit a due occurrence or a remote ticket as a kernel Task,
  together with the advance, the audit row or the consumption that goes with it.
\<close>

section \<open>Rows\<close>

record sched_state =
  as_id :: string
  as_next :: instant
  as_updated :: instant
  as_last_task :: "string option"

record sched_audit =
  au_id :: string
  au_schedule :: string
  au_occurrence :: instant
  au_emitted :: instant
  au_task :: string
  au_command :: string
  au_next :: instant

record due_state =
  ds_id :: string
  ds_next :: instant
  ds_updated :: instant
  ds_last_occurrence :: "instant option"
  ds_last_task :: "string option"
  ds_last_outcome :: "string option"
  ds_last_reason :: "string option"
  ds_last_action :: "string option"
  ds_fingerprint :: "string option"

datatype ticket_status = TicketActive | TicketConsumed | TicketRevoked | TicketExpired

record ticket =
  ea_id :: string
  ea_digest :: string
  ea_status :: ticket_status
  ea_created :: instant
  ea_expires :: instant
  ea_max_items :: int
  ea_actor :: "string option"
  ea_note :: "string option"
  ea_consumed :: "instant option"
  ea_task :: "string option"
  ea_revoked :: "instant option"

record ticket_audit =
  ta_id :: string
  ta_ticket :: string
  ta_action :: string
  ta_at :: instant
  ta_task :: "string option"
  ta_actor :: "string option"

record adb =
  ad_kernel :: db
  ad_schedules :: "sched_state list"
  ad_audit :: "sched_audit list"
  ad_due :: "due_state list"
  ad_occurrences :: "occurrence list"
  ad_tickets :: "ticket list"
  ad_ticket_audit :: "ticket_audit list"

interpretation schedules_table: table_store ad_schedules "\<lambda>rs a. a\<lparr>ad_schedules := rs\<rparr>" as_id
  by unfold_locales simp_all

interpretation due_table: table_store ad_due "\<lambda>rs a. a\<lparr>ad_due := rs\<rparr>" ds_id
  by unfold_locales simp_all

interpretation tickets_table: table_store ad_tickets "\<lambda>rs a. a\<lparr>ad_tickets := rs\<rparr>" ea_id
  by unfold_locales simp_all

text \<open>\<open>AutomationDefinitionDueState\<close>, made for its checks alone.\<close>

definition require_due_state ::
  "string \<Rightarrow> datetime \<Rightarrow> datetime \<Rightarrow> string option \<Rightarrow> string option \<Rightarrow> string option \<Rightarrow> string option \<Rightarrow>
   (instant \<times> instant) result" where
  "require_due_state k next now outcome reason act fp =
     raise_if (bad_text 128 k) ValueError
     (bind_result (require_aware next) (\<lambda>n. bind_result (require_aware now) (\<lambda>t.
      raise_if (\<not> (bounded_note 64 outcome \<and> bounded_note 256 reason \<and> bounded_note 512 act)) ValueError
      (raise_if (\<exists>f. fp = Some f \<and> \<not> is_sha256 f) ValueError (Inr (n, t))))))"

lemma require_due_state_code [code]:
  "require_due_state k next now outcome reason act fp =
     raise_if (bad_text 128 k) ValueError
     (bind_result (require_aware next) (\<lambda>n. bind_result (require_aware now) (\<lambda>t.
      raise_if (\<not> (bounded_note 64 outcome \<and> bounded_note 256 reason \<and> bounded_note 512 act)) ValueError
      (raise_if (case fp of None \<Rightarrow> False | Some f \<Rightarrow> \<not> is_sha256 f) ValueError (Inr (n, t))))))"
  by (simp add: require_due_state_def split: option.split)

section \<open>Schedules of the configuration file\<close>

definition get_schedule_state :: "adb \<Rightarrow> string \<Rightarrow> sched_state option" where
  "get_schedule_state a k = find_row as_id k (ad_schedules a)"

text \<open>A row mapper given the row of a SELECT; given none it raises.\<close>

definition row_of :: "'r option \<Rightarrow> 'r result" where
  "row_of r = (case r of None \<Rightarrow> Inl TypeError | Some x \<Rightarrow> Inr x)"

text \<open>INSERT OR IGNORE, then the row as it is.\<close>

definition initialize_schedule_state :: "string \<Rightarrow> instant \<Rightarrow> instant \<Rightarrow> (adb, sched_state) body" where
  "initialize_schedule_state k next now a =
     (let rows = (case get_schedule_state a k of
            Some _ \<Rightarrow> ad_schedules a
          | None \<Rightarrow> ad_schedules a @ [\<lparr>as_id = k, as_next = next, as_updated = now, as_last_task = None\<rparr>]);
          a' = a\<lparr>ad_schedules := rows\<rparr>
      in bind_result (row_of (get_schedule_state a' k)) (\<lambda>r. Inr (r, a')))"

definition due_schedule :: "string \<Rightarrow> instant \<Rightarrow> instant \<Rightarrow> sched_state \<Rightarrow> bool" where
  "due_schedule k occ now r = (as_id r = k \<and> as_next r = occ \<and> as_next r \<le> now)"

definition insert_audit :: "sched_audit \<Rightarrow> sched_audit list \<Rightarrow> sched_audit list result" where
  "insert_audit r rows =
     raise_if (list_ex (\<lambda>q. au_task q = au_task r) rows) IntegrityError (insert_row au_id r rows)"

definition admit_due_schedule_task ::
  "string \<Rightarrow> ptask \<Rightarrow> sched \<Rightarrow> string \<Rightarrow> datetime \<Rightarrow> datetime \<Rightarrow> datetime \<Rightarrow> pynum \<Rightarrow>
   display_context option \<Rightarrow> (adb, admission option) body" where
  "admit_due_schedule_task k task st command occurrence_at next_run_at now capacity display a =
     bind_result (require_capacity capacity) (\<lambda>cap.
     bind_result (require_scheduled_admission_values task st) (\<lambda>_.
     bind_result (require_aware next_run_at) (\<lambda>next.
     bind_result (require_aware occurrence_at) (\<lambda>occ.
     bind_result (require_aware now) (\<lambda>t.
     if cap \<le> capacity_use (ad_kernel a) then Inr (None, a)
     else if row_count (due_schedule k occ t) (ad_schedules a) \<noteq> 1 then Inr (None, a)
     else
       bind_result (admit_new task st display (ad_kernel a)) (\<lambda>d.
       bind_result (insert_audit
         \<lparr>au_id = k @ '':'' @ t_id task, au_schedule = k, au_occurrence = occ, au_emitted = t,
          au_task = t_id task, au_command = command, au_next = next\<rparr> (ad_audit a)) (\<lambda>audit.
       Inr (Some \<lparr>d_task = task, d_state = st, d_duplicate = False\<rparr>,
            a\<lparr>ad_kernel := d, ad_audit := audit,
              ad_schedules := update_rows (due_schedule k occ t)
                (\<lambda>r. r\<lparr>as_next := next, as_updated := t, as_last_task := Some (t_id task)\<rparr>)
                (ad_schedules a)\<rparr>))))))))"

section \<open>Managed definitions\<close>

definition get_due_state :: "adb \<Rightarrow> string \<Rightarrow> due_state option result" where
  "get_due_state a k = raise_if (strip k = []) ValueError (Inr (find_row ds_id k (ad_due a)))"

definition fresh_due :: "string \<Rightarrow> instant \<Rightarrow> instant \<Rightarrow> string option \<Rightarrow> due_state" where
  "fresh_due k next now fp = \<lparr>ds_id = k, ds_next = next, ds_updated = now, ds_last_occurrence = None,
     ds_last_task = None, ds_last_outcome = None, ds_last_reason = None, ds_last_action = None,
     ds_fingerprint = fp\<rparr>"

definition require_due_row :: "string \<Rightarrow> adb \<Rightarrow> (due_state \<times> adb) result" where
  "require_due_row k a =
     (case find_row ds_id k (ad_due a) of None \<Rightarrow> Inl LookupError | Some r \<Rightarrow> Inr (r, a))"

definition initialize_due_state ::
  "string \<Rightarrow> datetime \<Rightarrow> datetime \<Rightarrow> string option \<Rightarrow> (adb, due_state) body" where
  "initialize_due_state k next now fp a =
     bind_result (require_due_state k next now None None None fp) (\<lambda>(n, t).
     let rows = (case find_row ds_id k (ad_due a) of
            Some _ \<Rightarrow> ad_due a | None \<Rightarrow> ad_due a @ [fresh_due k n t fp]);
         rows' = (if fp = None then rows
                  else update_rows (\<lambda>r. ds_id r = k \<and> ds_fingerprint r = None) (\<lambda>r. r\<lparr>ds_fingerprint := fp\<rparr>) rows)
     in require_due_row k (a\<lparr>ad_due := rows'\<rparr>))"

definition reset_due_state :: "string \<Rightarrow> datetime \<Rightarrow> datetime \<Rightarrow> string \<Rightarrow> (adb, due_state) body" where
  "reset_due_state k next now fp a =
     bind_result (require_due_state k next now None None None (Some fp)) (\<lambda>(n, t).
     let rows = (if row_count (\<lambda>r. ds_id r = k) (ad_due a) = 1
            then update_rows (\<lambda>r. ds_id r = k)
                   (\<lambda>r. r\<lparr>ds_next := n, ds_updated := t, ds_last_reason := None, ds_last_action := None,
                          ds_fingerprint := Some fp\<rparr>) (ad_due a)
            else ad_due a @ [fresh_due k n t (Some fp)])
     in bind_result (row_of (find_row ds_id k rows)) (\<lambda>r. Inr (r, a\<lparr>ad_due := rows\<rparr>)))"

definition clear_due_states :: "string list \<Rightarrow> (adb, nat) body" where
  "clear_due_states ks a =
     (if ks = [] then Inr (0, a)
      else raise_if (list_ex (\<lambda>k. strip k = []) ks) ValueError
        (Inr (row_count (\<lambda>r. ds_id r \<in> set ks) (ad_due a),
              a\<lparr>ad_due := delete_rows (\<lambda>r. ds_id r \<in> set ks) (ad_due a)\<rparr>)))"

definition record_definition_failure ::
  "string \<Rightarrow> string \<Rightarrow> string \<Rightarrow> string \<Rightarrow> datetime \<Rightarrow> instant option \<Rightarrow> (adb, due_state option) body" where
  "record_definition_failure k outcome reason act now expected a =
     bind_result (require_due_state k now now (Some outcome) (Some reason) (Some act) None) (\<lambda>(_, t).
     let a' = a\<lparr>ad_due := update_rows
           (\<lambda>r. ds_id r = k \<and> (case expected of None \<Rightarrow> True | Some e \<Rightarrow> ds_next r = e))
           (\<lambda>r. r\<lparr>ds_updated := t, ds_last_outcome := Some outcome, ds_last_reason := Some reason,
                  ds_last_action := Some act\<rparr>) (ad_due a)\<rparr>
     in Inr (find_row ds_id k (ad_due a'), a'))"

text \<open>
  The due test of the UPDATE compares Julian days, a function of SQLite; the row must also still
  carry the definition's fingerprint, or none.
\<close>

definition due_definition ::
  "(instant \<Rightarrow> rat) \<Rightarrow> string \<Rightarrow> instant \<Rightarrow> instant \<Rightarrow> string \<Rightarrow> due_state \<Rightarrow> bool" where
  "due_definition julianday k occ now fp r =
     (ds_id r = k \<and> ds_next r = occ \<and> julianday (ds_next r) \<le> julianday now \<and>
      (ds_fingerprint r = None \<or> ds_fingerprint r = Some fp))"

text \<open>The constraints of the occurrence table: its key, its Task, and one row per definition and instant.\<close>

definition insert_occurrence :: "occurrence \<Rightarrow> occurrence list \<Rightarrow> occurrence list result" where
  "insert_occurrence r rows =
     raise_if (list_ex (\<lambda>q. oc_task q = oc_task r \<or> (oc_definition q = oc_definition r \<and> oc_at q = oc_at r)) rows)
       IntegrityError (insert_row oc_id r rows)"

definition admit_due_definition_task ::
  "(instant \<Rightarrow> rat) \<Rightarrow> string \<Rightarrow> ptask \<Rightarrow> sched \<Rightarrow> occurrence \<Rightarrow> datetime \<Rightarrow> datetime \<Rightarrow> pynum \<Rightarrow>
   display_context option \<Rightarrow> (adb, admission option) body" where
  "admit_due_definition_task julianday k task st oc next_run_at now capacity display a =
     bind_result (require_capacity capacity) (\<lambda>cap.
     bind_result (require_scheduled_admission_values task st) (\<lambda>_.
     raise_if (oc_definition oc \<noteq> k) ValueError
     (raise_if (oc_task oc \<noteq> t_id task) ValueError
     (bind_result (require_aware next_run_at) (\<lambda>next.
      bind_result (require_aware now) (\<lambda>t.
      let due = due_definition julianday k (oc_at oc) t (oc_fingerprint oc) in
      if cap \<le> capacity_use (ad_kernel a) then Inr (None, a)
      else if row_count due (ad_due a) \<noteq> 1 then Inr (None, a)
      else
        bind_result (admit_new task st display (ad_kernel a)) (\<lambda>d.
        bind_result (insert_occurrence oc (ad_occurrences a)) (\<lambda>ocs.
        Inr (Some \<lparr>d_task = task, d_state = st, d_duplicate = False\<rparr>,
             a\<lparr>ad_kernel := d, ad_occurrences := ocs,
               ad_due := update_rows due
                 (\<lambda>r. r\<lparr>ds_next := next, ds_updated := t, ds_last_occurrence := Some (oc_at oc),
                        ds_last_task := Some (t_id task), ds_last_outcome := Some (oc_outcome oc),
                        ds_last_reason := None, ds_last_action := None,
                        ds_fingerprint := Some (oc_fingerprint oc)\<rparr>) (ad_due a)\<rparr>)))))))))"

section \<open>Remote execution tickets\<close>

definition get_ticket :: "adb \<Rightarrow> string \<Rightarrow> ticket option" where
  "get_ticket a k = find_row ea_id k (ad_tickets a)"

definition insert_ticket_audit :: "ticket_audit \<Rightarrow> adb \<Rightarrow> adb result" where
  "insert_ticket_audit r a =
     bind_result (insert_row ta_id r (ad_ticket_audit a)) (\<lambda>rows. Inr (a\<lparr>ad_ticket_audit := rows\<rparr>))"

definition create_ticket :: "ticket \<Rightarrow> ticket_audit \<Rightarrow> (adb, unit) body" where
  "create_ticket v audit a =
     raise_if (list_ex (\<lambda>q. ea_digest q = ea_digest v) (ad_tickets a)) IntegrityError
     (bind_result (insert_row ea_id v (ad_tickets a)) (\<lambda>rows.
      bind_result (insert_ticket_audit audit (a\<lparr>ad_tickets := rows\<rparr>)) (\<lambda>a'. Inr ((), a'))))"

definition lapsed_ticket :: "instant \<Rightarrow> ticket \<Rightarrow> bool" where
  "lapsed_ticket now v = (ea_status v = TicketActive \<and> ea_expires v \<le> now)"

definition expire_tickets :: "instant \<Rightarrow> (adb, nat) body" where
  "expire_tickets now a =
     Inr (row_count (lapsed_ticket now) (ad_tickets a),
          a\<lparr>ad_tickets := update_rows (lapsed_ticket now) (\<lambda>v. v\<lparr>ea_status := TicketExpired\<rparr>) (ad_tickets a)\<rparr>)"

definition live_ticket :: "string \<Rightarrow> ticket \<Rightarrow> bool" where
  "live_ticket k v = (ea_id v = k \<and> ea_status v = TicketActive)"

text \<open>Everything of the consumption that runs or fails as one: the tests, the ticket and its Task.\<close>

definition spend_ticket ::
  "ticket \<Rightarrow> nat \<Rightarrow> ptask \<Rightarrow> sched \<Rightarrow> instant \<Rightarrow> ticket_audit \<Rightarrow> display_context option \<Rightarrow> (adb, ticket) body" where
  "spend_ticket v cap task st t audit display a =
     raise_if (case t_item_limit task of None \<Rightarrow> True | Some n \<Rightarrow> ea_max_items v < n) ValueError
     (raise_if (cap \<le> capacity_use (ad_kernel a)) TaskQueueFull
     (raise_if (row_count (live_ticket (ea_id v)) (ad_tickets a) \<noteq> 1) ValueError
     (bind_result (admit_new task st display (ad_kernel a)) (\<lambda>d.
      bind_result (insert_ticket_audit (audit\<lparr>ta_ticket := ea_id v, ta_task := Some (t_id task)\<rparr>)
        (a\<lparr>ad_kernel := d,
           ad_tickets := update_rows (live_ticket (ea_id v))
             (\<lambda>r. r\<lparr>ea_status := TicketConsumed, ea_consumed := Some t, ea_task := Some (t_id task)\<rparr>)
             (ad_tickets a)\<rparr>)) (\<lambda>a'.
      bind_result (row_of (get_ticket a' (ea_id v))) (\<lambda>r. Inr (r, a')))))))"

text \<open>A ticket found expired is marked so, and that mark is committed before the refusal is raised.\<close>

definition consume_ticket ::
  "string \<Rightarrow> ptask \<Rightarrow> sched \<Rightarrow> datetime \<Rightarrow> ticket_audit \<Rightarrow> pynum \<Rightarrow> display_context option \<Rightarrow>
   (adb, ticket) tx" where
  "consume_ticket digest task st now audit capacity display =
     bind_tx (return_tx (require_capacity capacity)) (\<lambda>cap.
     bind_tx (return_tx (require_scheduled_admission_values task st)) (\<lambda>_.
     bind_tx (return_tx (require_aware now)) (\<lambda>t.
     bind_tx (read_tx (\<lambda>a. Inr (find_row ea_digest digest (ad_tickets a)))) (\<lambda>found.
       case found of
         None \<Rightarrow> return_tx (Inl ValueError)
       | Some v \<Rightarrow>
           if ea_status v \<noteq> TicketActive then return_tx (Inl ValueError)
           else if ea_expires v \<le> t then
             bind_tx (atomic (\<lambda>a. Inr ((), a\<lparr>ad_tickets := update_rows (\<lambda>r. ea_id r = ea_id v)
                 (\<lambda>r. r\<lparr>ea_status := TicketExpired\<rparr>) (ad_tickets a)\<rparr>))) (\<lambda>_. return_tx (Inl ValueError))
           else atomic (spend_ticket v cap task st t audit display)))))"

definition revoke_ticket :: "string \<Rightarrow> instant \<Rightarrow> ticket_audit \<Rightarrow> (adb, ticket) body" where
  "revoke_ticket k now audit a =
     (let hit = (\<lambda>v. ea_id v = k \<and> ea_status v = TicketActive \<and> now < ea_expires v) in
      if row_count hit (ad_tickets a) \<noteq> 1
      then raise_if (get_ticket a k = None) LookupError (Inl ValueError)
      else bind_result (insert_ticket_audit audit
             (a\<lparr>ad_tickets := update_rows hit
                  (\<lambda>v. v\<lparr>ea_status := TicketRevoked, ea_revoked := Some now\<rparr>) (ad_tickets a)\<rparr>))
           (\<lambda>a'. bind_result (row_of (get_ticket a' k)) (\<lambda>r. Inr (r, a'))))"

end
