(* ===== verification/Automation_Tick.thy ===== *)
theory Automation_Tick
  imports Automation_Store Scheduling_Service
begin

text \<open>
  \<open>IntervalScheduler.tick\<close> of \<open>application/automation.py\<close>: one pass over the schedules of the
  configuration file and over the managed definitions, each of which may admit one due occurrence as a
  Task. A pass is a sequence of the repository's transactions. Notifications are left out (their
  exceptions are swallowed and they write no row modelled here); the instant of a tick is a UTC datetime.
\<close>

section \<open>What a tick is given\<close>

text \<open>
  The zones, SQLite's \<open>julianday\<close>, the SHA-256 fingerprint of a definition's document, the execution
  authority, which reads the database and may refuse by an exception, and the identities drawn at random.
\<close>

record env =
  e_zones :: zones
  e_julianday :: "instant \<Rightarrow> rat"
  e_fingerprint :: "adefinition \<Rightarrow> string"
  e_authority :: "(adb \<Rightarrow> ptask \<Rightarrow> adefinition \<Rightarrow> unit result) option"
  e_draw :: "nat \<Rightarrow> string"

text \<open>A dict from schedule ids to parsed expressions, latest entry first.\<close>

type_synonym cron_dict = "(string \<times> cron_expression) list"

record scheduler =
  sc_schedules :: "schedule_def list"
  sc_capacity :: int
  sc_pin :: "(string \<times> string) option"
  sc_version :: "int option"
  sc_definitions :: "adefinition list"
  sc_principal :: string
  sc_cron :: cron_dict

fun cron_dict_of :: "cron_dict \<Rightarrow> schedule_def list \<Rightarrow> cron_dict result" where
  "cron_dict_of acc [] = Inr acc"
| "cron_dict_of acc (s # ss) =
     (case sd_kind s of
        Every x \<Rightarrow> cron_dict_of acc ss
      | CronAt source tz \<Rightarrow> bind_result (parse_cron source) (\<lambda>e. cron_dict_of ((sd_id s, e) # acc) ss))"

definition make_scheduler ::
  "schedule_def list \<Rightarrow> int \<Rightarrow> string option \<Rightarrow> string option \<Rightarrow> int option \<Rightarrow> adefinition list \<Rightarrow>
   string \<Rightarrow> scheduler result" where
  "make_scheduler schedules capacity pin_id pin_digest version definitions name =
     raise_if ((pin_id = None) \<noteq> (pin_digest = None)) ValueError
     (raise_if (capacity < 1 \<or> capacity > 10000) ValueError
     (bind_result (bounded_text name 128) (\<lambda>who.
      bind_result (cron_dict_of [] schedules) (\<lambda>cron.
      Inr \<lparr>sc_schedules = schedules, sc_capacity = capacity,
           sc_pin = (case (pin_id, pin_digest) of
                       (Some i, Some g) \<Rightarrow> if i \<noteq> [] \<and> g \<noteq> [] then Some (i, g) else None
                     | _ \<Rightarrow> None),
           sc_version = version, sc_definitions = definitions, sc_principal = who, sc_cron = cron\<rparr>))))"

text \<open>What the resolver answers; a scheduler without one uses the pin it was made with.\<close>

datatype resolution = NoConfiguration | Pinned string string | Loaded configuration

record tick_input =
  ti_schedules :: "schedule_def list"
  ti_capacity :: int
  ti_snapshot :: "(string \<times> string) option"
  ti_version :: "int option"
  ti_definitions :: "adefinition list"
  ti_libraries :: "string list"
  ti_enabled :: "string list"
  ti_cron :: cron_dict
  ti_managed :: bool
  ti_failed :: bool

definition truthy :: "int option \<Rightarrow> int option" where
  "truthy v = (if v = Some 0 then None else v)"

definition own_input :: "scheduler \<Rightarrow> (string \<times> string) option \<Rightarrow> bool \<Rightarrow> tick_input" where
  "own_input c snapshot failed = \<lparr>
     ti_schedules = sc_schedules c, ti_capacity = sc_capacity c, ti_snapshot = snapshot,
     ti_version = (if snapshot \<noteq> None \<and> sc_version c = None then Some 1 else sc_version c),
     ti_definitions = sc_definitions c, ti_libraries = [], ti_enabled = [], ti_cron = sc_cron c,
     ti_managed = (sc_definitions c \<noteq> [] \<or> failed), ti_failed = failed\<rparr>"

definition loaded_version :: "configuration \<Rightarrow> scheduler \<Rightarrow> int" where
  "loaded_version g c =
     (case truthy (cg_version g) of
        Some v \<Rightarrow> v
      | None \<Rightarrow> (case truthy (sc_version c) of Some v \<Rightarrow> v | None \<Rightarrow> 1))"

definition resolved_input :: "scheduler \<Rightarrow> resolution result option \<Rightarrow> tick_input result" where
  "resolved_input c resolved =
     (case resolved of
        None \<Rightarrow> Inr (own_input c (sc_pin c) False)
      | Some (Inl e) \<Rightarrow> raise_if (sc_definitions c = []) e (Inr (own_input c None True))
      | Some (Inr NoConfiguration) \<Rightarrow> Inr (own_input c None False)
      | Some (Inr (Pinned i g)) \<Rightarrow> Inr (own_input c (Some (i, g)) False)
      | Some (Inr (Loaded g)) \<Rightarrow>
          bind_result (cron_dict_of [] (cg_schedules g)) (\<lambda>cron.
          Inr \<lparr>ti_schedules = cg_schedules g, ti_capacity = cg_capacity g,
               ti_snapshot = Some (cg_id g, cg_digest g), ti_version = Some (loaded_version g c),
               ti_definitions = cg_definitions g, ti_libraries = cg_libraries g,
               ti_enabled = cg_enabled_libraries g,
               ti_cron = (if cron = [] then sc_cron c else cron),
               ti_managed = True, ti_failed = False\<rparr>))"

section \<open>Instants of occurrences\<close>

definition minute_of :: "instant \<Rightarrow> instant" where
  "minute_of t = t - t mod 60000000"

definition dict_get :: "cron_dict \<Rightarrow> string \<Rightarrow> cron_expression result" where
  "dict_get cron k = (case map_of cron k of None \<Rightarrow> Inl LookupError | Some e \<Rightarrow> Inr e)"

definition initial_run :: "env \<Rightarrow> cron_dict \<Rightarrow> schedule_def \<Rightarrow> instant \<Rightarrow> instant result" where
  "initial_run E cron s now =
     (case sd_kind s of
        Every x \<Rightarrow> Inr now
      | CronAt source tz \<Rightarrow>
          bind_result (dict_get cron (sd_id s)) (\<lambda>e. cron_at_or_after (e_zones E) e tz (minute_of now)))"

definition next_run :: "env \<Rightarrow> cron_dict \<Rightarrow> schedule_def \<Rightarrow> instant \<Rightarrow> instant result" where
  "next_run E cron s now =
     (case sd_kind s of
        Every x \<Rightarrow> add_seconds now x
      | CronAt source tz \<Rightarrow> bind_result (dict_get cron (sd_id s)) (\<lambda>e. cron_after (e_zones E) e tz now))"

definition initial_definition_run :: "env \<Rightarrow> adefinition \<Rightarrow> instant \<Rightarrow> instant result" where
  "initial_definition_run E d now =
     bind_result (definition_schedule d) (\<lambda>k.
     case k of
       Every x \<Rightarrow> Inr now
     | CronAt source tz \<Rightarrow>
         bind_result (parse_cron source) (\<lambda>e. cron_at_or_after (e_zones E) e tz (minute_of now)))"

definition next_definition_run :: "env \<Rightarrow> schedule_kind \<Rightarrow> instant \<Rightarrow> instant result" where
  "next_definition_run E k now =
     (case k of
        Every x \<Rightarrow> add_seconds now x
      | CronAt source tz \<Rightarrow> bind_result (parse_cron source) (\<lambda>e. cron_after (e_zones E) e tz now))"

section \<open>Schedules of the configuration file\<close>

definition origin_context :: "string option \<Rightarrow> string option \<Rightarrow> string \<Rightarrow> string \<Rightarrow> display_context" where
  "origin_context scope definition_id name kind = run_display_context
     \<lparr>c_source_scope = scope, c_target_scope = None, c_labels = [], c_origin_definition_id = definition_id,
      c_origin_definition_name = Some name, c_origin_kind = Some kind\<rparr>"

definition admit_schedule_task ::
  "string \<Rightarrow> string \<Rightarrow> schedule_def \<Rightarrow> instant \<Rightarrow> instant \<Rightarrow> instant \<Rightarrow> (string \<times> string) option \<Rightarrow> int \<Rightarrow>
   (adb, ptask option) tx" where
  "admit_schedule_task new_id who s occurrence next now snapshot capacity =
     bind_tx (return_tx (build_scheduled_task_admission new_id ''organize'' True Schedule who None None
       (sd_limit s) (map_option fst snapshot) (map_option snd snapshot) False None None (Aware now)))
     (\<lambda>(task, st).
     bind_tx (atomic (admit_due_schedule_task (sd_id s) task st ''organize'' (Aware occurrence) (Aware next)
       (Aware now) (PyInt capacity) (Some (origin_context None None (sd_id s) ''legacy-schedule''))))
     (\<lambda>r. return_tx (Inr (map_option d_task r))))"

definition ensure_schedule_state :: "env \<Rightarrow> cron_dict \<Rightarrow> schedule_def \<Rightarrow> instant \<Rightarrow> (adb, sched_state) tx" where
  "ensure_schedule_state E cron s now =
     bind_tx (read_tx (\<lambda>a. Inr (get_schedule_state a (sd_id s)))) (\<lambda>found.
     case found of
       Some st \<Rightarrow> return_tx (Inr st)
     | None \<Rightarrow> bind_tx (return_tx (initial_run E cron s now)) (\<lambda>init.
                atomic (initialize_schedule_state (sd_id s) init now)))"

definition tick_schedule ::
  "env \<Rightarrow> scheduler \<Rightarrow> tick_input \<Rightarrow> instant \<Rightarrow> string \<Rightarrow> schedule_def \<Rightarrow> (adb, ptask option) tx" where
  "tick_schedule E c i now new_id s =
     (if \<not> sd_enabled s then return_tx (Inr None)
      else bind_tx (ensure_schedule_state E (ti_cron i) s now) (\<lambda>st.
        if now < as_next st then return_tx (Inr None)
        else bind_tx (return_tx (next_run E (ti_cron i) s now)) (\<lambda>next.
          admit_schedule_task new_id (sc_principal c) s (as_next st) next now (ti_snapshot i) (ti_capacity i))))"

fun tick_schedules ::
  "env \<Rightarrow> scheduler \<Rightarrow> tick_input \<Rightarrow> instant \<Rightarrow> nat \<Rightarrow> schedule_def list \<Rightarrow> (adb, ptask list) tx" where
  "tick_schedules E c i now n [] = return_tx (Inr [])"
| "tick_schedules E c i now n (s # ss) =
     bind_tx (tick_schedule E c i now (e_draw E n) s) (\<lambda>r.
     bind_tx (tick_schedules E c i now (Suc n) ss) (\<lambda>rs.
     return_tx (Inr ((case r of None \<Rightarrow> [] | Some t \<Rightarrow> [t]) @ rs))))"

section \<open>Managed definitions\<close>

text \<open>\<open>try: m except Exception: h\<close>.\<close>

definition catch_tx :: "('d, 'a) tx \<Rightarrow> ('d, 'a) tx \<Rightarrow> ('d, 'a) tx" where
  "catch_tx m h d = (case m d of (Inl e, d') \<Rightarrow> h d' | r \<Rightarrow> r)"

definition note_failure ::
  "string \<Rightarrow> instant \<Rightarrow> instant option \<Rightarrow> string \<Rightarrow> string \<Rightarrow> string \<Rightarrow> (adb, unit) tx" where
  "note_failure k now expected outcome reason act =
     catch_tx (bind_tx (atomic (record_definition_failure k outcome reason act (Aware now) expected))
                 (\<lambda>_. return_tx (Inr ())))
       (return_tx (Inr ()))"

definition ensure_definition_state :: "env \<Rightarrow> adefinition \<Rightarrow> instant \<Rightarrow> (adb, due_state) tx" where
  "ensure_definition_state E d now =
     bind_tx (read_tx (\<lambda>a. get_due_state a (af_id d))) (\<lambda>found.
     let fp = e_fingerprint E d;
         init = (case initial_definition_run E d now of Inl e \<Rightarrow> now | Inr t \<Rightarrow> t)
     in case found of
          None \<Rightarrow> atomic (initialize_due_state (af_id d) (Aware init) (Aware now) (Some fp))
        | Some r \<Rightarrow>
            if ds_fingerprint r \<notin> {None, Some fp}
            then atomic (reset_due_state (af_id d) (Aware init) (Aware now) fp)
            else return_tx (Inr r))"

text \<open>The outcome of one definition's turn: its Task, or nothing after a note was written.\<close>

definition skip_with :: "(adb, unit) tx \<Rightarrow> (adb, ptask option) tx" where
  "skip_with m = bind_tx m (\<lambda>_. return_tx (Inr None))"

text \<open>The guards before a definition's schedule is read, in their order; \<open>None\<close> lets it go on.\<close>

definition definition_blocker :: "tick_input \<Rightarrow> adefinition \<Rightarrow> (string \<times> string \<times> string) option" where
  "definition_blocker i d =
     (if ti_failed i then
        Some (''blocked'', ''managed Active configuration is unavailable'',
              ''inspect configuration status and activate a valid revision'')
      else if (case ti_snapshot i of None \<Rightarrow> True | Some (k, g) \<Rightarrow> k = [] \<or> g = []) \<or> ti_version i = None then
        Some (''blocked'', ''managed Active configuration identity is unavailable'',
              ''activate a valid managed configuration before enabling scheduling'')
      else if \<not> af_enabled d then
        Some (''disabled'', ''Automation Task Definition is disabled'',
              ''enable the definition in a new validated Active revision'')
      else if ti_libraries i \<noteq> [] \<and> af_library d \<notin> set (ti_libraries i) then
        Some (''blocked'', ''referenced ResourceLibrary is missing from Active configuration'',
              ''repair the ResourceLibrary reference and activate a new revision'')
      else if ti_enabled i \<noteq> [] \<and> af_library d \<notin> set (ti_enabled i) then
        Some (''blocked'', ''referenced ResourceLibrary is disabled'',
              ''enable the ResourceLibrary and activate a new revision'')
      else None)"

text \<open>Everything of the emission that one \<open>try\<close> covers.\<close>

definition emit_definition ::
  "env \<Rightarrow> scheduler \<Rightarrow> tick_input \<Rightarrow> instant \<Rightarrow> string \<Rightarrow> string \<Rightarrow> adefinition \<Rightarrow> instant \<Rightarrow> instant \<Rightarrow>
   (adb, admission option) tx" where
  "emit_definition E c i now task_id occurrence_id d occurrence next =
     bind_tx (return_tx (definition_limit d)) (\<lambda>limit.
     case (ti_snapshot i, ti_version i) of
       (Some (k, g), Some v) \<Rightarrow>
         bind_tx (return_tx (build_scheduled_task_admission task_id ''organize'' True Schedule
           (sc_principal c) None (af_scope d) (Some limit) (Some k) (Some g) True None None (Aware now)))
         (\<lambda>(task, st).
         bind_tx (read_tx (\<lambda>a. case e_authority E of None \<Rightarrow> Inr () | Some auth \<Rightarrow> auth a task d)) (\<lambda>_.
         bind_tx (return_tx (make_occurrence
           \<lparr>oc_id = occurrence_id, oc_definition = af_id d, oc_at = occurrence, oc_emitted = now,
            oc_task = t_id task, oc_fingerprint = e_fingerprint E d, oc_version = v, oc_revision_id = k,
            oc_revision_version = v, oc_revision_digest = g, oc_library = af_library d,
            oc_scope = af_scope d, oc_limit = limit, oc_outcome = ''emitted'', oc_reason = None,
            oc_next_action = None\<rparr>)) (\<lambda>oc.
         atomic (admit_due_definition_task (e_julianday E) (af_id d) task st oc (Aware next) (Aware now)
           (PyInt (ti_capacity i))
           (Some (origin_context (af_scope d) (Some (af_id d)) (af_name d) ''definition-scheduled''))))))
     | _ \<Rightarrow> return_tx (Inl TypeError))"

text \<open>Why the admission answered None, from the state found afterwards.\<close>

definition note_lost ::
  "string \<Rightarrow> instant \<Rightarrow> instant \<Rightarrow> int \<Rightarrow> (adb, unit) tx" where
  "note_lost k now occurrence capacity =
     bind_tx (read_tx (\<lambda>a. bind_result (get_due_state a k) (\<lambda>latest.
       Inr (if (case latest of None \<Rightarrow> False | Some r \<Rightarrow> ds_next r \<noteq> occurrence) then
              (''duplicate or concurrent tick did not win this occurrence'',
               ''inspect the already-emitted occurrence; no duplicate retry is needed'')
            else if capacity \<le> int (capacity_use (ad_kernel a)) then
              (''configured active Task capacity has been reached'',
               ''wait for an active Task to finish, then tick again'')
            else (''another scheduler instance owns this occurrence'',
                  ''inspect the occurrence state, then tick again if it remains due'')))))
     (\<lambda>(reason, act). note_failure k now (Some occurrence) ''blocked'' reason act)"

definition run_definition ::
  "env \<Rightarrow> scheduler \<Rightarrow> tick_input \<Rightarrow> instant \<Rightarrow> string \<Rightarrow> string \<Rightarrow> adefinition \<Rightarrow> due_state \<Rightarrow> (adb, ptask option) tx" where
  "run_definition E c i now task_id occurrence_id d r =
     (case definition_schedule d of
        Inl e \<Rightarrow> skip_with (note_failure (af_id d) now (Some (ds_next r)) ''blocked''
          ''Automation Task Definition schedule is invalid''
          ''correct the interval/Cron and timezone, validate, and activate'')
      | Inr kind \<Rightarrow>
          if now < ds_updated r then
            skip_with (note_failure (af_id d) now (Some (ds_next r)) ''blocked''
              ''scheduler clock moved backwards'' ''restore a monotonic clock, then tick again'')
          else if now < ds_next r then return_tx (Inr None)
          else (case next_definition_run E kind now of
            Inl e \<Rightarrow> skip_with (note_failure (af_id d) now (Some (ds_next r)) ''blocked''
              ''Automation Task Definition schedule is invalid''
              ''correct the interval/Cron and timezone, validate, and activate'')
          | Inr next \<Rightarrow>
              bind_tx (catch_tx
                (bind_tx (emit_definition E c i now task_id occurrence_id d (ds_next r) next)
                  (\<lambda>v. return_tx (Inr (Some v))))
                (bind_tx (note_failure (af_id d) now (Some (ds_next r)) ''failed''
                    ''managed occurrence emission failed before publication''
                    ''inspect the durable definition state, then tick again'')
                  (\<lambda>_. return_tx (Inr None))))
              (\<lambda>v. case v of
                 None \<Rightarrow> return_tx (Inr None)
               | Some None \<Rightarrow> skip_with (note_lost (af_id d) now (ds_next r) (ti_capacity i))
               | Some (Some adm) \<Rightarrow> return_tx (Inr (Some (d_task adm))))))"

definition tick_definition ::
  "env \<Rightarrow> scheduler \<Rightarrow> tick_input \<Rightarrow> instant \<Rightarrow> string \<Rightarrow> string \<Rightarrow> adefinition \<Rightarrow> (adb, ptask option) tx" where
  "tick_definition E c i now task_id occurrence_id d =
     (if af_id d = [] then return_tx (Inr None)
      else bind_tx (catch_tx
             (bind_tx (ensure_definition_state E d now) (\<lambda>r. return_tx (Inr (Some r))))
             (bind_tx (note_failure (af_id d) now None ''failed'' ''managed definition due-state is unavailable''
                 ''inspect the durable scheduler database, then tick again'')
               (\<lambda>_. return_tx (Inr None))))
           (\<lambda>v. case v of
              None \<Rightarrow> return_tx (Inr None)
            | Some r \<Rightarrow>
                (case definition_blocker i d of
                   Some (outcome, reason, act) \<Rightarrow>
                     skip_with (note_failure (af_id d) now (Some (ds_next r)) outcome reason act)
                 | None \<Rightarrow> run_definition E c i now task_id occurrence_id d r)))"

fun tick_definitions ::
  "env \<Rightarrow> scheduler \<Rightarrow> tick_input \<Rightarrow> instant \<Rightarrow> nat \<Rightarrow> adefinition list \<Rightarrow> (adb, ptask list) tx" where
  "tick_definitions E c i now n [] = return_tx (Inr [])"
| "tick_definitions E c i now n (d # ds) =
     bind_tx (tick_definition E c i now (e_draw E n) (e_draw E (Suc n)) d) (\<lambda>r.
     bind_tx (tick_definitions E c i now (n + 2) ds) (\<lambda>rs.
     return_tx (Inr ((case r of None \<Rightarrow> [] | Some t \<Rightarrow> [t]) @ rs))))"

text \<open>Due states whose definition is gone are marked, up to 10000 of them.\<close>

definition list_due_states :: "adb \<Rightarrow> nat \<Rightarrow> due_state list" where
  "list_due_states a n = take n (order_rows (\<lambda>p q. text_le (ds_id p) (ds_id q)) (ad_due a))"

fun note_missing :: "string list \<Rightarrow> instant \<Rightarrow> due_state list \<Rightarrow> (adb, unit) tx" where
  "note_missing known now [] = return_tx (Inr ())"
| "note_missing known now (r # rs) =
     bind_tx (if ds_id r \<in> set known then return_tx (Inr ())
              else note_failure (ds_id r) now (Some (ds_next r)) ''blocked''
                ''Automation Task Definition is missing from Active configuration''
                ''restore the definition or explicitly leave it disabled'')
     (\<lambda>_. note_missing known now rs)"

definition tick_managed :: "env \<Rightarrow> scheduler \<Rightarrow> tick_input \<Rightarrow> instant \<Rightarrow> nat \<Rightarrow> (adb, ptask list) tx" where
  "tick_managed E c i now n =
     bind_tx (tick_definitions E c i now n (ti_definitions i)) (\<lambda>ts.
     bind_tx (read_tx (\<lambda>a. Inr (list_due_states a 10000))) (\<lambda>rows.
     bind_tx (note_missing (map af_id (ti_definitions i)) now rows) (\<lambda>_.
     return_tx (Inr ts))))"

definition tick :: "env \<Rightarrow> scheduler \<Rightarrow> resolution result option \<Rightarrow> instant \<Rightarrow> (adb, ptask list) tx" where
  "tick E c resolved now =
     bind_tx (return_tx (resolved_input c resolved)) (\<lambda>i.
     bind_tx (tick_schedules E c i now 0 (ti_schedules i)) (\<lambda>ts.
     if ti_managed i
     then bind_tx (tick_managed E c i now (length (ti_schedules i))) (\<lambda>ms. return_tx (Inr (ts @ ms)))
     else return_tx (Inr ts)))"

end
