(* ===== verification/Execution_Tickets.thy ===== *)
theory Execution_Tickets
  imports Automation_Store Scheduling_Service
begin

text \<open>
  \<open>application/execution_authorization.py\<close>: the service that issues remote execution tickets and
  turns one into an admitted Task. The SHA-256 digest of a token is a function; the token, the drawn
  identities and the clock are arguments.
\<close>

record ticket_service =
  ts_maximum_ttl :: int
  ts_capacity :: int
  ts_snapshot :: "(string \<times> string) option"

definition snapshot_pair :: "string option \<Rightarrow> string option \<Rightarrow> (string \<times> string) option result" where
  "snapshot_pair k g =
     (case (k, g) of (None, None) \<Rightarrow> Inr None | (Some i, Some d) \<Rightarrow> Inr (Some (i, d)) | _ \<Rightarrow> Inl ValueError)"

definition make_ticket_service ::
  "int \<Rightarrow> int \<Rightarrow> string option \<Rightarrow> string option \<Rightarrow> ticket_service result" where
  "make_ticket_service ttl capacity k g =
     bind_result (snapshot_pair k g) (\<lambda>snapshot.
     raise_if (ttl < 1) ValueError
     (raise_if (capacity < 1 \<or> capacity > 10000) ValueError
     (Inr \<lparr>ts_maximum_ttl = ttl, ts_capacity = capacity, ts_snapshot = snapshot\<rparr>)))"

definition bind_configuration_snapshot ::
  "ticket_service \<Rightarrow> string option \<Rightarrow> string option \<Rightarrow> ticket_service result" where
  "bind_configuration_snapshot c k g =
     bind_result (snapshot_pair k g) (\<lambda>snapshot. Inr (c\<lparr>ts_snapshot := snapshot\<rparr>))"

text \<open>An argument that must be an \<open>int\<close> and no \<open>bool\<close>.\<close>

definition int_argument :: "pynum \<Rightarrow> int result" where
  "int_argument v = (case v of PyInt n \<Rightarrow> Inr n | _ \<Rightarrow> Inl ValueError)"

definition issue_ticket ::
  "ticket_service \<Rightarrow> (string \<Rightarrow> string) \<Rightarrow> pynum \<Rightarrow> pynum \<Rightarrow> string option \<Rightarrow> string option \<Rightarrow>
   instant \<Rightarrow> string \<Rightarrow> string \<Rightarrow> string \<Rightarrow> (adb, ticket) tx" where
  "issue_ticket c digest ttl_seconds max_items actor note now token new_id audit_id =
     bind_tx (return_tx (int_argument ttl_seconds)) (\<lambda>ttl.
     bind_tx (return_tx (raise_if (ttl < 1 \<or> ts_maximum_ttl c < ttl) ValueError (Inr ()))) (\<lambda>_.
     bind_tx (return_tx (bind_result (int_argument max_items) (\<lambda>n. raise_if (n < 1) ValueError (Inr n)))) (\<lambda>n.
     bind_tx (return_tx (raise_if (token = []) ValueError (Inr ()))) (\<lambda>_.
     bind_tx (return_tx (add_seconds now (of_int ttl))) (\<lambda>expires.
     let v = \<lparr>ea_id = new_id, ea_digest = digest token, ea_status = TicketActive, ea_created = now,
              ea_expires = expires, ea_max_items = n, ea_actor = actor, ea_note = note,
              ea_consumed = None, ea_task = None, ea_revoked = None\<rparr>
     in bind_tx (atomic (create_ticket v \<lparr>ta_id = audit_id, ta_ticket = new_id, ta_action = ''issued'',
            ta_at = now, ta_task = None, ta_actor = actor\<rparr>)) (\<lambda>_. return_tx (Inr v)))))))"

text \<open>A full queue becomes the transport's own exception.\<close>

definition as_queue_full :: "('d, 'a) tx \<Rightarrow> ('d, 'a) tx" where
  "as_queue_full m d =
     (case m d of (Inl e, d') \<Rightarrow> (Inl (if e = TaskQueueFull then AutomationQueueFull else e), d') | r \<Rightarrow> r)"

definition submit_organize ::
  "ticket_service \<Rightarrow> (string \<Rightarrow> string) \<Rightarrow> string \<Rightarrow> pynum \<Rightarrow> instant \<Rightarrow> string \<Rightarrow> string \<Rightarrow>
   (adb, ptask \<times> sched \<times> ticket) tx" where
  "submit_organize c digest token limit now new_id audit_id =
     bind_tx (return_tx (raise_if (token = []) ValueError (Inr ()))) (\<lambda>_.
     bind_tx (return_tx (bind_result (int_argument limit) (\<lambda>n. raise_if (n < 1) ValueError (Inr n)))) (\<lambda>n.
     bind_tx (return_tx (build_scheduled_task_admission new_id ''organize'' True Manual ''remote-execution''
       None None (Some n) (map_option fst (ts_snapshot c)) (map_option snd (ts_snapshot c))
       (ts_snapshot c \<noteq> None) None None (Aware now))) (\<lambda>(task, st).
     bind_tx (as_queue_full (consume_ticket (digest token) task st (Aware now)
       \<lparr>ta_id = audit_id, ta_ticket = ''resolved-by-digest'', ta_action = ''consumed'', ta_at = now,
        ta_task = Some (t_id task), ta_actor = None\<rparr> (PyInt (ts_capacity c))
       (Some (run_display_context \<lparr>c_source_scope = None, c_target_scope = None, c_labels = [],
          c_origin_definition_id = None, c_origin_definition_name = None,
          c_origin_kind = Some ''remote-organize''\<rparr>)))) (\<lambda>v.
     return_tx (Inr (task, st, v))))))"

definition list_tickets :: "instant \<Rightarrow> (adb, ticket list) tx" where
  "list_tickets now =
     bind_tx (atomic (expire_tickets now)) (\<lambda>_.
     read_tx (\<lambda>a. Inr (order_rows (\<lambda>p q. ea_created q < ea_created p \<or>
       (ea_created q = ea_created p \<and> text_le (ea_id p) (ea_id q))) (ad_tickets a))))"

definition read_ticket :: "string \<Rightarrow> instant \<Rightarrow> (adb, ticket option) tx" where
  "read_ticket k now =
     bind_tx (atomic (expire_tickets now)) (\<lambda>_. read_tx (\<lambda>a. Inr (get_ticket a k)))"

definition service_revoke_ticket :: "string \<Rightarrow> string option \<Rightarrow> instant \<Rightarrow> string \<Rightarrow> (adb, ticket) tx" where
  "service_revoke_ticket k actor now audit_id =
     atomic (revoke_ticket k now \<lparr>ta_id = audit_id, ta_ticket = k, ta_action = ''revoked'', ta_at = now,
       ta_task = None, ta_actor = actor\<rparr>)"

end
