(* ===== verification/Automation_Machine.thy ===== *)
theory Automation_Machine
  imports Automation_Tick Execution_Tickets Kernel_Invariants
begin

text \<open>
  The scheduler, the ticket service and the kernel as one state machine over one database. A method of
  several transactions is shown to move the database only by the transactions it commits (\<open>moves\<close>),
  so the invariants are proved of the transactions alone.
\<close>

section \<open>Methods as sequences of transactions\<close>

definition moves :: "('d \<Rightarrow> 'd \<Rightarrow> bool) \<Rightarrow> ('d, 'a) tx \<Rightarrow> bool" where
  "moves R m = (\<forall>d. R\<^sup>*\<^sup>* d (snd (m d)))"

named_theorems moves_intros \<open>what a method built of transactions can do to the database\<close>

lemma movesD: "moves R m \<Longrightarrow> m d = (r, d') \<Longrightarrow> R\<^sup>*\<^sup>* d d'"
  unfolding moves_def by (metis snd_conv)

lemma moves_return [moves_intros]: "moves R (return_tx r)"
  by (simp add: moves_def return_tx_def)

lemma moves_read [moves_intros]: "moves R (read_tx f)"
  by (simp add: moves_def read_tx_def)

lemma moves_atomic:
  assumes "\<And>d x d'. b d = Inr (x, d') \<Longrightarrow> R d d'"
  shows "moves R (atomic b)"
  using assms by (auto simp: moves_def atomic_def split: sum.splits)

lemma moves_bind [moves_intros]:
  assumes "moves R m" "\<And>x. moves R (f x)"
  shows "moves R (bind_tx m f)"
  unfolding moves_def
proof
  fix d
  obtain r e where m: "m d = (r, e)" by (cases "m d")
  have "R\<^sup>*\<^sup>* d e" by (rule movesD [OF assms(1) m])
  moreover have "R\<^sup>*\<^sup>* e (snd (f x e))" for x using assms(2) by (simp add: moves_def)
  ultimately show "R\<^sup>*\<^sup>* d (snd (bind_tx m f d))"
    by (cases r) (auto simp: bind_tx_def m intro: rtranclp_trans)
qed

lemma moves_bind_return:
  assumes "\<And>x. r = Inr x \<Longrightarrow> moves R (f x)"
  shows "moves R (bind_tx (return_tx r) f)"
  using assms by (cases r) (auto simp: moves_def bind_tx_def return_tx_def)

lemma moves_catch [moves_intros]:
  assumes "moves R m" "moves R h"
  shows "moves R (catch_tx m h)"
  unfolding moves_def
proof
  fix d
  obtain r e where m: "m d = (r, e)" by (cases "m d")
  have "R\<^sup>*\<^sup>* d e" by (rule movesD [OF assms(1) m])
  moreover have "R\<^sup>*\<^sup>* e (snd (h e))" using assms(2) by (simp add: moves_def)
  ultimately show "R\<^sup>*\<^sup>* d (snd (catch_tx m h d))"
    by (cases r) (auto simp: catch_tx_def m intro: rtranclp_trans)
qed

section \<open>The transactions\<close>

text \<open>
  What a run is restricted to: the kernel operations, the largest capacity, the fingerprint a definition
  may carry and the definitions whose due state may be cleared.
\<close>

record policy =
  po_kernel :: "kernel_op \<Rightarrow> bool"
  po_capacity :: nat
  po_fingerprint :: "string \<Rightarrow> string \<Rightarrow> bool"
  po_clear :: "string \<Rightarrow> bool"

definition open_policy :: "(kernel_op \<Rightarrow> bool) \<Rightarrow> nat \<Rightarrow> policy" where
  "open_policy P C = \<lparr>po_kernel = P, po_capacity = C, po_fingerprint = (\<lambda>_ _. True), po_clear = (\<lambda>_. True)\<rparr>"

text \<open>A due schedule is only ever advanced to an instant after the one it is advanced at.\<close>

inductive store_step :: "policy \<Rightarrow> adb \<Rightarrow> adb \<Rightarrow> bool" for p where
  kernel: "\<lbrakk>po_kernel p op; cap \<le> po_capacity p; perform cap op (ad_kernel a) = Inr d\<rbrakk> \<Longrightarrow> store_step p a (a\<lparr>ad_kernel := d\<rparr>)"
| init_schedule: "initialize_schedule_state k next now a = Inr (r, a') \<Longrightarrow> store_step p a a'"
| admit_schedule: "\<lbrakk>admit_due_schedule_task k task st cmd (Aware occ) (Aware next) (Aware now) (PyInt cap) disp a
      = Inr (r, a'); now < next; cap \<le> int (po_capacity p)\<rbrakk> \<Longrightarrow> store_step p a a'"
| init_due: "initialize_due_state k next now fp a = Inr (r, a') \<Longrightarrow> store_step p a a'"
| reset_due: "\<lbrakk>reset_due_state k next now f a = Inr (r, a'); find_row ds_id k (ad_due a) = Some q;
    ds_fingerprint q \<notin> {None, Some f}; po_fingerprint p k f\<rbrakk> \<Longrightarrow> store_step p a a'"
| clear_due: "\<lbrakk>clear_due_states ks a = Inr (n, a'); list_all (po_clear p) ks\<rbrakk> \<Longrightarrow> store_step p a a'"
| note_due: "record_definition_failure k outcome reason act now expected a = Inr (r, a') \<Longrightarrow> store_step p a a'"
| admit_due: "\<lbrakk>admit_due_definition_task jd k task st oc next now (PyInt cap) disp a = Inr (r, a'); cap \<le> int (po_capacity p)\<rbrakk>
    \<Longrightarrow> store_step p a a'"
| create: "\<lbrakk>create_ticket v audit a = Inr (u, a'); ea_status v = TicketActive; ea_task v = None\<rbrakk> \<Longrightarrow> store_step p a a'"
| expire: "expire_tickets now a = Inr (n, a') \<Longrightarrow> store_step p a a'"
| lapse: "\<lbrakk>v \<in> set (ad_tickets a); ea_status v = TicketActive; ea_expires v \<le> now\<rbrakk> \<Longrightarrow>
    store_step p a (a\<lparr>ad_tickets := update_rows (\<lambda>r. ea_id r = ea_id v) (\<lambda>r. r\<lparr>ea_status := TicketExpired\<rparr>) (ad_tickets a)\<rparr>)"
| spend: "\<lbrakk>spend_ticket v cap task st t audit disp a = Inr (r, a'); require_scheduled_admission_values task st = Inr ();
    cap \<le> po_capacity p; cap \<le> 10000\<rbrakk> \<Longrightarrow> store_step p a a'"
| revoke: "revoke_ticket k now audit a = Inr (r, a') \<Longrightarrow> store_step p a a'"

section \<open>What a tick and the ticket service commit\<close>

lemma candidate_after: "cron_candidate L I b False d h m = Some c \<Longrightarrow> b < c"
  by (auto simp: cron_candidate_def Let_def split: if_splits)

lemma first_return_value: "first_return f xs = Inr (Some v) \<Longrightarrow> \<exists>x \<in> set xs. f x = Inr (Some v)"
  by (induction xs) (auto simp: guard_simps split: option.splits)

lemma next_after_later:
  assumes "next_after L I e (Aware b) = Inr r"
  shows "b < r"
proof -
  from assms obtain i where "bind_result (add_days i (wall_date (L b))) (scan_date L I e b False) = Inr (Some r)"
    by (auto simp: next_after_def cron_next_def guard_simps range_return_list Let_def split: option.splits
        dest!: first_return_value)
  then show ?thesis
    by (auto simp: guard_simps scan_date_def split: if_splits dest!: first_return_value candidate_after)
qed

lemma cron_after_later: "cron_after zones e tz now = Inr r \<Longrightarrow> now < r"
  by (auto simp: cron_after_def guard_simps dest: next_after_later)

text \<open>An interval shorter than half a microsecond would be rounded away.\<close>

definition real_interval :: "schedule_def \<Rightarrow> bool" where
  "real_interval s = (case sd_kind s of Every x \<Rightarrow> 1 \<le> seconds_to_us x | CronAt source tz \<Rightarrow> True)"

lemma next_run_later: "next_run E cron s now = Inr r \<Longrightarrow> real_interval s \<Longrightarrow> now < r"
  by (auto simp: next_run_def real_interval_def add_seconds_def Let_def guard_simps
      split: schedule_kind.splits dest: cron_after_later)

lemmas note_moves = moves_catch moves_bind moves_return

lemma moves_note [moves_intros]: "moves (store_step p) (note_failure k now expected outcome reason act)"
  unfolding note_failure_def by (intro moves_intros moves_atomic) (rule store_step.note_due)

lemma moves_skip [moves_intros]: "moves R m \<Longrightarrow> moves R (skip_with m)"
  unfolding skip_with_def by (intro moves_intros)

lemma moves_schedule:
  assumes "real_interval s" "ti_capacity i \<le> int (po_capacity p)"
  shows "moves (store_step p) (tick_schedule E c i now new_id s)"
proof -
  have ensure: "moves (store_step p) (ensure_schedule_state E cron s now)" for cron
    unfolding ensure_schedule_state_def
    by (intro moves_intros) (auto split: option.split intro!: moves_intros moves_atomic store_step.init_schedule)
  have admit: "moves (store_step p) (admit_schedule_task new_id who s occ next now snapshot (ti_capacity i))"
    if "now < next" for who occ "next" snapshot
    unfolding admit_schedule_task_def
    by (intro moves_intros) (auto split: prod.split intro!: moves_intros moves_atomic
        elim: store_step.admit_schedule [OF _ that assms(2)])
  show ?thesis
    unfolding tick_schedule_def
    by (auto intro!: moves_intros ensure moves_bind_return admit dest: next_run_later [OF _ assms(1)])
qed

lemma moves_schedules:
  assumes "list_all real_interval ss" "ti_capacity i \<le> int (po_capacity p)"
  shows "moves (store_step p) (tick_schedules E c i now n ss)"
  using assms(1) by (induction ss arbitrary: n) (auto intro!: moves_intros moves_schedule assms(2))

lemma moves_emit:
  assumes "ti_capacity i \<le> int (po_capacity p)"
  shows "moves (store_step p) (emit_definition E c i now task_id occurrence_id d occurrence next)"
  unfolding emit_definition_def
  by (auto split: option.split prod.split intro!: moves_intros moves_atomic
      elim: store_step.admit_due [OF _ assms])

lemma moves_lost [moves_intros]: "moves (store_step p) (note_lost k now occurrence capacity)"
  unfolding note_lost_def by (intro moves_intros) (auto split: prod.split intro!: moves_intros)

lemma moves_ensure_definition:
  assumes "po_fingerprint p (af_id d) (e_fingerprint E d)"
  shows "moves (store_step p) (ensure_definition_state E d now)"
  unfolding moves_def
proof
  fix a
  let ?m = "ensure_definition_state E d now a"
  let ?init = "case initial_definition_run E d now of Inl e \<Rightarrow> now | Inr t \<Rightarrow> t"
  have "snd ?m = a \<or> store_step p a (snd ?m)"
  proof (cases "get_due_state a (af_id d)")
    case (Inr found)
    then have f: "find_row ds_id (af_id d) (ad_due a) = found" by (simp add: get_due_state_def guard_simps)
    with Inr assms show ?thesis
      by (cases found)
        (auto simp: ensure_definition_state_def bind_tx_def read_tx_def return_tx_def atomic_def Let_def
          split: sum.split intro: store_step.init_due store_step.reset_due)
  qed (simp add: ensure_definition_state_def bind_tx_def read_tx_def)
  then show "(store_step p)\<^sup>*\<^sup>* a (snd ?m)" by auto
qed

lemma moves_run_definition:
  assumes "ti_capacity i \<le> int (po_capacity p)"
  shows "moves (store_step p) (run_definition E c i now task_id occurrence_id d r)"
  unfolding run_definition_def
  by (auto split: sum.split option.split intro!: moves_intros moves_emit assms)

lemma moves_definition:
  assumes "ti_capacity i \<le> int (po_capacity p)" "po_fingerprint p (af_id d) (e_fingerprint E d)"
  shows "moves (store_step p) (tick_definition E c i now task_id occurrence_id d)"
  unfolding tick_definition_def
  by (auto split: sum.split option.split prod.split
      intro!: moves_intros moves_run_definition moves_ensure_definition assms)

lemma moves_definitions:
  assumes "ti_capacity i \<le> int (po_capacity p)" "list_all (\<lambda>d. po_fingerprint p (af_id d) (e_fingerprint E d)) ds"
  shows "moves (store_step p) (tick_definitions E c i now n ds)"
  using assms(2) by (induction ds arbitrary: n) (auto intro!: moves_intros moves_definition assms(1))

lemma moves_missing [moves_intros]: "moves (store_step p) (note_missing known now rs)"
  by (induction rs) (auto intro!: moves_intros)

definition sane_input :: "policy \<Rightarrow> env \<Rightarrow> tick_input \<Rightarrow> bool" where
  "sane_input p E i =
     (ti_capacity i \<le> int (po_capacity p) \<and> list_all real_interval (ti_schedules i) \<and>
      list_all (\<lambda>d. po_fingerprint p (af_id d) (e_fingerprint E d)) (ti_definitions i))"

theorem moves_tick:
  assumes "\<And>i. resolved_input c resolved = Inr i \<Longrightarrow> sane_input p E i"
  shows "moves (store_step p) (tick E c resolved now)"
  unfolding tick_def tick_managed_def using assms
  by (auto simp: sane_input_def intro!: moves_bind_return moves_intros moves_schedules moves_definitions)

lemma moves_issue: "moves (store_step p) (issue_ticket c digest ttl_seconds max_items actor note now token new_id audit_id)"
  unfolding issue_ticket_def Let_def by (intro moves_intros moves_atomic) (erule store_step.create; simp)

lemma moves_queue_full [moves_intros]: "moves R m \<Longrightarrow> moves R (as_queue_full m)"
  by (auto simp: moves_def as_queue_full_def split: prod.split sum.split) (metis snd_conv)+
lemma moves_consume:
  assumes "cap \<le> int (po_capacity p)"
  shows "moves (store_step p) (consume_ticket digest task st now audit (PyInt cap) disp)"
  unfolding moves_def
proof
  fix a
  let ?m = "consume_ticket digest task st now audit (PyInt cap) disp a"
  show "(store_step p)\<^sup>*\<^sup>* a (snd ?m)"
  proof (cases "snd ?m = a")
    case False
    have "\<exists>n t v. require_capacity (PyInt cap) = Inr n \<and> require_scheduled_admission_values task st = Inr () \<and>
        require_aware now = Inr t \<and> find_row ea_digest digest (ad_tickets a) = Some v \<and> ea_status v = TicketActive"
      using False by (auto simp: consume_ticket_def bind_tx_def return_tx_def read_tx_def
          split: sum.splits option.splits if_splits)
    then obtain n t v where v: "find_row ea_digest digest (ad_tickets a) = Some v" "ea_status v = TicketActive"
      and n: "require_capacity (PyInt cap) = Inr n" "require_scheduled_admission_values task st = Inr ()"
      and t: "require_aware now = Inr t" by blast
    have m: "?m = (if ea_expires v \<le> t then (Inl ValueError, a\<lparr>ad_tickets := update_rows (\<lambda>r. ea_id r = ea_id v)
          (\<lambda>r. r\<lparr>ea_status := TicketExpired\<rparr>) (ad_tickets a)\<rparr>) else atomic (spend_ticket v n task st t audit disp) a)"
      using v n t by (simp add: consume_ticket_def bind_tx_def return_tx_def read_tx_def atomic_def)
    have mem: "v \<in> set (ad_tickets a)" using v(1) by (auto dest: find_row_key)
    have "n \<le> po_capacity p" "n \<le> 10000" using n(1) assms by (auto simp: guard_simps)
    then have "store_step p a (snd ?m)"
      using m False v(2) n(2) mem
      by (auto simp: atomic_def split: if_splits sum.splits intro: store_step.lapse store_step.spend)
    then show ?thesis by blast
  qed simp
qed

lemma moves_submit:
  assumes "ts_capacity c \<le> int (po_capacity p)"
  shows "moves (store_step p) (submit_organize c digest token limit now new_id audit_id)"
  unfolding submit_organize_def
  by (auto split: prod.split intro!: moves_intros moves_consume assms)

section \<open>Runs\<close>

datatype automation_op =
    OnKernel kernel_op
  | TickOp env scheduler "resolution result option" instant
  | ClearDueOp "string list"
  | IssueOp ticket_service "string \<Rightarrow> string" pynum pynum "string option" "string option" instant string string string
  | SubmitOp ticket_service "string \<Rightarrow> string" string pynum instant string string
  | ExpireOp instant
  | RevokeOp string "string option" instant string

text \<open>The database after an operation, whether it returned or raised.\<close>

fun automation_exec :: "nat \<Rightarrow> automation_op \<Rightarrow> adb \<Rightarrow> adb" where
  "automation_exec cap (OnKernel op) a =
     (case perform cap op (ad_kernel a) of Inl e \<Rightarrow> a | Inr d \<Rightarrow> a\<lparr>ad_kernel := d\<rparr>)"
| "automation_exec cap (TickOp E c resolved now) a = snd (tick E c resolved now a)"
| "automation_exec cap (ClearDueOp ks) a = snd (atomic (clear_due_states ks) a)"
| "automation_exec cap (IssueOp c digest ttl n actor msg now token k j) a =
     snd (issue_ticket c digest ttl n actor msg now token k j a)"
| "automation_exec cap (SubmitOp c digest token limit now k j) a = snd (submit_organize c digest token limit now k j a)"
| "automation_exec cap (ExpireOp now) a = snd (atomic (expire_tickets now) a)"
| "automation_exec cap (RevokeOp k actor now j) a = snd (service_revoke_ticket k actor now j a)"

fun sane_op :: "policy \<Rightarrow> automation_op \<Rightarrow> bool" where
  "sane_op p (OnKernel op) = po_kernel p op"
| "sane_op p (TickOp E c resolved now) =
     (case resolved_input c resolved of Inl e \<Rightarrow> True | Inr i \<Rightarrow> sane_input p E i)"
| "sane_op p (ClearDueOp ks) = list_all (po_clear p) ks"
| "sane_op p (SubmitOp c digest token limit now k j) = (ts_capacity c \<le> int (po_capacity p))"
| "sane_op p _ = True"

text \<open>A run is a sequence of operations, each with the capacity its kernel call is made under.\<close>

fun automation_run :: "(nat \<times> automation_op) list \<Rightarrow> adb \<Rightarrow> adb" where
  "automation_run [] a = a"
| "automation_run ((cap, op) # ops) a = automation_run ops (automation_exec cap op a)"

definition sane_run :: "policy \<Rightarrow> (nat \<times> automation_op) list \<Rightarrow> bool" where
  "sane_run p ops = list_all (\<lambda>(cap, op). cap \<le> po_capacity p \<and> sane_op p op) ops"

lemma exec_steps:
  assumes "sane_op p op" "cap \<le> po_capacity p"
  shows "(store_step p)\<^sup>*\<^sup>* a (automation_exec cap op a)"
proof (cases op)
  case (OnKernel kop)
  with assms show ?thesis by (auto split: sum.split intro: store_step.kernel)
next
  case (TickOp E c resolved now)
  with assms(1) have "moves (store_step p) (tick E c resolved now)" by (intro moves_tick) (simp split: sum.splits)
  with TickOp show ?thesis by (simp add: moves_def)
next
  case (ClearDueOp ks)
  have "moves (store_step p) (atomic (clear_due_states ks))" by (intro moves_atomic) (use ClearDueOp assms(1) in \<open>auto intro: store_step.clear_due\<close>)
  with ClearDueOp show ?thesis by (simp add: moves_def)
next
  case (IssueOp c digest ttl n actor msg now token k j)
  then show ?thesis using moves_issue [of p c digest ttl n actor msg now token k j] by (simp add: moves_def)
next
  case (SubmitOp c digest token limit now k j)
  with assms(1) moves_submit [of c p digest token limit now k j] show ?thesis by (simp add: moves_def)
next
  case (ExpireOp now)
  have "moves (store_step p) (atomic (expire_tickets now))" by (intro moves_atomic) (rule store_step.expire)
  with ExpireOp show ?thesis by (simp add: moves_def)
next
  case (RevokeOp k actor now j)
  have "moves (store_step p) (service_revoke_ticket k actor now j)"
    unfolding service_revoke_ticket_def by (intro moves_atomic) (rule store_step.revoke)
  with RevokeOp show ?thesis by (simp add: moves_def)
qed

lemma run_steps: "sane_run p ops \<Longrightarrow> (store_step p)\<^sup>*\<^sup>* a (automation_run ops a)"
proof (induction ops arbitrary: a)
  case (Cons x ops)
  obtain cap op where x: "x = (cap, op)" by (cases x)
  with Cons.prems have "(store_step p)\<^sup>*\<^sup>* a (automation_exec cap op a)"
    by (auto simp: sane_run_def intro: exec_steps)
  moreover have "(store_step p)\<^sup>*\<^sup>* (automation_exec cap op a) (automation_run ops (automation_exec cap op a))"
    using Cons by (simp add: sane_run_def)
  ultimately show ?case by (simp add: x)
qed simp

text \<open>What every transaction keeps, every method and every run keeps.\<close>

lemma steps_keep:
  assumes "(store_step p)\<^sup>*\<^sup>* a b" "I a" "\<And>a b. store_step p a b \<Longrightarrow> I a \<Longrightarrow> I b"
  shows "I b"
  using assms(1) by (induction rule: rtranclp_induct) (auto intro: assms(2,3))

lemmas run_keeps = steps_keep [OF run_steps]

section \<open>The kernel inside\<close>

lemma admission_as_kernel:
  assumes "admit_new task st disp d = Inr d'" "require_scheduled_admission_values task st = Inr ()"
    "capacity_use d < cap" "cap \<le> 10000"
  shows "perform cap (AdmitOp task st disp) d = Inr d'"
proof -
  have "Option.bind (s_request_id st) (scheduled_admission d (s_principal st)) = None"
    using admit_new_Inr(7) [OF assms(1)]
    by (cases "s_request_id st") (auto simp: scheduled_admission_def find_Some_iff split: option.splits dest: nth_mem)
  then show ?thesis
    using assms by (auto simp: admit_scheduled_task_def require_capacity_def commit_def)
qed

definition or_admits :: "(kernel_op \<Rightarrow> bool) \<Rightarrow> kernel_op \<Rightarrow> bool" where
  "or_admits P op = (P op \<or> (case op of AdmitOp task st disp \<Rightarrow> True | _ \<Rightarrow> False))"

lemma kernel_run_one: "allowed op \<Longrightarrow> cap \<le> C \<Longrightarrow> perform cap op d = Inr d' \<Longrightarrow> kernel_run allowed C d d'"
  using kernel_run.step [OF kernel_run.start] by blast

lemma kernel_run_admission:
  assumes "admit_new task st disp d = Inr d'" "require_scheduled_admission_values task st = Inr ()"
    "capacity_use d < cap" "cap \<le> C" "cap \<le> 10000"
  shows "kernel_run (or_admits P) C d d'"
  by (rule kernel_run_one [OF _ assms(4) admission_as_kernel [OF assms(1-3,5)]]) (simp add: or_admits_def)

end
