(* ===== verification/Automation_Invariants.thy ===== *)
theory Automation_Invariants
  imports Automation_Machine
begin

text \<open>
  What every transaction of the scheduler and of the ticket service keeps: the kernel inside makes a run
  of its own, each occurrence is emitted once, each Task has one origin, tickets do not come alive again.
\<close>

section \<open>Refinement of the kernel\<close>

lemmas admission_defs = admit_due_schedule_task_def admit_due_definition_task_def spend_ticket_def Let_def

lemmas quiet_defs = initialize_schedule_state_def initialize_due_state_def reset_due_state_def
  clear_due_states_def record_definition_failure_def create_ticket_def expire_tickets_def
  revoke_ticket_def insert_ticket_audit_def require_due_row_def Let_def

lemma admit_schedule_cases:
  assumes "admit_due_schedule_task k task st cmd (Aware occ) (Aware next) (Aware now) (PyInt cap) disp a = Inr (r, a')"
  obtains "a' = a" "r = None"
  | d n where "cap = int n" "n \<le> 10000" "capacity_use (ad_kernel a) < n" "require_scheduled_admission_values task st = Inr ()"
    "admit_new task st disp (ad_kernel a) = Inr d" "row_count (due_schedule k occ now) (ad_schedules a) = 1"
    "list_all (\<lambda>q. au_task q \<noteq> t_id task) (ad_audit a)"
    "a' = a\<lparr>ad_kernel := d, ad_audit := ad_audit a @ [\<lparr>au_id = k @ '':'' @ t_id task, au_schedule = k,
        au_occurrence = occ, au_emitted = now, au_task = t_id task, au_command = cmd, au_next = next\<rparr>],
        ad_schedules := update_rows (due_schedule k occ now)
          (\<lambda>r. r\<lparr>as_next := next, as_updated := now, as_last_task := Some (t_id task)\<rparr>) (ad_schedules a)\<rparr>"
    "r = Some \<lparr>d_task = task, d_state = st, d_duplicate = False\<rparr>"
  using assms
  by (auto simp: admit_due_schedule_task_def insert_audit_def guard_simps list_ex_iff list_all_iff
      split: if_splits)

lemma admit_due_cases:
  assumes "admit_due_definition_task jd k task st oc next now (PyInt cap) disp a = Inr (r, a')"
  obtains "a' = a" "r = None"
  | d n u t where "cap = int n" "n \<le> 10000" "capacity_use (ad_kernel a) < n" "require_scheduled_admission_values task st = Inr ()"
    "admit_new task st disp (ad_kernel a) = Inr d" "oc_definition oc = k" "oc_task oc = t_id task"
    "list_all (\<lambda>q. oc_task q \<noteq> t_id task \<and> \<not> (oc_definition q = k \<and> oc_at q = oc_at oc)) (ad_occurrences a)"
    "next = Aware u" "now = Aware t"
    "row_count (due_definition jd k (oc_at oc) t (oc_fingerprint oc)) (ad_due a) = 1"
    "a' = a\<lparr>ad_kernel := d, ad_occurrences := ad_occurrences a @ [oc], ad_due := update_rows
       (due_definition jd k (oc_at oc) t (oc_fingerprint oc))
       (\<lambda>r. r\<lparr>ds_next := u, ds_updated := t, ds_last_occurrence := Some (oc_at oc),
              ds_last_task := Some (t_id task), ds_last_outcome := Some (oc_outcome oc),
              ds_last_reason := None, ds_last_action := None,
              ds_fingerprint := Some (oc_fingerprint oc)\<rparr>) (ad_due a)\<rparr>"
    "r = Some \<lparr>d_task = task, d_state = st, d_duplicate = False\<rparr>"
  using assms
  by (auto simp: admit_due_definition_task_def insert_occurrence_def guard_simps list_ex_iff list_all_iff Let_def
      split: if_splits)

lemma spend_cases:
  assumes "spend_ticket v cap task st t audit disp a = Inr (r, a')"
  obtains d where "capacity_use (ad_kernel a) < cap" "admit_new task st disp (ad_kernel a) = Inr d"
    "row_count (live_ticket (ea_id v)) (ad_tickets a) = 1"
    "\<exists>n. t_item_limit task = Some n \<and> n \<le> ea_max_items v"
    "ad_kernel a' = d" "ad_schedules a' = ad_schedules a" "ad_audit a' = ad_audit a"
    "ad_occurrences a' = ad_occurrences a" "ad_due a' = ad_due a"
    "ad_tickets a' = update_rows (live_ticket (ea_id v))
       (\<lambda>r. r\<lparr>ea_status := TicketConsumed, ea_consumed := Some t, ea_task := Some (t_id task)\<rparr>) (ad_tickets a)"
    "get_ticket a' (ea_id v) = Some r"
  using assms
  by (auto simp: spend_ticket_def insert_ticket_audit_def guard_simps row_of_def split: if_splits option.splits)

lemma step_kernel:
  assumes "store_step p a b"
  shows "kernel_run (or_admits (po_kernel p)) (po_capacity p) (ad_kernel a) (ad_kernel b)"
  using assms
proof cases
  case (kernel cap op d)
  then show ?thesis by (auto simp: or_admits_def intro: kernel_run_one)
next
  case (admit_schedule k task st cmd occ "next" now cap disp r)
  from this(1) show ?thesis
    by (rule admit_schedule_cases) (use admit_schedule(3) in \<open>auto intro: kernel_run.start kernel_run_admission\<close>)
next
  case (admit_due jd k task st oc "next" now cap disp r)
  from this(1) show ?thesis
    by (rule admit_due_cases) (use admit_due(2) in \<open>auto intro: kernel_run.start kernel_run_admission\<close>)
next
  case (spend v cap task st t audit disp r)
  from this(1) show ?thesis
    by (rule spend_cases) (use spend(2-) in \<open>auto intro: kernel_run_admission\<close>)
qed (auto simp: quiet_defs guard_simps split: if_splits option.splits intro: kernel_run.start)

section \<open>Occurrences of schedules\<close>

definition schedules_ok :: "adb \<Rightarrow> bool" where
  "schedules_ok a =
     (distinct_rows as_id (ad_schedules a) \<and>
      distinct (map (\<lambda>q. (au_schedule q, au_occurrence q)) (ad_audit a)) \<and>
      (\<forall>q \<in> set (ad_audit a). \<exists>r \<in> set (ad_schedules a). as_id r = au_schedule q \<and> au_occurrence q < as_next r))"

lemma row_count_pos: "row_count P rs = 1 \<Longrightarrow> \<exists>r \<in> set rs. P r"
  by (induction rs) (auto simp: row_count_def split: if_splits)

lemma schedules_ok_same:
  "ad_schedules b = ad_schedules a \<Longrightarrow> ad_audit b = ad_audit a \<Longrightarrow> schedules_ok a \<Longrightarrow> schedules_ok b"
  by (simp add: schedules_ok_def)

lemma distinct_rows_inj: "distinct_rows key rs \<Longrightarrow> r \<in> set rs \<Longrightarrow> q \<in> set rs \<Longrightarrow> key r = key q \<Longrightarrow> r = q"
  by (auto simp: distinct_rows_def distinct_map dest: inj_onD)

lemma step_schedules:
  assumes "store_step p a b" "schedules_ok a"
  shows "schedules_ok b"
  using assms(1)
proof cases
  case (init_schedule k "next" now r)
  then show ?thesis
    using assms(2)
    by (auto simp: initialize_schedule_state_def guard_simps schedules_ok_def get_schedule_state_def
        distinct_rows_def find_row_None Let_def split: option.splits)
next
  case (admit_schedule k task st cmd occ "next" now cap disp r)
  from this(1) show ?thesis
  proof (rule admit_schedule_cases)
    fix d n
    let ?due = "due_schedule k occ now"
    let ?f = "\<lambda>r. r\<lparr>as_next := next, as_updated := now, as_last_task := Some (t_id task)\<rparr>"
    let ?q = "\<lparr>au_id = k @ '':'' @ t_id task, au_schedule = k, au_occurrence = occ, au_emitted = now,
        au_task = t_id task, au_command = cmd, au_next = next\<rparr>"
    assume one: "row_count ?due (ad_schedules a) = 1"
      and b: "b = a\<lparr>ad_kernel := d, ad_audit := ad_audit a @ [?q], ad_schedules := update_rows ?due ?f (ad_schedules a)\<rparr>"
    from row_count_pos [OF one] obtain s where s: "s \<in> set (ad_schedules a)" "as_id s = k" "as_next s = occ" "occ \<le> now"
      by (auto simp: due_schedule_def)
    have rows: "\<exists>r' \<in> set (update_rows ?due ?f (ad_schedules a)). as_id r' = as_id r \<and> as_next r \<le> as_next r' \<and>
        (?due r \<longrightarrow> as_next r' = next)" if "r \<in> set (ad_schedules a)" for r
      using that admit_schedule(2)
      by (intro bexI [where x = "if ?due r then ?f r else r"]) (auto simp: update_rows_def due_schedule_def)
    have new: "occ < next" using s(4) admit_schedule(2) by simp
    have fresh: "(k, occ) \<notin> (\<lambda>q. (au_schedule q, au_occurrence q)) ` set (ad_audit a)"
    proof
      assume "(k, occ) \<in> (\<lambda>q. (au_schedule q, au_occurrence q)) ` set (ad_audit a)"
      then obtain q where q: "q \<in> set (ad_audit a)" "au_schedule q = k" "au_occurrence q = occ" by auto
      then obtain r where r: "r \<in> set (ad_schedules a)" "as_id r = k" "occ < as_next r"
        using assms(2) by (auto simp: schedules_ok_def)
      have "r = s" by (rule distinct_rows_inj [where key = as_id, OF _ r(1) s(1)]) (use assms(2) r s in \<open>auto simp: schedules_ok_def\<close>)
      with r(3) s(3) show False by simp
    qed
    have "\<exists>r \<in> set (update_rows ?due ?f (ad_schedules a)). as_id r = au_schedule q \<and> au_occurrence q < as_next r"
      if q: "q \<in> set (ad_audit a @ [?q])" for q
    proof (cases "q = ?q")
      case True
      with rows [OF s(1)] s new show ?thesis by (auto simp: due_schedule_def)
    next
      case False
      with q assms(2) obtain r where "r \<in> set (ad_schedules a)" "as_id r = au_schedule q" "au_occurrence q < as_next r"
        by (auto simp: schedules_ok_def)
      with rows [of r] show ?thesis by (metis less_le_trans)
    qed
    moreover have "distinct_rows as_id (update_rows ?due ?f (ad_schedules a))"
      using assms(2) by (simp add: schedules_ok_def Tables.distinct_update)
    ultimately show ?thesis using assms(2) fresh by (auto simp: schedules_ok_def b)
  qed (use assms(2) in simp)
next
  case (admit_due jd k task st oc "next" now cap disp r)
  from this(1) show ?thesis
    by (rule admit_due_cases) (use assms(2) in \<open>auto simp: schedules_ok_def\<close>)
next
  case (spend v cap task st t audit disp r)
  from this(1) show ?thesis
    by (rule spend_cases) (use assms(2) in \<open>auto simp: schedules_ok_def\<close>)
qed (use assms(2) in \<open>auto simp: quiet_defs guard_simps schedules_ok_def split: if_splits option.splits\<close>)

section \<open>Occurrences of definitions, and tickets\<close>

definition keys_ok :: "adb \<Rightarrow> bool" where
  "keys_ok a =
     (distinct (map (\<lambda>q. (oc_definition q, oc_at q)) (ad_occurrences a)) \<and> distinct_rows ds_id (ad_due a) \<and>
      distinct_rows ea_id (ad_tickets a) \<and> distinct_rows ea_digest (ad_tickets a))"

lemma row_count_key:
  "distinct_rows key rs \<Longrightarrow> row_count (\<lambda>r. key r = k) rs = (if k \<in> key ` set rs then 1 else 0)"
proof (induction rs)
  case (Cons r rs)
  then have "distinct_rows key rs" and f: "key r \<notin> key ` set rs" by (auto simp: distinct_rows_def)
  from Cons.IH [OF this(1)] f show ?case by auto
qed simp

lemma require_due_row_same: "require_due_row k a = Inr (r, b) \<Longrightarrow> b = a"
  by (simp add: require_due_row_def split: option.splits)

lemma init_due_rows:
  assumes "initialize_due_state k next now fp a = Inr (r, b)" "distinct_rows ds_id (ad_due a)"
  obtains rows where "b = a\<lparr>ad_due := rows\<rparr>" "distinct_rows ds_id rows"
proof -
  let ?rows = "\<lambda>n t. case find_row ds_id k (ad_due a) of
      Some _ \<Rightarrow> ad_due a | None \<Rightarrow> ad_due a @ [fresh_due k n t fp]"
  let ?set = "\<lambda>rows. if fp = None then rows
      else update_rows (\<lambda>r. ds_id r = k \<and> ds_fingerprint r = None) (\<lambda>r. r\<lparr>ds_fingerprint := fp\<rparr>) rows"
  from assms(1) obtain n t where "require_due_row k (a\<lparr>ad_due := ?set (?rows n t)\<rparr>) = Inr (r, b)"
    by (auto simp: initialize_due_state_def guard_simps Let_def)
  then have b: "b = a\<lparr>ad_due := ?set (?rows n t)\<rparr>" by (rule require_due_row_same)
  have "distinct_rows ds_id (?rows n t)"
    using assms(2) by (auto simp: find_row_None distinct_rows_def fresh_due_def split: option.split)
  then show thesis
    by (intro that [OF b]) (simp add: Tables.distinct_update)
qed

lemma step_keys:
  assumes "store_step p a b" "keys_ok a"
  shows "keys_ok b"
  using assms(1)
proof cases
  case (admit_schedule k task st cmd occ "next" now cap disp r)
  from this(1) show ?thesis
    by (rule admit_schedule_cases) (use assms(2) in \<open>auto simp: keys_ok_def\<close>)
next
  case (admit_due jd k task st oc "next" now cap disp r)
  from this(1) show ?thesis
    by (rule admit_due_cases) (use assms(2) in \<open>auto simp: keys_ok_def list_all_iff Tables.distinct_update image_iff\<close>)
next
  case (spend v cap task st t audit disp r)
  from this(1) show ?thesis
    by (rule spend_cases) (use assms(2) in \<open>auto simp: keys_ok_def Tables.distinct_update\<close>)
next
  case (init_due k "next" now fp r)
  then show ?thesis by (rule init_due_rows) (use assms(2) in \<open>auto simp: keys_ok_def\<close>)
next
  case (reset_due k "next" now f r)
  then show ?thesis
    using assms(2) row_count_key [of ds_id "ad_due a" k]
    by (auto simp: reset_due_state_def guard_simps keys_ok_def Let_def fresh_due_def
        Tables.distinct_update split: if_splits) (auto simp: distinct_rows_def)
next
  case (clear_due ks n)
  then show ?thesis
    using assms(2) by (auto simp: clear_due_states_def guard_simps keys_ok_def Tables.distinct_delete split: if_splits)
next
  case (create v audit u)
  then show ?thesis
    using assms(2)
    by (auto simp: create_ticket_def insert_ticket_audit_def guard_simps keys_ok_def find_row_None list_ex_iff
        distinct_rows_def image_iff) (metis)
qed (use assms(2) in \<open>auto simp: quiet_defs guard_simps keys_ok_def row_of_def Tables.distinct_update
      split: if_splits option.splits\<close>)

section \<open>One origin for each Task\<close>

text \<open>The Tasks that schedules, definitions and tickets admitted.\<close>

definition origins :: "adb \<Rightarrow> string list" where
  "origins a = map au_task (ad_audit a) @ map oc_task (ad_occurrences a) @ List.map_filter ea_task (ad_tickets a)"

definition known_tasks :: "adb \<Rightarrow> string set" where
  "known_tasks a = t_id ` set (db_tasks (ad_kernel a))"

definition origins_ok :: "adb \<Rightarrow> bool" where
  "origins_ok a =
     (distinct (origins a) \<and> set (origins a) \<subseteq> known_tasks a \<and>
      (\<forall>v \<in> set (ad_tickets a). ea_status v = TicketActive \<longrightarrow> ea_task v = None))"

lemma map_filter_same:
  "(\<And>r. r \<in> set rs \<Longrightarrow> P r \<Longrightarrow> g (f r) = g r) \<Longrightarrow> List.map_filter g (update_rows P f rs) = List.map_filter g rs"
proof (induction rs)
  case (Cons r rs)
  then have "g (if P r then f r else r) = g r" by simp
  with Cons show ?case by (auto simp: update_rows_def map_filter_simps split: option.split)
qed (simp add: update_rows_def)

lemma map_filter_append: "List.map_filter g (xs @ ys) = List.map_filter g xs @ List.map_filter g ys"
  by (induction xs) (auto simp: map_filter_simps split: option.split)

lemma map_filter_spent:
  assumes "row_count P rs = 1" "\<And>r. r \<in> set rs \<Longrightarrow> P r \<Longrightarrow> g r = None \<and> g (f r) = Some t"
  shows "mset (List.map_filter g (update_rows P f rs)) = add_mset t (mset (List.map_filter g rs))"
  using assms
proof (induction rs)
  case (Cons r rs)
  show ?case
  proof (cases "P r")
    case True
    with Cons.prems(1) have "\<not> P q" if "q \<in> set rs" for q
      using that by (auto simp: row_count_def filter_empty_conv)
    then have "update_rows P f rs = rs" unfolding update_rows_def by (induction rs) auto
    with True Cons.prems(2) [of r] show ?thesis by (simp add: update_rows_def map_filter_simps)
  next
    case False
    with Cons show ?thesis by (auto simp: update_rows_def map_filter_simps split: option.split)
  qed
qed simp

lemma admitted_fresh:
  assumes "admit_new task st disp (ad_kernel a) = Inr d" "origins_ok a"
  shows "t_id task \<notin> set (origins a)" "known_tasks (a\<lparr>ad_kernel := d\<rparr>) = insert (t_id task) (known_tasks a)"
  using admit_new_Inr(2,6) [OF assms(1)] assms(2)
  by (auto simp: origins_ok_def known_tasks_def get_task_def find_row_None)

lemma origins_ok_new:
  assumes "mset (origins b) = add_mset t (mset (origins a))" "t \<notin> set (origins a)"
    "known_tasks b = insert t (known_tasks a)" "origins_ok a"
    "\<And>v. v \<in> set (ad_tickets b) \<Longrightarrow> ea_status v = TicketActive \<Longrightarrow> v \<in> set (ad_tickets a)"
  shows "origins_ok b"
proof -
  from assms(1) have "mset (origins b) = mset (t # origins a)" by simp
  then have "distinct (origins b) = distinct (t # origins a)" "set (origins b) = set (t # origins a)"
    by (rule mset_eq_imp_distinct_iff, rule mset_eq_setD)
  then show ?thesis using assms(2-5) by (auto simp: origins_ok_def)
qed

lemma origins_ok_ended:
  assumes "ad_tickets b = update_rows Q f (ad_tickets a)" "ad_audit b = ad_audit a"
    "ad_occurrences b = ad_occurrences a" "ad_kernel b = ad_kernel a"
    "\<And>r. ea_task (f r) = ea_task r \<and> ea_status (f r) \<noteq> TicketActive" "origins_ok a"
  shows "origins_ok b"
proof -
  have "origins b = origins a" "known_tasks b = known_tasks a"
    using assms(1-5) by (simp_all add: origins_def known_tasks_def map_filter_same)
  then show ?thesis using assms(1,5,6) by (auto simp: origins_ok_def update_rows_def)
qed

text \<open>The transactions that touch neither the kernel, nor audits, occurrences or tickets.\<close>

definition same_origins :: "adb \<Rightarrow> adb \<Rightarrow> bool" where
  "same_origins a b = (ad_kernel b = ad_kernel a \<and> ad_audit b = ad_audit a \<and>
     ad_occurrences b = ad_occurrences a \<and> ad_tickets b = ad_tickets a)"

lemma quiet_frames:
  "initialize_schedule_state k next t a = Inr (s, b) \<Longrightarrow> same_origins a b"
  "initialize_due_state k nx now fp a = Inr (r, b) \<Longrightarrow> same_origins a b"
  "reset_due_state k nx now f a = Inr (r, b) \<Longrightarrow> same_origins a b"
  "clear_due_states ks a = Inr (n, b) \<Longrightarrow> same_origins a b"
  "record_definition_failure k outcome reason act now expected a = Inr (v, b) \<Longrightarrow> same_origins a b"
proof -
  show "initialize_due_state k nx now fp a = Inr (r, b) \<Longrightarrow> same_origins a b"
    by (auto simp: initialize_due_state_def guard_simps Let_def same_origins_def dest!: require_due_row_same)
qed (auto simp: initialize_schedule_state_def reset_due_state_def clear_due_states_def record_definition_failure_def
  Let_def guard_simps same_origins_def split: if_splits)

lemma origins_ok_same: "same_origins a b \<Longrightarrow> origins_ok a \<Longrightarrow> origins_ok b"
  by (simp add: same_origins_def origins_ok_def origins_def known_tasks_def)

lemma step_origins:
  assumes "store_step p a b" "origins_ok a"
  shows "origins_ok b"
  using assms(1)
proof cases
  case (kernel cap op d)
  have "known_tasks a \<subseteq> known_tasks b"
    using tasks_evolve_keys(2) [OF perform_tasks [OF kernel(4)]] by (simp add: kernel known_tasks_def)
  then show ?thesis using assms(2) by (auto simp: origins_ok_def origins_def kernel(1))
next
  case (admit_schedule k task st cmd occ "next" now cap disp r)
  from this(1) show ?thesis
  proof (rule admit_schedule_cases)
    fix d assume "admit_new task st disp (ad_kernel a) = Inr d"
    from admitted_fresh [OF this assms(2)] show ?thesis if "b = a\<lparr>ad_kernel := d, ad_audit := ad_audit a @
        [\<lparr>au_id = k @ '':'' @ t_id task, au_schedule = k, au_occurrence = occ, au_emitted = now, au_task = t_id task,
          au_command = cmd, au_next = next\<rparr>], ad_schedules := update_rows (due_schedule k occ now)
          (\<lambda>r. r\<lparr>as_next := next, as_updated := now, as_last_task := Some (t_id task)\<rparr>) (ad_schedules a)\<rparr>"
      by (intro origins_ok_new [OF _ _ _ assms(2)]) (auto simp: that origins_def known_tasks_def)
  qed (use assms(2) in simp)
next
  case (admit_due jd k task st oc "next" now cap disp r)
  from this(1) show ?thesis
  proof (rule admit_due_cases)
    fix d n u t assume adm: "admit_new task st disp (ad_kernel a) = Inr d" and "oc_task oc = t_id task"
      and "b = a\<lparr>ad_kernel := d, ad_occurrences := ad_occurrences a @ [oc], ad_due := update_rows
       (due_definition jd k (oc_at oc) t (oc_fingerprint oc))
       (\<lambda>r. r\<lparr>ds_next := u, ds_updated := t, ds_last_occurrence := Some (oc_at oc),
              ds_last_task := Some (t_id task), ds_last_outcome := Some (oc_outcome oc),
              ds_last_reason := None, ds_last_action := None,
              ds_fingerprint := Some (oc_fingerprint oc)\<rparr>) (ad_due a)\<rparr>"
    with admitted_fresh [OF adm assms(2)] show ?thesis
      by (intro origins_ok_new [OF _ _ _ assms(2), of b "t_id task"]) (auto simp: origins_def known_tasks_def)
  qed (use assms(2) in simp)
next
  case (spend v cap task st t audit disp r)
  from this(1) show ?thesis
  proof (rule spend_cases)
    fix d
    assume adm: "admit_new task st disp (ad_kernel a) = Inr d" and one: "row_count (live_ticket (ea_id v)) (ad_tickets a) = 1"
      and b: "ad_kernel b = d" "ad_audit b = ad_audit a" "ad_occurrences b = ad_occurrences a"
        "ad_tickets b = update_rows (live_ticket (ea_id v))
          (\<lambda>r. r\<lparr>ea_status := TicketConsumed, ea_consumed := Some t, ea_task := Some (t_id task)\<rparr>) (ad_tickets a)"
    have "mset (List.map_filter ea_task (ad_tickets b)) = add_mset (t_id task) (mset (List.map_filter ea_task (ad_tickets a)))"
      unfolding b(4) by (rule map_filter_spent [OF one]) (use assms(2) in \<open>auto simp: origins_ok_def live_ticket_def\<close>)
    with admitted_fresh [OF adm assms(2)] show ?thesis
      by (intro origins_ok_new [OF _ _ _ assms(2), of b "t_id task"])
        (auto simp: origins_def known_tasks_def b live_ticket_def update_rows_def)
  qed
next
  case (create v audit u)
  then have b: "b = a\<lparr>ad_tickets := ad_tickets a @ [v], ad_ticket_audit := ad_ticket_audit a @ [audit]\<rparr>"
    by (auto simp: create_ticket_def insert_ticket_audit_def guard_simps)
  have "origins b = origins a" "known_tasks b = known_tasks a"
    using create(3) by (simp_all add: b origins_def known_tasks_def map_filter_append map_filter_simps)
  then show ?thesis using assms(2) create(3) by (auto simp: origins_ok_def b)
next
  case (expire now n)
  then have b: "b = a\<lparr>ad_tickets := update_rows (lapsed_ticket now) (\<lambda>v. v\<lparr>ea_status := TicketExpired\<rparr>) (ad_tickets a)\<rparr>"
    by (simp add: expire_tickets_def)
  show ?thesis by (rule origins_ok_ended [OF _ _ _ _ _ assms(2)]) (auto simp: b)
next
  case (lapse v now)
  show ?thesis by (rule origins_ok_ended [OF _ _ _ _ _ assms(2)]) (auto simp: lapse(1))
next
  case (revoke k now audit r)
  then obtain Q where "ad_tickets b = update_rows Q (\<lambda>v. v\<lparr>ea_status := TicketRevoked, ea_revoked := Some now\<rparr>) (ad_tickets a)"
    "ad_audit b = ad_audit a" "ad_occurrences b = ad_occurrences a" "ad_kernel b = ad_kernel a"
    by (auto simp: revoke_ticket_def insert_ticket_audit_def guard_simps row_of_def Let_def split: if_splits option.splits)
  then show ?thesis by (rule origins_ok_ended [OF _ _ _ _ _ assms(2)]) simp
qed (rule origins_ok_same [OF _ assms(2)], erule quiet_frames)+

section \<open>Tickets that have ended\<close>

lemma find_row_keep:
  assumes "find_row key k rs = Some r" "\<And>r. P r \<Longrightarrow> key (f r) = key r" "\<not> P r"
  shows "find_row key k (update_rows P f rs) = Some r"
  using assms by (simp add: find_row_update)

lemma find_row_append_Some: "find_row key k rs = Some r \<Longrightarrow> find_row key k (rs @ ss) = Some r"
  by (simp add: find_row_append)

lemma step_ticket_final:
  assumes "store_step p a b" "find_row ea_id k (ad_tickets a) = Some v" "ea_status v \<noteq> TicketActive" "keys_ok a"
  shows "find_row ea_id k (ad_tickets b) = Some v"
  using assms(1)
proof cases
  case (admit_schedule k task st cmd occ "next" now cap disp r)
  from this(1) show ?thesis
    by (rule admit_schedule_cases) (use assms(2) in auto)
next
  case (admit_due jd k task st oc "next" now cap disp r)
  from this(1) show ?thesis
    by (rule admit_due_cases) (use assms(2) in auto)
next
  case (spend v cap task st t audit disp r)
  from this(1) show ?thesis
    by (rule spend_cases) (use assms(2,3) in \<open>auto simp: live_ticket_def intro!: find_row_keep\<close>)
next
  case (lapse w now)
  have "ea_id v \<noteq> ea_id w"
    using distinct_rows_inj [of ea_id "ad_tickets a" v w] lapse assms by (auto simp: keys_ok_def dest: find_row_key)
  then show ?thesis using lapse(1) assms(2) by (auto intro!: find_row_keep dest: find_row_key)
qed (use assms(2,3) in \<open>auto simp: quiet_defs guard_simps row_of_def lapsed_ticket_def
      split: if_splits option.splits intro!: find_row_keep find_row_append_Some\<close>)

end
