(* ===== verification/Automation_Examples.thy ===== *)
theory Automation_Examples
  imports Automation_Invariants Kernel_Examples
begin

text \<open>
  A small scheduler, a ticket and a definition that was just emitted, for the theorems to be applied to.
\<close>

text \<open>A wall clock of one day in the year 1, for the examples.\<close>

definition demo_zone :: "(instant \<Rightarrow> wall) \<times> (wall \<Rightarrow> instant)" where
  "demo_zone = (\<lambda>t. Wall (Date 1 1 1) 0 (nat (t div 60000000)) (nat (t mod 60000000)),
     \<lambda>w. int (wall_minute w) * 60000000 + int (wall_rest w))"

definition demo_env :: "char \<Rightarrow> env" where
  "demo_env x = \<lparr>e_zones = (\<lambda>tz. Inr demo_zone), e_julianday = rat_of_int,
     e_fingerprint = (\<lambda>d. replicate 64 x), e_authority = None,
     e_draw = (\<lambda>n. if n = 0 then ''s1'' else ''m1'')\<rparr>"

definition demo_schedule :: schedule_def where
  "demo_schedule = \<lparr>sd_id = ''hourly'', sd_kind = Every 60, sd_limit = Some 5, sd_enabled = True\<rparr>"

definition demo_scheduler :: scheduler where
  "demo_scheduler = \<lparr>sc_schedules = [demo_schedule], sc_capacity = 2,
     sc_pin = Some (''snap'', ''dig''), sc_version = Some 1,
     sc_definitions = [], sc_principal = ''scheduler'', sc_cron = []\<rparr>"

definition demo_adb :: adb where
  "demo_adb = \<lparr>ad_kernel = demo_db, ad_schedules = [], ad_audit = [], ad_due = [], ad_occurrences = [],
     ad_tickets = [], ad_ticket_audit = []\<rparr>"

definition demo_tickets :: ticket_service where
  "demo_tickets = \<lparr>ts_maximum_ttl = 900, ts_capacity = 2, ts_snapshot = None\<rparr>"

definition demo_ops :: "(nat \<times> automation_op) list" where
  "demo_ops = [(2, TickOp (demo_env (CHR ''a'')) demo_scheduler None 5),
     (2, IssueOp demo_tickets id (PyInt 60) (PyInt 5) None None 6 ''secret'' ''k1'' ''j1''),
     (2, SubmitOp demo_tickets id ''secret'' (PyInt 3) 7 ''b1'' ''j2''),
     (2, TickOp (demo_env (CHR ''a'')) demo_scheduler None 60000005)]"

definition demo_definition :: adefinition where
  "demo_definition = \<lparr>af_id = ''d1'', af_name = ''Films'', af_library = ''lib'', af_scope = None,
     af_interval = None, af_cron = Some ''0 0 1 1 *'', af_timezone = Some ''UTC'', af_limit = 5, af_enabled = True\<rparr>"

text \<open>The definition after its emission at instant 0, under the fingerprint it had then.\<close>

definition demo_occurrence :: occurrence where
  "demo_occurrence = \<lparr>oc_id = ''o1'', oc_definition = ''d1'', oc_at = 0, oc_emitted = 1, oc_task = ''t0'',
     oc_fingerprint = replicate 64 (CHR ''a''), oc_version = 1, oc_revision_id = ''snap'',
     oc_revision_version = 1, oc_revision_digest = replicate 64 (CHR ''0''), oc_library = ''lib'',
     oc_scope = None, oc_limit = 5, oc_outcome = ''emitted'', oc_reason = None, oc_next_action = None\<rparr>"

definition demo_emitted :: adb where
  "demo_emitted = demo_adb\<lparr>ad_occurrences := [demo_occurrence],
     ad_due := [\<lparr>ds_id = ''d1'', ds_next = 60000000, ds_updated = 1, ds_last_occurrence = Some 0,
       ds_last_task = Some ''t0'', ds_last_outcome = Some ''emitted'', ds_last_reason = None,
       ds_last_action = None, ds_fingerprint = Some (replicate 64 (CHR ''a''))\<rparr>]\<rparr>"

definition demo_due :: adb where
  "demo_due = demo_adb\<lparr>ad_schedules := [\<lparr>as_id = ''hourly'', as_next = 5, as_updated = 5, as_last_task = None\<rparr>]\<rparr>"

lemma demo_adb_ok: "schedules_ok demo_adb" "keys_ok demo_adb" "origins_ok demo_adb"
  by code_simp+

lemma demo_due_ok: "schedules_ok demo_due" "origins_ok demo_due"
  by code_simp+

lemma demo_ops_sane: "sane_run (open_policy (\<lambda>_. True) 2) demo_ops"
  by code_simp

lemma demo_parse: "\<exists>e. parse_cron ''0 0 1 1 *'' = Inr e"
proof -
  have "case parse_cron ''0 0 1 1 *'' of Inr e \<Rightarrow> True | Inl x \<Rightarrow> False" by code_simp
  then show ?thesis by (simp split: sum.splits)
qed

text \<open>Half a minute past the emission, the first instant of the definition is still the emitted one.\<close>

lemma demo_initial: "initial_definition_run (demo_env x) demo_definition 30000000 = Inr 0"
proof -
  obtain e where e: "parse_cron ''0 0 1 1 *'' = Inr e" using demo_parse by blast
  have "case parse_cron ''0 0 1 1 *'' of
      Inr e \<Rightarrow> scan_date (fst demo_zone) (snd demo_zone) e 0 True (Date 1 1 1) = Inr (Some 0) | Inl x \<Rightarrow> False"
    by code_simp
  then have scan: "scan_date (fst demo_zone) (snd demo_zone) e 0 True (Date 1 1 1) = Inr (Some 0)" by (simp add: e)
  have sched: "definition_schedule demo_definition = Inr (CronAt ''0 0 1 1 *'' ''UTC'')" by code_simp
  have "wall_date (fst demo_zone 0) = Date 1 1 1" "minute_of 30000000 = 0" by code_simp+
  moreover have "0 < cron_window" by (simp add: cron_window_def)
  ultimately have "cron_at_or_after (e_zones (demo_env x)) e ''UTC'' (minute_of 30000000) = Inr 0"
    using scan by (simp add: cron_at_or_after_def next_at_or_after_def cron_next_def demo_env_def demo_zone_def
        range_return.simps [of _ 0 cron_window])
  then show ?thesis by (simp add: initial_definition_run_def sched e)
qed

end
