(* ===== verification/Automation_Properties.thy ===== *)
theory Automation_Properties
  imports Automation_Examples
begin

text \<open>
  What the scheduler and the tickets promise: their admissions are kernel admissions, an occurrence is
  emitted once, a token is spent once, a due schedule is emitted; and what a definition edited in the
  minute of its emission runs into.
\<close>

section \<open>The kernel inside\<close>

lemma steps_kernel: "(store_step p)\<^sup>*\<^sup>* a b \<Longrightarrow> kernel_run (or_admits (po_kernel p)) (po_capacity p) (ad_kernel a) (ad_kernel b)"
  by (induction rule: rtranclp_induct) (auto intro: kernel_run.start step_kernel kernel_run_trans)

text \<open>C5: Whatever schedules, definitions, tickets and kernel callers do in any order, the kernel inside sees
  only a run of its own operations: those the callers make, and admissions under the capacity in force. So
  every theorem on kernel runs holds of the whole.\<close>

theorem automation_refines_kernel:
  assumes "sane_run p ops"
  shows "kernel_run (or_admits (po_kernel p)) (po_capacity p) (ad_kernel a) (ad_kernel (automation_run ops a))"
  by (rule steps_kernel [OF run_steps [OF assms]])

theorem automation_refines_kernel_witness:
  "kernel_run (or_admits (\<lambda>_. True)) 2 demo_db (ad_kernel (automation_run demo_ops demo_adb))"
  using automation_refines_kernel [OF demo_ops_sane, of demo_adb] by (simp add: open_policy_def demo_adb_def)

section \<open>Once\<close>

text \<open>C15: Whatever runs, with ticks at any instants, no schedule and no definition emits the same
  occurrence twice, and every Task that a schedule, a definition or a ticket admitted exists and has that
  one origin.\<close>

theorem occurrences_are_emitted_once:
  assumes "sane_run p ops" "schedules_ok a" "keys_ok a" "origins_ok a"
  defines "b \<equiv> automation_run ops a"
  shows "distinct (map (\<lambda>q. (au_schedule q, au_occurrence q)) (ad_audit b)) \<and>
    distinct (map (\<lambda>q. (oc_definition q, oc_at q)) (ad_occurrences b)) \<and>
    distinct (origins b) \<and> set (origins b) \<subseteq> known_tasks b"
proof -
  have "schedules_ok b" unfolding b_def by (rule run_keeps [where I = schedules_ok, OF assms(1,2) step_schedules])
  moreover have "keys_ok b" unfolding b_def by (rule run_keeps [where I = keys_ok, OF assms(1,3) step_keys])
  moreover have "origins_ok b" unfolding b_def by (rule run_keeps [where I = origins_ok, OF assms(1,4) step_origins])
  ultimately show ?thesis by (simp add: schedules_ok_def keys_ok_def origins_ok_def)
qed

theorem occurrences_are_emitted_once_witness:
  "distinct (origins (automation_run demo_ops demo_adb)) \<and>
   origins (automation_run (take 3 demo_ops) demo_adb) = [''s1'', ''b1'']"
proof -
  have "origins (automation_run (take 3 demo_ops) demo_adb) = [''s1'', ''b1'']" by code_simp
  with occurrences_are_emitted_once [OF demo_ops_sane demo_adb_ok] show ?thesis by blast
qed

section \<open>Tickets\<close>

definition ticket_ended :: "string \<Rightarrow> ticket \<Rightarrow> adb \<Rightarrow> bool" where
  "ticket_ended k v a = (keys_ok a \<and> find_row ea_id k (ad_tickets a) = Some v \<and> ea_status v \<noteq> TicketActive)"

lemma run_ticket_ended:
  assumes "sane_run p ops" "ticket_ended k v a"
  shows "ticket_ended k v (automation_run ops a)"
  by (rule run_keeps [where I = "ticket_ended k v", OF assms]) (auto simp: ticket_ended_def intro: step_keys step_ticket_final)

lemma build_admission_Inr:
  assumes "build_scheduled_task_admission new_id command authorized trig who request_id scope limit
      snapshot digest require_snapshot stage eligible now = Inr (task, st)"
  shows "t_id task = new_id" "s_task_id st = new_id" "s_request_id st = None \<or> request_id \<noteq> None" "t_item_limit task = limit"
  using assms
  by (auto simp: build_scheduled_task_admission_def make_admission_context_def make_admission_request_def guard_simps
      split: option.splits)

lemma submit_cases:
  assumes "submit_organize c digest token limit now new_id audit_id a = (Inr (task, st, v), b)"
  obtains w where "find_row ea_digest (digest token) (ad_tickets a) = Some w" "ea_status w = TicketActive" "now < ea_expires w"
    "t_id task = new_id" "\<exists>n. t_item_limit task = Some n \<and> n \<le> ea_max_items w" "ea_id w = ea_id v" "get_ticket b (ea_id w) = Some v"
    "ad_tickets b = update_rows (live_ticket (ea_id w))
       (\<lambda>r. r\<lparr>ea_status := TicketConsumed, ea_consumed := Some now, ea_task := Some new_id\<rparr>) (ad_tickets a)"
proof -
  from assms obtain n where build: "build_scheduled_task_admission new_id ''organize'' True Manual ''remote-execution''
       None None (Some n) (map_option fst (ts_snapshot c)) (map_option snd (ts_snapshot c))
       (ts_snapshot c \<noteq> None) None None (Aware now) = Inr (task, st)"
    and consumed: "\<exists>w cap audit disp. find_row ea_digest (digest token) (ad_tickets a) = Some w \<and> ea_status w = TicketActive \<and>
      now < ea_expires w \<and> spend_ticket w cap task st now audit disp a = Inr (v, b)"
    by (fastforce simp: submit_organize_def consume_ticket_def as_queue_full_def guard_simps
        split: prod.splits sum.splits option.splits if_splits)
  from consumed obtain w cap audit disp where w: "find_row ea_digest (digest token) (ad_tickets a) = Some w"
    "ea_status w = TicketActive" "now < ea_expires w" and s: "spend_ticket w cap task st now audit disp a = Inr (v, b)"
    by blast
  from s show thesis
    by (rule spend_cases)
      (rule that [OF w], use build_admission_Inr [OF build] in \<open>auto simp: get_ticket_def dest: find_row_key\<close>)
qed

lemma consume_refused:
  assumes "find_row ea_digest g (ad_tickets a) = Some v" "ea_status v \<noteq> TicketActive"
  shows "\<exists>e. consume_ticket g task st now audit capacity disp a = (Inl e, a)"
  using assms by (auto simp: consume_ticket_def bind_tx_def return_tx_def read_tx_def split: sum.split)

lemma bind_refused: "\<exists>e. m a = (Inl e, a) \<Longrightarrow> \<exists>e. bind_tx m f a = (Inl e, a)"
  by (auto simp: bind_tx_def)

lemma submit_refused:
  assumes "find_row ea_digest (digest token) (ad_tickets a) = Some v" "ea_status v \<noteq> TicketActive"
  shows "\<exists>e. submit_organize c digest token limit now new_id audit_id a = (Inl e, a)"
proof -
  have "\<exists>e. as_queue_full (consume_ticket (digest token) task st now' audit capacity disp) a = (Inl e, a)"
    for task st now' audit capacity disp
    using consume_refused [OF assms, of task st now' audit capacity disp] by (auto simp: as_queue_full_def)
  note refused = this
  show ?thesis
    unfolding submit_organize_def bind_tx_def [of "return_tx r" for r] return_tx_def
    by (auto split: sum.split prod.split intro: bind_refused refused)
qed

lemma consumed_ticket:
  assumes "find_row ea_digest g (ad_tickets a) = Some w" "ea_status w = TicketActive" "keys_ok a"
    "ad_tickets b = update_rows (live_ticket (ea_id w)) f (ad_tickets a)"
    "\<And>r. ea_id (f r) = ea_id r \<and> ea_digest (f r) = ea_digest r"
  shows "find_row ea_digest g (ad_tickets b) = Some (f w)" "find_row ea_id (ea_id w) (ad_tickets b) = Some (f w)"
proof -
  have "find_row ea_id (ea_id w) (ad_tickets a) = Some w"
    using assms(1,3) by (auto simp: keys_ok_def dest: find_row_key intro: find_row_mem)
  then show "find_row ea_digest g (ad_tickets b) = Some (f w)" "find_row ea_id (ea_id w) (ad_tickets b) = Some (f w)"
    using assms(1,2,5) by (simp_all add: assms(4) find_row_update live_ticket_def)
qed

text \<open>C17: A token buys one Task. The ticket was active, unexpired and allowed that many items; from then on
  it names that Task, through whatever runs, and every later submission of the token raises and writes
  nothing.\<close>

theorem token_is_spent_once:
  assumes "submit_organize c digest token limit now new_id audit_id a = (Inr (task, st, v), b)" "keys_ok a"
    "sane_run p ops"
  shows "ea_status v = TicketConsumed \<and> ea_task v = Some (t_id task) \<and> now < ea_expires v \<and>
    (\<exists>n. t_item_limit task = Some n \<and> n \<le> ea_max_items v) \<and>
    find_row ea_id (ea_id v) (ad_tickets (automation_run ops b)) = Some v \<and>
    (\<exists>e. submit_organize c2 digest token limit2 now2 id2 audit2 (automation_run ops b) = (Inl e, automation_run ops b))"
proof -
  let ?f = "\<lambda>r. r\<lparr>ea_status := TicketConsumed, ea_consumed := Some now, ea_task := Some new_id\<rparr>"
  from assms(1) obtain w where w: "find_row ea_digest (digest token) (ad_tickets a) = Some w" "ea_status w = TicketActive"
    "now < ea_expires w" "t_id task = new_id" "\<exists>n. t_item_limit task = Some n \<and> n \<le> ea_max_items w"
    and v: "get_ticket b (ea_id w) = Some v" "ea_id w = ea_id v" and b: "ad_tickets b = update_rows (live_ticket (ea_id w)) ?f (ad_tickets a)"
    by (rule submit_cases)
  from consumed_ticket [OF w(1,2) assms(2) b] v(1) have fv: "v = ?f w" and
    dig: "find_row ea_digest (digest token) (ad_tickets b) = Some v" by (auto simp: get_ticket_def)
  have st: "ea_status v = TicketConsumed" "ea_task v = Some new_id" "ea_expires v = ea_expires w"
    "ea_max_items v = ea_max_items w" by (simp_all add: fv)
  have "ts_capacity c \<le> int (po_capacity (open_policy (\<lambda>_. True) (nat (ts_capacity c))))"
    by (simp add: open_policy_def)
  from movesD [OF moves_submit [OF this] assms(1)] have kb: "keys_ok b"
    by (rule steps_keep [where I = keys_ok, OF _ assms(2) step_keys])
  let ?z = "automation_run ops b"
  have "ticket_ended (ea_id v) v b"
    using v(1) st(1) kb unfolding v(2) by (simp add: ticket_ended_def get_ticket_def)
  from run_ticket_ended [OF assms(3) this] have z: "ticket_ended (ea_id v) v ?z" .
  have g: "ea_digest v = digest token" using find_row_key [OF dig] by simp
  have d: "distinct_rows ea_digest (ad_tickets ?z)" and "v \<in> set (ad_tickets ?z)"
    using z by (auto simp: ticket_ended_def keys_ok_def dest: find_row_key)
  then have "find_row ea_digest (digest token) (ad_tickets ?z) = Some v"
    unfolding g [symmetric] by (rule find_row_mem)
  with st(1) have "\<exists>e. submit_organize c2 digest token limit2 now2 id2 audit2 ?z = (Inl e, ?z)"
    by (intro submit_refused [where v = v]) simp_all
  moreover have "find_row ea_id (ea_id v) (ad_tickets ?z) = Some v" using z by (simp add: ticket_ended_def)
  ultimately show ?thesis using w(3-5) st by simp
qed

theorem token_is_spent_once_witness:
  "\<exists>v b e. submit_organize demo_tickets id ''secret'' (PyInt 3) 7 ''b1'' ''j2''
      (automation_run (take 2 demo_ops) demo_adb) = (Inr v, b) \<and>
    submit_organize demo_tickets id ''secret'' (PyInt 3) 8 ''b2'' ''j3'' b = (Inl e, b)"
proof -
  let ?a = "automation_run (take 2 demo_ops) demo_adb"
  let ?m = "submit_organize demo_tickets id ''secret'' (PyInt 3) 7 ''b1'' ''j2'' ?a"
  have "case ?m of (Inr v, b) \<Rightarrow> True | _ \<Rightarrow> False" by code_simp
  then obtain task st v b where m: "?m = (Inr (task, st, v), b)" by (auto split: prod.splits sum.splits)
  have k: "keys_ok ?a" by code_simp
  have "sane_run (open_policy (\<lambda>_. True) 2) []" by (simp add: sane_run_def)
  from token_is_spent_once [OF m k this, of demo_tickets "PyInt 3" 8 "''b2''" "''j3''"] m show ?thesis by auto
qed

section \<open>A due schedule\<close>

lemma update_one_lookup:
  assumes "find_row key k rs = Some r" "P r" "\<And>q. P q \<Longrightarrow> key (f q) = key q"
  shows "find_row key k (update_rows P f rs) = Some (f r)"
  using assms by (simp add: find_row_update)

lemma admit_new_total:
  assumes "get_task d (t_id task) = None" "scheduled_state d (s_task_id st) = None" "s_request_id st = None"
  shows "\<exists>d'. admit_new task st disp d = Inr d'"
  using assms
  by (auto simp: admit_new_def insert_row_def insert_sched_def get_task_def scheduled_state_def Let_def split: option.split)

text \<open>An enabled schedule that is due is emitted by its turn of a tick as soon as a slot is free: the
  turn admits exactly its Task, audits exactly the due occurrence and moves the schedule to its next
  instant.\<close>

theorem due_schedule_is_emitted:
  assumes "sd_enabled s" "get_schedule_state a (sd_id s) = Some r" "as_next r \<le> now"
    "next_run E (ti_cron i) s now = Inr next"
    "build_scheduled_task_admission new_id ''organize'' True Schedule (sc_principal c) None None
       (sd_limit s) (map_option fst (ti_snapshot i)) (map_option snd (ti_snapshot i)) False None None (Aware now) = Inr (task, st)"
    "int (capacity_use (ad_kernel a)) < ti_capacity i" "ti_capacity i \<le> 10000"
    "new_id \<notin> known_tasks a" "scheduled_state (ad_kernel a) new_id = None"
    "find_row au_id (sd_id s @ '':'' @ new_id) (ad_audit a) = None" "origins_ok a" "schedules_ok a"
  shows "\<exists>d. tick_schedule E c i now new_id s a =
      (Inr (Some task), a\<lparr>ad_kernel := d,
         ad_audit := ad_audit a @ [\<lparr>au_id = sd_id s @ '':'' @ new_id, au_schedule = sd_id s,
           au_occurrence = as_next r, au_emitted = now, au_task = new_id, au_command = ''organize'', au_next = next\<rparr>],
         ad_schedules := update_rows (due_schedule (sd_id s) (as_next r) now)
           (\<lambda>r. r\<lparr>as_next := next, as_updated := now, as_last_task := Some new_id\<rparr>) (ad_schedules a)\<rparr>) \<and>
    admit_new task st (Some (origin_context None None (sd_id s) ''legacy-schedule'')) (ad_kernel a) = Inr d"
proof -
  note build = build_admission_Inr [OF assms(5)]
  have vals: "require_scheduled_admission_values task st = Inr ()"
    using assms(5) by (auto simp: build_scheduled_task_admission_def require_scheduled_admission_values_def guard_simps split: option.splits)
  obtain d where d: "admit_new task st (Some (origin_context None None (sd_id s) ''legacy-schedule'')) (ad_kernel a) = Inr d"
    using admit_new_total [of "ad_kernel a" task st] assms(8,9) build
    by (auto simp: known_tasks_def get_task_def find_row_None)
  have mem: "r \<in> set (ad_schedules a)" "as_id r = sd_id s"
    using assms(2) by (auto simp: get_schedule_state_def dest: find_row_key)
  have one: "row_count (due_schedule (sd_id s) (as_next r) now) (ad_schedules a) = 1"
  proof -
    have "due_schedule (sd_id s) (as_next r) now q = (as_id q = sd_id s)" if "q \<in> set (ad_schedules a)" for q
      using that distinct_rows_inj [of as_id "ad_schedules a" q r] mem assms(3,12)
      by (auto simp: due_schedule_def schedules_ok_def)
    then have "filter (due_schedule (sd_id s) (as_next r) now) (ad_schedules a) = filter (\<lambda>q. as_id q = sd_id s) (ad_schedules a)"
      by (rule filter_cong [OF refl])
    moreover have "sd_id s \<in> as_id ` set (ad_schedules a)" using mem by force
    ultimately show ?thesis
      using row_count_key [of as_id "ad_schedules a" "sd_id s"] assms(12) by (auto simp: row_count_def schedules_ok_def)
  qed
  have fresh: "\<not> list_ex (\<lambda>q. au_task q = new_id) (ad_audit a)"
    using assms(8,11) by (auto simp: list_ex_iff origins_ok_def origins_def)
  obtain n where n: "ti_capacity i = int n" "1 \<le> n" "n \<le> 10000" "capacity_use (ad_kernel a) < n"
    using assms(6,7) by (cases "ti_capacity i") auto
  have "admit_due_schedule_task (sd_id s) task st ''organize'' (Aware (as_next r)) (Aware next) (Aware now)
      (PyInt (ti_capacity i)) (Some (origin_context None None (sd_id s) ''legacy-schedule'')) a =
      Inr (Some \<lparr>d_task = task, d_state = st, d_duplicate = False\<rparr>, a\<lparr>ad_kernel := d,
         ad_audit := ad_audit a @ [\<lparr>au_id = sd_id s @ '':'' @ new_id, au_schedule = sd_id s,
           au_occurrence = as_next r, au_emitted = now, au_task = new_id, au_command = ''organize'', au_next = next\<rparr>],
         ad_schedules := update_rows (due_schedule (sd_id s) (as_next r) now)
           (\<lambda>r. r\<lparr>as_next := next, as_updated := now, as_last_task := Some new_id\<rparr>) (ad_schedules a)\<rparr>)"
    using n vals one d fresh assms(10) build
    by (simp add: admit_due_schedule_task_def require_capacity_def insert_audit_def insert_row_def)
  then show ?thesis
    using assms(1-5) d
    by (simp add: tick_schedule_def ensure_schedule_state_def admit_schedule_task_def bind_tx_def read_tx_def
        return_tx_def atomic_def not_less)
qed

theorem due_schedule_is_emitted_witness:
  "\<exists>task d. tick_schedule (demo_env (CHR ''a'')) demo_scheduler (own_input demo_scheduler None False) 7 ''s1'' demo_schedule demo_due =
     (Inr (Some task), demo_due\<lparr>ad_kernel := d,
        ad_audit := [\<lparr>au_id = ''hourly:s1'', au_schedule = ''hourly'', au_occurrence = 5, au_emitted = 7,
          au_task = ''s1'', au_command = ''organize'', au_next = 60000007\<rparr>],
        ad_schedules := [\<lparr>as_id = ''hourly'', as_next = 60000007, as_updated = 7, as_last_task = Some ''s1''\<rparr>]\<rparr>)"
proof -
  let ?i = "own_input demo_scheduler None False" and ?E = "demo_env (CHR ''a'')"
  let ?r = "\<lparr>as_id = ''hourly'', as_next = 5, as_updated = 5, as_last_task = None\<rparr>"
  let ?build = "build_scheduled_task_admission ''s1'' ''organize'' True Schedule (sc_principal demo_scheduler) None None
       (sd_limit demo_schedule) (map_option fst (ti_snapshot ?i)) (map_option snd (ti_snapshot ?i)) False None None (Aware 7)"
  have "case ?build of Inr v \<Rightarrow> True | Inl e \<Rightarrow> False" by code_simp
  then obtain task st where build: "?build = Inr (task, st)" by (auto split: sum.splits)
  have h: "sd_enabled demo_schedule" "get_schedule_state demo_due (sd_id demo_schedule) = Some ?r"
    "next_run ?E (ti_cron ?i) demo_schedule 7 = Inr 60000007" "int (capacity_use (ad_kernel demo_due)) < ti_capacity ?i"
    "ti_capacity ?i \<le> 10000" "''s1'' \<notin> known_tasks demo_due" "scheduled_state (ad_kernel demo_due) ''s1'' = None"
    "find_row au_id (sd_id demo_schedule @ '':'' @ ''s1'') (ad_audit demo_due) = None"
    by code_simp+
  have "as_next ?r \<le> 7" by simp
  from due_schedule_is_emitted [OF h(1,2) this h(3) build h(4-8) demo_due_ok(2,1)]
  show ?thesis
    by (auto simp: demo_due_def demo_adb_def demo_schedule_def update_rows_def due_schedule_def)
qed

section \<open>A definition edited in the minute of its emission\<close>

definition emissions :: "string \<Rightarrow> adb \<Rightarrow> occurrence list" where
  "emissions k a = filter (\<lambda>q. oc_definition q = k) (ad_occurrences a)"

text \<open>The due state of \<open>k\<close> names an occurrence that was already emitted, under the fingerprint \<open>f\<close>.\<close>

definition spent_due :: "string \<Rightarrow> instant \<Rightarrow> string \<Rightarrow> adb \<Rightarrow> bool" where
  "spent_due k occ f a =
     ((\<exists>r. find_row ds_id k (ad_due a) = Some r \<and> ds_next r = occ \<and> ds_fingerprint r = Some f) \<and>
      (\<exists>q \<in> set (emissions k a). oc_at q = occ))"

definition stuck :: "string \<Rightarrow> instant \<Rightarrow> string \<Rightarrow> occurrence list \<Rightarrow> adb \<Rightarrow> bool" where
  "stuck k occ f xs a = (keys_ok a \<and> spent_due k occ f a \<and> emissions k a = xs)"

definition pinned_policy :: "nat \<Rightarrow> string \<Rightarrow> string \<Rightarrow> policy" where
  "pinned_policy C k f = \<lparr>po_kernel = (\<lambda>_. True), po_capacity = C,
     po_fingerprint = (\<lambda>k' f'. k' = k \<longrightarrow> f' = f), po_clear = (\<lambda>k'. k' \<noteq> k)\<rparr>"

lemma stuck_rows:
  assumes "stuck k occ f xs a" "ad_occurrences b = ad_occurrences a" "keys_ok b"
    "\<And>r. find_row ds_id k (ad_due a) = Some r \<Longrightarrow>
       \<exists>q. find_row ds_id k (ad_due b) = Some q \<and> ds_next q = ds_next r \<and> ds_fingerprint q = ds_fingerprint r"
  shows "stuck k occ f xs b"
  using assms by (fastforce simp: stuck_def spent_due_def emissions_def)

lemma stuck_same:
  "stuck k occ f xs a \<Longrightarrow> ad_occurrences b = ad_occurrences a \<Longrightarrow> ad_due b = ad_due a \<Longrightarrow> keys_ok b \<Longrightarrow> stuck k occ f xs b"
  by (auto simp: stuck_def spent_due_def emissions_def)

lemma init_due_keeps:
  assumes "initialize_due_state k' nx now fp a = Inr (r, b)" "find_row ds_id k (ad_due a) = Some q" "ds_fingerprint q \<noteq> None"
  shows "find_row ds_id k (ad_due b) = Some q \<and> ad_occurrences b = ad_occurrences a"
proof -
  let ?rows = "\<lambda>n t. case find_row ds_id k' (ad_due a) of
      Some _ \<Rightarrow> ad_due a | None \<Rightarrow> ad_due a @ [fresh_due k' n t fp]"
  let ?set = "\<lambda>rows. if fp = None then rows
      else update_rows (\<lambda>r. ds_id r = k' \<and> ds_fingerprint r = None) (\<lambda>r. r\<lparr>ds_fingerprint := fp\<rparr>) rows"
  from assms(1) obtain n t where "require_due_row k' (a\<lparr>ad_due := ?set (?rows n t)\<rparr>) = Inr (r, b)"
    by (auto simp: initialize_due_state_def guard_simps Let_def)
  then have b: "b = a\<lparr>ad_due := ?set (?rows n t)\<rparr>" by (rule require_due_row_same)
  have "find_row ds_id k (?rows n t) = Some q"
    using assms(2) by (auto intro: find_row_append_Some split: option.split)
  then show ?thesis using assms(3) by (auto simp: b find_row_update)
qed

lemma step_stuck:
  assumes "store_step (pinned_policy C k f) a b" "stuck k occ f xs a"
  shows "stuck k occ f xs b"
proof -
  have kb: "keys_ok b" using step_keys [OF assms(1)] assms(2) by (simp add: stuck_def)
  from assms(2) obtain q where q: "find_row ds_id k (ad_due a) = Some q" "ds_next q = occ" "ds_fingerprint q = Some f"
    and e: "\<exists>x \<in> set (ad_occurrences a). oc_definition x = k \<and> oc_at x = occ"
    by (auto simp: stuck_def spent_due_def emissions_def)
  show ?thesis
    using assms(1)
  proof cases
    case (admit_schedule k task st cmd occ "next" now cap disp r)
    from this(1) show ?thesis
      by (rule admit_schedule_cases) (use assms(2) kb in \<open>auto intro: stuck_same\<close>)
  next
    case (spend v cap task st t audit disp r)
    from this(1) show ?thesis
      by (rule spend_cases) (use assms(2) kb in \<open>auto intro: stuck_same\<close>)
  next
    case (init_schedule k "next" now r)
    then show ?thesis
      using assms(2) kb by (auto simp: initialize_schedule_state_def Let_def guard_simps intro: stuck_same)
  next
    case (init_due k' "next" now fp r)
    from init_due_keeps [OF this q(1)] q(3) have "find_row ds_id k (ad_due b) = Some q" "ad_occurrences b = ad_occurrences a"
      by auto
    then show ?thesis using q(1) kb by (intro stuck_rows [OF assms(2)]) auto
  next
    case (reset_due k' "next" now f' r q')
    then have ne: "k' \<noteq> k" using q by (auto simp: pinned_policy_def)
    with reset_due(1) have "find_row ds_id k (ad_due b) = find_row ds_id k (ad_due a)" "ad_occurrences b = ad_occurrences a"
      using q(1) find_row_key [OF q(1)]
      by (auto simp: reset_due_state_def Let_def guard_simps find_row_append find_row_update fresh_due_def split: if_splits)
    then show ?thesis using kb by (intro stuck_rows [OF assms(2)]) auto
  next
    case (clear_due ks n)
    then have "k \<notin> set ks" by (auto simp: pinned_policy_def list_all_iff)
    with clear_due(1) assms(2) have "find_row ds_id k (ad_due b) = find_row ds_id k (ad_due a)" "ad_occurrences b = ad_occurrences a"
      by (auto simp: clear_due_states_def guard_simps find_row_delete stuck_def keys_ok_def dest: find_row_key
          split: if_splits option.split)
    then show ?thesis using kb by (intro stuck_rows [OF assms(2)]) auto
  next
    case (note_due k' outcome reason act now expected r)
    then have "ad_occurrences b = ad_occurrences a" "\<exists>r'. find_row ds_id k (ad_due b) = Some r' \<and>
        ds_next r' = ds_next q \<and> ds_fingerprint r' = ds_fingerprint q"
      using q(1) by (auto simp: record_definition_failure_def Let_def guard_simps find_row_update)
    then show ?thesis using q(1) kb by (intro stuck_rows [OF assms(2)]) auto
  next
    case (admit_due jd k' task st oc "next" now cap disp r)
    from this(1) show ?thesis
    proof (rule admit_due_cases)
      fix d n u t
      let ?h = "\<lambda>r. r\<lparr>ds_next := u, ds_updated := t, ds_last_occurrence := Some (oc_at oc),
              ds_last_task := Some (t_id task), ds_last_outcome := Some (oc_outcome oc),
              ds_last_reason := None, ds_last_action := None, ds_fingerprint := Some (oc_fingerprint oc)\<rparr>"
      assume all: "list_all (\<lambda>q. oc_task q \<noteq> t_id task \<and> \<not> (oc_definition q = k' \<and> oc_at q = oc_at oc)) (ad_occurrences a)"
        and k': "oc_definition oc = k'" and one: "row_count (due_definition jd k' (oc_at oc) t (oc_fingerprint oc)) (ad_due a) = 1"
        and b: "b = a\<lparr>ad_kernel := d, ad_occurrences := ad_occurrences a @ [oc], ad_due := update_rows
          (due_definition jd k' (oc_at oc) t (oc_fingerprint oc)) ?h (ad_due a)\<rparr>"
      have "k' \<noteq> k"
      proof
        assume "k' = k"
        from row_count_pos [OF one] obtain r where r: "r \<in> set (ad_due a)" "ds_id r = k'" "ds_next r = oc_at oc"
          by (auto simp: due_definition_def)
        have "find_row ds_id (ds_id r) (ad_due a) = Some r"
          by (rule find_row_mem [OF _ r(1)]) (use assms(2) in \<open>simp add: stuck_def keys_ok_def\<close>)
        with r q \<open>k' = k\<close> have "oc_at oc = occ" by simp
        with all e \<open>k' = k\<close> show False by (auto simp: list_all_iff)
      qed
      then have "find_row ds_id k (ad_due b) = find_row ds_id k (ad_due a)" "emissions k b = emissions k a"
        using k' q(1) find_row_key [OF q(1)] by (simp_all add: b find_row_update due_definition_def emissions_def)
      then show ?thesis using assms(2) kb by (auto simp: stuck_def spent_due_def)
    qed (use assms(2) in simp)
  qed (use assms(2) kb in \<open>auto simp: quiet_defs guard_simps row_of_def split: if_splits option.splits intro: stuck_same\<close>)
qed

lemma reset_makes_stuck:
  assumes "keys_ok a" "find_row ds_id (af_id d) (ad_due a) = Some r" "ds_fingerprint r = Some g"
    "g \<noteq> e_fingerprint E d" "is_sha256 (e_fingerprint E d)" "\<not> bad_text 128 (af_id d)"
    "initial_definition_run E d now = Inr occ" "q \<in> set (emissions (af_id d) a)" "oc_at q = occ"
  obtains r' b where "ensure_definition_state E d now a = (Inr r', b)"
    "stuck (af_id d) occ (e_fingerprint E d) (emissions (af_id d) a) b"
proof -
  let ?k = "af_id d" and ?f = "e_fingerprint E d"
  let ?h = "\<lambda>r. r\<lparr>ds_next := occ, ds_updated := now, ds_last_reason := None, ds_last_action := None, ds_fingerprint := Some ?f\<rparr>"
  let ?b = "a\<lparr>ad_due := update_rows (\<lambda>r. ds_id r = ?k) ?h (ad_due a)\<rparr>"
  have "row_count (\<lambda>r. ds_id r = ?k) (ad_due a) = 1"
    using row_count_key [of ds_id "ad_due a" ?k] assms(1) find_row_key [OF assms(2)] by (force simp: keys_ok_def)
  moreover have "require_due_state ?k (Aware occ) (Aware now) None None None (Some ?f) = Inr (occ, now)"
    using assms(5,6) by (simp add: require_due_state_def bounded_note_def)
  moreover have row: "find_row ds_id ?k (ad_due ?b) = Some (?h r)"
    using assms(2) find_row_key [OF assms(2)] by (simp add: find_row_update)
  ultimately have reset: "reset_due_state ?k (Aware occ) (Aware now) ?f a = Inr (?h r, ?b)"
    by (simp add: reset_due_state_def row_of_def)
  have "get_due_state a ?k = Inr (Some r)" using assms(2,6) by (simp add: get_due_state_def bad_text_def)
  then have e: "ensure_definition_state E d now a = (Inr (?h r), ?b)"
    using assms(3,4,7) reset by (simp add: ensure_definition_state_def bind_tx_def read_tx_def atomic_def)
  have "keys_ok ?b" using assms(1) by (simp add: keys_ok_def Tables.distinct_update)
  then have "stuck ?k occ ?f (emissions ?k a) ?b"
    using row assms(8,9) by (auto simp: stuck_def spent_due_def emissions_def)
  with e show thesis by (rule that)
qed

lemma rest_of_definition:
  assumes "ti_capacity i \<le> int C" "ensure_definition_state E d now a = (Inr r, b)" "af_id d \<noteq> []"
    "tick_definition E c i now task_id occurrence_id d a = (res, a1)"
  shows "(store_step (pinned_policy C k f))\<^sup>*\<^sup>* b a1"
proof -
  let ?rest = "case definition_blocker i d of
      Some (outcome, reason, act) \<Rightarrow> skip_with (note_failure (af_id d) now (Some (ds_next r)) outcome reason act)
    | None \<Rightarrow> run_definition E c i now task_id occurrence_id d r"
  have cap: "ti_capacity i \<le> int (po_capacity (pinned_policy C k f))" using assms(1) by (simp add: pinned_policy_def)
  have m: "moves (store_step (pinned_policy C k f)) ?rest"
    by (auto split: option.split prod.split intro!: moves_intros moves_run_definition cap)
  have "?rest b = (res, a1)"
    using assms(2-4) by (simp add: tick_definition_def bind_tx_def catch_tx_def return_tx_def)
  with m show ?thesis by (rule movesD)
qed

text \<open>C40: A definition that is edited (its fingerprint changes) and whose first instant at or after the
  current minute was already emitted gets stuck: the turn that sees the edit points its due state at that
  occurrence again, whose row is unique, so no later run of ticks and of anything else emits the definition
  ever again, until it is edited once more or its due state is cleared.\<close>

theorem edited_definition_is_stuck:
  assumes "keys_ok a" "find_row ds_id (af_id d) (ad_due a) = Some r" "ds_fingerprint r = Some g"
    "g \<noteq> e_fingerprint E d" "is_sha256 (e_fingerprint E d)" "\<not> bad_text 128 (af_id d)"
    "initial_definition_run E d now = Inr occ" "q \<in> set (emissions (af_id d) a)" "oc_at q = occ"
    "tick_definition E c i now task_id occurrence_id d a = (res, a1)" "ti_capacity i \<le> int C"
    "sane_run (pinned_policy C (af_id d) (e_fingerprint E d)) ops"
  shows "emissions (af_id d) (automation_run ops a1) = emissions (af_id d) a \<and>
    spent_due (af_id d) occ (e_fingerprint E d) (automation_run ops a1)"
proof -
  let ?I = "stuck (af_id d) occ (e_fingerprint E d) (emissions (af_id d) a)"
  have ne: "af_id d \<noteq> []" using assms(6) by (auto simp: bad_text_def strip_def)
  obtain r' b where b: "ensure_definition_state E d now a = (Inr r', b)" "?I b"
    by (rule reset_makes_stuck [OF assms(1-9)])
  from rest_of_definition [OF assms(11) b(1) ne assms(10)] have "?I a1"
    by (rule steps_keep [where I = ?I, OF _ b(2) step_stuck])
  then have "?I (automation_run ops a1)" by (rule run_keeps [where I = ?I, OF assms(12) _ step_stuck])
  then show ?thesis by (simp add: stuck_def)
qed

theorem edited_definition_is_stuck_witness:
  "\<exists>res a1. tick_definition (demo_env (CHR ''b'')) demo_scheduler (own_input demo_scheduler None False) 30000000
      ''m1'' ''o2'' demo_definition demo_emitted = (res, a1) \<and>
    spent_due ''d1'' 0 (replicate 64 (CHR ''b'')) a1 \<and> emissions ''d1'' a1 = [demo_occurrence]"
proof -
  let ?E = "demo_env (CHR ''b'')" and ?i = "own_input demo_scheduler None False" and ?d = demo_definition
  obtain res a1 where m: "tick_definition ?E demo_scheduler ?i 30000000 ''m1'' ''o2'' ?d demo_emitted = (res, a1)"
    by (meson surj_pair)
  have "case find_row ds_id (af_id ?d) (ad_due demo_emitted) of
      Some r \<Rightarrow> ds_fingerprint r = Some (replicate 64 (CHR ''a'')) | None \<Rightarrow> False" by code_simp
  then obtain r where r: "find_row ds_id (af_id ?d) (ad_due demo_emitted) = Some r"
    "ds_fingerprint r = Some (replicate 64 (CHR ''a''))" by (auto split: option.splits)
  have h: "keys_ok demo_emitted" "replicate 64 (CHR ''a'') \<noteq> e_fingerprint ?E ?d" "is_sha256 (e_fingerprint ?E ?d)"
    "\<not> bad_text 128 (af_id ?d)" "demo_occurrence \<in> set (emissions (af_id ?d) demo_emitted)" "oc_at demo_occurrence = 0"
    "ti_capacity ?i \<le> int 2"
    by code_simp+
  have "sane_run (pinned_policy 2 (af_id ?d) (e_fingerprint ?E ?d)) []" by (simp add: sane_run_def)
  from edited_definition_is_stuck [OF h(1) r h(2,3,4) demo_initial h(5,6) m h(7) this] m
  show ?thesis
    by (simp add: demo_definition_def demo_env_def emissions_def demo_emitted_def demo_occurrence_def)
qed

end
