(* ===== verification/Media_Model.thy ===== *)
theory Media_Model
  imports Prelude "HOL-Library.Multiset"
begin

text \<open>
  The values the recognition, naming, classification and planning stages pass on: what a file name
  was parsed into, what a provider says the media is, and the policies a recognition type selects
  (\<open>domain/parser.py\<close>, \<open>domain/metadata.py\<close>, \<open>domain/recognition.py\<close>, \<open>domain/library.py\<close>). Fields no
  modelled stage reads are left out.
\<close>

section \<open>Parsed files\<close>

record file_context =
  fc_library :: string
  fc_path :: string
  fc_filename :: string
  fc_parents :: "string list"
  fc_extension :: string

record parse_result =
  pr_title :: string
  pr_year :: "int option"
  pr_season :: "int option"
  pr_episode :: "int option"
  pr_episodes :: "int list"
  pr_resolution :: "string option"
  pr_source :: "string option"
  pr_video_codec :: "string option"
  pr_audio :: "string option"
  pr_hdr :: "string option"
  pr_version :: "string option"
  pr_release_group :: "string option"
  pr_titles :: "string list"
  pr_audio_codec :: "string option"
  pr_audio_channels :: "string option"
  pr_hdrs :: "string list"
  pr_versions :: "string list"
  pr_languages :: "string list"
  pr_extension :: string

text \<open>The single tags and the tag lists are two views of one value; construction fills the missing one.\<close>

definition truthy_text :: "string option \<Rightarrow> bool" where
  "truthy_text v = (case v of None \<Rightarrow> False | Some s \<Rightarrow> s \<noteq> [])"

definition make_parse_result :: "parse_result \<Rightarrow> parse_result" where
  "make_parse_result p =
     (let codec = (if pr_audio_codec p = None \<and> pr_audio p \<noteq> None then pr_audio p else pr_audio_codec p);
          audio = (if pr_audio p = None \<and> codec \<noteq> None then codec else pr_audio p);
          hdrs = (if pr_hdrs p = [] \<and> truthy_text (pr_hdr p) then [the (pr_hdr p)] else pr_hdrs p);
          hdr = (if pr_hdr p = None \<and> hdrs \<noteq> [] then Some (hd hdrs) else pr_hdr p);
          vs = (if pr_versions p = [] \<and> truthy_text (pr_version p) then [the (pr_version p)] else pr_versions p);
          version = (if pr_version p = None \<and> vs \<noteq> [] then Some (hd vs) else pr_version p)
      in p\<lparr>pr_audio_codec := codec, pr_audio := audio, pr_hdrs := hdrs, pr_hdr := hdr,
           pr_versions := vs, pr_version := version\<rparr>)"

section \<open>Media identities\<close>

datatype media_type = Movie | Tv

record media_identity =
  mi_provider :: string
  mi_provider_id :: string
  mi_type :: media_type
  mi_title :: string
  mi_original_title :: "string option"
  mi_year :: "int option"
  mi_season :: "int option"
  mi_episode :: "int option"
  mi_episodes :: "int list"
  mi_episode_title :: "string option"
  mi_genres :: "string list"
  mi_countries :: "string list"
  mi_languages :: "string list"
  mi_keywords :: "string list"
  mi_alternative_titles :: "string list"
  mi_translated_titles :: "string list"
  mi_overview :: "string option"

fun media_type_value :: "media_type \<Rightarrow> string" where
  "media_type_value Movie = ''movie''"
| "media_type_value Tv = ''tv''"

section \<open>Recognition types\<close>

record recognition_type =
  rt_id :: string
  rt_name :: string
  rt_description :: string
  rt_enabled :: bool
  rt_created :: instant
  rt_updated :: instant

definition make_recognition_type :: "recognition_type \<Rightarrow> recognition_type result" where
  "make_recognition_type t = raise_if (strip (rt_id t) = [] \<or> strip (rt_name t) = []) ValueError (Inr t)"

section \<open>Text operations of the stages\<close>

text \<open>
  \<open>str.lower\<close> of code points below 256. \<open>str.casefold\<close> also expands the sharp s; the micro sign,
  which folds to a code point outside the range, stays: the folded texts are only compared.
\<close>

definition lower_char :: "char \<Rightarrow> char" where
  "lower_char c =
     (let n = code c in
      if (65 \<le> n \<and> n \<le> 90) \<or> (192 \<le> n \<and> n \<le> 222 \<and> n \<noteq> 215) then char_of (n + 32) else c)"

definition lower_text :: "string \<Rightarrow> string" where
  "lower_text s = map lower_char s"

definition casefold :: "string \<Rightarrow> string" where
  "casefold s = concat (map (\<lambda>c. if code c = 223 then ''ss'' else [lower_char c]) s)"

text \<open>\<open>tuple(dict.fromkeys(xs))\<close>: the first occurrences, in order.\<close>

definition first_occurrences :: "'a list \<Rightarrow> 'a list" where
  "first_occurrences xs = rev (remdups (rev xs))"

text \<open>\<open>needle in haystack\<close> on texts, \<open>str.endswith\<close>, and \<open>str.rsplit(".", 1)\<close> when a dot occurs.\<close>

fun occurs_in :: "string \<Rightarrow> string \<Rightarrow> bool" where
  "occurs_in p [] = (p = [])"
| "occurs_in p (c # cs) = (starts_with p (c # cs) \<or> occurs_in p cs)"

definition ends_with :: "string \<Rightarrow> string \<Rightarrow> bool" where
  "ends_with p s = starts_with (rev p) (rev s)"

definition after_last :: "char \<Rightarrow> string \<Rightarrow> string" where
  "after_last c s = rev (takeWhile (\<lambda>x. x \<noteq> c) (rev s))"

definition before_last :: "char \<Rightarrow> string \<Rightarrow> string" where
  "before_last c s = take (length s - length (after_last c s) - 1) s"

definition strip_chars :: "string \<Rightarrow> string \<Rightarrow> string" where
  "strip_chars cs s = rev (dropWhile (\<lambda>c. c \<in> set cs) (rev (dropWhile (\<lambda>c. c \<in> set cs) s)))"

definition lstrip :: "string \<Rightarrow> string" where
  "lstrip s = dropWhile py_space s"

definition rstrip :: "string \<Rightarrow> string" where
  "rstrip s = rev (dropWhile py_space (rev s))"

text \<open>\<open>s[:k]\<close> of a slice bound that may be negative.\<close>

definition slice_to :: "int \<Rightarrow> string \<Rightarrow> string" where
  "slice_to k s = take (nat (if k < 0 then int (length s) + k else k)) s"

lemma set_strip_chars: "set (strip_chars cs s) \<subseteq> set s"
  by (auto simp: strip_chars_def dest!: set_dropWhileD)

lemma strip_chars_ends:
  assumes "strip_chars cs s \<noteq> []"
  shows "hd (strip_chars cs s) \<notin> set cs" "last (strip_chars cs s) \<notin> set cs"
proof -
  let ?a = "dropWhile (\<lambda>c. c \<in> set cs) s"
  let ?b = "dropWhile (\<lambda>c. c \<in> set cs) (rev ?a)"
  have b: "?b \<noteq> []" using assms by (simp add: strip_chars_def)
  then have a: "?a \<noteq> []" by (auto simp del: dropWhile_eq_Nil_conv)
  have "hd ?b \<notin> set cs" using hd_dropWhile_not [OF b] by simp
  then show "last (strip_chars cs s) \<notin> set cs" using b by (simp add: strip_chars_def last_rev)
  have "last ?b = hd ?a" using dropWhile_last [OF b] a by (simp add: last_rev)
  moreover have "hd ?a \<notin> set cs" using hd_dropWhile_not [OF a] by simp
  ultimately show "hd (strip_chars cs s) \<notin> set cs" using b by (simp add: strip_chars_def hd_rev)
qed

lemma set_first_occurrences [simp]: "set (first_occurrences xs) = set xs"
  by (simp add: first_occurrences_def)

lemma distinct_first_occurrences [simp]: "distinct (first_occurrences xs)"
  by (simp add: first_occurrences_def)

section \<open>Stable sorting\<close>

text \<open>\<open>sorted(xs, key=...)\<close>, with the comparison of the keys as the parameter \<open>le\<close>.\<close>

fun insort_by :: "('a \<Rightarrow> 'a \<Rightarrow> bool) \<Rightarrow> 'a \<Rightarrow> 'a list \<Rightarrow> 'a list" where
  "insort_by le x [] = [x]"
| "insort_by le x (y # ys) = (if le x y then x # y # ys else y # insort_by le x ys)"

definition sort_by :: "('a \<Rightarrow> 'a \<Rightarrow> bool) \<Rightarrow> 'a list \<Rightarrow> 'a list" where
  "sort_by le xs = foldr (insort_by le) xs []"

lemma mset_insort_by [simp]: "mset (insort_by le x xs) = add_mset x (mset xs)"
  by (induction xs) auto

lemma mset_sort_by [simp]: "mset (sort_by le xs) = mset xs"
  by (induction xs) (auto simp: sort_by_def)

lemma set_sort_by [simp]: "set (sort_by le xs) = set xs"
  by (metis mset_eq_setD mset_sort_by)

locale total_preorder =
  fixes le :: "'a \<Rightarrow> 'a \<Rightarrow> bool"
  assumes le_total: "le x y \<or> le y x"
    and le_trans: "le x y \<Longrightarrow> le y z \<Longrightarrow> le x z"
begin

lemma set_insort_by: "set (insort_by le x xs) = insert x (set xs)"
  by (induction xs) auto

lemma sorted_insort: "sorted_wrt le xs \<Longrightarrow> sorted_wrt le (insort_by le x xs)"
proof (induction xs)
  case (Cons y ys)
  then show ?case using le_total [of x y] le_trans by (auto simp: set_insort_by)
qed simp

lemma sorted_sort_by: "sorted_wrt le (sort_by le xs)"
  by (induction xs) (auto simp: sort_by_def sorted_insort)

lemma sort_by_head:
  assumes "sort_by le xs = y # ys"
  shows "y \<in> set xs" "\<forall>x \<in> set xs. le y x"
proof -
  have s: "set xs = insert y (set ys)" using set_sort_by [of le xs] unfolding assms by simp
  show "y \<in> set xs" using s by simp
  show "\<forall>x \<in> set xs. le y x" using sorted_sort_by [of xs] s le_total unfolding assms by auto
qed

text \<open>Where no two different items have equal keys, the sorted list depends on the items only.\<close>

lemma sorted_unique:
  assumes "sorted_wrt le xs" "sorted_wrt le ys" "mset xs = mset ys"
    "\<And>x y. x \<in> set xs \<Longrightarrow> y \<in> set xs \<Longrightarrow> le x y \<Longrightarrow> le y x \<Longrightarrow> x = y"
  shows "xs = ys"
  using assms
proof (induction xs arbitrary: ys)
  case (Cons x xs)
  then obtain y zs where ys: "ys = y # zs" by (cases ys) auto
  have set_eq: "insert x (set xs) = insert y (set zs)"
    using mset_eq_setD [OF Cons.prems(3)] ys by simp
  have "x = y"
  proof (rule ccontr)
    assume ne: "x \<noteq> y"
    with set_eq have "x \<in> set zs" "y \<in> set xs" by auto
    then have "le x y" "le y x" using Cons.prems(1,2) ys by auto
    with Cons.prems(4) ne set_eq show False by auto
  qed
  with Cons.prems(3) ys have "mset xs = mset zs" by simp
  with Cons ys have "xs = zs" by auto
  with \<open>x = y\<close> ys show ?case by simp
qed simp

lemma sort_by_perm:
  assumes "mset xs = mset ys"
    "\<And>x y. x \<in> set xs \<Longrightarrow> y \<in> set xs \<Longrightarrow> le x y \<Longrightarrow> le y x \<Longrightarrow> x = y"
  shows "sort_by le xs = sort_by le ys"
  by (rule sorted_unique [OF sorted_sort_by sorted_sort_by]) (use assms in auto)

end

text \<open>The key \<open>(-priority, rule_id)\<close>: the greater number first, then the texts in order.\<close>

definition ranked_before :: "('a \<Rightarrow> int) \<Rightarrow> ('a \<Rightarrow> string) \<Rightarrow> 'a \<Rightarrow> 'a \<Rightarrow> bool" where
  "ranked_before n k x y = (n y < n x \<or> (n x = n y \<and> text_le (k x) (k y)))"

lemma code_inject: "code c = code d \<Longrightarrow> c = d"
  by (simp add: code_def)

lemma text_le_unique: "text_le s t \<Longrightarrow> text_le t s \<Longrightarrow> s = t"
proof (induction s t rule: text_le.induct)
  case (1 t)
  then show ?case by (cases t) auto
next
  case (3 c s d t)
  then show ?case by (auto intro: code_inject)
qed auto

lemma ranked_before_total: "ranked_before n k x y \<or> ranked_before n k y x"
  using text_le_total [of "k x" "k y"] by (auto simp: ranked_before_def)

lemma ranked_before_trans: "ranked_before n k x y \<Longrightarrow> ranked_before n k y z \<Longrightarrow> ranked_before n k x z"
  by (auto simp: ranked_before_def intro: text_le_trans)

interpretation ranked: total_preorder "ranked_before n k" for n :: "'a \<Rightarrow> int" and k
  by unfold_locales (rule ranked_before_total, rule ranked_before_trans)

lemma ranked_before_antisym:
  "ranked_before n k x y \<Longrightarrow> ranked_before n k y x \<Longrightarrow> n x = n y \<and> k x = k y"
  by (auto simp: ranked_before_def dest: text_le_unique)

end
