(* ===== verification/Naming_Template.thy ===== *)
theory Naming_Template
  imports Media_Model Redaction Posix_Paths
begin

text \<open>
  The template language of \<open>application/naming.py\<close>: \<open>string.Formatter().parse\<close>, the checks of
  \<open>SafeTemplateRenderer.validate\<close> and \<open>render\<close>.
\<close>

section \<open>Substitution\<close>

text \<open>
  \<open>re.sub(pattern, replacement, text)\<close> for a pattern that never matches the empty text. \<open>ahead\<close> is
  the look-ahead at the end of the match, \<open>repl\<close> the replacement as a function of the match.
\<close>

function sub_from :: "re \<Rightarrow> (string \<Rightarrow> bool) \<Rightarrow> (string \<Rightarrow> string) \<Rightarrow> string \<Rightarrow> nat \<Rightarrow> string" where
  "sub_from r ahead repl s i =
     (if length s \<le> i then []
      else (case find (\<lambda>e. ahead (drop e s)) (match_ends r s i) of
          Some e \<Rightarrow>
            if i < e then repl (take (e - i) (drop i s)) @ sub_from r ahead repl s e
            else s ! i # sub_from r ahead repl s (Suc i)
        | None \<Rightarrow> s ! i # sub_from r ahead repl s (Suc i)))"
  by pat_completeness auto
termination
  by (relation "measure (\<lambda>(r, ahead, repl, s, i). length s - i)") auto

declare sub_from.simps [simp del]

definition re_sub_ahead :: "re \<Rightarrow> (string \<Rightarrow> bool) \<Rightarrow> (string \<Rightarrow> string) \<Rightarrow> string \<Rightarrow> string" where
  "re_sub_ahead r ahead repl s = sub_from r ahead repl s 0"

definition re_sub :: "re \<Rightarrow> string \<Rightarrow> string \<Rightarrow> string" where
  "re_sub r repl s = re_sub_ahead r (\<lambda>_. True) (\<lambda>_. repl) s"

section \<open>string.Formatter().parse\<close>

text \<open>The field name ends at \<open>}\<close>, \<open>:\<close> or \<open>!\<close>; a bracket is skipped as a whole.\<close>

function scan_name :: "string \<Rightarrow> string \<Rightarrow> (string \<times> char \<times> string) result" where
  "scan_name acc [] = Inl ValueError"
| "scan_name acc (c # cs) =
     (if c = CHR ''{'' then Inl ValueError
      else if c = CHR ''['' then
        scan_name (rev (takeWhile (\<lambda>x. x \<noteq> CHR '']'') cs) @ c # acc) (dropWhile (\<lambda>x. x \<noteq> CHR '']'') cs)
      else if c = CHR ''}'' \<or> c = CHR '':'' \<or> c = CHR ''!'' then Inr (rev acc, c, cs)
      else scan_name (c # acc) cs)"
  by pat_completeness auto
termination
  by (relation "measure (\<lambda>(acc, s). length s)") (auto simp: le_imp_less_Suc length_dropWhile_le)

text \<open>A format specification runs to the brace that balances the one of the field.\<close>

fun scan_spec :: "nat \<Rightarrow> string \<Rightarrow> string \<Rightarrow> (string \<times> string) result" where
  "scan_spec depth acc [] = Inl ValueError"
| "scan_spec depth acc (c # cs) =
     (if c = CHR ''}'' then
        (if depth \<le> 1 then Inr (rev acc, cs) else scan_spec (depth - 1) (c # acc) cs)
      else scan_spec (if c = CHR ''{'' then Suc depth else depth) (c # acc) cs)"

record field =
  fd_name :: string
  fd_spec :: string
  fd_conversion :: "char option"

definition spec_field :: "string \<Rightarrow> char option \<Rightarrow> string \<Rightarrow> (field \<times> string) result" where
  "spec_field name conversion cs =
     bind_result (scan_spec 1 [] cs) (\<lambda>(spec, rest).
     Inr (\<lparr>fd_name = name, fd_spec = spec, fd_conversion = conversion\<rparr>, rest))"

definition parse_field :: "string \<Rightarrow> (field \<times> string) result" where
  "parse_field s =
     bind_result (scan_name [] s) (\<lambda>(name, c, cs).
     if c = CHR ''}'' then Inr (\<lparr>fd_name = name, fd_spec = [], fd_conversion = None\<rparr>, cs)
     else if c = CHR '':'' then spec_field name None cs
     else (case cs of
         [] \<Rightarrow> Inl ValueError
       | v # rest \<Rightarrow>
           (let conversion = (if v = nul then None else Some v) in
            case rest of
              [] \<Rightarrow> spec_field name conversion []
            | d # rest' \<Rightarrow>
                if d = CHR ''}'' then Inr (\<lparr>fd_name = name, fd_spec = [], fd_conversion = conversion\<rparr>, rest')
                else if d = CHR '':'' then spec_field name conversion rest' else Inl ValueError)))"

text \<open>One step of the iterator: a literal, and the field that follows it.\<close>

type_synonym chunk = "string \<times> field option"

definition is_brace :: "char \<Rightarrow> bool" where
  "is_brace c = (c = CHR ''{'' \<or> c = CHR ''}'')"

definition next_chunk :: "string \<Rightarrow> (chunk \<times> string) result" where
  "next_chunk s =
     (let literal = takeWhile (\<lambda>c. \<not> is_brace c) s in
      case dropWhile (\<lambda>c. \<not> is_brace c) s of
        [] \<Rightarrow> Inr ((literal, None), [])
      | [_] \<Rightarrow> Inl ValueError
      | c # d # rest \<Rightarrow>
          if c = d then Inr ((literal @ [c], None), rest)
          else if c = CHR ''}'' then Inl ValueError
          else bind_result (parse_field (d # rest)) (\<lambda>(f, rest').
            Inr ((literal, Some f), rest')))"

lemma scan_name_shorter: "scan_name acc s = Inr (n, c, rest) \<Longrightarrow> length rest < length s"
proof (induction acc s rule: scan_name.induct)
  case (2 acc c cs)
  show ?case
  proof (cases "c = CHR ''[''")
    case True
    then show ?thesis
      using 2 length_dropWhile_le [of "\<lambda>x. x \<noteq> CHR '']''" cs] by fastforce
  next
    case False
    with 2 show ?thesis by (auto split: if_splits)
  qed
qed auto

lemma scan_spec_shorter: "scan_spec depth acc s = Inr (sp, rest) \<Longrightarrow> length rest < length s"
  by (induction depth acc s rule: scan_spec.induct) (auto split: if_splits)

lemma spec_field_shorter: "spec_field n v s = Inr (f, rest) \<Longrightarrow> length rest < length s"
  by (auto simp: spec_field_def guard_simps split: prod.splits dest: scan_spec_shorter)

lemma parse_field_shorter: "parse_field s = Inr (f, rest) \<Longrightarrow> length rest < length s"
proof -
  assume f: "parse_field s = Inr (f, rest)"
  then obtain n c cs where n: "scan_name [] s = Inr (n, c, cs)" by (auto simp: parse_field_def guard_simps)
  note l = scan_name_shorter [OF n]
  have "length rest \<le> length cs"
    using f n spec_field_shorter [of n]
    by (auto simp: parse_field_def Let_def split: list.splits if_splits dest!: spec_field_shorter)
  with l show ?thesis by simp
qed

lemma next_chunk_shorter: "next_chunk s = Inr (k, rest) \<Longrightarrow> s \<noteq> [] \<Longrightarrow> length rest < length s"
proof -
  assume n: "next_chunk s = Inr (k, rest)" and s: "s \<noteq> []"
  have l: "length (dropWhile (\<lambda>c. \<not> is_brace c) s) \<le> length s" by (rule length_dropWhile_le)
  show ?thesis
    using n s l
    by (fastforce simp: next_chunk_def Let_def guard_simps split: list.splits if_splits dest: parse_field_shorter)
qed

function parse_format :: "string \<Rightarrow> chunk list result" where
  "parse_format s =
     (if s = [] then Inr []
      else bind_result (next_chunk s) (\<lambda>(c, rest).
        bind_result (parse_format rest) (\<lambda>cs. Inr (c # cs))))"
  by pat_completeness auto
termination
  by (relation "measure length") (auto dest: next_chunk_shorter)

declare parse_format.simps [simp del]

section \<open>Checks of a template\<close>

definition supported_variables :: "string list" where
  "supported_variables =
     [''title'', ''original_title'', ''year'', ''season'', ''episode'', ''episodes'', ''episode_range'',
      ''episode_title'', ''provider'', ''provider_id'', ''resolution'', ''source'', ''video_codec'', ''audio'',
      ''audio_codec'', ''audio_channels'', ''hdr'', ''version'', ''release_group'', ''ext'']"

definition numeric_variables :: "string list" where
  "numeric_variables = [''year'', ''season'', ''episode'']"

definition drive_or_scheme :: "string \<Rightarrow> bool" where
  "drive_or_scheme s =
     re_match_start (Alt drive_prefix (Cat scheme_prefix (lit_ci ''//''))) s"

text \<open>\<open>re.fullmatch(r"0[1-9][0-9]*", spec)\<close>.\<close>

definition zero_pad_spec :: "string \<Rightarrow> bool" where
  "zero_pad_spec s =
     (case s of
        z # d # ds \<Rightarrow> z = CHR ''0'' \<and> ascii_digit d \<and> d \<noteq> CHR ''0'' \<and> list_all ascii_digit ds
      | _ \<Rightarrow> False)"

definition check_chunk :: "chunk \<Rightarrow> unit result" where
  "check_chunk c =
     (case snd c of
        None \<Rightarrow> Inr ()
      | Some f \<Rightarrow>
          raise_if (fd_name f \<notin> set supported_variables) NamingUnknownVariable
          (raise_if (fd_conversion f \<noteq> None) NamingInvalidFormat
          (raise_if (fd_spec f \<noteq> [] \<and> (fd_name f \<notin> set numeric_variables \<or> \<not> zero_pad_spec (fd_spec f)))
             NamingInvalidFormat (Inr ()))))"

definition parse_template :: "string \<Rightarrow> chunk list result" where
  "parse_template s = (case parse_format s of Inl _ \<Rightarrow> Inl NamingInvalidTemplate | Inr cs \<Rightarrow> Inr cs)"

definition validate_template :: "string \<Rightarrow> unit result" where
  "validate_template v =
     raise_if (starts_with ''/'' v \<or> starts_with [backslash] v \<or> drive_or_scheme v) NamingUnsafePath
     (raise_if (slash \<in> set v \<or> backslash \<in> set v) NamingUnsafePath
     (bind_result (parse_template v) (check_all check_chunk)))"

section \<open>Rendering\<close>

datatype missing_strategy = MissingError | MissingEmpty | OmitToken

datatype var_value = NoValue | TextValue string | IntValue int | IntsValue "int list"

definition zero_pad :: "nat \<Rightarrow> int \<Rightarrow> string" where
  "zero_pad w i =
     (let sign = (if i < 0 then ''-'' else []); digits = show_nat (nat \<bar>i\<bar>) in
      sign @ replicate (w - length sign - length digits) (CHR ''0'') @ digits)"

text \<open>\<open>str\<close> of a value; a tuple prints its items.\<close>

definition show_value :: "var_value \<Rightarrow> string" where
  "show_value v =
     (case v of
        NoValue \<Rightarrow> []
      | TextValue s \<Rightarrow> s
      | IntValue i \<Rightarrow> show_int i
      | IntsValue is \<Rightarrow> ''('' @ join_with '', '' (map show_int is) @ (if length is = 1 then '','' else []) @ '')'')"

text \<open>\<open>format(value, spec)\<close> of a specification the check passed: a width past \<open>sys.maxsize\<close> raises.\<close>

definition format_value :: "var_value \<Rightarrow> string \<Rightarrow> string result" where
  "format_value v spec =
     (if spec = [] then Inr (show_value v)
      else let w = digits_value 0 spec in
        raise_if (2 ^ 63 \<le> w) NamingInvalidFormat
          (case v of IntValue i \<Rightarrow> Inr (zero_pad w i) | _ \<Rightarrow> Inl NamingInvalidFormat))"

definition is_missing :: "var_value \<Rightarrow> bool" where
  "is_missing v = (v = NoValue \<or> v = TextValue [])"

definition lookup_value :: "(string \<times> var_value) list \<Rightarrow> string \<Rightarrow> var_value" where
  "lookup_value vs k = (case map_of vs k of None \<Rightarrow> NoValue | Some v \<Rightarrow> v)"

text \<open>The text and the missing names of the chunks.\<close>

fun render_chunks :: "(string \<times> var_value) list \<Rightarrow> missing_strategy \<Rightarrow> chunk list \<Rightarrow> (string \<times> string list) result" where
  "render_chunks vs m [] = Inr ([], [])"
| "render_chunks vs m ((lit, None) # cs) =
     bind_result (render_chunks vs m cs) (\<lambda>(s, ms). Inr (lit @ s, ms))"
| "render_chunks vs m ((lit, Some f) # cs) =
     (let v = lookup_value vs (fd_name f) in
      if is_missing v then
        raise_if (m = MissingError) NamingMissingVariable
          (bind_result (render_chunks vs m cs) (\<lambda>(s, ms). Inr (lit @ s, fd_name f # ms)))
      else bind_result (format_value v (fd_spec f)) (\<lambda>t.
        bind_result (render_chunks vs m cs) (\<lambda>(s, ms). Inr (lit @ t @ s, ms))))"

text \<open>What a missing token leaves: empty brackets, doubled dashes and stray punctuation are dropped.\<close>

definition brackets :: "char \<Rightarrow> char \<Rightarrow> re" where
  "brackets a b = cats [ch a, Star space, ch b]"

definition dash :: re where
  "dash = cats [plus space, ch (CHR ''-''), Star space]"

definition clean_missing_tokens :: "string \<Rightarrow> string" where
  "clean_missing_tokens s =
     (let s = re_sub (Alt (brackets (CHR ''('') (CHR '')'')) (brackets (CHR ''['') (CHR '']''))) [] s;
          s = re_sub (cats [dash, dash, Star dash]) '' - '' s;
          s = re_sub_ahead dash (starts_with ''.'') (\<lambda>_. []) s;
          s = re_sub_ahead (Cat (plus space) (Cls (\<lambda>c. c = CHR ''.'' \<or> c = CHR '',''))) (\<lambda>_. True)
                (\<lambda>m. [last m]) s;
          s = re_sub (plus space) '' '' s
      in strip_chars '' -._'' s)"

definition render_template ::
  "string \<Rightarrow> (string \<times> var_value) list \<Rightarrow> missing_strategy \<Rightarrow> (string \<times> string list) result" where
  "render_template v vs m =
     bind_result (validate_template v) (\<lambda>_.
     bind_result (parse_template v) (\<lambda>cs.
     bind_result (render_chunks vs m cs) (\<lambda>(s, ms).
     Inr (if ms \<noteq> [] \<and> m = OmitToken then clean_missing_tokens s else s, first_occurrences ms))))"

section \<open>Literal text\<close>

text \<open>Doubled braces stand for themselves, so any text can be written as a template.\<close>

definition escape_braces :: "string \<Rightarrow> string" where
  "escape_braces s = concat (map (\<lambda>c. if is_brace c then [c, c] else [c]) s)"

lemma escape_braces_simps [simp]:
  "escape_braces [] = []"
  "escape_braces (c # s) = (if is_brace c then c # c # escape_braces s else c # escape_braces s)"
  by (simp_all add: escape_braces_def)

lemma next_chunk_Cons:
  assumes "\<not> is_brace c" "next_chunk s = Inr ((lit, fo), rest)"
  shows "next_chunk (c # s) = Inr ((c # lit, fo), rest)"
proof (cases "dropWhile (\<lambda>c. \<not> is_brace c) s")
  case Nil
  with assms show ?thesis by (simp add: next_chunk_def Let_def del: dropWhile_eq_Nil_conv)
next
  case (Cons x xs)
  with assms show ?thesis
    by (cases xs) (auto simp: next_chunk_def Let_def guard_simps split: if_splits simp del: dropWhile_eq_Nil_conv)
qed

lemma next_chunk_escape:
  "s \<noteq> [] \<Longrightarrow> \<exists>lit rest. next_chunk (escape_braces s) = Inr ((lit, None), escape_braces rest) \<and>
    lit @ rest = s \<and> length rest < length s"
proof (induction s)
  case (Cons c s)
  show ?case
  proof (cases "is_brace c")
    case True
    then show ?thesis by (auto simp: next_chunk_def)
  next
    case False
    show ?thesis
    proof (cases "s = []")
      case True
      then show ?thesis using False by (auto simp: next_chunk_def intro: exI [of _ "[]"])
    next
      case ne: False
      from Cons.IH [OF this] obtain lit rest where
        n: "next_chunk (escape_braces s) = Inr ((lit, None), escape_braces rest)" "lit @ rest = s" "length rest < length s"
        by blast
      have "next_chunk (c # escape_braces s) = Inr ((c # lit, None), escape_braces rest)"
        by (rule next_chunk_Cons [OF False n(1)])
      then show ?thesis using n False by (intro exI [of _ "c # lit"] exI [of _ rest]) auto
    qed
  qed
qed simp

lemma parse_escape:
  "\<exists>lits. parse_format (escape_braces s) = Inr (map (\<lambda>l. (l, None)) lits) \<and> concat lits = s"
proof (induction "length s" arbitrary: s rule: less_induct)
  case less
  show ?case
  proof (cases "s = []")
    case True
    then show ?thesis by (auto simp: parse_format.simps)
  next
    case False
    from next_chunk_escape [OF this] obtain lit rest where
      n: "next_chunk (escape_braces s) = Inr ((lit, None), escape_braces rest)" "lit @ rest = s" "length rest < length s"
      by blast
    from less [OF n(3)] obtain lits where
      l: "parse_format (escape_braces rest) = Inr (map (\<lambda>l. (l, None)) lits)" "concat lits = rest" by blast
    have "escape_braces s \<noteq> []" using False by (cases s) auto
    then have "parse_format (escape_braces s) = Inr (map (\<lambda>l. (l, None)) (lit # lits))"
      using n l by (simp add: parse_format.simps [of "escape_braces s"])
    then show ?thesis using n(2) l(2) by (intro exI [of _ "lit # lits"]) auto
  qed
qed

lemma render_literals: "render_chunks vs m (map (\<lambda>l. (l, None)) lits) = Inr (concat lits, [])"
  by (induction lits) auto

lemma check_literals: "check_all check_chunk (map (\<lambda>l. (l, None)) lits) = Inr ()"
  by (induction lits) (auto simp: check_chunk_def)

end
