(* ===== verification/Naming.thy ===== *)
theory Naming
  imports Naming_Template
begin

text \<open>
  \<open>application/naming.py\<close> and \<open>domain/naming.py\<close>: the policies and their registry, the sanitizer of
  one path component and the engine that renders a name from them. \<open>unicodedata.normalize\<close> is the
  parameter \<open>nfc\<close>; the ellipsis of a truncated component, which no code point below 256 is, is the
  parameter \<open>dots\<close>.
\<close>

section \<open>Policies\<close>

datatype media_mode = ModeAuto | ModeMovie | ModeTv

record naming_policy =
  np_id :: string
  np_name :: string
  np_movie_directory :: string
  np_movie_file :: string
  np_series_directory :: string
  np_season_directory :: string
  np_episode_file :: string
  np_multi_file :: string
  np_enabled :: bool
  np_mode :: media_mode
  np_missing :: missing_strategy
  np_max :: int

definition policy_templates :: "naming_policy \<Rightarrow> string list" where
  "policy_templates p =
     [np_movie_directory p, np_movie_file p, np_series_directory p, np_season_directory p, np_episode_file p,
      np_multi_file p]"

definition make_naming_policy :: "naming_policy \<Rightarrow> naming_policy result" where
  "make_naming_policy p =
     raise_if (strip (np_id p) = [] \<or> strip (np_name p) = []) NamingInvalidTemplate
     (raise_if (np_max p < 1) NamingComponentTooLong
     (raise_if (list_ex (\<lambda>t. t = []) (policy_templates p)) NamingInvalidTemplate (Inr p)))"

definition validate_naming_policy :: "naming_policy \<Rightarrow> unit result" where
  "validate_naming_policy p = check_all validate_template (policy_templates p)"

fun make_naming_registry :: "(string \<rightharpoonup> naming_policy) \<Rightarrow> naming_policy list \<Rightarrow> (string \<rightharpoonup> naming_policy) result" where
  "make_naming_registry reg [] = Inr reg"
| "make_naming_registry reg (p # ps) =
     bind_result (validate_naming_policy p) (\<lambda>_.
     raise_if (reg (np_id p) \<noteq> None) NamingInvalidTemplate
       (make_naming_registry (reg(np_id p \<mapsto> p)) ps))"

definition resolve_naming_policy :: "(string \<rightharpoonup> naming_policy) \<Rightarrow> string \<Rightarrow> naming_policy result" where
  "resolve_naming_policy reg k =
     (case reg k of
        None \<Rightarrow> Inl NamingPolicyNotFound
      | Some p \<Rightarrow> raise_if (\<not> np_enabled p) NamingPolicyDisabled (Inr p))"

section \<open>Sanitizing a component\<close>

text \<open>Category \<open>Cc\<close>; the characters a component may not hold; the reserved device names.\<close>

definition control_char :: "char \<Rightarrow> bool" where
  "control_char c = (code c < 32 \<or> (127 \<le> code c \<and> code c < 160))"

definition forbidden_chars :: string where
  "forbidden_chars = [backslash, slash, CHR ''*'', CHR ''?'', CHR 0x22, CHR ''<'', CHR ''>'', CHR ''|'']"

definition upper_ascii :: "string \<Rightarrow> string" where
  "upper_ascii s = map (\<lambda>c. if 97 \<le> code c \<and> code c \<le> 122 then char_of (code c - 32) else c) s"

definition windows_reserved :: "string list" where
  "windows_reserved =
     [''CON'', ''PRN'', ''AUX'', ''NUL''] @ map (\<lambda>d. ''COM'' @ [d]) ''123456789'' @
     map (\<lambda>d. ''LPT'' @ [d]) ''123456789''"

definition plain_text :: "(string \<Rightarrow> string) \<Rightarrow> string \<Rightarrow> string" where
  "plain_text nfc s =
     (let s = map (\<lambda>c. if control_char c then CHR '' '' else c) (nfc s);
          s = concat (map (\<lambda>c. if c = CHR '':'' then '' -'' else [c]) s);
          s = map (\<lambda>c. if c \<in> set forbidden_chars then CHR '' '' else c) s;
          s = re_sub (plus space) '' '' s
      in strip_chars '' .'' s)"

text \<open>The prefix keeps \<open>available - tail - 1\<close> characters, a slice bound that is negative below nine.\<close>

definition truncated_text :: "char \<Rightarrow> string \<Rightarrow> string \<Rightarrow> int \<Rightarrow> string" where
  "truncated_text dots stem extension available =
     (let tail = min 48 (max 8 (available div 3)) in
      rstrip (slice_to (available - tail - 1) stem) @ [dots] @ lstrip (drop (length stem - nat tail) stem) @ extension)"

definition truncate_component :: "char \<Rightarrow> string \<Rightarrow> int \<Rightarrow> bool \<Rightarrow> string result" where
  "truncate_component dots s max_length filename =
     (let dotted = filename \<and> CHR ''.'' \<in> set s;
          stem = (if dotted then before_last (CHR ''.'') s else s);
          extension = (if dotted then CHR ''.'' # after_last (CHR ''.'') s else []);
          available = max_length - int (length extension)
      in raise_if (available < 3) NamingComponentTooLong (Inr (truncated_text dots stem extension available)))"

definition sanitize_component ::
  "(string \<Rightarrow> string) \<Rightarrow> char \<Rightarrow> int \<Rightarrow> bool \<Rightarrow> string \<Rightarrow> (string \<times> string list) result" where
  "sanitize_component nfc dots max_length filename original =
     (let s = plain_text nfc original;
          changed = (if s \<noteq> original then [''sanitized_character_or_whitespace''] else []) in
      raise_if (unsafe_part s) NamingEmptyComponent
      (let stem = (if filename \<and> CHR ''.'' \<in> set s then before_last (CHR ''.'') s else s);
           reserved = upper_ascii stem \<in> set windows_reserved;
           s = (if reserved then CHR ''_'' # s else s);
           changed = changed @ (if reserved then [''reserved_name_prefixed''] else []) in
       raise_if (slash \<in> set s \<or> backslash \<in> set s \<or> drive_or_scheme s) NamingUnsafePath
       (bind_result
          (if max_length < int (length s)
           then bind_result (truncate_component dots s max_length filename) (\<lambda>t.
                  Inr (t, changed @ [''component_truncated'']))
           else Inr (s, changed)) (\<lambda>(s, changed).
        raise_if (unsafe_part s) NamingEmptyComponent (Inr (s, changed))))))"

section \<open>Variables\<close>

record naming_context =
  nc_recognition_type :: string
  nc_identity :: media_identity
  nc_parsed :: parse_result
  nc_filename :: string
  nc_extension :: string

definition make_naming_context :: "naming_context \<Rightarrow> naming_context result" where
  "make_naming_context c = raise_if (strip (nc_recognition_type c) = []) ValueError (Inr c)"

definition text_value :: "string option \<Rightarrow> var_value" where
  "text_value v = (case v of None \<Rightarrow> NoValue | Some s \<Rightarrow> TextValue s)"

definition int_value :: "int option \<Rightarrow> var_value" where
  "int_value v = (case v of None \<Rightarrow> NoValue | Some i \<Rightarrow> IntValue i)"

definition or_none :: "string \<Rightarrow> string option" where
  "or_none s = (if s = [] then None else Some s)"

definition contiguous :: "int list \<Rightarrow> bool" where
  "contiguous es = list_all (\<lambda>(l, r). r = l + 1) (zip es (tl es))"

definition format_episodes :: "int list \<Rightarrow> string option" where
  "format_episodes es =
     (if es = [] then None
      else let formatted = map (\<lambda>e. CHR ''E'' # zero_pad 2 e) es in
        Some (if 1 < length es \<and> contiguous es then hd formatted @ ''-'' @ last formatted
              else concat formatted))"

definition file_extension :: "string \<Rightarrow> string" where
  "file_extension s = (if CHR ''.'' \<in> set s then after_last (CHR ''.'') s else [])"

definition naming_variables :: "naming_context \<Rightarrow> (string \<times> var_value) list \<times> string list" where
  "naming_variables c =
     (let m = nc_identity c; p = nc_parsed c;
          fallback = mi_year m = None \<and> pr_year p \<noteq> None;
          year = (if fallback then pr_year p else mi_year m);
          season = (if mi_season m \<noteq> None then mi_season m else pr_season p);
          raw = (if mi_episodes m \<noteq> [] then mi_episodes m else pr_episodes p);
          episode = (if mi_episode m \<noteq> None then mi_episode m else pr_episode p);
          raw = (if raw = [] \<and> episode \<noteq> None then [the episode] else raw);
          numbers = sort (remdups raw);
          episode = (if episode = None \<and> numbers \<noteq> [] then Some (hd numbers) else episode);
          ext = (if nc_extension c \<noteq> [] then nc_extension c
                 else if pr_extension p \<noteq> [] then pr_extension p else file_extension (nc_filename c));
          ext = dropWhile (\<lambda>x. x = CHR ''.'') (lower_text ext);
          audio = map the (filter truthy_text [pr_audio_codec p, pr_audio_channels p]);
          episodes = format_episodes numbers
      in ([(''title'', TextValue (mi_title m)), (''original_title'', text_value (mi_original_title m)),
           (''year'', int_value year), (''season'', int_value season), (''episode'', int_value episode),
           (''episodes'', text_value episodes), (''episode_range'', text_value episodes),
           (''episode_title'', text_value (mi_episode_title m)), (''provider'', TextValue (mi_provider m)),
           (''provider_id'', TextValue (mi_provider_id m)), (''resolution'', text_value (pr_resolution p)),
           (''source'', text_value (pr_source p)), (''video_codec'', text_value (pr_video_codec p)),
           (''audio'', text_value (if audio = [] then None else Some (concat audio))),
           (''audio_codec'', text_value (pr_audio_codec p)), (''audio_channels'', text_value (pr_audio_channels p)),
           (''hdr'', text_value (or_none (join_with '' '' (first_occurrences (pr_hdrs p))))),
           (''version'', text_value (or_none (join_with '' '' (first_occurrences (pr_versions p))))),
           (''release_group'', text_value (pr_release_group p)), (''ext'', text_value (or_none ext)),
           (''episode_numbers'', IntsValue numbers)],
          if fallback then [''missing_year_fallback:parse_result''] else []))"

section \<open>The engine\<close>

record naming_result =
  nr_directory :: string
  nr_filename :: string
  nr_policy :: string
  nr_recognition_type :: string
  nr_type :: "media_type option"
  nr_segments :: "string list"
  nr_variables :: "(string \<times> string) list"
  nr_warnings :: "string list"
  nr_changes :: "string list"

definition make_naming_result :: "naming_result \<Rightarrow> naming_result" where
  "make_naming_result r =
     (if nr_segments r = [] \<and> nr_directory r \<noteq> [] then r\<lparr>nr_segments := [nr_directory r]\<rparr> else r)"

definition naming_media_type :: "naming_context \<Rightarrow> naming_policy \<Rightarrow> media_type" where
  "naming_media_type c p =
     (case np_mode p of ModeMovie \<Rightarrow> Movie | ModeTv \<Rightarrow> Tv | ModeAuto \<Rightarrow> mi_type (nc_identity c))"

definition chosen_templates :: "naming_policy \<Rightarrow> media_type \<Rightarrow> (string \<times> var_value) list \<Rightarrow> (string \<times> bool) list" where
  "chosen_templates p t vs =
     (case t of
        Movie \<Rightarrow> [(np_movie_directory p, False), (np_movie_file p, True)]
      | Tv \<Rightarrow>
          [(np_series_directory p, False), (np_season_directory p, False),
           (case lookup_value vs ''episode_numbers'' of
              IntsValue es \<Rightarrow> if 1 < length es then np_multi_file p else np_episode_file p
            | _ \<Rightarrow> np_episode_file p, True)])"

text \<open>One template becomes one component; the warnings and changes accumulate in order.\<close>

fun name_components ::
  "(string \<Rightarrow> string) \<Rightarrow> char \<Rightarrow> naming_policy \<Rightarrow> (string \<times> var_value) list \<Rightarrow> (string \<times> bool) list \<Rightarrow>
    (string list \<times> string list \<times> string list) result" where
  "name_components nfc dots p vs [] = Inr ([], [], [])"
| "name_components nfc dots p vs ((template, filename) # ts) =
     bind_result (render_template template vs (np_missing p)) (\<lambda>(s, missing).
     bind_result (sanitize_component nfc dots (np_max p) filename s) (\<lambda>(component, changed).
     bind_result (name_components nfc dots p vs ts) (\<lambda>(segments, warnings, changes).
     Inr (component # segments,
          map (\<lambda>n. ''missing_variable:'' @ n) missing @
            (if ''component_truncated'' \<in> set changed then [''component_truncated''] else []) @ warnings,
          changed @ changes))))"

definition name_media ::
  "(string \<Rightarrow> string) \<Rightarrow> char \<Rightarrow> naming_context \<Rightarrow> naming_policy \<Rightarrow> naming_result result" where
  "name_media nfc dots c p =
     raise_if (\<not> np_enabled p) NamingPolicyDisabled
     (bind_result (validate_naming_policy p) (\<lambda>_.
      let (vs, warnings) = naming_variables c; t = naming_media_type c p in
      bind_result (name_components nfc dots p vs (chosen_templates p t vs)) (\<lambda>(segments, more, changes).
      Inr (make_naming_result
        \<lparr>nr_directory = hd segments, nr_filename = last segments, nr_policy = np_id p,
         nr_recognition_type = nc_recognition_type c, nr_type = Some t, nr_segments = butlast segments,
         nr_variables = map (\<lambda>(n, v). (n, show_value v)) vs,
         nr_warnings = first_occurrences (warnings @ more), nr_changes = first_occurrences changes\<rparr>))))"

definition preview_name ::
  "(string \<Rightarrow> string) \<Rightarrow> char \<Rightarrow> (string \<rightharpoonup> naming_policy) \<Rightarrow> naming_context \<Rightarrow> string \<Rightarrow> naming_result result" where
  "preview_name nfc dots reg c k = bind_result (resolve_naming_policy reg k) (name_media nfc dots c)"

end
