(* ===== verification/Destination.thy ===== *)
theory Destination
  imports Posix_Paths
begin

text \<open>
  \<open>domain/organizer.py\<close>: how the path of an organized file is composed from the root of a media
  library, the contribution of the classification rule and the segments the naming policy renders.
\<close>

section \<open>Roots\<close>

text \<open>The only absolute input; empty parts are collapsed, navigation is refused, not resolved.\<close>

definition safe_destination_root :: "string \<Rightarrow> string option" where
  "safe_destination_root v =
     (if v = [] \<or> backslash \<in> set v \<or> nul \<in> set v then None
      else if v = ''.'' then Some ''.''
      else if list_ex (\<lambda>p. p = ''.'' \<or> p = ''..'') (split_on slash v) then None
      else let absolute = starts_with ''/'' v; normalized = normpath v;
               parts = split_on slash (dropWhile (\<lambda>c. c = slash) normalized) in
        if list_ex unsafe_part parts \<and> normalized \<noteq> ''/'' then None
        else if \<not> absolute \<and> starts_with ''../'' normalized then None
        else Some normalized)"

section \<open>Composition\<close>

text \<open>\<open>unsafe_relative_destination_path\<close> is the test of \<open>Posix_Paths\<close>.\<close>

definition unsafe_destination_filename :: "string \<Rightarrow> bool" where
  "unsafe_destination_filename v = (unsafe_relative_path v \<or> slash \<in> set v)"

record composition =
  dc_root :: string
  dc_relative :: string
  dc_target :: string
  dc_unsafe :: "string option"
  dc_classification :: string

definition dc_safe :: "composition \<Rightarrow> bool" where
  "dc_safe c = (dc_unsafe c = None)"

fun unsafe_segment :: "nat \<Rightarrow> string list \<Rightarrow> string option" where
  "unsafe_segment i [] = None"
| "unsafe_segment i (s # ss) =
     (if unsafe_relative_path s then Some (''naming.directorySegments['' @ show_nat i @ '']'')
      else unsafe_segment (Suc i) ss)"

definition unsafe_contribution ::
  "string \<Rightarrow> string \<Rightarrow> string \<Rightarrow> string list \<Rightarrow> string \<Rightarrow> string option \<Rightarrow> string option" where
  "unsafe_contribution lib rel dir segs file prefix =
     (let u = (if safe_destination_root lib = None then Some ''mediaLibrary.rootPath''
               else if case prefix of None \<Rightarrow> False | Some p \<Rightarrow> unsafe_relative_path p
               then Some ''classification.library''
               else if unsafe_relative_path rel then Some ''classification.relativePath''
               else if unsafe_relative_path dir then Some ''naming.directory''
               else unsafe_segment 0 segs)
      in if u = None \<and> unsafe_destination_filename file then Some ''naming.filename'' else u)"

fun join_all :: "string list \<Rightarrow> string" where
  "join_all [] = []"
| "join_all (x # xs) = path_join x xs"

definition compose_destination ::
  "string \<Rightarrow> string \<Rightarrow> string \<Rightarrow> string list \<Rightarrow> string \<Rightarrow> string option \<Rightarrow> composition" where
  "compose_destination lib rel dir segs file prefix =
     (case (unsafe_contribution lib rel dir segs file prefix, safe_destination_root lib) of
        (None, Some r) \<Rightarrow>
          (let front = (case prefix of None \<Rightarrow> [] | Some p \<Rightarrow> [p]);
               relative = join_all (front @ [rel] @ segs @ [file]) in
           \<lparr>dc_root = r, dc_relative = relative, dc_target = path_join r [relative],
            dc_unsafe = None, dc_classification = join_all (front @ [rel])\<rparr>)
      | (u, _) \<Rightarrow> \<lparr>dc_root = [], dc_relative = [], dc_target = [], dc_unsafe = u, dc_classification = []\<rparr>)"

section \<open>What a safe composition is\<close>

text \<open>The contributions in order, as the composition lists them.\<close>

definition contributions :: "string \<Rightarrow> string list \<Rightarrow> string \<Rightarrow> string option \<Rightarrow> string list" where
  "contributions rel segs file prefix = (case prefix of None \<Rightarrow> [] | Some p \<Rightarrow> [p]) @ [rel] @ segs @ [file]"

lemma unsafe_segment_None: "unsafe_segment i ss = None \<longleftrightarrow> (\<forall>s \<in> set ss. \<not> unsafe_relative_path s)"
  by (induction ss arbitrary: i) auto

lemma unsafe_segment_Some: "unsafe_segment i ss = Some u \<Longrightarrow> \<exists>s \<in> set ss. unsafe_relative_path s"
  using unsafe_segment_None [of i ss] by auto

lemma unsafe_contribution_None:
  "unsafe_contribution lib rel dir segs file prefix = None \<longleftrightarrow>
    safe_destination_root lib \<noteq> None \<and> \<not> unsafe_relative_path dir \<and>
    (\<forall>c \<in> set (contributions rel segs file prefix). \<not> unsafe_relative_path c) \<and> slash \<notin> set file"
  by (auto simp: unsafe_contribution_def contributions_def unsafe_segment_None unsafe_destination_filename_def
      Let_def dest!: unsafe_segment_Some split: option.splits if_splits)

lemma compose_destination_safe:
  "dc_safe (compose_destination lib rel dir segs file prefix) \<longleftrightarrow>
    unsafe_contribution lib rel dir segs file prefix = None"
  by (cases "unsafe_contribution lib rel dir segs file prefix")
    (auto simp: compose_destination_def dc_safe_def Let_def unsafe_contribution_None split: option.splits)

text \<open>The text between a root and what is put under it.\<close>

definition under_root :: "string \<Rightarrow> string \<Rightarrow> string" where
  "under_root r s = (if last r = slash then r @ s else r @ [slash] @ s)"

lemma safe_not_rooted: "\<not> unsafe_relative_path s \<Longrightarrow> \<not> starts_with ''/'' s"
  using safe_path_split [of s] by (auto simp: starts_slash)

lemma path_join_one: "r \<noteq> [] \<Longrightarrow> \<not> unsafe_relative_path s \<Longrightarrow> path_join r [s] = under_root r s"
  by (simp add: path_join_def join_step_def under_root_def safe_not_rooted)

lemma safe_destination_root_nonempty: "safe_destination_root v = Some r \<Longrightarrow> r \<noteq> []"
  by (auto simp: safe_destination_root_def normpath_def Let_def split: if_splits)

section \<open>The composed target stays under the root\<close>

definition root_lead :: "string \<Rightarrow> bool" where
  "root_lead l = (l = [] \<or> l = [slash] \<or> l = [slash, slash])"

lemma normal_parts_plain:
  "\<forall>c \<in> set cs. c \<noteq> ''.'' \<and> c \<noteq> ''..'' \<Longrightarrow> normal_parts rooted new cs = new @ filter (\<lambda>c. c \<noteq> []) cs"
  by (induction cs arbitrary: new) auto

lemma leading_root_lead: "root_lead (leading_slashes s)"
  by (simp add: leading_slashes_def root_lead_def slash_def)

lemma leading_slashes_lead:
  assumes "root_lead l" "q \<noteq> []" "hd q \<noteq> slash"
  shows "leading_slashes (l @ q) = l" "starts_with ''/'' (l @ q) \<longleftrightarrow> l \<noteq> []"
  using assms by (cases q; auto simp: root_lead_def leading_slashes_def starts_with_def slash_def)+

lemma normpath_lead:
  assumes l: "root_lead l" and q: "\<not> unsafe_relative_path q"
  shows "normpath (l @ q) = l @ q"
proof -
  note p = safe_path_split [OF q]
  have s: "split_on slash (l @ q) = replicate (length l) [] @ split_on slash q"
    using l by (auto simp: root_lead_def)
  have skip: "normal_parts rooted [] (replicate n [] @ cs) = normal_parts rooted [] cs" for rooted n and cs :: "string list"
    by (induction n) auto
  have "list_all (\<lambda>c. \<not> unsafe_part c) (split_on slash q)"
    by (rule safe_parts_not_unsafe) (use q safe_relative_iff in blast)
  from normal_parts_safe [OF this] p leading_slashes_lead [OF l p(1,2)]
  show ?thesis by (simp add: normpath_def s skip join_split)
qed

lemma safe_destination_root_form:
  assumes "safe_destination_root v = Some r"
  shows "r = ''.'' \<or> r = [slash] \<or> (\<exists>l q. r = l @ q \<and> root_lead l \<and> \<not> unsafe_relative_path q)"
proof (cases "v = ''.''")
  case True
  with assms show ?thesis by (auto simp: safe_destination_root_def split: if_splits)
next
  case False
  let ?cs = "filter (\<lambda>c. c \<noteq> []) (split_on slash v)"
  from assms False have v: "v \<noteq> []" "backslash \<notin> set v" "nul \<notin> set v" and r: "r = normpath v"
    and plain: "\<forall>c \<in> set (split_on slash v). c \<noteq> ''.'' \<and> c \<noteq> ''..''"
    and last: "\<not> (list_ex unsafe_part (split_on slash (dropWhile (\<lambda>c. c = slash) r)) \<and> r \<noteq> ''/'')"
    by (auto simp: safe_destination_root_def Let_def list_ex_iff split: if_splits)
  let ?body = "join_with [slash] ?cs"
  have form: "r = (let p = leading_slashes v @ ?body in if p = [] then ''.'' else p)"
    using v(1) normal_parts_plain [OF plain] by (simp add: r normpath_def Let_def)
  have cs: "list_all safe_part ?cs"
    using plain v split_on_members [of _ slash v] split_on_no_sep [of _ slash v]
    by (auto simp: list_all_iff safe_part_def unsafe_part_def)
  show ?thesis
  proof (cases "?cs = []")
    case True
    with form leading_root_lead [of v] have "r = ''.'' \<or> r = [slash] \<or> r = [slash, slash]"
      by (auto simp: root_lead_def)
    moreover have "r \<noteq> [slash, slash]"
      using last by (auto simp: unsafe_part_def slash_def)
    ultimately show ?thesis by blast
  next
    case False
    have "split_on slash ?body = ?cs"
      by (rule split_join [OF False]) (use split_on_no_sep [of _ slash v] in auto)
    then have q: "\<not> unsafe_relative_path ?body" using cs by (simp add: safe_relative_iff)
    then have "?body \<noteq> []" using safe_path_split(1) by blast
    with form have "r = leading_slashes v @ ?body" by (simp add: Let_def)
    with q leading_root_lead show ?thesis by blast
  qed
qed

lemma under_root_normal:
  assumes r: "safe_destination_root v = Some r" and s: "\<not> unsafe_relative_path s"
  shows "normpath (under_root r s) = (if r = ''.'' then s else under_root r s)"
  using safe_destination_root_form [OF r]
proof (elim disjE exE conjE)
  assume d: "r = ''.''"
  have "split_on slash (''.'' @ [slash] @ s) = ''.'' # split_on slash s"
    using split_on_append [of slash "''.''" s] by (simp add: slash_def)
  moreover have "leading_slashes (''.'' @ [slash] @ s) = []" "\<not> starts_with ''/'' (''.'' @ [slash] @ s)"
    by (simp_all add: leading_slashes_def starts_with_def)
  moreover have "list_all (\<lambda>c. \<not> unsafe_part c) (split_on slash s)"
    by (rule safe_parts_not_unsafe) (use s safe_relative_iff in blast)
  ultimately show ?thesis
    using d normal_parts_safe [of "split_on slash s" False "[]"] safe_path_split(1) [OF s]
    by (simp add: normpath_def under_root_def join_split slash_def)
next
  assume "r = [slash]"
  then show ?thesis using normpath_lead [of "[slash]" s] s by (simp add: under_root_def root_lead_def slash_def)
next
  fix l q assume f: "r = l @ q" "root_lead l" "\<not> unsafe_relative_path q"
  have "under_root r s = l @ (q @ [slash] @ s)"
    using f safe_path_split [OF f(3)] by (simp add: under_root_def)
  moreover have "\<not> unsafe_relative_path (q @ [slash] @ s)" using f(3) s safe_append by blast
  moreover have "r \<noteq> ''.'' \<or> s = under_root r s"
  proof (rule ccontr)
    assume "\<not> ?thesis"
    then have "l @ q = ''.''" using f(1) by simp
    then have "q = ''.''" using f(2,3) safe_path_split(1) [OF f(3)] by (auto simp: root_lead_def slash_def)
    then show False using f(3) by (auto simp: unsafe_relative_path_def unsafe_part_def slash_def)
  qed
  ultimately show ?thesis using normpath_lead [OF f(2)] by auto
qed

text \<open>Everything a safe composition promises, in one place.\<close>

lemma compose_destination_facts:
  assumes "dc_safe (compose_destination lib rel dir segs file prefix)"
  defines "c \<equiv> compose_destination lib rel dir segs file prefix"
  shows "safe_destination_root lib = Some (dc_root c)"
    "split_on slash (dc_relative c) = concat (map (split_on slash) (contributions rel segs file prefix))"
    "\<not> unsafe_relative_path (dc_relative c)"
    "dc_target c = under_root (dc_root c) (dc_relative c)"
proof -
  have n: "unsafe_contribution lib rel dir segs file prefix = None"
    using assms compose_destination_safe by blast
  then obtain r where r: "safe_destination_root lib = Some r" using unsafe_contribution_None by blast
  let ?cs = "contributions rel segs file prefix"
  have cs: "\<forall>c \<in> set ?cs. \<not> unsafe_relative_path c" using n unsafe_contribution_None by blast
  obtain x xs where x: "?cs = x # xs" by (cases ?cs) (auto simp: contributions_def)
  have j: "split_on slash (join_all ?cs) = concat (map (split_on slash) ?cs) \<and> \<not> unsafe_relative_path (join_all ?cs)"
    using path_join_safe [of x xs] cs unfolding x join_all.simps
    by (metis list.set_intros(1) list.set_intros(2))
  have c: "c = \<lparr>dc_root = r, dc_relative = join_all ?cs, dc_target = path_join r [join_all ?cs], dc_unsafe = None,
      dc_classification = join_all ((case prefix of None \<Rightarrow> [] | Some p \<Rightarrow> [p]) @ [rel])\<rparr>"
    unfolding c_def compose_destination_def by (simp add: n r Let_def contributions_def)
  show "safe_destination_root lib = Some (dc_root c)" using c r by simp
  show "split_on slash (dc_relative c) = concat (map (split_on slash) ?cs)" using c j by simp
  show "\<not> unsafe_relative_path (dc_relative c)" using c j by simp
  show "dc_target c = under_root (dc_root c) (dc_relative c)"
    using c j path_join_one [OF safe_destination_root_nonempty [OF r]] by simp
qed

end
