(* ===== verification/Classification.thy ===== *)
theory Classification
  imports Media_Model Destination
begin

text \<open>
  \<open>domain/classification.py\<close> and \<open>application/classification.py\<close>: the rules that choose the library and
  the relative path of a medium, their checks, and the engine that selects one rule. The compatibility
  normalization of \<open>unicodedata\<close> is the parameter \<open>nfkc\<close>.
\<close>

section \<open>Paths\<close>

datatype path_input = PathText string | PathSegments "string list"

definition validate_relative_path :: "string \<Rightarrow> unit result" where
  "validate_relative_path s = raise_if (unsafe_relative_path s) ClassificationErrorUnsafePath (Inr ())"

definition normalize_classification_path :: "path_input \<Rightarrow> (string \<times> string list) result" where
  "normalize_classification_path v =
     (let raw = (case v of PathText s \<Rightarrow> split_on slash s | PathSegments ss \<Rightarrow> ss) in
      raise_if (list_ex (\<lambda>s. strip s = []) raw) ClassificationErrorUnsafePath
      (let path = join_with [slash] raw in
       bind_result (validate_relative_path path) (\<lambda>_. Inr (path, raw))))"

section \<open>Rules and policies\<close>

record classification_rule =
  cr_id :: string
  cr_name :: string
  cr_library :: string
  cr_path :: string
  cr_priority :: int
  cr_enabled :: bool
  cr_prefix :: "string option"
  cr_types :: "media_type list"
  cr_genres :: "string list"
  cr_countries :: "string list"
  cr_languages :: "string list"
  cr_year_min :: "int option"
  cr_year_max :: "int option"
  cr_keywords :: "string list"
  cr_confidence :: rat

definition make_classification_rule :: "path_input \<Rightarrow> classification_rule \<Rightarrow> classification_rule result" where
  "make_classification_rule path r =
     raise_if (strip (cr_id r) = [] \<or> strip (cr_name r) = [] \<or> strip (cr_library r) = []) ClassificationErrorInvalidRule
     (raise_if (case (cr_year_min r, cr_year_max r) of (Some a, Some b) \<Rightarrow> b < a | _ \<Rightarrow> False) ClassificationErrorInvalidRule
     (raise_if (\<not> (0 \<le> cr_confidence r \<and> cr_confidence r \<le> 100)) ClassificationErrorInvalidRule
     (raise_if (list_ex (\<lambda>v. strip v = []) (cr_genres r @ cr_countries r @ cr_languages r @ cr_keywords r))
        ClassificationErrorInvalidRule
     (bind_result (normalize_classification_path path) (\<lambda>(p, _).
      case cr_prefix r of
        None \<Rightarrow> Inr (r\<lparr>cr_path := p\<rparr>)
      | Some l \<Rightarrow>
          raise_if (strip l = []) ClassificationErrorInvalidRule
          (bind_result (validate_relative_path l) (\<lambda>_. Inr (r\<lparr>cr_path := p\<rparr>))))))))"

definition rule_category :: "classification_rule \<Rightarrow> string" where
  "rule_category r = hd (split_on slash (cr_path r))"

definition rule_subcategory :: "classification_rule \<Rightarrow> string option" where
  "rule_subcategory r =
     (let rest = join_with [slash] (tl (split_on slash (cr_path r))) in if rest = [] then None else Some rest)"

definition rule_legacy :: "classification_rule \<Rightarrow> bool" where
  "rule_legacy r = (cr_prefix r \<noteq> None)"

record classification_policy =
  cp_id :: string
  cp_name :: string
  cp_rules :: "classification_rule list"
  cp_enabled :: bool

definition make_classification_policy :: "classification_policy \<Rightarrow> classification_policy result" where
  "make_classification_policy p =
     raise_if (strip (cp_id p) = [] \<or> strip (cp_name p) = []) ClassificationErrorInvalidPolicy
     (raise_if (\<not> distinct (map cr_id (cp_rules p))) ClassificationErrorInvalidPolicy (Inr p))"

fun make_classification_registry ::
  "(string \<rightharpoonup> classification_policy) \<Rightarrow> classification_policy list \<Rightarrow> (string \<rightharpoonup> classification_policy) result" where
  "make_classification_registry reg [] = Inr reg"
| "make_classification_registry reg (p # ps) =
     raise_if (reg (cp_id p) \<noteq> None) ClassificationErrorInvalidPolicy
       (make_classification_registry (reg(cp_id p \<mapsto> p)) ps)"

definition resolve_classification_policy ::
  "(string \<rightharpoonup> classification_policy) \<Rightarrow> string \<Rightarrow> classification_policy result" where
  "resolve_classification_policy reg k =
     (case reg k of
        None \<Rightarrow> Inl ClassificationErrorPolicyNotFound
      | Some p \<Rightarrow> raise_if (\<not> cp_enabled p) ClassificationErrorPolicyDisabled (Inr p))"

section \<open>Matching\<close>

record classification_context =
  cc_recognition_type :: recognition_type
  cc_identity :: media_identity
  cc_parsed :: parse_result

definition normalize_text :: "(string \<Rightarrow> string) \<Rightarrow> string \<Rightarrow> string" where
  "normalize_text nfkc s = strip (casefold (nfkc s))"

text \<open>The dictionary of the actual values keeps the last value of equal normal forms.\<close>

definition common_value :: "(string \<Rightarrow> string) \<Rightarrow> string list \<Rightarrow> string list \<Rightarrow> string option" where
  "common_value nfkc expected actual =
     (let table = map_of (rev (map (\<lambda>v. (normalize_text nfkc v, v)) actual)) in
      case find (\<lambda>v. table (normalize_text nfkc v) \<noteq> None) expected of
        None \<Rightarrow> None | Some v \<Rightarrow> table (normalize_text nfkc v))"

definition haystack :: "(string \<Rightarrow> string) \<Rightarrow> classification_context \<Rightarrow> string" where
  "haystack nfkc c =
     (let m = cc_identity c; p = cc_parsed c;
          or_empty = (\<lambda>v. case v of None \<Rightarrow> [] | Some s \<Rightarrow> s) in
      join_with '' '' (map (normalize_text nfkc)
        ([mi_title m, or_empty (mi_original_title m)] @ mi_alternative_titles m @ mi_translated_titles m @
         [or_empty (mi_overview m)] @ mi_keywords m @ [pr_title p] @ pr_titles p)))"

definition matched_keyword :: "(string \<Rightarrow> string) \<Rightarrow> string list \<Rightarrow> classification_context \<Rightarrow> string option" where
  "matched_keyword nfkc expected c = find (\<lambda>k. occurs_in (normalize_text nfkc k) (haystack nfkc c)) expected"

text \<open>
  A condition that is set either rules the medium out (\<open>None\<close>) or adds its evidence; a condition that
  is not set adds nothing.
\<close>

definition check_types :: "classification_rule \<Rightarrow> media_identity \<Rightarrow> string list option" where
  "check_types r m =
     (if cr_types r = [] then Some []
      else if mi_type m \<notin> set (cr_types r) then None else Some [''media_type='' @ media_type_value (mi_type m)])"

definition check_values ::
  "(string \<Rightarrow> string) \<Rightarrow> string \<Rightarrow> string list \<Rightarrow> string list \<Rightarrow> string list option" where
  "check_values nfkc name expected actual =
     (if expected = [] then Some []
      else case common_value nfkc expected actual of None \<Rightarrow> None | Some v \<Rightarrow> Some [name @ ''='' @ v])"

definition check_year :: "(int \<Rightarrow> int \<Rightarrow> bool) \<Rightarrow> string \<Rightarrow> int option \<Rightarrow> int option \<Rightarrow> string list option" where
  "check_year bad name bound year =
     (case bound of
        None \<Rightarrow> Some []
      | Some b \<Rightarrow> (case year of None \<Rightarrow> None | Some y \<Rightarrow> if bad y b then None else Some [name @ show_int b]))"

definition check_keywords ::
  "(string \<Rightarrow> string) \<Rightarrow> string list \<Rightarrow> classification_context \<Rightarrow> string list option" where
  "check_keywords nfkc expected c =
     (if expected = [] then Some []
      else case matched_keyword nfkc expected c of None \<Rightarrow> None | Some k \<Rightarrow> Some [''keyword='' @ k])"

text \<open>The conditions in order; the first that fails ends the match.\<close>

fun all_checks :: "string list option list \<Rightarrow> string list option" where
  "all_checks [] = Some []"
| "all_checks (x # xs) =
     (case x of None \<Rightarrow> None | Some e \<Rightarrow> (case all_checks xs of None \<Rightarrow> None | Some es \<Rightarrow> Some (e @ es)))"

definition rule_matches ::
  "(string \<Rightarrow> string) \<Rightarrow> classification_context \<Rightarrow> classification_rule \<Rightarrow> string list option" where
  "rule_matches nfkc c r =
     (let m = cc_identity c in
      all_checks
        [check_types r m,
         check_values nfkc ''genre'' (cr_genres r) (mi_genres m),
         check_values nfkc ''country'' (cr_countries r) (mi_countries m),
         check_values nfkc ''language'' (cr_languages r) (mi_languages m),
         check_year (\<lambda>y b. y < b) ''year>='' (cr_year_min r) (mi_year m),
         check_year (\<lambda>y b. b < y) ''year<='' (cr_year_max r) (mi_year m),
         check_keywords nfkc (cr_keywords r) c])"

section \<open>The engine\<close>

datatype classification_status = Classified | Unclassified

record classification_result =
  co_library :: string
  co_path :: string
  co_policy :: string
  co_recognition_type :: string
  co_status :: classification_status
  co_rule :: "string option"
  co_rule_name :: "string option"
  co_prefix :: "string option"
  co_category :: "string option"
  co_subcategory :: "string option"
  co_confidence :: rat
  co_evidence :: "string list"
  co_warnings :: "string list"
  co_legacy :: bool

definition destination_prefix :: "classification_result \<Rightarrow> string option" where
  "destination_prefix c = (if co_legacy c then co_prefix c else None)"

definition result_for_rule ::
  "classification_rule \<Rightarrow> string \<Rightarrow> string \<Rightarrow> string list \<Rightarrow> classification_result" where
  "result_for_rule r policy_id type_id evidence =
     \<lparr>co_library = cr_library r, co_path = cr_path r, co_policy = policy_id, co_recognition_type = type_id,
      co_status = Classified, co_rule = Some (cr_id r), co_rule_name = Some (cr_name r), co_prefix = cr_prefix r,
      co_category = Some (rule_category r), co_subcategory = rule_subcategory r, co_confidence = cr_confidence r,
      co_evidence = evidence, co_warnings = [], co_legacy = rule_legacy r\<rparr>"

definition unclassified :: "string \<Rightarrow> string \<Rightarrow> classification_result" where
  "unclassified policy_id type_id =
     \<lparr>co_library = [], co_path = [], co_policy = policy_id, co_recognition_type = type_id,
      co_status = Unclassified, co_rule = None, co_rule_name = None, co_prefix = None, co_category = None,
      co_subcategory = None, co_confidence = 0, co_evidence = [],
      co_warnings = [''no classification rule matched''], co_legacy = False\<rparr>"

definition rule_before :: "classification_rule \<times> string list \<Rightarrow> classification_rule \<times> string list \<Rightarrow> bool" where
  "rule_before = ranked_before (cr_priority \<circ> fst) (cr_id \<circ> fst)"

definition matching_rules ::
  "(string \<Rightarrow> string) \<Rightarrow> classification_context \<Rightarrow> classification_rule list \<Rightarrow> (classification_rule \<times> string list) list" where
  "matching_rules nfkc c rs =
     map (\<lambda>r. (r, the (rule_matches nfkc c r)))
       (filter (\<lambda>r. cr_enabled r \<and> rule_matches nfkc c r \<noteq> None) rs)"

definition classify ::
  "(string \<Rightarrow> string) \<Rightarrow> classification_context \<Rightarrow> classification_policy \<Rightarrow> classification_result result" where
  "classify nfkc c p =
     raise_if (\<not> cp_enabled p) ClassificationErrorPolicyDisabled
     (let type_id = rt_id (cc_recognition_type c) in
      Inr (case sort_by rule_before (matching_rules nfkc c (cp_rules p)) of
             [] \<Rightarrow> unclassified (cp_id p) type_id
           | (r, evidence) # _ \<Rightarrow> result_for_rule r (cp_id p) type_id evidence))"

definition preview_classification ::
  "(string \<Rightarrow> string) \<Rightarrow> (string \<rightharpoonup> classification_policy) \<Rightarrow> classification_context \<Rightarrow> string \<Rightarrow>
    classification_result result" where
  "preview_classification nfkc reg c k = bind_result (resolve_classification_policy reg k) (classify nfkc c)"

definition select_configured_rule ::
  "(string \<rightharpoonup> classification_policy) \<Rightarrow> classification_context \<Rightarrow> string \<Rightarrow> string \<Rightarrow> classification_result result" where
  "select_configured_rule reg c k rule_id =
     bind_result (resolve_classification_policy reg k) (\<lambda>p.
     case find (\<lambda>r. cr_enabled r \<and> cr_id r = rule_id) (cp_rules p) of
       None \<Rightarrow> Inl ClassificationErrorInvalidRule
     | Some r \<Rightarrow>
         Inr (result_for_rule r (cp_id p) (rt_id (cc_recognition_type c))
                [''manual configured rule='' @ cr_id r]))"

end
