(* ===== verification/Organize_Plan.thy ===== *)
theory Organize_Plan
  imports Naming Classification
begin

text \<open>
  \<open>domain/organizer.py\<close>, the planner and the plan checks of \<open>application/organizer.py\<close>,
  \<open>application/attachments.py\<close> and \<open>application/conflict_resolution.py\<close>: a plan for one source, what is
  observed against it, its attachments and its replacement when it conflicts. A storage is the function
  \<open>exists\<close> it answers with; SHA-256 of a text is the parameter \<open>digest\<close>.
\<close>

section \<open>Policies and locations\<close>

datatype organize_operation = OpCreateDirectory | OpMove | OpCopy | OpHardLink | OpSoftLink | OpDelete

datatype plan_operation =
  DoMove | DoCopy | DoLink | DoNoop | DoSkip | DoCreateDirectory | DoWrite | DoRename | DoDelete

datatype plan_status = PlanReady | PlanConflict | PlanNoop | PlanInvalid

datatype conflict_type = DestinationExists | TargetCollision | DuplicateMedia | InvalidDestination | UnknownConflict

record conflict =
  cf_type :: conflict_type
  cf_source :: string
  cf_destination :: string
  cf_details :: string

datatype conflict_strategy = SkipConflict | OverwriteConflict | RenameConflict | ManualConflict

record rollback_policy =
  rb_enabled :: bool
  rb_directories :: bool

datatype cleanup_mode = CleanupNone | CleanupEmpty | CleanupIgnorable

record cleanup_policy =
  cl_mode :: cleanup_mode
  cl_parents :: int
  cl_patterns :: "string list"
  cl_entries :: int

definition make_cleanup_policy :: "cleanup_policy \<Rightarrow> cleanup_policy result" where
  "make_cleanup_policy p =
     raise_if (\<not> (1 \<le> cl_parents p \<and> cl_parents p \<le> 10)) ValueError
     (raise_if (\<not> (1 \<le> cl_entries p \<and> cl_entries p \<le> 1000)) ValueError
     (raise_if (32 < length (cl_patterns p)) ValueError
     (raise_if (list_ex (\<lambda>t. t = [] \<or> 128 < length t \<or> slash \<in> set t \<or> backslash \<in> set t \<or> nul \<in> set t \<or>
         t = ''*'' \<or> t = ''**'') (cl_patterns p)) ValueError
     (raise_if (cl_mode p \<noteq> CleanupIgnorable \<and> cl_patterns p \<noteq> []) ValueError
     (raise_if (cl_mode p = CleanupIgnorable \<and> cl_patterns p = []) ValueError (Inr p))))))"

record organize_policy =
  op_id :: string
  op_operation :: organize_operation
  op_strategy :: conflict_strategy
  op_rollback :: rollback_policy
  op_cleanup :: cleanup_policy

record location =
  lo_storage :: string
  lo_path :: string

definition make_location :: "string \<Rightarrow> string \<Rightarrow> location result" where
  "make_location storage path =
     raise_if (strip storage = [] \<or> strip path = []) ValueError
     (raise_if (starts_with ''/'' path \<or> starts_with [backslash] path \<or> backslash \<in> set path \<or> nul \<in> set path) ValueError
     (raise_if (list_ex unsafe_part (split_on slash path)) ValueError
       (Inr \<lparr>lo_storage = storage, lo_path = path\<rparr>)))"

record media_library =
  ml_id :: string
  ml_storage :: string
  ml_root :: string

text \<open>\<open>RecognitionTypePolicy\<close>: what a recognition type selects for the later stages.\<close>

record type_policy =
  tp_id :: string
  tp_type :: recognition_type
  tp_metadata :: string
  tp_naming :: string
  tp_classification :: string
  tp_organize :: organize_policy
  tp_enabled :: bool

definition make_type_policy :: "type_policy \<Rightarrow> type_policy result" where
  "make_type_policy p =
     raise_if (list_ex (\<lambda>s. strip s = [])
       [tp_id p, rt_id (tp_type p), tp_metadata p, tp_naming p, tp_classification p, op_id (tp_organize p)])
       ValueError (Inr p)"

section \<open>Plans\<close>

datatype attachment_type = Subtitle | Nfo | Poster | Fanart | Trailer | ImageFile | OtherFile

record attachment =
  ma_source :: location
  ma_type :: attachment_type
  ma_suffix :: string
  ma_language :: "string option"

record attachment_plan =
  at_source :: location
  at_destination :: location
  at_type :: attachment_type
  at_operation :: plan_operation
  at_suffix :: string
  at_language :: "string option"
  at_blocked :: "string option"

record plan =
  pl_source_storage :: string
  pl_target_storage :: string
  pl_source :: string
  pl_target :: string
  pl_recognition_type :: string
  pl_naming_policy :: string
  pl_classification_policy :: string
  pl_organize_policy :: string
  pl_operation :: plan_operation
  pl_identity :: "media_identity option"
  pl_naming :: naming_result
  pl_classification :: classification_result
  pl_warnings :: "string list"
  pl_conflicts :: "conflict list"
  pl_status :: plan_status
  pl_id :: string
  pl_link :: "organize_operation option"
  pl_root :: string
  pl_relative :: string
  pl_source_location :: "location option"
  pl_destination_location :: "location option"
  pl_overwrite :: bool
  pl_attachments :: "attachment_plan list"
  pl_rollback :: rollback_policy
  pl_source_root :: string
  pl_cleanup :: cleanup_policy

definition plan_digest :: "(string \<Rightarrow> string) \<Rightarrow> string \<Rightarrow> string \<Rightarrow> string \<Rightarrow> string \<Rightarrow> string" where
  "plan_digest digest a b c d = take 20 (digest (join_with [nul] [a, b, c, d]))"

fun plan_operation_of :: "organize_operation \<Rightarrow> plan_operation" where
  "plan_operation_of OpMove = DoMove"
| "plan_operation_of OpCopy = DoCopy"
| "plan_operation_of OpHardLink = DoLink"
| "plan_operation_of OpSoftLink = DoLink"
| "plan_operation_of _ = DoSkip"

definition normalize_path :: "string \<Rightarrow> string" where
  "normalize_path s = normpath (replace_char backslash slash s)"

definition same_location :: "string \<Rightarrow> string \<Rightarrow> string \<Rightarrow> string \<Rightarrow> bool" where
  "same_location a s b t = (a = b \<and> normalize_path s = normalize_path t)"

definition safe_source_root :: "string \<Rightarrow> string" where
  "safe_source_root v =
     (if v = [] then []
      else let n = normpath (strip_chars ''/'' v) in if unsafe_relative_path n then [] else n)"

section \<open>The planner\<close>

text \<open>Known media are looked up by the whole identity first, then by the provider's own.\<close>

datatype media_key =
    IdentityKey string string string "int option" "int list"
  | ProviderKey string string

definition identity_key :: "media_identity \<Rightarrow> media_key" where
  "identity_key m =
     (let es = (if mi_episodes m \<noteq> [] then mi_episodes m else case mi_episode m of None \<Rightarrow> [] | Some e \<Rightarrow> [e]) in
      IdentityKey (casefold (mi_provider m)) (mi_provider_id m) (media_type_value (mi_type m)) (mi_season m)
        (sort (remdups es)))"

record plan_request =
  rq_source_storage :: string
  rq_source :: string
  rq_source_path :: "string option"
  rq_source_root :: string
  rq_recognized :: "recognition_type option"
  rq_policy :: type_policy
  rq_library :: media_library
  rq_naming :: naming_result
  rq_classification :: classification_result
  rq_identity :: "media_identity option"

definition request_composition :: "plan_request \<Rightarrow> composition" where
  "request_composition q =
     compose_destination (ml_root (rq_library q)) (co_path (rq_classification q)) (nr_directory (rq_naming q))
       (nr_segments (rq_naming q)) (nr_filename (rq_naming q)) (destination_prefix (rq_classification q))"

text \<open>\<open>_result\<close>: both locations are optional, and building them may itself raise.\<close>

definition optional_location :: "bool \<Rightarrow> string \<Rightarrow> string \<Rightarrow> location option result" where
  "optional_location wanted storage path =
     (if wanted then bind_result (make_location storage path) (\<lambda>l. Inr (Some l)) else Inr None)"

definition plan_result ::
  "(string \<Rightarrow> string) \<Rightarrow> plan_request \<Rightarrow> string \<Rightarrow> plan_operation \<Rightarrow> plan_status \<Rightarrow> conflict list \<Rightarrow>
    string option \<Rightarrow> plan result" where
  "plan_result digest q target operation status conflicts source_path =
     (let l = rq_library q; p = rq_policy q; policy = tp_organize p;
          source_path = (case source_path of None \<Rightarrow> [] | Some s \<Rightarrow> s) in
      bind_result (optional_location (source_path \<noteq> [] \<and> \<not> unsafe_relative_path source_path)
        (rq_source_storage q) source_path) (\<lambda>source_location.
      bind_result (optional_location (target \<noteq> [] \<and> \<not> starts_with ''/'' target \<and> \<not> unsafe_relative_path target)
        (ml_storage l) target) (\<lambda>destination_location.
      Inr \<lparr>pl_source_storage = rq_source_storage q, pl_target_storage = ml_storage l, pl_source = rq_source q,
           pl_target = (if starts_with ''./'' target \<and> ml_root l = ''.'' then drop 2 target else target),
           pl_recognition_type = rt_id (tp_type p), pl_naming_policy = tp_naming p,
           pl_classification_policy = tp_classification p, pl_organize_policy = op_id policy,
           pl_operation = operation, pl_identity = rq_identity q, pl_naming = rq_naming q,
           pl_classification = rq_classification q, pl_warnings = [], pl_conflicts = conflicts, pl_status = status,
           pl_id = plan_digest digest (rq_source_storage q) (rq_source q) (ml_storage l) target,
           pl_link = (if op_operation policy \<in> {OpHardLink, OpSoftLink} then Some (op_operation policy) else None),
           pl_root = ml_root l,
           pl_relative = (if target \<noteq> [] then dc_relative (request_composition q) else []),
           pl_source_location = source_location, pl_destination_location = destination_location,
           pl_overwrite = False, pl_attachments = [], pl_rollback = op_rollback policy,
           pl_source_root = safe_source_root (rq_source_root q), pl_cleanup = op_cleanup policy\<rparr>)))"

text \<open>The observations in order: the target exists, another source claims it, the medium is known.\<close>

fun storage_code :: "pyerr \<Rightarrow> string option" where
  "storage_code (StorageError c) = Some c"
| "storage_code _ = None"

definition destination_conflicts :: "(string \<Rightarrow> bool result) option \<Rightarrow> string \<Rightarrow> string \<Rightarrow> conflict list result" where
  "destination_conflicts storage source target =
     (case storage of
        None \<Rightarrow> Inr []
      | Some exists \<Rightarrow>
          (case exists target of
             Inl e \<Rightarrow>
               (case storage_code e of
                  None \<Rightarrow> Inl e
                | Some reason \<Rightarrow>
                    Inr [\<lparr>cf_type = UnknownConflict, cf_source = source, cf_destination = target,
                          cf_details = ''destination existence could not be determined: '' @ reason\<rparr>])
           | Inr b \<Rightarrow>
               Inr (if b then [\<lparr>cf_type = DestinationExists, cf_source = source, cf_destination = target,
                               cf_details = ''target exists''\<rparr>] else [])))"

definition collision_conflicts :: "(string \<rightharpoonup> string) \<Rightarrow> string \<Rightarrow> string \<Rightarrow> conflict list" where
  "collision_conflicts claimed source target =
     (case claimed target of
        None \<Rightarrow> []
      | Some other \<Rightarrow>
          if normalize_path other = normalize_path source then []
          else [\<lparr>cf_type = TargetCollision, cf_source = source, cf_destination = target,
                 cf_details = ''also claimed by '' @ other\<rparr>])"

definition duplicate_conflicts :: "(media_key \<rightharpoonup> string) \<Rightarrow> media_identity option \<Rightarrow> string \<Rightarrow> string \<Rightarrow> conflict list" where
  "duplicate_conflicts known identity source target =
     (case identity of
        None \<Rightarrow> []
      | Some m \<Rightarrow>
          (case (case known (identity_key m) of
                   Some d \<Rightarrow> Some d | None \<Rightarrow> known (ProviderKey (casefold (mi_provider m)) (mi_provider_id m))) of
             None \<Rightarrow> []
           | Some d \<Rightarrow> [\<lparr>cf_type = DuplicateMedia, cf_source = source, cf_destination = target,
                         cf_details = ''existing media at '' @ d\<rparr>]))"

definition make_plan ::
  "(string \<Rightarrow> string) \<Rightarrow> (string \<Rightarrow> bool result) option \<Rightarrow> (string \<rightharpoonup> string) \<Rightarrow> (media_key \<rightharpoonup> string) \<Rightarrow>
    plan_request \<Rightarrow> plan result" where
  "make_plan digest storage claimed known q =
     raise_if (rq_recognized q \<noteq> Some (tp_type (rq_policy q))) PlanningError
     (raise_if (co_library (rq_classification q) \<noteq> ml_id (rq_library q)) PlanningError
     (raise_if (rq_source q = [] \<or> nr_filename (rq_naming q) = []) PlanningError
     (let c = request_composition q; source = rq_source q in
      if \<not> dc_safe c then
        plan_result digest q [] DoSkip PlanInvalid
          [\<lparr>cf_type = InvalidDestination, cf_source = source, cf_destination = [],
            cf_details = ''destination contains an absolute, traversal, or invalid component''\<rparr>] None
      else
        let target = dc_target c;
            storage_source = (case rq_source_path q of None \<Rightarrow> source | Some s \<Rightarrow> if s = [] then source else s) in
        if same_location (rq_source_storage q) storage_source (ml_storage (rq_library q)) target then
          plan_result digest q target DoNoop PlanNoop [] (rq_source_path q)
        else
          bind_result (destination_conflicts storage source target) (\<lambda>found.
          let conflicts = found @ collision_conflicts claimed source target @
                duplicate_conflicts known (rq_identity q) source target in
          plan_result digest q target (plan_operation_of (op_operation (tp_organize (rq_policy q))))
            (if conflicts \<noteq> [] then PlanConflict else PlanReady) conflicts (rq_source_path q)))))"

section \<open>Attachments\<close>

definition attachment_filename :: "string \<Rightarrow> attachment_type \<Rightarrow> string \<Rightarrow> string \<Rightarrow> string" where
  "attachment_filename named_stem t suffix source_path =
     (let extension = casefold (snd (path_splitext source_path)) in
      case t of
        Subtitle \<Rightarrow> named_stem @ suffix @ extension
      | Nfo \<Rightarrow> named_stem @ ''.nfo''
      | Poster \<Rightarrow> ''poster'' @ extension
      | Fanart \<Rightarrow> ''fanart'' @ extension
      | Trailer \<Rightarrow> named_stem @ ''-trailer'' @ extension
      | _ \<Rightarrow> named_stem @ suffix @ extension)"

definition invalid_plan :: "plan \<Rightarrow> string \<Rightarrow> plan" where
  "invalid_plan p details =
     p\<lparr>pl_conflicts := pl_conflicts p @ [\<lparr>cf_type = InvalidDestination, cf_source = pl_source p,
        cf_destination = pl_target p, cf_details = details\<rparr>], pl_status := PlanInvalid\<rparr>"

text \<open>\<open>taken\<close> holds the folded destinations so far; a collision blocks the attachment, not the plan.\<close>

definition blocked_at ::
  "(string \<Rightarrow> bool result) option \<Rightarrow> string \<Rightarrow> string list \<Rightarrow> string option result" where
  "blocked_at storage path taken =
     (let blocked = (if casefold path \<in> set taken then Some ''attachment_collision'' else None) in
      case storage of
        None \<Rightarrow> Inr blocked
      | Some exists \<Rightarrow>
          (case exists path of
             Inl e \<Rightarrow> (case storage_code e of None \<Rightarrow> Inl e | Some _ \<Rightarrow> Inr (Some ''storage_unavailable''))
           | Inr b \<Rightarrow> Inr (if b then Some ''attachment_collision'' else blocked)))"

text \<open>The attachments in order; \<open>None\<close> is an unsafe destination.\<close>

fun plan_attachments ::
  "(string \<Rightarrow> bool result) option \<Rightarrow> plan \<Rightarrow> string \<Rightarrow> string \<Rightarrow> string list \<Rightarrow> attachment list \<Rightarrow>
    (attachment_plan list \<times> string list) option result" where
  "plan_attachments storage p parent stem taken [] = Inr (Some ([], []))"
| "plan_attachments storage p parent stem taken (a # as) =
     (let path = path_join parent [attachment_filename stem (ma_type a) (ma_suffix a) (lo_path (ma_source a))] in
      case make_location (pl_target_storage p) path of
        Inl _ \<Rightarrow> Inr None
      | Inr destination \<Rightarrow>
          bind_result (blocked_at storage path taken) (\<lambda>blocked.
          bind_result (plan_attachments storage p parent stem (casefold path # taken) as) (\<lambda>rest.
          Inr (case rest of
                  None \<Rightarrow> None
                | Some (planned, warnings) \<Rightarrow>
                    Some (\<lparr>at_source = ma_source a, at_destination = destination, at_type = ma_type a,
                           at_operation = pl_operation p, at_suffix = ma_suffix a, at_language = ma_language a,
                           at_blocked = blocked\<rparr> # planned,
                          (case blocked of None \<Rightarrow> [] | Some r \<Rightarrow> [r @ '': '' @ path]) @ warnings)))))"

definition add_attachments :: "(string \<Rightarrow> bool result) option \<Rightarrow> plan \<Rightarrow> attachment list \<Rightarrow> plan result" where
  "add_attachments storage p as =
     (if as = [] then Inr p
      else case (pl_destination_location p, pl_source_location p) of
        (Some d, Some _) \<Rightarrow>
          (let stem = fst (path_splitext (path_basename (lo_path d))) in
           bind_result (plan_attachments storage p (path_dirname (lo_path d)) stem [casefold (lo_path d)] as) (\<lambda>r.
           Inr (case r of
                  None \<Rightarrow> invalid_plan p ''attachment destination is unsafe''
                | Some (planned, warnings) \<Rightarrow>
                    p\<lparr>pl_attachments := planned, pl_warnings := pl_warnings p @ warnings,
                      pl_status := (if pl_conflicts p \<noteq> [] then PlanConflict else pl_status p)\<rparr>)))
      | _ \<Rightarrow> Inr (invalid_plan p ''attachment planning requires portable Storage locations''))"

section \<open>Conflicts\<close>

definition retarget_attachment :: "plan \<Rightarrow> string \<Rightarrow> attachment_plan \<Rightarrow> attachment_plan result" where
  "retarget_attachment p target a =
     (let stem = fst (path_splitext (path_basename target));
          name = attachment_filename stem (at_type a) (at_suffix a) (lo_path (at_source a)) in
      bind_result (make_location (pl_target_storage p) (path_join (path_dirname target) [name])) (\<lambda>l.
      Inr (a\<lparr>at_destination := l\<rparr>)))"

text \<open>\<open>any(exists(p) for p in paths)\<close> stops at the first that exists; asking may raise.\<close>

fun any_exists :: "(string \<Rightarrow> bool result) \<Rightarrow> string list \<Rightarrow> bool result" where
  "any_exists exists [] = Inr False"
| "any_exists exists (p # ps) =
     bind_result (exists p) (\<lambda>b. if b then Inr True else any_exists exists ps)"

definition renamed :: "string \<Rightarrow> nat \<Rightarrow> string" where
  "renamed relative n =
     (let (stem, extension) = path_splitext (path_basename relative) in
      path_join (path_dirname relative) [stem @ '' ('' @ show_nat n @ '')'' @ extension])"

definition renamed_target :: "plan \<Rightarrow> nat \<Rightarrow> string" where
  "renamed_target p n = path_join (pl_root p) [renamed (pl_relative p) n]"

text \<open>The attempts from number \<open>n\<close> on, \<open>k\<close> of them.\<close>

fun rename_attempts :: "(string \<Rightarrow> string) \<Rightarrow> (string \<Rightarrow> bool result) \<Rightarrow> plan \<Rightarrow> nat \<Rightarrow> nat \<Rightarrow> plan result" where
  "rename_attempts digest exists p n 0 = Inl ConflictResolutionError"
| "rename_attempts digest exists p n (Suc k) =
     (let target = renamed_target p n in
      bind_result (map_result (retarget_attachment p target) (pl_attachments p)) (\<lambda>attachments.
      bind_result (any_exists exists (target # map (lo_path \<circ> at_destination) attachments)) (\<lambda>taken.
      if taken then rename_attempts digest exists p (Suc n) k
      else bind_result (make_location (pl_target_storage p) target) (\<lambda>l.
        Inr (p\<lparr>pl_target := target, pl_relative := renamed (pl_relative p) n, pl_destination_location := Some l,
               pl_conflicts := [], pl_status := PlanReady,
               pl_id := plan_digest digest (pl_source_storage p) (pl_source p) (pl_target_storage p) target,
               pl_attachments := attachments\<rparr>)))))"

definition max_rename_attempts :: nat where
  "max_rename_attempts = 1000"

definition rename_plan :: "(string \<Rightarrow> string) \<Rightarrow> (string \<Rightarrow> bool result) \<Rightarrow> plan \<Rightarrow> plan result" where
  "rename_plan digest exists p =
     raise_if (pl_target p = [] \<or> pl_relative p = []) ConflictResolutionError
     (raise_if (fst (path_splitext (path_basename (pl_relative p))) = [] \<or>
         list_ex unsafe_part (split_on slash (pl_relative p))) ConflictResolutionError
     (rename_attempts digest exists p 1 max_rename_attempts))"

definition apply_configured ::
  "(string \<Rightarrow> string) \<Rightarrow> (string \<Rightarrow> bool result) \<Rightarrow> plan \<Rightarrow> organize_policy \<Rightarrow> plan option result" where
  "apply_configured digest exists p policy =
     (if pl_conflicts p = [] then Inr (Some p)
      else if list_ex (\<lambda>c. cf_type c = InvalidDestination) (pl_conflicts p) then Inr None
      else if op_strategy policy = SkipConflict
      then Inr (Some (p\<lparr>pl_operation := DoSkip, pl_status := PlanNoop, pl_conflicts := []\<rparr>))
      else if op_strategy policy = RenameConflict
      then bind_result (rename_plan digest exists p) (\<lambda>r. Inr (Some r))
      else Inr None)"

definition overwrite_plan :: "plan \<Rightarrow> organize_policy \<Rightarrow> bool \<Rightarrow> plan result" where
  "overwrite_plan p policy confirmed =
     raise_if (op_strategy policy \<noteq> OverwriteConflict) ConflictResolutionError
     (raise_if (\<not> confirmed) ConflictResolutionError
     (raise_if (pl_conflicts p = [] \<or>
         list_ex (\<lambda>c. cf_type c \<notin> {DestinationExists, TargetCollision}) (pl_conflicts p)) ConflictResolutionError
     (Inr (p\<lparr>pl_conflicts := [], pl_status := PlanReady, pl_overwrite := True\<rparr>))))"

section \<open>Checks before a plan is executed\<close>

definition operation_text :: "plan_operation \<Rightarrow> string" where
  "operation_text o' =
     (case o' of DoMove \<Rightarrow> ''MOVE'' | DoCopy \<Rightarrow> ''COPY'' | DoLink \<Rightarrow> ''LINK'' | DoNoop \<Rightarrow> ''NOOP''
      | DoSkip \<Rightarrow> ''SKIP'' | DoCreateDirectory \<Rightarrow> ''CREATE_DIRECTORY'' | DoWrite \<Rightarrow> ''WRITE''
      | DoRename \<Rightarrow> ''RENAME'' | DoDelete \<Rightarrow> ''DELETE'')"

definition location_path :: "location option \<Rightarrow> string \<Rightarrow> string" where
  "location_path l fallback = (case l of None \<Rightarrow> fallback | Some x \<Rightarrow> lo_path x)"

definition attachment_error :: "plan \<Rightarrow> attachment_plan \<Rightarrow> string option" where
  "attachment_error p a =
     (if at_operation a \<noteq> pl_operation p then Some ''attachment operation does not match the primary operation''
      else if lo_storage (at_source a) \<noteq> pl_source_storage p
      then Some ''attachment references a different source Storage''
      else if lo_storage (at_destination a) \<noteq> pl_target_storage p
      then Some ''attachment references a different destination Storage''
      else if path_dirname (lo_path (at_source a)) \<noteq> path_dirname (location_path (pl_source_location p) (pl_source p))
      then Some ''attachment source must share the primary source directory''
      else if path_dirname (lo_path (at_destination a)) \<noteq>
              path_dirname (location_path (pl_destination_location p) (pl_target p))
      then Some ''attachment destination must share the primary destination directory''
      else None)"

fun first_error :: "('a \<Rightarrow> string option) \<Rightarrow> 'a list \<Rightarrow> string option" where
  "first_error f [] = None"
| "first_error f (x # xs) = (case f x of None \<Rightarrow> first_error f xs | Some e \<Rightarrow> Some e)"

definition plan_validation_error :: "plan \<Rightarrow> string option" where
  "plan_validation_error p =
     (if pl_status p = PlanInvalid \<or> pl_target p = [] then Some ''invalid destination''
      else if pl_conflicts p \<noteq> [] \<or> pl_status p = PlanConflict then Some ''plan has unresolved conflicts''
      else if pl_operation p \<in> {DoNoop, DoSkip} then Some (''plan operation is '' @ operation_text (pl_operation p))
      else if nul \<in> set (pl_target p) \<or> backslash \<in> set (pl_target p) \<or>
              list_ex unsafe_part (split_on slash (dropWhile (\<lambda>c. c = slash) (pl_target p)))
      then Some ''invalid destination''
      else first_error (attachment_error p) (pl_attachments p))"

definition resolved_execution_target :: "plan \<Rightarrow> string option" where
  "resolved_execution_target p =
     (if pl_root p = [] \<and> pl_relative p = [] then None
      else case safe_destination_root (pl_root p) of
        None \<Rightarrow> Some []
      | Some r \<Rightarrow>
          if unsafe_relative_path (pl_relative p) then Some []
          else if r = ''.'' then Some (pl_relative p) else Some (path_join r [pl_relative p]))"

end
