(* ===== verification/Naming_Facts.thy ===== *)
theory Naming_Facts
  imports Naming Destination
begin

text \<open>
  What the sanitizer and the engine of \<open>Naming\<close> guarantee: the characters of a sanitized component,
  its length, and that every segment of a name is one safe component of a path.
\<close>

section \<open>Characters\<close>

lemma set_sub_from:
  "set (sub_from r ahead repl s i) \<subseteq> set s \<union> (\<Union>m \<in> {m. set m \<subseteq> set s}. set (repl m))"
proof (induction r ahead repl s i rule: sub_from.induct)
  case (1 r ahead repl s i)
  show ?case
  proof (cases "length s \<le> i")
    case True
    then show ?thesis by (simp add: sub_from.simps [of r ahead repl s i])
  next
    case False
    have sl: "set (take (e - i) (drop i s)) \<subseteq> set s" for e
      by (meson set_drop_subset set_take_subset subset_trans)
    show ?thesis
    proof (cases "find (\<lambda>e. ahead (drop e s)) (match_ends r s i)")
      case None
      with False "1.IH"(1) [OF False None] show ?thesis by (simp add: sub_from.simps [of r ahead repl s i])
    next
      case (Some e)
      show ?thesis
      proof (cases "i < e")
        case True
        from "1.IH"(2) [OF False Some True] sl [of e] show ?thesis
          using False Some True by (auto simp: sub_from.simps [of r ahead repl s i])
      next
        case f: False
        from "1.IH"(3) [OF False Some f] show ?thesis
          using False Some f by (auto simp: sub_from.simps [of r ahead repl s i])
      qed
    qed
  qed
qed

lemma set_re_sub: "set (re_sub r repl s) \<subseteq> set s \<union> set repl"
  using set_sub_from [of r "\<lambda>_. True" "\<lambda>_. repl" s 0] by (auto simp: re_sub_def re_sub_ahead_def split: if_splits)

definition clean_char :: "char \<Rightarrow> bool" where
  "clean_char c = (\<not> control_char c \<and> c \<noteq> CHR '':'' \<and> c \<notin> set forbidden_chars)"

lemma not_clean: "\<not> clean_char slash" "\<not> clean_char backslash" "\<not> clean_char nul" "\<not> clean_char (CHR '':'')"
  by (simp_all add: clean_char_def forbidden_chars_def control_char_def nul_def code_def)

lemma clean_chars: "clean_char (CHR '' '')" "clean_char (CHR ''-'')" "clean_char (CHR ''_'')"
  by (simp_all add: clean_char_def forbidden_chars_def control_char_def code_def slash_def backslash_def)

lemma set_replaced: "set (map (\<lambda>c. if P c then y else c) s) \<subseteq> {c \<in> set s. \<not> P c} \<union> {y}"
  by auto

lemma set_expanded: "set (concat (map (\<lambda>c. if c = x then r else [c]) s)) \<subseteq> {c \<in> set s. c \<noteq> x} \<union> set r"
  by (induction s) auto

lemma plain_text_clean: "\<forall>c \<in> set (plain_text nfc s). clean_char c"
proof -
  let ?a = "map (\<lambda>c. if control_char c then CHR '' '' else c) (nfc s)"
  let ?b = "concat (map (\<lambda>c. if c = CHR '':'' then '' -'' else [c]) ?a)"
  let ?c = "map (\<lambda>c. if c \<in> set forbidden_chars then CHR '' '' else c) ?b"
  have a: "set ?a \<subseteq> {c. \<not> control_char c} \<union> {CHR '' ''}" by (rule order_trans [OF set_replaced]) auto
  have b: "set ?b \<subseteq> {c. \<not> control_char c \<and> c \<noteq> CHR '':''} \<union> set '' -''"
    by (rule order_trans [OF set_expanded]) (use a in auto)
  have c: "set ?c \<subseteq> {c. clean_char c} \<union> set '' -''"
    by (rule order_trans [OF set_replaced]) (use b in \<open>auto simp: clean_char_def\<close>)
  have "set (plain_text nfc s) \<subseteq> set ?c \<union> set '' ''"
    unfolding plain_text_def Let_def by (rule order_trans [OF set_strip_chars set_re_sub])
  with c clean_chars show ?thesis by auto
qed

lemma set_rstrip: "set (rstrip s) \<subseteq> set s" and set_lstrip: "set (lstrip s) \<subseteq> set s"
  by (auto simp: rstrip_def lstrip_def dest!: set_dropWhileD)

lemma set_last_split: "set (before_last c s) \<subseteq> set s" "set (after_last c s) \<subseteq> set s"
  by (auto simp: before_last_def after_last_def dest!: set_takeWhileD in_set_takeD)

lemma truncated_text_set: "set (truncated_text dots stem ext a) \<subseteq> set stem \<union> {dots} \<union> set ext"
proof
  fix c assume "c \<in> set (truncated_text dots stem ext a)"
  then consider i where "c \<in> set (rstrip (slice_to i stem))" | "c = dots"
    | j where "c \<in> set (lstrip (drop j stem))" | "c \<in> set ext"
    unfolding truncated_text_def Let_def set_append by (elim UnE) auto
  then show "c \<in> set stem \<union> {dots} \<union> set ext"
  proof cases
    case (1 i)
    then have "c \<in> set (slice_to i stem)" using set_rstrip by blast
    then show ?thesis using in_set_takeD by (fastforce simp: slice_to_def)
  next
    case (3 j)
    then have "c \<in> set (drop j stem)" using set_lstrip by blast
    then show ?thesis using in_set_dropD by fastforce
  qed auto
qed

lemma truncate_component_set:
  assumes "truncate_component dots s k f = Inr t"
  shows "set t \<subseteq> set s \<union> {dots}"
proof -
  define stem where "stem = (if f \<and> CHR ''.'' \<in> set s then before_last (CHR ''.'') s else s)"
  define ext where "ext = (if f \<and> CHR ''.'' \<in> set s then CHR ''.'' # after_last (CHR ''.'') s else [])"
  have "t = truncated_text dots stem ext (k - int (length ext))"
    using assms unfolding truncate_component_def Let_def stem_def [symmetric] ext_def [symmetric] by (simp add: guard_simps)
  moreover have "set stem \<subseteq> set s" "set ext \<subseteq> set s"
    using set_last_split [of "CHR ''.''" s] by (auto simp: stem_def ext_def)
  ultimately show ?thesis using truncated_text_set [of dots stem ext] by blast
qed

text \<open>What a component is before the length is looked at: the plain text, or that with an underscore.\<close>

lemma sanitize_component_cases:
  assumes "sanitize_component nfc dots k f v = Inr (t, changed)"
  obtains s where "s = plain_text nfc v \<or> s = CHR ''_'' # plain_text nfc v" "\<not> unsafe_part t"
    "if k < int (length s) then truncate_component dots s k f = Inr t else t = s"
proof -
  let ?p = "plain_text nfc v"
  let ?r = "upper_ascii (if f \<and> CHR ''.'' \<in> set ?p then before_last (CHR ''.'') ?p else ?p) \<in> set windows_reserved"
  define s where "s = (if ?r then CHR ''_'' # ?p else ?p)"
  obtain more where
    "bind_result (if k < int (length s)
       then bind_result (truncate_component dots s k f) (\<lambda>t. Inr (t, more @ [''component_truncated'']))
       else Inr (s, more)) (\<lambda>(s, changed). raise_if (unsafe_part s) NamingEmptyComponent (Inr (s, changed))) = Inr (t, changed)"
    using assms unfolding sanitize_component_def Let_def raise_if_Inr s_def by blast
  then have "\<not> unsafe_part t \<and> (if k < int (length s) then truncate_component dots s k f = Inr t else t = s)"
    by (auto simp: guard_simps split: if_splits)
  then show ?thesis by (intro that [of s]) (auto simp: s_def)
qed

lemma sanitize_component_clean:
  assumes "sanitize_component nfc dots k f v = Inr (t, changed)"
  shows "\<not> unsafe_part t" "\<forall>c \<in> set t. clean_char c \<or> c = dots"
proof -
  obtain s where s: "s = plain_text nfc v \<or> s = CHR ''_'' # plain_text nfc v" "\<not> unsafe_part t"
    "if k < int (length s) then truncate_component dots s k f = Inr t else t = s"
    by (rule sanitize_component_cases [OF assms])
  have "\<forall>c \<in> set s. clean_char c" using s(1) plain_text_clean [of nfc v] clean_chars(3) by auto
  moreover have "set t \<subseteq> set s \<union> {dots}"
    using s(3) truncate_component_set [of dots s k f t] by (auto split: if_splits)
  ultimately show "\<forall>c \<in> set t. clean_char c \<or> c = dots" by auto
  show "\<not> unsafe_part t" by (rule s(2))
qed

text \<open>The ellipsis is no separator and no NUL.\<close>

definition plain_dots :: "char \<Rightarrow> bool" where
  "plain_dots c = (c \<noteq> slash \<and> c \<noteq> backslash \<and> c \<noteq> nul)"

lemma sanitize_component_safe:
  "sanitize_component nfc dots k f v = Inr (t, changed) \<Longrightarrow> plain_dots dots \<Longrightarrow> safe_part t"
  using sanitize_component_clean [of nfc dots k f v t changed] not_clean
  by (auto simp: safe_part_def plain_dots_def)

section \<open>Lengths\<close>

definition extension_length :: "bool \<Rightarrow> string \<Rightarrow> int" where
  "extension_length f s = (if f \<and> CHR ''.'' \<in> set s then 1 + int (length (after_last (CHR ''.'') s)) else 0)"

lemma length_rstrip_le: "length (rstrip s) \<le> length s" and length_lstrip_le: "length (lstrip s) \<le> length s"
  by (simp_all add: rstrip_def lstrip_def length_dropWhile_le order_trans [OF length_dropWhile_le])

lemma truncated_text_length:
  assumes "9 \<le> a"
  shows "int (length (truncated_text dots stem ext a)) \<le> a + int (length ext)"
proof -
  define tail where "tail = min 48 (max 8 (a div 3))"
  have tail: "0 \<le> tail" "0 \<le> a - tail - 1" using assms by (auto simp: tail_def)
  have "length (rstrip (slice_to (a - tail - 1) stem)) \<le> nat (a - tail - 1)"
    using length_rstrip_le [of "slice_to (a - tail - 1) stem"] tail by (simp add: slice_to_def)
  moreover have "length (lstrip (drop (length stem - nat tail) stem)) \<le> nat tail"
    using length_lstrip_le [of "drop (length stem - nat tail) stem"] by simp
  ultimately show ?thesis
    unfolding truncated_text_def Let_def tail_def [symmetric] using tail by simp
qed

lemma truncate_component_length:
  assumes "truncate_component dots s k f = Inr t" "9 + extension_length f s \<le> k"
  shows "int (length t) \<le> k"
proof -
  define stem where "stem = (if f \<and> CHR ''.'' \<in> set s then before_last (CHR ''.'') s else s)"
  define ext where "ext = (if f \<and> CHR ''.'' \<in> set s then CHR ''.'' # after_last (CHR ''.'') s else [])"
  have "t = truncated_text dots stem ext (k - int (length ext))"
    using assms(1) unfolding truncate_component_def Let_def stem_def [symmetric] ext_def [symmetric] by (simp add: guard_simps)
  moreover have "int (length ext) = extension_length f s" by (simp add: extension_length_def ext_def)
  ultimately show ?thesis using truncated_text_length [of "k - int (length ext)" dots stem ext] assms(2) by simp
qed

lemma after_last_Cons: "c \<in> set s \<Longrightarrow> after_last c (x # s) = after_last c s"
  by (simp add: after_last_def takeWhile_append1)

lemma sanitize_component_length:
  assumes "sanitize_component nfc dots k f v = Inr (t, changed)"
    "9 + extension_length f (plain_text nfc v) \<le> k"
  shows "int (length t) \<le> k"
proof -
  let ?p = "plain_text nfc v"
  have pre: "extension_length f (CHR ''_'' # ?p) = extension_length f ?p"
    by (simp add: extension_length_def after_last_Cons)
  obtain s where s: "s = ?p \<or> s = CHR ''_'' # ?p"
    "if k < int (length s) then truncate_component dots s k f = Inr t else t = s"
    by (rule sanitize_component_cases [OF assms(1)])
  show ?thesis
  proof (cases "k < int (length s)")
    case True
    then show ?thesis using s pre assms(2) by (intro truncate_component_length [of dots s k f t]) auto
  next
    case False
    then show ?thesis using s(2) by simp
  qed
qed

section \<open>Names\<close>

lemma name_components_safe:
  "name_components nfc dots p vs ts = Inr (segments, ws, chs) \<Longrightarrow> plain_dots dots \<Longrightarrow>
    length segments = length ts \<and> list_all safe_part segments"
  by (induction ts arbitrary: segments ws chs)
    (auto simp: guard_simps sanitize_component_safe split: prod.splits)

lemma chosen_templates_length: "2 \<le> length (chosen_templates p t vs)"
  by (cases t) (simp_all add: chosen_templates_def)

lemma name_media_safe:
  assumes "name_media nfc dots c p = Inr r" "plain_dots dots"
  shows "safe_part (nr_directory r)" "safe_part (nr_filename r)" "list_all safe_part (nr_segments r)"
    "nr_segments r \<noteq> []" "hd (nr_segments r) = nr_directory r"
proof -
  obtain vs w where v: "naming_variables c = (vs, w)" by (cases "naming_variables c") auto
  from assms(1) obtain segments ws chs where
    n: "name_components nfc dots p vs (chosen_templates p (naming_media_type c p) vs) = Inr (segments, ws, chs)"
    and q: "r = make_naming_result
        \<lparr>nr_directory = hd segments, nr_filename = last segments, nr_policy = np_id p,
         nr_recognition_type = nc_recognition_type c, nr_type = Some (naming_media_type c p),
         nr_segments = butlast segments, nr_variables = map (\<lambda>(n, v). (n, show_value v)) vs,
         nr_warnings = first_occurrences (w @ ws), nr_changes = first_occurrences chs\<rparr>"
    by (auto simp: name_media_def guard_simps v Let_def simp del: split_paired_Ex)
  have r: "nr_directory r = hd segments" "nr_filename r = last segments"
    "nr_segments r = butlast segments \<or> butlast segments = []"
    by (simp_all add: q make_naming_result_def)
  from name_components_safe [OF n assms(2)] chosen_templates_length [of p "naming_media_type c p" vs]
  have l: "2 \<le> length segments" and s: "\<forall>x \<in> set segments. safe_part x" by (auto simp: list_all_iff)
  then obtain x y zs where sg: "segments = x # y # zs" by (metis Suc_le_length_iff numeral_2_eq_2)
  show "safe_part (nr_directory r)" "safe_part (nr_filename r)" using s sg r by auto
  from r(3) sg have b: "nr_segments r = butlast segments" by auto
  show "list_all safe_part (nr_segments r)"
    using s in_set_butlastD [of _ segments] unfolding b by (auto simp: list_all_iff)
  show "nr_segments r \<noteq> []" "hd (nr_segments r) = nr_directory r" using b r sg by auto
qed

end
