(* ===== verification/Organize_Facts.thy ===== *)
theory Organize_Facts
  imports Organize_Plan Naming_Facts
begin

text \<open>
  The lemmas about \<open>Organize_Plan\<close>: the shape of a planned target, what the checks before execution
  make of it, the order of the rename attempts, and the selection of a classification rule.
\<close>

section \<open>Targets\<close>

lemma safe_root_dot: "safe_destination_root v = Some ''.'' \<longleftrightarrow> v = ''.''"
  by (auto simp: safe_destination_root_def Let_def unsafe_part_def slash_def backslash_def nul_def split: if_splits)

lemma drop_lead:
  assumes "root_lead l" "\<not> unsafe_relative_path q"
  shows "dropWhile (\<lambda>c. c = slash) (l @ q) = q"
  using assms safe_path_split [of q] by (cases q) (auto simp: root_lead_def)

lemma safe_path_chars: "\<not> unsafe_relative_path q \<Longrightarrow> nul \<notin> set q \<and> backslash \<notin> set q"
  by (simp add: unsafe_relative_path_def)

lemma lead_chars: "root_lead l \<Longrightarrow> nul \<notin> set l \<and> backslash \<notin> set l"
  by (auto simp: root_lead_def slash_def nul_def backslash_def)

text \<open>What is under a root is the root's own slashes and a safe relative path.\<close>

lemma under_root_form:
  assumes "safe_destination_root v = Some r" "r \<noteq> ''.''" "\<not> unsafe_relative_path s"
  obtains l q where "under_root r s = l @ q" "root_lead l" "\<not> unsafe_relative_path q"
proof -
  from safe_destination_root_form [OF assms(1)] assms(2)
  consider "r = [slash]" | l q where "r = l @ q" "root_lead l" "\<not> unsafe_relative_path q" by blast
  then show thesis
  proof cases
    case 1
    then show thesis using assms(3) by (intro that [of "[slash]" s]) (auto simp: under_root_def root_lead_def)
  next
    case (2 l q)
    have "under_root r s = l @ (q @ [slash] @ s)"
      using 2 safe_path_split [OF 2(3)] by (simp add: under_root_def)
    with 2 assms(3) safe_append show thesis by (intro that [of l "q @ [slash] @ s"]) auto
  qed
qed

text \<open>The test of a target the executor makes: no part of it, after the leading slashes, navigates.\<close>

definition target_accepted :: "string \<Rightarrow> bool" where
  "target_accepted t =
     (t \<noteq> [] \<and> nul \<notin> set t \<and> backslash \<notin> set t \<and>
      \<not> list_ex unsafe_part (split_on slash (dropWhile (\<lambda>c. c = slash) t)))"

lemma lead_accepted:
  assumes "root_lead l" "\<not> unsafe_relative_path q"
  shows "target_accepted (l @ q)"
proof -
  have "list_all safe_part (split_on slash q)" using assms(2) safe_relative_iff by blast
  then have "\<not> list_ex unsafe_part (split_on slash q)" by (auto simp: list_ex_iff list_all_iff safe_part_def)
  then show ?thesis
    using assms safe_path_split(1) [OF assms(2)] safe_path_chars [OF assms(2)] lead_chars [OF assms(1)]
    by (simp add: target_accepted_def drop_lead)
qed

lemma safe_accepted: "\<not> unsafe_relative_path q \<Longrightarrow> target_accepted q"
  using lead_accepted [of "[]" q] by (simp add: root_lead_def)

lemma under_root_accepted:
  "safe_destination_root v = Some r \<Longrightarrow> r \<noteq> ''.'' \<Longrightarrow> \<not> unsafe_relative_path s \<Longrightarrow> target_accepted (under_root r s)"
  by (metis under_root_form lead_accepted)

section \<open>The planner\<close>

lemma plan_result_fields:
  assumes "plan_result digest q target operation status conflicts source_path = Inr p"
  shows "pl_root p = ml_root (rq_library q)" "pl_status p = status" "pl_operation p = operation"
    "pl_conflicts p = conflicts" "pl_attachments p = []" "\<not> pl_overwrite p"
    "pl_relative p = (if target \<noteq> [] then dc_relative (request_composition q) else [])"
    "pl_target p = (if starts_with ''./'' target \<and> ml_root (rq_library q) = ''.'' then drop 2 target else target)"
    "pl_target_storage p = ml_storage (rq_library q)" "pl_source_storage p = rq_source_storage q"
    "pl_source p = rq_source q"
  using assms by (auto simp: plan_result_def Let_def guard_simps)

lemma make_plan_cases:
  assumes "make_plan digest storage claimed known q = Inr p"
  obtains
    (unsafe) "\<not> dc_safe (request_composition q)" "pl_status p = PlanInvalid"
      "plan_result digest q [] DoSkip PlanInvalid (pl_conflicts p) None = Inr p"
  | (planned) operation status conflicts where "dc_safe (request_composition q)"
      "plan_result digest q (dc_target (request_composition q)) operation status conflicts (rq_source_path q) = Inr p"
      "status = PlanNoop \<and> operation = DoNoop \<and> conflicts = [] \<or>
       operation = plan_operation_of (op_operation (tp_organize (rq_policy q))) \<and>
       status = (if conflicts \<noteq> [] then PlanConflict else PlanReady)"
proof (cases "dc_safe (request_composition q)")
  case False
  with assms obtain cs where "plan_result digest q [] DoSkip PlanInvalid cs None = Inr p"
    by (auto simp: make_plan_def Let_def guard_simps)
  with False plan_result_fields(2,4) [OF this] show thesis by (intro unsafe) auto
next
  case True
  with assms show thesis
    by (auto simp: make_plan_def Let_def guard_simps split: if_splits intro: planned)
qed

lemma composed_not_empty:
  "dc_safe (request_composition q) \<Longrightarrow> dc_target (request_composition q) \<noteq> []"
  using compose_destination_facts(1,4) safe_destination_root_nonempty
  unfolding request_composition_def under_root_def by (metis Nil_is_append_conv list.discI)

text \<open>The target of a plan that is not invalid, in terms of the composition.\<close>

lemma planned_target:
  assumes "make_plan digest storage claimed known q = Inr p" "pl_status p \<noteq> PlanInvalid"
  defines "c \<equiv> request_composition q"
  shows "dc_safe c" "safe_destination_root (pl_root p) = Some (dc_root c)" "pl_relative p = dc_relative c"
    "\<not> unsafe_relative_path (dc_relative c)"
    "pl_target p = (if dc_root c = ''.'' then dc_relative c else under_root (dc_root c) (dc_relative c))"
proof -
  from assms(1) have "dc_safe c \<and> pl_root p = ml_root (rq_library q) \<and> pl_relative p = dc_relative c \<and>
    pl_target p = (if starts_with ''./'' (dc_target c) \<and> ml_root (rq_library q) = ''.'' then drop 2 (dc_target c) else dc_target c)"
  proof (cases rule: make_plan_cases)
    case unsafe
    with assms(2) show ?thesis by simp
  next
    case (planned operation status conflicts)
    from plan_result_fields [OF planned(2)] planned(1) composed_not_empty [OF planned(1)]
    show ?thesis by (simp add: c_def)
  qed
  then have s: "dc_safe c" and p: "pl_root p = ml_root (rq_library q)" "pl_relative p = dc_relative c"
    "pl_target p = (if starts_with ''./'' (dc_target c) \<and> ml_root (rq_library q) = ''.'' then drop 2 (dc_target c) else dc_target c)"
    by auto
  note f = compose_destination_facts [OF s [unfolded c_def request_composition_def], folded request_composition_def, folded c_def]
  show "dc_safe c" by (rule s)
  show r: "safe_destination_root (pl_root p) = Some (dc_root c)" using f(1) p(1) by simp
  show "pl_relative p = dc_relative c" by (rule p(2))
  show "\<not> unsafe_relative_path (dc_relative c)" by (rule f(3))
  show "pl_target p = (if dc_root c = ''.'' then dc_relative c else under_root (dc_root c) (dc_relative c))"
  proof (cases "dc_root c = ''.''")
    case True
    then have "ml_root (rq_library q) = ''.''" using r p(1) safe_root_dot by simp
    then show ?thesis using True p(3) f(4) by (simp add: under_root_def starts_with_def slash_def)
  next
    case False
    then have "ml_root (rq_library q) \<noteq> ''.''" using r p(1) safe_root_dot [of "pl_root p"] by auto
    then show ?thesis using False p(3) f(4) by simp
  qed
qed

lemma planned_resolves:
  assumes "make_plan digest storage claimed known q = Inr p" "pl_status p \<noteq> PlanInvalid"
  shows "resolved_execution_target p = Some (pl_target p) \<and> target_accepted (pl_target p)"
proof -
  note t = planned_target [OF assms]
  let ?c = "request_composition q"
  have "pl_relative p \<noteq> []" using t(3,4) safe_path_split(1) by auto
  moreover have "path_join (dc_root ?c) [dc_relative ?c] = under_root (dc_root ?c) (dc_relative ?c)"
    by (rule path_join_one [OF safe_destination_root_nonempty [OF t(2)] t(4)])
  ultimately have "resolved_execution_target p = Some (pl_target p)"
    using t by (simp add: resolved_execution_target_def)
  moreover have "target_accepted (pl_target p)"
    using t under_root_accepted [OF t(2) _ t(4)] safe_accepted [OF t(4)] by simp
  ultimately show ?thesis by simp
qed

lemma planned_ready:
  assumes "make_plan digest storage claimed known q = Inr p" "pl_status p = PlanReady"
    "pl_operation p \<notin> {DoNoop, DoSkip}"
  shows "plan_validation_error p = None"
proof -
  have t: "target_accepted (pl_target p)" using planned_resolves [OF assms(1)] assms(2) by simp
  have "pl_conflicts p = [] \<and> pl_attachments p = []"
    using assms(1)
  proof (cases rule: make_plan_cases)
    case unsafe
    with assms(2) show ?thesis by simp
  next
    case (planned operation status conflicts)
    with plan_result_fields [OF planned(2)] assms(2) show ?thesis by (auto split: if_splits)
  qed
  then show ?thesis using t assms(2,3) by (simp add: plan_validation_error_def target_accepted_def)
qed

text \<open>The observations of the planner never are an invalid destination.\<close>

lemma observed_conflict_types:
  "destination_conflicts storage source target = Inr cs \<Longrightarrow> \<forall>x \<in> set cs. cf_type x \<noteq> InvalidDestination"
  "\<forall>x \<in> set (collision_conflicts claimed source target). cf_type x \<noteq> InvalidDestination"
  "\<forall>x \<in> set (duplicate_conflicts known identity source target). cf_type x \<noteq> InvalidDestination"
  by (auto simp: destination_conflicts_def collision_conflicts_def duplicate_conflicts_def
      split: option.splits sum.splits if_splits)

lemma make_plan_conflicts:
  assumes "make_plan digest storage claimed known q = Inr p" "pl_status p \<noteq> PlanInvalid"
  shows "\<not> list_ex (\<lambda>c. cf_type c = InvalidDestination) (pl_conflicts p)"
proof (cases "dc_safe (request_composition q)")
  case False
  with assms plan_result_fields(2) show ?thesis by (fastforce simp: make_plan_def Let_def guard_simps)
next
  case True
  let ?t = "dc_target (request_composition q)" and ?s = "rq_source q"
  from assms(1) True obtain operation status path where
    "plan_result digest q ?t operation status [] path = Inr p \<or>
     (\<exists>found. destination_conflicts storage ?s ?t = Inr found \<and>
       plan_result digest q ?t operation status (found @ collision_conflicts claimed ?s ?t @
         duplicate_conflicts known (rq_identity q) ?s ?t) path = Inr p)"
    unfolding make_plan_def Let_def raise_if_Inr
    by (simp add: guard_simps split: if_splits) blast+
  then show ?thesis
    using plan_result_fields(4) observed_conflict_types by (fastforce simp: list_ex_iff)
qed

section \<open>Splitting a safe path\<close>

lemma join_snoc: "join_with [c] (xs @ [x]) = (if xs = [] then x else join_with [c] xs @ [c] @ x)"
proof (induction xs)
  case (Cons y ys)
  then show ?case by (cases ys) auto
qed simp

lemma rev_dropWhile_last:
  "s \<noteq> [] \<Longrightarrow> last s \<noteq> c \<Longrightarrow> rev (dropWhile (\<lambda>x. x = c) (rev (s @ [c]))) = s"
  by (cases s rule: rev_cases) auto

lemma safe_path_dir:
  assumes "\<not> unsafe_relative_path s"
  shows "path_basename s = last (split_on slash s)" "path_dirname s = join_with [slash] (butlast (split_on slash s))"
    "safe_part (path_basename s)" "path_dirname s = [] \<or> \<not> unsafe_relative_path (path_dirname s)"
    "split_on slash s = (if path_dirname s = [] then [] else split_on slash (path_dirname s)) @ [path_basename s]"
proof -
  let ?cs = "split_on slash s"
  have cs: "\<forall>c \<in> set ?cs. safe_part c" using assms safe_relative_iff by (auto simp: list_all_iff)
  define xs x where "xs = butlast ?cs" and "x = last ?cs"
  have sp: "?cs = xs @ [x]" by (simp add: xs_def x_def)
  have s: "s = (if xs = [] then x else join_with [slash] xs @ [slash] @ x)"
    using join_split [of slash s] join_snoc [of slash xs x] sp by simp
  show b: "path_basename s = last ?cs" by (simp add: path_basename_def)
  then have bx: "path_basename s = x" by (simp add: x_def)
  show "safe_part (path_basename s)" using cs sp bx by simp
  have j: "xs \<noteq> [] \<Longrightarrow> split_on slash (join_with [slash] xs) = xs"
    using split_join [of xs slash] split_on_no_sep [of _ slash s] sp by auto
  have safe: "xs \<noteq> [] \<Longrightarrow> \<not> unsafe_relative_path (join_with [slash] xs)"
    using j cs sp by (simp add: safe_relative_iff list_all_iff)
  have d: "path_dirname s = join_with [slash] xs"
  proof (cases "xs = []")
    case True
    with s have "s = x" by simp
    then show ?thesis using True bx by (simp add: path_dirname_def Let_def)
  next
    case False
    note p = safe_path_split [OF safe [OF False]]
    have "take (length s - length x) s = join_with [slash] xs @ [slash]" using s False by simp
    moreover have "\<not> list_all (\<lambda>c. c = slash) (join_with [slash] xs @ [slash])"
      using p by (cases "join_with [slash] xs") auto
    ultimately show ?thesis using rev_dropWhile_last [OF p(1,3)] bx by (simp add: path_dirname_def Let_def)
  qed
  then show "path_dirname s = join_with [slash] (butlast ?cs)" by (simp add: xs_def)
  show "path_dirname s = [] \<or> \<not> unsafe_relative_path (path_dirname s)"
    using d safe by (cases "xs = []") auto
  show "?cs = (if path_dirname s = [] then [] else split_on slash (path_dirname s)) @ [path_basename s]"
    using sp d bx j safe safe_path_split(1) by (cases "xs = []") auto
qed

text \<open>Putting a safe component beside a safe path.\<close>

lemma path_join_dir:
  assumes "\<not> unsafe_relative_path s" "safe_part x"
  shows "\<not> unsafe_relative_path (path_join (path_dirname s) [x])"
    "split_on slash (path_join (path_dirname s) [x]) = butlast (split_on slash s) @ [x]"
proof -
  note d = safe_path_dir [OF assms(1)]
  have x: "\<not> unsafe_relative_path x" "slash \<notin> set x" using assms(2) safe_part_iff by auto
  have b: "butlast (split_on slash s) = (if path_dirname s = [] then [] else split_on slash (path_dirname s))"
    by (subst d(5)) simp
  show "\<not> unsafe_relative_path (path_join (path_dirname s) [x])"
    "split_on slash (path_join (path_dirname s) [x]) = butlast (split_on slash s) @ [x]"
  proof -
    have "\<not> unsafe_relative_path (path_join (path_dirname s) [x]) \<and>
      split_on slash (path_join (path_dirname s) [x]) = butlast (split_on slash s) @ [x]"
    proof (cases "path_dirname s = []")
      case True
      then show ?thesis using x b safe_not_rooted [OF x(1)]
        by (simp add: path_join_def join_step_def split_on_simple)
    next
      case False
      with d(4) path_join_safe [of "path_dirname s" "[x]", THEN conjunct2] x b show ?thesis
        by (simp add: split_on_simple)
    qed
    then show "\<not> unsafe_relative_path (path_join (path_dirname s) [x])"
      "split_on slash (path_join (path_dirname s) [x]) = butlast (split_on slash s) @ [x]" by auto
  qed
qed

section \<open>Renaming\<close>

lemma show_nat_digits: "c \<in> set (show_nat n) \<Longrightarrow> ascii_digit c"
proof (induction n rule: show_nat.induct)
  case (1 n)
  show ?case
  proof (cases "n < 10")
    case True
    with 1(2) show ?thesis by (auto simp: show_nat.simps [of n] ascii_digit_def code_def of_char_of)
  next
    case False
    have "n mod 10 < 10" by simp
    with 1 False show ?thesis
      by (auto simp: show_nat.simps [of n] ascii_digit_def code_def of_char_of)
  qed
qed

lemma split_on_last:
  assumes "1 < length (split_on c u)"
  shows "\<exists>h. u = h @ [c] @ last (split_on c u)"
proof -
  define xs x where "xs = butlast (split_on c u)" and "x = last (split_on c u)"
  have sp: "split_on c u = xs @ [x]" by (simp add: xs_def x_def)
  then have "xs \<noteq> []" using assms by auto
  have "u = join_with [c] (xs @ [x])" using join_split [of c u] sp by metis
  also have "\<dots> = join_with [c] xs @ [c] @ x" using \<open>xs \<noteq> []\<close> by (simp only: join_snoc if_False)
  finally show ?thesis unfolding x_def [symmetric] by blast
qed

lemma take_suffix: "s = u @ c # e \<Longrightarrow> take (length s - length e - 1) s @ c # e = s"
  by (erule ssubst) simp

lemma path_splitext_append: "fst (path_splitext s) @ snd (path_splitext s) = s"
proof -
  let ?tail = "path_basename s"
  let ?ext = "last (split_on (CHR ''.'') ?tail)"
  show ?thesis
  proof (cases "1 < length (split_on (CHR ''.'') ?tail) \<and>
      list_ex (\<lambda>c. c \<noteq> CHR ''.'') (take (length ?tail - length ?ext - 1) ?tail)")
    case False
    then show ?thesis by (auto simp: path_splitext_def Let_def)
  next
    case True
    from split_on_last [of "CHR ''.''" ?tail] True obtain h where h: "?tail = h @ CHR ''.'' # ?ext" by auto
    have "\<exists>g. s = g @ ?tail"
    proof (cases "1 < length (split_on slash s)")
      case True
      from split_on_last [OF this] show ?thesis by (metis append.assoc path_basename_def)
    next
      case False
      then have "split_on slash s = [?tail]" by (cases "split_on slash s") (auto simp: path_basename_def)
      with join_split [of slash s] show ?thesis by (metis append_Nil join_with.simps(2))
    qed
    then obtain g where "s = g @ ?tail" ..
    also have "\<dots> = g @ (h @ CHR ''.'' # ?ext)" by (simp only: h [symmetric])
    finally have "s = (g @ h) @ CHR ''.'' # ?ext" by simp
    from take_suffix [OF this] have "take (length s - length ?ext - 1) s @ CHR ''.'' # ?ext = s" .
    then show ?thesis using True by (auto simp: path_splitext_def Let_def)
  qed
qed

text \<open>A renamed path differs from the path it renames in its last component only.\<close>

definition renamed_name :: "string \<Rightarrow> nat \<Rightarrow> string" where
  "renamed_name b n = fst (path_splitext b) @ '' ('' @ show_nat n @ '')'' @ snd (path_splitext b)"

lemma renamed_name_safe:
  assumes "safe_part b"
  shows "safe_part (renamed_name b n)"
proof -
  have "set (fst (path_splitext b)) \<union> set (snd (path_splitext b)) = set b"
    by (subst (3) path_splitext_append [symmetric]) simp
  moreover have "\<not> ascii_digit slash" "\<not> ascii_digit backslash" "\<not> ascii_digit nul"
    by (simp_all add: ascii_digit_def code_def slash_def backslash_def nul_def)
  then have "slash \<notin> set (show_nat n)" "backslash \<notin> set (show_nat n)" "nul \<notin> set (show_nat n)"
    using show_nat_digits by blast+
  ultimately have "slash \<notin> set (renamed_name b n)" "backslash \<notin> set (renamed_name b n)" "nul \<notin> set (renamed_name b n)"
    using assms by (auto simp: renamed_name_def safe_part_def slash_def backslash_def nul_def)
  moreover have "\<not> unsafe_part t" if "CHR '' '' \<in> set t" for t
    using that by (auto simp: unsafe_part_def)
  then have "\<not> unsafe_part (renamed_name b n)" by (simp add: renamed_name_def)
  ultimately show ?thesis by (simp add: safe_part_def)
qed

lemma renamed_eq: "renamed s n = path_join (path_dirname s) [renamed_name (path_basename s) n]"
  by (simp add: renamed_def renamed_name_def split: prod.splits)

lemma renamed_safe:
  assumes "\<not> unsafe_relative_path s"
  shows "\<not> unsafe_relative_path (renamed s n)"
    "split_on slash (renamed s n) = butlast (split_on slash s) @ [renamed_name (last (split_on slash s)) n]"
  using path_join_dir [OF assms renamed_name_safe [OF safe_path_dir(3) [OF assms]], of n]
  by (simp_all add: renamed_eq path_basename_def)

lemma show_nat_inj: "show_nat m = show_nat n \<Longrightarrow> m = n"
proof -
  have "digits_value a (show_nat k) = a * 10 ^ length (show_nat k) + k" for a k
  proof (induction k arbitrary: a rule: show_nat.induct)
    case (1 k)
    have app: "digits_value a (s @ [c]) = 10 * digits_value a s + (code c - 48)" for a s c
      by (induction s arbitrary: a) auto
    show ?case
    proof (cases "k < 10")
      case True
      then show ?thesis by (simp add: show_nat.simps [of k] code_def of_char_of)
    next
      case False
      have "k mod 10 < 10" by simp
      then have "code (char_of (48 + k mod 10)) = 48 + k mod 10" by (simp add: code_def of_char_of)
      with False 1 [OF False] show ?thesis by (simp add: show_nat.simps [of k] app algebra_simps)
    qed
  qed
  from this [of 0] show "show_nat m = show_nat n \<Longrightarrow> m = n" by (metis add_0 mult_0)
qed

lemma renamed_inj: "\<not> unsafe_relative_path s \<Longrightarrow> renamed s m = renamed s n \<Longrightarrow> m = n"
  using renamed_safe(2) [of s m] renamed_safe(2) [of s n] by (auto simp: renamed_name_def dest: show_nat_inj)

text \<open>One attempt: whether the number is taken.\<close>

definition attempt_taken :: "(string \<Rightarrow> bool result) \<Rightarrow> plan \<Rightarrow> nat \<Rightarrow> bool result" where
  "attempt_taken exists p n =
     bind_result (map_result (retarget_attachment p (renamed_target p n)) (pl_attachments p)) (\<lambda>as.
     any_exists exists (renamed_target p n # map (lo_path \<circ> at_destination) as))"

lemma rename_attempts_Inr:
  "rename_attempts digest exists p n k = Inr p' \<Longrightarrow>
    \<exists>m. n \<le> m \<and> m < n + k \<and> attempt_taken exists p m = Inr False \<and>
      (\<forall>i. n \<le> i \<longrightarrow> i < m \<longrightarrow> attempt_taken exists p i = Inr True) \<and>
      (\<exists>as. map_result (retarget_attachment p (renamed_target p m)) (pl_attachments p) = Inr as \<and>
        make_location (pl_target_storage p) (renamed_target p m) =
          Inr \<lparr>lo_storage = pl_target_storage p, lo_path = renamed_target p m\<rparr> \<and>
        p' = p\<lparr>pl_target := renamed_target p m, pl_relative := renamed (pl_relative p) m,
               pl_destination_location := Some \<lparr>lo_storage = pl_target_storage p, lo_path = renamed_target p m\<rparr>,
               pl_conflicts := [], pl_status := PlanReady,
               pl_id := plan_digest digest (pl_source_storage p) (pl_source p) (pl_target_storage p) (renamed_target p m),
               pl_attachments := as\<rparr>)"
proof (induction k arbitrary: n)
  case (Suc k)
  from Suc.prems obtain as taken where
    as: "map_result (retarget_attachment p (renamed_target p n)) (pl_attachments p) = Inr as"
    and t: "any_exists exists (renamed_target p n # map (lo_path \<circ> at_destination) as) = Inr taken"
    by (auto simp: Let_def guard_simps simp del: any_exists.simps)
  have at: "attempt_taken exists p n = Inr taken"
    using as t by (simp add: attempt_taken_def del: any_exists.simps)
  show ?case
  proof (cases taken)
    case True
    with Suc.prems as t have "rename_attempts digest exists p (Suc n) k = Inr p'"
      by (simp add: Let_def del: any_exists.simps)
    from Suc.IH [OF this] obtain m where m: "Suc n \<le> m" "m < Suc n + k" and rest:
      "attempt_taken exists p m = Inr False" "\<forall>i. Suc n \<le> i \<longrightarrow> i < m \<longrightarrow> attempt_taken exists p i = Inr True"
      "\<exists>as. map_result (retarget_attachment p (renamed_target p m)) (pl_attachments p) = Inr as \<and>
        make_location (pl_target_storage p) (renamed_target p m) =
          Inr \<lparr>lo_storage = pl_target_storage p, lo_path = renamed_target p m\<rparr> \<and>
        p' = p\<lparr>pl_target := renamed_target p m, pl_relative := renamed (pl_relative p) m,
               pl_destination_location := Some \<lparr>lo_storage = pl_target_storage p, lo_path = renamed_target p m\<rparr>,
               pl_conflicts := [], pl_status := PlanReady,
               pl_id := plan_digest digest (pl_source_storage p) (pl_source p) (pl_target_storage p) (renamed_target p m),
               pl_attachments := as\<rparr>" by blast
    have "\<forall>i. n \<le> i \<longrightarrow> i < m \<longrightarrow> attempt_taken exists p i = Inr True"
      using rest(2) at True by (metis Suc_leI le_neq_implies_less)
    with m rest(1,3) show ?thesis by (intro exI [of _ m]) auto
  next
    case False
    with Suc.prems as t obtain l where l: "make_location (pl_target_storage p) (renamed_target p n) = Inr l"
      and p': "p' = p\<lparr>pl_target := renamed_target p n, pl_relative := renamed (pl_relative p) n,
               pl_destination_location := Some l, pl_conflicts := [], pl_status := PlanReady,
               pl_id := plan_digest digest (pl_source_storage p) (pl_source p) (pl_target_storage p) (renamed_target p n),
               pl_attachments := as\<rparr>"
      by (auto simp: Let_def guard_simps simp del: any_exists.simps)
    from l have "l = \<lparr>lo_storage = pl_target_storage p, lo_path = renamed_target p n\<rparr>"
      by (auto simp: make_location_def guard_simps)
    with as l p' at False show ?thesis by (intro exI [of _ n]) auto
  qed
qed simp

lemma make_location_safe: "make_location st path = Inr l \<Longrightarrow> \<not> unsafe_relative_path path"
  by (auto simp: make_location_def guard_simps unsafe_relative_path_def strip_def list_ex_iff)

text \<open>A renamed plan is composed the way the executor composes it again.\<close>

lemma normpath_trailing: "\<not> unsafe_relative_path w \<Longrightarrow> normpath (w @ [slash]) = w"
proof -
  assume w: "\<not> unsafe_relative_path w"
  note p = safe_path_split [OF w]
  have sp: "split_on slash (w @ [slash]) = split_on slash w @ [[]]"
    using split_on_sep [of slash w "[]"] by simp
  have cs: "\<forall>c \<in> set (split_on slash w). safe_part c" using w safe_relative_iff by (auto simp: list_all_iff)
  then have "normal_parts False [] (split_on slash w @ [[]]) = filter (\<lambda>c. c \<noteq> []) (split_on slash w @ [[]])"
    using normal_parts_plain [of "split_on slash w @ [[]]" False "[]"] by (auto simp: safe_part_def unsafe_part_def)
  also have "\<dots> = split_on slash w"
    using cs by (auto simp: safe_part_def unsafe_part_def filter_id_conv)
  finally have "normal_parts False [] (split_on slash w @ [[]]) = split_on slash w" .
  moreover have "\<not> starts_with ''/'' (w @ [slash])" "leading_slashes (w @ [slash]) = []"
    using p leading_slashes_lead [of "[]" "w @ [slash]"] by (simp_all add: root_lead_def)
  ultimately show ?thesis using p(1) by (simp add: normpath_def sp join_split)
qed

lemma joined_root:
  assumes v: "safe_destination_root v = Some r" and x: "\<not> unsafe_relative_path x"
    and t: "\<not> unsafe_relative_path (path_join v [x])"
  shows "r \<noteq> ''.'' \<and> path_join r [x] = path_join v [x]"
proof -
  have ne: "v \<noteq> []" using v by (auto simp: safe_destination_root_def)
  have j: "path_join v [x] = under_root v x" by (rule path_join_one [OF ne x])
  have dot: "v \<noteq> ''.''"
  proof
    assume "v = ''.''"
    then have "path_join v [x] = ''.'' @ [slash] @ x" using j by (simp add: under_root_def slash_def)
    with t have "\<not> unsafe_relative_path ''.''" using safe_append [of "''.''" x] by simp
    then show False by (simp add: unsafe_relative_path_def unsafe_part_def slash_def)
  qed
  have r: "r = normpath v" using v dot by (auto simp: safe_destination_root_def Let_def split: if_splits)
  have "path_join r [x] = path_join v [x]"
  proof (cases "last v = slash")
    case False
    then have "\<not> unsafe_relative_path v" using t j safe_append [of v x] by (simp add: under_root_def)
    then show ?thesis using r normpath_safe by simp
  next
    case True
    then obtain w where w: "v = w @ [slash]" using ne by (metis append_butlast_last_id)
    then have "path_join v [x] = w @ [slash] @ x" using j by (simp add: under_root_def)
    with t have sw: "\<not> unsafe_relative_path w" using safe_append [of w x] by simp
    then have "r = w" using r w normpath_trailing by simp
    then show ?thesis
      using path_join_one [of w x] x safe_path_split [OF sw] \<open>path_join v [x] = w @ [slash] @ x\<close> by (simp add: under_root_def)
  qed
  then show ?thesis using v dot safe_root_dot [of v] by auto
qed

lemma renamed_resolves:
  assumes "rename_plan digest exists p = Inr p'" "safe_destination_root (pl_root p) = Some r"
    "\<not> unsafe_relative_path (pl_relative p)"
  shows "resolved_execution_target p' = Some (pl_target p') \<and> target_accepted (pl_target p')"
proof -
  from assms(1) have "rename_attempts digest exists p 1 max_rename_attempts = Inr p'"
    by (simp add: rename_plan_def guard_simps)
  from rename_attempts_Inr [OF this] obtain m as where
    l: "make_location (pl_target_storage p) (renamed_target p m) =
      Inr \<lparr>lo_storage = pl_target_storage p, lo_path = renamed_target p m\<rparr>"
    and p': "pl_target p' = renamed_target p m" "pl_relative p' = renamed (pl_relative p) m" "pl_root p' = pl_root p"
    by auto
  let ?x = "renamed (pl_relative p) m"
  have x: "\<not> unsafe_relative_path ?x" by (rule renamed_safe(1) [OF assms(3)])
  have t: "\<not> unsafe_relative_path (path_join (pl_root p) [?x])"
    using make_location_safe [OF l] by (simp add: renamed_target_def)
  have "?x \<noteq> []" using safe_path_split(1) [OF x] .
  then show ?thesis
    using joined_root [OF assms(2) x t] assms(2) x p' safe_accepted [OF t]
    by (simp add: resolved_execution_target_def renamed_target_def)
qed

text \<open>Under a root that is absolute or the current directory no renamed target is a location.\<close>

lemma make_location_Inl: "make_location st path = Inl e \<Longrightarrow> e = ValueError"
  by (auto simp: make_location_def guard_simps)

definition rooted :: "string \<Rightarrow> bool" where
  "rooted v = (v = ''.'' \<or> starts_with ''/'' v)"

lemma rooted_join_unsafe: "rooted v \<Longrightarrow> \<not> unsafe_relative_path x \<Longrightarrow> unsafe_relative_path (path_join v [x])"
proof (cases "starts_with ''/'' v")
  case True
  assume "\<not> unsafe_relative_path x"
  from True obtain u where "v = slash # u" using starts_slash by blast
  with \<open>\<not> unsafe_relative_path x\<close> show ?thesis
    by (simp add: path_join_one under_root_def unsafe_relative_path_def [of "slash # _"] starts_slash)
next
  case False
  assume "rooted v" and x: "\<not> unsafe_relative_path x"
  with False have "path_join v [x] = ''.'' @ [slash] @ x"
    using path_join_one [of v x] by (simp add: rooted_def under_root_def slash_def)
  then show ?thesis using safe_append [of "''.''" x]
    by (simp add: unsafe_relative_path_def [of "''.''"] unsafe_part_def slash_def)
qed

lemma rooted_rename:
  assumes "rooted (pl_root p)" "\<not> unsafe_relative_path (pl_relative p)"
  shows "make_location (pl_target_storage p) (renamed_target p m) = Inl ValueError"
proof (cases "make_location (pl_target_storage p) (renamed_target p m)")
  case (Inr l)
  from make_location_safe [OF this] rooted_join_unsafe [OF assms(1) renamed_safe(1) [OF assms(2)], of m]
  show ?thesis by (simp add: renamed_target_def)
next
  case (Inl e)
  then show ?thesis using make_location_Inl by simp
qed

lemma splitext_stem: "s \<noteq> [] \<Longrightarrow> fst (path_splitext s) \<noteq> []"
proof -
  assume s: "s \<noteq> []"
  show ?thesis
  proof (cases "path_splitext s = (s, [])")
    case False
    from False obtain ext where e: "path_splitext s = (take (length s - length ext - 1) s, CHR ''.'' # ext)"
      and l: "list_ex (\<lambda>c. c \<noteq> CHR ''.'') (take (length (path_basename s) - length ext - 1) (path_basename s))"
      by (auto simp: path_splitext_def Let_def split: if_splits)
    have "length (path_basename s) \<le> length s"
    proof -
      have "length p \<le> length s" if "p \<in> set (split_on slash s)" for p
        using that
      proof (induction s arbitrary: p)
        case (Cons c s)
        then show ?case by (cases "split_on slash s") (fastforce split: if_splits)+
      qed auto
      then show ?thesis by (simp add: path_basename_def)
    qed
    moreover have "length (path_basename s) - length ext - 1 \<noteq> 0" using l by (cases "length (path_basename s) - length ext - 1") auto
    ultimately show ?thesis using e s by simp
  qed (use s in simp)
qed

lemma rooted_rename_raises:
  assumes "rooted (pl_root p)" "\<not> unsafe_relative_path (pl_relative p)" "pl_target p \<noteq> []"
    "attempt_taken exists p 1 = Inr False"
  shows "rename_plan digest exists p = Inl ValueError"
proof -
  have b: "safe_part (path_basename (pl_relative p))" by (rule safe_path_dir(3) [OF assms(2)])
  then have stem: "fst (path_splitext (path_basename (pl_relative p))) \<noteq> []"
    by (intro splitext_stem) (auto simp: safe_part_def unsafe_part_def)
  have parts: "\<not> list_ex unsafe_part (split_on slash (pl_relative p))"
    using assms(2) by (simp add: unsafe_relative_path_def)
  from assms(4) have at: "\<exists>as. map_result (retarget_attachment p (renamed_target p 1)) (pl_attachments p) = Inr as \<and>
      any_exists exists (renamed_target p 1 # map (lo_path \<circ> at_destination) as) = Inr False"
    by (auto simp: attempt_taken_def guard_simps simp del: any_exists.simps)
  then have "rename_attempts digest exists p 1 (Suc k) = Inl ValueError" for k
    using rooted_rename [OF assms(1,2), of 1] by (auto simp: Let_def simp del: any_exists.simps)
  from this [of 999] show ?thesis
    using assms(2,3) stem parts safe_path_split(1) [OF assms(2)]
    by (simp add: rename_plan_def max_rename_attempts_def)
qed

section \<open>Attachments\<close>

text \<open>
  The planned attachments that are not blocked go to locations no two of which are the same when case is
  folded, and none of which was taken before.
\<close>

definition open_targets :: "attachment_plan list \<Rightarrow> string list" where
  "open_targets as = map (\<lambda>a. casefold (lo_path (at_destination a))) (filter (\<lambda>a. at_blocked a = None) as)"

lemma plan_attachments_open:
  "plan_attachments storage p parent stem taken as = Inr (Some (planned, ws)) \<Longrightarrow>
    distinct (open_targets planned) \<and> set (open_targets planned) \<inter> set taken = {} \<and>
    (\<forall>a \<in> set planned. lo_storage (at_destination a) = pl_target_storage p \<and> at_operation a = pl_operation p \<and>
      \<not> unsafe_relative_path (lo_path (at_destination a)) \<and>
      (case storage of None \<Rightarrow> True
       | Some exists \<Rightarrow> at_blocked a = None \<longrightarrow> exists (lo_path (at_destination a)) = Inr False))"
proof (induction as arbitrary: taken planned ws)
  case Nil
  then show ?case by (auto simp: open_targets_def)
next
  case (Cons a as)
  define path where "path = path_join parent [attachment_filename stem (ma_type a) (ma_suffix a) (lo_path (ma_source a))]"
  from Cons.prems obtain l where l: "make_location (pl_target_storage p) path = Inr l"
    by (cases "make_location (pl_target_storage p) path") (auto simp: path_def Let_def)
  then have lf: "lo_storage l = pl_target_storage p" "lo_path l = path"
    by (auto simp: make_location_def guard_simps)
  from Cons.prems l obtain b rest where
    b: "blocked_at storage path taken = Inr b"
    and r: "plan_attachments storage p parent stem (casefold path # taken) as = Inr (Some rest)"
    and pl: "planned = \<lparr>at_source = ma_source a, at_destination = l, at_type = ma_type a,
        at_operation = pl_operation p, at_suffix = ma_suffix a, at_language = ma_language a, at_blocked = b\<rparr> # fst rest"
    by (auto simp: path_def [symmetric] Let_def guard_simps split: option.splits prod.splits)
  have ob: "b = None \<Longrightarrow> casefold path \<notin> set taken \<and> (case storage of None \<Rightarrow> True | Some exists \<Rightarrow> exists path = Inr False)"
    using b by (auto simp: blocked_at_def Let_def split: option.splits sum.splits if_splits)
  obtain pl' ws' where rest: "rest = (pl', ws')" by (cases rest)
  from Cons.IH [OF r [unfolded rest]] show ?case
    using ob lf make_location_safe [OF l] unfolding pl rest
    by (cases b; cases storage) (auto simp: open_targets_def)
qed

section \<open>Classification\<close>

lemma matching_rules_set:
  "(r, e) \<in> set (matching_rules nfkc c rs) \<longleftrightarrow> r \<in> set rs \<and> cr_enabled r \<and> rule_matches nfkc c r = Some e"
  by (auto simp: matching_rules_def)

lemma sorted_matches_head:
  assumes "sort_by rule_before xs = y # ys"
  shows "y \<in> set xs" "\<forall>x \<in> set xs. rule_before y x"
  using ranked.sort_by_head [OF assms [unfolded rule_before_def]] by (auto simp: rule_before_def)

lemma rule_before_iff:
  "rule_before (r, e) (s, f) \<longleftrightarrow>
    cr_priority s < cr_priority r \<or> (cr_priority r = cr_priority s \<and> text_le (cr_id r) (cr_id s))"
  by (auto simp: rule_before_def ranked_before_def)

lemma sorted_matches_perm:
  assumes "mset rs = mset rs'" "distinct (map cr_id rs)"
  shows "sort_by rule_before (matching_rules nfkc c rs) = sort_by rule_before (matching_rules nfkc c rs')"
proof -
  have m: "mset (matching_rules nfkc c rs) = mset (matching_rules nfkc c rs')"
    using assms(1) by (simp add: matching_rules_def)
  have "x = y" if x: "x \<in> set (matching_rules nfkc c rs)" "y \<in> set (matching_rules nfkc c rs)"
    and xy: "ranked_before (cr_priority \<circ> fst) (cr_id \<circ> fst) x y" "ranked_before (cr_priority \<circ> fst) (cr_id \<circ> fst) y x" for x y
  proof -
    have "cr_id (fst x) = cr_id (fst y)" using ranked_before_antisym [OF xy] by simp
    moreover have "fst x \<in> set rs" "fst y \<in> set rs" using x by (auto simp: matching_rules_def)
    ultimately have "fst x = fst y" using assms(2) by (auto simp: distinct_map inj_on_def)
    with x show ?thesis by (auto simp: matching_rules_def)
  qed
  from ranked.sort_by_perm [OF m this] show ?thesis by (simp add: rule_before_def)
qed

lemma make_classification_rule_safe:
  assumes "make_classification_rule path r = Inr r'"
  shows "\<not> unsafe_relative_path (cr_path r')" "\<forall>l. cr_prefix r' = Some l \<longrightarrow> \<not> unsafe_relative_path l"
proof -
  obtain q segs where n: "normalize_classification_path path = Inr (q, segs)"
    using assms by (auto simp: make_classification_rule_def guard_simps)
  then have q: "\<not> unsafe_relative_path q"
    by (auto simp: normalize_classification_path_def Let_def guard_simps validate_relative_path_def)
  have "cr_path r' = q \<and> cr_prefix r' = cr_prefix r \<and> (\<forall>l. cr_prefix r = Some l \<longrightarrow> \<not> unsafe_relative_path l)"
    using assms n by (auto simp: make_classification_rule_def guard_simps validate_relative_path_def split: option.splits)
  with q show "\<not> unsafe_relative_path (cr_path r')" "\<forall>l. cr_prefix r' = Some l \<longrightarrow> \<not> unsafe_relative_path l" by auto
qed

end
