(* ===== verification/Recognition.thy ===== *)
theory Recognition
  imports Organize_Plan Regex
begin

text \<open>
  \<open>domain/recognition.py\<close>, \<open>application/recognition.py\<close> and \<open>application/policies.py\<close>: the conditions of a
  recognition rule and their checks, their evaluation with evidence and a trace, the engine that ranks
  the recognition types, and the policies a type resolves to. The pattern language of \<open>re\<close> in its full
  extent and the printing of compound values are the parameters of \<open>text_env\<close>.
\<close>

section \<open>Values and conditions\<close>

datatype pyval = PNone | PText string | PNum int | PSeq "pyval list"

record text_env =
  te_repr :: "pyval \<Rightarrow> string"
  te_compiles :: "string \<Rightarrow> bool"
  te_search :: "string \<Rightarrow> bool \<Rightarrow> string \<Rightarrow> bool"

definition py_str :: "text_env \<Rightarrow> pyval \<Rightarrow> string" where
  "py_str env v =
     (case v of PNone \<Rightarrow> ''None'' | PText s \<Rightarrow> s | PNum i \<Rightarrow> show_int i | PSeq _ \<Rightarrow> te_repr env v)"

datatype cond_field =
    FFilename | FPath | FDirectory | FExtension | FTitle | FYear | FSeason | FEpisode | FResolution | FSource
  | FVideoCodec | FAudioCodec | FAudioChannels | FHdr | FVersion | FReleaseGroup | FLanguage | FLibrary

datatype cond_operator =
    IsEqual | IsNotEqual | Contains | NotContains | StartsWith | EndsWith | IsIn | IsNotIn | MatchesRegex
  | GreaterThan | GreaterEqual | LessThan | LessEqual | Between | ContainsAny | ContainsAll

datatype logical_operator = AllOf | AnyOf | NoneOf | Always

datatype condition =
    Atomic cond_field cond_operator pyval bool
  | Logical logical_operator "condition list"

fun field_text :: "cond_field \<Rightarrow> string" where
  "field_text FFilename = ''filename''" | "field_text FPath = ''path''" | "field_text FDirectory = ''directory''"
| "field_text FExtension = ''extension''" | "field_text FTitle = ''title_candidate''" | "field_text FYear = ''year''"
| "field_text FSeason = ''season''" | "field_text FEpisode = ''episode''" | "field_text FResolution = ''resolution_tag''"
| "field_text FSource = ''source_tag''" | "field_text FVideoCodec = ''video_codec_tag''"
| "field_text FAudioCodec = ''audio_codec_tag''" | "field_text FAudioChannels = ''audio_channels_tag''"
| "field_text FHdr = ''hdr_tag''" | "field_text FVersion = ''version_tag''"
| "field_text FReleaseGroup = ''release_group''" | "field_text FLanguage = ''language_tag''"
| "field_text FLibrary = ''resource_library_id''"

fun operator_text :: "cond_operator \<Rightarrow> string" where
  "operator_text IsEqual = ''equals''" | "operator_text IsNotEqual = ''not_equals''"
| "operator_text Contains = ''contains''" | "operator_text NotContains = ''not_contains''"
| "operator_text StartsWith = ''starts_with''" | "operator_text EndsWith = ''ends_with''"
| "operator_text IsIn = ''in''" | "operator_text IsNotIn = ''not_in''" | "operator_text MatchesRegex = ''regex''"
| "operator_text GreaterThan = ''greater_than''" | "operator_text GreaterEqual = ''greater_than_or_equal''"
| "operator_text LessThan = ''less_than''" | "operator_text LessEqual = ''less_than_or_equal''"
| "operator_text Between = ''between''" | "operator_text ContainsAny = ''contains_any''"
| "operator_text ContainsAll = ''contains_all''"

fun logical_text :: "logical_operator \<Rightarrow> string" where
  "logical_text AllOf = ''and''" | "logical_text AnyOf = ''or''" | "logical_text NoneOf = ''not''"
| "logical_text Always = ''always''"

definition numeric_field :: "cond_field \<Rightarrow> bool" where
  "numeric_field f = (f \<in> {FYear, FSeason, FEpisode})"

definition collection_field :: "cond_field \<Rightarrow> bool" where
  "collection_field f = (f \<in> {FDirectory, FHdr, FVersion, FLanguage})"

definition allowed_operators :: "cond_field \<Rightarrow> cond_operator set" where
  "allowed_operators f =
     (if numeric_field f then {IsEqual, IsNotEqual, GreaterThan, GreaterEqual, LessThan, LessEqual, Between, IsIn}
      else if collection_field f then {Contains, NotContains, ContainsAny, ContainsAll}
      else {IsEqual, IsNotEqual, Contains, NotContains, StartsWith, EndsWith, IsIn, IsNotIn, MatchesRegex})"

text \<open>\<open>_looks_like_dangerous_regex\<close>: a back-reference, or a repeated group that holds a repetition.\<close>

definition dangerous_regex :: re where
  "dangerous_regex =
     Alt (Cat (ch backslash) (Cls (\<lambda>c. 49 \<le> code c \<and> code c \<le> 57)))
       (cats [ch (CHR ''(''), Star (Cls (\<lambda>c. c \<noteq> CHR '')'')), Cls (\<lambda>c. c = CHR ''+'' \<or> c = CHR ''*''),
              Star (Cls (\<lambda>c. c \<noteq> CHR '')'')), ch (CHR '')''),
              Cls (\<lambda>c. c = CHR ''+'' \<or> c = CHR ''*'' \<or> c = CHR ''{'')])"

definition check_atomic :: "text_env \<Rightarrow> cond_field \<Rightarrow> cond_operator \<Rightarrow> pyval \<Rightarrow> unit result" where
  "check_atomic env f op v =
     raise_if (op \<notin> allowed_operators f) ValueError
     (raise_if (op \<in> {IsIn, IsNotIn, Between, ContainsAny, ContainsAll} \<and> (case v of PSeq _ \<Rightarrow> False | _ \<Rightarrow> True)) ValueError
     (raise_if (op = Between \<and> (case v of PSeq vs \<Rightarrow> length vs \<noteq> 2 | _ \<Rightarrow> True)) ValueError
     (raise_if (op = MatchesRegex \<and>
         (256 < length (py_str env v) \<or> re_search dangerous_regex (py_str env v) \<or> \<not> te_compiles env (py_str env v)))
        ValueError (Inr ()))))"

lemma check_all_cong [fundef_cong]:
  "xs = ys \<Longrightarrow> (\<And>x. x \<in> set ys \<Longrightarrow> f x = g x) \<Longrightarrow> check_all f xs = check_all g ys"
proof (induction ys arbitrary: xs)
  case (Cons y ys)
  then show ?case by auto
qed simp

fun check_condition :: "text_env \<Rightarrow> condition \<Rightarrow> unit result" where
  "check_condition env (Atomic f op v cs) = check_atomic env f op v"
| "check_condition env (Logical op children) =
     bind_result (check_all (check_condition env) children) (\<lambda>_.
     raise_if (op = Always \<and> children \<noteq> []) ValueError
     (raise_if (op = NoneOf \<and> length children \<noteq> 1) ValueError
     (raise_if (op \<in> {AllOf, AnyOf} \<and> children = []) ValueError (Inr ()))))"

section \<open>Comparing\<close>

text \<open>What the file and its parse result hold in a field.\<close>

definition opt_text :: "string option \<Rightarrow> pyval" where
  "opt_text v = (case v of None \<Rightarrow> PNone | Some s \<Rightarrow> PText s)"

definition opt_num :: "int option \<Rightarrow> pyval" where
  "opt_num v = (case v of None \<Rightarrow> PNone | Some i \<Rightarrow> PNum i)"

definition text_seq :: "string list \<Rightarrow> pyval" where
  "text_seq ss = PSeq (map PText ss)"

definition field_value :: "cond_field \<Rightarrow> file_context \<Rightarrow> parse_result \<Rightarrow> pyval" where
  "field_value f c p =
     (case f of
        FFilename \<Rightarrow> PText (fc_filename c)
      | FPath \<Rightarrow> PText (slash # dropWhile (\<lambda>x. x = slash) (replace_char backslash slash (fc_path c)))
      | FDirectory \<Rightarrow> text_seq (fc_parents c)
      | FExtension \<Rightarrow> PText (if pr_extension p \<noteq> [] then pr_extension p else fc_extension c)
      | FTitle \<Rightarrow> PText (pr_title p)
      | FYear \<Rightarrow> opt_num (pr_year p)
      | FSeason \<Rightarrow> opt_num (pr_season p)
      | FEpisode \<Rightarrow> opt_num (pr_episode p)
      | FResolution \<Rightarrow> opt_text (pr_resolution p)
      | FSource \<Rightarrow> opt_text (pr_source p)
      | FVideoCodec \<Rightarrow> opt_text (pr_video_codec p)
      | FAudioCodec \<Rightarrow> opt_text (pr_audio_codec p)
      | FAudioChannels \<Rightarrow> opt_text (pr_audio_channels p)
      | FHdr \<Rightarrow> text_seq (pr_hdrs p)
      | FVersion \<Rightarrow> text_seq (pr_versions p)
      | FReleaseGroup \<Rightarrow> opt_text (pr_release_group p)
      | FLanguage \<Rightarrow> text_seq (pr_languages p)
      | FLibrary \<Rightarrow> PText (fc_library c))"

definition normalize_value :: "text_env \<Rightarrow> bool \<Rightarrow> pyval \<Rightarrow> string" where
  "normalize_value env sensitive v = (let s = py_str env v in if sensitive then s else casefold s)"

definition seq_items :: "pyval \<Rightarrow> pyval list" where
  "seq_items v = (case v of PSeq vs \<Rightarrow> vs | _ \<Rightarrow> [])"

text \<open>Ordering an integer with anything else is a \<open>TypeError\<close>.\<close>

definition num_less :: "pyval \<Rightarrow> pyval \<Rightarrow> bool result" where
  "num_less a b = (case (a, b) of (PNum x, PNum y) \<Rightarrow> Inr (x < y) | _ \<Rightarrow> Inl TypeError)"

definition num_le :: "pyval \<Rightarrow> pyval \<Rightarrow> bool result" where
  "num_le a b = (case (a, b) of (PNum x, PNum y) \<Rightarrow> Inr (x \<le> y) | _ \<Rightarrow> Inl TypeError)"

definition compare_numeric :: "cond_operator \<Rightarrow> pyval \<Rightarrow> pyval \<Rightarrow> bool result" where
  "compare_numeric op actual expected =
     (case op of
        IsEqual \<Rightarrow> Inr (actual = expected)
      | IsNotEqual \<Rightarrow> Inr (actual \<noteq> expected)
      | GreaterThan \<Rightarrow> num_less expected actual
      | GreaterEqual \<Rightarrow> num_le expected actual
      | LessThan \<Rightarrow> num_less actual expected
      | LessEqual \<Rightarrow> num_le actual expected
      | Between \<Rightarrow>
          (case seq_items expected of
             [low, high] \<Rightarrow> bind_result (num_le low actual) (\<lambda>b. if b then num_le actual high else Inr False)
           | _ \<Rightarrow> Inl TypeError)
      | _ \<Rightarrow> Inr (actual \<in> set (seq_items expected)))"

definition compare_collection :: "text_env \<Rightarrow> bool \<Rightarrow> cond_operator \<Rightarrow> pyval \<Rightarrow> pyval \<Rightarrow> bool" where
  "compare_collection env sensitive op actual expected =
     (let norm = normalize_value env sensitive; hay = map norm (seq_items actual) in
      if op \<in> {Contains, NotContains} then (norm expected \<in> set hay) = (op = Contains)
      else let needles = map norm (seq_items expected) in
        if op = ContainsAny then list_ex (\<lambda>n. n \<in> set hay) needles
        else list_all (\<lambda>n. n \<in> set hay) needles)"

definition compare_text :: "text_env \<Rightarrow> bool \<Rightarrow> cond_operator \<Rightarrow> pyval \<Rightarrow> pyval \<Rightarrow> bool" where
  "compare_text env sensitive op actual expected =
     (let norm = normalize_value env sensitive; left = norm actual in
      if op = MatchesRegex then te_search env (py_str env expected) sensitive (take 4096 (py_str env actual))
      else if op \<in> {IsIn, IsNotIn} then (left \<in> set (map norm (seq_items expected))) = (op = IsIn)
      else let right = norm expected in
        (case op of
           IsEqual \<Rightarrow> left = right
         | IsNotEqual \<Rightarrow> left \<noteq> right
         | Contains \<Rightarrow> occurs_in right left
         | NotContains \<Rightarrow> \<not> occurs_in right left
         | StartsWith \<Rightarrow> starts_with right left
         | _ \<Rightarrow> ends_with right left))"

definition compare_condition ::
  "text_env \<Rightarrow> cond_field \<Rightarrow> cond_operator \<Rightarrow> pyval \<Rightarrow> bool \<Rightarrow> pyval \<Rightarrow> bool result" where
  "compare_condition env f op expected sensitive actual =
     (if actual = PNone then Inr (op = IsNotEqual \<and> expected \<noteq> PNone)
      else if numeric_field f then compare_numeric op actual expected
      else if collection_field f then Inr (compare_collection env sensitive op actual expected)
      else Inr (compare_text env sensitive op actual expected))"

section \<open>Evaluating\<close>

record rule_evidence =
  ev_rule :: string
  ev_field :: string
  ev_operator :: string
  ev_expected :: string
  ev_actual :: string

datatype trace =
  Trace (tr_path: string) (tr_kind: string) (tr_operator: string) (tr_field: "string option")
    (tr_expected: "string option") (tr_actual: "string option") (tr_truth: bool) (tr_children: "trace list")
    (tr_truncated: bool)

definition trace_children_limit :: nat where
  "trace_children_limit = 24"

definition trace_text_limit :: nat where
  "trace_text_limit = 240"

definition bounded_condition_text :: "text_env \<Rightarrow> pyval \<Rightarrow> string" where
  "bounded_condition_text env v =
     take trace_text_limit
       (case v of
          PSeq vs \<Rightarrow> ''['' @ join_with '', '' (sort_by text_le (map (py_str env) vs)) @ '']''
        | _ \<Rightarrow> py_str env v)"

lemma zip_size [termination_simp]: "(a, b) \<in> set (zip xs ys) \<Longrightarrow> size b < Suc (size_list size ys)"
  by (auto simp: less_Suc_eq_le intro: size_list_estimation' dest: set_zip_rightD)

fun repath :: "string \<Rightarrow> trace \<Rightarrow> trace" where
  "repath prefix (Trace path kind op f e a t children truncated) =
     Trace prefix kind op f e a t
       (map (\<lambda>(i, c). repath (prefix @ ''.'' @ show_nat i) c) (zip [0..<length children] children)) truncated"

definition group_trace :: "string \<Rightarrow> trace list \<Rightarrow> bool \<Rightarrow> trace" where
  "group_trace op children matched =
     Trace [] ''logical'' op None None None matched
       (map (\<lambda>(i, c). repath (show_nat i) c)
         (zip [0..<trace_children_limit] (take trace_children_limit children)))
       (trace_children_limit < length children)"

type_synonym cond_match = "bool \<times> rule_evidence list \<times> trace"

definition atomic_match ::
  "text_env \<Rightarrow> string \<Rightarrow> cond_field \<Rightarrow> cond_operator \<Rightarrow> pyval \<Rightarrow> pyval \<Rightarrow> bool \<Rightarrow> cond_match" where
  "atomic_match env rule f op expected actual matched =
     (matched,
      if matched
      then [\<lparr>ev_rule = rule, ev_field = field_text f, ev_operator = operator_text op,
             ev_expected = te_repr env expected, ev_actual = te_repr env actual\<rparr>]
      else [],
      Trace [] ''atomic'' (operator_text op) (Some (field_text f)) (Some (bounded_condition_text env expected))
        (Some (bounded_condition_text env actual)) matched [] False)"

definition group_condition :: "string \<Rightarrow> logical_operator \<Rightarrow> cond_match list \<Rightarrow> cond_match" where
  "group_condition rule op ms =
     (let traces = map (snd \<circ> snd) ms in
      case op of
        Always \<Rightarrow> (True, [], Trace [] ''logical'' (logical_text op) None None None True [] False)
      | AllOf \<Rightarrow>
          (let matched = list_all fst ms in
           (matched, if matched then concat (map (fst \<circ> snd) ms) else [], group_trace (logical_text op) traces matched))
      | AnyOf \<Rightarrow>
          (let matched = list_ex fst ms in
           (matched, concat (map (fst \<circ> snd) (filter fst ms)), group_trace (logical_text op) traces matched))
      | NoneOf \<Rightarrow>
          (let matched = \<not> fst (hd ms) in
           (matched,
            if matched
            then [\<lparr>ev_rule = rule, ev_field = ''not'', ev_operator = ''not'',
                   ev_expected = ''condition must not match'', ev_actual = ''condition did not match''\<rparr>]
            else [],
            group_trace (logical_text op) traces matched)))"

lemma map_result_cong [fundef_cong]:
  "xs = ys \<Longrightarrow> (\<And>x. x \<in> set ys \<Longrightarrow> f x = g x) \<Longrightarrow> map_result f xs = map_result g ys"
proof (induction ys arbitrary: xs)
  case (Cons y ys)
  then show ?case by auto
qed simp

fun evaluate_condition ::
  "text_env \<Rightarrow> file_context \<Rightarrow> parse_result \<Rightarrow> string \<Rightarrow> condition \<Rightarrow> cond_match result" where
  "evaluate_condition env c p rule (Atomic f op expected sensitive) =
     (let actual = field_value f c p in
      bind_result (compare_condition env f op expected sensitive actual) (\<lambda>matched.
      Inr (atomic_match env rule f op expected actual matched)))"
| "evaluate_condition env c p rule (Logical op children) =
     (if op = Always then Inr (group_condition rule op [])
      else bind_result (map_result (evaluate_condition env c p rule) children) (\<lambda>ms.
        Inr (group_condition rule op ms)))"

section \<open>The engine\<close>

record recognition_rule =
  rr_id :: string
  rr_name :: string
  rr_condition :: condition
  rr_output :: string
  rr_enabled :: bool
  rr_priority :: int
  rr_score :: rat
  rr_stop :: bool

definition make_recognition_rule :: "recognition_rule \<Rightarrow> recognition_rule result" where
  "make_recognition_rule r =
     raise_if (strip (rr_id r) = [] \<or> strip (rr_name r) = [] \<or> strip (rr_output r) = []) ValueError
     (raise_if (rr_score r < 0) ValueError (Inr r))"

record recognition_engine =
  en_types :: "string \<rightharpoonup> recognition_type"
  en_rules :: "recognition_rule list"

definition rule_order :: "recognition_rule \<Rightarrow> recognition_rule \<Rightarrow> bool" where
  "rule_order = ranked_before rr_priority rr_id"

definition types_by_id :: "recognition_type list \<Rightarrow> (string \<rightharpoonup> recognition_type)" where
  "types_by_id ts = map_of (rev (map (\<lambda>t. (rt_id t, t)) ts))"

definition check_output :: "(string \<rightharpoonup> recognition_type) \<Rightarrow> recognition_rule \<Rightarrow> unit result" where
  "check_output types r =
     (case types (rr_output r) of None \<Rightarrow> Inl ValueError | Some t \<Rightarrow> raise_if (\<not> rt_enabled t) ValueError (Inr ()))"

definition make_engine :: "recognition_type list \<Rightarrow> recognition_rule list \<Rightarrow> recognition_engine result" where
  "make_engine ts rs =
     raise_if (\<not> distinct (map rt_id ts)) ValueError
     (raise_if (\<not> distinct (map rr_id rs)) ValueError
     (bind_result (check_all (check_output (types_by_id ts)) rs) (\<lambda>_.
     Inr \<lparr>en_types = types_by_id ts, en_rules = sort_by rule_order rs\<rparr>)))"

datatype recognition_status = Matched | Unrecognized | Ambiguous

record matched_rule =
  mr_rule :: string
  mr_type :: string
  mr_priority :: int
  mr_score :: rat

text \<open>A type with its greatest priority and the sum of its scores.\<close>

record ranking =
  rk_priority :: int
  rk_score :: rat
  rk_type :: string

record recognition_result =
  re_type :: "recognition_type option"
  re_rule :: string
  re_confidence :: rat
  re_status :: recognition_status
  re_matched :: "matched_rule list"
  re_score :: rat
  re_evidence :: "rule_evidence list"
  re_reasons :: "(string \<times> string) list"
  re_warnings :: "string list"
  re_alternatives :: "ranking list"

text \<open>The matching rules in order, up to the first that stops the search.\<close>

fun collect_matches ::
  "text_env \<Rightarrow> file_context \<Rightarrow> parse_result \<Rightarrow> recognition_rule list \<Rightarrow>
    (recognition_rule \<times> rule_evidence list) list result" where
  "collect_matches env c p [] = Inr []"
| "collect_matches env c p (r # rs) =
     (if \<not> rr_enabled r then collect_matches env c p rs
      else bind_result (evaluate_condition env c p (rr_id r) (rr_condition r)) (\<lambda>(matched, evidence, _).
        if \<not> matched then collect_matches env c p rs
        else if rr_stop r then Inr [(r, evidence)]
        else bind_result (collect_matches env c p rs) (\<lambda>ms. Inr ((r, evidence) # ms))))"

definition rank_type :: "recognition_rule list \<Rightarrow> string \<Rightarrow> ranking" where
  "rank_type rs t =
     (let own = filter (\<lambda>r. rr_output r = t) rs in
      \<lparr>rk_priority = Max (set (map rr_priority own)), rk_score = sum_list (map rr_score own), rk_type = t\<rparr>)"

definition ranking_before :: "ranking \<Rightarrow> ranking \<Rightarrow> bool" where
  "ranking_before a b =
     (rk_priority b < rk_priority a \<or> (rk_priority a = rk_priority b \<and>
       (rk_score b < rk_score a \<or> (rk_score a = rk_score b \<and> text_le (rk_type a) (rk_type b)))))"

definition rankings :: "recognition_rule list \<Rightarrow> ranking list" where
  "rankings rs = sort_by ranking_before (map (rank_type rs) (first_occurrences (map rr_output rs)))"

definition ties_with :: "ranking \<Rightarrow> ranking \<Rightarrow> bool" where
  "ties_with a b = (rk_priority a = rk_priority b \<and> rk_score a = rk_score b)"

definition matched_rule_of :: "recognition_rule \<Rightarrow> matched_rule" where
  "matched_rule_of r = \<lparr>mr_rule = rr_id r, mr_type = rr_output r, mr_priority = rr_priority r, mr_score = rr_score r\<rparr>"

definition unrecognized :: recognition_result where
  "unrecognized =
     \<lparr>re_type = None, re_rule = [], re_confidence = 0, re_status = Unrecognized, re_matched = [], re_score = 0,
      re_evidence = [], re_reasons = [(''NO_RULE_MATCH'', ''No enabled recognition rule matched'')],
      re_warnings = [], re_alternatives = []\<rparr>"

definition decide :: "(string \<rightharpoonup> recognition_type) \<Rightarrow> (recognition_rule \<times> rule_evidence list) list \<Rightarrow> recognition_result" where
  "decide types ms =
     (let rs = map fst ms; ranked = rankings rs in
      case ranked of
        [] \<Rightarrow> unrecognized
      | best # _ \<Rightarrow>
          (let matched = map matched_rule_of rs; found = concat (map snd ms); score = rk_score best in
           if 1 < length (filter (ties_with best) ranked)
           then \<lparr>re_type = None, re_rule = [], re_confidence = 0, re_status = Ambiguous, re_matched = matched,
                  re_score = score, re_evidence = found,
                  re_reasons = [(''AMBIGUOUS_MATCH'', ''Multiple recognition types have equal priority and score'')],
                  re_warnings = [''manual recognition is required''], re_alternatives = ranked\<rparr>
           else \<lparr>re_type = types (rk_type best),
                  re_rule = rr_id (hd (filter (\<lambda>r. rr_output r = rk_type best) rs)),
                  re_confidence = (if score \<noteq> 0 then min 1 (score / 100) else 0), re_status = Matched,
                  re_matched = matched, re_score = score, re_evidence = found,
                  re_reasons = [(''RULE_MATCH'', ''Matched recognition type '' @ rk_type best)],
                  re_warnings = [], re_alternatives = ranked\<rparr>))"

definition recognize ::
  "text_env \<Rightarrow> recognition_engine \<Rightarrow> file_context \<Rightarrow> parse_result \<Rightarrow> recognition_result result" where
  "recognize env e c p =
     bind_result (collect_matches env c p (en_rules e)) (\<lambda>ms. Inr (decide (en_types e) ms))"

text \<open>\<open>evaluate_rule\<close>: one submitted rule, without competition.\<close>

definition evaluate_rule ::
  "text_env \<Rightarrow> recognition_rule \<Rightarrow> file_context \<Rightarrow> parse_result \<Rightarrow> (string \<times> cond_match) result" where
  "evaluate_rule env r c p =
     bind_result (evaluate_condition env c p (rr_id r) (rr_condition r)) (\<lambda>m. Inr (rr_id r, m))"

section \<open>The policies of a type\<close>

record catalogs =
  ca_metadata :: "(string \<rightharpoonup> bool) option"
  ca_naming :: "(string \<rightharpoonup> bool) option"
  ca_classification :: "(string \<rightharpoonup> bool) option"
  ca_organize :: "(string \<rightharpoonup> bool) option"

text \<open>The enabled policies by their type; a second one for a type is an error.\<close>

fun make_type_policies :: "(string \<rightharpoonup> type_policy) \<Rightarrow> type_policy list \<Rightarrow> (string \<rightharpoonup> type_policy) result" where
  "make_type_policies reg [] = Inr reg"
| "make_type_policies reg (p # ps) =
     (if \<not> tp_enabled p then make_type_policies reg ps
      else raise_if (reg (rt_id (tp_type p)) \<noteq> None) PolicyDuplicateType
        (make_type_policies (reg(rt_id (tp_type p) \<mapsto> p)) ps))"

definition check_reference :: "(string \<rightharpoonup> bool) option \<times> string \<Rightarrow> unit result" where
  "check_reference cr =
     (case fst cr of
        None \<Rightarrow> Inr ()
      | Some catalog \<Rightarrow>
          (case catalog (snd cr) of
             None \<Rightarrow> Inl PolicyInvalidReference | Some enabled \<Rightarrow> raise_if (\<not> enabled) PolicyDisabled (Inr ())))"

definition resolve_type_policy :: "catalogs \<Rightarrow> (string \<rightharpoonup> type_policy) \<Rightarrow> string \<Rightarrow> type_policy result" where
  "resolve_type_policy ca reg k =
     (case reg k of
        None \<Rightarrow> Inl PolicyMissingType
      | Some p \<Rightarrow>
          raise_if (\<not> rt_enabled (tp_type p)) PolicyTypeDisabled
          (bind_result
            (check_all check_reference
              [(ca_metadata ca, tp_metadata p), (ca_naming ca, tp_naming p),
               (ca_classification ca, tp_classification p), (ca_organize ca, op_id (tp_organize p))]) (\<lambda>_. Inr p)))"

end
