(* ===== verification/Recognition_Facts.thy ===== *)
theory Recognition_Facts
  imports Recognition
begin

text \<open>
  The lemmas about \<open>Recognition\<close>: the order of the rules does not matter to the engine, and what the
  ranking of the types decides.
\<close>

section \<open>The engine does not depend on the order of its rules\<close>

lemma rule_order_unique:
  assumes "distinct (map rr_id rs)" "x \<in> set rs" "y \<in> set rs" "rule_order x y" "rule_order y x"
  shows "x = y"
proof -
  have "rr_id x = rr_id y" using ranked_before_antisym [OF assms(4,5) [unfolded rule_order_def]] by simp
  with assms(1-3) show ?thesis by (auto simp: distinct_map inj_on_def)
qed

lemma distinct_map_mset: "mset xs = mset ys \<Longrightarrow> distinct (map f xs) \<longleftrightarrow> distinct (map f ys)"
  by (rule mset_eq_imp_distinct_iff) simp

lemma make_engine_perm:
  assumes "make_engine ts rs = Inr e" "mset rs' = mset rs"
  shows "make_engine ts rs' = Inr e"
proof -
  from assms(1) have d: "distinct (map rt_id ts)" "distinct (map rr_id rs)"
    and c: "check_all (check_output (types_by_id ts)) rs = Inr ()"
    and e: "e = \<lparr>en_types = types_by_id ts, en_rules = sort_by rule_order rs\<rparr>"
    by (auto simp: make_engine_def guard_simps)
  have "distinct (map rr_id rs')" using d(2) distinct_map_mset [OF assms(2)] by blast
  moreover have "check_all (check_output (types_by_id ts)) rs' = Inr ()"
    using c mset_eq_setD [OF assms(2)] by (simp add: guard_simps)
  moreover have "sort_by rule_order rs' = sort_by rule_order rs"
    using ranked.sort_by_perm [OF assms(2) [symmetric], of rr_priority rr_id] rule_order_unique [OF d(2)]
    by (auto simp: rule_order_def)
  ultimately show ?thesis using d(1) e by (simp add: make_engine_def)
qed

section \<open>Ranking\<close>

lemma ranking_before_total: "ranking_before a b \<or> ranking_before b a"
  using text_le_total [of "rk_type a" "rk_type b"] by (auto simp: ranking_before_def)

lemma ranking_before_trans: "ranking_before a b \<Longrightarrow> ranking_before b c \<Longrightarrow> ranking_before a c"
  by (auto simp: ranking_before_def intro: text_le_trans)

interpretation ranking_order: total_preorder ranking_before
  by unfold_locales (rule ranking_before_total, rule ranking_before_trans)

text \<open>One type beats another by priority, then by the sum of the scores of its rules.\<close>

definition beats :: "ranking \<Rightarrow> ranking \<Rightarrow> bool" where
  "beats a b = (rk_priority b < rk_priority a \<or> (rk_priority a = rk_priority b \<and> rk_score b < rk_score a))"

lemma set_rankings: "set (rankings rs) = rank_type rs ` rr_output ` set rs"
  by (auto simp: rankings_def)

lemma rank_type_inject: "rank_type rs t = rank_type rs u \<Longrightarrow> t = u"
  by (simp add: rank_type_def Let_def)

lemma distinct_rankings: "distinct (rankings rs)"
proof -
  have "distinct (map (rank_type rs) (first_occurrences (map rr_output rs)))"
    by (auto simp: distinct_map inj_on_def dest: rank_type_inject)
  then show ?thesis
    unfolding rankings_def by (metis mset_eq_imp_distinct_iff mset_sort_by)
qed

lemma two_in_filter:
  assumes "distinct xs"
  shows "1 < length (filter P xs) \<longleftrightarrow> (\<exists>x \<in> set xs. \<exists>y \<in> set xs. x \<noteq> y \<and> P x \<and> P y)"
proof -
  have "length (filter P xs) = card {x \<in> set xs. P x}"
    using distinct_card [OF distinct_filter [OF assms, of P]] by simp
  moreover have "card {x \<in> set xs. P x} \<le> Suc 0 \<longleftrightarrow> (\<forall>a \<in> {x \<in> set xs. P x}. \<forall>b \<in> {x \<in> set xs. P x}. a = b)"
    by (rule card_le_Suc0_iff_eq) simp
  ultimately show ?thesis by auto
qed

lemma decide_cases:
  assumes ms: "ms \<noteq> []"
  defines "outs \<equiv> rr_output ` fst ` set ms" and "rank \<equiv> rank_type (map fst ms)"
  shows "(re_status (decide types ms) = Matched \<and>
      (\<exists>t \<in> outs. re_type (decide types ms) = types t \<and> (\<forall>u \<in> outs. u \<noteq> t \<longrightarrow> beats (rank t) (rank u)))) \<or>
    (re_status (decide types ms) = Ambiguous \<and> re_type (decide types ms) = None \<and>
      (\<exists>t \<in> outs. \<exists>u \<in> outs. t \<noteq> u \<and> ties_with (rank t) (rank u) \<and> (\<forall>v \<in> outs. \<not> beats (rank v) (rank t))))"
proof -
  let ?rs = "map fst ms"
  have set: "set (rankings ?rs) = rank ` outs" by (simp add: set_rankings outs_def rank_def)
  have "outs \<noteq> {}" using ms by (auto simp: outs_def)
  then obtain best more where b: "rankings ?rs = best # more" using set by (cases "rankings ?rs") auto
  note h = ranking_order.sort_by_head [OF b [unfolded rankings_def], folded rankings_def]
  have best: "best \<in> rank ` outs" using set b by auto
  then obtain t where t: "t \<in> outs" "best = rank t" by auto
  have first: "\<forall>u \<in> outs. ranking_before best (rank u)"
    using h(2) by (auto simp: outs_def rank_def)
  have none: "\<forall>v \<in> outs. \<not> beats (rank v) best"
    using first by (fastforce simp: ranking_before_def beats_def)
  have inj: "u \<noteq> v \<Longrightarrow> rank u \<noteq> rank v" for u v using rank_type_inject by (auto simp: rank_def)
  have tie: "1 < length (filter (ties_with best) (rankings ?rs)) \<longleftrightarrow> (\<exists>u \<in> outs. u \<noteq> t \<and> ties_with best (rank u))"
  proof -
    have "1 < length (filter (ties_with best) (rankings ?rs)) \<longleftrightarrow>
        (\<exists>x \<in> rank ` outs. \<exists>y \<in> rank ` outs. x \<noteq> y \<and> ties_with best x \<and> ties_with best y)"
      by (simp only: two_in_filter [OF distinct_rankings] set)
    also have "\<dots> \<longleftrightarrow> (\<exists>u \<in> outs. u \<noteq> t \<and> ties_with best (rank u))"
    proof
      assume "\<exists>x \<in> rank ` outs. \<exists>y \<in> rank ` outs. x \<noteq> y \<and> ties_with best x \<and> ties_with best y"
      then obtain u v where uv: "u \<in> outs" "v \<in> outs" "rank u \<noteq> rank v" "ties_with best (rank u)" "ties_with best (rank v)"
        by auto
      show "\<exists>u \<in> outs. u \<noteq> t \<and> ties_with best (rank u)"
      proof (cases "u = t")
        case True
        then have "v \<noteq> t" using uv(3) by blast
        with uv(2,5) show ?thesis by blast
      qed (use uv in blast)
    next
      assume "\<exists>u \<in> outs. u \<noteq> t \<and> ties_with best (rank u)"
      then obtain u where u: "u \<in> outs" "u \<noteq> t" "ties_with best (rank u)" by blast
      moreover have "ties_with best (rank t)" using t by (simp add: ties_with_def)
      ultimately show "\<exists>x \<in> rank ` outs. \<exists>y \<in> rank ` outs. x \<noteq> y \<and> ties_with best x \<and> ties_with best y"
        using t(1) inj [OF u(2)] by blast
    qed
    finally show ?thesis .
  qed
  show ?thesis
  proof (cases "1 < length (filter (ties_with best) (rankings ?rs))")
    case True
    then have d: "re_status (decide types ms) = Ambiguous" "re_type (decide types ms) = None"
      by (simp_all add: decide_def b Let_def)
    from True tie obtain u where u: "u \<in> outs" "u \<noteq> t" "ties_with best (rank u)" by blast
    have "\<exists>t \<in> outs. \<exists>u \<in> outs. t \<noteq> u \<and> ties_with (rank t) (rank u) \<and> (\<forall>v \<in> outs. \<not> beats (rank v) (rank t))"
      by (intro bexI [of _ t] bexI [of _ u] conjI) (use t u none in simp_all)
    with d show ?thesis by blast
  next
    case False
    then have d: "re_status (decide types ms) = Matched" "re_type (decide types ms) = types (rk_type best)"
      by (simp_all add: decide_def b Let_def)
    have "rk_type best = t" using t(2) by (simp add: rank_def rank_type_def Let_def)
    moreover have "beats (rank t) (rank u)" if u: "u \<in> outs" "u \<noteq> t" for u
      using False tie u first t(2) by (auto simp: ranking_before_def beats_def ties_with_def)
    ultimately have "\<exists>t \<in> outs. re_type (decide types ms) = types t \<and> (\<forall>u \<in> outs. u \<noteq> t \<longrightarrow> beats (rank t) (rank u))"
      using d t(1) by (intro bexI [of _ t]) simp_all
    with d show ?thesis by blast
  qed
qed

end
