(* ===== verification/Organize_Examples.thy ===== *)
theory Organize_Examples
  imports Organize_Facts Recognition_Facts
begin

text \<open>One film, its policies and its plan: the concrete inputs at which the properties are applied.\<close>

definition film_type :: recognition_type where
  "film_type = \<lparr>rt_id = ''movie'', rt_name = ''Movie'', rt_description = [], rt_enabled = True, rt_created = 0, rt_updated = 0\<rparr>"

definition film_identity :: media_identity where
  "film_identity =
     \<lparr>mi_provider = ''TMDB'', mi_provider_id = ''7'', mi_type = Movie, mi_title = ''Heat'', mi_original_title = None,
      mi_year = Some 1995, mi_season = None, mi_episode = None, mi_episodes = [], mi_episode_title = None,
      mi_genres = [''Crime''], mi_countries = [], mi_languages = [], mi_keywords = [], mi_alternative_titles = [],
      mi_translated_titles = [], mi_overview = None\<rparr>"

definition film_parsed :: parse_result where
  "film_parsed =
     \<lparr>pr_title = ''Heat'', pr_year = None, pr_season = None, pr_episode = None, pr_episodes = [],
      pr_resolution = None, pr_source = None, pr_video_codec = None, pr_audio = None, pr_hdr = None,
      pr_version = None, pr_release_group = None, pr_titles = [], pr_audio_codec = None,
      pr_audio_channels = None, pr_hdrs = [], pr_versions = [], pr_languages = [], pr_extension = ''mkv''\<rparr>"

definition film_rule :: classification_rule where
  "film_rule =
     \<lparr>cr_id = ''crime'', cr_name = ''Crime'', cr_library = ''films'', cr_path = ''Movies/Crime'', cr_priority = 1,
      cr_enabled = True, cr_prefix = None, cr_types = [Movie], cr_genres = [''crime''], cr_countries = [],
      cr_languages = [], cr_year_min = Some 1990, cr_year_max = None, cr_keywords = [], cr_confidence = 100\<rparr>"

definition other_rule :: classification_rule where
  "other_rule = film_rule\<lparr>cr_id := ''any'', cr_path := ''Movies'', cr_priority := 0, cr_genres := [], cr_year_min := None\<rparr>"

definition film_policy :: classification_policy where
  "film_policy = \<lparr>cp_id = ''c'', cp_name = ''C'', cp_rules = [other_rule, film_rule], cp_enabled = True\<rparr>"

definition film_context :: classification_context where
  "film_context = \<lparr>cc_recognition_type = film_type, cc_identity = film_identity, cc_parsed = film_parsed\<rparr>"

definition film_naming_policy :: naming_policy where
  "film_naming_policy =
     \<lparr>np_id = ''n'', np_name = ''N'', np_movie_directory = ''{title}'', np_movie_file = ''{title}.{ext}'',
      np_series_directory = ''{title}'', np_season_directory = ''S'', np_episode_file = ''E'', np_multi_file = ''M'',
      np_enabled = True, np_mode = ModeAuto, np_missing = OmitToken, np_max = 200\<rparr>"

definition film_naming_context :: naming_context where
  "film_naming_context =
     \<lparr>nc_recognition_type = ''movie'', nc_identity = film_identity, nc_parsed = film_parsed, nc_filename = ''heat.mkv'',
      nc_extension = []\<rparr>"

definition film_name :: naming_result where
  "film_name =
     \<lparr>nr_directory = ''Heat'', nr_filename = ''Heat.mkv'', nr_policy = ''n'', nr_recognition_type = ''movie'',
      nr_type = Some Movie, nr_segments = [''Heat''], nr_variables = [], nr_warnings = [], nr_changes = []\<rparr>"

definition film_organize :: organize_policy where
  "film_organize =
     \<lparr>op_id = ''o'', op_operation = OpMove, op_strategy = RenameConflict,
      op_rollback = \<lparr>rb_enabled = False, rb_directories = True\<rparr>,
      op_cleanup = \<lparr>cl_mode = CleanupNone, cl_parents = 1, cl_patterns = [], cl_entries = 100\<rparr>\<rparr>"

definition film_type_policy :: type_policy where
  "film_type_policy =
     \<lparr>tp_id = ''p'', tp_type = film_type, tp_metadata = ''m'', tp_naming = ''n'', tp_classification = ''c'',
      tp_organize = film_organize, tp_enabled = True\<rparr>"

definition film_request :: "string \<Rightarrow> plan_request" where
  "film_request v =
     \<lparr>rq_source_storage = ''in'', rq_source = ''heat.mkv'', rq_source_path = Some ''heat.mkv'', rq_source_root = [],
      rq_recognized = Some film_type, rq_policy = film_type_policy,
      rq_library = \<lparr>ml_id = ''films'', ml_storage = ''out'', ml_root = v\<rparr>,
      rq_naming = film_name, rq_classification = result_for_rule film_rule ''c'' ''movie'' [], rq_identity = None\<rparr>"

definition no_digest :: "string \<Rightarrow> string" where
  "no_digest s = []"

text \<open>A storage that holds the given paths.\<close>

definition holds_paths :: "string list \<Rightarrow> string \<Rightarrow> bool result" where
  "holds_paths ps p = Inr (p \<in> set ps)"

definition film_plan :: "string \<Rightarrow> string list \<Rightarrow> plan result" where
  "film_plan v ps = make_plan no_digest (Some (holds_paths ps)) Map.empty Map.empty (film_request v)"

lemmas film_defs =
  film_request_def film_type_policy_def film_organize_def film_type_def film_name_def film_rule_def other_rule_def
  film_identity_def film_parsed_def

lemma film_plan_ready:
  "case film_plan ''library'' [] of
     Inr p \<Rightarrow> pl_status p = PlanReady \<and> pl_operation p = DoMove \<and> pl_target p = ''library/Movies/Crime/Heat/Heat.mkv''
   | Inl _ \<Rightarrow> False"
  by code_simp

lemma film_plan_taken:
  "case film_plan ''library'' [''library/Movies/Crime/Heat/Heat.mkv'', ''library/Movies/Crime/Heat/Heat (1).mkv''] of
     Inr p \<Rightarrow> pl_status p = PlanConflict \<and> pl_root p = ''library'' \<and> pl_relative p = ''Movies/Crime/Heat/Heat.mkv'' \<and>
       (case rename_plan no_digest
          (holds_paths [''library/Movies/Crime/Heat/Heat.mkv'', ''library/Movies/Crime/Heat/Heat (1).mkv'']) p of
          Inr p' \<Rightarrow> pl_target p' = ''library/Movies/Crime/Heat/Heat (2).mkv'' | Inl _ \<Rightarrow> False)
   | Inl _ \<Rightarrow> False"
  by code_simp

lemma film_named:
  "case name_media (\<lambda>s. s) (CHR ''~'') film_naming_context film_naming_policy of
     Inr n \<Rightarrow> nr_directory n = ''Heat'' \<and> nr_filename n = ''Heat.mkv'' | Inl _ \<Rightarrow> False"
  by code_simp

lemma film_classified:
  "case classify (\<lambda>s. s) film_context film_policy of Inr k \<Rightarrow> co_rule k = Some ''crime'' | Inl _ \<Rightarrow> False"
  by code_simp

end
