(* ===== verification/Workflow_Retry.thy ===== *)
theory Workflow_Retry
  imports Prelude
begin

text \<open>
  \<open>domain/workflow_retry.py\<close> and \<open>application/workflow_retry.py\<close>: retrying a read-only operation with
  a growing, jittered delay that a cancellation can interrupt. What the controller calls (the operation,
  the cancellation check, the random source) answers by the number of the call; a sleep is recorded.
  Seconds are rationals. The callback told of each retry, which the callers use for logging, is left out.
\<close>

section \<open>Policies and categories\<close>

datatype retry_category = CategoryTimeout | CategoryConnection | CategoryRateLimited | CategoryProvider

record retry_policy =
  ry_enabled :: bool
  ry_attempts :: int
  ry_base :: rat
  ry_max :: rat
  ry_jitter :: rat

definition make_retry_policy :: "retry_policy \<Rightarrow> retry_policy result" where
  "make_retry_policy p =
     raise_if (\<not> (1 \<le> ry_attempts p \<and> ry_attempts p \<le> 10)) ValueError
     (raise_if (\<not> (0 \<le> ry_base p \<and> ry_base p \<le> 300)) ValueError
     (raise_if (\<not> (ry_base p \<le> ry_max p \<and> ry_max p \<le> 300)) ValueError
     (raise_if (\<not> (0 \<le> ry_jitter p \<and> ry_jitter p \<le> 1)) ValueError (Inr p))))"

record retry_event =
  ev_stage :: string
  ev_attempt :: int
  ev_category :: retry_category
  ev_delay :: rat

text \<open>What the operation may raise: a signal, an error of a provider or a storage by its code, or other.\<close>

datatype failure = SignalFailure retry_category | MetadataFailure string | StorageFailure string | OtherFailure

definition classify_retryable_error :: "failure \<Rightarrow> retry_category option" where
  "classify_retryable_error f =
     (case f of
        SignalFailure c \<Rightarrow> Some c
      | MetadataFailure e \<Rightarrow>
          map_of [(''timeout'', CategoryTimeout), (''connection_failed'', CategoryConnection),
                  (''rate_limited'', CategoryRateLimited), (''provider_unavailable'', CategoryProvider)] e
      | StorageFailure e \<Rightarrow>
          map_of [(''timeout'', CategoryTimeout), (''connection_failed'', CategoryConnection),
                  (''connection_lost'', CategoryConnection), (''rate_limited'', CategoryRateLimited)] e
      | OtherFailure \<Rightarrow> None)"

section \<open>The controller\<close>

record 'a retry_env =
  re_operation :: "nat \<Rightarrow> failure + 'a"
  re_cancelled :: "(nat \<Rightarrow> bool) option"
  re_random :: "nat \<Rightarrow> rat"
  re_slice :: rat

record retry_state =
  rs_calls :: nat
  rs_checks :: nat
  rs_randoms :: nat
  rs_sleeps :: "rat list"

datatype 'a retry_outcome =
    Returned 'a "retry_event list"
  | Reraised failure
  | Exhausted retry_category "retry_event list"
  | Interrupted
  | AssertionFailed

definition start_state :: retry_state where
  "start_state = \<lparr>rs_calls = 0, rs_checks = 0, rs_randoms = 0, rs_sleeps = []\<rparr>"

definition check_cancelled :: "'a retry_env \<Rightarrow> retry_state \<Rightarrow> bool \<times> retry_state" where
  "check_cancelled env st =
     (case re_cancelled env of
        None \<Rightarrow> (False, st)
      | Some c \<Rightarrow> (c (rs_checks st), st\<lparr>rs_checks := Suc (rs_checks st)\<rparr>))"

definition retry_delay :: "'a retry_env \<Rightarrow> retry_policy \<Rightarrow> nat \<Rightarrow> retry_state \<Rightarrow> rat \<times> retry_state" where
  "retry_delay env p failed st =
     (let base = min (ry_max p) (ry_base p * 2 ^ (failed - 1)) in
      if ry_jitter p = 0 then (base, st)
      else let factor = 1 + (re_random env (rs_randoms st) * 2 - 1) * ry_jitter p in
        (min (ry_max p) (max 0 (base * factor)), st\<lparr>rs_randoms := Suc (rs_randoms st)\<rparr>))"

text \<open>The waiting loop: with a slice that is not positive it never ends, which is \<open>None\<close>.\<close>

partial_function (option) wait_loop :: "'a retry_env \<Rightarrow> rat \<Rightarrow> retry_state \<Rightarrow> (bool \<times> retry_state) option" where
  "wait_loop env remaining st =
     (if remaining \<le> 0 then Some (False, st)
      else let (cancelled, st) = check_cancelled env st in
        if cancelled then Some (True, st)
        else let step = min remaining (re_slice env) in
          wait_loop env (remaining - step) (st\<lparr>rs_sleeps := rs_sleeps st @ [step]\<rparr>))"

definition interruptible_wait :: "'a retry_env \<Rightarrow> rat \<Rightarrow> retry_state \<Rightarrow> (bool \<times> retry_state) option" where
  "interruptible_wait env delay st =
     (case wait_loop env delay st of
        None \<Rightarrow> None
      | Some (cancelled, st) \<Rightarrow> if cancelled then Some (True, st) else Some (check_cancelled env st))"

text \<open>The attempts from \<open>attempt\<close> on, \<open>k\<close> of them.\<close>

fun retry_attempts ::
  "'a retry_env \<Rightarrow> retry_policy \<Rightarrow> string \<Rightarrow> nat \<Rightarrow> nat \<Rightarrow> retry_event list \<Rightarrow> retry_state \<Rightarrow>
    ('a retry_outcome \<times> retry_state) option" where
  "retry_attempts env p stage attempt 0 events st = Some (AssertionFailed, st)"
| "retry_attempts env p stage attempt (Suc k) events st =
     (let (cancelled, st) = check_cancelled env st in
      if cancelled then Some (Interrupted, st)
      else let st = st\<lparr>rs_calls := Suc (rs_calls st)\<rparr> in
        (case re_operation env (rs_calls st - 1) of
           Inr v \<Rightarrow> Some (Returned v events, st)
         | Inl f \<Rightarrow>
             (case classify_retryable_error f of
                None \<Rightarrow> Some (Reraised f, st)
              | Some c \<Rightarrow>
                  if \<not> ry_enabled p then Some (Reraised f, st)
                  else if ry_attempts p \<le> int attempt then Some (Exhausted c events, st)
                  else let (delay, st) = retry_delay env p attempt st;
                           event = \<lparr>ev_stage = stage, ev_attempt = int attempt + 1, ev_category = c, ev_delay = delay\<rparr> in
                    (case interruptible_wait env delay st of
                       None \<Rightarrow> None
                     | Some (cancelled, st) \<Rightarrow>
                         if cancelled then Some (Interrupted, st)
                         else retry_attempts env p stage (Suc attempt) k (events @ [event]) st))))"

definition retry_execute ::
  "'a retry_env \<Rightarrow> retry_policy \<Rightarrow> string \<Rightarrow> ('a retry_outcome \<times> retry_state) option" where
  "retry_execute env p stage = retry_attempts env p stage 1 (nat (ry_attempts p)) [] start_state"

section \<open>The loops end\<close>

lemma check_cancelled_keeps:
  "check_cancelled env st = (b, st') \<Longrightarrow>
    rs_calls st' = rs_calls st \<and> rs_sleeps st' = rs_sleeps st \<and> rs_randoms st' = rs_randoms st"
  by (auto simp: check_cancelled_def split: option.splits)

text \<open>\<open>slept env ss w b\<close>: the pauses \<open>ss\<close> of a wait for \<open>w\<close> seconds that was interrupted if \<open>b\<close>.\<close>

definition slept :: "'a retry_env \<Rightarrow> rat list \<Rightarrow> rat \<Rightarrow> bool \<Rightarrow> bool" where
  "slept env ss w b =
     ((\<forall>s \<in> set ss. 0 < s \<and> s \<le> re_slice env) \<and> sum_list ss \<le> w \<and> (\<not> b \<longrightarrow> sum_list ss = w))"

lemma wait_loop_total:
  "0 < re_slice env \<Longrightarrow> remaining \<le> of_nat n * re_slice env \<Longrightarrow>
    \<exists>b st' ss. wait_loop env remaining st = Some (b, st') \<and> rs_calls st' = rs_calls st \<and>
      rs_sleeps st' = rs_sleeps st @ ss \<and> slept env ss (max 0 remaining) b"
proof (induction n arbitrary: remaining st)
  case 0
  then show ?case by (subst wait_loop.simps) (auto simp: slept_def)
next
  case (Suc n)
  obtain c st1 where c: "check_cancelled env st = (c, st1)" by (cases "check_cancelled env st")
  note k = check_cancelled_keeps [OF c]
  show ?case
  proof (cases "remaining \<le> 0 \<or> c")
    case True
    then show ?thesis using c k by (subst wait_loop.simps) (auto simp: slept_def)
  next
    case False
    define step where "step = min remaining (re_slice env)"
    have step: "0 < step" "step \<le> re_slice env" "step \<le> remaining" using False Suc.prems(1) by (auto simp: step_def)
    have "remaining - step \<le> of_nat n * re_slice env"
      using Suc.prems by (cases "remaining \<le> re_slice env") (auto simp: step_def algebra_simps)
    from Suc.IH [OF Suc.prems(1) this, of "st1\<lparr>rs_sleeps := rs_sleeps st1 @ [step]\<rparr>"] obtain b st' ss where
      w: "wait_loop env (remaining - step) (st1\<lparr>rs_sleeps := rs_sleeps st1 @ [step]\<rparr>) = Some (b, st')"
      and r: "rs_calls st' = rs_calls st1" "rs_sleeps st' = rs_sleeps st1 @ [step] @ ss"
        "slept env ss (max 0 (remaining - step)) b" by auto
    have "wait_loop env remaining st = Some (b, st')"
      using False c w by (subst wait_loop.simps) (simp add: step_def)
    moreover have "slept env (step # ss) (max 0 remaining) b" using r(3) step False by (auto simp: slept_def)
    ultimately show ?thesis using r(1,2) k by (intro exI [of _ b] exI [of _ st'] exI [of _ "step # ss"]) auto
  qed
qed

lemma interruptible_wait_total:
  assumes "0 < re_slice env"
  shows "\<exists>b st' ss. interruptible_wait env delay st = Some (b, st') \<and> rs_calls st' = rs_calls st \<and>
    rs_sleeps st' = rs_sleeps st @ ss \<and> slept env ss (max 0 delay) b"
proof -
  obtain n where "delay / re_slice env \<le> of_nat n" using reals_Archimedean2 less_imp_le by blast
  then have "delay \<le> of_nat n * re_slice env" using assms by (simp add: pos_divide_le_eq)
  from wait_loop_total [OF assms this] obtain b st1 ss where
    w: "wait_loop env delay st = Some (b, st1)" "rs_calls st1 = rs_calls st" "rs_sleeps st1 = rs_sleeps st @ ss"
      "slept env ss (max 0 delay) b" by blast
  obtain b2 st2 where c: "check_cancelled env st1 = (b2, st2)" by (cases "check_cancelled env st1")
  show ?thesis
  proof (cases b)
    case True
    then show ?thesis using w by (auto simp: interruptible_wait_def)
  next
    case False
    then have "slept env ss (max 0 delay) b2" using w(4) by (auto simp: slept_def)
    then show ?thesis using False w c check_cancelled_keeps [OF c] by (auto simp: interruptible_wait_def)
  qed
qed

lemma retry_delay_bounds:
  assumes "make_retry_policy p = Inr p" "retry_delay env p n st = (d, st')"
  shows "0 \<le> d \<and> d \<le> ry_max p \<and> rs_calls st' = rs_calls st \<and> rs_sleeps st' = rs_sleeps st"
  using assms by (auto simp: make_retry_policy_def guard_simps retry_delay_def Let_def split: if_splits)

text \<open>
  What every run leaves: the calls, and one wait of at most the greatest delay for each call that was
  retried.
\<close>

lemma retry_attempts_total:
  assumes "0 < re_slice env" "make_retry_policy p = Inr p"
  shows "\<exists>out st' ss. retry_attempts env p stage attempt k events st = Some (out, st') \<and>
    rs_calls st' \<le> rs_calls st + k \<and> rs_sleeps st' = rs_sleeps st @ ss \<and>
    (\<forall>s \<in> set ss. 0 < s \<and> s \<le> re_slice env) \<and>
    sum_list ss \<le> of_nat (rs_calls st' - rs_calls st) * ry_max p \<and> rs_calls st \<le> rs_calls st'"
proof (induction k arbitrary: attempt events st)
  case 0
  then show ?case by auto
next
  case (Suc k)
  have max: "0 \<le> ry_max p" using assms(2) by (auto simp: make_retry_policy_def guard_simps)
  obtain c st1 where c: "check_cancelled env st = (c, st1)" by (cases "check_cancelled env st")
  note k1 = check_cancelled_keeps [OF c]
  define st2 where "st2 = st1\<lparr>rs_calls := Suc (rs_calls st)\<rparr>"
  have s2: "rs_calls st2 = Suc (rs_calls st)" "rs_sleeps st2 = rs_sleeps st" using k1 by (auto simp: st2_def)
  show ?case
  proof (cases "c \<or> (\<exists>v. re_operation env (rs_calls st) = Inr v)")
    case True
    then show ?thesis using c k1 s2 max by (auto simp: st2_def [symmetric])
  next
    case False
    then obtain f where f: "re_operation env (rs_calls st) = Inl f" "\<not> c"
      by (cases "re_operation env (rs_calls st)") auto
    show ?thesis
    proof (cases "classify_retryable_error f = None \<or> \<not> ry_enabled p \<or> ry_attempts p \<le> int attempt")
      case True
      then show ?thesis using c f s2 k1 max
        by (cases "classify_retryable_error f") (auto simp: Let_def)
    next
      case go: False
      then obtain ct where ct: "classify_retryable_error f = Some ct" by auto
      obtain d st3 where d: "retry_delay env p attempt st2 = (d, st3)" by (cases "retry_delay env p attempt st2")
      note db = retry_delay_bounds [OF assms(2) d]
      from interruptible_wait_total [OF assms(1), of d st3] obtain b st4 ss where
        w: "interruptible_wait env d st3 = Some (b, st4)" "rs_calls st4 = rs_calls st3"
          "rs_sleeps st4 = rs_sleeps st3 @ ss" "slept env ss (max 0 d) b" by blast
      have ss: "\<forall>s \<in> set ss. 0 < s \<and> s \<le> re_slice env" "sum_list ss \<le> ry_max p"
        using w(4) db by (auto simp: slept_def)
      define e where "e = \<lparr>ev_stage = stage, ev_attempt = int attempt + 1, ev_category = ct, ev_delay = d\<rparr>"
      have run: "retry_attempts env p stage attempt (Suc k) events st =
          (if b then Some (Interrupted, st4) else retry_attempts env p stage (Suc attempt) k (events @ [e]) st4)"
        using c f go ct d w(1) k1 by (simp add: st2_def [symmetric] e_def)
      show ?thesis
      proof (cases b)
        case True
        then show ?thesis using run w s2 db ss max by auto
      next
        case nb: False
        from Suc.IH [of "Suc attempt" "events @ [e]" st4] obtain out st' ss' where
          r: "retry_attempts env p stage (Suc attempt) k (events @ [e]) st4 = Some (out, st')"
            "rs_calls st' \<le> rs_calls st4 + k" "rs_sleeps st' = rs_sleeps st4 @ ss'"
            "\<forall>s \<in> set ss'. 0 < s \<and> s \<le> re_slice env"
            "sum_list ss' \<le> of_nat (rs_calls st' - rs_calls st4) * ry_max p" "rs_calls st4 \<le> rs_calls st'" by blast
        have calls: "rs_calls st4 = Suc (rs_calls st)" using w(2) db s2 by simp
        have "of_nat (rs_calls st' - rs_calls st) * ry_max p = ry_max p + of_nat (rs_calls st' - rs_calls st4) * ry_max p"
          using calls r(6) by (simp add: of_nat_diff algebra_simps)
        then show ?thesis using run nb r calls w(3) db s2 ss
          by (intro exI [of _ out] exI [of _ st'] exI [of _ "ss @ ss'"]) auto
      qed
    qed
  qed
qed

text \<open>The assertion after the loop is never reached: the last attempt returns or raises.\<close>

lemma retry_attempts_reach:
  assumes "ry_attempts p \<le> int (attempt + k) - 1" "0 < k"
  shows "retry_attempts env p stage attempt k events st \<noteq> Some (AssertionFailed, st')"
  using assms
proof (induction k arbitrary: attempt events st)
  case (Suc k)
  obtain c st1 where c: "check_cancelled env st = (c, st1)" by (cases "check_cancelled env st")
  show ?case
  proof (cases "k = 0")
    case True
    with Suc.prems(1) have "ry_attempts p \<le> int attempt" by simp
    then show ?thesis using c by (auto simp: Let_def split: sum.splits option.splits)
  next
    case False
    then have "retry_attempts env p stage (Suc attempt) k events st \<noteq> Some (AssertionFailed, st')" for events st
      using Suc.IH [of "Suc attempt" events st] Suc.prems(1) by simp
    then show ?thesis using c by (auto simp: Let_def split: sum.splits option.splits prod.splits)
  qed
qed simp

end
