(* ===== verification/Organize_Properties.thy ===== *)
theory Organize_Properties
  imports Organize_Examples Workflow_Retry
begin

text \<open>
  The properties of the organize pipeline, from the recognition of a file to the plan of its target,
  and of the retry controller its stages run under.
\<close>

section \<open>Recognition\<close>

text \<open>An engine built from the same rules in another order is the same engine.\<close>

theorem recognition_ignores_rule_order:
  assumes "make_engine types rules = Inr e" "mset rules' = mset rules"
  shows "make_engine types rules' = Inr e \<and>
    (\<forall>env c p. bind_result (make_engine types rules') (\<lambda>e. recognize env e c p) = recognize env e c p)"
  using make_engine_perm [OF assms] by simp

definition rule_a :: recognition_rule where
  "rule_a =
     \<lparr>rr_id = ''a'', rr_name = ''A'', rr_condition = Atomic FExtension IsEqual (PText ''mkv'') False, rr_output = ''movie'',
      rr_enabled = True, rr_priority = 0, rr_score = 1, rr_stop = False\<rparr>"

definition rule_b :: recognition_rule where
  "rule_b = rule_a\<lparr>rr_id := ''b'', rr_priority := 5\<rparr>"

lemma recognition_ignores_rule_order_witness:
  "make_engine [film_type] [rule_b, rule_a] =
    Inr \<lparr>en_types = types_by_id [film_type], en_rules = sort_by rule_order [rule_a, rule_b]\<rparr>"
proof -
  have "make_engine [film_type] [rule_a, rule_b] =
      Inr \<lparr>en_types = types_by_id [film_type], en_rules = sort_by rule_order [rule_a, rule_b]\<rparr>"
    by (simp add: make_engine_def rule_a_def rule_b_def film_type_def types_by_id_def check_output_def)
  then show ?thesis
    using recognition_ignores_rule_order [of "[film_type]" "[rule_a, rule_b]" _ "[rule_b, rule_a]"] by simp
qed

text \<open>What a run of the engine decides. Without a matching rule the file is unrecognized; otherwise a
  type is chosen when it beats every other type the matching rules name, by priority and then by the
  sum of the scores, and the result is ambiguous, with no type, when two of the best types tie.
\<close>

theorem recognition_needs_a_single_best_type:
  assumes "recognize env e c p = Inr r" "collect_matches env c p (en_rules e) = Inr ms"
  defines "outs \<equiv> rr_output ` fst ` set ms" and "rank \<equiv> rank_type (map fst ms)"
  shows "(re_status r = Unrecognized \<and> ms = []) \<or>
    (re_status r = Matched \<and>
      (\<exists>t \<in> outs. re_type r = en_types e t \<and> (\<forall>u \<in> outs. u \<noteq> t \<longrightarrow> beats (rank t) (rank u)))) \<or>
    (re_status r = Ambiguous \<and> re_type r = None \<and>
      (\<exists>t \<in> outs. \<exists>u \<in> outs. t \<noteq> u \<and> ties_with (rank t) (rank u) \<and> (\<forall>v \<in> outs. \<not> beats (rank v) (rank t))))"
proof -
  from assms(1,2) have r: "r = decide (en_types e) ms" by (simp add: recognize_def)
  show ?thesis
  proof (cases "ms = []")
    case True
    then have "re_status r = Unrecognized"
      by (simp add: r decide_def rankings_def sort_by_def first_occurrences_def unrecognized_def)
    then show ?thesis using True by simp
  next
    case False
    from decide_cases [OF False, of "en_types e", folded outs_def rank_def r] show ?thesis by blast
  qed
qed

definition plain_env :: text_env where
  "plain_env = \<lparr>te_repr = (\<lambda>_. []), te_compiles = (\<lambda>_. True), te_search = (\<lambda>_ _ _. False)\<rparr>"

definition film_file :: file_context where
  "film_file = \<lparr>fc_library = ''lib'', fc_path = ''heat.mkv'', fc_filename = ''heat.mkv'', fc_parents = [], fc_extension = ''mkv''\<rparr>"

lemma recognition_needs_a_single_best_type_witness:
  "case recognize plain_env \<lparr>en_types = types_by_id [film_type], en_rules = [rule_b, rule_a]\<rparr> film_file film_parsed of
     Inr r \<Rightarrow> re_status r = Matched \<or> re_status r = Ambiguous | Inl _ \<Rightarrow> False"
proof -
  let ?e = "\<lparr>en_types = types_by_id [film_type], en_rules = [rule_b, rule_a]\<rparr>"
  have "case collect_matches plain_env film_file film_parsed (en_rules ?e) of Inr ms \<Rightarrow> ms \<noteq> [] | Inl _ \<Rightarrow> False"
    by code_simp
  then obtain ms where m: "collect_matches plain_env film_file film_parsed (en_rules ?e) = Inr ms" "ms \<noteq> []"
    by (auto split: sum.splits)
  then obtain r where r: "recognize plain_env ?e film_file film_parsed = Inr r" by (simp add: recognize_def)
  from recognition_needs_a_single_best_type [OF r m(1)] m(2) r show ?thesis by auto
qed

section \<open>Classification\<close>

text \<open>C36: the engine selects the enabled matching rule of the greatest priority, and among equal priorities
  the one whose identifier comes first; without one the medium is unclassified.
\<close>

definition precedes :: "classification_rule \<Rightarrow> classification_rule \<Rightarrow> bool" where
  "precedes r s =
     (cr_priority s < cr_priority r \<or>
      (cr_priority s = cr_priority r \<and> cr_id r \<noteq> cr_id s \<and> text_le (cr_id r) (cr_id s)))"

theorem classification_selects_the_first_rule:
  assumes "classify nfkc c p = Inr k" "distinct (map cr_id (cp_rules p))"
  defines "fits \<equiv> \<lambda>r. r \<in> set (cp_rules p) \<and> cr_enabled r \<and> rule_matches nfkc c r \<noteq> None"
  shows "(co_status k = Unclassified \<and> (\<forall>r. \<not> fits r)) \<or>
    (\<exists>r. fits r \<and> (\<forall>s. fits s \<and> s \<noteq> r \<longrightarrow> precedes r s) \<and>
      k = result_for_rule r (cp_id p) (rt_id (cc_recognition_type c)) (the (rule_matches nfkc c r)))"
proof -
  let ?type = "rt_id (cc_recognition_type c)"
  let ?ms = "matching_rules nfkc c (cp_rules p)"
  have k: "k = (case sort_by rule_before ?ms of [] \<Rightarrow> unclassified (cp_id p) ?type
      | (r, evidence) # _ \<Rightarrow> result_for_rule r (cp_id p) ?type evidence)"
    using assms(1) by (auto simp: classify_def guard_simps Let_def)
  have fits: "fits r \<longleftrightarrow> (\<exists>e. (r, e) \<in> set ?ms)" for r
    by (auto simp: fits_def matching_rules_set)
  show ?thesis
  proof (cases "sort_by rule_before ?ms")
    case Nil
    then have "set ?ms = {}" using set_sort_by [of rule_before ?ms] by simp
    then have "\<not> fits r" for r by (simp add: fits)
    then show ?thesis using k Nil by (simp add: unclassified_def)
  next
    case (Cons y ys)
    obtain r e where y: "y = (r, e)" by (cases y)
    note h = sorted_matches_head [OF Cons [unfolded y]]
    have fr: "fits r" using h(1) fits by blast
    have e: "rule_matches nfkc c r = Some e" using h(1) by (simp add: matching_rules_set)
    have best: "precedes r s" if s: "fits s" "s \<noteq> r" for s
    proof -
      from s(1) obtain f where "(s, f) \<in> set ?ms" using fits by blast
      with h(2) have "rule_before (r, e) (s, f)" by blast
      moreover have "cr_id r \<noteq> cr_id s"
        using s fr assms(2) unfolding fits_def distinct_map inj_on_def by metis
      ultimately show ?thesis by (auto simp: rule_before_iff precedes_def)
    qed
    have "k = result_for_rule r (cp_id p) ?type (the (rule_matches nfkc c r))" using k Cons y e by simp
    with fr best show ?thesis by blast
  qed
qed

lemma classification_selects_the_first_rule_witness:
  "case classify (\<lambda>s. s) film_context film_policy of Inr k \<Rightarrow> co_status k \<noteq> Unclassified | Inl _ \<Rightarrow> False"
proof -
  obtain k where k: "classify (\<lambda>s. s) film_context film_policy = Inr k"
    using film_classified by (auto split: sum.splits)
  have "cr_id film_rule \<noteq> cr_id other_rule" by code_simp
  then have "distinct (map cr_id (cp_rules film_policy))" by (simp add: film_policy_def)
  moreover have "film_rule \<in> set (cp_rules film_policy) \<and> cr_enabled film_rule \<and>
      rule_matches (\<lambda>s. s) film_context film_rule \<noteq> None"
    by (rule conjI, simp add: film_policy_def, code_simp)
  ultimately show ?thesis using classification_selects_the_first_rule [OF k] k by (auto simp: result_for_rule_def)
qed

text \<open>The classification of a medium does not depend on the order the rules of a policy are listed in.\<close>

theorem classification_ignores_rule_order:
  assumes "mset rules = mset (cp_rules p)" "distinct (map cr_id (cp_rules p))"
  shows "classify nfkc c (p\<lparr>cp_rules := rules\<rparr>) = classify nfkc c p"
  using sorted_matches_perm [OF assms(1) [symmetric] assms(2), of nfkc c]
  by (simp add: classify_def Let_def split: list.split)

lemma classification_ignores_rule_order_witness:
  "classify (\<lambda>s. s) film_context (film_policy\<lparr>cp_rules := [film_rule, other_rule]\<rparr>) = classify (\<lambda>s. s) film_context film_policy"
proof (rule classification_ignores_rule_order)
  have "cr_id film_rule \<noteq> cr_id other_rule" by code_simp
  then show "distinct (map cr_id (cp_rules film_policy))" by (simp add: film_policy_def)
qed (simp add: film_policy_def)

section \<open>Names\<close>

text \<open>Any text without a path separator or a drive or scheme prefix is rendered as it is by the template
  that doubles its braces, whatever the variables are.
\<close>

theorem any_text_is_a_template:
  assumes "slash \<notin> set s" "backslash \<notin> set s" "\<not> drive_or_scheme (escape_braces s)"
  shows "render_template (escape_braces s) vs m = Inr (s, [])"
proof -
  obtain lits where l: "parse_format (escape_braces s) = Inr (map (\<lambda>l. (l, None)) lits)" "concat lits = s"
    using parse_escape by blast
  have "slash \<notin> set (escape_braces s)" "backslash \<notin> set (escape_braces s)"
    using assms(1,2) by (auto simp: escape_braces_def split: if_splits)
  then have "\<not> starts_with ''/'' (escape_braces s)" "\<not> starts_with [backslash] (escape_braces s)"
    "slash \<notin> set (escape_braces s)" "backslash \<notin> set (escape_braces s)"
    by (cases "escape_braces s"; auto simp: starts_with_def slash_def)+
  then show ?thesis
    using assms(3) l
    by (simp add: render_template_def validate_template_def parse_template_def check_literals render_literals
        first_occurrences_def)
qed

lemma any_text_is_a_template_witness:
  "render_template (escape_braces ''a{b}'') [] MissingError = Inr (''a{b}'', [])"
  by (rule any_text_is_a_template) code_simp+

text \<open>A component the sanitizer returns is one safe part of a path, and it is at most as long as the
  policy allows when the limit leaves nine characters beside the extension.
\<close>

theorem sanitized_component_is_bounded:
  assumes "sanitize_component nfc dots limit filename s = Inr (t, changes)" "plain_dots dots"
  shows "safe_part t \<and> (9 + extension_length filename (plain_text nfc s) \<le> limit \<longrightarrow> int (length t) \<le> limit)"
  using sanitize_component_safe [OF assms] sanitize_component_length [OF assms(1)] by blast

lemma sanitized_component_is_bounded_witness:
  "case sanitize_component (\<lambda>s. s) (CHR ''~'') 14 True ''What? A long name.mkv'' of
     Inr (t, _) \<Rightarrow> safe_part t \<and> length t \<le> 14 | Inl _ \<Rightarrow> False"
proof -
  have "case sanitize_component (\<lambda>s. s) (CHR ''~'') 14 True ''What? A long name.mkv'' of Inr _ \<Rightarrow> True | Inl _ \<Rightarrow> False"
    by code_simp
  then obtain t changes where t: "sanitize_component (\<lambda>s. s) (CHR ''~'') 14 True ''What? A long name.mkv'' = Inr (t, changes)"
    by (auto split: sum.splits)
  have "plain_dots (CHR ''~'')" "9 + extension_length True (plain_text (\<lambda>s. s) ''What? A long name.mkv'') \<le> 14"
    by code_simp+
  with sanitized_component_is_bounded [OF t] t show ?thesis by simp
qed

text \<open>With the limit 8, the least the configuration accepts, a directory name that is longer than the
  limit becomes eight characters longer than it was: the length of the kept prefix is \<open>-1\<close>, which slices
  off the last character only.
\<close>

theorem limit_eight_lengthens:
  assumes "plain_text nfc s = s" "\<forall>c \<in> set s. \<not> py_space c" "8 < length s"
  shows "\<exists>t changes. sanitize_component nfc dots 8 False s = Inr (t, changes) \<and> length t = length s + 8"
proof -
  have clean: "\<forall>c \<in> set s. clean_char c" using plain_text_clean [of nfc s] assms(1) by simp
  then have chars: "slash \<notin> set s" "backslash \<notin> set s" "CHR '':'' \<notin> set s" using not_clean by auto
  have "\<forall>w \<in> set windows_reserved. length w \<le> 4" by code_simp
  then have free: "upper_ascii s \<notin> set windows_reserved" using assms(3) by (fastforce simp: upper_ascii_def)
  have drive: "\<not> drive_or_scheme s"
  proof -
    have "match_ends (ch (CHR '':'')) s i = []" for i
      using chars(3) by (auto simp: ch_def) (metis nth_mem)
    then show ?thesis by (auto simp: drive_or_scheme_def re_match_start_def drive_prefix_def scheme_prefix_def)
  qed
  have plain: "\<not> unsafe_part s" using assms(3) by (auto simp: unsafe_part_def)
  define t where "t = truncated_text dots s [] 8"
  have keep: "rstrip u = u" if "set u \<subseteq> set s" for u
    using that assms(2) by (cases u rule: rev_cases) (auto simp: rstrip_def)
  have keep': "lstrip u = u" if "set u \<subseteq> set s" for u
    using that assms(2) by (cases u) (auto simp: lstrip_def)
  have "t = take (length s - 1) s @ [dots] @ drop (length s - 8) s"
    using keep [OF set_take_subset] keep' [OF set_drop_subset] assms(3)
    by (simp add: t_def truncated_text_def slice_to_def nat_diff_distrib)
  then have l: "length t = length s + 8" using assms(3) by simp
  then have "\<not> unsafe_part t" using assms(3) by (auto simp: unsafe_part_def)
  moreover have "truncate_component dots s 8 False = Inr t" by (simp add: truncate_component_def t_def)
  ultimately show ?thesis
    using assms(1,3) plain free chars drive l by (simp add: sanitize_component_def Let_def)
qed

lemma limit_eight_lengthens_witness:
  "\<exists>t changes. sanitize_component (\<lambda>s. s) (CHR ''~'') 8 False ''abcdefghijkl'' = Inr (t, changes) \<and> length t = 20"
proof -
  have "plain_text (\<lambda>s. s) ''abcdefghijkl'' = ''abcdefghijkl''" "\<forall>c \<in> set ''abcdefghijkl''. \<not> py_space c"
    by code_simp+
  from limit_eight_lengthens [OF this] show ?thesis by simp
qed

section \<open>Targets\<close>

text \<open>C18: a name the engine returns, a classification rule that was accepted and a root that is accepted always
  compose: the path under the root is exactly the segments of the rule and the components of the name,
  each a safe part, and the target is the root followed by that path, in normal form.
\<close>

theorem named_media_is_composable:
  fixes policy_id type_id :: string and evidence :: "string list"
  assumes "name_media nfc dots c np = Inr n" "plain_dots dots"
    "make_classification_rule path r = Inr r'" "safe_destination_root lib = Some root_path"
  defines "k \<equiv> result_for_rule r' policy_id type_id evidence"
  defines "d \<equiv> compose_destination lib (co_path k) (nr_directory n) (nr_segments n) (nr_filename n) (destination_prefix k)"
  defines "parts \<equiv> (case cr_prefix r' of None \<Rightarrow> [] | Some l \<Rightarrow> split_on slash l) @ split_on slash (cr_path r') @
    nr_segments n @ [nr_filename n]"
  shows "dc_safe d \<and> list_all safe_part parts \<and> dc_relative d = join_with [slash] parts \<and>
    dc_target d = under_root root_path (dc_relative d) \<and>
    normpath (dc_target d) = (if root_path = ''.'' then dc_relative d else dc_target d)"
proof -
  note n = name_media_safe [OF assms(1,2)]
  note r = make_classification_rule_safe [OF assms(3)]
  have k: "co_path k = cr_path r'" "destination_prefix k = cr_prefix r'"
    by (auto simp: k_def result_for_rule_def destination_prefix_def rule_legacy_def)
  have seg: "\<forall>s \<in> set (nr_segments n). \<not> unsafe_relative_path s \<and> split_on slash s = [s]"
    using n(3) by (auto simp: list_all_iff safe_part_iff split_on_simple)
  have fname: "\<not> unsafe_relative_path (nr_filename n)" "slash \<notin> set (nr_filename n)"
    using n(2) by (auto simp: safe_part_iff)
  have dir: "\<not> unsafe_relative_path (nr_directory n)" using n(1) by (auto simp: safe_part_iff)
  have none: "unsafe_contribution lib (co_path k) (nr_directory n) (nr_segments n) (nr_filename n) (destination_prefix k) = None"
    unfolding unsafe_contribution_None
    using assms(4) dir r seg fname k by (auto simp: contributions_def split: option.splits)
  then have safe: "dc_safe d" unfolding d_def compose_destination_safe .
  note f = compose_destination_facts [OF safe [unfolded d_def], folded d_def]
  have sp: "split_on slash (dc_relative d) = parts"
  proof -
    have "concat (map (split_on slash) ss) = ss" if "\<forall>s \<in> set ss. split_on slash s = [s]" for ss :: "string list"
      using that by (induction ss) auto
    then have "concat (map (split_on slash) (nr_segments n)) = nr_segments n" using seg by blast
    then show ?thesis
      using f(2) fname(2) k by (auto simp: parts_def contributions_def split_on_simple split: option.splits)
  qed
  have root: "dc_root d = root_path" using f(1) assms(4) by simp
  have "list_all safe_part parts" using f(3) safe_relative_iff sp by metis
  moreover have "dc_relative d = join_with [slash] parts" using join_split [of slash "dc_relative d"] sp by simp
  ultimately show ?thesis
    using safe f(4) root under_root_normal [OF assms(4) f(3)] by simp
qed

lemma named_media_is_composable_witness:
  "case name_media (\<lambda>s. s) (CHR ''~'') film_naming_context film_naming_policy of
     Inr n \<Rightarrow> dc_safe (compose_destination ''/srv/media/'' ''Movies/Crime'' (nr_directory n) (nr_segments n) (nr_filename n) None)
   | Inl _ \<Rightarrow> False"
proof -
  obtain n where n: "name_media (\<lambda>s. s) (CHR ''~'') film_naming_context film_naming_policy = Inr n"
    using film_named by (auto split: sum.splits)
  have d: "plain_dots (CHR ''~'')" by code_simp
  have r: "make_classification_rule (PathText ''Movies/Crime'') film_rule = Inr film_rule" by code_simp
  have l: "safe_destination_root ''/srv/media/'' = Some ''/srv/media''" by code_simp
  have "co_path (result_for_rule film_rule [] [] []) = ''Movies/Crime''"
    "destination_prefix (result_for_rule film_rule [] [] []) = None" by code_simp+
  with named_media_is_composable [OF n d r l, of "[]" "[]" "[]"] n show ?thesis by simp
qed

text \<open>C19: planner and executor agree. The target of a plan that is not invalid is the one the executor
  composes again from the root and the relative path, its parts do not navigate, and a plan that is ready
  passes the checks made before an execution.
\<close>

theorem planned_target_is_executable:
  assumes "make_plan digest storage claimed known q = Inr p" "pl_status p \<noteq> PlanInvalid"
  shows "resolved_execution_target p = Some (pl_target p) \<and> target_accepted (pl_target p) \<and>
    (pl_status p = PlanReady \<and> pl_operation p \<notin> {DoNoop, DoSkip} \<longrightarrow> plan_validation_error p = None)"
  using planned_resolves [OF assms] planned_ready [OF assms(1)] by blast

lemma planned_target_is_executable_witness:
  "case film_plan ''library'' [] of
     Inr p \<Rightarrow> resolved_execution_target p = Some ''library/Movies/Crime/Heat/Heat.mkv'' \<and> plan_validation_error p = None
   | Inl _ \<Rightarrow> False"
proof -
  obtain p where p: "film_plan ''library'' [] = Inr p" "pl_status p = PlanReady" "pl_operation p = DoMove"
    "pl_target p = ''library/Movies/Crime/Heat/Heat.mkv''"
    using film_plan_ready by (auto split: sum.splits)
  from planned_target_is_executable [OF p(1) [unfolded film_plan_def]] p show ?thesis by simp
qed

text \<open>A rename that returns took the least number from 1 to 1000 that is free together with the attachments
  it moves along, only the last component of the path changed, and the executor composes the same target.
\<close>

theorem rename_takes_the_least_free_number:
  assumes "rename_plan digest exists p = Inr p'" "safe_destination_root (pl_root p) = Some root_path"
    "\<not> unsafe_relative_path (pl_relative p)"
  shows "\<exists>n. 1 \<le> n \<and> n \<le> 1000 \<and> pl_target p' = renamed_target p n \<and>
    attempt_taken exists p n = Inr False \<and> (\<forall>i. 1 \<le> i \<and> i < n \<longrightarrow> attempt_taken exists p i = Inr True) \<and>
    split_on slash (pl_relative p') =
      butlast (split_on slash (pl_relative p)) @ [renamed_name (last (split_on slash (pl_relative p))) n] \<and>
    pl_status p' = PlanReady \<and> pl_conflicts p' = [] \<and>
    resolved_execution_target p' = Some (pl_target p') \<and> target_accepted (pl_target p')"
proof -
  from assms(1) have "rename_attempts digest exists p 1 max_rename_attempts = Inr p'"
    by (simp add: rename_plan_def guard_simps)
  from rename_attempts_Inr [OF this] obtain n as where n: "1 \<le> n" "n < 1 + max_rename_attempts"
    "attempt_taken exists p n = Inr False" "\<forall>i. 1 \<le> i \<longrightarrow> i < n \<longrightarrow> attempt_taken exists p i = Inr True"
    and p': "pl_target p' = renamed_target p n" "pl_relative p' = renamed (pl_relative p) n"
      "pl_status p' = PlanReady" "pl_conflicts p' = []"
    by auto
  with renamed_resolves [OF assms] renamed_safe(2) [OF assms(3), of n] show ?thesis
    by (intro exI [of _ n]) (simp add: max_rename_attempts_def)
qed

lemma rename_takes_the_least_free_number_witness:
  "case film_plan ''library'' [''library/Movies/Crime/Heat/Heat.mkv'', ''library/Movies/Crime/Heat/Heat (1).mkv''] of
     Inr p \<Rightarrow> (case rename_plan no_digest
         (holds_paths [''library/Movies/Crime/Heat/Heat.mkv'', ''library/Movies/Crime/Heat/Heat (1).mkv'']) p of
       Inr p' \<Rightarrow> resolved_execution_target p' = Some (pl_target p') | Inl _ \<Rightarrow> False)
   | Inl _ \<Rightarrow> False"
proof -
  let ?ps = "[''library/Movies/Crime/Heat/Heat.mkv'', ''library/Movies/Crime/Heat/Heat (1).mkv'']"
  obtain p p' where p: "film_plan ''library'' ?ps = Inr p" "pl_root p = ''library''" "pl_relative p = ''Movies/Crime/Heat/Heat.mkv''"
    and r: "rename_plan no_digest (holds_paths ?ps) p = Inr p'"
    using film_plan_taken by (auto split: sum.splits)
  have "safe_destination_root ''library'' = Some ''library''" "\<not> unsafe_relative_path ''Movies/Crime/Heat/Heat.mkv''"
    by code_simp+
  with rename_takes_the_least_free_number [OF r] p r show ?thesis by auto
qed

text \<open>In a library whose root is absolute, or the current directory, the configured rename of a conflict never
  gives a plan: once a free name is found, the location of its target is refused with a \<open>ValueError\<close>.
\<close>

theorem rooted_library_cannot_rename:
  assumes "make_plan digest storage claimed known q = Inr p" "pl_status p = PlanConflict"
    "rooted (ml_root (rq_library q))" "op_strategy policy = RenameConflict"
    "attempt_taken exists p 1 = Inr False"
  shows "apply_configured digest exists p policy = Inl ValueError"
proof -
  have s: "pl_status p \<noteq> PlanInvalid" using assms(2) by simp
  note t = planned_target [OF assms(1) s]
  have e: "pl_target p \<noteq> []" using planned_resolves [OF assms(1) s] by (simp add: target_accepted_def)
  have "pl_root p = ml_root (rq_library q) \<and> pl_conflicts p \<noteq> []"
    using assms(1)
  proof (cases rule: make_plan_cases)
    case unsafe
    with s show ?thesis by simp
  next
    case (planned operation status conflicts)
    with plan_result_fields [OF planned(2)] assms(2) show ?thesis by (auto split: if_splits)
  qed
  moreover have "\<not> unsafe_relative_path (pl_relative p)" using t(3,4) by simp
  ultimately show ?thesis
    using rooted_rename_raises [of p exists digest] make_plan_conflicts [OF assms(1) s] assms(3-5) e
    by (simp add: apply_configured_def)
qed

lemma rooted_library_cannot_rename_witness:
  "case film_plan ''/media'' [''/media/Movies/Crime/Heat/Heat.mkv''] of
     Inr p \<Rightarrow> apply_configured no_digest (holds_paths [''/media/Movies/Crime/Heat/Heat.mkv'']) p film_organize = Inl ValueError
   | Inl _ \<Rightarrow> False"
proof -
  let ?ps = "[''/media/Movies/Crime/Heat/Heat.mkv'']"
  have "case film_plan ''/media'' ?ps of
      Inr p \<Rightarrow> pl_status p = PlanConflict \<and> attempt_taken (holds_paths ?ps) p 1 = Inr False | Inl _ \<Rightarrow> False"
    by code_simp
  then obtain p where p: "film_plan ''/media'' ?ps = Inr p" "pl_status p = PlanConflict"
    "attempt_taken (holds_paths ?ps) p 1 = Inr False" by (auto split: sum.splits)
  have "rooted (ml_root (rq_library (film_request ''/media'')))" "op_strategy film_organize = RenameConflict"
    by code_simp+
  from rooted_library_cannot_rename [OF p(1) [unfolded film_plan_def] p(2) this p(3)] p(1) show ?thesis by simp
qed

text \<open>The attachments planned beside a file go to its storage, each to a safe path that did not exist when
  it was asked for; no two that are not blocked have the same destination when case is folded, and none has
  the destination of the file itself.
\<close>

theorem attachments_never_collide:
  assumes "add_attachments storage p as = Inr p'" "pl_status p' \<noteq> PlanInvalid" "as \<noteq> []"
  shows "\<exists>d. pl_destination_location p = Some d \<and>
    distinct (open_targets (pl_attachments p')) \<and> casefold (lo_path d) \<notin> set (open_targets (pl_attachments p')) \<and>
    (\<forall>a \<in> set (pl_attachments p'). lo_storage (at_destination a) = pl_target_storage p \<and>
      at_operation a = pl_operation p \<and> \<not> unsafe_relative_path (lo_path (at_destination a)) \<and>
      (\<forall>exists. storage = Some exists \<and> at_blocked a = None \<longrightarrow> exists (lo_path (at_destination a)) = Inr False))"
proof -
  obtain d planned ws where d: "pl_destination_location p = Some d"
    and pa: "plan_attachments storage p (path_dirname (lo_path d)) (fst (path_splitext (path_basename (lo_path d))))
      [casefold (lo_path d)] as = Inr (Some (planned, ws))"
    and p': "pl_attachments p' = planned"
    using assms by (auto simp: add_attachments_def invalid_plan_def guard_simps Let_def split: option.splits)
  from plan_attachments_open [OF pa] d p' show ?thesis by (auto split: option.splits)
qed

definition film_subtitle :: attachment where
  "film_subtitle =
     \<lparr>ma_source = \<lparr>lo_storage = ''in'', lo_path = ''heat.en.srt''\<rparr>, ma_type = Subtitle, ma_suffix = ''.en'', ma_language = None\<rparr>"

lemma attachments_never_collide_witness:
  "case film_plan ''library'' [] of
     Inr p \<Rightarrow> (case add_attachments (Some (holds_paths [])) p [film_subtitle, film_subtitle] of
       Inr p' \<Rightarrow> distinct (open_targets (pl_attachments p')) | Inl _ \<Rightarrow> False)
   | Inl _ \<Rightarrow> False"
proof -
  have "case film_plan ''library'' [] of
     Inr p \<Rightarrow> (case add_attachments (Some (holds_paths [])) p [film_subtitle, film_subtitle] of
       Inr p' \<Rightarrow> pl_status p' = PlanReady | Inl _ \<Rightarrow> False)
   | Inl _ \<Rightarrow> False" by code_simp
  then obtain p p' where p: "film_plan ''library'' [] = Inr p"
    "add_attachments (Some (holds_paths [])) p [film_subtitle, film_subtitle] = Inr p'" "pl_status p' = PlanReady"
    by (auto split: sum.splits)
  from attachments_never_collide [OF p(2)] p show ?thesis by auto
qed

section \<open>Retrying\<close>

text \<open>C37: with a positive slice the retry controller always ends, whatever the operation, the cancellation check
  and the random source answer: it makes at most the configured number of calls, never reaches the
  assertion after its loop, sleeps in pauses of at most one slice, and waits at most the greatest delay for
  each call it made.
\<close>

theorem retry_always_ends:
  assumes "0 < re_slice env" "make_retry_policy p = Inr p"
  shows "\<exists>out st. retry_execute env p stage = Some (out, st) \<and> out \<noteq> AssertionFailed \<and>
    int (rs_calls st) \<le> ry_attempts p \<and> (\<forall>s \<in> set (rs_sleeps st). 0 < s \<and> s \<le> re_slice env) \<and>
    sum_list (rs_sleeps st) \<le> of_nat (rs_calls st) * ry_max p"
proof -
  have max: "1 \<le> ry_attempts p" using assms(2) by (simp add: make_retry_policy_def guard_simps)
  from retry_attempts_total [OF assms, of stage 1 "nat (ry_attempts p)" "[]" start_state]
  obtain out st ss where r: "retry_execute env p stage = Some (out, st)"
    "rs_calls st \<le> nat (ry_attempts p)" "rs_sleeps st = ss" "\<forall>s \<in> set ss. 0 < s \<and> s \<le> re_slice env"
    "sum_list ss \<le> of_nat (rs_calls st) * ry_max p"
    unfolding retry_execute_def start_state_def by auto
  moreover have "out \<noteq> AssertionFailed"
    using retry_attempts_reach [of p 1 "nat (ry_attempts p)" env stage "[]" start_state st] max r(1)
    unfolding retry_execute_def by auto
  ultimately show ?thesis using max by auto
qed

definition failing_env :: "nat retry_env" where
  "failing_env =
     \<lparr>re_operation = (\<lambda>_. Inl (StorageFailure ''timeout'')), re_cancelled = None, re_random = (\<lambda>_. 0), re_slice = 1\<rparr>"

lemma retry_always_ends_witness:
  "\<exists>out st. retry_execute failing_env
      \<lparr>ry_enabled = True, ry_attempts = 3, ry_base = 1, ry_max = 2, ry_jitter = 0\<rparr> ''read'' = Some (out, st) \<and>
    rs_calls st \<le> 3"
proof -
  let ?p = "\<lparr>ry_enabled = True, ry_attempts = 3, ry_base = 1, ry_max = 2, ry_jitter = 0\<rparr>"
  have "0 < re_slice failing_env" "make_retry_policy ?p = Inr ?p"
    by (simp_all add: failing_env_def make_retry_policy_def)
  from retry_always_ends [OF this, of "''read''"] show ?thesis by fastforce
qed

end
