(* ===== verification/Storage_Trace.thy ===== *)
theory Storage_Trace
  imports Prelude
begin

text \<open>
  What runs against storages (\<open>domain/storage.py\<close>). A storage is an interface: what it answers, and
  whether an operation fails, may depend on everything that happened before, so the outside world is a
  record of functions from the history of events to answers. An action reads and extends that history
  and keeps the local lists the executor fills while it runs, which survive an exception.
\<close>

section \<open>Storages and events\<close>

datatype entry_type = FileEntry | DirectoryEntry | SymlinkEntry | OtherEntry

record entry =
  se_name :: string
  se_path :: string
  se_type :: entry_type
  se_size :: int
  se_modified :: instant
  se_fingerprint :: "string option"

record capabilities =
  can_move :: bool
  can_copy :: bool
  can_delete :: bool
  can_hard_link :: bool
  can_soft_link :: bool

text \<open>The key is the identity of the object: two ids may name one storage.\<close>

record storage =
  st_key :: nat
  st_id :: string
  st_read_only :: bool
  st_caps :: "capabilities option"

text \<open>An exception of a storage: \<open>StorageError\<close>, \<open>OSError\<close>, \<open>RuntimeError\<close>, \<open>KeyError\<close>, any other.\<close>

datatype external =
  StorageFault string string | OsFault string | RuntimeFault string | LookupFault string | OtherFault string

text \<open>
  The changes; a write names the stream it copies by the storage and path it was opened on, the bytes it
  is given, or a stream of the caller.
\<close>

datatype change =
    Write string "nat \<times> string" bool
  | MakeDirectory string
  | MoveTo string string bool
  | CopyTo string string bool
  | Remove string
  | HardLinkTo string string
  | SoftLinkTo string string
  | WriteBytes string string bool
  | WriteStream string bool

datatype event =
    SawExists nat string "external + bool"
  | SawEntry nat string "external + entry"
  | SawList nat string "external + entry list"
  | Opened nat string "external + unit"
  | Changed nat change "external + unit"
  | Asked string bool
  | Sent string
  | ReadBytes nat string "external + string"

record world =
  wo_exists :: "event list \<Rightarrow> nat \<Rightarrow> string \<Rightarrow> external + bool"
  wo_stat :: "event list \<Rightarrow> nat \<Rightarrow> string \<Rightarrow> external + entry"
  wo_list :: "event list \<Rightarrow> nat \<Rightarrow> string \<Rightarrow> external + entry list"
  wo_open :: "event list \<Rightarrow> nat \<Rightarrow> string \<Rightarrow> external + unit"
  wo_change :: "event list \<Rightarrow> nat \<Rightarrow> change \<Rightarrow> external + unit"
  wo_sent :: "event list \<Rightarrow> string"
  wo_bytes :: "event list \<Rightarrow> nat \<Rightarrow> string \<Rightarrow> external + string"
  wo_authority :: "(event list \<Rightarrow> string \<Rightarrow> bool) option"

section \<open>Actions\<close>

text \<open>
  An effect the executor owns and may undo; \<open>PartialExecutionError\<close>, \<open>MutationAuthorityRefused\<close> with the
  effects it knows to be complete, besides what storages raise.
\<close>

record owned_effect =
  ow_action :: string
  ow_source_storage :: storage
  ow_target_storage :: storage
  ow_source :: "string option"
  ow_target :: string
  ow_size :: int
  ow_modified :: instant
  ow_type :: entry_type
  ow_restore :: bool

datatype fault =
    External external
  | PartialFault string "string list"
  | Refused string "string list"

record cleanup_step =
  cs_action :: string
  cs_path :: string
  cs_success :: bool
  cs_reason :: "string option"

record run =
  ru_log :: "event list"
  ru_created :: "string list"
  ru_completed :: "string list"
  ru_effects :: "owned_effect list"
  ru_attempted :: bool
  ru_cleanup :: "cleanup_step list"

type_synonym 'a act = "run \<Rightarrow> (fault + 'a) \<times> run"

definition return_act :: "'a \<Rightarrow> 'a act" where
  "return_act x r = (Inr x, r)"

definition raise_act :: "fault \<Rightarrow> 'a act" where
  "raise_act e r = (Inl e, r)"

definition bind_act :: "'a act \<Rightarrow> ('a \<Rightarrow> 'b act) \<Rightarrow> 'b act" where
  "bind_act m f r = (case m r of (Inl e, r') \<Rightarrow> (Inl e, r') | (Inr x, r') \<Rightarrow> f x r')"

text \<open>\<open>try\<close>: the handler is given every fault and raises again those it does not catch.\<close>

definition catch_act :: "'a act \<Rightarrow> (fault \<Rightarrow> 'a act) \<Rightarrow> 'a act" where
  "catch_act m h r = (case m r of (Inl e, r') \<Rightarrow> h e r' | (Inr x, r') \<Rightarrow> (Inr x, r'))"

definition get_run :: "run act" where
  "get_run r = (Inr r, r)"

definition local_act :: "(run \<Rightarrow> run) \<Rightarrow> unit act" where
  "local_act f r = (Inr (), f r)"

definition observe :: "(event list \<Rightarrow> external + 'a) \<Rightarrow> (external + 'a \<Rightarrow> event) \<Rightarrow> 'a act" where
  "observe answer event r =
     (let a = answer (ru_log r) in
      (case a of Inl e \<Rightarrow> Inl (External e) | Inr x \<Rightarrow> Inr x, r\<lparr>ru_log := ru_log r @ [event a]\<rparr>))"

definition exists_at :: "world \<Rightarrow> storage \<Rightarrow> string \<Rightarrow> bool act" where
  "exists_at w s p = observe (\<lambda>h. wo_exists w h (st_key s) p) (SawExists (st_key s) p)"

definition stat_at :: "world \<Rightarrow> storage \<Rightarrow> string \<Rightarrow> entry act" where
  "stat_at w s p = observe (\<lambda>h. wo_stat w h (st_key s) p) (SawEntry (st_key s) p)"

definition list_at :: "world \<Rightarrow> storage \<Rightarrow> string \<Rightarrow> entry list act" where
  "list_at w s p = observe (\<lambda>h. wo_list w h (st_key s) p) (SawList (st_key s) p)"

definition open_at :: "world \<Rightarrow> storage \<Rightarrow> string \<Rightarrow> unit act" where
  "open_at w s p = observe (\<lambda>h. wo_open w h (st_key s) p) (Opened (st_key s) p)"

definition change_at :: "world \<Rightarrow> storage \<Rightarrow> change \<Rightarrow> unit act" where
  "change_at w s c = observe (\<lambda>h. wo_change w h (st_key s) c) (Changed (st_key s) c)"

text \<open>The bytes of an entry, and those that went through the stream of the last write.\<close>

definition bytes_at :: "world \<Rightarrow> storage \<Rightarrow> string \<Rightarrow> string act" where
  "bytes_at w s p = observe (\<lambda>h. wo_bytes w h (st_key s) p) (ReadBytes (st_key s) p)"

definition sent_bytes :: "world \<Rightarrow> string act" where
  "sent_bytes w = observe (\<lambda>h. Inr (wo_sent w h)) (\<lambda>a. Sent (case a of Inl _ \<Rightarrow> [] | Inr x \<Rightarrow> x))"

text \<open>\<open>_check_mutation_authority\<close>: any exception of the hook is a refusal.\<close>

definition check_authority :: "world \<Rightarrow> string \<Rightarrow> unit act" where
  "check_authority w boundary r =
     (case wo_authority w of
        None \<Rightarrow> (Inr (), r)
      | Some grants \<Rightarrow>
          (let ok = grants (ru_log r) boundary in
           (if ok then Inr () else Inl (Refused boundary []), r\<lparr>ru_log := ru_log r @ [Asked boundary ok]\<rparr>)))"

definition runtime_error :: "string \<Rightarrow> 'a act" where
  "runtime_error text = raise_act (External (RuntimeFault text))"

text \<open>The faults of \<open>except (StorageError, RuntimeError, OSError)\<close>, which includes the partial one.\<close>

definition ordinary :: "fault \<Rightarrow> bool" where
  "ordinary e =
     (case e of
        External x \<Rightarrow> (case x of OtherFault _ \<Rightarrow> False | LookupFault _ \<Rightarrow> False | _ \<Rightarrow> True)
      | PartialFault _ _ \<Rightarrow> True
      | Refused _ _ \<Rightarrow> False)"

definition key_error :: "fault \<Rightarrow> bool" where
  "key_error e = (case e of External (LookupFault _) \<Rightarrow> True | _ \<Rightarrow> False)"

definition external_text :: "external \<Rightarrow> string" where
  "external_text e =
     (case e of StorageFault _ t \<Rightarrow> t | OsFault t \<Rightarrow> t | RuntimeFault t \<Rightarrow> t
      | LookupFault t \<Rightarrow> t | OtherFault t \<Rightarrow> t)"

definition fault_text :: "fault \<Rightarrow> string" where
  "fault_text e =
     (case e of External x \<Rightarrow> external_text x | PartialFault t _ \<Rightarrow> t
      | Refused b _ \<Rightarrow> ''unattended authority refused before '' @ b)"

definition add_created :: "string list \<Rightarrow> unit act" where
  "add_created ps = local_act (\<lambda>r. r\<lparr>ru_created := ru_created r @ ps\<rparr>)"

definition add_completed :: "string list \<Rightarrow> unit act" where
  "add_completed cs = local_act (\<lambda>r. r\<lparr>ru_completed := ru_completed r @ cs\<rparr>)"

definition add_effect :: "owned_effect \<Rightarrow> unit act" where
  "add_effect e = local_act (\<lambda>r. r\<lparr>ru_effects := ru_effects r @ [e]\<rparr>)"

definition set_attempted :: "unit act" where
  "set_attempted = local_act (\<lambda>r. r\<lparr>ru_attempted := True\<rparr>)"

definition add_cleanup :: "string \<Rightarrow> string \<Rightarrow> bool \<Rightarrow> string option \<Rightarrow> unit act" where
  "add_cleanup a p b t = local_act (\<lambda>r. r\<lparr>ru_cleanup := ru_cleanup r @
     [\<lparr>cs_action = a, cs_path = p, cs_success = b, cs_reason = t\<rparr>]\<rparr>)"

text \<open>A fresh list of effects that the caller drops.\<close>

definition own_effects :: "'a act \<Rightarrow> 'a act" where
  "own_effects m r = (case m (r\<lparr>ru_effects := []\<rparr>) of (x, r') \<Rightarrow> (x, r'\<lparr>ru_effects := ru_effects r\<rparr>))"

fun each_act :: "('a \<Rightarrow> unit act) \<Rightarrow> 'a list \<Rightarrow> unit act" where
  "each_act f [] = return_act ()"
| "each_act f (x # xs) = bind_act (f x) (\<lambda>_. each_act f xs)"

fun map_act :: "('a \<Rightarrow> 'b act) \<Rightarrow> 'a list \<Rightarrow> 'b list act" where
  "map_act f [] = return_act []"
| "map_act f (x # xs) = bind_act (f x) (\<lambda>y. bind_act (map_act f xs) (\<lambda>ys. return_act (y # ys)))"

end
