(* ===== verification/Action_Rules.thy ===== *)
theory Action_Rules
  imports Storage_Trace
begin

text \<open>
  Reasoning about actions: the weakest precondition of an action for a result and for a fault, and the
  discipline every action of the executor follows on the history it extends. A change is made only under
  a grant for its kind that was given after the last change, none is made after a refusal, and each
  lies in a footprint.
\<close>

section \<open>Weakest preconditions\<close>

definition wp :: "'a act \<Rightarrow> ('a \<Rightarrow> run \<Rightarrow> bool) \<Rightarrow> (fault \<Rightarrow> run \<Rightarrow> bool) \<Rightarrow> run \<Rightarrow> bool" where
  "wp m Q E r = (case m r of (Inl e, r') \<Rightarrow> E e r' | (Inr x, r') \<Rightarrow> Q x r')"

lemma bind_return [simp]: "bind_act (return_act x) f = f x"
  by (simp add: fun_eq_iff bind_act_def return_act_def)

named_theorems wp_simps "the weakest preconditions of the primitive actions"

lemma wp_return [wp_simps]: "wp (return_act x) Q E r = Q x r"
  by (simp add: wp_def return_act_def)

lemma wp_raise [wp_simps]: "wp (raise_act e) Q E r = E e r"
  by (simp add: wp_def raise_act_def)

lemma wp_runtime_error [wp_simps]: "wp (runtime_error t) Q E r = E (External (RuntimeFault t)) r"
  by (simp add: runtime_error_def wp_raise)

lemma wp_bind [wp_simps]: "wp (bind_act m f) Q E r = wp m (\<lambda>x. wp (f x) Q E) E r"
  by (simp add: wp_def bind_act_def split: prod.split sum.split)

lemma wp_catch [wp_simps]: "wp (catch_act m h) Q E r = wp m Q (\<lambda>e. wp (h e) Q E) r"
  by (simp add: wp_def catch_act_def split: prod.split sum.split)

lemma wp_get_run [wp_simps]: "wp get_run Q E r = Q r r"
  by (simp add: wp_def get_run_def)

lemma wp_local [wp_simps]: "wp (local_act f) Q E r = Q () (f r)"
  by (simp add: wp_def local_act_def)

lemma wp_observe:
  "wp (observe answer event) Q E r =
    (let a = answer (ru_log r); r' = r\<lparr>ru_log := ru_log r @ [event a]\<rparr> in
     case a of Inl e \<Rightarrow> E (External e) r' | Inr x \<Rightarrow> Q x r')"
  by (simp add: wp_def observe_def Let_def split: sum.split)

lemma wp_authority:
  "wp (check_authority w b) Q E r =
    (case wo_authority w of
       None \<Rightarrow> Q () r
     | Some grants \<Rightarrow>
         if grants (ru_log r) b then Q () (r\<lparr>ru_log := ru_log r @ [Asked b True]\<rparr>)
         else E (Refused b []) (r\<lparr>ru_log := ru_log r @ [Asked b False]\<rparr>))"
  by (simp add: wp_def check_authority_def Let_def split: option.split)

lemma wp_own_effects [wp_simps]:
  "wp (own_effects m) Q E r =
    wp m (\<lambda>x r'. Q x (r'\<lparr>ru_effects := ru_effects r\<rparr>)) (\<lambda>e r'. E e (r'\<lparr>ru_effects := ru_effects r\<rparr>))
      (r\<lparr>ru_effects := []\<rparr>)"
  by (simp add: wp_def own_effects_def split: prod.split sum.split)

lemma wp_mono:
  "wp m Q E r \<Longrightarrow> (\<And>x s. Q x s \<Longrightarrow> Q' x s) \<Longrightarrow> (\<And>e s. E e s \<Longrightarrow> E' e s) \<Longrightarrow> wp m Q' E' r"
  by (simp add: wp_def split: prod.splits sum.splits)

lemma wp_conj: "wp m Q E r \<Longrightarrow> wp m Q' E' r \<Longrightarrow> wp m (\<lambda>x s. Q x s \<and> Q' x s) (\<lambda>e s. E e s \<and> E' e s) r"
  by (simp add: wp_def split: prod.splits sum.splits)

lemma wp_result:
  "wp m Q E r \<Longrightarrow> m r = (Inr x, s) \<Longrightarrow> Q x s"
  "wp m Q E r \<Longrightarrow> m r = (Inl e, s) \<Longrightarrow> E e s"
  by (simp_all add: wp_def)

lemma wp_final: "wp m (\<lambda>_. P) (\<lambda>_. P) r \<Longrightarrow> m r = (x, s) \<Longrightarrow> P s"
  by (cases x) (auto dest: wp_result)

lemma wp_intro:
  "(\<And>x s. m r = (Inr x, s) \<Longrightarrow> Q x s) \<Longrightarrow> (\<And>e s. m r = (Inl e, s) \<Longrightarrow> E e s) \<Longrightarrow> wp m Q E r"
  by (simp add: wp_def split: prod.split sum.split)

section \<open>The phases of a history\<close>

text \<open>What a granted boundary allows: one kind of change.\<close>

definition link_texts :: "string list" where
  "link_texts = [''LINK'', ''CREATE_DIRECTORY'', ''MOVE'', ''COPY'', ''HARD_LINK'', ''SOFT_LINK'', ''DELETE'']"

definition allowed_boundaries :: "change \<Rightarrow> string list" where
  "allowed_boundaries c =
     (case c of
        MakeDirectory _ \<Rightarrow> [''CREATE_DIRECTORY'', ''DIRECT:CREATE_DIRECTORY'']
      | MoveTo _ _ _ \<Rightarrow> [''PRIMARY:MOVE'', ''ATTACHMENT:MOVE'', ''ROLLBACK:MOVE'', ''DIRECT:MOVE'', ''DIRECT:RENAME'']
      | CopyTo _ _ _ \<Rightarrow> [''PRIMARY:COPY'', ''ATTACHMENT:COPY'', ''DIRECT:COPY'']
      | Write _ _ _ \<Rightarrow> [''PRIMARY:CROSS_STORAGE_WRITE'', ''ATTACHMENT:CROSS_STORAGE_WRITE'', ''ROLLBACK:CROSS_STORAGE_WRITE'',
          ''DIRECT:COPY'']
      | Remove _ \<Rightarrow> [''PRIMARY:CROSS_STORAGE_DELETE_SOURCE'', ''ATTACHMENT:CROSS_STORAGE_DELETE_SOURCE'',
          ''ROLLBACK:DELETE_DIRECTORY'', ''ROLLBACK:DELETE_TARGET'', ''ROLLBACK:CROSS_STORAGE_DELETE_TARGET'',
          ''CLEANUP_DELETE_IGNORED_FILE'', ''CLEANUP_DELETE_DIRECTORY'', ''DIRECT:DELETE'',
          ''DIRECT:DELETE_EMPTY_DIRECTORY'', ''DIRECT:CROSS_STORAGE_DELETE_SOURCE'']
      | HardLinkTo _ _ \<Rightarrow> map ((@) ''PRIMARY:'') link_texts @ map ((@) ''ATTACHMENT:'') link_texts
      | SoftLinkTo _ _ \<Rightarrow> map ((@) ''PRIMARY:'') link_texts @ map ((@) ''ATTACHMENT:'') link_texts
      | WriteBytes _ _ _ \<Rightarrow> [''DIRECT:WRITE'']
      | WriteStream _ _ \<Rightarrow> [''DIRECT:WRITE''])"

datatype phase = Waiting | Granted string | Stopped | Violated

fun phase_step :: "phase \<Rightarrow> event \<Rightarrow> phase" where
  "phase_step ph (Asked b ok) = (if ph \<in> {Stopped, Violated} then ph else if ok then Granted b else Stopped)"
| "phase_step ph (Changed k c a) =
     (case ph of Granted b \<Rightarrow> if b \<in> set (allowed_boundaries c) then Waiting else Violated | _ \<Rightarrow> Violated)"
| "phase_step ph _ = ph"

definition log_phase :: "event list \<Rightarrow> phase" where
  "log_phase h = foldl phase_step Waiting h"

lemma log_phase_Nil [simp]: "log_phase [] = Waiting"
  by (simp add: log_phase_def)

lemma log_phase_snoc [simp]: "log_phase (h @ [e]) = phase_step (log_phase h) e"
  by (simp add: log_phase_def)

text \<open>
  A history is kept if its changes lie in the footprint and none violates the phases; without a hook no
  one is asked.
\<close>

type_synonym footprint = "nat \<Rightarrow> change \<Rightarrow> bool"

definition kept :: "world \<Rightarrow> footprint \<Rightarrow> event list \<Rightarrow> bool" where
  "kept w A h =
     ((\<forall>k c a. Changed k c a \<in> set h \<longrightarrow> A k c) \<and>
      (wo_authority w = None \<longrightarrow> (\<forall>b ok. Asked b ok \<notin> set h)) \<and>
      (wo_authority w \<noteq> None \<longrightarrow> log_phase h \<noteq> Violated))"

definition calm :: "world \<Rightarrow> footprint \<Rightarrow> run \<Rightarrow> bool" where
  "calm w A r = (kept w A (ru_log r) \<and> (wo_authority w \<noteq> None \<longrightarrow> log_phase (ru_log r) \<noteq> Stopped))"

definition armed :: "world \<Rightarrow> footprint \<Rightarrow> string \<Rightarrow> run \<Rightarrow> bool" where
  "armed w A b r = (kept w A (ru_log r) \<and> (wo_authority w \<noteq> None \<longrightarrow> log_phase (ru_log r) = Granted b))"

definition is_refused :: "fault \<Rightarrow> bool" where
  "is_refused e = (case e of Refused _ _ \<Rightarrow> True | _ \<Rightarrow> False)"

lemma is_refused_simps [simp]:
  "is_refused (Refused b v)" "\<not> is_refused (External x)" "\<not> is_refused (PartialFault t c)"
  by (simp_all add: is_refused_def)

definition halted :: "world \<Rightarrow> footprint \<Rightarrow> fault \<Rightarrow> run \<Rightarrow> bool" where
  "halted w A e r = (kept w A (ru_log r) \<and> (\<not> is_refused e \<longrightarrow> calm w A r))"

text \<open>An action is steady if it keeps a calm history calm, as long as its result says so.\<close>

definition steady :: "world \<Rightarrow> footprint \<Rightarrow> ('a \<Rightarrow> bool) \<Rightarrow> 'a act \<Rightarrow> bool" where
  "steady w A P m =
     (\<forall>r. calm w A r \<longrightarrow> wp m (\<lambda>x s. kept w A (ru_log s) \<and> (P x \<longrightarrow> calm w A s)) (halted w A) r)"

abbreviation always :: "'a \<Rightarrow> bool" where
  "always \<equiv> \<lambda>_. True"

text \<open>From a grant on: one change of the granted kind, with observations before it.\<close>

definition fired :: "world \<Rightarrow> footprint \<Rightarrow> string \<Rightarrow> ('a \<Rightarrow> bool) \<Rightarrow> 'a act \<Rightarrow> bool" where
  "fired w A b P m =
     (\<forall>r. armed w A b r \<longrightarrow> wp m (\<lambda>x s. kept w A (ru_log s) \<and> (P x \<longrightarrow> calm w A s)) (halted w A) r)"

text \<open>A silent action leaves the history alone.\<close>

definition silent :: "'a act \<Rightarrow> bool" where
  "silent m = (\<forall>r. wp m (\<lambda>_ s. ru_log s = ru_log r) (\<lambda>_ s. ru_log s = ru_log r) r)"

named_theorems steady_intros "how steady actions are composed"
named_theorems silent_intros "how silent actions are composed"

lemma armed_calm: "armed w A b r \<Longrightarrow> calm w A r"
  by (auto simp: armed_def calm_def)

lemma calm_kept: "calm w A r \<Longrightarrow> kept w A (ru_log r)"
  by (simp add: calm_def)

lemma calm_log: "ru_log s = ru_log r \<Longrightarrow> calm w A s = calm w A r"
  by (simp add: calm_def)

lemma steady_wp:
  "steady w A P m \<Longrightarrow> calm w A r \<Longrightarrow>
    wp m (\<lambda>x s. kept w A (ru_log s) \<and> (P x \<longrightarrow> calm w A s)) (halted w A) r"
  by (simp add: steady_def)

lemma fired_wp:
  "fired w A b P m \<Longrightarrow> armed w A b r \<Longrightarrow>
    wp m (\<lambda>x s. kept w A (ru_log s) \<and> (P x \<longrightarrow> calm w A s)) (halted w A) r"
  by (simp add: fired_def)

lemma silent_wp: "silent m \<Longrightarrow> wp m (\<lambda>_ s. ru_log s = ru_log r) (\<lambda>_ s. ru_log s = ru_log r) r"
  by (simp add: silent_def)

lemma silent_return [silent_intros]: "silent (return_act x)"
  by (simp add: silent_def wp_simps)

lemma silent_raise [silent_intros]: "silent (raise_act e)"
  by (simp add: silent_def wp_simps)

lemma silent_get_run [silent_intros]: "silent get_run"
  by (simp add: silent_def wp_simps)

lemma silent_bind [silent_intros]:
  assumes "silent m" "\<And>x. silent (f x)"
  shows "silent (bind_act m f)"
  unfolding silent_def wp_bind
proof
  fix r
  show "wp m (\<lambda>x. wp (f x) (\<lambda>_ s. ru_log s = ru_log r) (\<lambda>_ s. ru_log s = ru_log r)) (\<lambda>_ s. ru_log s = ru_log r) r"
  proof (rule wp_mono [OF silent_wp [OF assms(1)]])
    fix x and s :: run
    assume "ru_log s = ru_log r"
    with silent_wp [OF assms(2) [of x], of s]
    show "wp (f x) (\<lambda>_ s. ru_log s = ru_log r) (\<lambda>_ s. ru_log s = ru_log r) s" by simp
  qed
qed

lemma silent_local [silent_intros]:
  "silent (add_created ps)" "silent (add_completed cs)" "silent (add_effect e)" "silent set_attempted"
  "silent (add_cleanup a d b t)"
  by (simp_all add: silent_def wp_simps add_created_def add_completed_def add_effect_def set_attempted_def add_cleanup_def)

lemma steady_silent:
  assumes "silent m"
  shows "steady w A P m"
  unfolding steady_def
proof (intro allI impI)
  fix r
  assume c: "calm w A r"
  show "wp m (\<lambda>x s. kept w A (ru_log s) \<and> (P x \<longrightarrow> calm w A s)) (halted w A) r"
    by (rule wp_mono [OF silent_wp [OF assms]]) (use c in \<open>auto simp: calm_def halted_def\<close>)
qed

lemmas steady_locals [steady_intros] =
  silent_return [THEN steady_silent] silent_raise [THEN steady_silent] silent_get_run [THEN steady_silent]
  silent_local [THEN steady_silent]

section \<open>Composing\<close>

text \<open>A result that ends the calm is followed by nothing but local steps.\<close>

lemma steady_bind:
  assumes "steady w A P m" "\<And>x r s. m r = (Inr x, s) \<Longrightarrow> P x \<Longrightarrow> steady w A Q (f x)" "\<And>x. \<not> P x \<Longrightarrow> silent (f x)"
    "\<And>x y r s. \<not> P x \<Longrightarrow> f x r = (Inr y, s) \<Longrightarrow> \<not> Q y"
    "\<And>x e r s. \<not> P x \<Longrightarrow> f x r \<noteq> (Inl e, s)"
  shows "steady w A Q (bind_act m f)"
  unfolding steady_def wp_bind
proof (intro allI impI)
  fix r
  assume c: "calm w A r"
  let ?Q = "\<lambda>y s. kept w A (ru_log s) \<and> (Q y \<longrightarrow> calm w A s)"
  show "wp m (\<lambda>x. wp (f x) ?Q (halted w A)) (halted w A) r"
  proof (rule wp_intro)
    fix x s
    assume x: "m r = (Inr x, s)"
    have s: "kept w A (ru_log s) \<and> (P x \<longrightarrow> calm w A s)"
      by (rule wp_result(1) [OF steady_wp [OF assms(1) c] x])
    show "wp (f x) ?Q (halted w A) s"
    proof (cases "P x")
      case True
      then show ?thesis using steady_wp [OF assms(2) [OF x]] s by blast
    next
      case False
      show ?thesis
      proof (rule wp_intro)
        fix y t
        assume y: "f x s = (Inr y, t)"
        with wp_result(1) [OF silent_wp [OF assms(3) [OF False]]] have "ru_log t = ru_log s" by blast
        then show "?Q y t" using s assms(4) [OF False y] by simp
      next
        fix e t
        assume "f x s = (Inl e, t)"
        then show "halted w A e t" using assms(5) [OF False] by blast
      qed
    qed
  next
    show "m r = (Inl e, s) \<Longrightarrow> halted w A e s" for e s
      by (rule wp_result(2) [OF steady_wp [OF assms(1) c]])
  qed
qed

lemma steady_seq [steady_intros]:
  assumes "steady w A always m" "\<And>x. steady w A Q (f x)"
  shows "steady w A Q (bind_act m f)"
  by (rule steady_bind [OF assms(1)]) (use assms(2) in auto)

lemma steady_weaken: "steady w A P m \<Longrightarrow> (\<And>x. Q x \<Longrightarrow> P x) \<Longrightarrow> steady w A Q m"
  unfolding steady_def by (blast intro: wp_mono)

lemma steady_if [steady_intros]:
  "(c \<Longrightarrow> steady w A P m) \<Longrightarrow> (\<not> c \<Longrightarrow> steady w A P n) \<Longrightarrow> steady w A P (if c then m else n)"
  by simp

lemma steady_option [steady_intros]:
  "(v = None \<Longrightarrow> steady w A P m) \<Longrightarrow> (\<And>x. v = Some x \<Longrightarrow> steady w A P (n x)) \<Longrightarrow>
    steady w A P (case v of None \<Rightarrow> m | Some x \<Rightarrow> n x)"
  by (cases v) simp_all

lemma steady_sum [steady_intros]:
  "(\<And>x. v = Inl x \<Longrightarrow> steady w A P (m x)) \<Longrightarrow> (\<And>x. v = Inr x \<Longrightarrow> steady w A P (n x)) \<Longrightarrow>
    steady w A P (case v of Inl x \<Rightarrow> m x | Inr x \<Rightarrow> n x)"
  by (cases v) simp_all

lemma steady_pair [steady_intros]:
  "(\<And>x y. v = (x, y) \<Longrightarrow> steady w A P (m x y)) \<Longrightarrow> steady w A P (case v of (x, y) \<Rightarrow> m x y)"
  by (cases v) simp

lemma steady_let [steady_intros]:
  "(\<And>x. x = v \<Longrightarrow> steady w A P (m x)) \<Longrightarrow> steady w A P (let x = v in m x)"
  by simp

text \<open>A handler that lets every refusal through, and one that may end the calm with a result.\<close>

lemma steady_catch:
  assumes "steady w A P m" "\<And>e. \<not> is_refused e \<Longrightarrow> steady w A P (h e)"
    "\<And>b v. silent (h (Refused b v))"
    "\<And>b v y r s. h (Refused b v) r = (Inr y, s) \<Longrightarrow> \<not> P y"
    "\<And>b v e r s. h (Refused b v) r = (Inl e, s) \<Longrightarrow> is_refused e"
  shows "steady w A P (catch_act m h)"
  unfolding steady_def wp_catch
proof (intro allI impI)
  fix r
  assume c: "calm w A r"
  let ?Q = "\<lambda>y s. kept w A (ru_log s) \<and> (P y \<longrightarrow> calm w A s)"
  show "wp m ?Q (\<lambda>e. wp (h e) ?Q (halted w A)) r"
  proof (rule wp_mono [OF steady_wp [OF assms(1) c]])
    fix e s
    assume s: "halted w A e s"
    show "wp (h e) ?Q (halted w A) s"
    proof (cases "is_refused e")
      case False
      then show ?thesis using s steady_wp [OF assms(2)] by (auto simp: halted_def)
    next
      case True
      then obtain b v where e: "e = Refused b v" by (auto simp: is_refused_def split: fault.splits)
      show ?thesis unfolding e
      proof (rule wp_intro)
        fix y t
        assume y: "h (Refused b v) s = (Inr y, t)"
        with wp_result(1) [OF silent_wp [OF assms(3)]] have "ru_log t = ru_log s" by blast
        then show "?Q y t" using s assms(4) [OF y] by (simp add: halted_def)
      next
        fix e' t
        assume y: "h (Refused b v) s = (Inl e', t)"
        with wp_result(2) [OF silent_wp [OF assms(3)]] have "ru_log t = ru_log s" by blast
        then show "halted w A e' t" using s assms(5) [OF y] by (simp add: halted_def)
      qed
    qed
  qed assumption
qed

lemma steady_catch_through [steady_intros]:
  assumes "steady w A P m" "\<And>e. \<not> is_refused e \<Longrightarrow> steady w A P (h e)"
    "\<And>b v. \<exists>u. h (Refused b v) = raise_act (Refused b u)"
  shows "steady w A P (catch_act m h)"
proof (rule steady_catch [OF assms(1,2)])
  fix b v
  obtain u where u: "h (Refused b v) = raise_act (Refused b u)" using assms(3) by blast
  show "silent (h (Refused b v))" by (simp add: u silent_raise)
  show "h (Refused b v) r = (Inr y, s) \<Longrightarrow> \<not> P y" for y r s by (simp add: u raise_act_def)
  show "h (Refused b v) r = (Inl e, s) \<Longrightarrow> is_refused e" for e r s by (auto simp: u raise_act_def)
qed

lemma steady_own_effects [steady_intros]:
  assumes "steady w A P m"
  shows "steady w A P (own_effects m)"
  unfolding steady_def wp_own_effects
proof (intro allI impI)
  fix r
  assume "calm w A r"
  then have c: "calm w A (r\<lparr>ru_effects := []\<rparr>)" by (simp add: calm_def)
  show "wp m (\<lambda>x s. kept w A (ru_log (s\<lparr>ru_effects := ru_effects r\<rparr>)) \<and> (P x \<longrightarrow> calm w A (s\<lparr>ru_effects := ru_effects r\<rparr>)))
      (\<lambda>e s. halted w A e (s\<lparr>ru_effects := ru_effects r\<rparr>)) (r\<lparr>ru_effects := []\<rparr>)"
    by (rule wp_mono [OF steady_wp [OF assms c]]) (auto simp: calm_def halted_def)
qed

section \<open>Observations, grants and changes\<close>

lemma kept_observed:
  assumes "kept w A h" "\<And>k c a. e \<noteq> Changed k c a" "\<And>b ok. e \<noteq> Asked b ok"
  shows "kept w A (h @ [e])" "log_phase (h @ [e]) = log_phase h"
  using assms by (cases e; auto simp: kept_def)+

lemma phase_observed: "(\<And>k c a. e \<noteq> Changed k c a) \<Longrightarrow> (\<And>b ok. e \<noteq> Asked b ok) \<Longrightarrow> phase_step ph e = ph"
  by (cases e) auto

lemma steady_observe:
  assumes "\<And>a k c o'. event a \<noteq> Changed k c o'" "\<And>a b ok. event a \<noteq> Asked b ok"
  shows "steady w A P (observe answer event)"
  unfolding steady_def wp_observe Let_def
  using kept_observed [OF _ assms] by (auto simp: calm_def halted_def split: sum.split)

lemma steady_observations [steady_intros]:
  "steady w A P (exists_at w s p)" "steady w A Q (stat_at w s p)" "steady w A R (list_at w s p)"
  "steady w A S (open_at w s p)" "steady w A T (bytes_at w s p)" "steady w A U (sent_bytes w)"
  by (simp_all add: exists_at_def stat_at_def list_at_def open_at_def bytes_at_def sent_bytes_def steady_observe)

lemma steady_runtime_error [steady_intros]: "steady w A P (runtime_error t)"
  by (simp add: runtime_error_def steady_locals)

lemma wp_authority_armed:
  "calm w A r \<Longrightarrow> wp (check_authority w b) (\<lambda>_. armed w A b) (halted w A) r"
  by (auto simp: wp_authority calm_def armed_def halted_def kept_def split: option.split)

lemma steady_grant [steady_intros]: "steady w A P (check_authority w b)"
  unfolding steady_def
  by (intro allI impI) (rule wp_mono [OF wp_authority_armed], auto dest: armed_calm simp: calm_def)

lemma fired_change:
  assumes "b \<in> set (allowed_boundaries c)" "A (st_key s) c"
  shows "fired w A b P (change_at w s c)"
  using assms
  by (auto simp: fired_def change_at_def wp_observe Let_def armed_def calm_def halted_def kept_def split: sum.split)

lemma fired_grant:
  assumes "\<And>x. fired w A b P (f x)"
  shows "steady w A P (bind_act (check_authority w b) f)"
  unfolding steady_def wp_bind
  by (intro allI impI) (rule wp_mono [OF wp_authority_armed], auto intro: fired_wp [OF assms])

lemma fired_seq:
  assumes "\<And>r. armed w A b r \<Longrightarrow> wp m (\<lambda>x. armed w A b) (halted w A) r" "\<And>x. fired w A b P (f x)"
  shows "fired w A b P (bind_act m f)"
  unfolding fired_def wp_bind
  by (intro allI impI) (rule wp_mono [OF assms(1)], auto intro: fired_wp [OF assms(2)])

lemma fired_then:
  assumes "fired w A b always m" "\<And>x. steady w A P (f x)"
  shows "fired w A b P (bind_act m f)"
  unfolding fired_def wp_bind
  by (intro allI impI) (rule wp_mono [OF fired_wp [OF assms(1)]], auto intro: steady_wp [OF assms(2)])

lemma fired_steady: "steady w A P m \<Longrightarrow> fired w A b P m"
  by (auto simp: fired_def steady_def dest: armed_calm)

lemma armed_observe:
  assumes "\<And>a k c o'. event a \<noteq> Changed k c o'" "\<And>a b ok. event a \<noteq> Asked b ok" "armed w A b r"
  shows "wp (observe answer event) (\<lambda>x. armed w A b) (halted w A) r"
  unfolding wp_observe Let_def
  using kept_observed(1) [OF _ assms(1,2)] assms(3)
  by (auto simp: calm_def armed_def halted_def phase_observed [OF assms(1,2)] split: sum.split)

lemma armed_open: "armed w A b r \<Longrightarrow> wp (open_at w s p) (\<lambda>x. armed w A b) (halted w A) r"
  by (simp add: open_at_def armed_observe)

lemma armed_exists: "armed w A b r \<Longrightarrow> wp (exists_at w s p) (\<lambda>x. armed w A b) (halted w A) r"
  by (simp add: exists_at_def armed_observe)

lemma armed_attempted: "armed w A b r \<Longrightarrow> wp set_attempted (\<lambda>x. armed w A b) (halted w A) r"
  by (simp add: set_attempted_def wp_simps armed_def)

lemma steady_each [steady_intros]:
  "(\<And>x. x \<in> set xs \<Longrightarrow> steady w A always (f x)) \<Longrightarrow> steady w A P (each_act f xs)"
  by (induction xs) (auto intro!: steady_intros)

lemma steady_map_act [steady_intros]:
  "(\<And>x. x \<in> set xs \<Longrightarrow> steady w A always (f x)) \<Longrightarrow> steady w A P (map_act f xs)"
  by (induction xs arbitrary: P) (auto intro!: steady_intros)

end
