(* ===== verification/Glob.thy ===== *)
theory Glob
  imports Posix_Paths
begin

text \<open>
  \<open>fnmatch.fnmatchcase\<close>, the patterns a cleanup policy names files by: stars, question marks and
  bracketed classes with ranges, over whole names and with case.
\<close>

datatype glob = AnyText | OneChar "char \<Rightarrow> bool"

text \<open>A class lists characters and ranges; a range that runs backwards holds nothing.\<close>

fun class_items :: "string \<Rightarrow> (char \<times> char) list" where
  "class_items (c # d # e # cs) =
     (if d = CHR ''-'' then (c, e) # class_items cs else (c, c) # class_items (d # e # cs))"
| "class_items [c, d] = [(c, c), (d, d)]"
| "class_items [c] = [(c, c)]"
| "class_items [] = []"

definition in_items :: "string \<Rightarrow> char \<Rightarrow> bool" where
  "in_items s c = list_ex (\<lambda>(l, u). code l \<le> code c \<and> code c \<le> code u) (class_items s)"

text \<open>\<open>fnmatch\<close> removes backward ranges from the text, so an exclamation mark after them negates.\<close>

fun drop_backward :: "string \<Rightarrow> string" where
  "drop_backward (c # d # e # cs) =
     (if d = CHR ''-'' \<and> code e < code c then drop_backward cs else c # d # e # cs)"
| "drop_backward s = s"

definition in_class :: "string \<Rightarrow> char \<Rightarrow> bool" where
  "in_class stuff c =
     (if starts_with ''!'' stuff then \<not> in_items (tl stuff) c
      else let s = drop_backward stuff in
        if s \<noteq> stuff \<and> starts_with ''!'' s then \<not> in_items (tl s) c else in_items s c)"

text \<open>The class after an opening bracket and what follows it; without a closing one there is none.\<close>

definition split_class :: "string \<Rightarrow> (string \<times> string) option" where
  "split_class s =
     (let n = (if starts_with ''!'' s then 1 else 0);
          k = (if starts_with '']'' (drop n s) then Suc n else n);
          body = takeWhile (\<lambda>c. c \<noteq> CHR '']'') (drop k s) in
      if CHR '']'' \<notin> set (drop k s) then None
      else Some (take k s @ body, drop (Suc (k + length body)) s))"

lemma split_class_shorter: "split_class s = Some (a, b) \<Longrightarrow> length b < Suc (length s)"
  by (auto simp: split_class_def Let_def split: if_splits)

function parse_glob :: "string \<Rightarrow> glob list" where
  "parse_glob [] = []"
| "parse_glob (c # cs) =
     (if c = CHR ''*'' then AnyText # parse_glob cs
      else if c = CHR ''?'' then OneChar (\<lambda>_. True) # parse_glob cs
      else if c = CHR ''['' then
        (case split_class cs of
           None \<Rightarrow> OneChar (\<lambda>x. x = c) # parse_glob cs
         | Some (stuff, rest) \<Rightarrow> OneChar (in_class stuff) # parse_glob rest)
      else OneChar (\<lambda>x. x = c) # parse_glob cs)"
  by pat_completeness auto

termination
  by (relation "measure length") (auto dest: split_class_shorter)

fun glob_fits :: "glob list \<Rightarrow> string \<Rightarrow> bool" where
  "glob_fits [] s = (s = [])"
| "glob_fits (AnyText # ts) [] = glob_fits ts []"
| "glob_fits (AnyText # ts) (c # cs) = (glob_fits ts (c # cs) \<or> glob_fits (AnyText # ts) cs)"
| "glob_fits (OneChar P # ts) [] = False"
| "glob_fits (OneChar P # ts) (c # cs) = (P c \<and> glob_fits ts cs)"

definition fnmatch :: "string \<Rightarrow> string \<Rightarrow> bool" where
  "fnmatch name pattern = glob_fits (parse_glob pattern) name"

end
