(* ===== verification/Organize_Execution.thy ===== *)
theory Organize_Execution
  imports Organize_Plan Redaction Glob Storage_Trace
begin

text \<open>
  \<open>OrganizerExecutor\<close> of \<open>application/organizer.py\<close>: one plan executed against storages. The primary
  change is checked, made and verified; a failure is undone when the plan asks for it; the attachments
  follow one by one; emptied source directories are cleaned up. Logging and the duration of a result
  are left out, and the texts shown beside an attachment are named by their branch.
\<close>

section \<open>Results\<close>

datatype organize_status = ExecSuccess | ExecDryRun | ExecFailed | ExecPartial | ExecSkipped

datatype certainty = VerifiedComplete | AttemptedUnverified | NoEffect | UnknownEffect

fun certainty_text :: "certainty \<Rightarrow> string" where
  "certainty_text VerifiedComplete = ''verified_complete''"
| "certainty_text AttemptedUnverified = ''attempted_unverified''"
| "certainty_text NoEffect = ''none''"
| "certainty_text UnknownEffect = ''unknown''"

datatype rollback_status =
  RollbackDisabled | RollbackNotNeeded | RollbackSuccess | RollbackPartial | RollbackRefused

record rollback_step =
  ro_action :: string
  ro_storage :: string
  ro_source :: "string option"
  ro_target :: string
  ro_success :: bool
  ro_error :: "string option"

datatype cleanup_status =
  CleanupDisabled | CleanupNotApplicable | CleanupSuccess | CleanupStopped | CleanupRefused
| CleanupPartial | CleanupFailed

datatype attachment_status = AttachmentSuccess | AttachmentNotExecuted | AttachmentFailed

datatype next_action =
    InspectUnverified | NothingToDo | InspectStopped | CheckPolicy | ResolveCollision string
  | SupplySource | CheckAccess

record attachment_result =
  ar_type :: attachment_type
  ar_language :: "string option"
  ar_operation :: plan_operation
  ar_status :: attachment_status
  ar_source_storage :: string
  ar_source :: string
  ar_target_storage :: string
  ar_target :: string
  ar_reason :: "string option"
  ar_certainty :: certainty
  ar_completed :: "string list"
  ar_next :: next_action

record execution_result =
  er_status :: organize_status
  er_operation :: plan_operation
  er_source :: string
  er_destination :: string
  er_created :: "string list"
  er_completed :: "string list"
  er_warnings :: "string list"
  er_errors :: "string list"
  er_plan_id :: string
  er_resolved :: string
  er_rollback :: rollback_status
  er_rollback_steps :: "rollback_step list"
  er_cleanup :: cleanup_status
  er_cleanup_steps :: "cleanup_step list"
  er_certainty :: certainty
  er_uncertain :: "string list"
  er_primary :: bool
  er_attachments :: "attachment_result list"

definition next_action_of ::
  "plan \<Rightarrow> string \<Rightarrow> attachment_status \<Rightarrow> string option \<Rightarrow> certainty \<Rightarrow> next_action" where
  "next_action_of p name status reason certainty =
     (if certainty \<in> {UnknownEffect, AttemptedUnverified} then InspectUnverified
      else if status = AttachmentSuccess then NothingToDo
      else if reason \<in> {Some ''primary_not_completed'', Some ''execution_stopped'', Some ''authority_refused''}
      then InspectStopped
      else if pl_operation p \<notin> {DoMove, DoCopy, DoLink} then CheckPolicy
      else if reason = Some ''attachment_collision'' then ResolveCollision name
      else if reason = Some ''source_missing'' then SupplySource
      else CheckAccess)"

definition attachment_result_document ::
  "plan \<Rightarrow> attachment_plan \<Rightarrow> attachment_status \<Rightarrow> string option \<Rightarrow> certainty \<Rightarrow> string list \<Rightarrow> attachment_result" where
  "attachment_result_document p a status reason certainty completed =
     \<lparr>ar_type = at_type a, ar_language = at_language a, ar_operation = pl_operation p, ar_status = status,
      ar_source_storage = lo_storage (at_source a), ar_source = redact_evidence_text (lo_path (at_source a)) None,
      ar_target_storage = lo_storage (at_destination a),
      ar_target = redact_evidence_text (lo_path (at_destination a)) None, ar_reason = reason,
      ar_certainty = certainty, ar_completed = completed,
      ar_next = next_action_of p (redact_evidence_text (path_basename (lo_path (at_destination a))) None)
        status reason certainty\<rparr>"

text \<open>\<open>_result\<close> with its defaults; a result without attachment results says that none was executed.\<close>

definition plain_result :: "plan \<Rightarrow> string \<Rightarrow> string \<Rightarrow> organize_status \<Rightarrow> execution_result" where
  "plain_result p plan_id display status =
     \<lparr>er_status = status, er_operation = pl_operation p, er_source = pl_source p, er_destination = pl_target p,
      er_created = [], er_completed = [], er_warnings = [], er_errors = [], er_plan_id = plan_id,
      er_resolved = display, er_rollback = RollbackNotNeeded, er_rollback_steps = [],
      er_cleanup = CleanupDisabled, er_cleanup_steps = [], er_certainty = NoEffect, er_uncertain = [],
      er_primary = False,
      er_attachments = map (\<lambda>a. attachment_result_document p a AttachmentNotExecuted
        (Some ''primary_not_completed'') NoEffect []) (pl_attachments p)\<rparr>"

section \<open>Checks before any change\<close>

definition storage_validation_error :: "plan \<Rightarrow> (string \<rightharpoonup> storage) \<Rightarrow> string option" where
  "storage_validation_error p storages =
     (if storages (pl_source_storage p) = None \<or> storages (pl_target_storage p) = None
      then Some ''plan references an unavailable Storage''
      else if list_ex (\<lambda>a. storages (lo_storage (at_source a)) = None \<or>
          storages (lo_storage (at_destination a)) = None) (pl_attachments p)
      then Some ''attachment plan references an unavailable Storage''
      else None)"

definition same_storage :: "storage \<Rightarrow> storage \<Rightarrow> bool" where
  "same_storage a b = (st_key a = st_key b)"

definition denied_or_unsupported :: "string \<Rightarrow> storage \<Rightarrow> bool \<Rightarrow> string option" where
  "denied_or_unsupported operation s supported =
     (if supported then None
      else if st_read_only s then Some (''capability denied: '' @ operation @ '' requires writable Storage'')
      else Some (''unsupported capability: '' @ operation @ '' is not supported''))"

definition operation_capability_error :: "plan \<Rightarrow> storage \<Rightarrow> storage \<Rightarrow> string option" where
  "operation_capability_error p src dst =
     (if pl_operation p \<in> {DoNoop, DoSkip} then None
      else case (st_caps src, st_caps dst) of
        (Some a, Some b) \<Rightarrow>
          (case pl_operation p of
             DoMove \<Rightarrow>
               if same_storage src dst then denied_or_unsupported ''MOVE'' src (can_move a)
               else (case denied_or_unsupported ''MOVE target COPY'' dst (can_copy b) of
                 Some e \<Rightarrow> Some e
               | None \<Rightarrow> denied_or_unsupported ''MOVE source DELETE'' src (can_delete a))
           | DoCopy \<Rightarrow> denied_or_unsupported ''COPY'' dst (can_copy b)
           | DoLink \<Rightarrow>
               if \<not> same_storage src dst then Some ''cross-storage LINK is not supported''
               else if pl_link p = Some OpSoftLink
               then denied_or_unsupported ''SOFT_LINK'' src (can_soft_link a)
               else if pl_link p \<in> {None, Some OpHardLink}
               then denied_or_unsupported ''HARD_LINK'' src (can_hard_link a)
               else Some ''unsupported capability: LINK type is not configured''
           | x \<Rightarrow> Some (''unsupported capability: '' @ operation_text x @ '' is not supported''))
      | _ \<Rightarrow> None)"

section \<open>The change\<close>

definition link_boundary :: "plan \<Rightarrow> string" where
  "link_boundary p =
     (case pl_link p of
        None \<Rightarrow> ''LINK'' | Some OpCreateDirectory \<Rightarrow> ''CREATE_DIRECTORY'' | Some OpMove \<Rightarrow> ''MOVE''
      | Some OpCopy \<Rightarrow> ''COPY'' | Some OpHardLink \<Rightarrow> ''HARD_LINK'' | Some OpSoftLink \<Rightarrow> ''SOFT_LINK''
      | Some OpDelete \<Rightarrow> ''DELETE'')"

text \<open>A copy to another storage: the source is opened, then written to the target.\<close>

definition stream_to :: "world \<Rightarrow> storage \<Rightarrow> string \<Rightarrow> storage \<Rightarrow> string \<Rightarrow> bool \<Rightarrow> unit act" where
  "stream_to w src s dst t overwrite =
     bind_act (open_at w src s) (\<lambda>_. change_at w dst (Write t (st_key src, s) overwrite))"

text \<open>The second half of a cross-storage move; what goes wrong here leaves a complete copy.\<close>

definition after_copy :: "unit act \<Rightarrow> unit act" where
  "after_copy m = catch_act m (\<lambda>e.
     case e of Refused b _ \<Rightarrow> raise_act (Refused b [''COPY''])
     | _ \<Rightarrow> if ordinary e then raise_act (PartialFault (fault_text e) [''COPY'']) else raise_act e)"

definition delete_moved :: "world \<Rightarrow> string \<Rightarrow> storage \<Rightarrow> storage \<Rightarrow> string \<Rightarrow> string \<Rightarrow> unit act" where
  "delete_moved w prefix src dst s t =
     bind_act (exists_at w dst t) (\<lambda>found.
     if \<not> found then runtime_error ''cross-storage move copy verification failed''
     else bind_act (stat_at w dst t) (\<lambda>copied.
       bind_act (stat_at w src s) (\<lambda>original.
       if se_size copied \<noteq> se_size original
       then runtime_error ''cross-storage move copy verification failed: size mismatch''
       else bind_act (check_authority w (prefix @ '':CROSS_STORAGE_DELETE_SOURCE'')) (\<lambda>_.
         change_at w src (Remove s)))))"

definition mutate ::
  "world \<Rightarrow> plan \<Rightarrow> storage \<Rightarrow> storage \<Rightarrow> string \<Rightarrow> string \<Rightarrow> string \<Rightarrow> unit act" where
  "mutate w p src dst s t marker =
     (let prefix = (if starts_with ''ATTACHMENT:'' marker then ''ATTACHMENT'' else ''PRIMARY'');
          same = same_storage src dst in
      case pl_operation p of
        DoMove \<Rightarrow>
          if same
          then bind_act (check_authority w (prefix @ '':MOVE'')) (\<lambda>_. change_at w src (MoveTo s t (pl_overwrite p)))
          else bind_act (check_authority w (prefix @ '':CROSS_STORAGE_WRITE'')) (\<lambda>_.
            bind_act (stream_to w src s dst t (pl_overwrite p)) (\<lambda>_.
            after_copy (delete_moved w prefix src dst s t)))
      | DoCopy \<Rightarrow>
          if same
          then bind_act (check_authority w (prefix @ '':COPY'')) (\<lambda>_. change_at w src (CopyTo s t (pl_overwrite p)))
          else bind_act (check_authority w (prefix @ '':CROSS_STORAGE_WRITE'')) (\<lambda>_.
            stream_to w src s dst t (pl_overwrite p))
      | DoLink \<Rightarrow>
          if \<not> same then runtime_error ''cross-storage LINK is not supported''
          else bind_act (check_authority w (prefix @ '':'' @ link_boundary p)) (\<lambda>_.
            if pl_link p = Some OpSoftLink then change_at w src (SoftLinkTo s t)
            else change_at w src (HardLinkTo s t))
      | x \<Rightarrow> runtime_error (''operation '' @ operation_text x @ '' is not executable''))"

text \<open>What can be told of a change that was made, or may have been; a failing storage tells nothing.\<close>

definition capture_effect ::
  "world \<Rightarrow> plan \<Rightarrow> storage \<Rightarrow> storage \<Rightarrow> string \<Rightarrow> string \<Rightarrow> string \<Rightarrow> owned_effect option act" where
  "capture_effect w p src dst s t marker =
     catch_act
       (bind_act (exists_at w dst t) (\<lambda>found.
        if \<not> found then return_act None
        else bind_act (stat_at w dst t) (\<lambda>e.
          bind_act (exists_at w src s) (\<lambda>source_exists.
          return_act (Some \<lparr>ow_action = ''ROLLBACK:'' @ marker, ow_source_storage = src, ow_target_storage = dst,
            ow_source = Some s, ow_target = t, ow_size = se_size e, ow_modified = se_modified e,
            ow_type = se_type e, ow_restore = (pl_operation p = DoMove \<and> \<not> source_exists)\<rparr>)))))
       (\<lambda>e. if ordinary e then return_act None else raise_act e)"

definition mutate_and_record ::
  "world \<Rightarrow> plan \<Rightarrow> storage \<Rightarrow> storage \<Rightarrow> string \<Rightarrow> string \<Rightarrow> string \<Rightarrow> unit act" where
  "mutate_and_record w p src dst s t marker =
     (if \<not> rb_enabled (pl_rollback p) then mutate w p src dst s t marker
      else bind_act
        (catch_act (mutate w p src dst s t marker) (\<lambda>e.
           if ordinary e
           then bind_act (capture_effect w p src dst s t marker) (\<lambda>found.
             bind_act (case found of None \<Rightarrow> return_act () | Some x \<Rightarrow> add_effect x) (\<lambda>_. raise_act e))
           else raise_act e))
        (\<lambda>_. bind_act (capture_effect w p src dst s t marker) (\<lambda>found.
          case found of
            None \<Rightarrow> runtime_error (''cannot record owned execution target: '' @ t)
          | Some x \<Rightarrow> add_effect x)))"

section \<open>Undoing\<close>

definition verify_owned_target :: "world \<Rightarrow> owned_effect \<Rightarrow> unit act" where
  "verify_owned_target w o' =
     bind_act (exists_at w (ow_target_storage o') (ow_target o')) (\<lambda>found.
     if \<not> found then runtime_error ''owned rollback target is missing''
     else bind_act (stat_at w (ow_target_storage o') (ow_target o')) (\<lambda>e.
       if se_size e \<noteq> ow_size o' \<or> se_modified e \<noteq> ow_modified o' \<or> se_type e \<noteq> ow_type o'
       then runtime_error ''owned rollback target changed after execution''
       else return_act ()))"

definition restore_across :: "world \<Rightarrow> owned_effect \<Rightarrow> string \<Rightarrow> unit act" where
  "restore_across w o' s =
     (let src = ow_source_storage o'; dst = ow_target_storage o'; t = ow_target o' in
      bind_act (check_authority w ''ROLLBACK:CROSS_STORAGE_WRITE'') (\<lambda>_.
      bind_act (stream_to w dst t src s False) (\<lambda>_.
      bind_act (exists_at w src s) (\<lambda>found.
      if \<not> found then runtime_error ''cross-storage rollback source restore failed''
      else bind_act (stat_at w src s) (\<lambda>e.
        if se_size e \<noteq> ow_size o' then runtime_error ''cross-storage rollback source size mismatch''
        else catch_act
          (bind_act (check_authority w ''ROLLBACK:CROSS_STORAGE_DELETE_TARGET'') (\<lambda>_.
             change_at w dst (Remove t)))
          (\<lambda>e. case e of Refused b _ \<Rightarrow> raise_act (Refused b [''RESTORE_WRITE'']) | _ \<Rightarrow> raise_act e))))))"

definition restore_move :: "world \<Rightarrow> owned_effect \<Rightarrow> unit act" where
  "restore_move w o' =
     (case ow_source o' of
        None \<Rightarrow> raise_act (External (OtherFault []))
      | Some s \<Rightarrow>
          let src = ow_source_storage o'; dst = ow_target_storage o'; t = ow_target o' in
          bind_act (exists_at w src s) (\<lambda>back.
          if back then runtime_error ''move source reappeared; rollback refused''
          else bind_act
            (if same_storage src dst
             then bind_act (check_authority w ''ROLLBACK:MOVE'') (\<lambda>_. change_at w dst (MoveTo t s False))
             else restore_across w o' s) (\<lambda>_.
          bind_act (exists_at w src s) (\<lambda>found.
          if \<not> found then runtime_error ''move rollback source verification failed''
          else bind_act (exists_at w dst t) (\<lambda>left.
            if left then runtime_error ''move rollback target cleanup failed'' else return_act ())))))"

definition remove_directory :: "world \<Rightarrow> owned_effect \<Rightarrow> unit act" where
  "remove_directory w o' =
     bind_act (exists_at w (ow_target_storage o') (ow_target o')) (\<lambda>found.
     if \<not> found then return_act ()
     else bind_act (stat_at w (ow_target_storage o') (ow_target o')) (\<lambda>e.
       if se_type e \<noteq> ow_type o' then runtime_error ''owned rollback directory type changed''
       else bind_act (list_at w (ow_target_storage o') (ow_target o')) (\<lambda>es.
         if es \<noteq> [] then runtime_error ''owned rollback directory is not empty''
         else bind_act (check_authority w ''ROLLBACK:DELETE_DIRECTORY'') (\<lambda>_.
           change_at w (ow_target_storage o') (Remove (ow_target o'))))))"

definition undo_effect :: "world \<Rightarrow> owned_effect \<Rightarrow> unit act" where
  "undo_effect w o' =
     (if ow_action o' = ''DELETE_DIRECTORY'' then remove_directory w o'
      else bind_act (verify_owned_target w o') (\<lambda>_.
        if ow_restore o' then restore_move w o'
        else bind_act (check_authority w ''ROLLBACK:DELETE_TARGET'') (\<lambda>_.
          change_at w (ow_target_storage o') (Remove (ow_target o')))))"

definition rollback_step_of :: "owned_effect \<Rightarrow> string \<Rightarrow> bool \<Rightarrow> string option \<Rightarrow> rollback_step" where
  "rollback_step_of o' action ok error =
     \<lparr>ro_action = action, ro_storage = st_id (ow_target_storage o'), ro_source = ow_source o',
      ro_target = ow_target o', ro_success = ok, ro_error = error\<rparr>"

definition bounded_error :: "fault \<Rightarrow> string" where
  "bounded_error e =
     (case e of
        External (StorageFault kind _) \<Rightarrow> ''storage_error:'' @ kind
      | External (OsFault _) \<Rightarrow> ''os_error''
      | _ \<Rightarrow> ''rollback_safety_error'')"

definition authority_error :: "string \<Rightarrow> string" where
  "authority_error boundary = ''unattended authority refused before '' @ boundary"

text \<open>The steps of one effect, and whether a refusal ends the rollback.\<close>

definition undo_steps :: "world \<Rightarrow> owned_effect \<Rightarrow> (rollback_step list \<times> bool) act" where
  "undo_steps w o' =
     catch_act (bind_act (undo_effect w o') (\<lambda>_.
         return_act ([rollback_step_of o' (ow_action o') True None], False)))
       (\<lambda>e. case e of
          Refused b verified \<Rightarrow>
            return_act (map (\<lambda>v. rollback_step_of o' (ow_action o' @ '':'' @ v) True None) verified @
              [rollback_step_of o' (ow_action o') False (Some (authority_error b))], True)
        | _ \<Rightarrow>
            if ordinary e
            then return_act ([rollback_step_of o' (ow_action o') False (Some (bounded_error e))], False)
            else raise_act e)"

fun undo_all :: "world \<Rightarrow> owned_effect list \<Rightarrow> rollback_step list act" where
  "undo_all w [] = return_act []"
| "undo_all w (o' # os) =
     bind_act (undo_steps w o') (\<lambda>(steps, stop).
     if stop then return_act steps
     else bind_act (undo_all w os) (\<lambda>rest. return_act (steps @ rest)))"

text \<open>\<open>_rollback\<close>: the latest effect first, directories only when the policy says so.\<close>

definition rollback :: "world \<Rightarrow> bool \<Rightarrow> owned_effect list \<Rightarrow> rollback_step list act" where
  "rollback w directories effects =
     undo_all w (filter (\<lambda>o'. ow_action o' = ''DELETE_DIRECTORY'' \<longrightarrow> directories) (rev effects))"

section \<open>Failed executions\<close>

definition failure_result ::
  "world \<Rightarrow> plan \<Rightarrow> string \<Rightarrow> string \<Rightarrow> string \<Rightarrow> execution_result act" where
  "failure_result w p plan_id display error =
     bind_act get_run (\<lambda>r.
     let uncertain = (if ru_attempted r then AttemptedUnverified else NoEffect);
         doubts = (if ru_attempted r then [''mutation_outcome''] else []);
         base = (plain_result p plan_id display ExecFailed)
           \<lparr>er_created := ru_created r, er_completed := ru_completed r, er_errors := [error]\<rparr> in
     if \<not> rb_enabled (pl_rollback p)
     then return_act (base\<lparr>er_status := (if ru_completed r \<noteq> [] then ExecPartial else ExecFailed),
            er_rollback := RollbackDisabled, er_certainty := uncertain, er_uncertain := doubts\<rparr>)
     else if ru_effects r = []
     then return_act (base\<lparr>er_certainty := uncertain, er_uncertain := doubts\<rparr>)
     else bind_act (rollback w (rb_directories (pl_rollback p)) (ru_effects r)) (\<lambda>steps.
       let ok = list_all ro_success steps in
       return_act (base
         \<lparr>er_status := (if ok then ExecFailed else ExecPartial),
          er_completed := ru_completed r @ map ro_action steps,
          er_warnings := (if ok then [''execution effects were rolled back''] else []),
          er_errors := error # map (\<lambda>s. ''rollback '' @ ro_action s @ '' failed: '' @
             (case ro_error s of None \<Rightarrow> ''None'' | Some t \<Rightarrow> t)) (filter (\<lambda>s. \<not> ro_success s) steps),
          er_rollback := (if ok then RollbackSuccess else RollbackPartial), er_rollback_steps := steps,
          er_certainty := (if ok then NoEffect else AttemptedUnverified),
          er_uncertain := (if ok then [] else [''mutation_outcome''])\<rparr>)))"

definition authority_failure_result ::
  "plan \<Rightarrow> string \<Rightarrow> string \<Rightarrow> string \<Rightarrow> string list \<Rightarrow> execution_result act" where
  "authority_failure_result p plan_id display boundary verified =
     bind_act get_run (\<lambda>r.
     let completed = ru_completed r @ verified; enabled = rb_enabled (pl_rollback p);
         base = (plain_result p plan_id display ExecFailed)
           \<lparr>er_created := ru_created r, er_completed := completed, er_errors := [authority_error boundary]\<rparr> in
     if completed = [] \<and> ru_effects r = []
     then return_act (base\<lparr>er_rollback := (if enabled then RollbackNotNeeded else RollbackDisabled)\<rparr>)
     else return_act (base\<lparr>er_status := ExecPartial,
            er_rollback := (if enabled then RollbackRefused else RollbackDisabled),
            er_certainty := VerifiedComplete\<rparr>))"

section \<open>The primary file\<close>

text \<open>\<open>_missing_directories\<close>: the absent ancestors, the outermost first.\<close>

definition ancestors :: "string \<Rightarrow> string list" where
  "ancestors parent =
     (let parts = split_on slash parent in map (\<lambda>n. join_with [slash] (take n parts)) [1..<Suc (length parts)])"

definition missing_directories :: "world \<Rightarrow> storage \<Rightarrow> string \<Rightarrow> string list act" where
  "missing_directories w s parent =
     bind_act (map_act (\<lambda>d. bind_act (exists_at w s d) (\<lambda>b. return_act (b, d))) (ancestors parent)) (\<lambda>ds.
     return_act (map snd (filter (\<lambda>(b, d). \<not> b) ds)))"

definition own_directory :: "world \<Rightarrow> storage \<Rightarrow> string \<Rightarrow> unit act" where
  "own_directory w dst d =
     bind_act (stat_at w dst d) (\<lambda>e.
     add_effect \<lparr>ow_action = ''DELETE_DIRECTORY'', ow_source_storage = dst, ow_target_storage = dst,
       ow_source = None, ow_target = d, ow_size = se_size e, ow_modified = se_modified e,
       ow_type = se_type e, ow_restore = False\<rparr>)"

definition create_parent :: "world \<Rightarrow> plan \<Rightarrow> storage \<Rightarrow> string \<Rightarrow> unit act" where
  "create_parent w p dst parent =
     (let enabled = rb_enabled (pl_rollback p) in
      bind_act (if enabled then missing_directories w dst parent else return_act [parent]) (\<lambda>missing.
      bind_act (check_authority w ''CREATE_DIRECTORY'') (\<lambda>_.
      bind_act set_attempted (\<lambda>_.
      bind_act (change_at w dst (MakeDirectory parent)) (\<lambda>_.
      bind_act (add_created missing) (\<lambda>_.
      bind_act (add_completed [''CREATE_DIRECTORY'']) (\<lambda>_.
      if enabled then each_act (own_directory w dst) missing else return_act ())))))))"

definition ensure_parent :: "world \<Rightarrow> plan \<Rightarrow> storage \<Rightarrow> string \<Rightarrow> unit act" where
  "ensure_parent w p dst parent =
     (if parent = [] then return_act ()
      else bind_act (exists_at w dst parent) (\<lambda>found.
        if found then return_act () else create_parent w p dst parent))"

definition expected_link :: "plan \<Rightarrow> entry_type" where
  "expected_link p = (if pl_link p = Some OpSoftLink then SymlinkEntry else FileEntry)"

definition verify_primary ::
  "world \<Rightarrow> plan \<Rightarrow> storage \<Rightarrow> storage \<Rightarrow> string \<Rightarrow> string \<Rightarrow> int \<Rightarrow> unit act" where
  "verify_primary w p src dst s t original =
     bind_act (exists_at w dst t) (\<lambda>found.
     if \<not> found then runtime_error ''destination verification failed''
     else bind_act (stat_at w dst t) (\<lambda>e.
       if pl_operation p \<noteq> DoLink \<and> se_size e \<noteq> original
       then runtime_error ''destination verification failed: size mismatch''
       else if pl_operation p = DoLink \<and> se_type e \<noteq> expected_link p
       then runtime_error ''destination verification failed: link type mismatch''
       else if pl_operation p = DoMove
       then bind_act (exists_at w src s) (\<lambda>left.
         if left then runtime_error ''move verification failed: source still exists'' else return_act ())
       else return_act ()))"

text \<open>The body of the \<open>try\<close>: \<open>Some\<close> is an early failure with that error, \<open>None\<close> a verified primary.\<close>

definition primary ::
  "world \<Rightarrow> plan \<Rightarrow> storage \<Rightarrow> storage \<Rightarrow> string \<Rightarrow> string \<Rightarrow> string option act" where
  "primary w p src dst s t =
     bind_act (exists_at w src s) (\<lambda>found.
     if \<not> found then return_act (Some ''source does not exist'')
     else bind_act (stat_at w src s) (\<lambda>e.
       bind_act (exists_at w dst t) (\<lambda>taken.
       if taken \<and> \<not> pl_overwrite p then return_act (Some ''destination already exists'')
       else bind_act (ensure_parent w p dst (path_dirname t)) (\<lambda>_.
         bind_act set_attempted (\<lambda>_.
         bind_act (mutate_and_record w p src dst s t (operation_text (pl_operation p))) (\<lambda>_.
         bind_act (add_completed [operation_text (pl_operation p)]) (\<lambda>_.
         bind_act (verify_primary w p src dst s t (se_size e)) (\<lambda>_. return_act None))))))))"

section \<open>Attachments\<close>

definition attachment_text :: "attachment_type \<Rightarrow> string" where
  "attachment_text a =
     (case a of Subtitle \<Rightarrow> ''subtitle'' | Nfo \<Rightarrow> ''nfo'' | Poster \<Rightarrow> ''poster'' | Fanart \<Rightarrow> ''fanart''
      | Trailer \<Rightarrow> ''trailer'' | ImageFile \<Rightarrow> ''image'' | OtherFile \<Rightarrow> ''other'')"

definition attachment_marker :: "attachment_plan \<Rightarrow> string" where
  "attachment_marker a = ''ATTACHMENT:'' @ attachment_text (at_type a) @ '':'' @ lo_path (at_source a)"

definition find_storage :: "(string \<rightharpoonup> storage) \<Rightarrow> string \<Rightarrow> storage act" where
  "find_storage storages k = (case storages k of None \<Rightarrow> raise_act (External (LookupFault [])) | Some s \<Rightarrow> return_act s)"

text \<open>Up to the change: the reason it is not made, or the storages and the size of the source.\<close>

definition attachment_ready ::
  "world \<Rightarrow> (string \<rightharpoonup> storage) \<Rightarrow> attachment_plan \<Rightarrow> (string + storage \<times> storage \<times> int) act" where
  "attachment_ready w storages a =
     bind_act (find_storage storages (lo_storage (at_source a))) (\<lambda>src.
     bind_act (find_storage storages (lo_storage (at_destination a))) (\<lambda>dst.
     bind_act (exists_at w src (lo_path (at_source a))) (\<lambda>found.
     if \<not> found then return_act (Inl ''source_missing'')
     else bind_act (exists_at w dst (lo_path (at_destination a))) (\<lambda>taken.
       if taken then return_act (Inl ''attachment_collision'')
       else bind_act (stat_at w src (lo_path (at_source a))) (\<lambda>e.
         return_act (Inr (src, dst, se_size e)))))))"

definition verify_attachment ::
  "world \<Rightarrow> plan \<Rightarrow> storage \<Rightarrow> storage \<Rightarrow> string \<Rightarrow> string \<Rightarrow> int \<Rightarrow> unit act" where
  "verify_attachment w p src dst s t original =
     bind_act (stat_at w dst t) (\<lambda>e.
     if pl_operation p = DoLink \<and> se_type e \<noteq> expected_link p
     then runtime_error ''attachment link verification failed''
     else if pl_operation p \<noteq> DoLink \<and> se_size e \<noteq> original
     then runtime_error ''attachment size verification failed''
     else if pl_operation p = DoMove
     then bind_act (exists_at w src s) (\<lambda>left.
       if left then runtime_error ''attachment source removal not verified'' else return_act ())
     else return_act ())"

text \<open>What one attachment came to; the last component stops the ones after it.\<close>

type_synonym attachment_outcome = "attachment_status \<times> string option \<times> certainty \<times> string list \<times> bool"

definition refused_attachment :: "string \<Rightarrow> string list \<Rightarrow> attachment_outcome act" where
  "refused_attachment marker verified =
     (let steps = map (\<lambda>v. marker @ '':'' @ v) verified in
      bind_act (add_completed steps) (\<lambda>_. return_act
        (if steps \<noteq> [] then AttachmentFailed else AttachmentNotExecuted, Some ''authority_refused'',
         if steps \<noteq> [] then VerifiedComplete else NoEffect, steps, True)))"

text \<open>A fault once the change was attempted; the steps kept are those of a partial fault, or \<open>done\<close>.\<close>

definition attachment_fault :: "string \<Rightarrow> string list \<Rightarrow> fault \<Rightarrow> attachment_outcome act" where
  "attachment_fault marker done e =
     (case e of
        Refused b verified \<Rightarrow> refused_attachment marker verified
      | PartialFault _ completed \<Rightarrow>
          let steps = map (\<lambda>v. marker @ '':'' @ v) completed in
          bind_act (add_completed steps) (\<lambda>_. return_act
            (AttachmentFailed, Some ''verification_failed'', AttemptedUnverified, steps, True))
      | _ \<Rightarrow>
          if ordinary e \<or> key_error e
          then return_act (AttachmentFailed, Some ''verification_failed'', AttemptedUnverified, done, True)
          else raise_act e)"

definition change_attachment ::
  "world \<Rightarrow> plan \<Rightarrow> attachment_plan \<Rightarrow> storage \<Rightarrow> storage \<Rightarrow> int \<Rightarrow> attachment_outcome act" where
  "change_attachment w p a src dst original =
     (let marker = attachment_marker a; s = lo_path (at_source a); t = lo_path (at_destination a) in
      bind_act
        (catch_act
          (bind_act (own_effects (mutate_and_record w (p\<lparr>pl_overwrite := False\<rparr>) src dst s t marker)) (\<lambda>_.
           return_act None))
          (\<lambda>e. bind_act (attachment_fault marker [] e) (\<lambda>o'. return_act (Some o')))) (\<lambda>early.
      case early of
        Some o' \<Rightarrow> return_act o'
      | None \<Rightarrow>
          bind_act (add_completed [marker]) (\<lambda>_.
          catch_act
            (bind_act (verify_attachment w p src dst s t original) (\<lambda>_.
             return_act (AttachmentSuccess, None, VerifiedComplete, [marker], False)))
            (attachment_fault marker [marker]))))"

definition execute_attachment ::
  "world \<Rightarrow> plan \<Rightarrow> (string \<rightharpoonup> storage) \<Rightarrow> bool \<Rightarrow> (string \<times> string) list \<Rightarrow> attachment_plan \<Rightarrow>
   attachment_outcome act" where
  "execute_attachment w p storages stopped taken a =
     (if stopped then return_act (AttachmentNotExecuted, Some ''execution_stopped'', NoEffect, [], True)
      else if (lo_storage (at_destination a), casefold (lo_path (at_destination a))) \<in> set taken
      then return_act (AttachmentNotExecuted, Some ''attachment_collision'', NoEffect, [], False)
      else if at_blocked a \<noteq> None
      then return_act (AttachmentNotExecuted, at_blocked a, NoEffect, [], False)
      else bind_act
        (catch_act (attachment_ready w storages a)
          (\<lambda>e. if ordinary e \<or> key_error e then return_act (Inl ''storage_unavailable'') else raise_act e))
        (\<lambda>ready. case ready of
           Inl reason \<Rightarrow> return_act (AttachmentNotExecuted, Some reason, NoEffect, [], False)
         | Inr (src, dst, original) \<Rightarrow> change_attachment w p a src dst original))"

fun execute_attachments ::
  "world \<Rightarrow> plan \<Rightarrow> (string \<rightharpoonup> storage) \<Rightarrow> bool \<Rightarrow> (string \<times> string) list \<Rightarrow> attachment_plan list \<Rightarrow>
   attachment_result list act" where
  "execute_attachments w p storages stopped taken [] = return_act []"
| "execute_attachments w p storages stopped taken (a # as) =
     bind_act (execute_attachment w p storages stopped taken a) (\<lambda>(status, reason, certainty, steps, stop).
     bind_act (execute_attachments w p storages stop
       ((lo_storage (at_destination a), casefold (lo_path (at_destination a))) # taken) as) (\<lambda>rest.
     return_act (attachment_result_document p a status reason certainty steps # rest)))"

section \<open>Cleaning up after a move\<close>

definition cleanup_entry_matches :: "string \<Rightarrow> entry \<Rightarrow> cleanup_policy \<Rightarrow> bool" where
  "cleanup_entry_matches candidate e policy =
     (se_type e = FileEntry \<and> se_path e = path_join candidate [se_name e] \<and>
      path_basename (se_name e) = se_name e \<and> \<not> unsafe_part (se_name e) \<and>
      list_ex (fnmatch (se_name e)) (cl_patterns policy))"

definition cleanup_failure_status :: "cleanup_step list \<Rightarrow> cleanup_status" where
  "cleanup_failure_status steps =
     (if list_ex (\<lambda>s. cs_success s \<and> cs_action s \<in> {''DELETE_IGNORED_FILE'', ''DELETE_EMPTY_DIRECTORY''}) steps
      then CleanupPartial else CleanupFailed)"

definition not_found :: "fault \<Rightarrow> bool" where
  "not_found e = (case e of External (StorageFault kind _) \<Rightarrow> kind = ''not_found'' | _ \<Rightarrow> False)"

text \<open>A provider that lists existing prefixes only reports an emptied one as absent.\<close>

definition or_absent :: "'a \<Rightarrow> 'a act \<Rightarrow> 'a act" where
  "or_absent x m = catch_act m (\<lambda>e. if not_found e then return_act x else raise_act e)"

definition stop_directory :: "string \<Rightarrow> string \<Rightarrow> unit act" where
  "stop_directory d reason = add_cleanup ''STOP_DIRECTORY'' d False (Some reason)"

definition stop_with_failure :: "string option \<Rightarrow> (cleanup_status \<times> string option) option act" where
  "stop_with_failure error =
     bind_act get_run (\<lambda>r. return_act (Some (cleanup_failure_status (ru_cleanup r), error)))"

text \<open>Each admitted entry is looked at again; \<open>True\<close> if one is no file any more.\<close>

fun some_type_changed :: "world \<Rightarrow> storage \<Rightarrow> entry list \<Rightarrow> bool act" where
  "some_type_changed w s [] = return_act False"
| "some_type_changed w s (e # es) =
     bind_act (stat_at w s (se_path e)) (\<lambda>x.
     if se_type x \<noteq> FileEntry then return_act True else some_type_changed w s es)"

definition delete_ignored :: "world \<Rightarrow> storage \<Rightarrow> string \<Rightarrow> entry \<Rightarrow> unit act" where
  "delete_ignored w s d e =
     bind_act (check_authority w ''CLEANUP_DELETE_IGNORED_FILE'') (\<lambda>_.
     bind_act (change_at w s (Remove (path_join d [se_name e]))) (\<lambda>_.
     add_cleanup ''DELETE_IGNORED_FILE'' (se_path e) True None))"

text \<open>The entries of a directory; \<open>Some\<close> ends the cleanup.\<close>

definition clean_entries ::
  "world \<Rightarrow> plan \<Rightarrow> storage \<Rightarrow> string \<Rightarrow> entry list \<Rightarrow> (cleanup_status \<times> string option) option act" where
  "clean_entries w p s d es =
     (let policy = pl_cleanup p in
      if cl_entries policy < int (length es)
      then bind_act (stop_directory d ''entry limit exceeded'') (\<lambda>_. return_act (Some (CleanupStopped, None)))
      else if es = [] then return_act None
      else if cl_mode policy = CleanupEmpty
      then bind_act (stop_directory d ''directory is not empty'') (\<lambda>_. return_act (Some (CleanupStopped, None)))
      else if \<not> list_all (\<lambda>e. cleanup_entry_matches d e policy) es
      then bind_act (stop_directory d ''unknown entry present'') (\<lambda>_. return_act (Some (CleanupStopped, None)))
      else bind_act (some_type_changed w s es) (\<lambda>changed.
        if changed
        then bind_act (stop_directory d ''matched entry type changed'') (\<lambda>_. stop_with_failure None)
        else bind_act (each_act (delete_ignored w s d) es) (\<lambda>_. return_act None)))"

definition clean_directory ::
  "world \<Rightarrow> plan \<Rightarrow> storage \<Rightarrow> string \<Rightarrow> (cleanup_status \<times> string option) option act" where
  "clean_directory w p s d =
     bind_act (list_at w s d) (\<lambda>es.
     bind_act (clean_entries w p s d es) (\<lambda>stop.
     case stop of
       Some x \<Rightarrow> return_act (Some x)
     | None \<Rightarrow>
         bind_act (or_absent [] (list_at w s d)) (\<lambda>leftover.
         if leftover \<noteq> []
         then bind_act (stop_directory d ''directory changed before cleanup'') (\<lambda>_. stop_with_failure None)
         else bind_act (check_authority w ''CLEANUP_DELETE_DIRECTORY'') (\<lambda>_.
           bind_act (or_absent False (exists_at w s d)) (\<lambda>present.
           if \<not> present
           then bind_act (add_cleanup ''DIRECTORY_ALREADY_ABSENT'' d True (Some ''prefix is already absent''))
                  (\<lambda>_. return_act None)
           else bind_act (change_at w s (Remove d)) (\<lambda>_.
             bind_act (add_cleanup ''DELETE_EMPTY_DIRECTORY'' d True None) (\<lambda>_. return_act None)))))))"

text \<open>At most \<open>max_parent_directories\<close> of them, from the source's own upwards, never the root.\<close>

fun clean_directories ::
  "world \<Rightarrow> plan \<Rightarrow> storage \<Rightarrow> string \<Rightarrow> nat \<Rightarrow> string \<Rightarrow> (cleanup_status \<times> string option) option act" where
  "clean_directories w p s library 0 d = return_act None"
| "clean_directories w p s library (Suc n) d =
     (if d = [] \<or> d = library then return_act None
      else if library \<noteq> [] \<and> \<not> starts_with (library @ [slash]) d
      then stop_with_failure (Some ''source cleanup crossed root'')
      else bind_act (clean_directory w p s d) (\<lambda>stop.
        case stop of Some x \<Rightarrow> return_act (Some x) | None \<Rightarrow> clean_directories w p s library n (path_dirname d)))"

definition cleanup_source_directories ::
  "world \<Rightarrow> plan \<Rightarrow> storage \<Rightarrow> string \<Rightarrow> (cleanup_status \<times> string option) act" where
  "cleanup_source_directories w p s storage_source =
     (let policy = pl_cleanup p; source = normpath storage_source;
          library = (if pl_source_root p = [] then [] else normpath (pl_source_root p)); d = path_dirname source in
      if cl_mode policy = CleanupNone then return_act (CleanupDisabled, None)
      else if pl_operation p \<noteq> DoMove then return_act (CleanupNotApplicable, None)
      else if starts_with ''/'' source \<or> unsafe_part source \<or> list_ex unsafe_part (split_on slash source) \<or>
              (library \<noteq> [] \<and> source \<noteq> library \<and> \<not> starts_with (library @ [slash]) source)
      then return_act (CleanupFailed, Some ''source cleanup boundary is invalid'')
      else if d = [] \<or> d = library then return_act (CleanupNotApplicable, None)
      else catch_act
        (bind_act (clean_directories w p s library (nat (cl_parents policy)) d) (\<lambda>stop.
         bind_act get_run (\<lambda>r.
         return_act (case stop of
             Some x \<Rightarrow> x
           | None \<Rightarrow> (if ru_cleanup r \<noteq> [] then CleanupSuccess else CleanupNotApplicable, None)))))
        (\<lambda>e. case e of
           Refused b _ \<Rightarrow> return_act (CleanupRefused, Some (authority_error b))
         | _ \<Rightarrow>
             if ordinary e
             then bind_act get_run (\<lambda>r.
               return_act (if ru_cleanup r \<noteq> [] then CleanupPartial else CleanupFailed, Some (bounded_error e)))
             else raise_act e))"

section \<open>One execution\<close>

definition truthy_path :: "string option \<Rightarrow> string \<Rightarrow> string" where
  "truthy_path v fallback = (case v of None \<Rightarrow> fallback | Some s \<Rightarrow> if s = [] then fallback else s)"

definition attachments_result :: "plan \<Rightarrow> execution_result \<Rightarrow> attachment_result list \<Rightarrow> execution_result" where
  "attachments_result p base ats =
     (let uncertain = list_ex (\<lambda>a. ar_certainty a \<in> {UnknownEffect, AttemptedUnverified}) ats in
      base\<lparr>er_status := ExecPartial,
        er_warnings := [''primary verified complete; inspect independent attachment results''],
        er_errors := (if list_ex (\<lambda>a. ar_reason a = Some ''authority_refused'') ats
          then [''unattended authority refused before attachment mutation''] else []),
        er_rollback := (if rb_enabled (pl_rollback p) then RollbackNotNeeded else RollbackDisabled),
        er_certainty := (if uncertain then AttemptedUnverified else VerifiedComplete),
        er_uncertain := (if uncertain then [''attachment_mutation_outcome''] else [])\<rparr>)"

definition cleanup_result :: "execution_result \<Rightarrow> cleanup_status \<Rightarrow> string option \<Rightarrow> execution_result" where
  "cleanup_result base status error =
     (let or_text = (\<lambda>t. [truthy_path error t]);
          base = base\<lparr>er_cleanup := status, er_certainty := VerifiedComplete\<rparr> in
      case status of
        CleanupRefused \<Rightarrow> base\<lparr>er_status := ExecPartial,
          er_errors := or_text ''unattended authority refused before source cleanup''\<rparr>
      | CleanupFailed \<Rightarrow> base\<lparr>er_status := ExecPartial, er_errors := or_text ''source directory cleanup failed'',
          er_certainty := AttemptedUnverified, er_uncertain := [''mutation_outcome'']\<rparr>
      | CleanupPartial \<Rightarrow> base\<lparr>er_status := ExecPartial,
          er_errors := or_text ''source directory cleanup stopped partially''\<rparr>
      | _ \<Rightarrow> base\<lparr>er_status := ExecSuccess,
          er_warnings := (if status = CleanupStopped then [''source directory cleanup stopped safely''] else [])\<rparr>)"

text \<open>After a verified primary: the attachments, then the cleanup; neither undoes the primary.\<close>

definition after_primary ::
  "world \<Rightarrow> plan \<Rightarrow> (string \<rightharpoonup> storage) \<Rightarrow> storage \<Rightarrow> string \<Rightarrow> string \<Rightarrow> string \<Rightarrow> execution_result act" where
  "after_primary w p storages src s plan_id display =
     bind_act (execute_attachments w p storages False [(pl_target_storage p, casefold (pl_target p))]
       (pl_attachments p)) (\<lambda>ats.
     if list_ex (\<lambda>a. ar_status a \<noteq> AttachmentSuccess) ats
     then bind_act get_run (\<lambda>r. return_act (attachments_result p
       ((plain_result p plan_id display ExecPartial)\<lparr>er_created := ru_created r, er_completed := ru_completed r,
          er_primary := True, er_attachments := ats\<rparr>) ats))
     else bind_act (cleanup_source_directories w p src s) (\<lambda>(status, error).
       bind_act get_run (\<lambda>r. return_act (cleanup_result
         ((plain_result p plan_id display ExecSuccess)\<lparr>er_created := ru_created r,
            er_completed := ru_completed r @ map cs_action (filter cs_success (ru_cleanup r)),
            er_primary := True, er_attachments := ats, er_cleanup_steps := ru_cleanup r\<rparr>) status error))))"

definition execute_checked ::
  "world \<Rightarrow> plan \<Rightarrow> (string \<rightharpoonup> storage) \<Rightarrow> storage \<Rightarrow> storage \<Rightarrow> string \<Rightarrow> string \<Rightarrow> string \<Rightarrow> string \<Rightarrow>
   execution_result act" where
  "execute_checked w p storages src dst s t plan_id display =
     bind_act
       (catch_act
         (bind_act (primary w p src dst s t) (\<lambda>early.
          return_act (map_option (\<lambda>e. (plain_result p plan_id display ExecFailed)\<lparr>er_errors := [e]\<rparr>) early)))
         (\<lambda>e. case e of
            Refused b verified \<Rightarrow>
              bind_act (authority_failure_result p plan_id display b verified) (\<lambda>x. return_act (Some x))
          | PartialFault text completed \<Rightarrow>
              bind_act (add_completed completed) (\<lambda>_.
              bind_act (failure_result w p plan_id display text) (\<lambda>x. return_act (Some x)))
          | _ \<Rightarrow>
              if ordinary e
              then bind_act (failure_result w p plan_id display (fault_text e)) (\<lambda>x. return_act (Some x))
              else raise_act e))
       (\<lambda>early. case early of
          Some x \<Rightarrow> return_act x
        | None \<Rightarrow> after_primary w p storages src s plan_id display)"

definition execution_source :: "plan \<Rightarrow> string option \<Rightarrow> string" where
  "execution_source p path =
     truthy_path path (truthy_path (map_option lo_path (pl_source_location p)) (pl_source p))"

definition execution_target :: "plan \<Rightarrow> string option \<Rightarrow> string" where
  "execution_target p path =
     truthy_path path (truthy_path (map_option lo_path (pl_destination_location p)) (pl_target p))"

definition execute ::
  "world \<Rightarrow> (string \<Rightarrow> string) \<Rightarrow> plan \<Rightarrow> (string \<rightharpoonup> storage) \<Rightarrow> bool \<Rightarrow> string option \<Rightarrow> string option \<Rightarrow>
   string option \<Rightarrow> execution_result act" where
  "execute w digest p storages run_it source_path destination_path resolved =
     (let display = truthy_path resolved (pl_target p);
          failed = (\<lambda>k e. (plain_result p k display ExecFailed)\<lparr>er_errors := [e]\<rparr>) in
      if (case resolved_execution_target p of None \<Rightarrow> False | Some t \<Rightarrow> t \<noteq> pl_target p)
      then return_act (failed (pl_id p) ''plan destination does not match MediaLibrary root and relative path'')
      else let plan_id = (if pl_id p \<noteq> [] then pl_id p
          else plan_digest digest (pl_source_storage p) (pl_source p) (pl_target_storage p) (pl_target p)) in
        (case plan_validation_error p of
           Some e \<Rightarrow>
             return_act (if pl_operation p \<in> {DoNoop, DoSkip}
               then (plain_result p plan_id display ExecSkipped)\<lparr>er_warnings := [e]\<rparr> else failed plan_id e)
         | None \<Rightarrow>
             if \<not> run_it
             then return_act ((plain_result p plan_id display ExecDryRun)
               \<lparr>er_warnings := [''dry-run: no Storage mutation was executed'']\<rparr>)
             else if rb_enabled (pl_rollback p) \<and> pl_overwrite p
             then return_act (failed plan_id ''rollback cannot be combined with overwrite authorization'')
             else (case storage_validation_error p storages of
                 Some e \<Rightarrow> return_act ((failed plan_id e)\<lparr>er_status :=
                   (if pl_operation p \<in> {DoNoop, DoSkip} then ExecSkipped else ExecFailed)\<rparr>)
               | None \<Rightarrow>
                   (case (storages (pl_source_storage p), storages (pl_target_storage p)) of
                      (Some src, Some dst) \<Rightarrow>
                        (case operation_capability_error p src dst of
                           Some e \<Rightarrow> return_act (failed plan_id e)
                         | None \<Rightarrow> execute_checked w p storages src dst
                             (execution_source p source_path) (execution_target p destination_path) plan_id display)
                    | _ \<Rightarrow> raise_act (External (LookupFault []))))))"

end
