(* ===== verification/Execution_Facts.thy ===== *)
theory Execution_Facts
  imports Action_Rules Organize_Execution
begin

text \<open>
  What the executor does to a history, function by function: each is steady for the footprint of its
  plan, and the effects it records as its own are those of the plan.
\<close>

section \<open>The change and its record\<close>

definition may_mutate :: "footprint \<Rightarrow> plan \<Rightarrow> storage \<Rightarrow> storage \<Rightarrow> string \<Rightarrow> string \<Rightarrow> bool" where
  "may_mutate A p src dst s t =
     (case pl_operation p of
        DoMove \<Rightarrow>
          if same_storage src dst then A (st_key src) (MoveTo s t (pl_overwrite p))
          else A (st_key dst) (Write t (st_key src, s) (pl_overwrite p)) \<and> A (st_key src) (Remove s)
      | DoCopy \<Rightarrow>
          if same_storage src dst then A (st_key src) (CopyTo s t (pl_overwrite p))
          else A (st_key dst) (Write t (st_key src, s) (pl_overwrite p))
      | DoLink \<Rightarrow>
          same_storage src dst \<longrightarrow>
            A (st_key src) (if pl_link p = Some OpSoftLink then SoftLinkTo s t else HardLinkTo s t)
      | _ \<Rightarrow> True)"

lemma fired_stream:
  assumes "b \<in> set (allowed_boundaries (Write t (st_key src, s) ow))" "A (st_key dst) (Write t (st_key src, s) ow)"
  shows "fired w A b P (stream_to w src s dst t ow)"
  unfolding stream_to_def
  by (rule fired_seq [OF armed_open fired_change [where c = "Write t (st_key src, s) ow"]]) (use assms in auto)

lemma steady_delete_moved [steady_intros]:
  assumes "prefix \<in> {''PRIMARY'', ''ATTACHMENT''}" "A (st_key src) (Remove s)"
  shows "steady w A P (delete_moved w prefix src dst s t)"
  unfolding delete_moved_def
  by (intro steady_intros fired_grant fired_change) (use assms in \<open>auto simp: allowed_boundaries_def\<close>)

lemma steady_after_copy [steady_intros]: "steady w A P m \<Longrightarrow> steady w A P (after_copy m)"
  unfolding after_copy_def
  by (rule steady_catch_through) (auto intro!: steady_intros split: fault.split)

lemma link_boundary_text: "link_boundary p \<in> set link_texts"
  by (auto simp: link_boundary_def link_texts_def split: option.split organize_operation.split)

lemma steady_mutate:
  assumes "may_mutate A p src dst s t"
  shows "steady w A P (mutate w p src dst s t marker)"
proof -
  define prefix where "prefix = (if starts_with ''ATTACHMENT:'' marker then ''ATTACHMENT'' else ''PRIMARY'')"
  have pre: "prefix = ''PRIMARY'' \<or> prefix = ''ATTACHMENT''" by (simp add: prefix_def)
  have link: "prefix @ '':'' @ link_boundary p \<in> set (allowed_boundaries (HardLinkTo s t))"
    "prefix @ '':'' @ link_boundary p \<in> set (allowed_boundaries (SoftLinkTo s t))"
    using pre link_boundary_text [of p] by (auto simp: allowed_boundaries_def)
  show ?thesis
    unfolding mutate_def prefix_def [symmetric] Let_def
    using assms pre link
    by (cases "pl_operation p")
      (auto simp: may_mutate_def allowed_boundaries_def
        intro!: steady_intros fired_grant fired_change fired_then fired_stream split: if_splits)
qed

lemma steady_capture [steady_intros]: "steady w A P (capture_effect w p src dst s t marker)"
  unfolding capture_effect_def
  by (rule steady_catch_through) (auto intro!: steady_intros simp: ordinary_def)

lemma steady_record [steady_intros]:
  assumes "may_mutate A p src dst s t"
  shows "steady w A P (mutate_and_record w p src dst s t marker)"
proof -
  note m = steady_mutate [OF assms]
  show ?thesis
    unfolding mutate_and_record_def
    by (rule steady_if [OF m], rule steady_seq [OF steady_catch_through [OF m]])
      (auto intro!: steady_intros simp: ordinary_def)
qed

section \<open>Undoing\<close>

definition may_undo :: "footprint \<Rightarrow> owned_effect \<Rightarrow> bool" where
  "may_undo A o' =
     (let src = ow_source_storage o'; dst = ow_target_storage o'; t = ow_target o' in
      if ow_action o' = ''DELETE_DIRECTORY'' \<or> \<not> ow_restore o' then A (st_key dst) (Remove t)
      else \<forall>s. ow_source o' = Some s \<longrightarrow>
        (if same_storage src dst then A (st_key dst) (MoveTo t s False)
         else A (st_key src) (Write s (st_key dst, t) False) \<and> A (st_key dst) (Remove t)))"

lemma steady_verify_owned [steady_intros]: "steady w A P (verify_owned_target w o')"
  unfolding verify_owned_target_def by (intro steady_intros)

lemma steady_restore_across:
  assumes "A (st_key (ow_source_storage o')) (Write s (st_key (ow_target_storage o'), ow_target o') False)"
    "A (st_key (ow_target_storage o')) (Remove (ow_target o'))"
  shows "steady w A P (restore_across w o' s)"
  unfolding restore_across_def Let_def
  by (rule fired_grant, rule fired_then, rule fired_stream)
    (use assms in \<open>auto simp: allowed_boundaries_def intro!: steady_intros fired_grant fired_change split: fault.split\<close>)

lemma steady_restore_move:
  assumes "may_undo A o'" "ow_action o' \<noteq> ''DELETE_DIRECTORY''" "ow_restore o'"
  shows "steady w A P (restore_move w o')"
proof (cases "ow_source o'")
  case None
  then show ?thesis unfolding restore_move_def by (auto intro!: steady_intros)
next
  case (Some s)
  have "steady w A always
     (if same_storage (ow_source_storage o') (ow_target_storage o')
      then bind_act (check_authority w ''ROLLBACK:MOVE'')
             (\<lambda>_. change_at w (ow_target_storage o') (MoveTo (ow_target o') s False))
      else restore_across w o' s)"
    using assms Some
    by (auto simp: may_undo_def Let_def allowed_boundaries_def intro!: steady_restore_across fired_grant fired_change)
  then show ?thesis
    unfolding restore_move_def Let_def Some option.case
    by (intro steady_seq [OF steady_observations(1)] steady_if steady_seq [OF \<open>steady w A always _\<close>] steady_intros)
qed

lemma steady_remove_directory:
  "A (st_key (ow_target_storage o')) (Remove (ow_target o')) \<Longrightarrow> steady w A P (remove_directory w o')"
  unfolding remove_directory_def
  by (intro steady_intros fired_grant fired_change) (auto simp: allowed_boundaries_def)

lemma steady_undo_effect:
  assumes "may_undo A o'"
  shows "steady w A P (undo_effect w o')"
proof (cases "ow_action o' = ''DELETE_DIRECTORY''")
  case True
  with assms show ?thesis
    by (auto simp: undo_effect_def may_undo_def Let_def intro: steady_remove_directory)
next
  case False
  then show ?thesis
    unfolding undo_effect_def
    using assms steady_restore_move [OF assms False]
    by (auto simp: may_undo_def Let_def allowed_boundaries_def intro!: steady_intros fired_grant fired_change)
qed

lemma steady_undo_steps:
  assumes "may_undo A o'"
  shows "steady w A (\<lambda>x. \<not> snd x) (undo_steps w o')"
  unfolding undo_steps_def
  by (rule steady_catch)
    (auto intro!: steady_intros silent_intros steady_undo_effect [OF assms] simp: return_act_def
      split: fault.split)

lemma steady_undo_all:
  "\<forall>o' \<in> set os. may_undo A o' \<Longrightarrow> steady w A (\<lambda>_. False) (undo_all w os)"
proof (induction os)
  case (Cons o' os)
  then have "steady w A (\<lambda>_. False) (bind_act (undo_all w os) (\<lambda>rest. return_act (steps @ rest)))" for steps
    by (intro steady_bind [where P = "\<lambda>_. False"]) (auto intro: silent_intros simp: return_act_def)
  with Cons show ?case unfolding undo_all.simps
    by (intro steady_bind [OF steady_undo_steps [of A o']])
      (auto intro!: silent_intros steady_intros simp: return_act_def split: prod.splits)
qed (auto intro!: steady_intros)

section \<open>The primary file\<close>

lemma steady_missing [steady_intros]: "steady w A P (missing_directories w s parent)"
  unfolding missing_directories_def by (intro steady_intros)

lemma steady_own_directory [steady_intros]: "steady w A P (own_directory w dst d)"
  unfolding own_directory_def by (intro steady_intros)

lemma steady_ensure_parent:
  assumes "A (st_key dst) (MakeDirectory parent)"
  shows "steady w A P (ensure_parent w p dst parent)"
proof -
  have "fired w A ''CREATE_DIRECTORY'' always (change_at w dst (MakeDirectory parent))"
    by (rule fired_change) (use assms in \<open>simp_all add: allowed_boundaries_def\<close>)
  from fired_then [OF this]
  have "steady w A P (create_parent w p dst parent)" for P
    unfolding create_parent_def Let_def
    by (intro steady_seq [where m = "if _ then _ else _"] steady_if steady_intros fired_grant
        fired_seq [OF armed_attempted] fired_then [OF \<open>fired w A _ always _\<close>])
  then show ?thesis unfolding ensure_parent_def by (intro steady_intros)
qed

lemma steady_verify_primary [steady_intros]: "steady w A P (verify_primary w p src dst s t original)"
  unfolding verify_primary_def by (intro steady_intros)

lemma steady_primary:
  assumes "may_mutate A p src dst s t" "A (st_key dst) (MakeDirectory (path_dirname t))"
  shows "steady w A P (primary w p src dst s t)"
  unfolding primary_def
  by (intro steady_intros steady_ensure_parent assms)

section \<open>Attachments\<close>

lemma steady_ready [steady_intros]: "steady w A P (attachment_ready w storages a)"
  unfolding attachment_ready_def find_storage_def by (intro steady_intros)

lemma steady_verify_attachment [steady_intros]: "steady w A P (verify_attachment w p src dst s t original)"
  unfolding verify_attachment_def by (intro steady_intros)

definition goes_on :: "attachment_outcome \<Rightarrow> bool" where
  "goes_on o' = (snd (snd (snd (snd o'))) \<longrightarrow> fst o' = AttachmentSuccess)"

lemma silent_refused [silent_intros]: "silent (refused_attachment marker verified)"
  unfolding refused_attachment_def Let_def by (intro silent_intros)

lemma silent_attachment_fault [silent_intros]: "silent (attachment_fault marker kept' e)"
  unfolding attachment_fault_def Let_def by (auto split: fault.split intro!: silent_intros)

lemma attachment_fault_stops:
  "attachment_fault marker kept' e r = (Inr o', s) \<Longrightarrow> \<not> goes_on o'"
  "attachment_fault marker kept' (Refused b v) r \<noteq> (Inl e', s)"
  by (auto simp: attachment_fault_def refused_attachment_def Let_def bind_act_def add_completed_def local_act_def
      return_act_def raise_act_def goes_on_def split: fault.splits if_splits)

lemma steady_change_attachment:
  assumes "may_mutate A (p\<lparr>pl_overwrite := False\<rparr>) src dst (lo_path (at_source a)) (lo_path (at_destination a))"
  shows "steady w A goes_on (change_attachment w p a src dst original)"
proof -
  note m = steady_own_effects [OF steady_record [OF assms]]
  note stops = attachment_fault_stops
  have first: "steady w A (\<lambda>v. case v of None \<Rightarrow> True | Some o' \<Rightarrow> goes_on o')
     (catch_act (bind_act (own_effects (mutate_and_record w (p\<lparr>pl_overwrite := False\<rparr>) src dst
         (lo_path (at_source a)) (lo_path (at_destination a)) marker)) (\<lambda>_. return_act None))
       (\<lambda>e. bind_act (attachment_fault marker [] e) (\<lambda>o'. return_act (Some o'))))" for marker
  proof (rule steady_catch, goal_cases)
    case 1
    show ?case by (rule steady_seq [OF m]) (rule steady_intros)
  qed (auto intro!: steady_silent [OF silent_bind] silent_intros
      simp: bind_act_def return_act_def stops split: prod.splits sum.splits dest: stops(1))
  have second: "steady w A goes_on (catch_act m' (attachment_fault marker k))" if "steady w A goes_on m'" for m' marker k
    by (rule steady_catch [OF that]) (auto intro!: steady_silent silent_intros dest: stops(1) simp: stops)
  show ?thesis
    unfolding change_attachment_def Let_def
    by (rule steady_bind [OF first])
      (auto intro!: steady_intros silent_intros second simp: return_act_def split: option.splits)
qed

lemma steady_execute_attachment:
  assumes "\<And>src dst. storages (lo_storage (at_source a)) = Some src \<Longrightarrow> storages (lo_storage (at_destination a)) = Some dst \<Longrightarrow>
    may_mutate A (p\<lparr>pl_overwrite := False\<rparr>) src dst (lo_path (at_source a)) (lo_path (at_destination a))"
  shows "steady w A goes_on (execute_attachment w p storages stopped taken a)"
proof -
  have ready: "steady w A always (catch_act (attachment_ready w storages a)
      (\<lambda>e. if ordinary e \<or> key_error e then return_act (Inl ''storage_unavailable'') else raise_act e))"
    by (rule steady_catch_through) (auto intro!: steady_intros simp: ordinary_def key_error_def)
  have found: "storages (lo_storage (at_source a)) = Some src \<and> storages (lo_storage (at_destination a)) = Some dst"
    if "catch_act (attachment_ready w storages a)
      (\<lambda>e. if ordinary e \<or> key_error e then return_act (Inl ''storage_unavailable'') else raise_act e) r =
      (Inr (Inr (src, dst, n)), s)" for src dst n r s
    using that
    by (auto simp: attachment_ready_def find_storage_def catch_act_def bind_act_def return_act_def raise_act_def
        split: prod.splits sum.splits option.splits if_splits)
  have "steady w A goes_on (bind_act (catch_act (attachment_ready w storages a)
      (\<lambda>e. if ordinary e \<or> key_error e then return_act (Inl ''storage_unavailable'') else raise_act e))
      (\<lambda>ready. case ready of Inl reason \<Rightarrow> return_act (AttachmentNotExecuted, Some reason, NoEffect, [], False)
         | Inr (src, dst, original) \<Rightarrow> change_attachment w p a src dst original))"
    by (rule steady_bind [OF ready])
      (auto intro!: steady_intros steady_change_attachment assms dest: found split: sum.split)
  then show ?thesis unfolding execute_attachment_def by (intro steady_if steady_locals)
qed

lemma stopped_attachments: "silent (execute_attachments w p storages True taken as)"
  by (induction as arbitrary: taken) (auto simp: execute_attachment_def intro!: silent_intros)

lemma stopped_attachments_return: "execute_attachments w p storages True taken as r \<noteq> (Inl e, s)"
  by (induction as arbitrary: taken r)
    (auto simp: execute_attachment_def bind_act_def return_act_def split: prod.splits sum.splits)

lemma steady_execute_attachments:
  assumes "\<And>a src dst. a \<in> set as \<Longrightarrow> storages (lo_storage (at_source a)) = Some src \<Longrightarrow>
    storages (lo_storage (at_destination a)) = Some dst \<Longrightarrow>
    may_mutate A (p\<lparr>pl_overwrite := False\<rparr>) src dst (lo_path (at_source a)) (lo_path (at_destination a))"
  shows "steady w A (\<lambda>xs. list_all (\<lambda>a. ar_status a = AttachmentSuccess) xs)
    (execute_attachments w p storages stopped taken as)"
  using assms
proof (induction as arbitrary: stopped taken)
  case (Cons a as)
  let ?all = "\<lambda>xs. list_all (\<lambda>a. ar_status a = AttachmentSuccess) xs"
  have rest: "steady w A ?all (bind_act (execute_attachments w p storages stop taken' as) (\<lambda>rest.
      return_act (attachment_result_document p a status reason certainty steps # rest)))"
    for stop taken' status reason certainty steps
    by (rule steady_bind [OF Cons.IH])
      (use Cons.prems in \<open>auto intro!: steady_intros silent_intros simp: return_act_def\<close>)
  have one: "steady w A goes_on (execute_attachment w p storages stopped taken a)"
    by (rule steady_execute_attachment) (use Cons.prems in auto)
  show ?case
    unfolding execute_attachments.simps
  proof (rule steady_bind [OF one], goal_cases)
    case 1
    show ?case by (auto split: prod.split intro: rest)
  next
    case (2 x)
    then show ?case
      by (auto simp: goes_on_def split: prod.splits intro!: silent_intros stopped_attachments)
  next
    case (3 x y r s)
    then show ?case
      by (auto simp: goes_on_def bind_act_def return_act_def attachment_result_document_def split: prod.splits sum.splits)
  next
    case (4 x e r s)
    then show ?case
      using stopped_attachments_return
      by (fastforce simp: goes_on_def bind_act_def return_act_def split: prod.splits sum.splits)
  qed
qed (auto intro!: steady_intros)

section \<open>Cleaning up\<close>

text \<open>The directories a cleanup may come to, and the names it may delete in them.\<close>

fun cleanup_directories :: "string \<Rightarrow> nat \<Rightarrow> string \<Rightarrow> string list" where
  "cleanup_directories library 0 d = []"
| "cleanup_directories library (Suc n) d =
     (if d = [] \<or> d = library \<or> (library \<noteq> [] \<and> \<not> starts_with (library @ [slash]) d) then []
      else d # cleanup_directories library n (path_dirname d))"

definition ignored_name :: "cleanup_policy \<Rightarrow> string \<Rightarrow> bool" where
  "ignored_name policy name =
     (path_basename name = name \<and> \<not> unsafe_part name \<and> list_ex (fnmatch name) (cl_patterns policy))"

definition may_clean :: "footprint \<Rightarrow> plan \<Rightarrow> storage \<Rightarrow> string \<Rightarrow> bool" where
  "may_clean A p s d =
     (A (st_key s) (Remove d) \<and>
      (\<forall>name. ignored_name (pl_cleanup p) name \<longrightarrow> A (st_key s) (Remove (path_join d [name]))))"

lemma steady_type_changed [steady_intros]: "steady w A P (some_type_changed w s es)"
  by (induction es) (auto intro!: steady_intros)

lemma silent_stop [silent_intros]: "silent (stop_directory d reason)" "silent (stop_with_failure error)"
  by (auto simp: stop_directory_def stop_with_failure_def intro!: silent_intros)

lemmas steady_stops [steady_intros] = silent_stop [THEN steady_silent]

lemma steady_delete_ignored:
  assumes "A (st_key s) (Remove (path_join d [se_name e]))"
  shows "steady w A P (delete_ignored w s d e)"
proof -
  have "fired w A ''CLEANUP_DELETE_IGNORED_FILE'' always (change_at w s (Remove (path_join d [se_name e])))"
    by (rule fired_change) (use assms in \<open>simp_all add: allowed_boundaries_def\<close>)
  then show ?thesis
    unfolding delete_ignored_def by (intro fired_grant fired_then) (auto intro: steady_intros)
qed

lemma steady_clean_entries:
  assumes "may_clean A p s d"
  shows "steady w A P (clean_entries w p s d es)"
  unfolding clean_entries_def Let_def
  using assms
  by (auto intro!: steady_intros steady_delete_ignored
      simp: may_clean_def ignored_name_def cleanup_entry_matches_def list_all_iff)

lemma wp_present:
  "armed w A b r \<Longrightarrow> wp (or_absent False (exists_at w s d))
     (\<lambda>x s. calm w A s \<and> (x \<longrightarrow> armed w A b s)) (halted w A) r"
  unfolding or_absent_def wp_catch
  by (rule wp_mono [OF armed_exists])
    (auto simp: wp_simps halted_def not_found_def dest: armed_calm split: fault.splits external.splits)

lemma fired_remove_directory:
  assumes "A (st_key s) (Remove d)"
  shows "fired w A ''CLEANUP_DELETE_DIRECTORY'' P
    (bind_act (or_absent False (exists_at w s d)) (\<lambda>present.
       if \<not> present
       then bind_act (add_cleanup ''DIRECTORY_ALREADY_ABSENT'' d True (Some ''prefix is already absent'')) (\<lambda>_. return_act None)
       else bind_act (change_at w s (Remove d)) (\<lambda>_.
         bind_act (add_cleanup ''DELETE_EMPTY_DIRECTORY'' d True None) (\<lambda>_. return_act None))))"
  (is "fired w A ?b P (bind_act _ ?rest)")
  unfolding fired_def wp_bind
proof (intro allI impI)
  fix r
  assume r: "armed w A ?b r"
  have c: "fired w A ?b always (change_at w s (Remove d))"
    by (rule fired_change) (use assms in \<open>simp_all add: allowed_boundaries_def\<close>)
  have "fired w A ?b P (bind_act (change_at w s (Remove d)) (\<lambda>_.
         bind_act (add_cleanup ''DELETE_EMPTY_DIRECTORY'' d True None) (\<lambda>_. return_act None)))"
    by (rule fired_then [OF c]) (intro steady_intros)
  note yes = fired_wp [OF this]
  have "steady w A P (bind_act (add_cleanup ''DIRECTORY_ALREADY_ABSENT'' d True (Some ''prefix is already absent''))
         (\<lambda>_. return_act None))"
    by (intro steady_intros)
  note no = steady_wp [OF this]
  show "wp (or_absent False (exists_at w s d))
     (\<lambda>x. wp (?rest x) (\<lambda>x s. kept w A (ru_log s) \<and> (P x \<longrightarrow> calm w A s)) (halted w A)) (halted w A) r"
    by (rule wp_mono [OF wp_present [OF r]]) (auto intro: yes no)
qed

lemma steady_clean_directory:
  assumes "may_clean A p s d"
  shows "steady w A P (clean_directory w p s d)"
proof -
  have r: "A (st_key s) (Remove d)" using assms by (simp add: may_clean_def)
  have left: "steady w A always (or_absent [] (list_at w s d))"
    unfolding or_absent_def
    by (rule steady_catch_through) (auto intro!: steady_intros simp: not_found_def)
  show ?thesis
    unfolding clean_directory_def
    by (intro steady_seq steady_clean_entries [OF assms] steady_option left steady_if fired_grant
        fired_remove_directory r steady_intros)
qed

lemma steady_clean_directories:
  "\<forall>x \<in> set (cleanup_directories library n d). may_clean A p s x \<Longrightarrow>
    steady w A P (clean_directories w p s library n d)"
proof (induction n arbitrary: d)
  case (Suc n)
  show ?case
    unfolding clean_directories.simps
    using Suc by (auto intro!: steady_seq steady_intros steady_clean_directory)
qed (auto intro!: steady_intros)

definition cleanup_scope :: "plan \<Rightarrow> string \<Rightarrow> string list" where
  "cleanup_scope p storage_source =
     (if cl_mode (pl_cleanup p) = CleanupNone \<or> pl_operation p \<noteq> DoMove then []
      else cleanup_directories (if pl_source_root p = [] then [] else normpath (pl_source_root p))
        (nat (cl_parents (pl_cleanup p))) (path_dirname (normpath storage_source)))"

lemma steady_cleanup:
  assumes "\<forall>x \<in> set (cleanup_scope p storage_source). may_clean A p s x"
  shows "steady w A (\<lambda>_. False) (cleanup_source_directories w p s storage_source)"
proof (cases "cl_mode (pl_cleanup p) = CleanupNone \<or> pl_operation p \<noteq> DoMove")
  case False
  define library where "library = (if pl_source_root p = [] then [] else normpath (pl_source_root p))"
  have m: "steady w A P (clean_directories w p s library (nat (cl_parents (pl_cleanup p)))
      (path_dirname (normpath storage_source)))" for P
    using assms False by (intro steady_clean_directories) (simp add: cleanup_scope_def library_def)
  show ?thesis
    unfolding cleanup_source_directories_def Let_def library_def [symmetric]
    by (intro steady_if steady_locals steady_catch steady_seq [OF m])
      (auto intro!: steady_intros silent_intros simp: return_act_def ordinary_def split: fault.split)
qed (auto simp: cleanup_source_directories_def Let_def intro!: steady_intros)

section \<open>Recorded effects\<close>

definition owns :: "(owned_effect \<Rightarrow> bool) \<Rightarrow> 'a act \<Rightarrow> bool" where
  "owns F m =
     (\<forall>r. (\<forall>o' \<in> set (ru_effects r). F o') \<longrightarrow>
       wp m (\<lambda>_ s. \<forall>o' \<in> set (ru_effects s). F o') (\<lambda>_ s. \<forall>o' \<in> set (ru_effects s). F o') r)"

named_theorems owns_intros "how actions that record only owned effects are composed"

lemma owns_wp:
  "owns F m \<Longrightarrow> \<forall>o' \<in> set (ru_effects r). F o' \<Longrightarrow>
    wp m (\<lambda>_ s. \<forall>o' \<in> set (ru_effects s). F o') (\<lambda>_ s. \<forall>o' \<in> set (ru_effects s). F o') r"
  by (simp add: owns_def)

lemma owns_bind:
  assumes "owns F m" "\<And>x r s. m r = (Inr x, s) \<Longrightarrow> owns F (f x)"
  shows "owns F (bind_act m f)"
  unfolding owns_def wp_bind
proof (intro allI impI, rule wp_intro)
  fix r x s
  assume r: "\<forall>o' \<in> set (ru_effects r). F o'" and x: "m r = (Inr x, s)"
  from wp_result(1) [OF owns_wp [OF assms(1) r] x] have "\<forall>o' \<in> set (ru_effects s). F o'" by blast
  from owns_wp [OF assms(2) [OF x] this]
  show "wp (f x) (\<lambda>_ s. \<forall>o' \<in> set (ru_effects s). F o') (\<lambda>_ s. \<forall>o' \<in> set (ru_effects s). F o') s" .
next
  fix r e s
  assume "\<forall>o' \<in> set (ru_effects r). F o'" "m r = (Inl e, s)"
  then show "\<forall>o' \<in> set (ru_effects s). F o'" using wp_result(2) [OF owns_wp [OF assms(1)]] by blast
qed

lemma owns_seq [owns_intros]: "owns F m \<Longrightarrow> (\<And>x. owns F (f x)) \<Longrightarrow> owns F (bind_act m f)"
  by (rule owns_bind)

lemma owns_catch [owns_intros]:
  assumes "owns F m" "\<And>e. owns F (h e)"
  shows "owns F (catch_act m h)"
  unfolding owns_def wp_catch
  by (intro allI impI) (rule wp_mono [OF owns_wp [OF assms(1)]], auto intro: owns_wp [OF assms(2)])

lemma owns_same: "(\<And>r. ru_effects (snd (m r)) = ru_effects r) \<Longrightarrow> owns F m"
  unfolding owns_def by (intro allI impI wp_intro) (metis snd_conv)+

lemma owns_primitives [owns_intros]:
  "owns F (return_act x)" "owns F (raise_act e)" "owns F (runtime_error t)" "owns F set_attempted"
  "owns F (add_created ps)" "owns F (add_completed cs)" "owns F (check_authority w b)"
  by (rule owns_same, simp add: return_act_def raise_act_def runtime_error_def set_attempted_def add_created_def
      add_completed_def local_act_def check_authority_def Let_def split: option.split)+

lemma owns_observe [owns_intros]:
  "owns F (exists_at w s p)" "owns F (stat_at w s p)" "owns F (open_at w s p)" "owns F (change_at w s c)"
  by (rule owns_same, simp add: exists_at_def stat_at_def open_at_def change_at_def observe_def Let_def)+

lemma owns_effect: "F o' \<Longrightarrow> owns F (add_effect o')"
  by (simp add: owns_def add_effect_def wp_local)

lemma owns_if [owns_intros]: "(c \<Longrightarrow> owns F m) \<Longrightarrow> (\<not> c \<Longrightarrow> owns F n) \<Longrightarrow> owns F (if c then m else n)"
  by simp

definition plan_effect :: "plan \<Rightarrow> storage \<Rightarrow> storage \<Rightarrow> string \<Rightarrow> string \<Rightarrow> owned_effect \<Rightarrow> bool" where
  "plan_effect p src dst s t o' =
     (ow_target_storage o' = dst \<and>
      (if ow_action o' = ''DELETE_DIRECTORY'' then ow_target o' \<in> set (ancestors (path_dirname t))
       else ow_source_storage o' = src \<and> ow_source o' = Some s \<and> ow_target o' = t \<and>
         (ow_restore o' \<longrightarrow> pl_operation p = DoMove)))"

lemma owns_stream [owns_intros]: "owns F (stream_to w src s dst t ow)"
  unfolding stream_to_def by (intro owns_intros)

lemma owns_after_copy [owns_intros]: "owns F m \<Longrightarrow> owns F (after_copy m)"
  unfolding after_copy_def by (rule owns_catch) (auto split: fault.split intro: owns_intros)

lemma owns_delete_moved [owns_intros]: "owns F (delete_moved w prefix src dst s t)"
  unfolding delete_moved_def by (intro owns_intros)

lemma owns_mutate [owns_intros]: "owns F (mutate w p src dst s t marker)"
  unfolding mutate_def Let_def
  by (cases "pl_operation p"; simp only: plan_operation.case; intro owns_intros)

lemma capture_owned:
  assumes "capture_effect w p src dst s t marker r = (Inr (Some o'), r')"
  shows "plan_effect p src dst s t o'"
proof -
  have "wp (capture_effect w p src dst s t marker)
      (\<lambda>x _. \<forall>o'. x = Some o' \<longrightarrow> plan_effect p src dst s t o') (\<lambda>_ _. True) r" for r
    unfolding capture_effect_def exists_at_def stat_at_def wp_simps wp_observe Let_def
    by (auto simp: wp_simps wp_observe Let_def plan_effect_def split: sum.split)
  from wp_result(1) [OF this assms] show ?thesis by blast
qed

lemma owns_capture [owns_intros]: "owns F (capture_effect w p src dst s t marker)"
  unfolding capture_effect_def by (intro owns_intros)

lemma owns_record: "owns (plan_effect p src dst s t) (mutate_and_record w p src dst s t marker)"
proof -
  have c: "owns (plan_effect p src dst s t) (bind_act (capture_effect w p src dst s t marker)
      (\<lambda>found. bind_act (case found of None \<Rightarrow> return_act () | Some x \<Rightarrow> add_effect x) (\<lambda>_. raise_act e)))" for e
    by (rule owns_bind [OF owns_capture])
      (auto intro!: owns_intros owns_effect capture_owned split: option.split)
  have d: "owns (plan_effect p src dst s t) (bind_act (capture_effect w p src dst s t marker)
      (\<lambda>found. case found of None \<Rightarrow> runtime_error t' | Some x \<Rightarrow> add_effect x))" for t'
    by (rule owns_bind [OF owns_capture])
      (auto intro!: owns_intros owns_effect capture_owned split: option.split)
  show ?thesis
    unfolding mutate_and_record_def
    by (intro owns_if owns_seq [OF owns_catch] owns_mutate c d owns_primitives)
qed

lemma missing_subset:
  assumes "missing_directories w s parent r = (Inr ds, r')"
  shows "set ds \<subseteq> set (ancestors parent)"
proof -
  have m: "wp (map_act (\<lambda>d. bind_act (exists_at w s d) (\<lambda>b. return_act (b, d))) xs)
      (\<lambda>bs _. map snd bs = xs) (\<lambda>_ _. True) r" for xs r
  proof (induction xs arbitrary: r)
    case (Cons d xs)
    show ?case
      unfolding map_act.simps wp_bind exists_at_def wp_observe Let_def wp_return
      by (auto split: sum.split intro: wp_mono [OF Cons.IH [unfolded exists_at_def]])
  qed (simp add: wp_return)
  have "wp (missing_directories w s parent) (\<lambda>ds _. set ds \<subseteq> set (ancestors parent)) (\<lambda>_ _. True) r"
    unfolding missing_directories_def wp_bind wp_return
    by (rule wp_mono [OF m]) (drule arg_cong [where f = set], force, simp)
  from wp_result(1) [OF this assms] show ?thesis .
qed

lemma owns_map_act [owns_intros]: "(\<And>x. owns F (f x)) \<Longrightarrow> owns F (map_act f xs)"
  by (induction xs) (auto intro!: owns_intros)

lemma owns_each: "(\<And>x. x \<in> set xs \<Longrightarrow> owns F (f x)) \<Longrightarrow> owns F (each_act f xs)"
  by (induction xs) (auto intro!: owns_intros)

lemma owns_create_parent: "owns (plan_effect p src dst s t) (create_parent w p dst (path_dirname t))"
proof -
  let ?F = "plan_effect p src dst s t"
  have m: "owns ?F (if b then missing_directories w dst (path_dirname t) else return_act [path_dirname t])" for b
    unfolding missing_directories_def by (intro owns_intros)
  have each: "owns ?F (each_act (own_directory w dst) ds)" if "set ds \<subseteq> set (ancestors (path_dirname t))" for ds
    unfolding own_directory_def
    by (intro owns_each owns_seq [OF owns_observe(2)] owns_effect) (use that in \<open>auto simp: plan_effect_def\<close>)
  show ?thesis
    unfolding create_parent_def Let_def
  proof (rule owns_bind [OF m], goal_cases)
    case (1 ds r s)
    then have "set ds \<subseteq> set (ancestors (path_dirname t))" if "rb_enabled (pl_rollback p)"
      using that by (auto dest: missing_subset)
    then show ?case
      by (intro owns_seq owns_if owns_primitives owns_observe each)
  qed
qed

end
