(* ===== verification/Execution_Footprint.thy ===== *)
theory Execution_Footprint
  imports Execution_Facts
begin

text \<open>
  The footprint of a whole execution: every change a plan may make, as a list of storages and changes
  computed from the plan and the paths it is executed on, and the names a cleanup may delete. The
  executor stays in it and asks before each change, whatever the storages answer.
\<close>

section \<open>The footprint\<close>

definition planned_changes :: "plan \<Rightarrow> storage \<Rightarrow> storage \<Rightarrow> string \<Rightarrow> string \<Rightarrow> (nat \<times> change) list" where
  "planned_changes p src dst s t =
     (let same = same_storage src dst; overwrite = pl_overwrite p in
      case pl_operation p of
        DoMove \<Rightarrow>
          if same then [(st_key src, MoveTo s t overwrite)]
          else [(st_key dst, Write t (st_key src, s) overwrite), (st_key src, Remove s)]
      | DoCopy \<Rightarrow>
          [if same then (st_key src, CopyTo s t overwrite) else (st_key dst, Write t (st_key src, s) overwrite)]
      | DoLink \<Rightarrow>
          if same then [(st_key src, if pl_link p = Some OpSoftLink then SoftLinkTo s t else HardLinkTo s t)] else []
      | _ \<Rightarrow> [])"

text \<open>Undoing never overwrites, and it removes nothing but the target and the directories above it.\<close>

definition undo_changes :: "plan \<Rightarrow> storage \<Rightarrow> storage \<Rightarrow> string \<Rightarrow> string \<Rightarrow> (nat \<times> change) list" where
  "undo_changes p src dst s t =
     (if \<not> rb_enabled (pl_rollback p) then []
      else (st_key dst, Remove t) #
        (if rb_directories (pl_rollback p) then map (\<lambda>d. (st_key dst, Remove d)) (ancestors (path_dirname t)) else []) @
        (if pl_operation p \<noteq> DoMove then []
         else if same_storage src dst then [(st_key dst, MoveTo t s False)]
         else [(st_key src, Write s (st_key dst, t) False)]))"

definition attachment_changes :: "plan \<Rightarrow> (string \<rightharpoonup> storage) \<Rightarrow> attachment_plan \<Rightarrow> (nat \<times> change) list" where
  "attachment_changes p storages a =
     (case (storages (lo_storage (at_source a)), storages (lo_storage (at_destination a))) of
        (Some src, Some dst) \<Rightarrow>
          planned_changes (p\<lparr>pl_overwrite := False\<rparr>) src dst (lo_path (at_source a)) (lo_path (at_destination a))
      | _ \<Rightarrow> [])"

definition listed_changes ::
  "plan \<Rightarrow> (string \<rightharpoonup> storage) \<Rightarrow> storage \<Rightarrow> storage \<Rightarrow> string \<Rightarrow> string \<Rightarrow> (nat \<times> change) list" where
  "listed_changes p storages src dst s t =
     (st_key dst, MakeDirectory (path_dirname t)) # planned_changes p src dst s t @ undo_changes p src dst s t @
     concat (map (attachment_changes p storages) (pl_attachments p))"

definition cleanup_change :: "plan \<Rightarrow> string \<Rightarrow> change \<Rightarrow> bool" where
  "cleanup_change p s c =
     (\<exists>d \<in> set (cleanup_scope p s). c = Remove d \<or>
       (\<exists>name. ignored_name (pl_cleanup p) name \<and> c = Remove (path_join d [name])))"

definition permitted :: "plan \<Rightarrow> (string \<rightharpoonup> storage) \<Rightarrow> storage \<Rightarrow> storage \<Rightarrow> string \<Rightarrow> string \<Rightarrow> footprint" where
  "permitted p storages src dst s t k c =
     ((k, c) \<in> set (listed_changes p storages src dst s t) \<or> k = st_key src \<and> cleanup_change p s c)"

lemma permitted_planned:
  "x \<in> set (planned_changes p src dst s t) \<Longrightarrow> permitted p storages src dst s t (fst x) (snd x)"
  by (simp add: permitted_def listed_changes_def)

lemma planned_may_mutate:
  "(\<And>x. x \<in> set (planned_changes p src dst s t) \<Longrightarrow> A (fst x) (snd x)) \<Longrightarrow> may_mutate A p src dst s t"
  by (cases "pl_operation p") (auto simp: planned_changes_def may_mutate_def Let_def)

lemma permitted_primary: "may_mutate (permitted p storages src dst s t) p src dst s t"
  by (rule planned_may_mutate) (rule permitted_planned)

lemma permitted_parent: "permitted p storages src dst s t (st_key dst) (MakeDirectory (path_dirname t))"
  by (simp add: permitted_def listed_changes_def)

lemma permitted_attachment:
  assumes "a \<in> set (pl_attachments p)" "storages (lo_storage (at_source a)) = Some asrc"
    "storages (lo_storage (at_destination a)) = Some adst"
  shows "may_mutate (permitted p storages src dst s t) (p\<lparr>pl_overwrite := False\<rparr>) asrc adst
    (lo_path (at_source a)) (lo_path (at_destination a))"
proof (rule planned_may_mutate)
  fix x
  assume "x \<in> set (planned_changes (p\<lparr>pl_overwrite := False\<rparr>) asrc adst (lo_path (at_source a)) (lo_path (at_destination a)))"
  then have "x \<in> set (attachment_changes p storages a)" using assms by (simp add: attachment_changes_def)
  then show "permitted p storages src dst s t (fst x) (snd x)" using assms(1) by (auto simp: permitted_def listed_changes_def)
qed

lemma permitted_cleanup: "x \<in> set (cleanup_scope p s) \<Longrightarrow> may_clean (permitted p storages src dst s t) p src x"
  by (auto simp: may_clean_def permitted_def cleanup_change_def)

lemma permitted_undo:
  assumes "rb_enabled (pl_rollback p)" "plan_effect p src dst s t o'"
    "ow_action o' = ''DELETE_DIRECTORY'' \<longrightarrow> rb_directories (pl_rollback p)"
  shows "may_undo (permitted p storages src dst s t) o'"
  using assms
  by (auto simp: may_undo_def plan_effect_def permitted_def listed_changes_def undo_changes_def Let_def split: if_splits)

section \<open>The steps of an execution\<close>

lemma silent_authority_failure: "silent (authority_failure_result p plan_id display b v)"
  unfolding authority_failure_result_def Let_def by (intro silent_intros) (auto intro: silent_intros)

lemma rollback_kept:
  assumes "rb_enabled (pl_rollback p)" "calm w (permitted p storages src dst s t) r" "\<forall>o' \<in> set os. plan_effect p src dst s t o'"
  shows "wp (rollback w (rb_directories (pl_rollback p)) os) (\<lambda>_ s'. kept w (permitted p storages src dst s t) (ru_log s'))
     (\<lambda>_ s'. kept w (permitted p storages src dst s t) (ru_log s')) r"
proof -
  have "steady w (permitted p storages src dst s t) (\<lambda>_. False) (rollback w (rb_directories (pl_rollback p)) os)"
    unfolding rollback_def
    by (rule steady_undo_all) (use assms in \<open>auto intro!: permitted_undo\<close>)
  from steady_wp [OF this assms(2)] show ?thesis
    by (rule wp_mono) (auto simp: halted_def)
qed

lemma failure_kept:
  assumes "calm w (permitted p storages src dst s t) r" "\<forall>o' \<in> set (ru_effects r). plan_effect p src dst s t o'"
  shows "wp (failure_result w p plan_id display error) (\<lambda>_ s'. kept w (permitted p storages src dst s t) (ru_log s'))
     (\<lambda>_ s'. kept w (permitted p storages src dst s t) (ru_log s')) r"
proof -
  note calm = calm_kept [OF assms(1)]
  show ?thesis
    unfolding failure_result_def Let_def
    using calm by (auto simp: wp_simps intro!: wp_mono [OF rollback_kept [OF _ assms]])
qed

lemma primary_kept:
  assumes "calm w (permitted p storages src dst s t) r" "ru_effects r = []"
  shows "wp (primary w p src dst s t)
     (\<lambda>_ s'. calm w (permitted p storages src dst s t) s' \<and> (\<forall>o' \<in> set (ru_effects s'). plan_effect p src dst s t o'))
     (\<lambda>e s'. halted w (permitted p storages src dst s t) e s' \<and> (\<forall>o' \<in> set (ru_effects s'). plan_effect p src dst s t o')) r"
proof -
  have "owns (plan_effect p src dst s t) (primary w p src dst s t)"
    unfolding primary_def ensure_parent_def verify_primary_def
    by (intro owns_intros owns_record owns_create_parent)
  then have o: "wp (primary w p src dst s t) (\<lambda>_ s'. \<forall>o' \<in> set (ru_effects s'). plan_effect p src dst s t o')
      (\<lambda>_ s'. \<forall>o' \<in> set (ru_effects s'). plan_effect p src dst s t o') r"
    using assms(2) by (intro owns_wp) simp_all
  have "steady w (permitted p storages src dst s t) always (primary w p src dst s t)"
    by (rule steady_primary [OF permitted_primary permitted_parent])
  from wp_conj [OF steady_wp [OF this assms(1)] o]
  show ?thesis by (rule wp_mono) auto
qed

lemma after_primary_kept:
  assumes "calm w (permitted p storages src dst s t) r"
  shows "wp (after_primary w p storages src s plan_id display) (\<lambda>_ s'. kept w (permitted p storages src dst s t) (ru_log s'))
     (\<lambda>_ s'. kept w (permitted p storages src dst s t) (ru_log s')) r"
proof -
  let ?A = "permitted p storages src dst s t"
  have ats: "steady w ?A (\<lambda>xs. list_all (\<lambda>a. ar_status a = AttachmentSuccess) xs)
      (execute_attachments w p storages False taken (pl_attachments p))" for taken
    by (rule steady_execute_attachments) (rule permitted_attachment)
  have clean: "steady w ?A (\<lambda>_. False) (cleanup_source_directories w p src s)"
    by (rule steady_cleanup) (simp add: permitted_cleanup)
  have final: "steady w ?A (\<lambda>_. False) (bind_act (cleanup_source_directories w p src s) (\<lambda>(status, error). f status error))"
    if "\<And>x y. silent (f x y)" "\<And>x y r e s. f x y r \<noteq> (Inl e, s)" for f :: "cleanup_status \<Rightarrow> string option \<Rightarrow> execution_result act"
    by (rule steady_bind [OF clean]) (use that in \<open>auto split: prod.split\<close>)
  have "steady w ?A (\<lambda>_. False) (after_primary w p storages src s plan_id display)"
    unfolding after_primary_def
    by (rule steady_bind [OF ats])
      (auto intro!: steady_if steady_intros silent_intros final
        simp: bind_act_def return_act_def get_run_def list_all_iff list_ex_iff split: if_splits)
  from steady_wp [OF this assms] show ?thesis by (rule wp_mono) (auto simp: halted_def)
qed

lemma execute_checked_kept:
  assumes "calm w (permitted p storages src dst s t) r" "ru_effects r = []"
  shows "wp (execute_checked w p storages src dst s t plan_id display)
     (\<lambda>_ s'. kept w (permitted p storages src dst s t) (ru_log s'))
     (\<lambda>_ s'. kept w (permitted p storages src dst s t) (ru_log s')) r"
proof -
  let ?K = "\<lambda>s'. kept w (permitted p storages src dst s t) (ru_log s')"
  let ?C = "calm w (permitted p storages src dst s t)"
  let ?O = "\<lambda>s'. \<forall>o' \<in> set (ru_effects s'). plan_effect p src dst s t o'"
  have refused: "wp (authority_failure_result p plan_id display b v) (\<lambda>_. ?K) (\<lambda>_. ?K) s'" if "?K s'" for b v s'
    by (rule wp_mono [OF silent_wp [OF silent_authority_failure]]) (use that in auto)
  have completed: "wp (add_completed cs) Q E s' = Q () (s'\<lparr>ru_completed := ru_completed s' @ cs\<rparr>)" for cs Q E s'
    by (simp add: add_completed_def wp_local)
  have failure: "wp (failure_result w p plan_id display e) (\<lambda>_. ?K) (\<lambda>_. ?K) s'" if "?C s'" "?O s'" for e s'
    by (rule failure_kept [OF that])
  have added: "?C (s'\<lparr>ru_completed := x\<rparr>) = ?C s'" for s' x by (simp add: calm_def)
  show ?thesis
    unfolding execute_checked_def wp_bind wp_catch
  proof (rule wp_mono [OF primary_kept [OF assms]], goal_cases)
    case (1 x s')
    then show ?case by (cases x) (auto simp: wp_simps calm_kept intro!: after_primary_kept)
  next
    case (2 e s')
    then show ?case
      by (cases e)
        (auto simp: wp_simps halted_def completed added
          intro!: wp_mono [OF refused] wp_mono [OF failure] split: option.split)
  qed
qed

section \<open>A whole execution\<close>

definition start_run :: run where
  "start_run = \<lparr>ru_log = [], ru_created = [], ru_completed = [], ru_effects = [], ru_attempted = False, ru_cleanup = []\<rparr>"

definition ready_to_change :: "plan \<Rightarrow> (string \<rightharpoonup> storage) \<Rightarrow> bool \<Rightarrow> storage \<Rightarrow> storage \<Rightarrow> bool" where
  "ready_to_change p storages run_it src dst =
     (run_it \<and> plan_validation_error p = None \<and> \<not> (rb_enabled (pl_rollback p) \<and> pl_overwrite p) \<and>
      storage_validation_error p storages = None \<and> storages (pl_source_storage p) = Some src \<and>
      storages (pl_target_storage p) = Some dst \<and> operation_capability_error p src dst = None)"

lemma execute_cases:
  assumes "execute w digest p storages run_it source_path destination_path resolved r = (x, r')"
  obtains "r' = r" "\<And>result. x = Inr result \<Longrightarrow> \<not> er_primary result \<and> er_certainty result = NoEffect"
  | src dst plan_id display where "ready_to_change p storages run_it src dst"
      "execute_checked w p storages src dst (execution_source p source_path) (execution_target p destination_path)
         plan_id display r = (x, r')"
  using assms
  unfolding execute_def Let_def
  by (auto simp: return_act_def raise_act_def ready_to_change_def plain_result_def
      split: if_splits option.splits)

lemma execute_kept:
  assumes "execute w digest p storages run_it source_path destination_path resolved start_run = (x, r)"
  obtains "ru_log r = []"
  | src dst where "ready_to_change p storages run_it src dst"
      "kept w (permitted p storages src dst (execution_source p source_path) (execution_target p destination_path)) (ru_log r)"
  using assms
proof (rule execute_cases)
  assume "r = start_run"
  with that(1) show ?thesis by (simp add: start_run_def)
next
  fix src dst plan_id display
  assume r: "ready_to_change p storages run_it src dst"
    and e: "execute_checked w p storages src dst (execution_source p source_path)
      (execution_target p destination_path) plan_id display start_run = (x, r)"
  have "wp (execute_checked w p storages src dst (execution_source p source_path)
      (execution_target p destination_path) plan_id display)
     (\<lambda>_ s'. kept w (permitted p storages src dst (execution_source p source_path) (execution_target p destination_path)) (ru_log s'))
     (\<lambda>_ s'. kept w (permitted p storages src dst (execution_source p source_path) (execution_target p destination_path)) (ru_log s')) start_run"
    by (rule execute_checked_kept) (simp_all add: calm_def kept_def start_run_def)
  with e show ?thesis by (cases x) (auto dest: wp_result intro: that(2) [OF r])
qed

section \<open>Reading the phases\<close>

fun is_observation :: "event \<Rightarrow> bool" where
  "is_observation (Changed k c a) = False"
| "is_observation (Asked b ok) = False"
| "is_observation _ = True"

lemma phase_observation: "is_observation e \<Longrightarrow> phase_step ph e = ph"
  by (cases e) simp_all

lemma step_violated: "phase_step Violated e = Violated"
  by (cases e) auto

lemma violated_stays: "foldl phase_step Violated h = Violated"
  by (induction h) (auto simp: step_violated)

lemma log_phase_append: "log_phase (h @ h') = foldl phase_step (log_phase h) h'"
  by (simp add: log_phase_def)

lemma unstopped_log:
  "log_phase h \<noteq> Stopped \<Longrightarrow> log_phase h \<noteq> Violated \<Longrightarrow> Asked b False \<notin> set h"
proof (induction h rule: rev_induct)
  case (snoc e h)
  then show ?case
    by (cases e) (auto simp: step_violated split: phase.splits if_splits)
qed simp

lemma granted_log:
  "log_phase h = Granted b \<Longrightarrow> \<exists>h1 h2. h = h1 @ Asked b True # h2 \<and> list_all is_observation h2"
proof (induction h rule: rev_induct)
  case (snoc e h)
  show ?case
  proof (cases "is_observation e")
    case True
    with snoc.prems have "log_phase h = Granted b" by (simp add: phase_observation)
    with snoc.IH obtain h1 h2 where "h = h1 @ Asked b True # h2" "list_all is_observation h2" by blast
    with True have "h @ [e] = h1 @ Asked b True # (h2 @ [e]) \<and> list_all is_observation (h2 @ [e])" by simp
    then show ?thesis by blast
  next
    case False
    then have "e = Asked b True" using snoc.prems by (cases e) (auto split: phase.splits if_splits)
    then have "h @ [e] = h @ Asked b True # [] \<and> list_all is_observation []" by simp
    then show ?thesis by blast
  qed
qed simp

text \<open>What a change that does not violate the phases was preceded by.\<close>

lemma granted_change:
  assumes "log_phase (h @ Changed k c a # h') \<noteq> Violated"
  shows "\<exists>h1 b h2. h = h1 @ Asked b True # h2 \<and> b \<in> set (allowed_boundaries c) \<and> list_all is_observation h2"
    "Asked b False \<notin> set h"
proof -
  have "phase_step (log_phase h) (Changed k c a) \<noteq> Violated"
    using assms violated_stays by (auto simp: log_phase_append)
  then obtain b where b: "log_phase h = Granted b" "b \<in> set (allowed_boundaries c)"
    by (auto split: phase.splits if_splits)
  from granted_log [OF b(1)] b(2)
  show "\<exists>h1 b h2. h = h1 @ Asked b True # h2 \<and> b \<in> set (allowed_boundaries c) \<and> list_all is_observation h2" by blast
  show "Asked b False \<notin> set h" for b using b(1) by (intro unstopped_log) simp_all
qed

end
