(* ===== verification/Execution_Certainty.thy ===== *)
theory Execution_Certainty
  imports Execution_Footprint
begin

text \<open>
  What the certainty of a result is worth: no change was made, or none of the changes made failed. Three
  kinds of action are composed: those that only look, those that fail bluntly (a failed change never
  ends in a refusal or in a result that claims to be complete), and those that only extend the history.
\<close>

section \<open>Actions that only look\<close>

fun is_change :: "event \<Rightarrow> bool" where
  "is_change (Changed k c a) = True"
| "is_change _ = False"

definition changes_of :: "run \<Rightarrow> event list" where
  "changes_of r = filter is_change (ru_log r)"

definition same_changes :: "run \<Rightarrow> run \<Rightarrow> bool" where
  "same_changes r s =
     (changes_of s = changes_of r \<and> ru_attempted s = ru_attempted r \<and> ru_completed s = ru_completed r)"

definition quiet :: "'a act \<Rightarrow> bool" where
  "quiet m = (\<forall>r. wp m (\<lambda>_ s. same_changes r s) (\<lambda>e s. \<not> is_refused e \<and> same_changes r s) r)"

named_theorems quiet_intros "how actions that only look are composed"

lemma quiet_wp: "quiet m \<Longrightarrow> wp m (\<lambda>_ s. same_changes r s) (\<lambda>e s. \<not> is_refused e \<and> same_changes r s) r"
  by (simp add: quiet_def)

lemma quiet_seq [quiet_intros]:
  assumes "quiet m" "\<And>x. quiet (f x)"
  shows "quiet (bind_act m f)"
  unfolding quiet_def wp_bind
proof (intro allI, rule wp_mono [OF quiet_wp [OF assms(1)]], goal_cases)
  case (1 r x s)
  then show ?case by (intro wp_mono [OF quiet_wp [OF assms(2)]]) (auto simp: same_changes_def)
qed

lemma quiet_catch [quiet_intros]:
  assumes "quiet m" "\<And>e. \<not> is_refused e \<Longrightarrow> quiet (h e)"
  shows "quiet (catch_act m h)"
  unfolding quiet_def wp_catch
proof (intro allI, rule wp_mono [OF quiet_wp [OF assms(1)]], goal_cases)
  case (2 r e s)
  then show ?case by (intro wp_mono [OF quiet_wp [OF assms(2)]]) (auto simp: same_changes_def)
qed

lemma quiet_primitives [quiet_intros]:
  "quiet (return_act x)" "\<not> is_refused e \<Longrightarrow> quiet (raise_act e)" "quiet (runtime_error t)" "quiet get_run"
  "quiet (add_created ps)" "quiet (add_effect o')" "quiet (add_cleanup a d b reason)"
  by (simp_all add: quiet_def wp_simps same_changes_def changes_of_def add_created_def add_effect_def add_cleanup_def)

lemma quiet_observe [quiet_intros]:
  "quiet (exists_at w s p)" "quiet (stat_at w s p)" "quiet (list_at w s p)" "quiet (open_at w s p)"
  by (auto simp: quiet_def exists_at_def stat_at_def list_at_def open_at_def wp_observe Let_def same_changes_def
      changes_of_def split: sum.split)

lemma quiet_if [quiet_intros]: "(c \<Longrightarrow> quiet m) \<Longrightarrow> (\<not> c \<Longrightarrow> quiet n) \<Longrightarrow> quiet (if c then m else n)"
  by simp

lemma quiet_option [quiet_intros]:
  "quiet m \<Longrightarrow> (\<And>x. quiet (n x)) \<Longrightarrow> quiet (case v of None \<Rightarrow> m | Some x \<Rightarrow> n x)"
  by (cases v) simp_all

lemma quiet_map_act [quiet_intros]: "(\<And>x. quiet (f x)) \<Longrightarrow> quiet (map_act f xs)"
  by (induction xs) (auto intro!: quiet_intros)

lemma quiet_each [quiet_intros]: "(\<And>x. quiet (f x)) \<Longrightarrow> quiet (each_act f xs)"
  by (induction xs) (auto intro!: quiet_intros)

lemma quiet_capture [quiet_intros]: "quiet (capture_effect w p src dst s t marker)"
  unfolding capture_effect_def by (intro quiet_intros)

lemma quiet_missing [quiet_intros]: "quiet (missing_directories w s parent)"
  unfolding missing_directories_def by (intro quiet_intros)

lemma quiet_own_directory [quiet_intros]: "quiet (own_directory w dst d)"
  unfolding own_directory_def by (intro quiet_intros)

lemma quiet_verify [quiet_intros]:
  "quiet (verify_primary w p src dst s t n)" "quiet (verify_attachment w p src dst s t n)"
  unfolding verify_primary_def verify_attachment_def by (intro quiet_intros)+

lemma quiet_ready [quiet_intros]: "quiet (attachment_ready w storages a)"
  unfolding attachment_ready_def find_storage_def by (intro quiet_intros) simp_all

lemma quiet_type_changed [quiet_intros]: "quiet (some_type_changed w s es)"
  by (induction es) (auto intro!: quiet_intros)

lemma quiet_stop [quiet_intros]: "quiet (stop_directory d reason)" "quiet (stop_with_failure error)"
  unfolding stop_directory_def stop_with_failure_def by (intro quiet_intros)+

lemma quiet_absent [quiet_intros]: "quiet m \<Longrightarrow> quiet (or_absent x m)"
  unfolding or_absent_def by (intro quiet_intros)

section \<open>Failed changes\<close>

definition intact :: "run \<Rightarrow> bool" where
  "intact r = (\<forall>k c e. Changed k c (Inl e) \<notin> set (ru_log r))"

definition blunt :: "('a \<Rightarrow> bool) \<Rightarrow> 'a act \<Rightarrow> bool" where
  "blunt P m = (\<forall>r. intact r \<longrightarrow> wp m (\<lambda>x s. P x \<longrightarrow> intact s) (\<lambda>e s. is_refused e \<longrightarrow> intact s) r)"

named_theorems blunt_intros "how actions that fail bluntly are composed"

lemma blunt_wp: "blunt P m \<Longrightarrow> intact r \<Longrightarrow> wp m (\<lambda>x s. P x \<longrightarrow> intact s) (\<lambda>e s. is_refused e \<longrightarrow> intact s) r"
  by (simp add: blunt_def)

lemma intact_changes: "changes_of s = changes_of r \<Longrightarrow> intact s = intact r"
proof -
  have "Changed k c a \<in> set (ru_log s) \<longleftrightarrow> Changed k c a \<in> set (changes_of s)" for k c a s
    by (simp add: changes_of_def)
  then show "changes_of s = changes_of r \<Longrightarrow> intact s = intact r" by (simp add: intact_def)
qed

lemma blunt_quiet:
  assumes "quiet m"
  shows "blunt P m"
  unfolding blunt_def
proof (intro allI impI)
  fix r
  assume "intact r"
  then show "wp m (\<lambda>x s. P x \<longrightarrow> intact s) (\<lambda>e s. is_refused e \<longrightarrow> intact s) r"
    by (intro wp_mono [OF quiet_wp [OF assms]]) (auto simp: same_changes_def dest: intact_changes)
qed

lemmas blunt_looks [blunt_intros] =
  quiet_primitives [THEN blunt_quiet] quiet_observe [THEN blunt_quiet] quiet_capture [THEN blunt_quiet]
  quiet_missing [THEN blunt_quiet] quiet_own_directory [THEN blunt_quiet] quiet_verify [THEN blunt_quiet]
  quiet_type_changed [THEN blunt_quiet] quiet_stop [THEN blunt_quiet] quiet_absent [THEN blunt_quiet]

lemma blunt_local [blunt_intros]: "blunt P set_attempted" "blunt P (add_completed cs)" "blunt P (raise_act e)"
  by (simp_all add: blunt_def wp_simps set_attempted_def add_completed_def intact_def)

lemma blunt_authority [blunt_intros]: "blunt P (check_authority w b)"
  by (auto simp: blunt_def wp_authority intact_def split: option.split)

lemma blunt_change [blunt_intros]: "blunt P (change_at w s c)"
  by (auto simp: blunt_def change_at_def wp_observe Let_def intact_def split: sum.split)

lemma blunt_seq [blunt_intros]:
  assumes "blunt always m" "\<And>x. blunt Q (f x)"
  shows "blunt Q (bind_act m f)"
  unfolding blunt_def wp_bind
  by (intro allI impI, rule wp_mono [OF blunt_wp [OF assms(1)]]) (auto intro: blunt_wp [OF assms(2)])

text \<open>After a result that hides a failed change only results of the same kind may follow.\<close>

lemma blunt_bind:
  assumes "blunt P m" "\<And>x. P x \<Longrightarrow> blunt Q (f x)"
    "\<And>x r. \<not> P x \<Longrightarrow> wp (f x) (\<lambda>y _. \<not> Q y) (\<lambda>e _. \<not> is_refused e) r"
  shows "blunt Q (bind_act m f)"
  unfolding blunt_def wp_bind
proof (intro allI impI, rule wp_mono [OF blunt_wp [OF assms(1)]], goal_cases)
  case (2 r x s)
  show ?case
  proof (cases "P x")
    case True
    with 2 show ?thesis by (intro blunt_wp [OF assms(2)]) simp_all
  next
    case False
    then show ?thesis by (intro wp_mono [OF assms(3)]) auto
  qed
qed

lemma blunt_catch:
  assumes "blunt P m" "\<And>b v. blunt P (h (Refused b v))"
    "\<And>e r. \<not> is_refused e \<Longrightarrow> wp (h e) (\<lambda>y _. \<not> P y) (\<lambda>e' _. \<not> is_refused e') r"
  shows "blunt P (catch_act m h)"
  unfolding blunt_def wp_catch
proof (intro allI impI, rule wp_mono [OF blunt_wp [OF assms(1)]], goal_cases)
  case (3 r e s)
  show ?case
  proof (cases "is_refused e")
    case True
    then obtain b v where "e = Refused b v" by (auto simp: is_refused_def split: fault.splits)
    with 3 True show ?thesis by (auto intro: blunt_wp [OF assms(2)])
  next
    case False
    then show ?thesis by (intro wp_mono [OF assms(3)]) auto
  qed
qed

lemma blunt_if [blunt_intros]: "(c \<Longrightarrow> blunt P m) \<Longrightarrow> (\<not> c \<Longrightarrow> blunt P n) \<Longrightarrow> blunt P (if c then m else n)"
  by simp

lemma blunt_option [blunt_intros]:
  "(v = None \<Longrightarrow> blunt P m) \<Longrightarrow> (\<And>x. v = Some x \<Longrightarrow> blunt P (n x)) \<Longrightarrow> blunt P (case v of None \<Rightarrow> m | Some x \<Rightarrow> n x)"
  by (cases v) simp_all

lemma blunt_each [blunt_intros]: "(\<And>x. blunt always (f x)) \<Longrightarrow> blunt P (each_act f xs)"
  by (induction xs) (auto intro!: blunt_intros)

lemma blunt_own_effects [blunt_intros]:
  assumes "blunt P m"
  shows "blunt P (own_effects m)"
  unfolding blunt_def wp_own_effects
  by (intro allI impI, rule wp_mono [OF blunt_wp [OF assms]]) (auto simp: intact_def)

lemma blunt_stream [blunt_intros]: "blunt P (stream_to w src s dst t ow)"
  unfolding stream_to_def by (intro blunt_intros)

lemma blunt_delete_moved [blunt_intros]: "blunt P (delete_moved w prefix src dst s t)"
  unfolding delete_moved_def by (intro blunt_intros)

lemma blunt_after_copy [blunt_intros]: "blunt P m \<Longrightarrow> blunt P (after_copy m)"
  unfolding after_copy_def
  by (rule blunt_catch) (auto simp: wp_simps split: fault.split intro: blunt_intros)

section \<open>The executor fails bluntly\<close>

lemma blunt_mutate: "blunt P (mutate w p src dst s t marker)"
  unfolding mutate_def Let_def
  by (cases "pl_operation p"; simp only: plan_operation.case; intro blunt_intros)

lemma blunt_record: "blunt P (mutate_and_record w p src dst s t marker)"
proof -
  have handler: "wp (bind_act (capture_effect w p src dst s t marker) (\<lambda>found.
      bind_act (case found of None \<Rightarrow> return_act () | Some x \<Rightarrow> add_effect x) (\<lambda>_. raise_act e)))
      (\<lambda>y _. \<not> Q y) (\<lambda>e' _. \<not> is_refused e') r" if "\<not> is_refused e" for e r Q
    unfolding wp_bind
    by (rule wp_mono [OF quiet_wp [OF quiet_capture]])
      (use that in \<open>auto simp: wp_simps add_effect_def split: option.split\<close>)
  have "blunt Q (catch_act (mutate w p src dst s t marker) (\<lambda>e.
      if ordinary e
      then bind_act (capture_effect w p src dst s t marker) (\<lambda>found.
        bind_act (case found of None \<Rightarrow> return_act () | Some x \<Rightarrow> add_effect x) (\<lambda>_. raise_act e))
      else raise_act e))" for Q
    by (rule blunt_catch [OF blunt_mutate])
      (auto simp: wp_raise ordinary_def handler intro!: blunt_intros)
  then show ?thesis
    unfolding mutate_and_record_def
    by (intro blunt_if blunt_mutate blunt_seq [OF \<open>blunt always _\<close>] blunt_intros)
qed

lemma blunt_ensure_parent: "blunt P (ensure_parent w p dst parent)"
  unfolding ensure_parent_def create_parent_def Let_def by (intro blunt_intros)

lemma blunt_primary: "blunt P (primary w p src dst s t)"
  unfolding primary_def
  by (intro blunt_seq [OF blunt_ensure_parent] blunt_seq [OF blunt_record] blunt_intros)

text \<open>An attachment whose change failed says so, whatever else happens to it.\<close>

definition vouched :: "attachment_status \<Rightarrow> certainty \<Rightarrow> bool" where
  "vouched status certainty = (status = AttachmentSuccess \<or> certainty \<notin> {UnknownEffect, AttemptedUnverified})"

definition vouched_outcome :: "attachment_outcome \<Rightarrow> bool" where
  "vouched_outcome o' = vouched (fst o') (fst (snd (snd o')))"

lemma attachment_fault_admits:
  "\<not> is_refused e \<Longrightarrow> wp (attachment_fault marker steps e) (\<lambda>o' _. \<not> vouched_outcome o') (\<lambda>e' _. \<not> is_refused e') r"
  by (cases e)
    (auto simp: attachment_fault_def Let_def wp_simps add_completed_def vouched_outcome_def vouched_def)

lemma blunt_refused_attachment: "blunt P (attachment_fault marker steps (Refused b v))"
  by (auto simp: attachment_fault_def refused_attachment_def Let_def intro!: blunt_intros)

lemma blunt_change_attachment: "blunt vouched_outcome (change_attachment w p a src dst n)"
proof -
  have tried: "blunt vouched_outcome (catch_act m (attachment_fault marker steps))" if "quiet m" for m marker steps
    by (rule blunt_catch) (auto intro: blunt_quiet that blunt_refused_attachment attachment_fault_admits)
  have looked: "quiet (bind_act (verify_attachment w p src dst s t n) (\<lambda>_. return_act x))" for s t x
    by (intro quiet_intros)
  have change: "blunt (\<lambda>v. case v of None \<Rightarrow> True | Some o' \<Rightarrow> vouched_outcome o')
     (catch_act (bind_act (own_effects (mutate_and_record w p' src dst s t marker)) (\<lambda>_. return_act None))
       (\<lambda>e. bind_act (attachment_fault marker [] e) (\<lambda>o'. return_act (Some o'))))" for p' s t marker
  proof (rule blunt_catch, goal_cases)
    case (3 e r)
    then show ?case
      unfolding wp_bind by (intro wp_mono [OF attachment_fault_admits]) (auto simp: wp_simps)
  qed (intro blunt_seq [OF blunt_own_effects [OF blunt_record]] blunt_seq [OF blunt_refused_attachment] blunt_intros)+
  show ?thesis
    unfolding change_attachment_def Let_def
    by (rule blunt_bind [OF change])
      (auto simp: wp_simps split: option.splits intro!: blunt_seq blunt_intros tried looked)
qed

lemma blunt_execute_attachment: "blunt vouched_outcome (execute_attachment w p storages stopped taken a)"
proof -
  have ready: "quiet (catch_act (attachment_ready w storages a)
      (\<lambda>e. if ordinary e \<or> key_error e then return_act (Inl ''storage_unavailable'') else raise_act e))"
    by (intro quiet_intros)
  show ?thesis
    unfolding execute_attachment_def
    by (intro blunt_if blunt_seq [OF blunt_quiet [OF ready]] blunt_intros)
      (auto split: sum.split intro!: blunt_change_attachment blunt_intros)
qed

abbreviation all_vouched :: "attachment_result list \<Rightarrow> bool" where
  "all_vouched \<equiv> list_all (\<lambda>a. vouched (ar_status a) (ar_certainty a))"

text \<open>No refusal leaves an attachment: it is a result.\<close>

definition tame :: "'a act \<Rightarrow> bool" where
  "tame m = (\<forall>r. wp m (\<lambda>_ _. True) (\<lambda>e _. \<not> is_refused e) r)"

lemma tame_wp: "tame m \<Longrightarrow> wp m (\<lambda>_ _. True) (\<lambda>e _. \<not> is_refused e) r"
  by (simp add: tame_def)

lemma tame_seq: "tame m \<Longrightarrow> (\<And>x. tame (f x)) \<Longrightarrow> tame (bind_act m f)"
  unfolding tame_def wp_bind by (blast intro: wp_mono)

lemma tame_catch: "(\<And>e. tame (h e)) \<Longrightarrow> tame (catch_act m h)"
  unfolding tame_def wp_catch by (auto intro: wp_intro)

lemma tame_quiet: "quiet m \<Longrightarrow> tame m"
  unfolding tame_def by (blast intro: wp_mono quiet_wp)

lemma tame_fault: "tame (attachment_fault marker steps e)"
  unfolding tame_def
  by (cases e) (auto simp: attachment_fault_def refused_attachment_def Let_def wp_simps add_completed_def)

lemma tame_local: "tame (return_act x)" "tame (add_completed cs)"
  by (simp_all add: tame_def wp_simps add_completed_def)

lemma tame_change_attachment: "tame (change_attachment w p a src dst n)"
  unfolding change_attachment_def Let_def
  by (intro tame_seq tame_catch tame_fault tame_local) (auto split: option.split intro!: tame_seq tame_catch tame_fault tame_local)

lemma tame_execute_attachment: "tame (execute_attachment w p storages stopped taken a)"
proof -
  have ready: "quiet (catch_act (attachment_ready w storages a)
      (\<lambda>e. if ordinary e \<or> key_error e then return_act (Inl ''storage_unavailable'') else raise_act e))"
    by (intro quiet_intros)
  show ?thesis
    unfolding execute_attachment_def
    by (auto intro!: tame_seq [OF tame_quiet [OF ready]] tame_local tame_change_attachment split: sum.split)
qed

lemma tame_execute_attachments: "tame (execute_attachments w p storages stopped taken as)"
  by (induction as arbitrary: stopped taken)
    (auto intro!: tame_seq tame_local tame_execute_attachment split: prod.split)

lemma attachment_document_fields [simp]:
  "ar_status (attachment_result_document p a status reason certainty steps) = status"
  "ar_certainty (attachment_result_document p a status reason certainty steps) = certainty"
  by (simp_all add: attachment_result_document_def)

lemma blunt_execute_attachments: "blunt all_vouched (execute_attachments w p storages stopped taken as)"
proof (induction as arbitrary: stopped taken)
  case (Cons a as)
  have rest: "blunt all_vouched (bind_act (execute_attachments w p storages stop taken' as) (\<lambda>rest.
      return_act (attachment_result_document p a status reason certainty steps # rest)))"
    for stop taken' status reason certainty steps
    by (rule blunt_bind [OF Cons.IH]) (auto simp: wp_simps intro!: blunt_intros)
  show ?case
    unfolding execute_attachments.simps
  proof (rule blunt_bind [OF blunt_execute_attachment], goal_cases)
    case (1 o')
    show ?case by (auto split: prod.split intro!: rest)
  next
    case (2 o' r)
    obtain status reason certainty steps stop where o': "o' = (status, reason, certainty, steps, stop)"
      by (metis prod.exhaust)
    from 2 show ?case
      unfolding o' prod.case wp_bind
      by (intro wp_mono [OF tame_wp [OF tame_execute_attachments]]) (auto simp: wp_simps vouched_outcome_def)
  qed
qed (auto intro!: blunt_intros)

end
