(* ===== verification/Execution_Outcome.thy ===== *)
theory Execution_Outcome
  imports Execution_Certainty "HOL-Library.Sublist"
begin

text \<open>The certainty of the results: of the cleanup, of what follows the primary, of a whole execution.\<close>

section \<open>Complete means that nothing failed\<close>

definition tidy :: "cleanup_status \<times> string option \<Rightarrow> bool" where
  "tidy x = (fst x \<notin> {CleanupPartial, CleanupFailed})"

lemma blunt_delete_ignored [blunt_intros]: "blunt P (delete_ignored w s d e)"
  unfolding delete_ignored_def by (intro blunt_intros)

lemma blunt_clean_entries [blunt_intros]: "blunt P (clean_entries w p s d es)"
  unfolding clean_entries_def Let_def by (intro blunt_intros)

lemma blunt_clean_directory [blunt_intros]: "blunt P (clean_directory w p s d)"
  unfolding clean_directory_def by (intro blunt_intros quiet_observe)

lemma blunt_clean_directories [blunt_intros]: "blunt P (clean_directories w p s library n d)"
proof (induction n arbitrary: d P)
  case (Suc n)
  show ?case unfolding clean_directories.simps by (intro blunt_intros Suc.IH)
qed (auto intro!: blunt_intros)

lemma blunt_cleanup: "blunt tidy (cleanup_source_directories w p s storage_source)"
proof -
  have try': "blunt tidy (catch_act m (\<lambda>e. case e of
           Refused b _ \<Rightarrow> return_act (CleanupRefused, Some (authority_error b))
         | _ \<Rightarrow>
             if ordinary e
             then bind_act get_run (\<lambda>r.
               return_act (if ru_cleanup r \<noteq> [] then CleanupPartial else CleanupFailed, Some (bounded_error e)))
             else raise_act e))" if "blunt tidy m" for m
    by (rule blunt_catch [OF that])
      (auto simp: wp_simps tidy_def split: fault.split intro!: blunt_intros)
  show ?thesis
    unfolding cleanup_source_directories_def Let_def
    by (intro blunt_if blunt_looks try' blunt_seq blunt_clean_directories)
qed

definition claims_complete :: "execution_result \<Rightarrow> bool" where
  "claims_complete x = (er_certainty x = VerifiedComplete \<and> er_cleanup x \<noteq> CleanupPartial)"

lemma attachments_result_fields:
  "er_certainty (attachments_result p base ats) =
     (if list_ex (\<lambda>a. ar_certainty a \<in> {UnknownEffect, AttemptedUnverified}) ats then AttemptedUnverified else VerifiedComplete)"
  "er_primary (attachments_result p base ats) = er_primary base"
  by (simp_all add: attachments_result_def Let_def)

lemma cleanup_result_fields:
  "er_certainty (cleanup_result base status error) = (if status = CleanupFailed then AttemptedUnverified else VerifiedComplete)"
  "er_cleanup (cleanup_result base status error) = status"
  "er_primary (cleanup_result base status error) = er_primary base"
  by (cases status; simp add: cleanup_result_def Let_def)+

lemma blunt_after_primary: "blunt claims_complete (after_primary w p storages src s plan_id display)"
proof -
  let ?all = "\<lambda>ats. list_all (\<lambda>a. vouched (ar_status a) (ar_certainty a)) ats"
  have some: "\<not> claims_complete (attachments_result p base ats)"
    if "\<not> ?all ats" for base ats
    using that
    by (auto simp: claims_complete_def attachments_result_fields list_all_iff list_ex_iff vouched_def)
  have failed: "list_ex (\<lambda>a. ar_status a \<noteq> AttachmentSuccess) ats" if "\<not> ?all ats" for ats
    using that by (auto simp: list_all_iff list_ex_iff vouched_def)
  have clean: "blunt claims_complete (bind_act (cleanup_source_directories w p src s) (\<lambda>(status, error).
      bind_act get_run (\<lambda>r. return_act (cleanup_result (f r) status error))))" for f
    by (rule blunt_bind [OF blunt_cleanup])
      (auto simp: wp_simps tidy_def claims_complete_def cleanup_result_fields split: prod.split intro!: blunt_intros)
  show ?thesis
    unfolding after_primary_def
  proof (rule blunt_bind [OF blunt_execute_attachments], goal_cases)
    case (1 ats)
    show ?case by (intro blunt_if clean blunt_seq blunt_looks)
  next
    case (2 ats r)
    then show ?case by (simp add: failed some wp_simps)
  qed
qed

lemma wp_any: "(\<And>x s. Q x s) \<Longrightarrow> (\<And>e s. E e s) \<Longrightarrow> wp m Q E r"
  by (rule wp_intro)

lemma failure_never_complete:
  "wp (failure_result w p plan_id display e) (\<lambda>x _. er_certainty x \<noteq> VerifiedComplete) (\<lambda>_ _. True) r"
proof -
  have rest: "wp (bind_act (rollback w b os) (\<lambda>steps. return_act (f steps))) (\<lambda>x _. er_certainty x \<noteq> VerifiedComplete) (\<lambda>_ _. True) r"
    if "\<And>steps. er_certainty (f steps) \<noteq> VerifiedComplete" for b os f r
    unfolding wp_bind wp_return by (rule wp_any) (simp_all add: that)
  show ?thesis
    unfolding failure_result_def Let_def wp_bind [where m = get_run] wp_get_run
    by (auto simp: wp_return intro!: rest split: if_splits)
qed

lemma intact_completed [simp]: "intact (s\<lparr>ru_completed := x\<rparr>) = intact s"
  by (simp add: intact_def)

lemma wp_add_completed [wp_simps]:
  "wp (add_completed cs) Q E s = Q () (s\<lparr>ru_completed := ru_completed s @ cs\<rparr>)"
  by (simp add: add_completed_def wp_local)

lemma execute_checked_complete:
  assumes "intact r"
  shows "wp (execute_checked w p storages src dst s t plan_id display)
    (\<lambda>x s'. claims_complete x \<longrightarrow> intact s') (\<lambda>_ _. True) r"
proof -
  have refused: "blunt P (authority_failure_result p plan_id display b v)" for P b v
    unfolding authority_failure_result_def Let_def by (intro blunt_intros)
  note failed = wp_mono [OF failure_never_complete]
  show ?thesis
    unfolding execute_checked_def wp_bind wp_catch
  proof (rule wp_mono [OF blunt_wp [OF blunt_primary [where P = always] assms]], goal_cases)
    case (1 x s')
    then show ?case
      by (cases x) (auto simp: wp_simps intro!: wp_mono [OF blunt_wp [OF blunt_after_primary]])
  next
    case (2 e s')
    then show ?case
      by (cases e)
        (auto simp: wp_simps claims_complete_def
          intro!: failed wp_mono [OF blunt_wp [OF refused [where P = always]]])
  qed
qed

section \<open>No effect means that nothing was tried\<close>

definition untouched :: "run \<Rightarrow> bool" where
  "untouched r = (changes_of r = [])"

definition accounted :: "run \<Rightarrow> bool" where
  "accounted r = (untouched r \<or> ru_attempted r \<and> ru_completed r \<noteq> [])"

definition admitted :: "fault \<Rightarrow> run \<Rightarrow> bool" where
  "admitted e s =
     (untouched s \<or> (case e of Refused b v \<Rightarrow> ru_completed s \<noteq> [] \<or> v \<noteq> [] | _ \<Rightarrow> ru_attempted s))"

lemma same_untouched: "same_changes r s \<Longrightarrow> untouched s = untouched r"
  by (simp add: same_changes_def untouched_def)

lemma same_accounted: "same_changes r s \<Longrightarrow> accounted s = accounted r"
  by (simp add: same_changes_def untouched_def accounted_def)

lemma plain_admitted: "\<not> is_refused e \<Longrightarrow> untouched s \<or> ru_attempted s \<Longrightarrow> admitted e s"
  by (cases e) (auto simp: admitted_def)

lemma untouched_asked [simp]: "untouched (r\<lparr>ru_log := ru_log r @ [Asked b ok]\<rparr>) = untouched r"
  by (simp add: untouched_def changes_of_def)

lemma untouched_locals [simp]:
  "untouched (r\<lparr>ru_attempted := b\<rparr>) = untouched r" "untouched (r\<lparr>ru_completed := cs\<rparr>) = untouched r"
  by (simp_all add: untouched_def changes_of_def)

lemma wp_quiet:
  assumes "quiet m" "\<And>x s. same_changes r s \<Longrightarrow> Q x s" "\<And>e s. \<not> is_refused e \<Longrightarrow> same_changes r s \<Longrightarrow> E e s"
  shows "wp m Q E r"
  by (rule wp_mono [OF quiet_wp [OF assms(1)]]) (use assms(2,3) in auto)

lemma same_plain: "\<not> is_refused e \<Longrightarrow> same_changes r s \<Longrightarrow> untouched r \<or> ru_attempted r \<Longrightarrow> admitted e s"
  by (rule plain_admitted) (auto simp: same_changes_def untouched_def)

lemma wp_change:
  assumes "\<And>e h. E (External e) (r\<lparr>ru_log := h\<rparr>)" "\<And>h. Q () (r\<lparr>ru_log := h\<rparr>)"
  shows "wp (change_at w s c) Q E r"
  using assms by (auto simp: change_at_def wp_observe Let_def split: sum.split)

lemma wp_ask:
  assumes "\<And>h. untouched (r\<lparr>ru_log := h\<rparr>) = untouched r \<Longrightarrow> E (Refused b []) (r\<lparr>ru_log := h\<rparr>)"
    "\<And>h. untouched (r\<lparr>ru_log := h\<rparr>) = untouched r \<Longrightarrow> Q () (r\<lparr>ru_log := h\<rparr>)"
  shows "wp (check_authority w b) Q E r"
  using assms(1) [of "ru_log r @ [Asked b False]"] assms(2) [of "ru_log r"] assms(2) [of "ru_log r @ [Asked b True]"]
  by (auto simp: wp_authority split: option.split)

lemma ensure_parent_admits:
  assumes "untouched r"
  shows "wp (ensure_parent w p dst parent) (\<lambda>_. accounted) admitted r"
proof -
  have create: "wp (create_parent w p dst parent) (\<lambda>_. accounted) admitted r" if "untouched r" for r
    unfolding create_parent_def Let_def wp_bind
  proof (rule wp_quiet, goal_cases)
    case 1
    show ?case by (intro quiet_intros)
  next
    case (2 missing s)
    with that have s: "untouched s" by (simp add: same_untouched)
    have last: "wp (if b then each_act (own_directory w dst) missing else return_act ()) (\<lambda>_. accounted) admitted t"
      if "ru_attempted t" "ru_completed t \<noteq> []" for b t
    proof (rule wp_quiet, goal_cases)
      case 1
      show ?case by (intro quiet_intros)
    qed (use that in \<open>auto simp: accounted_def same_changes_def untouched_def intro!: plain_admitted\<close>)
    show ?case
      by (intro wp_ask) (auto simp: set_attempted_def add_created_def wp_simps admitted_def s intro!: wp_change last split del: if_split)
  next
    case (3 e s)
    with that show ?case by (auto intro: same_plain)
  qed
  show ?thesis
    unfolding ensure_parent_def
  proof (cases "parent = []")
    case False
    have "wp (exists_at w dst parent) (\<lambda>found. wp (if found then return_act () else create_parent w p dst parent) (\<lambda>_. accounted) admitted) admitted r"
    proof (rule wp_quiet [OF quiet_observe(1)], goal_cases)
      case (1 x s)
      with assms show ?case by (auto simp: wp_simps accounted_def same_untouched intro!: create)
    next
      case (2 e s)
      with assms show ?case by (auto intro: same_plain)
    qed
    with False show "wp (if parent = [] then return_act ()
      else bind_act (exists_at w dst parent) (\<lambda>found. if found then return_act () else create_parent w p dst parent))
      (\<lambda>_. accounted) admitted r" by (simp add: wp_bind)
  qed (use assms in \<open>simp add: wp_return accounted_def\<close>)
qed

text \<open>The change itself: refused before anything was done, after a complete step, or attempted.\<close>

lemma mutate_admits:
  assumes "ru_attempted r" "untouched r \<or> ru_completed r \<noteq> []"
  shows "wp (mutate w p src dst s t marker) (\<lambda>_ s'. ru_attempted s') admitted r"
proof -
  have stream: "wp (stream_to w src s dst t ow) (\<lambda>_ s'. ru_attempted s') (\<lambda>e s'. \<not> is_refused e \<and> ru_attempted s') r"
    if "ru_attempted r" for r ow
    unfolding stream_to_def wp_bind
    by (rule wp_quiet [OF quiet_observe(4)]) (use that in \<open>auto simp: same_changes_def intro!: wp_change\<close>)
  have moved: "wp (delete_moved w prefix src dst s t) (\<lambda>_ s'. ru_attempted s') (\<lambda>_ s'. ru_attempted s') r"
    if "ru_attempted r" for prefix r
    unfolding delete_moved_def wp_bind exists_at_def stat_at_def
    using that by (auto simp: wp_observe Let_def wp_simps intro!: wp_ask wp_change split: sum.split)
  have second: "wp (after_copy (delete_moved w prefix src dst s t)) (\<lambda>_ s'. ru_attempted s') admitted r"
    if "ru_attempted r" for prefix r
    unfolding after_copy_def wp_catch
    by (rule wp_mono [OF moved]) (use that in \<open>auto simp: wp_simps admitted_def split: fault.split\<close>)
  have ask: "wp (check_authority w b) Q admitted r" if "\<And>h. Q () (r\<lparr>ru_log := h\<rparr>)" for b Q
    by (rule wp_ask) (use assms that in \<open>auto simp: admitted_def\<close>)
  have change: "wp (change_at w st c) (\<lambda>_ s'. ru_attempted s') admitted (r\<lparr>ru_log := h\<rparr>)" for st c h
    by (rule wp_change) (use assms in \<open>auto simp: admitted_def\<close>)
  have copied: "wp (stream_to w src s dst t ow) (\<lambda>_ s'. ru_attempted s') admitted (r\<lparr>ru_log := h\<rparr>)" for ow h
    by (rule wp_mono [OF stream]) (use assms in \<open>auto intro: plain_admitted\<close>)
  have across: "wp (bind_act (stream_to w src s dst t ow) (\<lambda>_. after_copy (delete_moved w prefix src dst s t)))
      (\<lambda>_ s'. ru_attempted s') admitted (r\<lparr>ru_log := h\<rparr>)" for ow prefix h
    unfolding wp_bind by (rule wp_mono [OF stream]) (use assms in \<open>auto intro: plain_admitted second\<close>)
  have error: "wp (runtime_error x) (\<lambda>_ s'. ru_attempted s') admitted r" for x
    by (simp add: wp_runtime_error admitted_def assms)
  show ?thesis
    unfolding mutate_def Let_def
    by (cases "pl_operation p")
      (auto simp: wp_bind [where m = "check_authority _ _"] intro!: ask change copied across error)
qed

lemma record_admits:
  assumes "ru_attempted r" "untouched r \<or> ru_completed r \<noteq> []"
  shows "wp (mutate_and_record w p src dst s t marker) (\<lambda>_ s'. ru_attempted s') admitted r"
proof -
  note m = mutate_admits [OF assms]
  have capture: "wp (capture_effect w p src dst s t marker) Q admitted s'"
    if "ru_attempted s'" "\<And>x s''. ru_attempted s'' \<Longrightarrow> Q x s''" for Q s'
    by (rule wp_quiet [OF quiet_capture]) (use that in \<open>auto simp: same_changes_def intro: plain_admitted\<close>)
  show ?thesis
  proof (cases "rb_enabled (pl_rollback p)")
    case True
    have "wp (catch_act (mutate w p src dst s t marker) (\<lambda>e.
           if ordinary e
           then bind_act (capture_effect w p src dst s t marker) (\<lambda>found.
             bind_act (case found of None \<Rightarrow> return_act () | Some x \<Rightarrow> add_effect x) (\<lambda>_. raise_act e))
           else raise_act e)) (\<lambda>_ s'. ru_attempted s') admitted r"
      unfolding wp_catch
    proof (rule wp_mono [OF m], goal_cases)
      case (2 e s')
      have "wp (bind_act (capture_effect w p src dst s t marker) (\<lambda>found.
             bind_act (case found of None \<Rightarrow> return_act () | Some x \<Rightarrow> add_effect x) (\<lambda>_. raise_act e)))
           (\<lambda>_ s'. ru_attempted s') admitted s'" if "ordinary e"
      proof -
        have "\<not> is_refused e" using that by (auto simp: ordinary_def split: fault.splits)
        with 2 show ?thesis
          unfolding wp_bind
          by (intro wp_quiet [OF quiet_capture])
            (auto simp: wp_simps add_effect_def admitted_def same_changes_def untouched_def changes_of_def
              split: option.split fault.splits)
      qed
      with 2 show ?case by (auto simp: wp_raise)
    qed simp
    then show ?thesis
      unfolding mutate_and_record_def wp_bind
      using True
      by (auto simp: wp_simps add_effect_def admitted_def elim!: wp_mono intro!: capture split: option.split)
  qed (use m in \<open>simp add: mutate_and_record_def\<close>)
qed

lemma primary_admits:
  assumes "untouched r"
  shows "wp (primary w p src dst s t) (\<lambda>x s'. x = None \<or> untouched s') admitted r"
proof -
  have look: "wp m Q admitted r" if "quiet m" "untouched r" "\<And>x s'. untouched s' \<Longrightarrow> Q x s'" for m :: "'x act" and Q r
    by (rule wp_quiet [OF that(1)]) (use that in \<open>auto simp: same_untouched intro: same_plain\<close>)
  have last: "wp (verify_primary w p src dst s t n) Q admitted s'"
    if "ru_attempted s'" "\<And>x s'. Q x s'" for Q s' n
    by (rule wp_quiet [OF quiet_verify(1)]) (use that in \<open>auto simp: same_changes_def intro: plain_admitted\<close>)
  show ?thesis
    unfolding primary_def wp_bind
    using assms
    by (auto simp: wp_simps set_attempted_def accounted_def
        intro!: look [OF quiet_observe(1)] look [OF quiet_observe(2)]
          wp_mono [OF ensure_parent_admits] wp_mono [OF record_admits] last)
qed

definition claims_nothing :: "execution_result \<Rightarrow> bool" where
  "claims_nothing x = (er_certainty x = NoEffect \<and> er_rollback x \<noteq> RollbackSuccess)"

lemma failure_claims:
  assumes "untouched r \<or> ru_attempted r"
  shows "wp (failure_result w p plan_id display e) (\<lambda>x s. claims_nothing x \<longrightarrow> untouched s) (\<lambda>_ _. True) r"
proof -
  have rest: "wp (bind_act (rollback w b os) (\<lambda>steps. return_act (f steps))) (\<lambda>x s. claims_nothing x \<longrightarrow> untouched s) (\<lambda>_ _. True) r"
    if "\<And>steps. \<not> claims_nothing (f steps)" for b os f r
    unfolding wp_bind wp_return by (rule wp_any) (simp_all add: that)
  show ?thesis
    unfolding failure_result_def Let_def wp_bind [where m = get_run] wp_get_run
    using assms
    by (auto simp: wp_return intro!: rest) (auto simp: claims_nothing_def split: if_splits)
qed

lemma after_primary_claims:
  "wp (after_primary w p storages src s plan_id display) (\<lambda>x _. er_certainty x \<noteq> NoEffect) (\<lambda>_ _. True) r"
proof -
  have clean: "wp (bind_act (cleanup_source_directories w p src s) (\<lambda>(status, error).
      bind_act get_run (\<lambda>r. return_act (cleanup_result (f r) status error))))
      (\<lambda>x _. er_certainty x \<noteq> NoEffect) (\<lambda>_ _. True) r" for f r
    unfolding wp_bind by (rule wp_any) (auto simp: wp_simps cleanup_result_fields split: prod.split)
  show ?thesis
    unfolding after_primary_def wp_bind [where m = "execute_attachments _ _ _ _ _ _"]
    by (rule wp_any) (auto simp: wp_bind [where m = get_run] wp_get_run wp_return attachments_result_fields intro!: clean)
qed

lemma execute_checked_nothing:
  assumes "untouched r"
  shows "wp (execute_checked w p storages src dst s t plan_id display)
    (\<lambda>x s'. claims_nothing x \<longrightarrow> untouched s') (\<lambda>_ _. True) r"
proof -
  have refused: "wp (authority_failure_result p plan_id display b v) (\<lambda>x s'. claims_nothing x \<longrightarrow> untouched s') (\<lambda>_ _. True) s"
    if "admitted (Refused b v) s" for b v s
    unfolding authority_failure_result_def Let_def
    using that by (auto simp: wp_simps claims_nothing_def admitted_def)
  show ?thesis
    unfolding execute_checked_def wp_bind wp_catch
  proof (rule wp_mono [OF primary_admits [OF assms]], goal_cases)
    case (1 x s')
    then show ?case
      by (cases x) (auto simp: wp_simps claims_nothing_def intro!: wp_mono [OF after_primary_claims])
  next
    case (2 e s')
    then show ?case
      by (cases e)
        (auto simp: wp_simps admitted_def claims_nothing_def
          intro!: wp_mono [OF refused] wp_mono [OF failure_claims])
  qed
qed

section \<open>A verified primary\<close>

text \<open>Every action only extends the history.\<close>

definition grows :: "'a act \<Rightarrow> bool" where
  "grows m = (\<forall>r. wp m (\<lambda>_ s. prefix (ru_log r) (ru_log s)) (\<lambda>_ s. prefix (ru_log r) (ru_log s)) r)"

named_theorems grows_intros "how actions that extend the history are composed"

lemma grows_wp: "grows m \<Longrightarrow> wp m (\<lambda>_ s. prefix (ru_log r) (ru_log s)) (\<lambda>_ s. prefix (ru_log r) (ru_log s)) r"
  by (simp add: grows_def)

lemma grows_seq [grows_intros]:
  assumes "grows m" "\<And>x. grows (f x)"
  shows "grows (bind_act m f)"
  unfolding grows_def wp_bind
proof (intro allI, rule wp_mono [OF grows_wp [OF assms(1)]], goal_cases)
  case (1 r x s)
  then show ?case by (intro wp_mono [OF grows_wp [OF assms(2)]]) (auto intro: prefix_order.trans)
qed

lemma grows_catch [grows_intros]:
  assumes "grows m" "\<And>e. grows (h e)"
  shows "grows (catch_act m h)"
  unfolding grows_def wp_catch
proof (intro allI, rule wp_mono [OF grows_wp [OF assms(1)]], goal_cases)
  case (2 r e s)
  then show ?case by (intro wp_mono [OF grows_wp [OF assms(2)]]) (auto intro: prefix_order.trans)
qed

lemma grows_primitives [grows_intros]:
  "grows (return_act x)" "grows (raise_act e)" "grows (runtime_error t)" "grows get_run" "grows set_attempted"
  "grows (add_created ps)" "grows (add_completed cs)" "grows (add_effect o')" "grows (add_cleanup a d b reason)"
  by (simp_all add: grows_def wp_simps add_created_def add_completed_def add_effect_def add_cleanup_def set_attempted_def)

lemma grows_events [grows_intros]:
  "grows (exists_at w s p)" "grows (stat_at w s p)" "grows (list_at w s p)" "grows (open_at w s p)"
  "grows (change_at w s c)" "grows (check_authority w b)"
  by (auto simp: grows_def exists_at_def stat_at_def list_at_def open_at_def change_at_def wp_observe wp_authority
      Let_def split: sum.split option.split)

lemma grows_branches [grows_intros]:
  "(c \<Longrightarrow> grows m) \<Longrightarrow> (\<not> c \<Longrightarrow> grows n) \<Longrightarrow> grows (if c then m else n)"
  "grows m \<Longrightarrow> (\<And>x. grows (f x)) \<Longrightarrow> grows (case v of None \<Rightarrow> m | Some x \<Rightarrow> f x)"
  "(\<And>x. grows (g x)) \<Longrightarrow> (\<And>y. grows (h y)) \<Longrightarrow> grows (case u of Inl x \<Rightarrow> g x | Inr y \<Rightarrow> h y)"
  "(\<And>x y. grows (k x y)) \<Longrightarrow> grows (case q of (x, y) \<Rightarrow> k x y)"
  "(\<And>x. grows (a x)) \<Longrightarrow> (\<And>x y. grows (b x y)) \<Longrightarrow> (\<And>x y. grows (d x y)) \<Longrightarrow>
    grows (case e of External x \<Rightarrow> a x | PartialFault x y \<Rightarrow> b x y | Refused x y \<Rightarrow> d x y)"
  by (simp_all split: option.split sum.split prod.split fault.split)

lemma grows_lists [grows_intros]:
  "(\<And>x. grows (f x)) \<Longrightarrow> grows (each_act f xs)"
  "(\<And>x. grows (g x)) \<Longrightarrow> grows (map_act g xs)"
  by (induction xs) (auto intro!: grows_intros)

lemma grows_own_effects [grows_intros]:
  assumes "grows m"
  shows "grows (own_effects m)"
  unfolding grows_def wp_own_effects
proof
  fix r
  show "wp m (\<lambda>_ s. prefix (ru_log r) (ru_log (s\<lparr>ru_effects := ru_effects r\<rparr>)))
      (\<lambda>_ s. prefix (ru_log r) (ru_log (s\<lparr>ru_effects := ru_effects r\<rparr>))) (r\<lparr>ru_effects := []\<rparr>)"
    by (rule wp_mono [OF grows_wp [OF assms]]) simp_all
qed

lemma grows_stream [grows_intros]: "grows (stream_to w src s dst t ow)"
  unfolding stream_to_def by (intro grows_intros)

lemma grows_mutate [grows_intros]: "grows (mutate w p src dst s t marker)"
  unfolding mutate_def Let_def after_copy_def delete_moved_def
  by (cases "pl_operation p"; simp only: plan_operation.case; intro grows_intros)

lemma grows_record [grows_intros]: "grows (mutate_and_record w p src dst s t marker)"
  unfolding mutate_and_record_def capture_effect_def by (intro grows_intros)

lemma grows_ensure_parent [grows_intros]: "grows (ensure_parent w p dst parent)"
  unfolding ensure_parent_def create_parent_def missing_directories_def own_directory_def Let_def
  by (intro grows_intros)

lemma grows_fault [grows_intros]: "grows (attachment_fault marker steps e)"
  unfolding attachment_fault_def refused_attachment_def Let_def by (intro grows_intros)

lemma grows_execute_attachment [grows_intros]: "grows (execute_attachment w p storages stopped taken a)"
  unfolding execute_attachment_def change_attachment_def attachment_ready_def find_storage_def verify_attachment_def Let_def
  by (intro grows_intros)

lemma grows_execute_attachments [grows_intros]: "grows (execute_attachments w p storages stopped taken as)"
  by (induction as arbitrary: stopped taken) (auto intro!: grows_intros)

lemma grows_type_changed [grows_intros]: "grows (some_type_changed w s es)"
  by (induction es) (auto intro!: grows_intros)

lemma grows_clean_directory [grows_intros]: "grows (clean_directory w p s d)"
  unfolding clean_directory_def clean_entries_def delete_ignored_def or_absent_def stop_directory_def
    stop_with_failure_def Let_def
  by (intro grows_intros)

lemma grows_clean_directories [grows_intros]: "grows (clean_directories w p s library n d)"
proof (induction n arbitrary: d)
  case (Suc n)
  show ?case
    unfolding clean_directories.simps stop_with_failure_def by (intro grows_intros Suc.IH)
qed (auto intro!: grows_intros)

lemma grows_after_primary: "grows (after_primary w p storages src s plan_id display)"
  unfolding after_primary_def cleanup_source_directories_def Let_def by (intro grows_intros)

text \<open>How a verified primary begins and how it ends.\<close>

definition first_look :: "storage \<Rightarrow> storage \<Rightarrow> string \<Rightarrow> string \<Rightarrow> entry \<Rightarrow> bool \<Rightarrow> event list" where
  "first_look src dst s t original taken =
     [SawExists (st_key src) s (Inr True), SawEntry (st_key src) s (Inr original),
      SawExists (st_key dst) t (Inr taken)]"

definition last_look :: "plan \<Rightarrow> storage \<Rightarrow> storage \<Rightarrow> string \<Rightarrow> string \<Rightarrow> entry \<Rightarrow> event list" where
  "last_look p src dst s t e =
     [SawExists (st_key dst) t (Inr True), SawEntry (st_key dst) t (Inr e)] @
     (if pl_operation p = DoMove then [SawExists (st_key src) s (Inr False)] else [])"

definition good_copy :: "plan \<Rightarrow> entry \<Rightarrow> entry \<Rightarrow> bool" where
  "good_copy p original e =
     (if pl_operation p = DoLink then se_type e = expected_link p else se_size e = se_size original)"

definition verified_log :: "plan \<Rightarrow> storage \<Rightarrow> storage \<Rightarrow> string \<Rightarrow> string \<Rightarrow> event list \<Rightarrow> bool" where
  "verified_log p src dst s t h =
     (\<exists>original taken h1 e h2. h = first_look src dst s t original taken @ h1 @ last_look p src dst s t e @ h2 \<and>
        (taken \<longrightarrow> pl_overwrite p) \<and> good_copy p original e)"

lemma verified_logI:
  "h = first_look src dst s t original taken @ h1 @ last_look p src dst s t e \<Longrightarrow> (taken \<longrightarrow> pl_overwrite p) \<Longrightarrow>
    good_copy p original e \<Longrightarrow> verified_log p src dst s t h"
  unfolding verified_log_def by (metis append_Nil2)

lemma verified_log_grows: "verified_log p src dst s t h \<Longrightarrow> prefix h h' \<Longrightarrow> verified_log p src dst s t h'"
  by (fastforce simp: verified_log_def elim!: prefixE)

lemma verify_primary_log:
  "wp (verify_primary w p src dst s t (se_size original))
     (\<lambda>_ s'. \<exists>e. ru_log s' = ru_log r @ last_look p src dst s t e \<and> good_copy p original e) (\<lambda>_ _. True) r"
  unfolding verify_primary_def exists_at_def stat_at_def
  by (auto simp: wp_simps wp_observe Let_def last_look_def good_copy_def split: sum.split)

lemma primary_log:
  assumes "ru_log r = []"
  shows "wp (primary w p src dst s t) (\<lambda>x s'. x = None \<longrightarrow> verified_log p src dst s t (ru_log s')) (\<lambda>_ _. True) r"
proof -
  let ?Q = "\<lambda>x s'. x = (None :: string option) \<longrightarrow> verified_log p src dst s t (ru_log s')"
  have rest: "wp (ensure_parent w p dst (path_dirname t)) (\<lambda>_. wp (bind_act set_attempted (\<lambda>_.
         bind_act (mutate_and_record w p src dst s t (operation_text (pl_operation p))) (\<lambda>_.
         bind_act (add_completed [operation_text (pl_operation p)]) (\<lambda>_.
         bind_act (verify_primary w p src dst s t (se_size original)) (\<lambda>_. return_act None))))) ?Q (\<lambda>_ _. True)) (\<lambda>_ _. True) r'"
    if r': "ru_log r' = first_look src dst s t original taken" "taken \<longrightarrow> pl_overwrite p" for original taken r'
  proof (rule wp_mono [OF grows_wp [OF grows_ensure_parent]], goal_cases)
    case (1 u r1)
    show ?case
      unfolding wp_bind set_attempted_def wp_local
    proof (rule wp_mono [OF grows_wp [OF grows_record]], goal_cases)
      case (1 u r2)
      with \<open>prefix (ru_log r') (ru_log r1)\<close> have "prefix (ru_log r') (ru_log r2)"
        by (auto intro: prefix_order.trans)
      then obtain h where h: "ru_log r2 = ru_log r' @ h" by (auto elim: prefixE)
      show ?case
        unfolding wp_add_completed wp_return
        by (rule wp_mono [OF verify_primary_log]) (use h r' in \<open>auto intro: verified_logI\<close>)
    qed simp
  qed simp
  show ?thesis
    unfolding primary_def exists_at_def stat_at_def
    using assms
    by (auto simp: wp_bind [where m = "observe _ _"] wp_bind [where m = "ensure_parent _ _ _ _"] wp_observe Let_def
        wp_return first_look_def split: sum.split intro!: rest)
qed

lemma execute_checked_primary:
  assumes "ru_log r = []"
  shows "wp (execute_checked w p storages src dst s t plan_id display)
    (\<lambda>x s'. er_primary x \<longrightarrow> verified_log p src dst s t (ru_log s')) (\<lambda>_ _. True) r"
proof -
  have refused: "wp (authority_failure_result p plan_id display b v) (\<lambda>x _. \<not> er_primary x) (\<lambda>_ _. True) r" for b v r
    unfolding authority_failure_result_def Let_def by (simp add: wp_simps plain_result_def)
  have rest: "wp (bind_act (rollback w b os) (\<lambda>steps. return_act (f steps))) (\<lambda>x _. \<not> er_primary x) (\<lambda>_ _. True) r"
    if "\<And>steps. \<not> er_primary (f steps)" for b os f r
    unfolding wp_bind wp_return by (rule wp_any) (simp_all add: that)
  have failure: "wp (failure_result w p plan_id display e) (\<lambda>x _. \<not> er_primary x) (\<lambda>_ _. True) r" for e r
    unfolding failure_result_def Let_def wp_bind [where m = get_run] wp_get_run
    by (auto simp: wp_return plain_result_def intro!: rest)
  show ?thesis
    unfolding execute_checked_def wp_bind wp_catch
  proof (rule wp_mono [OF primary_log [OF assms]], goal_cases)
    case (1 x s')
    then show ?case
      by (cases x)
        (auto simp: wp_simps plain_result_def intro!: wp_mono [OF grows_wp [OF grows_after_primary]]
          intro: verified_log_grows)
  next
    case (2 e s')
    show ?case
      by (cases e) (auto simp: wp_simps intro!: wp_mono [OF refused] wp_mono [OF failure])
  qed
qed

end
