(* ===== verification/Execution_Deletion.thy ===== *)
theory Execution_Deletion
  imports Execution_Outcome
begin

text \<open>
  When an execution deletes: unless it undoes or cleans up, it deletes nothing but a source whose copy it
  has just written and seen with the size of the source.
\<close>

section \<open>Backed deletions\<close>

text \<open>
  The four events before a deletion, with a grant between them and it when there is a hook: the copy was
  written to another storage.
\<close>

definition backed :: "event list \<Rightarrow> nat \<Rightarrow> string \<Rightarrow> bool" where
  "backed h k x =
     (\<exists>h0 k' t overwrite copied original asked.
        h = h0 @ [Changed k' (Write t (k, x) overwrite) (Inr ()), SawExists k' t (Inr True),
          SawEntry k' t (Inr copied), SawEntry k x (Inr original)] @ asked \<and>
        k' \<noteq> k \<and> se_size copied = se_size original \<and> (asked = [] \<or> (\<exists>b. asked = [Asked b True])))"

definition careful :: "event list \<Rightarrow> bool" where
  "careful h = (\<forall>h1 k x a h2. h = h1 @ Changed k (Remove x) a # h2 \<longrightarrow> backed h1 k x)"

lemma careful_Nil [simp]: "careful []"
  by (simp add: careful_def)

lemma careful_snoc: "careful (h @ [e]) = (careful h \<and> (\<forall>k x a. e = Changed k (Remove x) a \<longrightarrow> backed h k x))"
proof -
  have split: "h @ [e] = h1 @ y # h2 \<longleftrightarrow> (h2 = [] \<and> h = h1 \<and> y = e) \<or> (\<exists>h3. h2 = h3 @ [e] \<and> h = h1 @ y # h3)" for h1 y h2
    by (cases h2 rule: rev_cases) auto
  show ?thesis unfolding careful_def split by blast
qed

definition cautious :: "'a act \<Rightarrow> bool" where
  "cautious m = (\<forall>r. careful (ru_log r) \<longrightarrow> wp m (\<lambda>_ s. careful (ru_log s)) (\<lambda>_ s. careful (ru_log s)) r)"

named_theorems cautious_intros "how actions that delete only what is backed are composed"

lemma cautious_wp:
  "cautious m \<Longrightarrow> careful (ru_log r) \<Longrightarrow> wp m (\<lambda>_ s. careful (ru_log s)) (\<lambda>_ s. careful (ru_log s)) r"
  by (simp add: cautious_def)

lemma cautious_seq [cautious_intros]: "cautious m \<Longrightarrow> (\<And>x. cautious (f x)) \<Longrightarrow> cautious (bind_act m f)"
  unfolding cautious_def wp_bind by (blast intro: wp_mono)

lemma cautious_catch [cautious_intros]: "cautious m \<Longrightarrow> (\<And>e. cautious (h e)) \<Longrightarrow> cautious (catch_act m h)"
  unfolding cautious_def wp_catch by (blast intro: wp_mono)

lemma cautious_silent: "silent m \<Longrightarrow> cautious m"
  unfolding cautious_def by (intro allI impI) (rule wp_mono [OF silent_wp], auto)

lemmas cautious_locals [cautious_intros] =
  silent_return [THEN cautious_silent] silent_raise [THEN cautious_silent] silent_get_run [THEN cautious_silent]
  silent_local [THEN cautious_silent]

lemma cautious_runtime_error [cautious_intros]: "cautious (runtime_error t)"
  by (simp add: runtime_error_def cautious_locals)

lemma cautious_events [cautious_intros]:
  "cautious (exists_at w s p)" "cautious (stat_at w s p)" "cautious (open_at w s p)" "cautious (check_authority w b)"
  by (auto simp: cautious_def exists_at_def stat_at_def open_at_def wp_observe wp_authority careful_snoc
      Let_def split: sum.split option.split)

lemma cautious_change [cautious_intros]: "(\<And>x. c \<noteq> Remove x) \<Longrightarrow> cautious (change_at w s c)"
  by (auto simp: cautious_def change_at_def wp_observe careful_snoc Let_def split: sum.split)

lemma cautious_branches [cautious_intros]:
  "(c \<Longrightarrow> cautious m) \<Longrightarrow> (\<not> c \<Longrightarrow> cautious n) \<Longrightarrow> cautious (if c then m else n)"
  "cautious m \<Longrightarrow> (\<And>x. cautious (f x)) \<Longrightarrow> cautious (case v of None \<Rightarrow> m | Some x \<Rightarrow> f x)"
  "(\<And>x. cautious (g x)) \<Longrightarrow> (\<And>y. cautious (h y)) \<Longrightarrow> cautious (case u of Inl x \<Rightarrow> g x | Inr y \<Rightarrow> h y)"
  "(\<And>x y. cautious (k x y)) \<Longrightarrow> cautious (case q of (x, y) \<Rightarrow> k x y)"
  "(\<And>x. cautious (a x)) \<Longrightarrow> (\<And>x y. cautious (b x y)) \<Longrightarrow> (\<And>x y. cautious (d x y)) \<Longrightarrow>
    cautious (case e of External x \<Rightarrow> a x | PartialFault x y \<Rightarrow> b x y | Refused x y \<Rightarrow> d x y)"
  by (simp_all split: option.split sum.split prod.split fault.split)

lemma cautious_lists [cautious_intros]:
  "(\<And>x. cautious (f x)) \<Longrightarrow> cautious (each_act f xs)"
  "(\<And>x. cautious (g x)) \<Longrightarrow> cautious (map_act g xs)"
  by (induction xs) (auto intro!: cautious_intros)

lemma cautious_own_effects [cautious_intros]:
  assumes "cautious m"
  shows "cautious (own_effects m)"
  unfolding cautious_def wp_own_effects
  by (intro allI impI, rule wp_mono [OF cautious_wp [OF assms]]) simp_all

section \<open>The executor deletes carefully\<close>

lemma delete_moved_careful:
  assumes "st_key dst \<noteq> st_key src" "careful h0" "ru_log r = h0 @ [Changed (st_key dst) (Write t (st_key src, s) ow) (Inr ())]"
  shows "wp (delete_moved w boundary src dst s t) (\<lambda>_ s. careful (ru_log s)) (\<lambda>_ s. careful (ru_log s)) r"
proof -
  let ?h = "\<lambda>e. h0 @ [Changed (st_key dst) (Write t (st_key src, s) ow) (Inr ()), SawExists (st_key dst) t (Inr True), e]"
  have two: "xs @ [a, b] = (xs @ [a]) @ [b]" for xs :: "event list" and a b by simp
  have c: "careful (ru_log r)" using assms(2,3) by (simp add: careful_snoc)
  have backed: "backed (ru_log r @ [SawExists (st_key dst) t (Inr True), SawEntry (st_key dst) t (Inr x),
      SawEntry (st_key src) s (Inr y)]) (st_key src) s"
    "backed (ru_log r @ [SawExists (st_key dst) t (Inr True), SawEntry (st_key dst) t (Inr x),
      SawEntry (st_key src) s (Inr y), Asked b True]) (st_key src) s"
    if "se_size x = se_size y" for x y b
    unfolding backed_def assms(3) using that assms(1) by force+
  have append: "careful (h @ es) \<longleftrightarrow> careful h" if "list_all (\<lambda>e. is_observation e \<or> (\<exists>b ok. e = Asked b ok)) es" for h es
    using that by (induction es rule: rev_induct) (auto simp: append_assoc [symmetric] careful_snoc simp del: append_assoc)
  have final: "careful ((h @ es) @ [Changed (st_key src) (Remove s) a])"
    if "careful h" "list_all (\<lambda>e. is_observation e \<or> (\<exists>b ok. e = Asked b ok)) es" "backed (h @ es) (st_key src) s" for h es a
    using that by (simp add: careful_snoc append del: append_assoc)
  show ?thesis
    unfolding delete_moved_def exists_at_def stat_at_def change_at_def
    using c
    by (auto simp: wp_simps wp_observe wp_authority Let_def append backed ex_bool_eq
        intro!: final [where es = "[_, _, _]", simplified] final [where es = "[_, _, _, _]", simplified]
        split: sum.split option.split)
qed

lemma cautious_across:
  assumes "\<not> same_storage src dst"
  shows "cautious (bind_act (stream_to w src s dst t ow) (\<lambda>_. after_copy (delete_moved w boundary src dst s t)))"
proof -
  have second: "wp (after_copy (delete_moved w boundary src dst s t)) (\<lambda>_ s. careful (ru_log s)) (\<lambda>_ s. careful (ru_log s)) r"
    if "careful h" "ru_log r = h @ [Changed (st_key dst) (Write t (st_key src, s) ow) (Inr ())]" for h r
    unfolding after_copy_def wp_catch
    by (rule wp_mono [OF delete_moved_careful [OF _ that]]) (use assms in \<open>auto simp: same_storage_def wp_simps split: fault.split\<close>)
  have written: "wp (change_at w dst (Write t (st_key src, s) ow))
      (\<lambda>_. wp (after_copy (delete_moved w boundary src dst s t)) (\<lambda>_ s. careful (ru_log s)) (\<lambda>_ s. careful (ru_log s)))
      (\<lambda>_ s. careful (ru_log s)) r" if "careful (ru_log r)" for r
    unfolding change_at_def wp_observe Let_def
    using that by (auto simp: careful_snoc intro!: second split: sum.split)
  show ?thesis
    unfolding cautious_def stream_to_def wp_bind
    by (intro allI impI, rule wp_mono [OF cautious_wp [OF cautious_events(3)]]) (auto intro: written)
qed

lemma cautious_stream: "cautious (stream_to w src s dst t ow)"
  unfolding stream_to_def by (intro cautious_intros) simp

lemma cautious_mutate [cautious_intros]: "cautious (mutate w p src dst s t marker)"
  unfolding mutate_def Let_def
  by (cases "pl_operation p"; simp only: plan_operation.case; intro cautious_branches cautious_runtime_error
      cautious_seq [OF cautious_events(4)] cautious_across cautious_stream cautious_change) simp_all

lemma cautious_record [cautious_intros]: "cautious (mutate_and_record w p src dst s t marker)"
  unfolding mutate_and_record_def capture_effect_def by (intro cautious_intros)

lemma cautious_primary: "cautious (primary w p src dst s t)"
  unfolding primary_def ensure_parent_def create_parent_def missing_directories_def own_directory_def
    verify_primary_def Let_def
  by (intro cautious_intros) simp_all

lemma cautious_attachment_fault [cautious_intros]: "cautious (attachment_fault marker steps e)"
  unfolding attachment_fault_def refused_attachment_def Let_def by (intro cautious_intros)

lemma cautious_execute_attachment [cautious_intros]: "cautious (execute_attachment w p storages stopped taken a)"
  unfolding execute_attachment_def change_attachment_def attachment_ready_def find_storage_def verify_attachment_def Let_def
  by (intro cautious_intros)

lemma cautious_execute_attachments [cautious_intros]: "cautious (execute_attachments w p storages stopped taken as)"
  by (induction as arbitrary: stopped taken) (auto intro!: cautious_intros)

lemma cautious_execute_checked:
  assumes "\<not> rb_enabled (pl_rollback p)" "cl_mode (pl_cleanup p) = CleanupNone"
  shows "cautious (execute_checked w p storages src dst s t plan_id display)"
proof -
  have "cautious (failure_result w p plan_id display e)" for e
    unfolding failure_result_def Let_def using assms by (intro cautious_intros) simp
  moreover have "cautious (authority_failure_result p plan_id display b v)" for b v
    unfolding authority_failure_result_def Let_def by (intro cautious_intros)
  moreover have "cautious (cleanup_source_directories w p src s)"
    using assms by (simp add: cleanup_source_directories_def Let_def cautious_locals)
  ultimately show ?thesis
    unfolding execute_checked_def after_primary_def
    by (intro cautious_seq cautious_catch cautious_primary cautious_execute_attachments cautious_branches cautious_locals)
qed

end
