(* ===== verification/Execution_Examples.thy ===== *)
theory Execution_Examples
  imports Execution_Deletion Organize_Examples
begin

text \<open>Two storages that do what they are asked until one change is cut off, and executions against them.\<close>

definition all_capabilities :: capabilities where
  "all_capabilities = \<lparr>can_move = True, can_copy = True, can_delete = True, can_hard_link = True, can_soft_link = True\<rparr>"

definition store_in :: storage where
  "store_in = \<lparr>st_key = 0, st_id = ''in'', st_read_only = False, st_caps = Some all_capabilities\<rparr>"

definition store_out :: storage where
  "store_out = \<lparr>st_key = 1, st_id = ''out'', st_read_only = False, st_caps = Some all_capabilities\<rparr>"

definition film_stores :: "string \<rightharpoonup> storage" where
  "film_stores = [''in'' \<mapsto> store_in, ''out'' \<mapsto> store_out]"

definition apply_event :: "event \<Rightarrow> (nat \<times> string) list \<Rightarrow> (nat \<times> string) list" where
  "apply_event e held =
     (case e of
        Changed k c (Inr _) \<Rightarrow>
          (case c of
             MakeDirectory d \<Rightarrow> map (Pair k) (ancestors d) @ held
           | MoveTo s t _ \<Rightarrow> (k, t) # removeAll (k, s) held
           | CopyTo s t _ \<Rightarrow> (k, t) # held
           | Write t _ _ \<Rightarrow> (k, t) # held
           | Remove x \<Rightarrow> removeAll (k, x) held
           | HardLinkTo s t \<Rightarrow> (k, t) # held
           | SoftLinkTo s t \<Rightarrow> (k, t) # held
           | WriteBytes t _ _ \<Rightarrow> (k, t) # held
           | WriteStream t _ \<Rightarrow> (k, t) # held)
      | _ \<Rightarrow> held)"

definition held_after :: "(nat \<times> string) list \<Rightarrow> event list \<Rightarrow> (nat \<times> string) list" where
  "held_after start h = fold apply_event h start"

definition cut_off :: "event list \<Rightarrow> bool" where
  "cut_off h = list_ex (\<lambda>e. case e of Changed _ _ (Inl _) \<Rightarrow> True | _ \<Rightarrow> False) h"

definition answer_of :: "event list \<Rightarrow> bool \<Rightarrow> 'a \<Rightarrow> external + 'a" where
  "answer_of h found x =
     (if cut_off h then Inl (OsFault ''unreachable'') else if found then Inr x else Inl (StorageFault ''not_found'' []))"

definition entry_at :: "string \<Rightarrow> entry" where
  "entry_at x =
     \<lparr>se_name = path_basename x, se_path = x, se_type = (if CHR ''.'' \<in> set x then FileEntry else DirectoryEntry),
      se_size = 5, se_modified = 0, se_fingerprint = None\<rparr>"

definition film_world ::
  "(nat \<times> string) list \<Rightarrow> (change \<Rightarrow> bool) \<Rightarrow> (event list \<Rightarrow> string \<Rightarrow> bool) option \<Rightarrow> world" where
  "film_world start dies hook =
     \<lparr>wo_exists = (\<lambda>h k x. answer_of h True ((k, x) \<in> set (held_after start h))),
      wo_stat = (\<lambda>h k x. answer_of h ((k, x) \<in> set (held_after start h)) (entry_at x)),
      wo_list = (\<lambda>h k x. answer_of h True
        (map (entry_at \<circ> snd) (filter (\<lambda>(k', y). k' = k \<and> path_dirname y = x \<and> y \<noteq> x) (held_after start h)))),
      wo_open = (\<lambda>h k x. answer_of h ((k, x) \<in> set (held_after start h)) ()),
      wo_change = (\<lambda>h k c. if dies c then Inl (OsFault ''reset'') else answer_of h True ()),
      wo_sent = (\<lambda>h. ''bytes''),
      wo_bytes = (\<lambda>h k x. answer_of h ((k, x) \<in> set (held_after start h)) ''bytes''),
      wo_authority = hook\<rparr>"

definition start_paths :: "(nat \<times> string) list" where
  "start_paths = [(0, ''heat.mkv'')]"

definition never :: "change \<Rightarrow> bool" where
  "never c = False"

definition granted :: "(event list \<Rightarrow> string \<Rightarrow> bool) option" where
  "granted = Some (\<lambda>h b. True)"

definition film_move :: plan where
  "film_move = projr (film_plan ''library'' [])"

definition run_film :: "plan \<Rightarrow> (change \<Rightarrow> bool) \<Rightarrow> (fault + execution_result) \<times> run" where
  "run_film p dies = execute (film_world start_paths dies granted) no_digest p film_stores True None None None start_run"

abbreviation film_target :: string where
  "film_target \<equiv> ''library/Movies/Crime/Heat/Heat.mkv''"

definition film_log :: "event list" where
  "film_log =
     [SawExists 0 ''heat.mkv'' (Inr True), SawEntry 0 ''heat.mkv'' (Inr (entry_at ''heat.mkv'')),
      SawExists 1 film_target (Inr False), SawExists 1 ''library/Movies/Crime/Heat'' (Inr False),
      Asked ''CREATE_DIRECTORY'' True, Changed 1 (MakeDirectory ''library/Movies/Crime/Heat'') (Inr ()),
      Asked ''PRIMARY:CROSS_STORAGE_WRITE'' True, Opened 0 ''heat.mkv'' (Inr ()),
      Changed 1 (Write film_target (0, ''heat.mkv'') False) (Inr ()),
      SawExists 1 film_target (Inr True), SawEntry 1 film_target (Inr (entry_at film_target)),
      SawEntry 0 ''heat.mkv'' (Inr (entry_at ''heat.mkv'')), Asked ''PRIMARY:CROSS_STORAGE_DELETE_SOURCE'' True,
      Changed 0 (Remove ''heat.mkv'') (Inr ()),
      SawExists 1 film_target (Inr True), SawEntry 1 film_target (Inr (entry_at film_target)),
      SawExists 0 ''heat.mkv'' (Inr False)]"

lemma film_moves:
  "case run_film film_move never of
     (Inr x, r) \<Rightarrow> er_status x = ExecSuccess \<and> er_primary x \<and> er_certainty x = VerifiedComplete \<and> ru_log r = film_log
   | _ \<Rightarrow> False"
  by code_simp

end
