(* ===== verification/Execution_Results.thy ===== *)
theory Execution_Results
  imports Execution_Outcome
begin

text \<open>The shape of the results of an execution: how its fields go together.\<close>

definition consistent_result :: "plan \<Rightarrow> execution_result \<Rightarrow> bool" where
  "consistent_result p x =
     (er_operation x = pl_operation p \<and> map ar_type (er_attachments x) = map at_type (pl_attachments p) \<and>
      (er_uncertain x = [] \<longleftrightarrow> er_certainty x \<in> {NoEffect, VerifiedComplete}) \<and>
      (if er_primary x then er_status x \<in> {ExecSuccess, ExecPartial} \<and> er_certainty x \<noteq> NoEffect
       else er_status x \<noteq> ExecSuccess \<and> list_all (\<lambda>a. ar_status a = AttachmentNotExecuted) (er_attachments x)) \<and>
      (er_status x = ExecSuccess \<longrightarrow> er_certainty x = VerifiedComplete \<and> er_errors x = [] \<and>
         list_all (\<lambda>a. ar_status a = AttachmentSuccess) (er_attachments x)) \<and>
      (er_status x \<in> {ExecSkipped, ExecDryRun} \<longrightarrow> er_certainty x = NoEffect \<and> er_completed x = []))"

lemma document_type [simp]: "ar_type (attachment_result_document p a status reason certainty steps) = at_type a"
  by (simp add: attachment_result_document_def)

lemma plain_fields:
  "map ar_type (er_attachments (plain_result p k d status)) = map at_type (pl_attachments p)"
  "list_all (\<lambda>a. ar_status a = AttachmentNotExecuted) (er_attachments (plain_result p k d status))"
  "er_operation (plain_result p k d status) = pl_operation p" "er_uncertain (plain_result p k d status) = []"
  "er_certainty (plain_result p k d status) = NoEffect" "er_status (plain_result p k d status) = status"
  "\<not> er_primary (plain_result p k d status)" "er_completed (plain_result p k d status) = []"
  by (simp_all add: plain_result_def list_all_iff)

lemma plain_consistent:
  "status \<noteq> ExecSuccess \<Longrightarrow> consistent_result p ((plain_result p k d status)\<lparr>er_errors := es\<rparr>)"
  "status \<noteq> ExecSuccess \<Longrightarrow> consistent_result p ((plain_result p k d status)\<lparr>er_warnings := es\<rparr>)"
  "status' \<noteq> ExecSuccess \<Longrightarrow> consistent_result p ((plain_result p k d status)\<lparr>er_errors := es, er_status := status'\<rparr>)"
  by (simp_all add: consistent_result_def plain_fields)

lemma attachments_types:
  "wp (execute_attachments w p storages stopped taken as) (\<lambda>xs _. map ar_type xs = map at_type as) (\<lambda>_ _. True) r"
proof (induction as arbitrary: stopped taken r)
  case (Cons a as)
  show ?case
    unfolding execute_attachments.simps wp_bind
    by (rule wp_any) (auto simp: wp_simps split: prod.split intro!: wp_mono [OF Cons.IH])
qed (simp add: wp_return)

lemma consistent_failure:
  "wp (failure_result w p k d e) (\<lambda>x _. consistent_result p x) (\<lambda>_ _. True) r"
proof -
  have rest: "wp (bind_act (rollback w b os) (\<lambda>steps. return_act (f steps))) (\<lambda>x _. consistent_result p x) (\<lambda>_ _. True) r"
    if "\<And>steps. consistent_result p (f steps)" for b os f r
    unfolding wp_bind wp_return by (rule wp_any) (simp_all add: that)
  show ?thesis
    unfolding failure_result_def Let_def wp_bind [where m = get_run] wp_get_run
    by (auto simp: wp_return intro!: rest) (simp_all add: consistent_result_def plain_fields)
qed

lemma consistent_refused:
  "wp (authority_failure_result p k d b v) (\<lambda>x _. consistent_result p x) (\<lambda>_ _. True) r"
  unfolding authority_failure_result_def Let_def
  by (auto simp: wp_simps consistent_result_def plain_fields)

lemma consistent_attachments:
  "map ar_type ats = map at_type (pl_attachments p) \<Longrightarrow>
    consistent_result p (attachments_result p
      ((plain_result p k d ExecPartial)\<lparr>er_created := c, er_completed := cs, er_primary := True, er_attachments := ats\<rparr>) ats)"
  by (simp add: attachments_result_def Let_def consistent_result_def plain_fields)

lemma consistent_cleanup:
  "map ar_type ats = map at_type (pl_attachments p) \<Longrightarrow> list_all (\<lambda>a. ar_status a = AttachmentSuccess) ats \<Longrightarrow>
    consistent_result p (cleanup_result
      ((plain_result p k d ExecSuccess)\<lparr>er_created := c, er_completed := cs, er_primary := True, er_attachments := ats,
         er_cleanup_steps := steps\<rparr>) status error)"
  by (cases status) (simp_all add: cleanup_result_def Let_def consistent_result_def plain_fields plain_result_def)

lemma consistent_after_primary:
  "wp (after_primary w p storages src s k d) (\<lambda>x _. consistent_result p x) (\<lambda>_ _. True) r"
proof -
  have clean: "wp (bind_act (cleanup_source_directories w p src s) (\<lambda>(status, error).
      bind_act get_run (\<lambda>r. return_act (cleanup_result
         ((plain_result p k d ExecSuccess)\<lparr>er_created := ru_created r,
            er_completed := ru_completed r @ map cs_action (filter cs_success (ru_cleanup r)),
            er_primary := True, er_attachments := ats, er_cleanup_steps := ru_cleanup r\<rparr>) status error))))
      (\<lambda>x _. consistent_result p x) (\<lambda>_ _. True) r"
    if "map ar_type ats = map at_type (pl_attachments p)" "list_all (\<lambda>a. ar_status a = AttachmentSuccess) ats" for ats r
    unfolding wp_bind by (rule wp_any) (auto simp: wp_simps consistent_cleanup [OF that] split: prod.split)
  show ?thesis
    unfolding after_primary_def wp_bind [where m = "execute_attachments _ _ _ _ _ _"]
  proof (rule wp_mono [OF attachments_types], goal_cases)
    case (1 ats s')
    then show ?case
      by (auto simp: wp_bind [where m = get_run] wp_get_run wp_return list_all_iff list_ex_iff
          intro!: consistent_attachments clean)
  qed simp
qed

lemma consistent_execute_checked:
  "wp (execute_checked w p storages src dst s t k d) (\<lambda>x _. consistent_result p x) (\<lambda>_ _. True) r"
  unfolding execute_checked_def wp_bind wp_catch
proof (rule wp_any, goal_cases)
  case (1 early s')
  then show ?case by (cases early) (auto simp: wp_simps plain_consistent intro!: consistent_after_primary)
next
  case (2 e s')
  show ?case
    by (cases e) (auto simp: wp_simps intro!: wp_mono [OF consistent_refused] wp_mono [OF consistent_failure])
qed

lemma consistent_execute:
  "wp (execute w digest p storages run_it source_path destination_path resolved)
     (\<lambda>x _. consistent_result p x) (\<lambda>_ _. True) r"
  unfolding execute_def Let_def
  by (auto simp: wp_return wp_raise plain_consistent intro!: consistent_execute_checked split: option.split)

end
