(* ===== verification/Execution_Properties.thy ===== *)
theory Execution_Properties
  imports Execution_Examples Execution_Results
begin

text \<open>
  What an execution does whatever the storages answer and whenever they fail: the changes it makes and
  when, what its result may claim, and one claim that is wrong.
\<close>

section \<open>Changes\<close>

text \<open>C6: when the caller passes a hook, every change a storage is asked for is preceded by a grant for that
  kind of change, with nothing but observations since the grant, and it follows no refusal: not by the
  primary, an attachment, the undoing or the cleanup, whatever storages answer or raise. Without a hook
  nobody is asked, and the changes rest on the caller alone.\<close>

theorem every_change_is_granted:
  assumes "execute w digest p storages run_it source_path destination_path resolved start_run = (x, r)"
    "ru_log r = h @ Changed k c a # h'"
  shows "case wo_authority w of
      None \<Rightarrow> \<forall>b ok. Asked b ok \<notin> set (ru_log r)
    | Some grants \<Rightarrow>
        (\<exists>h1 b h2. h = h1 @ Asked b True # h2 \<and> b \<in> set (allowed_boundaries c) \<and> list_all is_observation h2) \<and>
        (\<forall>b. Asked b False \<notin> set h)"
  using assms(1)
proof (rule execute_kept)
  assume "ru_log r = []"
  with assms(2) show ?thesis by simp
next
  fix src dst
  assume k: "kept w (permitted p storages src dst (execution_source p source_path) (execution_target p destination_path)) (ru_log r)"
  show ?thesis
  proof (cases "wo_authority w")
    case None
    with k show ?thesis by (simp add: kept_def)
  next
    case (Some grants)
    with k assms(2) have "log_phase (h @ Changed k c a # h') \<noteq> Violated" by (simp add: kept_def)
    from granted_change [OF this] Some show ?thesis by auto
  qed
qed

lemma film_run:
  obtains x r where "run_film film_move never = (Inr x, r)" "er_primary x" "er_certainty x = VerifiedComplete"
    "ru_log r = film_log"
  using film_moves by (auto split: prod.splits sum.splits)

lemma every_change_is_granted_witness:
  "\<exists>r h h'. snd (run_film film_move never) = r \<and> ru_log r = h @ Changed 0 (Remove ''heat.mkv'') (Inr ()) # h' \<and>
     (\<exists>h1 b h2. h = h1 @ Asked b True # h2 \<and> b \<in> set (allowed_boundaries (Remove ''heat.mkv'')) \<and> list_all is_observation h2) \<and>
     (\<forall>b. Asked b False \<notin> set h)"
proof -
  obtain x r where r: "run_film film_move never = (Inr x, r)" "ru_log r = film_log" by (rule film_run)
  have l: "ru_log r = take 13 film_log @ Changed 0 (Remove ''heat.mkv'') (Inr ()) # drop 14 film_log"
    by (simp add: r film_log_def)
  have "wo_authority (film_world start_paths never granted) \<noteq> None" by (simp add: film_world_def granted_def)
  with every_change_is_granted [OF r(1) [unfolded run_film_def] l] r(1) l show ?thesis by (auto split: option.splits)
qed

text \<open>C8: an execution observes or changes nothing unless it was asked to run a plan that passes every check,
  and every change it asks for is one computed from the plan: the parent of the target, the planned
  operation on the paths given, the same for each attachment without overwriting, what undoing them
  takes, and the deletions the cleanup policy allows.
\<close>

theorem execution_stays_in_its_footprint:
  assumes "execute w digest p storages run_it source_path destination_path resolved start_run = (x, r)"
    "ru_log r \<noteq> []"
  shows "\<exists>src dst. ready_to_change p storages run_it src dst \<and>
    (\<forall>k c a. Changed k c a \<in> set (ru_log r) \<longrightarrow>
      permitted p storages src dst (execution_source p source_path) (execution_target p destination_path) k c)"
  using assms(1)
proof (rule execute_kept)
  assume "ru_log r = []"
  with assms(2) show ?thesis by simp
qed (auto simp: kept_def)

lemma execution_stays_in_its_footprint_witness:
  "\<exists>src dst. ready_to_change film_move film_stores True src dst \<and>
     permitted film_move film_stores src dst ''heat.mkv'' film_target 0 (Remove ''heat.mkv'')"
proof -
  obtain x r where r: "run_film film_move never = (Inr x, r)" "ru_log r = film_log" by (rule film_run)
  have p: "execution_source film_move None = ''heat.mkv''" "execution_target film_move None = film_target" by code_simp+
  have "Changed 0 (Remove ''heat.mkv'') (Inr ()) \<in> set (ru_log r)" by (simp add: r film_log_def)
  moreover have "ru_log r \<noteq> []" by (simp add: r film_log_def)
  ultimately show ?thesis
    using execution_stays_in_its_footprint [OF r(1) [unfolded run_film_def]] by (fastforce simp: p)
qed

text \<open>C7: without rollback and cleanup an execution deletes nothing but a file it has just copied: right before
  the deletion the file was written to another storage (the keys are the identities of the objects), the
  copy was seen there, and both were seen with the same size.
\<close>

theorem source_is_deleted_only_after_its_copy:
  assumes "execute w digest p storages run_it source_path destination_path resolved start_run = (x, r)"
    "\<not> rb_enabled (pl_rollback p)" "cl_mode (pl_cleanup p) = CleanupNone"
    "ru_log r = h @ Changed k (Remove path) a # h'"
  shows "\<exists>h0 k' t overwrite copied original asked.
    h = h0 @ [Changed k' (Write t (k, path) overwrite) (Inr ()), SawExists k' t (Inr True),
      SawEntry k' t (Inr copied), SawEntry k path (Inr original)] @ asked \<and>
    k' \<noteq> k \<and> se_size copied = se_size original \<and> (asked = [] \<or> (\<exists>b. asked = [Asked b True]))"
  using assms(1)
proof (rule execute_cases)
  assume "r = start_run"
  with assms(4) show ?thesis by (simp add: start_run_def)
next
  fix src dst plan_id display
  assume e: "execute_checked w p storages src dst (execution_source p source_path)
    (execution_target p destination_path) plan_id display start_run = (x, r)"
  have "careful (ru_log start_run)" by (simp add: start_run_def)
  note done' = cautious_wp [OF cautious_execute_checked [OF assms(2,3)] this]
  have "careful (ru_log r)"
  proof (cases x)
    case (Inl f)
    with e show ?thesis by (auto intro: wp_result(2) [OF done'])
  next
    case (Inr y)
    with e show ?thesis by (auto intro: wp_result(1) [OF done'])
  qed
  with assms(4) show ?thesis by (auto simp: careful_def backed_def)
qed

lemma source_is_deleted_only_after_its_copy_witness:
  "\<exists>h0 k' t overwrite copied original asked.
    take 13 film_log = h0 @ [Changed k' (Write t (0, ''heat.mkv'') overwrite) (Inr ()), SawExists k' t (Inr True),
      SawEntry k' t (Inr copied), SawEntry 0 ''heat.mkv'' (Inr original)] @ asked \<and>
    k' \<noteq> 0 \<and> se_size copied = se_size original \<and> (asked = [] \<or> (\<exists>b. asked = [Asked b True]))"
proof -
  obtain x r where r: "run_film film_move never = (Inr x, r)" "ru_log r = film_log" by (rule film_run)
  have l: "ru_log r = take 13 film_log @ Changed 0 (Remove ''heat.mkv'') (Inr ()) # drop 14 film_log"
    by (simp add: r film_log_def)
  have p: "\<not> rb_enabled (pl_rollback film_move)" "cl_mode (pl_cleanup film_move) = CleanupNone" by code_simp+
  show ?thesis by (rule source_is_deleted_only_after_its_copy [OF r(1) [unfolded run_film_def] p l])
qed

section \<open>Results\<close>

text \<open>C9: a result that claims no effect, other than after a rollback, means that no change was asked of a
  storage; one that claims to be verified and complete, other than after a partial cleanup, means that
  every change that was asked for returned.
\<close>

theorem certainty_is_honest:
  assumes "execute w digest p storages run_it source_path destination_path resolved start_run = (Inr x, r)"
  shows "(er_certainty x = NoEffect \<and> er_rollback x \<noteq> RollbackSuccess \<longrightarrow> (\<forall>k c a. Changed k c a \<notin> set (ru_log r))) \<and>
    (er_certainty x = VerifiedComplete \<and> er_cleanup x \<noteq> CleanupPartial \<longrightarrow>
      (\<forall>k c e. Changed k c (Inl e) \<notin> set (ru_log r)))"
  using assms
proof (rule execute_cases)
  assume "r = start_run"
  then show ?thesis by (simp add: start_run_def)
next
  fix src dst plan_id display
  assume e: "execute_checked w p storages src dst (execution_source p source_path)
    (execution_target p destination_path) plan_id display start_run = (Inr x, r)"
  have u: "untouched start_run" "intact start_run"
    by (simp_all add: start_run_def untouched_def changes_of_def intact_def)
  have "claims_nothing x \<longrightarrow> untouched r" by (rule wp_result(1) [OF execute_checked_nothing [OF u(1)] e])
  moreover have "claims_complete x \<longrightarrow> intact r" by (rule wp_result(1) [OF execute_checked_complete [OF u(2)] e])
  ultimately show ?thesis
    by (auto simp: claims_nothing_def claims_complete_def untouched_def changes_of_def intact_def filter_empty_conv)
qed

lemma certainty_is_honest_witness:
  "case run_film film_move never of (Inr x, r) \<Rightarrow> (\<forall>k c e. Changed k c (Inl e) \<notin> set (ru_log r)) | _ \<Rightarrow> False"
proof -
  have c: "case run_film film_move never of (Inr x, r) \<Rightarrow> er_certainty x = VerifiedComplete \<and> er_cleanup x = CleanupDisabled | _ \<Rightarrow> False"
    by code_simp
  then obtain x r where r: "run_film film_move never = (Inr x, r)" by (auto split: prod.splits sum.splits)
  from certainty_is_honest [OF r [unfolded run_film_def]] c r show ?thesis by simp
qed

text \<open>C10: a result that says the primary is done means that the history begins by finding the source and, unless
  overwriting, no target, and that later the target was seen with the size of the source, or with the
  type of the link, and for a move the source was seen to be gone.
\<close>

theorem primary_is_verified:
  assumes "execute w digest p storages run_it source_path destination_path resolved start_run = (Inr x, r)" "er_primary x"
  shows "\<exists>src dst original taken h1 e h2. ready_to_change p storages run_it src dst \<and>
    ru_log r = first_look src dst (execution_source p source_path) (execution_target p destination_path) original taken @
      h1 @ last_look p src dst (execution_source p source_path) (execution_target p destination_path) e @ h2 \<and>
    (taken \<longrightarrow> pl_overwrite p) \<and> good_copy p original e"
  using assms(1)
proof (rule execute_cases)
  assume "\<And>result. Inr x = Inr result \<Longrightarrow> \<not> er_primary result \<and> er_certainty result = NoEffect"
  with assms(2) show ?thesis by blast
next
  fix src dst plan_id display
  assume rd: "ready_to_change p storages run_it src dst"
    and e: "execute_checked w p storages src dst (execution_source p source_path)
      (execution_target p destination_path) plan_id display start_run = (Inr x, r)"
  have "ru_log start_run = []" by (simp add: start_run_def)
  from wp_result(1) [OF execute_checked_primary [OF this] e] assms(2)
  have "verified_log p src dst (execution_source p source_path) (execution_target p destination_path) (ru_log r)" by blast
  then show ?thesis unfolding verified_log_def using rd by blast
qed

lemma primary_is_verified_witness:
  "\<exists>src dst original taken h1 e h2. ready_to_change film_move film_stores True src dst \<and>
    film_log = first_look src dst (execution_source film_move None) (execution_target film_move None) original taken @
      h1 @ last_look film_move src dst (execution_source film_move None) (execution_target film_move None) e @ h2 \<and>
    (taken \<longrightarrow> pl_overwrite film_move) \<and> good_copy film_move original e"
proof -
  obtain x r where r: "run_film film_move never = (Inr x, r)" "er_primary x" "ru_log r = film_log" by (rule film_run)
  from primary_is_verified [OF r(1) [unfolded run_film_def] r(2)] show ?thesis unfolding r(3) .
qed

text \<open>C38: the fields of every result go together: one result per planned attachment, uncertain effects exactly
  when the certainty is in doubt, a completed primary only in a success or a partial execution and never
  without effect, no attachment executed before it, a success only when everything is verified, and no
  completed operation in a result that was skipped or a dry run.
\<close>

theorem result_fields_agree:
  "case fst (execute w digest p storages run_it source_path destination_path resolved r) of
     Inl _ \<Rightarrow> True | Inr x \<Rightarrow> consistent_result p x"
  using consistent_execute [of w digest p storages run_it source_path destination_path resolved r]
  by (auto simp: wp_def split: prod.splits sum.splits)

section \<open>A rollback that undid nothing\<close>

text \<open>C39: when the primary of a plan that passes every check fails with an ordinary error and the effects recorded until then are one or more directories it created and
  nothing else (its target could not be inspected, or was not there), and the policy keeps created
  directories, then the failure is reported as rolled back and as without effect, with no rollback step at
  all, though the directories stay. The example is a write that was asked for and raised without telling
  whether it was made.
\<close>

theorem rollback_claims_no_effect:
  assumes "ready_to_change p storages True src dst" "resolved_execution_target p = Some (pl_target p)"
    "rb_enabled (pl_rollback p)" "\<not> rb_directories (pl_rollback p)"
    "primary w p src dst (execution_source p source_path) (execution_target p destination_path) start_run =
      (Inl (External fault), r)"
    "ordinary (External fault)" "ru_effects r \<noteq> []" "\<forall>o' \<in> set (ru_effects r). ow_action o' = ''DELETE_DIRECTORY''"
  shows "\<exists>x. execute w digest p storages True source_path destination_path resolved start_run = (Inr x, r) \<and>
    er_certainty x = NoEffect \<and> er_uncertain x = [] \<and> er_rollback x = RollbackSuccess \<and> er_rollback_steps x = [] \<and>
    er_warnings x = [''execution effects were rolled back''] \<and> er_created x = ru_created r"
proof -
  have none: "rollback w False (ru_effects r) = return_act []"
    using assms(8) by (simp add: rollback_def filter_False)
  show ?thesis
    using assms(1-7)
    by (auto simp: execute_def ready_to_change_def Let_def execute_checked_def bind_act_def catch_act_def
        failure_result_def get_run_def return_act_def none [unfolded return_act_def] plain_result_def split: sum.split)
qed

definition film_undo :: plan where
  "film_undo = film_move\<lparr>pl_rollback := \<lparr>rb_enabled = True, rb_directories = False\<rparr>\<rparr>"

definition breaks_on_write :: "change \<Rightarrow> bool" where
  "breaks_on_write c = (case c of Write _ _ _ \<Rightarrow> True | _ \<Rightarrow> False)"

lemma film_undo_breaks:
  "case primary (film_world start_paths breaks_on_write granted) film_undo store_in store_out
     (execution_source film_undo None) (execution_target film_undo None) start_run of
     (Inl (External f), r) \<Rightarrow> ordinary (External f) \<and> ru_effects r \<noteq> [] \<and>
       list_all (\<lambda>o'. ow_action o' = ''DELETE_DIRECTORY'') (ru_effects r) \<and> ru_created r \<noteq> [] \<and>
       Changed 1 (Write film_target (0, ''heat.mkv'') False) (Inl (OsFault ''reset'')) \<in> set (ru_log r)
   | _ \<Rightarrow> False"
  by code_simp

lemma film_undo_ready:
  "ready_to_change film_undo film_stores True store_in store_out"
  "resolved_execution_target film_undo = Some (pl_target film_undo)"
  "rb_enabled (pl_rollback film_undo)" "\<not> rb_directories (pl_rollback film_undo)"
proof -
  have "plan_validation_error film_undo = None \<and> \<not> pl_overwrite film_undo \<and>
      storage_validation_error film_undo film_stores = None \<and> pl_source_storage film_undo = ''in'' \<and>
      pl_target_storage film_undo = ''out'' \<and> operation_capability_error film_undo store_in store_out = None"
    by code_simp
  then show "ready_to_change film_undo film_stores True store_in store_out"
    by (simp add: ready_to_change_def film_stores_def)
qed (code_simp+)

lemma rollback_claims_no_effect_witness:
  "case run_film film_undo breaks_on_write of
     (Inr x, r) \<Rightarrow> er_certainty x = NoEffect \<and> er_rollback x = RollbackSuccess \<and> er_created x \<noteq> [] \<and>
       Changed 1 (Write film_target (0, ''heat.mkv'') False) (Inl (OsFault ''reset'')) \<in> set (ru_log r)
   | _ \<Rightarrow> False"
proof -
  obtain f r where r: "primary (film_world start_paths breaks_on_write granted) film_undo store_in store_out
     (execution_source film_undo None) (execution_target film_undo None) start_run = (Inl (External f), r)"
    "ordinary (External f)" "ru_effects r \<noteq> []" "\<forall>o' \<in> set (ru_effects r). ow_action o' = ''DELETE_DIRECTORY''"
    "ru_created r \<noteq> []" "Changed 1 (Write film_target (0, ''heat.mkv'') False) (Inl (OsFault ''reset'')) \<in> set (ru_log r)"
    using film_undo_breaks by (auto simp: list_all_iff split: prod.splits sum.splits fault.splits)
  from rollback_claims_no_effect [OF film_undo_ready r(1-4), of no_digest None] r(5,6)
  show ?thesis by (auto simp: run_film_def)
qed

section \<open>A cleanup that failed in the middle\<close>

definition film_cleaned :: plan where
  "film_cleaned = film_move\<lparr>pl_source := ''films/heat.mkv'',
     pl_source_location := Some \<lparr>lo_storage = ''in'', lo_path = ''films/heat.mkv''\<rparr>,
     pl_cleanup := \<lparr>cl_mode = CleanupIgnorable, cl_parents = 1, cl_patterns = [''*.nfo''], cl_entries = 100\<rparr>\<rparr>"

definition breaks_on_second_nfo :: "change \<Rightarrow> bool" where
  "breaks_on_second_nfo c = (c = Remove ''films/b.nfo'')"

text \<open>The second deletion raises, nobody knows whether it was made, and the result is verified and complete.\<close>

lemma partial_cleanup_claims_complete:
  "case execute (film_world [(0, ''films/heat.mkv''), (0, ''films/a.nfo''), (0, ''films/b.nfo'')] breaks_on_second_nfo granted)
     no_digest film_cleaned film_stores True None None None start_run of
     (Inr x, r) \<Rightarrow> er_status x = ExecPartial \<and> er_cleanup x = CleanupPartial \<and> er_certainty x = VerifiedComplete \<and>
       er_uncertain x = [] \<and> Changed 0 (Remove ''films/a.nfo'') (Inr ()) \<in> set (ru_log r) \<and>
       Changed 0 (Remove ''films/b.nfo'') (Inl (OsFault ''reset'')) \<in> set (ru_log r)
   | _ \<Rightarrow> False"
  by code_simp

end
