(* ===== verification/Direct_Commands.thy ===== *)
theory Direct_Commands
  imports Organize_Execution
begin

text \<open>
  The direct Files commands of \<open>OrganizerExecutor\<close>: one change on exact paths, admitted by evidence of what
  the operator saw, asked for once and verified. Evidence is compared with a fresh observation right
  before the change. SHA-256 and the text of an instant (\<open>isoformat\<close>) are arguments; logging is left out.
\<close>

section \<open>Evidence and results\<close>

record direct_evidence =
  de_size :: int
  de_modified :: string
  de_directory :: bool
  de_fingerprint :: "string option"

record text_evidence =
  te_size :: int
  te_modified :: string
  te_digest :: string

datatype checkpoint = SourceObserved | CopyWritten | DestinationVerified | SourceDeleted

fun checkpoint_text :: "checkpoint \<Rightarrow> string" where
  "checkpoint_text SourceObserved = ''source_observed''"
| "checkpoint_text CopyWritten = ''copy_written''"
| "checkpoint_text DestinationVerified = ''destination_verified''"
| "checkpoint_text SourceDeleted = ''source_deleted''"

definition direct_result :: "plan_operation \<Rightarrow> string \<Rightarrow> string \<Rightarrow> organize_status \<Rightarrow> execution_result" where
  "direct_result op s t status =
     \<lparr>er_status = status, er_operation = op, er_source = s, er_destination = t, er_created = [], er_completed = [],
      er_warnings = [], er_errors = [], er_plan_id = [], er_resolved = [], er_rollback = RollbackNotNeeded,
      er_rollback_steps = [], er_cleanup = CleanupDisabled, er_cleanup_steps = [], er_certainty = NoEffect,
      er_uncertain = [], er_primary = False, er_attachments = []\<rparr>"

definition direct_failure :: "plan_operation \<Rightarrow> string \<Rightarrow> string \<Rightarrow> string \<Rightarrow> execution_result" where
  "direct_failure op s t e = (direct_result op s t ExecFailed)\<lparr>er_errors := [e]\<rparr>"

definition direct_doubt :: "plan_operation \<Rightarrow> string \<Rightarrow> string \<Rightarrow> string \<Rightarrow> string \<Rightarrow> execution_result" where
  "direct_doubt op s t e what =
     (direct_failure op s t e)\<lparr>er_certainty := AttemptedUnverified, er_uncertain := [what]\<rparr>"

definition direct_success :: "plan_operation \<Rightarrow> string \<Rightarrow> string \<Rightarrow> string list \<Rightarrow> execution_result" where
  "direct_success op s t completed =
     (direct_result op s t ExecSuccess)\<lparr>er_completed := completed, er_certainty := VerifiedComplete\<rparr>"

definition direct_dry_run :: "plan_operation \<Rightarrow> string \<Rightarrow> string \<Rightarrow> execution_result" where
  "direct_dry_run op s t =
     (direct_result op s t ExecDryRun)\<lparr>er_warnings := [''dry-run: no Storage mutation was executed'']\<rparr>"

fun before_text :: "string \<Rightarrow> string \<Rightarrow> string" where
  "before_text sep [] = []"
| "before_text sep (c # cs) = (if starts_with sep (c # cs) then [] else c # before_text sep cs)"

definition fingerprint_identity :: "string option \<Rightarrow> string option" where
  "fingerprint_identity v =
     (case v of
        None \<Rightarrow> None
      | Some f \<Rightarrow> Some (if starts_with ''inode:'' f then before_text '':ctime:'' f else f))"

definition has_fingerprint :: "direct_evidence \<Rightarrow> bool" where
  "has_fingerprint ev = (de_fingerprint ev \<noteq> None \<and> de_fingerprint ev \<noteq> Some [])"

definition version_mismatch :: "(instant \<Rightarrow> string) \<Rightarrow> entry \<Rightarrow> direct_evidence \<Rightarrow> bool" where
  "version_mismatch stamp e ev =
     (if de_directory ev \<noteq> (se_type e = DirectoryEntry) then True
      else if de_directory ev
      then has_fingerprint ev \<and> fingerprint_identity (se_fingerprint e) \<noteq> fingerprint_identity (de_fingerprint ev)
      else has_fingerprint ev \<and> se_fingerprint e \<noteq> de_fingerprint ev \<or>
        se_size e \<noteq> de_size ev \<or> stamp (se_modified e) \<noteq> de_modified ev)"

section \<open>Checks before a command\<close>

definition direct_capability_error :: "plan_operation \<Rightarrow> storage \<Rightarrow> string option" where
  "direct_capability_error op s =
     (if st_read_only s then Some (''capability denied: '' @ operation_text op @ '' requires writable Storage'')
      else case st_caps s of
        None \<Rightarrow> None
      | Some c \<Rightarrow>
          if op = DoRename \<and> \<not> can_move c \<or> op = DoDelete \<and> \<not> can_delete c
          then Some (''unsupported capability: '' @ operation_text op @ '' is not supported'') else None)"

definition writable_error :: "plan_operation \<Rightarrow> storage \<Rightarrow> string option" where
  "writable_error op s =
     (if st_read_only s then Some (''capability denied: '' @ operation_text op @ '' requires writable Storage'') else None)"

definition capable_or_writable ::
  "plan_operation \<Rightarrow> storage \<Rightarrow> string \<Rightarrow> (capabilities \<Rightarrow> bool) \<Rightarrow> string option" where
  "capable_or_writable op s name able =
     (case st_caps s of None \<Rightarrow> writable_error op s | Some c \<Rightarrow> denied_or_unsupported name s (able c))"

text \<open>The target is \<open>None\<close> within one storage.\<close>

definition transfer_capability_error :: "plan_operation \<Rightarrow> storage \<Rightarrow> storage option \<Rightarrow> string option" where
  "transfer_capability_error op src dst =
     (case op of
        DoCopy \<Rightarrow> writable_error op (case dst of None \<Rightarrow> src | Some d \<Rightarrow> d)
      | DoMove \<Rightarrow>
          (case dst of
             None \<Rightarrow> capable_or_writable op src ''MOVE'' can_move
           | Some d \<Rightarrow>
               (case writable_error op d of
                  Some e \<Rightarrow> Some e
                | None \<Rightarrow> capable_or_writable op src ''MOVE source DELETE'' can_delete))
      | DoDelete \<Rightarrow> capable_or_writable op src ''DELETE'' can_delete
      | _ \<Rightarrow> Some (''unsupported capability: '' @ operation_text op @ '' is not supported''))"

definition conflict_preflight :: "world \<Rightarrow> storage \<Rightarrow> string \<Rightarrow> string option act" where
  "conflict_preflight w s p =
     bind_act (exists_at w s p) (\<lambda>found. return_act (if found then Some ''destination already exists'' else None))"

definition exists_preflight ::
  "world \<Rightarrow> (instant \<Rightarrow> string) \<Rightarrow> storage \<Rightarrow> string \<Rightarrow> direct_evidence option \<Rightarrow> string option act" where
  "exists_preflight w stamp s p evidence =
     bind_act (exists_at w s p) (\<lambda>found.
     if \<not> found then return_act (Some ''source does not exist'')
     else case evidence of
       None \<Rightarrow> return_act (Some ''entry version evidence is required before this Storage mutation'')
     | Some ev \<Rightarrow> bind_act (stat_at w s p) (\<lambda>e.
         if version_mismatch stamp e ev then return_act (Some ''entry changed since it was confirmed'')
         else if de_directory ev \<and> se_type e = DirectoryEntry
         then bind_act (list_at w s p) (\<lambda>es. return_act
           (if es \<noteq> [] then Some ''directory contains entries outside the confirmed Delete effect'' else None))
         else return_act None))"

definition write_preflight ::
  "world \<Rightarrow> (string \<Rightarrow> string) \<Rightarrow> storage \<Rightarrow> string \<Rightarrow> bool \<Rightarrow> text_evidence option \<Rightarrow> string option act" where
  "write_preflight w digest s p overwrite evidence =
     (let changed = return_act (Some ''source content changed since it was loaded'') in
      bind_act (exists_at w s p) (\<lambda>found.
      if \<not> found then (if evidence \<noteq> None then changed else return_act None)
      else if \<not> overwrite then return_act (Some ''destination already exists'')
      else bind_act (stat_at w s p) (\<lambda>e.
        if se_type e \<noteq> FileEntry then return_act (Some ''destination is not a regular file'')
        else case evidence of
          None \<Rightarrow> return_act None
        | Some ev \<Rightarrow> bind_act (stat_at w s p) (\<lambda>e.
            if se_size e \<noteq> te_size ev then changed
            else bind_act (bytes_at w s p) (\<lambda>content.
              let raw = take (nat (te_size ev + 1)) content in
              if int (length raw) \<noteq> te_size ev \<or> digest raw \<noteq> te_digest ev then changed else return_act None)))))"

definition rename_preflight ::
  "world \<Rightarrow> (instant \<Rightarrow> string) \<Rightarrow> storage \<Rightarrow> string \<Rightarrow> string \<Rightarrow> direct_evidence option \<Rightarrow> string option act" where
  "rename_preflight w stamp st s t evidence =
     bind_act (exists_at w st s) (\<lambda>found.
     if \<not> found then return_act (Some ''source does not exist'')
     else bind_act (exists_at w st t) (\<lambda>taken.
       if taken then return_act (Some ''destination already exists'')
       else case evidence of
         None \<Rightarrow> return_act (Some ''entry version evidence is required before this Storage mutation'')
       | Some ev \<Rightarrow> bind_act (stat_at w st s) (\<lambda>e. return_act
           (if version_mismatch stamp e ev then Some ''source changed since it was observed'' else None))))"

definition transfer_preflight ::
  "world \<Rightarrow> (instant \<Rightarrow> string) \<Rightarrow> storage \<Rightarrow> string \<Rightarrow> direct_evidence option \<Rightarrow> bool \<Rightarrow> string option act" where
  "transfer_preflight w stamp st s evidence required =
     bind_act (exists_at w st s) (\<lambda>found.
     if \<not> found then return_act (Some ''source does not exist'')
     else bind_act (stat_at w st s) (\<lambda>e. return_act
       (case evidence of
          None \<Rightarrow> if required then Some ''source observation is unavailable before this Storage mutation'' else None
        | Some ev \<Rightarrow>
            if (se_type e = DirectoryEntry) \<noteq> de_directory ev \<or>
               (if has_fingerprint ev then version_mismatch stamp e ev
                else if se_type e = DirectoryEntry then False
                else se_size e \<noteq> de_size ev \<or> stamp (se_modified e) \<noteq> de_modified ev)
            then Some ''source changed since it was observed'' else None)))"

section \<open>Running one command\<close>

text \<open>\<open>try\<close> with the ordinary faults turned into a result, and a refusal of the hook turned into one.\<close>

definition trying ::
  "'a act \<Rightarrow> (fault \<Rightarrow> execution_result act) \<Rightarrow> ('a \<Rightarrow> execution_result act) \<Rightarrow> execution_result act" where
  "trying m failed go =
     bind_act
       (catch_act (bind_act m (\<lambda>x. return_act (Inr x)))
         (\<lambda>e. if ordinary e then bind_act (failed e) (\<lambda>x. return_act (Inl x)) else raise_act e))
       (\<lambda>v. case v of Inl x \<Rightarrow> return_act x | Inr x \<Rightarrow> go x)"

definition under_authority ::
  "world \<Rightarrow> string \<Rightarrow> (string \<Rightarrow> execution_result) \<Rightarrow> execution_result act \<Rightarrow> execution_result act" where
  "under_authority w boundary refused go =
     bind_act
       (catch_act (bind_act (check_authority w boundary) (\<lambda>_. return_act None))
         (\<lambda>e. case e of Refused b _ \<Rightarrow> return_act (Some (refused (authority_error b))) | _ \<Rightarrow> raise_act e))
       (\<lambda>v. case v of Some x \<Rightarrow> return_act x | None \<Rightarrow> go)"

definition unless_error :: "string option act \<Rightarrow> (string \<Rightarrow> execution_result) \<Rightarrow> execution_result act \<Rightarrow> execution_result act" where
  "unless_error m failed go = bind_act m (\<lambda>v. case v of Some e \<Rightarrow> return_act (failed e) | None \<Rightarrow> go)"

text \<open>The checks every command starts with: safe paths, a real run, the capabilities.\<close>

definition direct_checks ::
  "plan_operation \<Rightarrow> string \<Rightarrow> string \<Rightarrow> bool \<Rightarrow> string option \<Rightarrow> execution_result act \<Rightarrow> execution_result act" where
  "direct_checks op s t run_it capability go =
     (if unsafe_relative_path s \<or> unsafe_relative_path t then return_act (direct_failure op s t ''invalid destination'')
      else if \<not> run_it then return_act (direct_dry_run op s t)
      else case capability of Some e \<Rightarrow> return_act (direct_failure op s t e) | None \<Rightarrow> go)"

definition execute_direct ::
  "world \<Rightarrow> plan_operation \<Rightarrow> storage \<Rightarrow> string \<Rightarrow> string \<Rightarrow> bool \<Rightarrow> string option act \<Rightarrow> unit act \<Rightarrow> bool act \<Rightarrow>
   execution_result act" where
  "execute_direct w op st s t run_it preflight change verify =
     direct_checks op s t run_it (direct_capability_error op st)
       (unless_error preflight (direct_failure op s t)
       (under_authority w (''DIRECT:'' @ operation_text op) (direct_failure op s t)
       (trying change (\<lambda>e. return_act (direct_failure op s t (bounded_error e))) (\<lambda>_.
        trying verify (\<lambda>e. return_act (direct_doubt op s t (bounded_error e) ''mutation_outcome'')) (\<lambda>ok.
        return_act (if ok then direct_success op s t []
          else direct_doubt op s t ''direct mutation verification failed'' ''mutation_outcome''))))))"

definition direct_create_directory :: "world \<Rightarrow> storage \<Rightarrow> string \<Rightarrow> bool \<Rightarrow> execution_result act" where
  "direct_create_directory w st p run_it =
     execute_direct w DoCreateDirectory st p p run_it (conflict_preflight w st p) (change_at w st (MakeDirectory p))
       (bind_act (exists_at w st p) (\<lambda>found.
        if \<not> found then return_act False
        else bind_act (stat_at w st p) (\<lambda>e. return_act (se_type e = DirectoryEntry))))"

definition direct_write ::
  "world \<Rightarrow> (string \<Rightarrow> string) \<Rightarrow> storage \<Rightarrow> string \<Rightarrow> string \<Rightarrow> bool \<Rightarrow> text_evidence option \<Rightarrow> bool \<Rightarrow> execution_result act" where
  "direct_write w digest st p data overwrite evidence run_it =
     execute_direct w DoWrite st p p run_it (write_preflight w digest st p overwrite evidence)
       (change_at w st (WriteBytes p data overwrite))
       (bind_act (exists_at w st p) (\<lambda>found.
        if \<not> found then return_act False
        else bind_act (stat_at w st p) (\<lambda>e. return_act (se_size e = int (length data)))))"

definition direct_rename ::
  "world \<Rightarrow> (instant \<Rightarrow> string) \<Rightarrow> storage \<Rightarrow> string \<Rightarrow> string \<Rightarrow> direct_evidence option \<Rightarrow> bool \<Rightarrow> execution_result act" where
  "direct_rename w stamp st s t evidence run_it =
     execute_direct w DoRename st s t run_it (rename_preflight w stamp st s t evidence)
       (change_at w st (MoveTo s t False))
       (bind_act (exists_at w st s) (\<lambda>left. if left then return_act False else exists_at w st t))"

definition direct_delete ::
  "world \<Rightarrow> (instant \<Rightarrow> string) \<Rightarrow> storage \<Rightarrow> string \<Rightarrow> direct_evidence option \<Rightarrow> bool \<Rightarrow> execution_result act" where
  "direct_delete w stamp st p evidence run_it =
     execute_direct w DoDelete st p p run_it (exists_preflight w stamp st p evidence) (change_at w st (Remove p))
       (bind_act (exists_at w st p) (\<lambda>left. return_act (\<not> left)))"

section \<open>Uploads\<close>

definition streamed_write_verified :: "world \<Rightarrow> storage \<Rightarrow> string \<Rightarrow> int \<Rightarrow> bool act" where
  "streamed_write_verified w st p expected =
     catch_act
       (bind_act (exists_at w st p) (\<lambda>found.
        if \<not> found then return_act False
        else bind_act (stat_at w st p) (\<lambda>e. return_act (se_type e = FileEntry \<and> se_size e = expected))))
       (\<lambda>e. if ordinary e then return_act False else raise_act e)"

definition streamed_artifact_present :: "world \<Rightarrow> storage \<Rightarrow> string \<Rightarrow> bool act" where
  "streamed_artifact_present w st p =
     catch_act
       (bind_act (exists_at w st p) (\<lambda>found.
        if \<not> found then return_act False
        else bind_act (stat_at w st p) (\<lambda>e. return_act (se_type e \<in> {FileEntry, OtherEntry}))))
       (\<lambda>e. if ordinary e then return_act True else raise_act e)"

definition direct_write_stream :: "world \<Rightarrow> storage \<Rightarrow> string \<Rightarrow> int \<Rightarrow> bool \<Rightarrow> execution_result act" where
  "direct_write_stream w st p expected run_it =
     direct_checks DoWrite p p run_it (direct_capability_error DoWrite st)
       (unless_error (conflict_preflight w st p) (direct_failure DoWrite p p)
       (under_authority w ''DIRECT:WRITE'' (direct_failure DoWrite p p)
       (trying (change_at w st (WriteStream p False))
         (\<lambda>e. bind_act (streamed_artifact_present w st p) (\<lambda>partial. return_act
           (if partial
            then (direct_doubt DoWrite p p (bounded_error e) ''partial_write'')\<lparr>er_completed := [''write_started'']\<rparr>
            else direct_failure DoWrite p p (bounded_error e))))
         (\<lambda>_. trying (streamed_write_verified w st p expected)
           (\<lambda>e. return_act (direct_doubt DoWrite p p
             (''upload destination verification failed: '' @ bounded_error e) ''mutation_outcome''))
           (\<lambda>ok. return_act (if ok then direct_success DoWrite p p [''write'']
             else direct_doubt DoWrite p p ''upload destination verification failed: size mismatch'' ''mutation_outcome''))))))"

section \<open>Copies and moves\<close>

text \<open>Whether both ends are one storage is decided by the caller, or else by the identity of the objects.\<close>

definition one_storage :: "storage \<Rightarrow> storage \<Rightarrow> bool option \<Rightarrow> bool" where
  "one_storage src dst same = (case same of None \<Rightarrow> same_storage src dst | Some b \<Rightarrow> b)"

text \<open>
  A copy to another storage: the bytes that went through the reader are those the target must hold,
  which is found out by reading the target again.
\<close>

definition stream_copy_verified ::
  "world \<Rightarrow> (string \<Rightarrow> string) \<Rightarrow> storage \<Rightarrow> storage \<Rightarrow> string \<Rightarrow> string \<Rightarrow> int option \<Rightarrow> int act" where
  "stream_copy_verified w digest src dst s t expected =
     (let wrong = (\<lambda>what. runtime_error (''transfer destination verification failed'' @ what)) in
      bind_act (stream_to w src s dst t False) (\<lambda>_.
      bind_act (sent_bytes w) (\<lambda>sent.
      bind_act (exists_at w dst t) (\<lambda>found.
      if \<not> found then wrong []
      else bind_act (stat_at w dst t) (\<lambda>e.
        if se_type e \<noteq> FileEntry then wrong '': wrong entry type''
        else if expected \<noteq> None \<and> expected \<noteq> Some (se_size e) then wrong '': size mismatch''
        else if int (length sent) \<noteq> se_size e then wrong '': size mismatch''
        else bind_act (bytes_at w dst t) (\<lambda>content.
          if digest content \<noteq> digest sent then wrong '': digest mismatch''
          else return_act (int (length sent))))))))"

definition cross_storage_copy ::
  "world \<Rightarrow> (string \<Rightarrow> string) \<Rightarrow> storage \<Rightarrow> storage \<Rightarrow> string \<Rightarrow> string \<Rightarrow> direct_evidence option \<Rightarrow> string act" where
  "cross_storage_copy w digest src dst s t evidence =
     bind_act (stream_copy_verified w digest src dst s t (map_option de_size evidence)) (\<lambda>_. return_act ''COPY'')"

definition native_copy ::
  "world \<Rightarrow> storage \<Rightarrow> storage \<Rightarrow> string \<Rightarrow> string \<Rightarrow> direct_evidence option \<Rightarrow> string act" where
  "native_copy w src dst s t evidence =
     bind_act (change_at w src (CopyTo s t False)) (\<lambda>_.
     bind_act (exists_at w dst t) (\<lambda>found.
     if \<not> found then runtime_error ''copy verification failed''
     else bind_act (stat_at w dst t) (\<lambda>e.
       if se_type e \<noteq> FileEntry then runtime_error ''copy verification failed: destination type mismatch''
       else if (case evidence of None \<Rightarrow> False | Some ev \<Rightarrow> se_size e \<noteq> de_size ev)
       then runtime_error ''copy verification failed: size mismatch''
       else return_act ''COPY'')))"

definition direct_copy ::
  "world \<Rightarrow> (string \<Rightarrow> string) \<Rightarrow> (instant \<Rightarrow> string) \<Rightarrow> storage \<Rightarrow> storage \<Rightarrow> string \<Rightarrow> string \<Rightarrow>
   direct_evidence option \<Rightarrow> bool option \<Rightarrow> bool \<Rightarrow> execution_result act" where
  "direct_copy w digest stamp src dst s t evidence same run_it =
     (let one = one_storage src dst same; failed = direct_failure DoCopy s t in
      direct_checks DoCopy s t run_it (transfer_capability_error DoCopy src (if one then None else Some dst))
        (unless_error (transfer_preflight w stamp src s evidence False) failed
        (unless_error (conflict_preflight w dst t) failed
        (under_authority w ''DIRECT:COPY'' failed
        (trying (if one then native_copy w src dst s t evidence else cross_storage_copy w digest src dst s t evidence)
          (\<lambda>e. return_act (direct_doubt DoCopy s t (bounded_error e) ''destination_write''))
          (\<lambda>written. return_act (direct_success DoCopy s t [written])))))))"

definition moved_partly :: "string \<Rightarrow> string \<Rightarrow> string \<Rightarrow> execution_result" where
  "moved_partly s t e =
     (direct_result DoMove s t ExecPartial)\<lparr>er_errors := [e], er_certainty := VerifiedComplete,
        er_completed := map checkpoint_text [CopyWritten, DestinationVerified]\<rparr>"

definition moved_in_doubt :: "string \<Rightarrow> string \<Rightarrow> string \<Rightarrow> execution_result" where
  "moved_in_doubt s t e =
     (moved_partly s t e)\<lparr>er_certainty := AttemptedUnverified, er_uncertain := [''source_deletion'']\<rparr>"

text \<open>Once the copy is verified: the source is seen again with its evidence, and deleted.\<close>

definition delete_source ::
  "world \<Rightarrow> (instant \<Rightarrow> string) \<Rightarrow> storage \<Rightarrow> string \<Rightarrow> string \<Rightarrow> direct_evidence option \<Rightarrow> execution_result act" where
  "delete_source w stamp src s t evidence =
     unless_error (transfer_preflight w stamp src s evidence True) (moved_partly s t)
     (under_authority w ''DIRECT:CROSS_STORAGE_DELETE_SOURCE'' (moved_partly s t)
     (trying (change_at w src (Remove s)) (\<lambda>e. return_act (moved_in_doubt s t (bounded_error e))) (\<lambda>_.
      bind_act (exists_at w src s) (\<lambda>left. return_act
        (if left then moved_in_doubt s t ''cross-storage move source deletion was not verified''
         else direct_success DoMove s t (map checkpoint_text [CopyWritten, DestinationVerified, SourceDeleted]))))))"

definition cross_storage_move ::
  "world \<Rightarrow> (string \<Rightarrow> string) \<Rightarrow> (instant \<Rightarrow> string) \<Rightarrow> storage \<Rightarrow> storage \<Rightarrow> string \<Rightarrow> string \<Rightarrow>
   direct_evidence option \<Rightarrow> bool \<Rightarrow> execution_result act" where
  "cross_storage_move w digest stamp src dst s t evidence verified =
     (if verified then delete_source w stamp src s t evidence
      else trying (stream_copy_verified w digest src dst s t (map_option de_size evidence))
        (\<lambda>e. return_act (direct_doubt DoMove s t (bounded_error e) ''destination_write''))
        (\<lambda>_. delete_source w stamp src s t evidence))"

definition native_move :: "world \<Rightarrow> storage \<Rightarrow> storage \<Rightarrow> string \<Rightarrow> string \<Rightarrow> execution_result act" where
  "native_move w src dst s t =
     under_authority w ''DIRECT:MOVE'' (direct_failure DoMove s t)
     (trying (change_at w src (MoveTo s t False))
       (\<lambda>e. return_act (direct_doubt DoMove s t (bounded_error e) ''move_outcome''))
       (\<lambda>_. bind_act (exists_at w src s) (\<lambda>left.
        bind_act (if left then return_act False else exists_at w dst t) (\<lambda>arrived. return_act
          (if arrived then direct_success DoMove s t [''MOVE'']
           else direct_doubt DoMove s t ''move verification failed'' ''move_outcome'')))))"

definition direct_move ::
  "world \<Rightarrow> (string \<Rightarrow> string) \<Rightarrow> (instant \<Rightarrow> string) \<Rightarrow> storage \<Rightarrow> storage \<Rightarrow> string \<Rightarrow> string \<Rightarrow>
   direct_evidence option \<Rightarrow> bool option \<Rightarrow> bool \<Rightarrow> bool \<Rightarrow> execution_result act" where
  "direct_move w digest stamp src dst s t evidence same verified run_it =
     (let one = one_storage src dst same; failed = direct_failure DoMove s t in
      direct_checks DoMove s t run_it (transfer_capability_error DoMove src (if one then None else Some dst))
        (unless_error (transfer_preflight w stamp src s evidence False) failed
        (if verified \<and> \<not> one then cross_storage_move w digest stamp src dst s t evidence True
         else unless_error (conflict_preflight w dst t) failed
           (if one then native_move w src dst s t
            else cross_storage_move w digest stamp src dst s t evidence False))))"

text \<open>\<open>None\<close> is an absent directory, \<open>Some None\<close> an empty one.\<close>

definition emptied_directory :: "world \<Rightarrow> storage \<Rightarrow> string \<Rightarrow> string option option act" where
  "emptied_directory w st p =
     bind_act (exists_at w st p) (\<lambda>found.
     if \<not> found then return_act None
     else bind_act (stat_at w st p) (\<lambda>e.
       if se_type e \<noteq> DirectoryEntry then return_act (Some (Some ''source is not a directory''))
       else bind_act (list_at w st p) (\<lambda>es. return_act
         (Some (if es \<noteq> [] then Some ''directory is not empty'' else None)))))"

definition direct_remove_empty_directory :: "world \<Rightarrow> storage \<Rightarrow> string \<Rightarrow> bool \<Rightarrow> execution_result act" where
  "direct_remove_empty_directory w st p run_it =
     direct_checks DoDelete p p run_it (transfer_capability_error DoDelete st None)
       (trying (emptied_directory w st p) (\<lambda>e. return_act (direct_failure DoDelete p p (bounded_error e))) (\<lambda>v.
        case v of
          None \<Rightarrow> return_act (direct_success DoDelete p p [''DIRECTORY_ALREADY_ABSENT''])
        | Some (Some e) \<Rightarrow> return_act (direct_failure DoDelete p p e)
        | Some None \<Rightarrow>
            under_authority w ''DIRECT:DELETE_EMPTY_DIRECTORY'' (direct_failure DoDelete p p)
            (trying (change_at w st (Remove p))
              (\<lambda>e. return_act (direct_doubt DoDelete p p (bounded_error e) ''directory_delete''))
              (\<lambda>_. bind_act (exists_at w st p) (\<lambda>left. return_act
                (if left then direct_doubt DoDelete p p ''directory removal verification failed'' ''directory_delete''
                 else direct_success DoDelete p p [''DELETE_EMPTY_DIRECTORY'']))))))"

section \<open>Reading only\<close>

definition storage_or_os :: "fault \<Rightarrow> bool" where
  "storage_or_os e = (case e of External x \<Rightarrow> (case x of StorageFault _ _ \<Rightarrow> True | OsFault _ \<Rightarrow> True | _ \<Rightarrow> False) | _ \<Rightarrow> False)"

definition verify_streamed_copy ::
  "world \<Rightarrow> (string \<Rightarrow> string) \<Rightarrow> storage \<Rightarrow> storage \<Rightarrow> string \<Rightarrow> string \<Rightarrow> int option \<Rightarrow> bool act" where
  "verify_streamed_copy w digest src dst s t expected =
     catch_act
       (bind_act (exists_at w dst t) (\<lambda>there.
        if \<not> there then return_act False
        else bind_act (exists_at w src s) (\<lambda>here.
          if \<not> here then return_act False
          else bind_act (stat_at w dst t) (\<lambda>e.
            if se_type e \<noteq> FileEntry then return_act False
            else bind_act (stat_at w src s) (\<lambda>original.
              if expected \<noteq> None \<and> expected \<noteq> Some (se_size e) \<or> se_size e \<noteq> se_size original
              then return_act False
              else bind_act (bytes_at w dst t) (\<lambda>copied.
                bind_act (bytes_at w src s) (\<lambda>content. return_act (digest copied = digest content))))))))
       (\<lambda>e. if storage_or_os e then return_act False else raise_act e)"

record cleanup_projection =
  cj_parent :: string
  cj_mode :: cleanup_mode
  cj_patterns :: "string list"
  cj_parents :: int
  cj_entries :: int
  cj_matched :: "string list"
  cj_blocking :: "string list"
  cj_outcome :: string

definition projected_entries :: "cleanup_policy \<Rightarrow> string \<Rightarrow> entry list \<Rightarrow> string list \<times> string list \<times> string" where
  "projected_entries policy parent es =
     (if cl_entries policy < int (length es) then ([], [], ''blocked_entry_limit'')
      else let matched = filter (\<lambda>e. cleanup_entry_matches parent e policy) es;
               blocking = filter (\<lambda>e. \<not> cleanup_entry_matches parent e policy) es in
        (map se_path matched, map se_path blocking,
         if blocking \<noteq> [] then ''blocked_unknown_entries''
         else if matched \<noteq> [] then ''will_delete_matched_files_then_empty_directory''
         else ''directory_would_be_removed''))"

definition project_source_cleanup :: "world \<Rightarrow> plan \<Rightarrow> storage \<Rightarrow> string \<Rightarrow> cleanup_projection act" where
  "project_source_cleanup w p st storage_source =
     (let policy = pl_cleanup p; source = normpath storage_source;
          library = (if pl_source_root p = [] then [] else normpath (pl_source_root p)); parent = path_dirname source;
          confined = (parent \<noteq> [] \<and> parent \<noteq> library \<and> (library = [] \<or> starts_with (library @ [slash]) parent));
          projection = (\<lambda>(matched, blocking, outcome). \<lparr>cj_parent = parent, cj_mode = cl_mode policy,
            cj_patterns = cl_patterns policy, cj_parents = cl_parents policy, cj_entries = cl_entries policy,
            cj_matched = sort_by text_le matched, cj_blocking = sort_by text_le blocking, cj_outcome = outcome\<rparr>) in
      if cl_mode policy = CleanupNone then return_act (projection ([], [], ''disabled''))
      else if pl_operation p \<noteq> DoMove then return_act (projection ([], [], ''not_applicable''))
      else if \<not> confined \<or> starts_with ''/'' parent then return_act (projection ([], [], ''blocked_boundary''))
      else bind_act
        (catch_act (bind_act (list_at w st parent) (\<lambda>es. return_act (projected_entries policy parent es)))
          (\<lambda>e. if ordinary e then return_act ([], [], ''unavailable'') else raise_act e))
        (\<lambda>x. return_act (projection x)))"

end
