(* ===== verification/Direct_Facts.thy ===== *)
theory Direct_Facts
  imports Direct_Commands Execution_Outcome
begin

text \<open>
  What a direct command does to a history: it is steady under its own grant, it fails bluntly, and the
  events around its change are known.
\<close>

section \<open>Commands\<close>

datatype direct_command =
    CreateDirectory storage string
  | WriteText storage string string bool "text_evidence option"
  | Upload storage string int
  | Rename storage string string "direct_evidence option"
  | Delete storage string "direct_evidence option"
  | CopyFile storage storage string string "direct_evidence option" "bool option"
  | MoveFile storage storage string string "direct_evidence option" "bool option" bool
  | RemoveEmptied storage string

definition run_direct ::
  "world \<Rightarrow> (string \<Rightarrow> string) \<Rightarrow> (instant \<Rightarrow> string) \<Rightarrow> bool \<Rightarrow> direct_command \<Rightarrow> execution_result act" where
  "run_direct w digest stamp run_it c =
     (case c of
        CreateDirectory st p \<Rightarrow> direct_create_directory w st p run_it
      | WriteText st p data overwrite ev \<Rightarrow> direct_write w digest st p data overwrite ev run_it
      | Upload st p expected \<Rightarrow> direct_write_stream w st p expected run_it
      | Rename st s t ev \<Rightarrow> direct_rename w stamp st s t ev run_it
      | Delete st p ev \<Rightarrow> direct_delete w stamp st p ev run_it
      | CopyFile src dst s t ev same \<Rightarrow> direct_copy w digest stamp src dst s t ev same run_it
      | MoveFile src dst s t ev same verified \<Rightarrow> direct_move w digest stamp src dst s t ev same verified run_it
      | RemoveEmptied st p \<Rightarrow> direct_remove_empty_directory w st p run_it)"

section \<open>Commands ask\<close>

lemma steady_unless_error [steady_intros]:
  "steady w A always m \<Longrightarrow> steady w A P go \<Longrightarrow> steady w A P (unless_error m failed go)"
  unfolding unless_error_def by (intro steady_seq steady_option steady_locals)

lemma steady_checks [steady_intros]:
  "steady w A P go \<Longrightarrow> steady w A P (direct_checks op s t run_it capability go)"
  unfolding direct_checks_def by (intro steady_if steady_option steady_locals)

lemma steady_ordinary:
  "(\<And>e. steady w A P (failed e)) \<Longrightarrow> steady w A P m \<Longrightarrow>
    steady w A P (catch_act m (\<lambda>e. if ordinary e then failed e else raise_act e))"
  by (rule steady_catch_through) (auto intro!: steady_intros simp: ordinary_def)

lemma steady_trying [steady_intros]:
  assumes "steady w A always m" "\<And>e. steady w A always (failed e)" "\<And>x. steady w A P (go x)"
  shows "steady w A P (trying m failed go)"
  unfolding trying_def
  by (intro steady_seq steady_sum steady_locals steady_ordinary assms)

lemma fired_trying:
  assumes "fired w A b always m" "\<And>e. steady w A always (failed e)" "\<And>x. steady w A P (go x)"
  shows "fired w A b P (trying m failed go)"
  unfolding trying_def
proof (rule fired_then)
  show "fired w A b always (catch_act (bind_act m (\<lambda>x. return_act (Inr x)))
      (\<lambda>e. if ordinary e then bind_act (failed e) (\<lambda>x. return_act (Inl x)) else raise_act e))"
    unfolding fired_def wp_catch wp_bind wp_return
  proof (intro allI impI, rule wp_mono [OF fired_wp [OF assms(1)]], goal_cases)
    case (3 r e s)
    have "steady w A always (bind_act (failed e) (\<lambda>x. return_act (Inl x)))" by (intro steady_seq assms steady_locals)
    from steady_wp [OF this] 3 show ?case
      by (cases "is_refused e") (auto simp: halted_def wp_raise ordinary_def is_refused_def split: fault.splits)
  qed auto
qed (intro steady_sum steady_locals assms)

lemma steady_under_authority [steady_intros]:
  assumes "fired w A b always go"
  shows "steady w A (\<lambda>_. False) (under_authority w b refused go)"
  unfolding steady_def
proof (intro allI impI)
  fix r
  assume c: "calm w A r"
  show "wp (under_authority w b refused go) (\<lambda>x s. kept w A (ru_log s) \<and> (False \<longrightarrow> calm w A s)) (halted w A) r"
    unfolding under_authority_def wp_bind wp_catch
    by (rule wp_mono [OF wp_authority_armed [OF c]])
      (auto simp: wp_return wp_raise halted_def intro!: wp_mono [OF fired_wp [OF assms]] split: fault.split)
qed

lemma steady_weak: "steady w A always m \<Longrightarrow> steady w A (\<lambda>_. False) m"
  by (erule steady_weaken) simp

lemma steady_preflights [steady_intros]:
  "steady w A P (conflict_preflight w st p)" "steady w A P (exists_preflight w stamp st p ev)"
  "steady w A P (write_preflight w digest st p overwrite tev)" "steady w A P (rename_preflight w stamp st s t ev)"
  "steady w A P (transfer_preflight w stamp st s ev b)" "steady w A Q (emptied_directory w st p)"
  unfolding conflict_preflight_def exists_preflight_def write_preflight_def rename_preflight_def
    transfer_preflight_def emptied_directory_def Let_def
  by (intro steady_intros)+

lemma fired_at:
  assumes "b \<in> set (allowed_boundaries c)"
  shows "fired w (\<lambda>_ _. True) b P (change_at w st c)"
  using assms by (rule fired_change) simp

lemma steady_execute_direct:
  assumes "\<And>A P. steady w A P preflight" "\<And>A P. steady w A P verify"
    "''DIRECT:'' @ operation_text op \<in> set (allowed_boundaries c)"
  shows "steady w (\<lambda>_ _. True) (\<lambda>_. False) (execute_direct w op st s t run_it preflight (change_at w st c) verify)"
  unfolding execute_direct_def
  by (intro steady_checks steady_unless_error steady_under_authority fired_trying fired_at steady_trying
      steady_locals assms)

lemma steady_artifact [steady_intros]:
  "steady w A P (streamed_artifact_present w st p)" "steady w A P (streamed_write_verified w st p n)"
  unfolding streamed_artifact_present_def streamed_write_verified_def
  by (intro steady_ordinary steady_intros)+

definition crosses :: "direct_command \<Rightarrow> bool" where
  "crosses c =
     (case c of MoveFile src dst s t ev same verified \<Rightarrow> \<not> one_storage src dst same \<and> \<not> verified | _ \<Rightarrow> False)"

lemma fired_native:
  "fired w (\<lambda>_ _. True) ''DIRECT:COPY'' always (native_copy w src dst s t ev)"
  unfolding native_copy_def
  by (rule fired_then [OF fired_at]) (auto simp: allowed_boundaries_def intro!: steady_intros)

lemma fired_copied:
  "fired w (\<lambda>_ _. True) ''DIRECT:COPY'' always (cross_storage_copy w digest src dst s t ev)"
proof -
  have "fired w (\<lambda>_ _. True) ''DIRECT:COPY'' always (stream_copy_verified w digest src dst s t n)" for n
    unfolding stream_copy_verified_def Let_def
    by (rule fired_then [OF fired_stream]) (auto simp: allowed_boundaries_def intro!: steady_intros)
  then show ?thesis
    unfolding cross_storage_copy_def by (intro fired_then steady_locals)
qed

lemma steady_delete_source:
  "steady w (\<lambda>_ _. True) (\<lambda>_. False) (delete_source w stamp src s t ev)"
  unfolding delete_source_def
  by (intro steady_unless_error steady_preflights steady_under_authority fired_trying fired_at steady_intros)
    (simp_all add: allowed_boundaries_def)

lemma steady_run_direct:
  assumes "\<not> crosses c"
  shows "steady w (\<lambda>_ _. True) (\<lambda>_. False) (run_direct w digest stamp run_it c)"
proof (cases c)
  case (CreateDirectory st p)
  show ?thesis unfolding CreateDirectory run_direct_def direct_command.case direct_create_directory_def
    by (intro steady_execute_direct steady_intros) (simp add: allowed_boundaries_def operation_text_def)
next
  case (WriteText st p data overwrite ev)
  show ?thesis unfolding WriteText run_direct_def direct_command.case direct_write_def
    by (intro steady_execute_direct steady_intros) (simp add: allowed_boundaries_def operation_text_def)
next
  case (Upload st p expected)
  show ?thesis unfolding Upload run_direct_def direct_command.case direct_write_stream_def
    by (intro steady_checks steady_unless_error steady_preflights steady_under_authority fired_trying fired_at
        steady_trying steady_intros) (simp add: allowed_boundaries_def)
next
  case (Rename st s t ev)
  show ?thesis unfolding Rename run_direct_def direct_command.case direct_rename_def
    by (intro steady_execute_direct steady_intros) (simp add: allowed_boundaries_def operation_text_def)
next
  case (Delete st p ev)
  show ?thesis unfolding Delete run_direct_def direct_command.case direct_delete_def
    by (intro steady_execute_direct steady_intros) (simp add: allowed_boundaries_def operation_text_def)
next
  case (CopyFile src dst s t ev same)
  show ?thesis unfolding CopyFile run_direct_def direct_command.case direct_copy_def Let_def
    by (intro steady_checks steady_unless_error steady_preflights steady_under_authority fired_trying steady_intros)
      (simp add: fired_native fired_copied)
next
  case (MoveFile src dst s t ev same verified)
  with assms have m: "one_storage src dst same \<or> verified" by (simp add: crosses_def)
  have native: "steady w (\<lambda>_ _. True) (\<lambda>_. False) (native_move w src dst s t)"
    unfolding native_move_def
    by (intro steady_under_authority fired_trying fired_at steady_intros) (simp_all add: allowed_boundaries_def)
  have "steady w (\<lambda>_ _. True) (\<lambda>_. False)
     (if verified \<and> \<not> one_storage src dst same then cross_storage_move w digest stamp src dst s t ev True
      else unless_error (conflict_preflight w dst t) (direct_failure DoMove s t)
        (if one_storage src dst same then native_move w src dst s t
         else cross_storage_move w digest stamp src dst s t ev False))"
    using m by (auto simp: cross_storage_move_def intro!: steady_delete_source native steady_unless_error steady_preflights)
  then show ?thesis unfolding MoveFile run_direct_def direct_command.case direct_move_def Let_def
    by (intro steady_checks steady_unless_error steady_preflights)
next
  case (RemoveEmptied st p)
  show ?thesis unfolding RemoveEmptied run_direct_def direct_command.case direct_remove_empty_directory_def
    by (intro steady_checks steady_trying steady_preflights steady_option steady_under_authority fired_trying fired_at
        steady_intros) (simp_all add: allowed_boundaries_def)
qed

end
