(* ===== verification/Direct_Outcome.thy ===== *)
theory Direct_Outcome
  imports Direct_Facts
begin

text \<open>
  The results of direct commands, the events around their changes, and the histories of a move to another
  storage: the copy with its proof, and the deletion of the source.
\<close>

section \<open>Complete means made\<close>

lemma blunt_unless_error [blunt_intros]:
  "blunt always m \<Longrightarrow> blunt P go \<Longrightarrow> blunt P (unless_error m failed go)"
  unfolding unless_error_def by (intro blunt_seq blunt_option blunt_looks)

lemma blunt_checks [blunt_intros]: "blunt P go \<Longrightarrow> blunt P (direct_checks op s t run_it capability go)"
  unfolding direct_checks_def by (intro blunt_if blunt_option blunt_looks)

lemma blunt_under_authority [blunt_intros]:
  assumes "blunt P go"
  shows "blunt P (under_authority w b refused go)"
proof -
  have "blunt always (catch_act (bind_act (check_authority w b) (\<lambda>_. return_act None))
     (\<lambda>e. case e of Refused b _ \<Rightarrow> return_act (Some (refused (authority_error b))) | _ \<Rightarrow> raise_act e))"
    by (rule blunt_catch) (auto simp: wp_simps intro!: blunt_intros split: fault.split)
  then show ?thesis
    unfolding under_authority_def by (intro blunt_seq blunt_option blunt_looks assms)
qed

lemma blunt_raise: "blunt P (raise_act e)"
  by (simp add: blunt_def wp_raise)

lemma blunt_trying:
  assumes "blunt always m" "\<And>e r. wp (failed e) (\<lambda>x _. \<not> P x) (\<lambda>e _. \<not> is_refused e) r" "\<And>x. blunt P (go x)"
  shows "blunt P (trying m failed go)"
  unfolding trying_def
proof (rule blunt_bind [where P = "\<lambda>v. case v of Inl x \<Rightarrow> P x | Inr _ \<Rightarrow> True"], goal_cases)
  case 1
  show ?case
  proof (rule blunt_catch, goal_cases)
    case 1
    show ?case by (intro blunt_seq [OF assms(1)] blunt_looks)
  next
    case (2 b v)
    show ?case by (auto simp: ordinary_def intro: blunt_raise)
  next
    case (3 e r)
    then show ?case by (auto simp: wp_simps intro: wp_mono [OF assms(2)])
  qed
next
  case (2 v)
  then show ?case by (cases v) (auto intro!: blunt_looks assms)
next
  case (3 v r)
  then show ?case by (cases v) (auto simp: wp_simps)
qed

lemma quiet_bytes [quiet_intros]: "quiet (bytes_at w st p)" "quiet (sent_bytes w)"
  by (auto simp: quiet_def bytes_at_def sent_bytes_def wp_observe Let_def same_changes_def changes_of_def split: sum.split)

lemma quiet_preflights [quiet_intros]:
  "quiet (conflict_preflight w st p)" "quiet (exists_preflight w stamp st p ev)"
  "quiet (write_preflight w digest st p overwrite tev)" "quiet (rename_preflight w stamp st s t ev)"
  "quiet (transfer_preflight w stamp st s ev b)" "quiet (emptied_directory w st p)"
  unfolding conflict_preflight_def exists_preflight_def write_preflight_def rename_preflight_def
    transfer_preflight_def emptied_directory_def Let_def
  by (intro quiet_intros)+

definition complete :: "execution_result \<Rightarrow> bool" where
  "complete x = (er_certainty x = VerifiedComplete)"

lemmas direct_results =
  direct_result_def direct_failure_def direct_doubt_def direct_success_def direct_dry_run_def moved_partly_def
  moved_in_doubt_def

lemma blunt_execute_direct:
  assumes "quiet preflight" "quiet verify" "blunt always change"
  shows "blunt complete (execute_direct w op st s t run_it preflight change verify)"
  unfolding execute_direct_def
  by (intro blunt_checks blunt_unless_error blunt_under_authority blunt_trying blunt_quiet [OF assms(1)]
      blunt_quiet [OF assms(2)] assms(3) blunt_looks)
    (simp_all add: wp_return complete_def direct_results)

lemma blunt_artifact:
  "blunt P (streamed_artifact_present w st p)" "blunt P (streamed_write_verified w st p n)"
  unfolding streamed_artifact_present_def streamed_write_verified_def
  by (intro blunt_quiet quiet_intros; simp)+

lemma blunt_stream_copy: "blunt P (stream_copy_verified w digest src dst s t n)"
  unfolding stream_copy_verified_def Let_def by (intro blunt_intros quiet_bytes [THEN blunt_quiet])

lemma blunt_delete_source: "blunt complete (delete_source w stamp src s t ev)"
  unfolding delete_source_def
  by (intro blunt_unless_error blunt_quiet [OF quiet_preflights(5)] blunt_under_authority blunt_trying blunt_intros)
    (simp add: wp_return complete_def direct_results)

lemma blunt_cross_move: "blunt complete (cross_storage_move w digest stamp src dst s t ev verified)"
  unfolding cross_storage_move_def
  by (intro blunt_if blunt_delete_source blunt_trying blunt_stream_copy) (simp add: wp_return complete_def direct_results)

lemma blunt_run_direct: "blunt complete (run_direct w digest stamp run_it c)"
proof (cases c)
  case (CreateDirectory st p)
  show ?thesis unfolding CreateDirectory run_direct_def direct_command.case direct_create_directory_def
    by (intro blunt_execute_direct quiet_intros blunt_change)
next
  case (WriteText st p data overwrite ev)
  show ?thesis unfolding WriteText run_direct_def direct_command.case direct_write_def
    by (intro blunt_execute_direct quiet_intros blunt_change)
next
  case (Upload st p expected)
  have "wp (bind_act (streamed_artifact_present w st p) (\<lambda>partial. return_act
      (if partial then (direct_doubt DoWrite p p e ''partial_write'')\<lparr>er_completed := [''write_started'']\<rparr>
       else direct_failure DoWrite p p e))) (\<lambda>x _. \<not> complete x) (\<lambda>e _. \<not> is_refused e) r" for e r
  proof -
    have "quiet (streamed_artifact_present w st p)"
      unfolding streamed_artifact_present_def by (intro quiet_intros)
    from quiet_wp [OF this] show ?thesis
      unfolding wp_bind by (rule wp_mono) (auto simp: wp_return complete_def direct_results)
  qed
  then show ?thesis unfolding Upload run_direct_def direct_command.case direct_write_stream_def
    by (intro blunt_checks blunt_unless_error blunt_under_authority blunt_trying blunt_quiet [OF quiet_preflights(1)]
        blunt_change blunt_artifact blunt_looks) (simp_all add: wp_return complete_def direct_results)
next
  case (Rename st s t ev)
  show ?thesis unfolding Rename run_direct_def direct_command.case direct_rename_def
    by (intro blunt_execute_direct quiet_intros blunt_change)
next
  case (Delete st p ev)
  show ?thesis unfolding Delete run_direct_def direct_command.case direct_delete_def
    by (intro blunt_execute_direct quiet_intros blunt_change)
next
  case (CopyFile src dst s t ev same)
  have "blunt always (if b then native_copy w src dst s t ev else cross_storage_copy w digest src dst s t ev)" for b
    unfolding native_copy_def cross_storage_copy_def by (intro blunt_intros blunt_stream_copy)
  then show ?thesis unfolding CopyFile run_direct_def direct_command.case direct_copy_def Let_def
    by (intro blunt_checks blunt_unless_error blunt_quiet [OF quiet_preflights(1)] blunt_quiet [OF quiet_preflights(5)]
        blunt_under_authority blunt_trying blunt_looks) (simp_all add: wp_return complete_def direct_results)
next
  case (MoveFile src dst s t ev same verified)
  have "blunt complete (native_move w src dst s t)"
    unfolding native_move_def
    by (intro blunt_under_authority blunt_trying blunt_intros) (simp add: wp_return complete_def direct_results)
  then show ?thesis unfolding MoveFile run_direct_def direct_command.case direct_move_def Let_def
    by (intro blunt_checks blunt_unless_error blunt_quiet [OF quiet_preflights(1)] blunt_quiet [OF quiet_preflights(5)]
        blunt_if blunt_cross_move)
next
  case (RemoveEmptied st p)
  show ?thesis unfolding RemoveEmptied run_direct_def direct_command.case direct_remove_empty_directory_def
    by (intro blunt_checks blunt_trying blunt_quiet [OF quiet_preflights(6)] blunt_option blunt_under_authority
        blunt_intros) (simp_all add: wp_return complete_def direct_results)
qed

section \<open>The one change of a command\<close>

definition no_change :: "event list \<Rightarrow> bool" where
  "no_change h = list_all (\<lambda>e. \<not> is_change e) h"

lemma no_change_append [simp]: "no_change (h @ h') = (no_change h \<and> no_change h')"
  by (simp add: no_change_def)

lemma looks_wp:
  assumes "quiet m" "grows m"
  shows "wp m (\<lambda>_ s. \<exists>es. ru_log s = ru_log r @ es \<and> no_change es)
     (\<lambda>e s. \<not> is_refused e \<and> (\<exists>es. ru_log s = ru_log r @ es \<and> no_change es)) r"
proof -
  have *: "\<exists>es. ru_log s = ru_log r @ es \<and> no_change es"
    if "prefix (ru_log r) (ru_log s)" "same_changes r s" for s
    using that by (auto simp: same_changes_def changes_of_def no_change_def list_all_iff filter_empty_conv elim!: prefixE)
  show ?thesis
    by (rule wp_mono [OF wp_conj [OF grows_wp [OF assms(2)] quiet_wp [OF assms(1)]]]) (use * in auto)
qed

definition granting :: "event list \<Rightarrow> bool" where
  "granting asked = (asked = [] \<or> (\<exists>b. asked = [Asked b True]))"

text \<open>At most one change, after what the preflight saw and at most a grant.\<close>

definition one_change :: "(event list \<Rightarrow> bool) \<Rightarrow> nat \<Rightarrow> change \<Rightarrow> event list \<Rightarrow> bool" where
  "one_change F k c h =
     (no_change h \<or> (\<exists>h0 asked a h1. h = h0 @ asked @ Changed k c a # h1 \<and> F h0 \<and> no_change h0 \<and> granting asked \<and> no_change h1))"

lemma unique_split:
  assumes "xs @ x # zs = ys @ y # us" "P x" "P y" "list_all (\<lambda>e. \<not> P e) ys" "list_all (\<lambda>e. \<not> P e) us"
  shows "xs = ys \<and> x = y"
  using assms(1,4)
proof (induction xs arbitrary: ys)
  case Nil
  with assms(2) show ?case by (cases ys) auto
next
  case (Cons z xs)
  show ?case
  proof (cases ys)
    case Nil
    with Cons.prems assms(2,5) show ?thesis by auto
  next
    case (Cons v ys')
    with Cons.prems Cons.IH [of ys'] show ?thesis by auto
  qed
qed

lemma one_change_changed:
  assumes "one_change F k c (h @ Changed k' c' a # h')"
  shows "k' = k \<and> c' = c \<and> (\<exists>h0 asked. h = h0 @ asked \<and> F h0 \<and> granting asked)"
proof -
  have "\<not> no_change (h @ Changed k' c' a # h')" by (simp add: no_change_def)
  with assms obtain h0 asked a' h1 where h: "h @ Changed k' c' a # h' = (h0 @ asked) @ Changed k c a' # h1"
    "F h0" "no_change h0" "granting asked" "no_change h1"
    unfolding one_change_def by auto
  moreover have "no_change asked" using h(4) by (auto simp: granting_def no_change_def)
  ultimately show ?thesis using unique_split [OF h(1), of is_change] by (auto simp: no_change_def)
qed

lemma wp_looks:
  assumes "quiet m" "grows m"
    "\<And>x s es. ru_log s = ru_log r @ es \<Longrightarrow> no_change es \<Longrightarrow> Q x s"
    "\<And>e s es. \<not> is_refused e \<Longrightarrow> ru_log s = ru_log r @ es \<Longrightarrow> no_change es \<Longrightarrow> E e s"
  shows "wp m Q E r"
  by (rule wp_mono [OF looks_wp [OF assms(1,2)]]) (use assms(3,4) in auto)

text \<open>The same rules without the state, for use below a continuation.\<close>

lemma wp_returns: "wp (return_act x) Q E = Q x" "wp (raise_act e) Q E = E e"
  "wp (bind_act m f) Q E = wp m (\<lambda>x. wp (f x) Q E) E"
  by (simp_all add: fun_eq_iff wp_simps)

lemma wp_trying:
  "wp (trying m failed go) Q E r =
    wp m (\<lambda>x. wp (go x) Q E) (\<lambda>e s. if ordinary e then wp (failed e) Q E s else E e s) r"
proof -
  have "(\<lambda>e s. if ordinary e then wp (failed e) Q E s else E e s) =
      (\<lambda>e. wp (if ordinary e then bind_act (failed e) (\<lambda>x. return_act (Inl x)) else raise_act e)
        (\<lambda>v. wp (case v of Inl x \<Rightarrow> return_act x | Inr x \<Rightarrow> go x) Q E) E)"
    by (auto simp: fun_eq_iff wp_returns)
  then show ?thesis by (simp add: trying_def wp_returns wp_catch)
qed

lemma wp_under_authority:
  "wp (under_authority w b refused go) Q E r =
    wp (check_authority w b) (\<lambda>_. wp go Q E)
      (\<lambda>e s. case e of Refused b _ \<Rightarrow> Q (refused (authority_error b)) s | _ \<Rightarrow> E e s) r"
proof -
  have "(\<lambda>e s. case e of Refused b _ \<Rightarrow> Q (refused (authority_error b)) s | _ \<Rightarrow> E e s) =
      (\<lambda>e. wp (case e of Refused b _ \<Rightarrow> return_act (Some (refused (authority_error b))) | _ \<Rightarrow> raise_act e)
        (\<lambda>v. wp (case v of Some x \<Rightarrow> return_act x | None \<Rightarrow> go) Q E) E)"
    by (auto simp: fun_eq_iff wp_returns split: fault.split)
  then show ?thesis by (simp add: under_authority_def wp_returns wp_catch)
qed

lemma wp_unless_error:
  "wp (unless_error m failed go) Q E r = wp m (\<lambda>v. case v of Some e \<Rightarrow> Q (failed e) | None \<Rightarrow> wp go Q E) E r"
  unfolding unless_error_def wp_bind
  by (rule arg_cong [where f = "\<lambda>Q. wp m Q E r"]) (auto simp: fun_eq_iff wp_return split: option.split)

text \<open>The change itself and what follows it.\<close>

lemma changed_log:
  assumes "ru_log r = h0 @ asked" "F h0" "no_change h0" "granting asked" "quiet verify" "grows verify"
    and f: "\<And>e. \<exists>x. failed e = return_act x" "\<And>e. \<exists>x. failed' e = return_act x"
  shows "wp (trying (change_at w st c) failed (\<lambda>_. trying verify failed' (\<lambda>ok. return_act (final ok))))
     (\<lambda>_ s. one_change F (st_key st) c (ru_log s)) (\<lambda>_ s. one_change F (st_key st) c (ru_log s)) r"
proof -
  have o: "one_change F (st_key st) c (h0 @ asked @ Changed (st_key st) c a # es)" if "no_change es" for a es
    unfolding one_change_def using assms(2-4) that by blast
  have failed: "wp (failed e) (\<lambda>_ s. one_change F (st_key st) c (ru_log s)) E s"
    if "one_change F (st_key st) c (ru_log s)" for e E s
    using that f(1) [of e] by (auto simp: wp_return)
  have failed': "wp (failed' e) (\<lambda>_ s. one_change F (st_key st) c (ru_log s)) E s"
    if "one_change F (st_key st) c (ru_log s)" for e E s
    using that f(2) [of e] by (auto simp: wp_return)
  have looked: "wp (trying verify failed' (\<lambda>ok. return_act (final ok)))
     (\<lambda>_ s. one_change F (st_key st) c (ru_log s)) (\<lambda>_ s. one_change F (st_key st) c (ru_log s)) s"
    if "ru_log s = h0 @ asked @ [Changed (st_key st) c a]" for s a
    unfolding wp_trying wp_return
    by (rule wp_looks [OF assms(5,6)]) (use that o in \<open>auto intro!: failed'\<close>)
  show ?thesis
    unfolding wp_trying [where m = "change_at w st c"]
    unfolding change_at_def wp_observe Let_def
    using o [of "[]"] assms(1)
    by (auto simp: no_change_def intro!: failed looked split: sum.split)
qed

lemma execute_direct_log:
  assumes "quiet preflight" "grows preflight" "quiet verify" "grows verify" "ru_log r = []"
    "wp preflight (\<lambda>v s. v = None \<longrightarrow> F (ru_log s)) (\<lambda>_ _. True) r"
  shows "wp (execute_direct w op st s t run_it preflight (change_at w st c) verify)
     (\<lambda>_ s'. one_change F (st_key st) c (ru_log s')) (\<lambda>_ s'. one_change F (st_key st) c (ru_log s')) r"
proof -
  let ?I = "\<lambda>s'. one_change F (st_key st) c (ru_log s')"
  have none: "?I s'" if "no_change (ru_log s')" for s' using that by (simp add: one_change_def)
  have rest: "wp (under_authority w b (direct_failure op s t)
       (trying (change_at w st c) (\<lambda>e. return_act (direct_failure op s t (bounded_error e))) (\<lambda>_.
        trying verify (\<lambda>e. return_act (direct_doubt op s t (bounded_error e) ''mutation_outcome'')) (\<lambda>ok.
        return_act (if ok then direct_success op s t []
          else direct_doubt op s t ''direct mutation verification failed'' ''mutation_outcome'')))))
      (\<lambda>_. ?I) (\<lambda>_. ?I) s'"
    if "F (ru_log s')" "no_change (ru_log s')" for s' b
  proof -
    have go: "wp (trying (change_at w st c) (\<lambda>e. return_act (direct_failure op s t (bounded_error e))) (\<lambda>_.
        trying verify (\<lambda>e. return_act (direct_doubt op s t (bounded_error e) ''mutation_outcome'')) (\<lambda>ok.
        return_act (if ok then direct_success op s t []
          else direct_doubt op s t ''direct mutation verification failed'' ''mutation_outcome''))))
      (\<lambda>_. ?I) (\<lambda>_. ?I) s''" if "ru_log s'' = ru_log s' @ asked" "granting asked" for s'' asked
      by (rule changed_log [where F = F, OF that(1) _ _ that(2) assms(3,4)])
        (auto simp: \<open>F (ru_log s')\<close> \<open>no_change (ru_log s')\<close>)
    have "?I (s'\<lparr>ru_log := ru_log s' @ [Asked b False]\<rparr>)"
      using \<open>no_change (ru_log s')\<close> by (intro none) (simp add: no_change_def)
    then show ?thesis
      unfolding wp_under_authority wp_authority
      using go [of s' "[]"] go [of "s'\<lparr>ru_log := ru_log s' @ [Asked b True]\<rparr>" "[Asked b True]"]
      by (simp add: granting_def split: option.split)
  qed
  have "wp (unless_error preflight (direct_failure op s t) (under_authority w b (direct_failure op s t)
       (trying (change_at w st c) (\<lambda>e. return_act (direct_failure op s t (bounded_error e))) (\<lambda>_.
        trying verify (\<lambda>e. return_act (direct_doubt op s t (bounded_error e) ''mutation_outcome'')) (\<lambda>ok.
        return_act (if ok then direct_success op s t []
          else direct_doubt op s t ''direct mutation verification failed'' ''mutation_outcome''))))))
      (\<lambda>_. ?I) (\<lambda>_. ?I) r" for b
    unfolding wp_unless_error
    by (rule wp_mono [OF wp_conj [OF looks_wp [OF assms(1,2)] assms(6)]])
      (use assms(5) in \<open>auto intro!: none rest split: option.split\<close>)
  moreover have "?I r" using assms(5) none [of r] by (simp add: no_change_def)
  ultimately show ?thesis
    unfolding execute_direct_def direct_checks_def by (auto simp: wp_return split: option.split)
qed

lemma grows_bytes [grows_intros]: "grows (bytes_at w st p)" "grows (sent_bytes w)"
  by (auto simp: grows_def bytes_at_def sent_bytes_def wp_observe Let_def split: sum.split)

lemma grows_preflights [grows_intros]:
  "grows (conflict_preflight w st p)" "grows (exists_preflight w stamp st p ev)"
  "grows (write_preflight w digest st p overwrite tev)" "grows (rename_preflight w stamp st s t ev)"
  "grows (transfer_preflight w stamp st s ev b)" "grows (emptied_directory w st p)"
  unfolding conflict_preflight_def exists_preflight_def write_preflight_def rename_preflight_def
    transfer_preflight_def emptied_directory_def Let_def
  by (intro grows_intros)+

definition seen_to_rename ::
  "(instant \<Rightarrow> string) \<Rightarrow> storage \<Rightarrow> string \<Rightarrow> string \<Rightarrow> direct_evidence option \<Rightarrow> event list \<Rightarrow> bool" where
  "seen_to_rename stamp st s t evidence h =
     (\<exists>e ev. evidence = Some ev \<and> \<not> version_mismatch stamp e ev \<and>
        h = [SawExists (st_key st) s (Inr True), SawExists (st_key st) t (Inr False), SawEntry (st_key st) s (Inr e)])"

definition seen_to_delete ::
  "(instant \<Rightarrow> string) \<Rightarrow> storage \<Rightarrow> string \<Rightarrow> direct_evidence option \<Rightarrow> event list \<Rightarrow> bool" where
  "seen_to_delete stamp st p evidence h =
     (\<exists>e ev. evidence = Some ev \<and> \<not> version_mismatch stamp e ev \<and>
        h = [SawExists (st_key st) p (Inr True), SawEntry (st_key st) p (Inr e)] @
          (if de_directory ev then [SawList (st_key st) p (Inr [])] else []))"

lemma rename_seen:
  assumes "ru_log r = []"
  shows "wp (rename_preflight w stamp st s t ev)
     (\<lambda>v s'. v = None \<longrightarrow> seen_to_rename stamp st s t ev (ru_log s')) (\<lambda>_ _. True) r"
  unfolding rename_preflight_def exists_at_def stat_at_def
  using assms
  by (cases ev) (auto simp: wp_simps wp_observe Let_def seen_to_rename_def split: sum.split)

lemma delete_seen:
  assumes "ru_log r = []"
  shows "wp (exists_preflight w stamp st p ev)
     (\<lambda>v s'. v = None \<longrightarrow> seen_to_delete stamp st p ev (ru_log s')) (\<lambda>_ _. True) r"
  unfolding exists_preflight_def exists_at_def stat_at_def list_at_def
  using assms
  by (cases ev) (auto simp: wp_simps wp_observe Let_def seen_to_delete_def version_mismatch_def split: sum.split)

lemma rename_log:
  assumes "ru_log r = []"
  shows "wp (direct_rename w stamp st s t ev run_it)
     (\<lambda>_ s'. one_change (seen_to_rename stamp st s t ev) (st_key st) (MoveTo s t False) (ru_log s'))
     (\<lambda>_ s'. one_change (seen_to_rename stamp st s t ev) (st_key st) (MoveTo s t False) (ru_log s')) r"
  unfolding direct_rename_def
  by (rule execute_direct_log [OF quiet_preflights(4) grows_preflights(4) _ _ assms rename_seen [OF assms]])
    (intro quiet_intros grows_intros)+

lemma delete_log:
  assumes "ru_log r = []"
  shows "wp (direct_delete w stamp st p ev run_it)
     (\<lambda>_ s'. one_change (seen_to_delete stamp st p ev) (st_key st) (Remove p) (ru_log s'))
     (\<lambda>_ s'. one_change (seen_to_delete stamp st p ev) (st_key st) (Remove p) (ru_log s')) r"
  unfolding direct_delete_def
  by (rule execute_direct_log [OF quiet_preflights(2) grows_preflights(2) _ _ assms delete_seen [OF assms]])
    (intro quiet_intros grows_intros)+

section \<open>A failed command\<close>

lemma intact_snoc [simp]:
  "intact (r\<lparr>ru_log := ru_log r @ [e]\<rparr>) = (intact r \<and> (\<forall>k c f. e \<noteq> Changed k c (Inl f)))"
  by (auto simp: intact_def)

text \<open>The result of a simple command whose change raised claims that there is no effect.\<close>

lemma execute_direct_denies:
  assumes "quiet preflight" "quiet verify" "intact r"
  shows "wp (execute_direct w op st s t run_it preflight (change_at w st c) verify)
     (\<lambda>x s'. \<not> intact s' \<longrightarrow> er_status x = ExecFailed \<and> er_certainty x = NoEffect \<and> er_uncertain x = [])
     (\<lambda>_ _. True) r"
proof -
  let ?I = "\<lambda>x s'. \<not> intact s' \<longrightarrow> er_status x = ExecFailed \<and> er_certainty x = NoEffect \<and> er_uncertain x = []"
  have look: "wp m Q (\<lambda>_ _. True) s'" if "quiet m" "intact s'" "\<And>x s''. intact s'' \<Longrightarrow> Q x s''" for m :: "'x act" and Q s'
    by (rule wp_quiet [OF that(1)]) (use that in \<open>auto simp: same_changes_def dest: intact_changes\<close>)
  have verified: "wp (trying verify (\<lambda>e. return_act (f e)) (\<lambda>ok. return_act (g ok))) ?I (\<lambda>_ _. True) s'" if "intact s'" for f g s'
    unfolding wp_trying wp_return
    by (rule wp_quiet [OF assms(2)]) (use that in \<open>auto simp: wp_return same_changes_def dest: intact_changes\<close>)
  have changed: "wp (trying (change_at w st c) (\<lambda>e. return_act (direct_failure op s t (bounded_error e))) (\<lambda>_.
      trying verify (\<lambda>e. return_act (f e)) (\<lambda>ok. return_act (g ok)))) ?I (\<lambda>_ _. True) s'" if "intact s'" for f g s'
    unfolding wp_trying [where m = "change_at w st c"]
    unfolding change_at_def wp_observe Let_def
    using that by (auto simp: wp_return direct_failure_def direct_result_def intro!: verified split: sum.split)
  have "wp (under_authority w b refused (trying (change_at w st c) (\<lambda>e. return_act (direct_failure op s t (bounded_error e)))
      (\<lambda>_. trying verify (\<lambda>e. return_act (f e)) (\<lambda>ok. return_act (g ok))))) ?I (\<lambda>_ _. True) s'" if "intact s'" for b refused f g s'
    unfolding wp_under_authority wp_authority
    using that by (auto intro!: changed split: option.split)
  then have "wp (unless_error preflight failed (under_authority w b refused (trying (change_at w st c)
      (\<lambda>e. return_act (direct_failure op s t (bounded_error e)))
      (\<lambda>_. trying verify (\<lambda>e. return_act (f e)) (\<lambda>ok. return_act (g ok)))))) ?I (\<lambda>_ _. True) r" for failed b refused f g
    unfolding wp_unless_error
    by (intro look assms(1,3)) (auto split: option.split)
  then show ?thesis
    unfolding execute_direct_def direct_checks_def using assms(3) by (auto simp: wp_return split: option.split)
qed

section \<open>Moves to another storage\<close>

definition copy_events :: "storage \<Rightarrow> storage \<Rightarrow> string \<Rightarrow> string \<Rightarrow> string \<Rightarrow> entry \<Rightarrow> string \<Rightarrow> event list" where
  "copy_events src dst s t sent copied content =
     [Opened (st_key src) s (Inr ()), Changed (st_key dst) (Write t (st_key src, s) False) (Inr ()), Sent sent,
      SawExists (st_key dst) t (Inr True), SawEntry (st_key dst) t (Inr copied),
      ReadBytes (st_key dst) t (Inr content)]"

definition proved_copy :: "(string \<Rightarrow> string) \<Rightarrow> direct_evidence option \<Rightarrow> string \<Rightarrow> entry \<Rightarrow> string \<Rightarrow> bool" where
  "proved_copy digest evidence sent copied content =
     (se_type copied = FileEntry \<and> int (length sent) = se_size copied \<and> digest content = digest sent \<and>
      (\<forall>ev. evidence = Some ev \<longrightarrow> se_size copied = de_size ev))"

definition still_there :: "(instant \<Rightarrow> string) \<Rightarrow> entry \<Rightarrow> direct_evidence option \<Rightarrow> bool" where
  "still_there stamp e evidence =
     (\<exists>ev. evidence = Some ev \<and> de_directory ev = (se_type e = DirectoryEntry) \<and>
        (has_fingerprint ev \<longrightarrow> \<not> version_mismatch stamp e ev) \<and>
        (\<not> has_fingerprint ev \<and> \<not> de_directory ev \<longrightarrow> se_size e = de_size ev \<and> stamp (se_modified e) = de_modified ev))"

definition whole_move ::
  "(string \<Rightarrow> string) \<Rightarrow> (instant \<Rightarrow> string) \<Rightarrow> storage \<Rightarrow> storage \<Rightarrow> string \<Rightarrow> string \<Rightarrow> direct_evidence option \<Rightarrow>
   event list \<Rightarrow> bool" where
  "whole_move digest stamp src dst s t evidence h =
     (\<exists>h0 sent copied content original asked a h1.
        h = h0 @ copy_events src dst s t sent copied content @
          [SawExists (st_key src) s (Inr True), SawEntry (st_key src) s (Inr original)] @ asked @
          Changed (st_key src) (Remove s) a # h1 \<and>
        list_all is_observation h0 \<and> proved_copy digest evidence sent copied content \<and>
        still_there stamp original evidence \<and> granting asked \<and> no_change h1)"

lemma observation_no_change: "list_all is_observation h \<Longrightarrow> no_change h"
  unfolding no_change_def by (erule list.pred_mono_strong) (auto elim: is_observation.elims)

lemma transfer_preflight_log:
  "wp (transfer_preflight w stamp st s ev b)
     (\<lambda>v s'. \<exists>es. ru_log s' = ru_log r @ es \<and> list_all is_observation es \<and>
        (v = None \<and> b \<longrightarrow> (\<exists>e. es = [SawExists (st_key st) s (Inr True), SawEntry (st_key st) s (Inr e)] \<and> still_there stamp e ev)))
     (\<lambda>e s'. \<not> is_refused e \<and> (\<exists>es. ru_log s' = ru_log r @ es \<and> list_all is_observation es)) r"
  unfolding transfer_preflight_def exists_at_def stat_at_def
  by (cases ev) (auto simp: wp_simps wp_observe Let_def still_there_def split: sum.split)

definition deleting :: "(instant \<Rightarrow> string) \<Rightarrow> storage \<Rightarrow> string \<Rightarrow> direct_evidence option \<Rightarrow> event list \<Rightarrow> bool" where
  "deleting stamp src s evidence es =
     (\<exists>e asked a h1.
        es = [SawExists (st_key src) s (Inr True), SawEntry (st_key src) s (Inr e)] @ asked @ Changed (st_key src) (Remove s) a # h1 \<and>
        still_there stamp e evidence \<and> granting asked \<and> no_change h1)"

lemma delete_source_log:
  "wp (delete_source w stamp src s t ev)
     (\<lambda>_ s'. \<exists>es. ru_log s' = ru_log r @ es \<and> (no_change es \<or> deleting stamp src s ev es))
     (\<lambda>_ s'. \<exists>es. ru_log s' = ru_log r @ es \<and> (no_change es \<or> deleting stamp src s ev es)) r"
  (is "wp _ (\<lambda>_. ?I) (\<lambda>_. ?I) r")
proof -
  have none: "?I s'" if "ru_log s' = ru_log r @ es" "no_change es" for s' es using that by blast
  have gone: "?I s'"
    if "ru_log s' = ru_log r @ [SawExists (st_key src) s (Inr True), SawEntry (st_key src) s (Inr e)] @ asked @ Changed (st_key src) (Remove s) a # h1"
      "still_there stamp e ev" "granting asked" "no_change h1" for s' e asked a h1
    using that unfolding deleting_def by blast
  have left: "wp (bind_act (exists_at w src s) (\<lambda>left. return_act (f left))) (\<lambda>_. ?I) (\<lambda>_. ?I) s'"
    if "ru_log s' = ru_log r @ [SawExists (st_key src) s (Inr True), SawEntry (st_key src) s (Inr e)] @ asked @ [Changed (st_key src) (Remove s) a]"
      "still_there stamp e ev" "granting asked" for f s' e asked a
  proof -
    have "?I s''" if l: "ru_log s'' = ru_log s' @ es" "no_change es" for s'' es
      by (rule gone [OF _ \<open>still_there stamp e ev\<close> \<open>granting asked\<close> l(2), where a = a])
        (use l \<open>ru_log s' = _\<close> in simp)
    then show ?thesis
      unfolding wp_bind wp_return by (intro wp_looks [OF quiet_observe(1) grows_events(1)])
  qed
  have change: "wp (trying (change_at w src (Remove s)) (\<lambda>e. return_act (g e))
      (\<lambda>_. bind_act (exists_at w src s) (\<lambda>left. return_act (f left)))) (\<lambda>_. ?I) (\<lambda>_. ?I) s'"
    if "ru_log s' = ru_log r @ [SawExists (st_key src) s (Inr True), SawEntry (st_key src) s (Inr e)] @ asked"
      "still_there stamp e ev" "granting asked" for f g s' e asked
  proof -
    have "?I (s'\<lparr>ru_log := ru_log s' @ [Changed (st_key src) (Remove s) a]\<rparr>)" for a
      by (rule gone [OF _ that(2,3), where a = a and ?h1.0 = "[]"]) (simp_all add: that no_change_def)
    moreover have "wp (bind_act (exists_at w src s) (\<lambda>left. return_act (f left))) (\<lambda>_. ?I) (\<lambda>_. ?I)
        (s'\<lparr>ru_log := ru_log s' @ [Changed (st_key src) (Remove s) a]\<rparr>)" for a
      by (rule left [OF _ that(2,3)]) (simp add: that)
    ultimately show ?thesis
      unfolding wp_trying change_at_def wp_observe Let_def wp_return by (simp split: sum.split)
  qed
  have ask: "wp (under_authority w b h (trying (change_at w src (Remove s)) (\<lambda>e. return_act (g e))
      (\<lambda>_. bind_act (exists_at w src s) (\<lambda>left. return_act (f left))))) (\<lambda>_. ?I) (\<lambda>_. ?I) s'"
    if "ru_log s' = ru_log r @ [SawExists (st_key src) s (Inr True), SawEntry (st_key src) s (Inr e)]"
      "still_there stamp e ev" for f g h s' e b
  proof -
    have "?I (s'\<lparr>ru_log := ru_log s' @ [Asked b False]\<rparr>)"
      by (rule none [where es = "[SawExists (st_key src) s (Inr True), SawEntry (st_key src) s (Inr e), Asked b False]"])
        (simp_all add: that no_change_def)
    then show ?thesis
      unfolding wp_under_authority wp_authority
      using change [of s' e "[]" g f] change [of "s'\<lparr>ru_log := ru_log s' @ [Asked b True]\<rparr>" e "[Asked b True]" g f] that
      by (simp add: granting_def split: option.split)
  qed
  show ?thesis
    unfolding delete_source_def wp_unless_error
  proof (rule wp_mono [OF transfer_preflight_log], goal_cases)
    case (1 v s')
    then show ?case
      by (cases v) (auto intro!: ask, auto intro!: none observation_no_change)
  next
    case (2 e s')
    then show ?case by (auto intro: none observation_no_change)
  qed
qed

text \<open>The copy: its events when it is proved, and at most the one write otherwise.\<close>

definition copying :: "storage \<Rightarrow> storage \<Rightarrow> string \<Rightarrow> string \<Rightarrow> event list \<Rightarrow> bool" where
  "copying src dst s t es =
     (no_change es \<or> (\<exists>h0 a h1. es = h0 @ Changed (st_key dst) (Write t (st_key src, s) False) a # h1 \<and>
        list_all is_observation h0 \<and> no_change h1))"

lemma copying_simps:
  "no_change es \<Longrightarrow> copying src dst s t es"
  "no_change es \<Longrightarrow>
    copying src dst s t (Opened (st_key src) s (Inr ()) # Changed (st_key dst) (Write t (st_key src, s) False) a # es)"
proof -
  assume "no_change es"
  then show "copying src dst s t es" by (simp add: copying_def)
  show "copying src dst s t (Opened (st_key src) s (Inr ()) # Changed (st_key dst) (Write t (st_key src, s) False) a # es)"
    unfolding copying_def
    by (rule disjI2, rule exI [of _ "[Opened (st_key src) s (Inr ())]"]) (use \<open>no_change es\<close> in auto)
qed

lemma stream_copy_log:
  "wp (stream_copy_verified w digest src dst s t (map_option de_size ev))
     (\<lambda>_ s'. \<exists>sent copied content. ru_log s' = ru_log r @ copy_events src dst s t sent copied content \<and>
        proved_copy digest ev sent copied content)
     (\<lambda>e s'. \<exists>es. ru_log s' = ru_log r @ es \<and> copying src dst s t es) r"
  unfolding stream_copy_verified_def stream_to_def Let_def exists_at_def stat_at_def open_at_def bytes_at_def
    sent_bytes_def change_at_def
  by (auto simp: wp_simps wp_observe Let_def copy_events_def no_change_def proved_copy_def copying_simps
      split: sum.split)

section \<open>The whole move\<close>

lemma copying_append: "list_all is_observation h0 \<Longrightarrow> copying src dst s t es \<Longrightarrow> copying src dst s t (h0 @ es)"
proof -
  assume h: "list_all is_observation h0" and "copying src dst s t es"
  then consider "no_change es" | h1 a h2 where "es = h1 @ Changed (st_key dst) (Write t (st_key src, s) False) a # h2"
    "list_all is_observation h1" "no_change h2"
    unfolding copying_def by blast
  then show "copying src dst s t (h0 @ es)"
  proof cases
    case 1
    with observation_no_change [OF h] show ?thesis by (simp add: copying_def no_change_def)
  next
    case 2
    with h show ?thesis unfolding copying_def by (intro disjI2 exI [of _ "h0 @ h1"] exI [of _ a] exI [of _ h2]) simp
  qed
qed

definition moving ::
  "(string \<Rightarrow> string) \<Rightarrow> (instant \<Rightarrow> string) \<Rightarrow> storage \<Rightarrow> storage \<Rightarrow> string \<Rightarrow> string \<Rightarrow> direct_evidence option \<Rightarrow>
   event list \<Rightarrow> bool" where
  "moving digest stamp src dst s t evidence h =
     (copying src dst s t h \<or> whole_move digest stamp src dst s t evidence h)"

lemma copied_then:
  assumes "list_all is_observation h0" "proved_copy digest ev sent copied content"
    "no_change es \<or> deleting stamp src s ev es"
  shows "moving digest stamp src dst s t ev (h0 @ copy_events src dst s t sent copied content @ es)"
  using assms(3)
proof
  assume "no_change es"
  then have "copying src dst s t (copy_events src dst s t sent copied content @ es)"
    unfolding copy_events_def append_Cons append_Nil by (intro copying_simps) (simp add: no_change_def)
  with assms(1) show ?thesis by (simp add: moving_def copying_append)
next
  assume "deleting stamp src s ev es"
  with assms(1,2) show ?thesis unfolding moving_def whole_move_def deleting_def by auto
qed

lemma cross_move_log:
  assumes "ru_log r = h0" "list_all is_observation h0"
  shows "wp (cross_storage_move w digest stamp src dst s t ev False)
     (\<lambda>_ s'. moving digest stamp src dst s t ev (ru_log s')) (\<lambda>_ s'. moving digest stamp src dst s t ev (ru_log s')) r"
proof -
  let ?I = "\<lambda>s'. moving digest stamp src dst s t ev (ru_log s')"
  have kept: "?I s'" if "ru_log s' = ru_log r @ es" "copying src dst s t es" for s' es
    using that assms copying_append [of h0] by (simp add: moving_def)
  have deleted: "wp (delete_source w stamp src s t ev) (\<lambda>_. ?I) (\<lambda>_. ?I) s'"
    if "ru_log s' = ru_log r @ copy_events src dst s t sent copied content" "proved_copy digest ev sent copied content"
    for s' sent copied content
    by (rule wp_mono [OF delete_source_log])
      (use that assms copied_then [OF assms(2) that(2)] in auto)
  show ?thesis
    unfolding cross_storage_move_def if_False wp_trying
    by (rule wp_mono [OF stream_copy_log]) (auto simp: wp_return intro: kept deleted)
qed

lemma direct_move_log:
  assumes "ru_log r = []" "\<not> one_storage src dst same"
  shows "wp (direct_move w digest stamp src dst s t ev same False run_it)
     (\<lambda>_ s'. moving digest stamp src dst s t ev (ru_log s')) (\<lambda>_ s'. moving digest stamp src dst s t ev (ru_log s')) r"
proof -
  let ?I = "\<lambda>s'. moving digest stamp src dst s t ev (ru_log s')"
  have looked: "moving digest stamp src dst s t ev h" if "list_all is_observation h" for h
    using copying_simps(1) [OF observation_no_change [OF that]] by (simp add: moving_def)
  have go: "wp (unless_error (conflict_preflight w dst t) failed (cross_storage_move w digest stamp src dst s t ev False))
      (\<lambda>_. ?I) (\<lambda>_. ?I) s'" if "ru_log s' = es" "list_all is_observation es" for s' es failed
    unfolding wp_unless_error
    using that
    by (auto simp: conflict_preflight_def exists_at_def wp_simps wp_observe Let_def intro!: looked cross_move_log
        split: sum.split)
  have "wp (unless_error (transfer_preflight w stamp src s ev False) failed
      (unless_error (conflict_preflight w dst t) failed (cross_storage_move w digest stamp src dst s t ev False)))
      (\<lambda>_. ?I) (\<lambda>_. ?I) r" for failed
    unfolding wp_unless_error [where m = "transfer_preflight w stamp src s ev False"]
    by (rule wp_mono [OF transfer_preflight_log])
      (use assms in \<open>auto intro: looked go split: option.split\<close>)
  moreover have "?I r" using assms(1) by (intro looked) simp
  ultimately show ?thesis
    using assms(2) unfolding direct_move_def Let_def direct_checks_def by (auto simp: wp_return split: option.split)
qed

text \<open>The only deletion of such a history is the one of the whole move.\<close>

fun removes :: "event \<Rightarrow> bool" where
  "removes (Changed k (Remove p) a) = True"
| "removes _ = False"

lemma observation_keeps: "list_all is_observation h \<Longrightarrow> list_all (\<lambda>e. \<not> removes e) h"
  by (erule list.pred_mono_strong) (auto elim: removes.elims is_observation.elims)

lemma no_change_keeps: "no_change h \<Longrightarrow> list_all (\<lambda>e. \<not> removes e) h"
  unfolding no_change_def by (erule list.pred_mono_strong) (auto elim: removes.elims)

lemma copying_keeps: "copying src dst s t h \<Longrightarrow> list_all (\<lambda>e. \<not> removes e) h"
  unfolding copying_def by (auto simp: no_change_keeps observation_keeps)

lemma moving_removed:
  assumes "moving digest stamp src dst s t ev (h @ Changed k (Remove p) a # h')"
  shows "k = st_key src \<and> p = s \<and> (\<exists>h0 sent copied content original asked.
    h = h0 @ copy_events src dst s t sent copied content @
      [SawExists (st_key src) s (Inr True), SawEntry (st_key src) s (Inr original)] @ asked \<and>
    list_all is_observation h0 \<and> proved_copy digest ev sent copied content \<and> still_there stamp original ev \<and>
    granting asked)"
proof -
  let ?h = "h @ Changed k (Remove p) a # h'"
  have "\<not> copying src dst s t ?h" using copying_keeps [of src dst s t ?h] by auto
  with assms obtain h0 sent copied content original asked a' h1 where
    h: "?h = (h0 @ copy_events src dst s t sent copied content @
        [SawExists (st_key src) s (Inr True), SawEntry (st_key src) s (Inr original)] @ asked) @
        Changed (st_key src) (Remove s) a' # h1"
    and parts: "list_all is_observation h0" "proved_copy digest ev sent copied content" "still_there stamp original ev"
      "granting asked" "no_change h1"
    unfolding moving_def whole_move_def by auto
  have "list_all (\<lambda>e. \<not> removes e) asked" using parts(4) by (auto simp: granting_def)
  then have "list_all (\<lambda>e. \<not> removes e) (h0 @ copy_events src dst s t sent copied content @
        [SawExists (st_key src) s (Inr True), SawEntry (st_key src) s (Inr original)] @ asked)"
    by (simp add: copy_events_def observation_keeps [OF parts(1)])
  with unique_split [OF h, of removes] no_change_keeps [OF parts(5)]
  have "h = h0 @ copy_events src dst s t sent copied content @
        [SawExists (st_key src) s (Inr True), SawEntry (st_key src) s (Inr original)] @ asked"
    "k = st_key src \<and> p = s" by auto
  with parts(1-4) show ?thesis by blast
qed

section \<open>A resumed move\<close>

text \<open>The caller vouches for the target: nothing is written, the source is looked at twice and deleted.\<close>

definition resuming :: "(instant \<Rightarrow> string) \<Rightarrow> storage \<Rightarrow> string \<Rightarrow> direct_evidence option \<Rightarrow> event list \<Rightarrow> bool" where
  "resuming stamp src s evidence h =
     (\<exists>h0 es. h = h0 @ es \<and> list_all is_observation h0 \<and> (no_change es \<or> deleting stamp src s evidence es))"

lemma resumed_move_log:
  assumes "ru_log r = []" "\<not> one_storage src dst same"
  shows "wp (direct_move w digest stamp src dst s t ev same True run_it)
     (\<lambda>_ s'. resuming stamp src s ev (ru_log s')) (\<lambda>_ s'. resuming stamp src s ev (ru_log s')) r"
proof -
  let ?I = "\<lambda>s'. resuming stamp src s ev (ru_log s')"
  have looked: "resuming stamp src s ev h" if "list_all is_observation h" for h
    using that unfolding resuming_def by (intro exI [of _ h] exI [of _ "[]"]) (simp add: no_change_def)
  have go: "wp (delete_source w stamp src s t ev) (\<lambda>_. ?I) (\<lambda>_. ?I) s'" if "list_all is_observation (ru_log s')" for s'
    by (rule wp_mono [OF delete_source_log]) (use that in \<open>auto simp: resuming_def\<close>)
  have "wp (unless_error (transfer_preflight w stamp src s ev False) failed
      (cross_storage_move w digest stamp src dst s t ev True)) (\<lambda>_. ?I) (\<lambda>_. ?I) r" for failed
    unfolding wp_unless_error cross_storage_move_def if_True
    by (rule wp_mono [OF transfer_preflight_log])
      (use assms in \<open>auto simp: wp_return intro: looked go split: option.split\<close>)
  moreover have "?I r" using assms(1) by (intro looked) simp
  ultimately show ?thesis
    using assms(2) unfolding direct_move_def Let_def direct_checks_def by (auto simp: wp_return split: option.split)
qed

lemma resuming_removed:
  assumes "resuming stamp src s ev (h @ Changed k (Remove p) a # h')"
  shows "k = st_key src \<and> p = s \<and> (\<exists>h0 original asked.
    h = h0 @ [SawExists (st_key src) s (Inr True), SawEntry (st_key src) s (Inr original)] @ asked \<and>
    list_all is_observation h0 \<and> still_there stamp original ev \<and> granting asked)"
proof -
  let ?h = "h @ Changed k (Remove p) a # h'"
  from assms obtain h0 es where h0: "?h = h0 @ es" "list_all is_observation h0"
    and es: "no_change es \<or> deleting stamp src s ev es"
    unfolding resuming_def by blast
  have "\<not> no_change es"
  proof
    assume "no_change es"
    with observation_no_change [OF h0(2)] have "no_change ?h" unfolding h0(1) by (simp add: no_change_def)
    from no_change_keeps [OF this] show False by simp
  qed
  with es obtain original asked a' h1 where
    es': "es = [SawExists (st_key src) s (Inr True), SawEntry (st_key src) s (Inr original)] @ asked @
        Changed (st_key src) (Remove s) a' # h1"
    and parts: "still_there stamp original ev" "granting asked" "no_change h1"
    unfolding deleting_def by blast
  have h: "?h = (h0 @ [SawExists (st_key src) s (Inr True), SawEntry (st_key src) s (Inr original)] @ asked) @
      Changed (st_key src) (Remove s) a' # h1"
    using h0(1) es' by simp
  have "list_all (\<lambda>e. \<not> removes e) asked" using parts(2) by (auto simp: granting_def)
  then have "list_all (\<lambda>e. \<not> removes e) (h0 @ [SawExists (st_key src) s (Inr True), SawEntry (st_key src) s (Inr original)] @ asked)"
    by (simp add: observation_keeps [OF h0(2)])
  with unique_split [OF h, of removes] no_change_keeps [OF parts(3)]
  have "h = h0 @ [SawExists (st_key src) s (Inr True), SawEntry (st_key src) s (Inr original)] @ asked"
    "k = st_key src \<and> p = s" by auto
  with h0(2) parts(1,2) show ?thesis by blast
qed

end
