(* ===== verification/Direct_Properties.thy ===== *)
theory Direct_Properties
  imports Direct_Outcome Execution_Examples
begin

text \<open>
  What direct commands do whatever the storages answer: who allows a change, what was seen right before
  it, what proves a copy before its source goes, and what a failed command claims.
\<close>

section \<open>Examples\<close>

definition same_stamp :: "instant \<Rightarrow> string" where
  "same_stamp t = ''t''"

definition heat_seen :: direct_evidence where
  "heat_seen = \<lparr>de_size = 5, de_modified = ''t'', de_directory = False, de_fingerprint = None\<rparr>"

definition run_command :: "direct_command \<Rightarrow> (change \<Rightarrow> bool) \<Rightarrow> (fault + execution_result) \<times> run" where
  "run_command c dies = run_direct (film_world start_paths dies granted) (\<lambda>x. x) same_stamp True c start_run"

definition delete_heat :: direct_command where
  "delete_heat = Delete store_in ''heat.mkv'' (Some heat_seen)"

definition carry_heat :: direct_command where
  "carry_heat = MoveFile store_in store_out ''heat.mkv'' ''copy.mkv'' (Some heat_seen) None False"

definition saw_heat :: "event list" where
  "saw_heat = [SawExists 0 ''heat.mkv'' (Inr True), SawEntry 0 ''heat.mkv'' (Inr (entry_at ''heat.mkv''))]"

definition delete_log_of :: "(external + unit) \<Rightarrow> event list" where
  "delete_log_of a = saw_heat @ [Asked ''DIRECT:DELETE'' True, Changed 0 (Remove ''heat.mkv'') a]"

lemma heat_is_deleted:
  "case run_command delete_heat never of
     (Inr x, r) \<Rightarrow> er_certainty x = VerifiedComplete \<and> ru_log r = delete_log_of (Inr ()) @ [SawExists 0 ''heat.mkv'' (Inr False)]
   | _ \<Rightarrow> False"
  by code_simp

definition every_time :: "change \<Rightarrow> bool" where
  "every_time c = True"

lemma heat_is_cut_off:
  "case run_command delete_heat every_time of
     (Inr x, r) \<Rightarrow> ru_log r = delete_log_of (Inl (OsFault ''reset'')) | _ \<Rightarrow> False"
  by code_simp

lemma heat_is_carried:
  "case run_command carry_heat never of
     (Inr x, r) \<Rightarrow> er_certainty x = VerifiedComplete \<and>
       ru_log r = (saw_heat @ [SawExists 1 ''copy.mkv'' (Inr False)]) @
         (copy_events store_in store_out ''heat.mkv'' ''copy.mkv'' ''bytes'' (entry_at ''copy.mkv'') ''bytes'' @
          saw_heat @ [Asked ''DIRECT:CROSS_STORAGE_DELETE_SOURCE'' True]) @
         Changed 0 (Remove ''heat.mkv'') (Inr ()) # [SawExists 0 ''heat.mkv'' (Inr False)]
   | _ \<Rightarrow> False"
  by code_simp

text \<open>A resumed move finds its target in place and goes straight to the deletion.\<close>

lemma heat_is_resumed:
  "case run_direct (film_world ((1, ''copy.mkv'') # start_paths) never granted) (\<lambda>x. x) same_stamp True
     (MoveFile store_in store_out ''heat.mkv'' ''copy.mkv'' (Some heat_seen) None True) start_run of
     (Inr x, r) \<Rightarrow> er_certainty x = VerifiedComplete \<and>
       ru_log r = saw_heat @ saw_heat @ [Asked ''DIRECT:CROSS_STORAGE_DELETE_SOURCE'' True,
         Changed 0 (Remove ''heat.mkv'') (Inr ()), SawExists 0 ''heat.mkv'' (Inr False)]
   | _ \<Rightarrow> False"
  by code_simp

lemma delete_run:
  obtains x r where "run_command delete_heat never = (Inr x, r)"
    "ru_log r = saw_heat @ [Asked ''DIRECT:DELETE'' True] @ Changed 0 (Remove ''heat.mkv'') (Inr ()) # [SawExists 0 ''heat.mkv'' (Inr False)]"
  using heat_is_deleted by (auto simp: delete_log_of_def split: prod.splits sum.splits)

section \<open>Changes\<close>

text \<open>C13: when the caller passes a hook, every change a direct command asks a storage for, other than in a move
  to another storage, is preceded by a grant for that kind of change with nothing but observations since,
  and it follows no refusal.
\<close>

theorem direct_changes_are_granted:
  assumes "run_direct w digest stamp run_it c start_run = (x, r)" "\<not> crosses c"
    "wo_authority w \<noteq> None" "ru_log r = h @ Changed k change a # h'"
  shows "(\<exists>h1 b h2. h = h1 @ Asked b True # h2 \<and> b \<in> set (allowed_boundaries change) \<and> list_all is_observation h2) \<and>
    (\<forall>b. Asked b False \<notin> set h)"
proof -
  have "calm w (\<lambda>_ _. True) start_run" by (simp add: calm_def kept_def start_run_def)
  note done' = steady_wp [OF steady_run_direct [OF assms(2)] this, of digest stamp run_it]
  have "kept w (\<lambda>_ _. True) (ru_log r)"
  proof (cases x)
    case (Inl f)
    with assms(1) wp_result(2) [OF done'] show ?thesis by (auto simp: halted_def)
  next
    case (Inr y)
    with assms(1) wp_result(1) [OF done'] show ?thesis by auto
  qed
  with assms(3,4) have "log_phase (h @ Changed k change a # h') \<noteq> Violated" by (simp add: kept_def)
  from granted_change [OF this] show ?thesis by blast
qed

lemma direct_changes_are_granted_witness:
  "(\<exists>h1 b h2. saw_heat @ [Asked ''DIRECT:DELETE'' True] = h1 @ Asked b True # h2 \<and>
      b \<in> set (allowed_boundaries (Remove ''heat.mkv'')) \<and> list_all is_observation h2) \<and>
    (\<forall>b. Asked b False \<notin> set (saw_heat @ [Asked ''DIRECT:DELETE'' True]))"
proof -
  obtain x r where r: "run_command delete_heat never = (Inr x, r)"
    "ru_log r = (saw_heat @ [Asked ''DIRECT:DELETE'' True]) @ Changed 0 (Remove ''heat.mkv'') (Inr ()) # [SawExists 0 ''heat.mkv'' (Inr False)]"
    by (rule delete_run) simp
  have "\<not> crosses delete_heat" by (simp add: crosses_def delete_heat_def)
  moreover have "wo_authority (film_world start_paths never granted) \<noteq> None" by (simp add: film_world_def granted_def)
  ultimately show ?thesis by (rule direct_changes_are_granted [OF r(1) [unfolded run_command_def] _ _ r(2)])
qed

text \<open>C12: a rename and a delete ask for no change but the one requested, and at most once, right after the entry
  was seen to match the evidence the operator confirmed, which is mandatory; a rename saw its target
  free, and a directory to delete was seen empty.
\<close>

theorem rename_and_delete_are_fenced:
  assumes "run_direct w digest stamp run_it c start_run = (x, r)" "ru_log r = h @ Changed k change a # h'"
  shows "(\<forall>st s t ev. c = Rename st s t ev \<longrightarrow>
      k = st_key st \<and> change = MoveTo s t False \<and>
      (\<exists>h0 asked. h = h0 @ asked \<and> seen_to_rename stamp st s t ev h0 \<and> granting asked)) \<and>
    (\<forall>st p ev. c = Delete st p ev \<longrightarrow>
      k = st_key st \<and> change = Remove p \<and>
      (\<exists>h0 asked. h = h0 @ asked \<and> seen_to_delete stamp st p ev h0 \<and> granting asked))"
proof (rule conjI; intro allI impI)
  have start: "ru_log start_run = []" by (simp add: start_run_def)
  fix st s t ev assume c: "c = Rename st s t ev"
  have "one_change (seen_to_rename stamp st s t ev) (st_key st) (MoveTo s t False) (ru_log r)"
    using assms(1) wp_final [OF rename_log [OF start, of w stamp st s t ev run_it]] by (simp add: c run_direct_def)
  from one_change_changed [OF this [unfolded assms(2)]]
  show "k = st_key st \<and> change = MoveTo s t False \<and>
      (\<exists>h0 asked. h = h0 @ asked \<and> seen_to_rename stamp st s t ev h0 \<and> granting asked)" .
next
  have start: "ru_log start_run = []" by (simp add: start_run_def)
  fix st p ev assume c: "c = Delete st p ev"
  have "one_change (seen_to_delete stamp st p ev) (st_key st) (Remove p) (ru_log r)"
    using assms(1) wp_final [OF delete_log [OF start, of w stamp st p ev run_it]] by (simp add: c run_direct_def)
  from one_change_changed [OF this [unfolded assms(2)]]
  show "k = st_key st \<and> change = Remove p \<and>
      (\<exists>h0 asked. h = h0 @ asked \<and> seen_to_delete stamp st p ev h0 \<and> granting asked)" .
qed

lemma rename_and_delete_are_fenced_witness:
  "\<exists>h0 asked. saw_heat @ [Asked ''DIRECT:DELETE'' True] = h0 @ asked \<and>
     seen_to_delete same_stamp store_in ''heat.mkv'' (Some heat_seen) h0 \<and> granting asked"
proof -
  obtain x r where r: "run_command delete_heat never = (Inr x, r)"
    "ru_log r = (saw_heat @ [Asked ''DIRECT:DELETE'' True]) @ Changed 0 (Remove ''heat.mkv'') (Inr ()) # [SawExists 0 ''heat.mkv'' (Inr False)]"
    by (rule delete_run) simp
  from rename_and_delete_are_fenced [OF r(1) [unfolded run_command_def] r(2)] show ?thesis
    by (simp add: delete_heat_def)
qed

text \<open>C11: a move to another storage deletes nothing but its source, which was seen again right before to match
  its evidence. Unless the caller vouches for the target, as a resumed move does after reading both sides,
  the target was written from the source before that and read back whole: with the type of a file, the size
  and the digest of the bytes that were sent, and the confirmed size; it is written after nothing but
  observations, without asking the hook. A resumed move writes and reads back nothing.
\<close>

theorem cross_move_fences_its_deletion:
  assumes "run_direct w digest stamp run_it (MoveFile src dst s t ev same verified) start_run = (x, r)"
    "\<not> one_storage src dst same" "ru_log r = h @ Changed k (Remove p) a # h'"
  shows "k = st_key src \<and> p = s \<and> (\<exists>h0 copied original asked.
    h = h0 @ copied @ [SawExists (st_key src) s (Inr True), SawEntry (st_key src) s (Inr original)] @ asked \<and>
    list_all is_observation h0 \<and> still_there stamp original ev \<and> granting asked \<and>
    (if verified then copied = []
     else \<exists>sent entry content. copied = copy_events src dst s t sent entry content \<and>
       proved_copy digest ev sent entry content))"
proof (cases verified)
  case True
  have "ru_log start_run = []" by (simp add: start_run_def)
  from assms(1) wp_final [OF resumed_move_log [OF this assms(2), of w digest stamp s t ev run_it]]
  have "resuming stamp src s ev (h @ Changed k (Remove p) a # h')"
    by (simp add: run_direct_def True flip: assms(3))
  from resuming_removed [OF this] True show ?thesis by auto
next
  case False
  have "ru_log start_run = []" by (simp add: start_run_def)
  from assms(1) wp_final [OF direct_move_log [OF this assms(2), of w digest stamp s t ev run_it]]
  have "moving digest stamp src dst s t ev (h @ Changed k (Remove p) a # h')"
    by (simp add: run_direct_def False flip: assms(3))
  from moving_removed [OF this] False show ?thesis by (simp, blast)
qed

lemma cross_move_fences_its_deletion_witness:
  "\<exists>h0 sent entry content original asked.
    (saw_heat @ [SawExists 1 ''copy.mkv'' (Inr False)]) @
         (copy_events store_in store_out ''heat.mkv'' ''copy.mkv'' ''bytes'' (entry_at ''copy.mkv'') ''bytes'' @
          saw_heat @ [Asked ''DIRECT:CROSS_STORAGE_DELETE_SOURCE'' True]) =
      h0 @ copy_events store_in store_out ''heat.mkv'' ''copy.mkv'' sent entry content @
      [SawExists (st_key store_in) ''heat.mkv'' (Inr True), SawEntry (st_key store_in) ''heat.mkv'' (Inr original)] @ asked \<and>
    list_all is_observation h0 \<and> proved_copy (\<lambda>x. x) (Some heat_seen) sent entry content \<and>
    still_there same_stamp original (Some heat_seen) \<and> granting asked"
proof -
  obtain x r where r: "run_command carry_heat never = (Inr x, r)"
    "ru_log r = ((saw_heat @ [SawExists 1 ''copy.mkv'' (Inr False)]) @
         (copy_events store_in store_out ''heat.mkv'' ''copy.mkv'' ''bytes'' (entry_at ''copy.mkv'') ''bytes'' @
          saw_heat @ [Asked ''DIRECT:CROSS_STORAGE_DELETE_SOURCE'' True])) @
         Changed 0 (Remove ''heat.mkv'') (Inr ()) # [SawExists 0 ''heat.mkv'' (Inr False)]"
    using heat_is_carried by (auto split: prod.splits sum.splits)
  have "\<not> one_storage store_in store_out None" by code_simp
  from cross_move_fences_its_deletion [OF r(1) [unfolded run_command_def carry_heat_def] this r(2)]
  show ?thesis unfolding if_False by (elim conjE exE) blast
qed

section \<open>Results\<close>

definition simple :: "direct_command \<Rightarrow> bool" where
  "simple c =
     (case c of CreateDirectory _ _ \<Rightarrow> True | WriteText _ _ _ _ _ \<Rightarrow> True | Rename _ _ _ _ \<Rightarrow> True
      | Delete _ _ _ \<Rightarrow> True | _ \<Rightarrow> False)"

text \<open>C14: a command to create a directory, to write a text, to rename or to delete whose change raised claims
  that there was no effect and nothing is uncertain, although the change was asked for and a storage that
  raises may have made it; copies, moves and removals report such a change as attempted and unverified.
\<close>

theorem direct_failure_claims_no_effect:
  assumes "run_direct w digest stamp run_it c start_run = (Inr x, r)" "simple c"
    "Changed k change (Inl e) \<in> set (ru_log r)"
  shows "er_status x = ExecFailed \<and> er_certainty x = NoEffect \<and> er_uncertain x = []"
proof -
  have start: "intact start_run" by (simp add: start_run_def intact_def)
  have r: "\<not> intact r" using assms(3) by (auto simp: intact_def)
  have "wp (run_direct w digest stamp run_it c)
     (\<lambda>x s'. \<not> intact s' \<longrightarrow> er_status x = ExecFailed \<and> er_certainty x = NoEffect \<and> er_uncertain x = [])
     (\<lambda>_ _. True) start_run"
    using assms(2)
    by (cases c)
      (auto simp: simple_def run_direct_def direct_create_directory_def direct_write_def direct_rename_def
        direct_delete_def intro!: execute_direct_denies [OF _ _ start] quiet_intros)
  from wp_result(1) [OF this assms(1)] r show ?thesis by simp
qed

lemma direct_failure_claims_no_effect_witness:
  "\<exists>x r. run_command delete_heat every_time = (Inr x, r) \<and>
     Changed 0 (Remove ''heat.mkv'') (Inl (OsFault ''reset'')) \<in> set (ru_log r) \<and>
     er_status x = ExecFailed \<and> er_certainty x = NoEffect \<and> er_uncertain x = []"
proof -
  obtain x r where r: "run_command delete_heat every_time = (Inr x, r)" "ru_log r = delete_log_of (Inl (OsFault ''reset''))"
    using heat_is_cut_off by (auto split: prod.splits sum.splits)
  have "simple delete_heat" by (simp add: simple_def delete_heat_def)
  moreover have c: "Changed 0 (Remove ''heat.mkv'') (Inl (OsFault ''reset'')) \<in> set (ru_log r)"
    by (simp add: r delete_log_of_def)
  ultimately show ?thesis using direct_failure_claims_no_effect [OF r(1) [unfolded run_command_def]] r(1) c by blast
qed

end
