(* ===== verification/Sequence_Match.thy ===== *)
theory Sequence_Match
  imports Complex_Main
begin

text \<open>
  The similarity of two texts as Python's \<open>difflib.SequenceMatcher(None, a, b).ratio()\<close> computes it: the
  longest common block, then the blocks left and right of it, and so on. In a second text of 200
  characters or more the popular ones do not start a block.
\<close>

section \<open>The longest block\<close>

definition popular :: "'a list \<Rightarrow> 'a \<Rightarrow> bool" where
  "popular b c = (200 \<le> length b \<and> length b div 100 + 1 < count_list b c)"

text \<open>One row of the table: at each position of \<open>b\<close>, the length of the common block that ends there.\<close>

fun next_row :: "('a \<Rightarrow> bool) \<Rightarrow> 'a \<Rightarrow> 'a list \<Rightarrow> nat \<Rightarrow> nat list \<Rightarrow> nat list" where
  "next_row pop c [] before prev = []"
| "next_row pop c (x # xs) before prev =
     (if x = c \<and> \<not> pop x then before + 1 else 0) #
       (case prev of [] \<Rightarrow> next_row pop c xs 0 [] | p # ps \<Rightarrow> next_row pop c xs p ps)"

type_synonym block = "nat \<times> nat \<times> nat"

fun best_in_row :: "nat \<Rightarrow> nat \<Rightarrow> nat list \<Rightarrow> block \<Rightarrow> block" where
  "best_in_row i j [] best = best"
| "best_in_row i j (k # ks) best =
     best_in_row i (Suc j) ks (if snd (snd best) < k then (i + 1 - k, j + 1 - k, k) else best)"

fun scan_rows :: "('a \<Rightarrow> bool) \<Rightarrow> nat \<Rightarrow> 'a list \<Rightarrow> 'a list \<Rightarrow> nat list \<Rightarrow> block \<Rightarrow> block" where
  "scan_rows pop i [] b prev best = best"
| "scan_rows pop i (c # cs) b prev best =
     (let row = next_row pop c b 0 prev in scan_rows pop (Suc i) cs b row (best_in_row i 0 row best))"

fun extend_back :: "'a list \<Rightarrow> 'a list \<Rightarrow> block \<Rightarrow> block" where
  "extend_back a b (Suc i, Suc j, k) = (if a ! i = b ! j then extend_back a b (i, j, Suc k) else (Suc i, Suc j, k))"
| "extend_back a b (0, j, k) = (0, j, k)"
| "extend_back a b (i, 0, k) = (i, 0, k)"

fun common_prefix :: "'a list \<Rightarrow> 'a list \<Rightarrow> nat" where
  "common_prefix (x # xs) (y # ys) = (if x = y then Suc (common_prefix xs ys) else 0)"
| "common_prefix _ _ = 0"

definition longest_match :: "('a \<Rightarrow> bool) \<Rightarrow> 'a list \<Rightarrow> 'a list \<Rightarrow> block" where
  "longest_match pop a b =
     (case extend_back a b (scan_rows pop 0 a b [] (0, 0, 0)) of
        (i, j, k) \<Rightarrow> (i, j, k + common_prefix (drop (i + k) a) (drop (j + k) b)))"

section \<open>Blocks are common\<close>

definition common_block :: "'a list \<Rightarrow> 'a list \<Rightarrow> block \<Rightarrow> bool" where
  "common_block a b = (\<lambda>(i, j, k). i + k \<le> length a \<and> j + k \<le> length b \<and> take k (drop i a) = take k (drop j b))"

lemma common_block_append: "common_block a b x \<Longrightarrow> common_block (a @ a') b x"
  by (cases x) (auto simp: common_block_def)

lemma common_block_snoc:
  assumes "common_block a b (i, j, k)" "i + k = length a" "j + k < length b" "b ! (j + k) = c"
  shows "common_block (a @ [c]) b (i, j, Suc k)"
proof -
  have "take (Suc k) (drop j b) = take k (drop j b) @ [c]"
    using assms(3,4) by (simp add: take_Suc_conv_app_nth)
  moreover have "take (Suc k) (drop i (a @ [c])) = take k (drop i a) @ [c]"
    using assms(2) by simp
  ultimately show ?thesis using assms by (auto simp: common_block_def)
qed

text \<open>Entries of a row are right when each is the length of a common block that ends there.\<close>

definition entries_of :: "'a list \<Rightarrow> 'a list \<Rightarrow> nat \<Rightarrow> nat list \<Rightarrow> bool" where
  "entries_of a b j row =
     (\<forall>t < length row. row ! t \<le> length a \<and> row ! t \<le> Suc (j + t) \<and> j + t < length b \<and>
        common_block a b (length a - row ! t, Suc (j + t) - row ! t, row ! t))"

lemma entries_of_Nil [simp]: "entries_of a b j []"
  by (simp add: entries_of_def)

lemma entries_of_Cons [simp]:
  "entries_of a b j (k # ks) =
     (k \<le> length a \<and> k \<le> Suc j \<and> j < length b \<and> common_block a b (length a - k, Suc j - k, k) \<and> entries_of a b (Suc j) ks)"
  unfolding entries_of_def by (auto simp: nth_Cons less_Suc_eq_0_disj split: nat.split)

lemma empty_block [simp]: "common_block a b (i, j, 0) = (i \<le> length a \<and> j \<le> length b)"
  by (simp add: common_block_def)

lemma next_row_entries:
  assumes "xs = drop j b" "before \<le> length a" "before \<le> j" "common_block a b (length a - before, j - before, before)"
    "entries_of a b j prev"
  shows "entries_of (a @ [c]) b j (next_row pop c xs before prev)"
  using assms
proof (induction xs arbitrary: j before prev)
  case (Cons x xs)
  have j: "j < length b" "b ! j = x" "xs = drop (Suc j) b"
    using Cons.prems(1) by (metis drop_eq_Nil list.discI not_le, metis nth_via_drop, metis drop_Suc list.sel(3) tl_drop)
  have here: "common_block (a @ [c]) b (length a - before, j - before, Suc before)" if "x = c"
    by (rule common_block_snoc [OF Cons.prems(4)]) (use Cons.prems(2,3) j that in auto)
  have rest: "entries_of (a @ [c]) b (Suc j) (case prev of [] \<Rightarrow> next_row pop c xs 0 [] | p # ps \<Rightarrow> next_row pop c xs p ps)"
    using Cons.prems(5) j(1) by (cases prev) (auto intro!: Cons.IH [OF j(3)])
  show ?case using here rest Cons.prems(2,3) j(1) by (simp add: Suc_diff_le)
qed simp

lemma best_in_row_block:
  "entries_of a b j ks \<Longrightarrow> length a = Suc i \<Longrightarrow> common_block a b best \<Longrightarrow> common_block a b (best_in_row i j ks best)"
  by (induction i j ks best rule: best_in_row.induct) (auto simp: Suc_diff_le split: if_splits)

lemma scan_rows_block:
  "entries_of a b 0 prev \<Longrightarrow> common_block a b best \<Longrightarrow> common_block (a @ cs) b (scan_rows pop (length a) cs b prev best)"
proof (induction cs arbitrary: a prev best)
  case (Cons c cs)
  let ?row = "next_row pop c b 0 prev"
  have row: "entries_of (a @ [c]) b 0 ?row" by (rule next_row_entries) (use Cons.prems(1) in auto)
  have "common_block (a @ [c]) b (best_in_row (length a) 0 ?row best)"
    by (rule best_in_row_block [OF row _ common_block_append [OF Cons.prems(2)]]) simp
  from Cons.IH [OF row this] show ?case by (simp add: Let_def)
qed simp

lemma extend_back_block: "common_block a b x \<Longrightarrow> common_block a b (extend_back a b x)"
proof (induction a b x rule: extend_back.induct)
  case (1 a b i j k)
  show ?case
  proof (cases "a ! i = b ! j")
    case True
    have l: "i < length a" "j < length b" using "1.prems" by (auto simp: common_block_def)
    have "common_block a b (i, j, Suc k)"
      using "1.prems" True l by (auto simp: common_block_def Cons_nth_drop_Suc [symmetric])
    with "1.IH" True show ?thesis by simp
  qed (use "1.prems" in simp)
qed simp_all

lemma common_prefix_common:
  "common_prefix xs ys \<le> length xs \<and> common_prefix xs ys \<le> length ys \<and>
    take (common_prefix xs ys) xs = take (common_prefix xs ys) ys"
  by (induction xs ys rule: common_prefix.induct) auto

lemma longest_match_block: "common_block a b (longest_match pop a b)"
proof -
  obtain i j k where x: "extend_back a b (scan_rows pop 0 a b [] (0, 0, 0)) = (i, j, k)" by (metis prod_cases3)
  have "common_block a b (scan_rows pop 0 a b [] (0, 0, 0))" using scan_rows_block [of "[]" b "[]" "(0, 0, 0)" a pop] by simp
  from extend_back_block [OF this] have "common_block a b (i, j, k)" by (simp add: x)
  then show ?thesis
    using common_prefix_common [of "drop (i + k) a" "drop (j + k) b"]
    by (auto simp: longest_match_def x common_block_def take_add add.commute)
qed

section \<open>All blocks\<close>

lemma longest_match_within:
  "longest_match pop a b = (i, j, k) \<Longrightarrow> i + k \<le> length a \<and> j + k \<le> length b"
  "(i, j, k) = longest_match pop a b \<Longrightarrow> i + k \<le> length a \<and> j + k \<le> length b"
  using longest_match_block [of a b pop] by (auto simp: common_block_def split: prod.splits)

function matched :: "('a \<Rightarrow> bool) \<Rightarrow> 'a list \<Rightarrow> 'a list \<Rightarrow> nat" where
  "matched pop a b =
     (case longest_match pop a b of
        (i, j, k) \<Rightarrow>
          if k = 0 then 0
          else matched pop (take i a) (take j b) + k + matched pop (drop (i + k) a) (drop (j + k) b))"
  by auto
termination
  by (relation "measure (\<lambda>(pop, a, b). length a)") (auto dest: longest_match_within)

declare matched.simps [simp del]

lemma matched_bounds: "matched pop a b \<le> length a \<and> matched pop a b \<le> length b"
proof (induction pop a b rule: matched.induct)
  case (1 pop a b)
  obtain i j k where x: "longest_match pop a b = (i, j, k)" by (metis prod_cases3)
  note within = longest_match_within(1) [OF x]
  show ?case
  proof (cases "k = 0")
    case False
    with "1.IH" [OF x [symmetric] refl] within show ?thesis
      by (auto simp: matched.simps [of pop a b] x)
  qed (simp add: matched.simps [of pop a b] x)
qed

definition sequence_ratio :: "'a list \<Rightarrow> 'a list \<Rightarrow> rat" where
  "sequence_ratio a b =
     (let total = length a + length b in
      if total = 0 then 1 else of_nat (2 * matched (popular b) a b) / of_nat total)"

lemma sequence_ratio_bounds: "0 \<le> sequence_ratio a b \<and> sequence_ratio a b \<le> 1"
proof -
  let ?m = "matched (popular b) a b"
  have "2 * ?m \<le> length a + length b" using matched_bounds [of "popular b" a b] by linarith
  then have "(of_nat (2 * ?m) :: rat) \<le> of_nat (length a + length b)" by (rule of_nat_mono)
  then show ?thesis unfolding sequence_ratio_def Let_def by (auto simp: divide_le_eq_1 zero_le_divide_iff)
qed

lemma ratio_example: "sequence_ratio ''abxcd'' ''abcd'' = 8 / 9"
  by code_simp

end
