(* ===== verification/Metadata_Match.thy ===== *)
theory Metadata_Match
  imports Media_Model Regex Sequence_Match
begin

text \<open>
  Which medium a parsed file is (\<open>domain/metadata.py\<close>, \<open>application/metadata.py\<close>): policies, the candidates a
  provider offers, their scores against the parsed titles and years, and the decision. Scores are
  rationals; the wording of reasons is left out; Unicode normalization is an argument.
\<close>

section \<open>Policies\<close>

datatype query_type = QueryMovie | QueryTv | QueryAuto | QueryNone

record provider_retry =
  yp_count :: int
  yp_base :: rat
  yp_max :: rat

definition make_provider_retry :: "provider_retry \<Rightarrow> provider_retry result" where
  "make_provider_retry p = raise_if (yp_count p < 0 \<or> yp_base p < 0 \<or> yp_max p < yp_base p) ValueError (Inr p)"

record metadata_policy =
  mp_id :: string
  mp_provider :: string
  mp_media_type :: "media_type option"
  mp_language :: "string option"
  mp_region :: "string option"
  mp_name :: string
  mp_query :: "query_type option"
  mp_automatic :: rat
  mp_confirmation :: rat
  mp_gap :: rat
  mp_timeout :: rat
  mp_retry :: provider_retry
  mp_candidates :: int
  mp_pages :: int
  mp_requests :: int
  mp_enrichments :: int
  mp_enabled :: bool

definition ascii_alnum :: "char \<Rightarrow> bool" where
  "ascii_alnum c = (ascii_alpha c \<or> ascii_digit c)"

text \<open>The three patterns: \<open>[A-Za-z0-9][A-Za-z0-9_.-]*\<close>, a language tag, two letters or three digits.\<close>

definition provider_name :: "string \<Rightarrow> bool" where
  "provider_name s = (s \<noteq> [] \<and> ascii_alnum (hd s) \<and> list_all (\<lambda>c. ascii_alnum c \<or> c \<in> set ''_.-'') s)"

definition language_tag :: "string \<Rightarrow> bool" where
  "language_tag s =
     (case split_on (CHR ''-'') s of
        [] \<Rightarrow> False
      | p # ps \<Rightarrow> 2 \<le> length p \<and> length p \<le> 8 \<and> list_all ascii_alpha p \<and>
          list_all (\<lambda>q. 1 \<le> length q \<and> length q \<le> 8 \<and> list_all ascii_alnum q) ps)"

definition region_code :: "string \<Rightarrow> bool" where
  "region_code s = (length s = 2 \<and> list_all ascii_alpha s \<or> length s = 3 \<and> list_all ascii_digit s)"

definition make_metadata_policy :: "metadata_policy \<Rightarrow> metadata_policy result" where
  "make_metadata_policy p =
     raise_if (mp_id p = [] \<or> mp_provider p = [] \<or> 64 < length (mp_id p) \<or> 64 < length (mp_provider p) \<or>
         \<not> provider_name (mp_provider p)) ValueError
     (raise_if (120 < length (mp_name p)) ValueError
     (raise_if (\<not> (0 \<le> mp_confirmation p \<and> mp_confirmation p \<le> mp_automatic p \<and> mp_automatic p \<le> 100)) ValueError
     (raise_if (\<not> (0 \<le> mp_gap p \<and> mp_gap p \<le> 100) \<or> \<not> (0 < mp_timeout p \<and> mp_timeout p \<le> 120) \<or>
         \<not> (0 \<le> yp_count (mp_retry p) \<and> yp_count (mp_retry p) \<le> 10) \<or>
         \<not> (1 \<le> mp_candidates p \<and> mp_candidates p \<le> 100) \<or> \<not> (1 \<le> mp_pages p \<and> mp_pages p \<le> 10) \<or>
         \<not> (1 \<le> mp_requests p \<and> mp_requests p \<le> 100) \<or> \<not> (0 \<le> mp_enrichments p \<and> mp_enrichments p \<le> 100)) ValueError
     (raise_if (case mp_language p of None \<Rightarrow> False | Some l \<Rightarrow> 35 < length l \<or> \<not> language_tag l) ValueError
     (raise_if (case mp_region p of None \<Rightarrow> False | Some r \<Rightarrow> 3 < length r \<or> \<not> region_code r) ValueError
     (Inr p))))))"

definition policy_query :: "metadata_policy \<Rightarrow> query_type" where
  "policy_query p =
     (case mp_query p of
        Some q \<Rightarrow> q
      | None \<Rightarrow> (case mp_media_type p of Some Movie \<Rightarrow> QueryMovie | Some Tv \<Rightarrow> QueryTv | None \<Rightarrow> QueryAuto))"

definition expected_media_type :: "metadata_policy \<Rightarrow> media_type option" where
  "expected_media_type p = (case policy_query p of QueryMovie \<Rightarrow> Some Movie | QueryTv \<Rightarrow> Some Tv | _ \<Rightarrow> None)"

definition make_policy_registry :: "metadata_policy list \<Rightarrow> (string \<rightharpoonup> metadata_policy) result" where
  "make_policy_registry ps =
     raise_if (\<not> distinct (map mp_id ps)) ValueError (Inr (map_of (map (\<lambda>p. (mp_id p, p)) ps)))"

definition resolve_policy :: "(string \<rightharpoonup> metadata_policy) \<Rightarrow> string \<Rightarrow> metadata_policy result" where
  "resolve_policy r k =
     (case r k of None \<Rightarrow> Inl LookupError | Some p \<Rightarrow> raise_if (\<not> mp_enabled p) LookupError (Inr p))"

section \<open>Candidates\<close>

record media_candidate =
  mc_provider :: string
  mc_id :: string
  mc_type :: media_type
  mc_title :: string
  mc_original_title :: "string option"
  mc_year :: "int option"
  mc_alternative_titles :: "string list"
  mc_translated_titles :: "string list"
  mc_canonical_date :: "string option"
  mc_regional_date :: "string option"

record parse_evidence =
  pe_field :: string
  pe_value :: string

record parsed_media = parse_result +
  pr_evidence :: "parse_evidence list"

text \<open>\<open>isdigit\<close> accepts superscripts that \<open>int\<close> then refuses.\<close>

definition date_year :: "string option \<Rightarrow> int option result" where
  "date_year v =
     (case v of
        None \<Rightarrow> Inr None
      | Some s \<Rightarrow>
          if 4 \<le> length s \<and> py_isdigit (take 4 s) then bind_result (py_int (take 4 s)) (\<lambda>n. Inr (Some (int n)))
          else Inr None)"

section \<open>Titles\<close>

fun word_pieces :: "string \<Rightarrow> string list" where
  "word_pieces [] = [[]]"
| "word_pieces (c # cs) =
     (if word_char c then (case word_pieces cs of [] \<Rightarrow> [[c]] | w # ws \<Rightarrow> (c # w) # ws) else [] # word_pieces cs)"

definition normalize_title :: "(string \<Rightarrow> string) \<Rightarrow> string \<Rightarrow> string" where
  "normalize_title nfkc s = join_with '' '' (filter (\<lambda>w. w \<noteq> []) (word_pieces (casefold (nfkc s))))"

definition similarity :: "(string \<Rightarrow> string) \<Rightarrow> string \<Rightarrow> string \<Rightarrow> rat" where
  "similarity nfkc left right =
     (let l = normalize_title nfkc left; r = normalize_title nfkc right in
      if l = [] \<or> r = [] then 0
      else if l = r then 1
      else let ls = remdups (split_ws l); rs = remdups (split_ws r);
               shared = filter (\<lambda>w. w \<in> set rs) ls; all = remdups (ls @ rs) in
        max (sequence_ratio l r) (of_nat (length shared) / of_nat (length all)))"

definition candidate_titles :: "media_candidate \<Rightarrow> (string \<times> string) list" where
  "candidate_titles c =
     filter (\<lambda>(v, _). v \<noteq> [])
       ([(mc_title c, ''title'')] @ (case mc_original_title c of None \<Rightarrow> [] | Some t \<Rightarrow> [(t, ''original_title'')]) @
        map (\<lambda>v. (v, ''translation'')) (mc_translated_titles c) @
        map (\<lambda>v. (v, ''alternative_title'')) (mc_alternative_titles c))"

text \<open>\<open>max(xs, key=..., default=d)\<close>: the first of the greatest.\<close>

definition first_greatest :: "(rat \<times> 'a) list \<Rightarrow> rat \<times> 'a \<Rightarrow> rat \<times> 'a" where
  "first_greatest xs d =
     (case xs of [] \<Rightarrow> d | y # ys \<Rightarrow> foldl (\<lambda>best x. if fst best < fst x then x else best) y ys)"

record candidate_score =
  cs_candidate :: media_candidate
  cs_total :: rat
  cs_components :: "(string \<times> rat) list"
  cs_exact_title :: bool
  cs_exact_year :: bool
  cs_local_title :: "string option"
  cs_provider_title :: "string option"
  cs_source :: "string option"

definition year_score :: "int option \<Rightarrow> int option \<Rightarrow> rat \<times> bool" where
  "year_score parsed offered =
     (case (parsed, offered) of
        (Some a, Some b) \<Rightarrow>
          let d = abs (a - b) in
          if d = 0 then (20, True) else if d = 1 then (10, False) else if d \<le> 3 then (3, False) else (- 15, False)
      | _ \<Rightarrow> (0, False))"

definition round3 :: "rat \<Rightarrow> rat" where
  "round3 x = of_int (round_half_even (x * 1000)) / 1000"

definition text_or_none :: "string \<Rightarrow> string option" where
  "text_or_none s = (if s = [] then None else Some s)"

definition score_candidate :: "(string \<Rightarrow> string) \<Rightarrow> parsed_media \<Rightarrow> media_candidate \<Rightarrow> candidate_score result" where
  "score_candidate nfkc p c =
     (let queries = filter (\<lambda>q. q \<noteq> []) (first_occurrences (pr_title p # pr_titles p));
          compared = concat (map (\<lambda>q. map (\<lambda>(t, source). (similarity nfkc q t, q, t, Some source)) (candidate_titles c)) queries);
          (similar, query, title, source) = first_greatest compared (0, [], [], None);
          (years, exact_year) = year_score (pr_year p) (mc_year c);
          evident = list_ex (\<lambda>e. pe_field e = ''title_candidate'' \<and>
            normalize_title nfkc (pe_value e) = normalize_title nfkc (mc_title c)) (pr_evidence p);
          titles = 65 * similar; evidence = (if evident then 10 else 0) in
      bind_result (date_year (mc_regional_date c)) (\<lambda>regional.
      Inr \<lparr>cs_candidate = c, cs_total = round3 (max 0 (min 100 (titles + years + 5 + evidence))),
           cs_components = [(''title'', titles), (''year'', years)] @
             (if regional \<noteq> None then [(''regional_year'', 0)] else []) @ [(''media_type'', 5), (''parse_evidence'', evidence)],
           cs_exact_title = (normalize_title nfkc query = normalize_title nfkc title), cs_exact_year = exact_year,
           cs_local_title = text_or_none query, cs_provider_title = text_or_none title, cs_source = source\<rparr>))"

section \<open>Ranking and decision\<close>

datatype id_key = NumericId nat | TextId string

fun id_key_le :: "id_key \<Rightarrow> id_key \<Rightarrow> bool" where
  "id_key_le (NumericId m) (NumericId n) = (m \<le> n)"
| "id_key_le (NumericId m) (TextId t) = True"
| "id_key_le (TextId s) (NumericId n) = False"
| "id_key_le (TextId s) (TextId t) = text_le s t"

definition provider_id_key :: "string \<Rightarrow> id_key result" where
  "provider_id_key v = (if py_isdigit v then bind_result (py_int v) (\<lambda>n. Inr (NumericId n)) else Inr (TextId v))"

definition score_before :: "candidate_score \<times> id_key \<Rightarrow> candidate_score \<times> id_key \<Rightarrow> bool" where
  "score_before x y =
     (let (a, j) = x; (b, k) = y in
      cs_total b < cs_total a \<or>
      cs_total a = cs_total b \<and>
        (cs_exact_title a \<and> \<not> cs_exact_title b \<or>
         cs_exact_title a = cs_exact_title b \<and>
           (cs_exact_year a \<and> \<not> cs_exact_year b \<or> cs_exact_year a = cs_exact_year b \<and> id_key_le j k)))"

datatype match_status = CandidateMatched | CandidateNeedConfirm | CandidateNotFound | CandidateAmbiguous

record candidate_match =
  cm_status :: match_status
  cm_best :: "media_candidate option"
  cm_score :: rat
  cm_scores :: "candidate_score list"

definition match_status_of :: "metadata_policy \<Rightarrow> candidate_score \<Rightarrow> candidate_score list \<Rightarrow> match_status" where
  "match_status_of p best rest =
     (if (case rest of [] \<Rightarrow> False | second # _ \<Rightarrow> cs_total best - cs_total second < mp_gap p) then CandidateAmbiguous
      else if mp_automatic p \<le> cs_total best then CandidateMatched
      else if mp_confirmation p \<le> cs_total best then CandidateNeedConfirm
      else CandidateNotFound)"

definition match_candidates ::
  "(string \<Rightarrow> string) \<Rightarrow> parsed_media \<Rightarrow> media_candidate list \<Rightarrow> metadata_policy \<Rightarrow> candidate_match result" where
  "match_candidates nfkc parsed candidates policy =
     (let compatible = filter (\<lambda>c. expected_media_type policy = None \<or> expected_media_type policy = Some (mc_type c))
            (take (nat (mp_candidates policy)) candidates) in
      if compatible = [] \<or> strip (pr_title parsed) = []
      then Inr \<lparr>cm_status = CandidateNotFound, cm_best = None, cm_score = 0, cm_scores = []\<rparr>
      else
        bind_result (map_result (score_candidate nfkc parsed) compatible) (\<lambda>scored.
        bind_result (map_result (\<lambda>s. bind_result (provider_id_key (mc_id (cs_candidate s))) (\<lambda>k. Inr (s, k))) scored) (\<lambda>keyed.
        case map fst (sort_by score_before keyed) of
          [] \<Rightarrow> Inl AssertionError
        | best # rest \<Rightarrow>
            Inr \<lparr>cm_status = match_status_of policy best rest, cm_best = Some (cs_candidate best),
              cm_score = cs_total best, cm_scores = best # rest\<rparr>)))"

end
