(* ===== verification/Metadata_Identify.thy ===== *)
theory Metadata_Identify
  imports Metadata_Match
begin

text \<open>
  The identification of one file against a metadata provider, with the budget of its requests, and the cache
  of answers (\<open>application/metadata.py\<close>). A provider answers from everything it was asked so far, so it may
  fail, or change its mind, at any request.
\<close>

section \<open>Providers and requests\<close>

record episode_identity =
  ep_number :: int
  ep_title :: string

record provider_identity = media_identity +
  mi_canonical_date :: "string option"
  mi_regional_date :: "string option"
  mi_confidence :: "rat option"
  mi_matched_by :: "string option"
  mi_recognition :: "string option"
  mi_episode_metadata :: "episode_identity list"

datatype metadata_request = SearchFor media_type | DetailsOf media_type string | SeasonOf string int

text \<open>The last request of the history is the one that is answered.\<close>

record metadata_provider =
  mv_id :: string
  mv_alternative_titles :: bool
  mv_search :: "metadata_request list \<Rightarrow> media_candidate list result"
  mv_details :: "metadata_request list \<Rightarrow> provider_identity result"
  mv_season :: "metadata_request list \<Rightarrow> provider_identity result"

definition make_provider_registry :: "metadata_provider list \<Rightarrow> (string \<rightharpoonup> metadata_provider) result" where
  "make_provider_registry ps =
     raise_if (\<not> distinct (map mv_id ps)) ValueError (Inr (map_of (map (\<lambda>p. (mv_id p, p)) ps)))"

definition resolve_provider :: "(string \<rightharpoonup> metadata_provider) \<Rightarrow> string \<Rightarrow> metadata_provider result" where
  "resolve_provider r k = (case r k of None \<Rightarrow> Inl LookupError | Some p \<Rightarrow> Inr p)"

record budget =
  bu_left :: int
  bu_requests :: "metadata_request list"

type_synonym 'a asking = "(budget, 'a) tx"

definition consume_request :: "unit asking" where
  "consume_request s =
     (if bu_left s \<le> 0 then (Inl (MetadataError ''invalid_request''), s) else (Inr (), s\<lparr>bu_left := bu_left s - 1\<rparr>))"

definition ask_provider :: "(metadata_request list \<Rightarrow> 'a result) \<Rightarrow> metadata_request \<Rightarrow> 'a asking" where
  "ask_provider answer q s = (let h = bu_requests s @ [q] in (answer h, s\<lparr>bu_requests := h\<rparr>))"

definition spend :: "(metadata_request list \<Rightarrow> 'a result) \<Rightarrow> metadata_request \<Rightarrow> 'a asking" where
  "spend answer q = bind_tx consume_request (\<lambda>_. ask_provider answer q)"

definition details :: "metadata_provider \<Rightarrow> media_type \<Rightarrow> string \<Rightarrow> provider_identity asking" where
  "details pv mt k = spend (mv_details pv) (DetailsOf mt k)"

section \<open>Enrichment\<close>

text \<open>The candidates worth a request: how far their year is, their score, their rank in the search.\<close>

definition plausible_year :: "int option \<Rightarrow> int option \<Rightarrow> int option" where
  "plausible_year parsed offered =
     (case (parsed, offered) of
        (Some a, Some b) \<Rightarrow> if 1 < abs (a - b) then None else Some (abs (a - b))
      | _ \<Rightarrow> Some 2)"

fun plausible_from ::
  "(string \<Rightarrow> string) \<Rightarrow> media_type \<Rightarrow> parsed_media \<Rightarrow> nat \<Rightarrow> media_candidate list \<Rightarrow>
   ((int \<times> rat \<times> nat) \<times> media_candidate) list result" where
  "plausible_from nfkc mt parsed rank [] = Inr []"
| "plausible_from nfkc mt parsed rank (c # cs) =
     (if mc_type c \<noteq> mt then plausible_from nfkc mt parsed (Suc rank) cs
      else case plausible_year (pr_year parsed) (mc_year c) of
        None \<Rightarrow> plausible_from nfkc mt parsed (Suc rank) cs
      | Some distance \<Rightarrow>
          bind_result (score_candidate nfkc parsed c) (\<lambda>s.
          bind_result (plausible_from nfkc mt parsed (Suc rank) cs) (\<lambda>rest.
          Inr (((distance, cs_total s, rank), c) # rest))))"

definition plausible_before :: "(int \<times> rat \<times> nat) \<times> 'a \<Rightarrow> (int \<times> rat \<times> nat) \<times> 'a \<Rightarrow> bool" where
  "plausible_before x y =
     (let ((d, s, r), _) = x; ((d', s', r'), _) = y in d < d' \<or> d = d' \<and> (s' < s \<or> s = s' \<and> r \<le> r'))"

definition new_titles :: "media_candidate \<Rightarrow> string list \<Rightarrow> string list" where
  "new_titles c vs =
     first_occurrences (filter (\<lambda>v. v \<noteq> [] \<and> v \<noteq> mc_title c \<and> Some v \<noteq> mc_original_title c) vs)"

definition enriched_candidate :: "media_candidate \<Rightarrow> provider_identity \<Rightarrow> media_candidate" where
  "enriched_candidate c i =
     c\<lparr>mc_year := mi_year i,
       mc_alternative_titles := new_titles c (mc_alternative_titles c @ [mi_title i] @
         (case mi_original_title i of None \<Rightarrow> [] | Some t \<Rightarrow> [t]) @ mi_alternative_titles i),
       mc_translated_titles := new_titles c (mc_translated_titles c @ mi_translated_titles i),
       mc_canonical_date := mi_canonical_date i\<rparr>"

fun fetch_details :: "metadata_provider \<Rightarrow> media_type \<Rightarrow> media_candidate list \<Rightarrow> (media_candidate \<times> provider_identity) list asking" where
  "fetch_details pv mt [] = return_tx (Inr [])"
| "fetch_details pv mt (c # cs) =
     bind_tx (details pv mt (mc_id c)) (\<lambda>i.
     bind_tx (fetch_details pv mt cs) (\<lambda>rest. return_tx (Inr ((c, i) # rest))))"

text \<open>The dictionary of what was fetched: a later entry of the same identifier replaces an earlier one.\<close>

definition fetched_identity :: "(media_candidate \<times> provider_identity) list \<Rightarrow> string \<Rightarrow> (media_candidate \<times> provider_identity) option" where
  "fetched_identity fs k = map_of (rev (map (\<lambda>(c, i). (mc_id c, (c, i))) fs)) k"

definition enrich_candidates ::
  "(string \<Rightarrow> string) \<Rightarrow> metadata_provider \<Rightarrow> media_candidate list \<Rightarrow> parsed_media \<Rightarrow> media_type \<Rightarrow> metadata_policy \<Rightarrow>
   (media_candidate list \<times> (media_candidate \<times> provider_identity) list) asking" where
  "enrich_candidates nfkc pv candidates parsed mt policy =
     bind_tx (return_tx (plausible_from nfkc mt parsed 0 (take (nat (mp_candidates policy)) candidates))) (\<lambda>plausible.
     bind_tx (read_tx (\<lambda>s. Inr (bu_left s))) (\<lambda>left.
     let reserve = (if mt = Tv \<and> pr_season parsed \<noteq> None \<and> pr_episodes parsed \<noteq> [] then 1 else 0);
         limit = min (mp_enrichments policy) (max 0 (left - reserve)) in
     bind_tx (fetch_details pv mt (take (nat limit) (map snd (sort_by plausible_before plausible)))) (\<lambda>fs.
     return_tx (Inr
       (map (\<lambda>c. case fetched_identity fs (mc_id c) of None \<Rightarrow> c | Some (c', i) \<Rightarrow> enriched_candidate c' i) candidates, fs)))))"

section \<open>Identification\<close>

definition verify_episodes ::
  "metadata_provider \<Rightarrow> provider_identity \<Rightarrow> parsed_media \<Rightarrow> provider_identity option asking" where
  "verify_episodes pv i parsed =
     (case pr_season parsed of
        Some season \<Rightarrow>
          if pr_episodes parsed = [] then return_tx (Inr (Some
            (i\<lparr>mi_season := Some season, mi_episode := pr_episode parsed, mi_episodes := []\<rparr>)))
          else bind_tx (spend (mv_season pv) (SeasonOf (mi_provider_id i) season)) (\<lambda>listed.
            let available = map_of (rev (map (\<lambda>e. (ep_number e, e)) (mi_episode_metadata listed))) in
            if list_ex (\<lambda>n. available n = None) (pr_episodes parsed) then return_tx (Inr None)
            else let selected = map (\<lambda>n. the (available n)) (pr_episodes parsed) in
              return_tx (Inr (Some (i\<lparr>mi_season := Some season, mi_episode := Some (hd (pr_episodes parsed)),
                mi_episodes := pr_episodes parsed, mi_episode_title := Some (ep_title (hd selected)),
                mi_episode_metadata := selected\<rparr>))))
      | None \<Rightarrow> return_tx (Inr (Some
          (i\<lparr>mi_season := None, mi_episode := pr_episode parsed, mi_episodes := pr_episodes parsed\<rparr>))))"

datatype identification_status = IdMatched | IdNeedConfirm | IdNotFound | IdAmbiguous | IdProviderError | IdMismatch

record identification =
  id_status :: identification_status
  id_type :: recognition_type
  id_identity :: "provider_identity option"
  id_match :: "candidate_match option"
  id_query :: string
  id_error :: "string option"

definition unidentified :: "recognition_type \<Rightarrow> string \<Rightarrow> identification_status \<Rightarrow> identification" where
  "unidentified t q st =
     \<lparr>id_status = st, id_type = t, id_identity = None, id_match = None, id_query = q, id_error = None\<rparr>"

fun unmatched_status :: "match_status \<Rightarrow> identification_status" where
  "unmatched_status CandidateNeedConfirm = IdNeedConfirm"
| "unmatched_status CandidateAmbiguous = IdAmbiguous"
| "unmatched_status _ = IdNotFound"

definition chosen_media_type :: "media_type option \<Rightarrow> parsed_media \<Rightarrow> metadata_policy \<Rightarrow> media_type" where
  "chosen_media_type override parsed policy =
     (case override of
        Some mt \<Rightarrow> mt
      | None \<Rightarrow> (case expected_media_type policy of
          Some mt \<Rightarrow> mt
        | None \<Rightarrow> if pr_season parsed \<noteq> None then Tv else Movie))"

definition effective_policy :: "media_type option \<Rightarrow> metadata_policy \<Rightarrow> metadata_policy" where
  "effective_policy override policy =
     (case override of
        None \<Rightarrow> policy
      | Some mt \<Rightarrow> policy\<lparr>mp_media_type := Some mt, mp_query := Some (case mt of Tv \<Rightarrow> QueryTv | Movie \<Rightarrow> QueryMovie)\<rparr>)"

text \<open>Search, match, and match again once some candidates are known better.\<close>

definition find_match ::
  "(string \<Rightarrow> string) \<Rightarrow> metadata_provider \<Rightarrow> parsed_media \<Rightarrow> media_type \<Rightarrow> metadata_policy \<Rightarrow>
   (candidate_match \<times> (media_candidate \<times> provider_identity) list) asking" where
  "find_match nfkc pv parsed mt policy =
     bind_tx (spend (mv_search pv) (SearchFor mt)) (\<lambda>candidates.
     bind_tx (return_tx (match_candidates nfkc parsed candidates policy)) (\<lambda>m.
     if cm_status m \<noteq> CandidateMatched \<and> mv_alternative_titles pv \<and> mp_enrichments policy \<noteq> 0
     then bind_tx (enrich_candidates nfkc pv candidates parsed mt policy) (\<lambda>(candidates, fs).
       bind_tx (return_tx (match_candidates nfkc parsed candidates policy)) (\<lambda>m. return_tx (Inr (m, fs))))
     else return_tx (Inr (m, []))))"

definition identify_matched ::
  "metadata_provider \<Rightarrow> parsed_media \<Rightarrow> media_type \<Rightarrow> recognition_type \<Rightarrow> candidate_match \<Rightarrow>
   (media_candidate \<times> provider_identity) list \<Rightarrow> media_candidate \<Rightarrow> identification asking" where
  "identify_matched pv parsed mt t m fs best =
     bind_tx (case fetched_identity fs (mc_id best) of Some (_, i) \<Rightarrow> return_tx (Inr i) | None \<Rightarrow> details pv mt (mc_id best)) (\<lambda>i.
     bind_tx (if mt = Tv then verify_episodes pv i parsed else return_tx (Inr (Some i))) (\<lambda>v.
     return_tx (Inr (case v of
         None \<Rightarrow> (unidentified t (pr_title parsed) IdMismatch)\<lparr>id_match := Some m\<rparr>
       | Some i \<Rightarrow> (unidentified t (pr_title parsed) IdMatched)\<lparr>id_match := Some m,
           id_identity := Some (i\<lparr>mi_regional_date := mc_regional_date best, mi_confidence := Some (cm_score m),
             mi_matched_by := Some ''candidate_matcher'', mi_recognition := Some (rt_id t)\<rparr>)\<rparr>))))"

definition catch_metadata :: "'a asking \<Rightarrow> (string \<Rightarrow> 'a) \<Rightarrow> 'a asking" where
  "catch_metadata m handler s = (case m s of (Inl (MetadataError e), s') \<Rightarrow> (Inr (handler e), s') | r \<Rightarrow> r)"

definition identify_media ::
  "(string \<Rightarrow> string) \<Rightarrow> (string \<rightharpoonup> metadata_provider) \<Rightarrow> recognition_type option \<Rightarrow> parsed_media \<Rightarrow> metadata_policy \<Rightarrow>
   media_type option \<Rightarrow> identification asking" where
  "identify_media nfkc providers recognized parsed policy override =
     (case recognized of
        None \<Rightarrow> return_tx (Inl ValueError)
      | Some t \<Rightarrow>
          if \<not> mp_enabled policy \<or> policy_query policy = QueryNone
          then return_tx (Inr (unidentified t (pr_title parsed) IdNotFound))
          else bind_tx (return_tx (resolve_provider providers (mp_provider policy))) (\<lambda>pv.
            let mt = chosen_media_type override parsed policy; policy = effective_policy override policy in
            catch_metadata
              (bind_tx (find_match nfkc pv parsed mt policy) (\<lambda>(m, fs).
               case (cm_status m, cm_best m) of
                 (CandidateMatched, Some best) \<Rightarrow> identify_matched pv parsed mt t m fs best
               | _ \<Rightarrow> return_tx (Inr ((unidentified t (pr_title parsed) (unmatched_status (cm_status m)))\<lparr>id_match := Some m\<rparr>))))
              (\<lambda>e. (unidentified t (pr_title parsed) IdProviderError)\<lparr>id_error := Some e\<rparr>)))"

definition identify ::
  "(string \<Rightarrow> string) \<Rightarrow> (string \<rightharpoonup> metadata_provider) \<Rightarrow> recognition_type option \<Rightarrow> parsed_media \<Rightarrow> metadata_policy \<Rightarrow>
   media_type option \<Rightarrow> identification result \<times> budget" where
  "identify nfkc providers recognized parsed policy override =
     identify_media nfkc providers recognized parsed policy override \<lparr>bu_left = mp_requests policy, bu_requests = []\<rparr>"

definition identify_by_provider_id ::
  "(string \<rightharpoonup> metadata_provider) \<Rightarrow> recognition_type option \<Rightarrow> string \<Rightarrow> media_type \<Rightarrow> metadata_policy \<Rightarrow> identification asking" where
  "identify_by_provider_id providers recognized k mt policy =
     (case recognized of
        None \<Rightarrow> return_tx (Inl ValueError)
      | Some t \<Rightarrow>
          bind_tx (return_tx (resolve_provider providers (mp_provider policy))) (\<lambda>pv.
          catch_metadata
            (bind_tx (ask_provider (mv_details pv) (DetailsOf mt k)) (\<lambda>i.
             return_tx (Inr ((unidentified t k IdMatched)\<lparr>id_identity := Some (i\<lparr>mi_confidence := Some 100,
               mi_matched_by := Some ''manual_provider_id'', mi_recognition := Some (rt_id t)\<rparr>)\<rparr>))))
            (\<lambda>e. (unidentified t k IdProviderError)\<lparr>id_error := Some e\<rparr>)))"

section \<open>The cache\<close>

text \<open>
  Entries are in the order of insertion; a key that is put again keeps its place. The clock is read once per
  use, so an operation gets its readings as a function of their number.
\<close>

type_synonym ('k, 'v) cache = "('k \<times> 'v \<times> rat) list"

definition cache_get :: "rat \<Rightarrow> 'k \<Rightarrow> ('k, 'v) cache \<Rightarrow> 'v option \<times> ('k, 'v) cache" where
  "cache_get now k es =
     (case map_of es k of
        None \<Rightarrow> (None, es)
      | Some (v, expires) \<Rightarrow> if expires \<le> now then (None, filter (\<lambda>e. fst e \<noteq> k) es) else (Some v, es))"

fun first_expired :: "(nat \<Rightarrow> rat) \<Rightarrow> nat \<Rightarrow> ('k, 'v) cache \<Rightarrow> nat option" where
  "first_expired clock n [] = None"
| "first_expired clock n (e # es) =
     (if snd (snd e) \<le> clock n then Some 0 else map_option Suc (first_expired clock (Suc n) es))"

lemma first_expired_less: "first_expired clock n es = Some i \<Longrightarrow> i < length es"
  by (induction es arbitrary: n i) (auto split: if_splits)

function evict :: "int \<Rightarrow> (nat \<Rightarrow> rat) \<Rightarrow> nat \<Rightarrow> ('k, 'v) cache \<Rightarrow> ('k, 'v) cache" where
  "evict bound clock n es =
     (if int (length es) \<le> bound then es
      else case first_expired clock n es of
        Some i \<Rightarrow> evict bound clock (n + i + 1) (take i es @ drop (i + 1) es)
      | None \<Rightarrow> tl es)"
  by auto
termination by (relation "measure (\<lambda>(bound, clock, n, es). length es)") (auto dest: first_expired_less)

declare evict.simps [simp del]

definition cache_put ::
  "int option \<Rightarrow> (nat \<Rightarrow> rat) \<Rightarrow> 'k \<Rightarrow> 'v \<Rightarrow> rat \<Rightarrow> ('k, 'v) cache \<Rightarrow> ('k, 'v) cache" where
  "cache_put bound clock k v ttl es =
     (if ttl \<le> 0 then es
      else let x = (v, clock 0 + ttl);
               stored = (if map_of es k = None then es @ [(k, x)] else map (\<lambda>e. if fst e = k then (k, x) else e) es) in
        case bound of None \<Rightarrow> stored | Some b \<Rightarrow> evict b clock 1 stored)"

definition cache_invalidate :: "'k \<Rightarrow> ('k, 'v) cache \<Rightarrow> ('k, 'v) cache" where
  "cache_invalidate k es = filter (\<lambda>e. fst e \<noteq> k) es"

definition make_cache :: "int option \<Rightarrow> ('k, 'v) cache result" where
  "make_cache bound = raise_if (case bound of None \<Rightarrow> False | Some b \<Rightarrow> b < 1) ValueError (Inr [])"

end
