(* ===== verification/Metadata_Properties.thy ===== *)
theory Metadata_Properties
  imports Metadata_Identify
begin

text \<open>
  What identification guarantees whatever the provider answers: the bound on its requests, and that a match
  is the single best candidate; and what a cache may answer.
\<close>

section \<open>The budget\<close>

text \<open>An action is frugal if every request it makes was taken from the budget.\<close>

definition frugal :: "'a asking \<Rightarrow> bool" where
  "frugal m =
     (\<forall>s r s'. 0 \<le> bu_left s \<longrightarrow> m s = (r, s') \<longrightarrow>
        0 \<le> bu_left s' \<and> bu_left s' + int (length (bu_requests s')) \<le> bu_left s + int (length (bu_requests s)))"

lemma frugal_return [intro, simp]: "frugal (return_tx r)" "frugal (read_tx f)"
  by (simp_all add: frugal_def return_tx_def read_tx_def)

lemma frugal_bind [intro]:
  assumes "frugal m" "\<And>x. frugal (f x)"
  shows "frugal (bind_tx m f)"
  unfolding frugal_def
proof (intro allI impI)
  fix s r s'
  assume s: "0 \<le> bu_left s" and r: "bind_tx m f s = (r, s')"
  obtain v t where m: "m s = (v, t)" by fastforce
  have t: "0 \<le> bu_left t" "bu_left t + int (length (bu_requests t)) \<le> bu_left s + int (length (bu_requests s))"
    using assms(1) s m by (auto simp: frugal_def)
  show "0 \<le> bu_left s' \<and> bu_left s' + int (length (bu_requests s')) \<le> bu_left s + int (length (bu_requests s))"
  proof (cases v)
    case (Inr x)
    with m r have "f x t = (r, s')" by (simp add: bind_tx_def)
    with assms(2) [of x] t show ?thesis unfolding frugal_def by (meson order_trans)
  qed (use m r t in \<open>simp add: bind_tx_def\<close>)
qed

lemma frugal_spend [intro, simp]: "frugal (spend answer q)"
  by (auto simp: frugal_def spend_def bind_tx_def consume_request_def ask_provider_def Let_def split: if_splits)

lemma frugal_details [intro, simp]: "frugal (details pv mt k)"
  by (simp add: details_def)

lemma frugal_fetch [intro, simp]: "frugal (fetch_details pv mt cs)"
  by (induction cs) auto

lemma frugal_verify [intro, simp]: "frugal (verify_episodes pv i parsed)"
  unfolding verify_episodes_def by (auto simp: Let_def intro!: frugal_bind split: option.split)

lemma frugal_catch [intro]: "frugal m \<Longrightarrow> frugal (catch_metadata m h)"
  unfolding frugal_def catch_metadata_def
  by (auto split: prod.splits sum.splits pyerr.splits)

lemma frugal_find [intro, simp]: "frugal (find_match nfkc pv parsed mt policy)"
  unfolding find_match_def enrich_candidates_def Let_def by (intro frugal_bind) (auto intro!: frugal_bind)

lemma frugal_matched [intro, simp]: "frugal (identify_matched pv parsed mt t m fs best)"
  unfolding identify_matched_def by (intro frugal_bind) (auto split: option.split)

lemma frugal_identify: "frugal (identify_media nfkc providers recognized parsed policy override)"
  unfolding identify_media_def
  by (auto simp: Let_def intro!: frugal_bind frugal_catch split: option.split match_status.split)

section \<open>Ranking\<close>

lemma id_key_total: "id_key_le j k \<or> id_key_le k j"
  by (cases j; cases k) (use text_le_total in auto)

lemma id_key_trans: "id_key_le j k \<Longrightarrow> id_key_le k l \<Longrightarrow> id_key_le j l"
  by (cases j; cases k; cases l) (auto intro: text_le_trans)

interpretation candidates: total_preorder score_before
proof
  show "score_before x y \<or> score_before y x" for x y
    using id_key_total [of "snd x" "snd y"] by (auto simp: score_before_def split: prod.split)
  show "score_before x z" if "score_before x y" "score_before y z" for x y z
    using that id_key_trans [of "snd x" "snd y" "snd z"] by (auto simp: score_before_def split: prod.splits)
qed

definition first_of :: "metadata_policy \<Rightarrow> candidate_match \<Rightarrow> bool" where
  "first_of policy m =
     (\<exists>best rest. cm_scores m = best # rest \<and> cm_best m = Some (cs_candidate best) \<and> cm_score m = cs_total best \<and>
        mp_automatic policy \<le> cs_total best \<and> (\<forall>c \<in> set rest. mp_gap policy \<le> cs_total best - cs_total c) \<and>
        (\<forall>mt. expected_media_type policy = Some mt \<longrightarrow> mc_type (cs_candidate best) = mt))"

lemma score_candidate_candidate: "score_candidate nfkc p c = Inr s \<Longrightarrow> cs_candidate s = c"
  by (auto simp: score_candidate_def Let_def guard_simps split: prod.splits)

lemma match_is_first:
  assumes "match_candidates nfkc parsed candidates policy = Inr m" "cm_status m = CandidateMatched"
  shows "first_of policy m"
proof -
  let ?ok = "\<lambda>c. expected_media_type policy = None \<or> expected_media_type policy = Some (mc_type c)"
  let ?cs = "filter ?ok (take (nat (mp_candidates policy)) candidates)"
  let ?key = "\<lambda>s. bind_result (provider_id_key (mc_id (cs_candidate s))) (\<lambda>k. Inr (s, k))"
  have "\<not> (?cs = [] \<or> strip (pr_title parsed) = [])"
    using assms by (auto simp: match_candidates_def Let_def split: if_splits)
  with assms(1) obtain scored keyed where scored: "map_result (score_candidate nfkc parsed) ?cs = Inr scored"
    and keyed: "map_result ?key scored = Inr keyed"
    and m: "(case map fst (sort_by score_before keyed) of [] \<Rightarrow> Inl AssertionError | best # rest \<Rightarrow>
      Inr \<lparr>cm_status = match_status_of policy best rest, cm_best = Some (cs_candidate best),
        cm_score = cs_total best, cm_scores = best # rest\<rparr>) = Inr m"
    unfolding match_candidates_def Let_def by (auto simp: guard_simps)
  from m obtain x xs where s: "sort_by score_before keyed = x # xs"
    by (cases "sort_by score_before keyed") auto
  with m have m: "m = \<lparr>cm_status = match_status_of policy (fst x) (map fst xs), cm_best = Some (cs_candidate (fst x)),
      cm_score = cs_total (fst x), cm_scores = fst x # map fst xs\<rparr>" by simp
  have sorted: "sorted_wrt score_before (x # xs)" using candidates.sorted_sort_by [of keyed] by (simp add: s)
  have gap: "mp_gap policy \<le> cs_total (fst x) - cs_total (fst y)" if "y \<in> set xs" for y
  proof -
    obtain z zs where xs: "xs = z # zs" using \<open>y \<in> set xs\<close> by (cases xs) auto
    have "mp_gap policy \<le> cs_total (fst x) - cs_total (fst z)"
      using assms(2) by (auto simp: m xs match_status_of_def split: if_splits)
    moreover have "y = z \<or> score_before z y" using that sorted xs by auto
    then have "cs_total (fst y) \<le> cs_total (fst z)" by (auto simp: score_before_def split: prod.splits)
    ultimately show ?thesis by linarith
  qed
  have "x \<in> set keyed" using set_sort_by [of score_before keyed] unfolding s by auto
  with keyed obtain s0 where "s0 \<in> set scored" "?key s0 = Inr x" using map_result_mem by fast
  moreover from this have "fst x = s0" by (auto simp: guard_simps)
  ultimately have "fst x \<in> set scored" by simp
  with scored obtain c where "c \<in> set ?cs" "score_candidate nfkc parsed c = Inr (fst x)" using map_result_mem by fast
  then have "?ok (cs_candidate (fst x))" using score_candidate_candidate by fastforce
  then show ?thesis using assms(2) gap
    by (auto simp: first_of_def m match_status_of_def split: if_splits)
qed

text \<open>What a successful step of an action establishes.\<close>

definition yields :: "('a \<Rightarrow> bool) \<Rightarrow> 'a asking \<Rightarrow> bool" where
  "yields P m = (\<forall>s x s'. m s = (Inr x, s') \<longrightarrow> P x)"

lemma yields_bind: "(\<And>x. yields P (f x)) \<Longrightarrow> yields P (bind_tx m f)"
  by (auto simp: yields_def guard_simps)

lemma yields_bind_if: "yields Q m \<Longrightarrow> (\<And>x. Q x \<Longrightarrow> yields P (f x)) \<Longrightarrow> yields P (bind_tx m f)"
  by (fastforce simp: yields_def guard_simps)

lemma yields_return: "yields P (return_tx r) = (\<forall>x. r = Inr x \<longrightarrow> P x)"
  by (auto simp: yields_def guard_simps)

abbreviation sure :: "metadata_policy \<Rightarrow> candidate_match \<Rightarrow> bool" where
  "sure policy m \<equiv> cm_status m = CandidateMatched \<longrightarrow> first_of policy m"

lemma find_match_first: "yields (\<lambda>(m, fs). sure policy m) (find_match nfkc pv parsed mt policy)"
proof -
  have match: "yields (sure policy) (return_tx (match_candidates nfkc parsed cs policy))" for cs
    by (auto simp: yields_return intro: match_is_first)
  show ?thesis
    unfolding find_match_def
  proof (rule yields_bind, rule yields_bind_if [OF match])
    fix cs m
    assume m: "sure policy m"
    have again: "yields (\<lambda>(m, fs). sure policy m) (bind_tx (enrich_candidates nfkc pv cs parsed mt policy)
        (\<lambda>(cs, fs). bind_tx (return_tx (match_candidates nfkc parsed cs policy)) (\<lambda>m. return_tx (Inr (m, fs)))))"
      by (rule yields_bind) (auto simp: yields_return intro!: yields_bind_if [OF match])
    then show "yields (\<lambda>(m, fs). sure policy m)
       (if cm_status m \<noteq> CandidateMatched \<and> mv_alternative_titles pv \<and> mp_enrichments policy \<noteq> 0
        then bind_tx (enrich_candidates nfkc pv cs parsed mt policy)
          (\<lambda>(cs, fs). bind_tx (return_tx (match_candidates nfkc parsed cs policy)) (\<lambda>m. return_tx (Inr (m, fs))))
        else return_tx (Inr (m, [])))"
      using m by (simp add: yields_return)
  qed
qed

text \<open>The episodes of a matched series are all in the season the provider listed.\<close>

definition listed :: "parsed_media \<Rightarrow> provider_identity \<Rightarrow> bool" where
  "listed parsed i =
     (mi_season i = pr_season parsed \<and>
      (pr_season parsed \<noteq> None \<and> pr_episodes parsed \<noteq> [] \<longrightarrow>
         mi_episodes i = pr_episodes parsed \<and> map ep_number (mi_episode_metadata i) = pr_episodes parsed))"

lemma verify_lists:
  "yields (\<lambda>v. \<forall>j. v = Some j \<longrightarrow> listed parsed j) (verify_episodes pv i parsed)"
proof -
  have found: "map (ep_number \<circ> (\<lambda>n. the (map_of (rev (map (\<lambda>e. (ep_number e, e)) es)) n))) ns = ns"
    if "\<not> list_ex (\<lambda>n. map_of (rev (map (\<lambda>e. (ep_number e, e)) es)) n = None) ns" for es ns
  proof (rule map_idI)
    fix n assume "n \<in> set ns"
    with that obtain e where "map_of (rev (map (\<lambda>e. (ep_number e, e)) es)) n = Some e" by (auto simp: list_ex_iff)
    moreover from map_of_SomeD [OF this] have "ep_number e = n" by auto
    ultimately show "(ep_number \<circ> (\<lambda>n. the (map_of (rev (map (\<lambda>e. (ep_number e, e)) es)) n))) n = n" by simp
  qed
  show ?thesis
    unfolding verify_episodes_def
    by (auto simp: yields_return listed_def Let_def found split: option.split intro!: yields_bind)
qed

definition well_identified :: "parsed_media \<Rightarrow> metadata_policy \<Rightarrow> media_type \<Rightarrow> identification \<Rightarrow> bool" where
  "well_identified parsed policy mt x =
     (id_status x = IdMatched \<longrightarrow>
       (\<exists>m i. id_match x = Some m \<and> id_identity x = Some i \<and> first_of policy m \<and> mi_confidence i = Some (cm_score m) \<and>
          (mt = Tv \<longrightarrow> listed parsed i)))"

lemma matched_well:
  assumes "first_of policy m"
  shows "yields (well_identified parsed policy mt) (identify_matched pv parsed mt t m fs best)"
proof -
  have v: "yields (\<lambda>v. \<forall>j. v = Some j \<longrightarrow> mt = Tv \<longrightarrow> listed parsed j)
      (if mt = Tv then verify_episodes pv i parsed else return_tx (Inr (Some i)))" for i
    using verify_lists [of parsed pv i] by (auto simp: yields_return yields_def)
  show ?thesis
    unfolding identify_matched_def
  proof (rule yields_bind, rule yields_bind_if [OF v])
    fix i v assume "\<forall>j. v = Some j \<longrightarrow> mt = Tv \<longrightarrow> listed parsed j"
    then show "yields (well_identified parsed policy mt) (return_tx (Inr (case v of
         None \<Rightarrow> (unidentified t (pr_title parsed) IdMismatch)\<lparr>id_match := Some m\<rparr>
       | Some i \<Rightarrow> (unidentified t (pr_title parsed) IdMatched)\<lparr>id_match := Some m,
           id_identity := Some (i\<lparr>mi_regional_date := mc_regional_date best, mi_confidence := Some (cm_score m),
             mi_matched_by := Some ''candidate_matcher'', mi_recognition := Some (rt_id t)\<rparr>)\<rparr>)))"
      by (cases v) (simp_all add: yields_return well_identified_def unidentified_def listed_def assms)
  qed
qed

lemma catch_Inr:
  assumes "catch_metadata m h s = (Inr x, s')"
  shows "m s = (Inr x, s') \<or> (\<exists>e. m s = (Inl (MetadataError e), s') \<and> x = h e)"
proof -
  obtain v t where m: "m s = (v, t)" by fastforce
  show ?thesis
  proof (cases v)
    case (Inl e)
    with assms m show ?thesis by (cases e) (auto simp: catch_metadata_def)
  qed (use assms m in \<open>auto simp: catch_metadata_def\<close>)
qed

lemma yields_catch: "yields P m \<Longrightarrow> (\<And>e. P (h e)) \<Longrightarrow> yields P (catch_metadata m h)"
  unfolding yields_def by (auto dest!: catch_Inr)

lemma identify_well:
  "yields (well_identified parsed (effective_policy override policy) (chosen_media_type override parsed policy))
     (identify_media nfkc providers recognized parsed policy override)"
proof (cases recognized)
  case (Some t)
  let ?p = "effective_policy override policy" and ?mt = "chosen_media_type override parsed policy"
  have un: "well_identified parsed ?p ?mt x" if "id_status x \<noteq> IdMatched" for x
    using that by (simp add: well_identified_def)
  have unmatched: "unmatched_status st \<noteq> IdMatched" for st by (cases st) auto
  have decided: "yields (well_identified parsed ?p ?mt) (case (cm_status m, cm_best m) of
         (CandidateMatched, Some best) \<Rightarrow> identify_matched pv parsed ?mt t m fs best
       | _ \<Rightarrow> return_tx (Inr ((unidentified t (pr_title parsed) (unmatched_status (cm_status m)))\<lparr>id_match := Some m\<rparr>)))"
    if "sure ?p m" for pv m fs
    using that unmatched
    by (auto simp: yields_return unidentified_def intro!: un matched_well split: match_status.split option.split)
  have whole: "yields (well_identified parsed ?p ?mt) (catch_metadata
      (bind_tx (find_match nfkc pv parsed ?mt ?p) (\<lambda>(m, fs).
       case (cm_status m, cm_best m) of
         (CandidateMatched, Some best) \<Rightarrow> identify_matched pv parsed ?mt t m fs best
       | _ \<Rightarrow> return_tx (Inr ((unidentified t (pr_title parsed) (unmatched_status (cm_status m)))\<lparr>id_match := Some m\<rparr>))))
      (\<lambda>e. (unidentified t (pr_title parsed) IdProviderError)\<lparr>id_error := Some e\<rparr>))" for pv
  proof (rule yields_catch, rule yields_bind_if [OF find_match_first], goal_cases)
    case (1 x)
    with decided [of "fst x" pv "snd x"] show ?case by (simp add: case_prod_beta)
  qed (simp add: un unidentified_def)
  show ?thesis
    unfolding identify_media_def Some option.case Let_def
    using whole by (auto simp: yields_return unidentified_def intro!: un yields_bind)
qed (simp add: identify_media_def yields_return)

section \<open>Requests\<close>

definition asks :: "(metadata_request \<Rightarrow> bool) \<Rightarrow> 'a asking \<Rightarrow> bool" where
  "asks P m = (\<forall>s r s'. m s = (r, s') \<longrightarrow> (\<exists>qs. bu_requests s' = bu_requests s @ qs \<and> list_all P qs))"

lemma asks_return [simp]: "asks P (return_tx r)" "asks P (read_tx f)"
  by (simp_all add: asks_def return_tx_def read_tx_def)

lemma asks_bind:
  assumes "asks P m" "\<And>x. asks P (f x)"
  shows "asks P (bind_tx m f)"
  unfolding asks_def
proof (intro allI impI)
  fix s r s'
  assume r: "bind_tx m f s = (r, s')"
  obtain v t where m: "m s = (v, t)" by fastforce
  then obtain qs where qs: "bu_requests t = bu_requests s @ qs" "list_all P qs" using assms(1) unfolding asks_def by blast
  show "\<exists>qs. bu_requests s' = bu_requests s @ qs \<and> list_all P qs"
  proof (cases v)
    case (Inr x)
    with m r have "f x t = (r, s')" by (simp add: bind_tx_def)
    with assms(2) [of x] obtain qs' where "bu_requests s' = bu_requests t @ qs'" "list_all P qs'"
      unfolding asks_def by blast
    with qs show ?thesis by auto
  qed (use m r qs in \<open>simp add: bind_tx_def\<close>)
qed

lemma asks_spend: "P q \<Longrightarrow> asks P (spend answer q)"
  by (auto simp: asks_def spend_def bind_tx_def consume_request_def ask_provider_def Let_def split: if_splits)

definition no_search :: "metadata_request \<Rightarrow> bool" where
  "no_search q = (\<forall>mt. q \<noteq> SearchFor mt)"

lemma asks_details [simp]: "asks no_search (details pv mt k)"
  by (simp add: details_def no_search_def asks_spend)

lemma asks_fetch [simp]: "asks no_search (fetch_details pv mt cs)"
  by (induction cs) (auto intro!: asks_bind)

lemma asks_verify [simp]: "asks no_search (verify_episodes pv i parsed)"
  unfolding verify_episodes_def
  by (auto simp: Let_def no_search_def intro!: asks_bind asks_spend split: option.split)

lemma asks_matched [simp]: "asks no_search (identify_matched pv parsed mt t m fs best)"
  unfolding identify_matched_def by (intro asks_bind) (auto split: option.split)

lemma asks_enrich [simp]: "asks no_search (enrich_candidates nfkc pv cs parsed mt policy)"
  unfolding enrich_candidates_def Let_def by (intro asks_bind) auto

text \<open>The history of an identification: at most one search, and it comes first.\<close>

definition searched_first :: "metadata_request list \<Rightarrow> bool" where
  "searched_first h = (h = [] \<or> (\<exists>mt qs. h = SearchFor mt # qs \<and> list_all no_search qs))"

definition starts_with_search :: "'a asking \<Rightarrow> bool" where
  "starts_with_search m = (\<forall>s r s'. bu_requests s = [] \<longrightarrow> m s = (r, s') \<longrightarrow> searched_first (bu_requests s'))"

lemma search_then:
  assumes "\<And>x. asks no_search (f x)"
  shows "starts_with_search (bind_tx (spend answer (SearchFor mt)) f)"
  unfolding starts_with_search_def
proof (intro allI impI)
  fix s r s'
  assume s: "bu_requests s = []" and r: "bind_tx (spend answer (SearchFor mt)) f s = (r, s')"
  obtain v t where m: "spend answer (SearchFor mt) s = (v, t)" by fastforce
  then have t: "bu_requests t = [] \<and> (\<exists>e. v = Inl e) \<or> bu_requests t = [SearchFor mt]"
    using s by (auto simp: spend_def bind_tx_def consume_request_def ask_provider_def Let_def split: if_splits)
  show "searched_first (bu_requests s')"
  proof (cases v)
    case (Inl e)
    with m r t show ?thesis by (auto simp: bind_tx_def searched_first_def)
  next
    case (Inr x)
    with m r have "f x t = (r, s')" by (simp add: bind_tx_def)
    with assms [of x] obtain qs where "bu_requests s' = bu_requests t @ qs" "list_all no_search qs"
      unfolding asks_def by blast
    with t Inr show ?thesis by (auto simp: searched_first_def)
  qed
qed

lemma search_bind:
  assumes "starts_with_search m" "\<And>x. asks no_search (f x)" "\<And>x s s'. m s = (Inr x, s') \<Longrightarrow> bu_requests s' \<noteq> []"
  shows "starts_with_search (bind_tx m f)"
  unfolding starts_with_search_def
proof (intro allI impI)
  fix s r s'
  assume s: "bu_requests s = []" and r: "bind_tx m f s = (r, s')"
  obtain v t where m: "m s = (v, t)" by fastforce
  with assms(1) s have t: "searched_first (bu_requests t)" by (auto simp: starts_with_search_def)
  show "searched_first (bu_requests s')"
  proof (cases v)
    case (Inr x)
    with m r have "f x t = (r, s')" by (simp add: bind_tx_def)
    with assms(2) [of x] obtain qs where "bu_requests s' = bu_requests t @ qs" "list_all no_search qs"
      unfolding asks_def by blast
    with t assms(3) m Inr show ?thesis by (auto simp: searched_first_def)
  qed (use m r t in \<open>simp add: bind_tx_def\<close>)
qed

lemma find_match_searches:
  "starts_with_search (find_match nfkc pv parsed mt policy)"
  "find_match nfkc pv parsed mt policy s = (Inr x, s') \<Longrightarrow> bu_requests s' \<noteq> []"
proof -
  have f: "asks no_search (bind_tx (return_tx (match_candidates nfkc parsed cs policy)) (\<lambda>m.
     if cm_status m \<noteq> CandidateMatched \<and> mv_alternative_titles pv \<and> mp_enrichments policy \<noteq> 0
     then bind_tx (enrich_candidates nfkc pv cs parsed mt policy) (\<lambda>(cs, fs).
       bind_tx (return_tx (match_candidates nfkc parsed cs policy)) (\<lambda>m. return_tx (Inr (m, fs))))
     else return_tx (Inr (m, []))))" for cs
    by (intro asks_bind) (auto intro!: asks_bind)
  show "starts_with_search (find_match nfkc pv parsed mt policy)"
    unfolding find_match_def by (rule search_then) (rule f)
  assume "find_match nfkc pv parsed mt policy s = (Inr x, s')"
  then obtain cs t where t: "spend (mv_search pv) (SearchFor mt) s = (Inr cs, t)"
    and r: "bind_tx (return_tx (match_candidates nfkc parsed cs policy)) (\<lambda>m.
     if cm_status m \<noteq> CandidateMatched \<and> mv_alternative_titles pv \<and> mp_enrichments policy \<noteq> 0
     then bind_tx (enrich_candidates nfkc pv cs parsed mt policy) (\<lambda>(cs, fs).
       bind_tx (return_tx (match_candidates nfkc parsed cs policy)) (\<lambda>m. return_tx (Inr (m, fs))))
     else return_tx (Inr (m, []))) t = (Inr x, s')"
    unfolding find_match_def bind_tx_Inr [where m = "spend _ _"] by blast
  have "bu_requests t \<noteq> []"
    using t by (auto simp: spend_def bind_tx_def consume_request_def ask_provider_def Let_def split: if_splits)
  with f [of cs, unfolded asks_def] r show "bu_requests s' \<noteq> []" by fastforce
qed

lemma identify_searches: "starts_with_search (identify_media nfkc providers recognized parsed policy override)"
proof -
  have done': "starts_with_search (return_tx r)" for r :: "identification result"
    by (simp add: starts_with_search_def return_tx_def searched_first_def)
  have catch: "starts_with_search (catch_metadata m h)" if "starts_with_search m" for m :: "identification asking" and h
    unfolding starts_with_search_def
  proof (intro allI impI)
    fix s r s' assume s: "bu_requests s = []" "catch_metadata m h s = (r, s')"
    obtain v t where m: "m s = (v, t)" by fastforce
    then have "s' = t" using s(2) by (cases v; cases "projl v") (auto simp: catch_metadata_def)
    with that s m show "searched_first (bu_requests s')" by (auto simp: starts_with_search_def)
  qed
  have decided: "asks no_search (case (cm_status m, cm_best m) of
         (CandidateMatched, Some best) \<Rightarrow> identify_matched pv parsed mt t m fs best
       | _ \<Rightarrow> return_tx (Inr (u m)))" for m pv mt t fs u
    by (auto split: match_status.split option.split)
  have step: "starts_with_search (bind_tx (return_tx r) f)" if "\<And>x. starts_with_search (f x)"
    for r and f :: "metadata_provider \<Rightarrow> identification asking"
    using that by (cases r) (auto simp: starts_with_search_def bind_tx_def return_tx_def searched_first_def)
  have "starts_with_search (bind_tx (find_match nfkc pv parsed mt p) (\<lambda>(m, fs).
       case (cm_status m, cm_best m) of
         (CandidateMatched, Some best) \<Rightarrow> identify_matched pv parsed mt t m fs best
       | _ \<Rightarrow> return_tx (Inr (u m))))" for pv mt p t u
    using find_match_searches decided by (intro search_bind) (auto split: prod.split)
  then show ?thesis
    unfolding identify_media_def Let_def by (auto intro!: done' step catch split: option.split)
qed

section \<open>One request\<close>

lemma spend_last:
  assumes "bu_left s = 1" "spend answer q s = (Inr x, s')"
  shows "bu_left s' = 0"
  using assms by (auto simp: spend_def bind_tx_def consume_request_def ask_provider_def Let_def split: if_splits)

lemma spend_none: "bu_left s \<le> 0 \<Longrightarrow> spend answer q s = (Inl (MetadataError ''invalid_request''), s)"
  by (simp add: spend_def bind_tx_def consume_request_def)

lemma enrich_nothing:
  assumes "bu_left s = 0" "enrich_candidates nfkc pv cs parsed mt policy s = (Inr (cs', fs), s')"
  shows "fs = [] \<and> bu_left s' = 0"
proof -
  have n: "nat (min e (max 0 (0 - r))) = 0" if "0 \<le> r" for e r :: int using that by (simp add: min_def)
  from assms show ?thesis
    by (auto simp: enrich_candidates_def Let_def guard_simps n split: if_splits)
qed

lemma find_with_one:
  assumes "bu_left s = 1" "find_match nfkc pv parsed mt policy s = (Inr (m, fs), s')"
  shows "fs = [] \<and> bu_left s' = 0"
  using assms unfolding find_match_def
  by (auto simp: guard_simps split: if_splits dest!: spend_last dest: enrich_nothing)

lemma matched_without_budget:
  assumes "bu_left s = 0"
  shows "identify_matched pv parsed mt t m [] best s = (Inl (MetadataError ''invalid_request''), s)"
  using assms by (simp add: identify_matched_def fetched_identity_def details_def spend_none bind_tx_def)

section \<open>The cache\<close>

datatype ('k, 'v) cache_op = CacheGet rat 'k | CachePut "nat \<Rightarrow> rat" 'k 'v rat | CacheInvalidate 'k

fun cache_step :: "int option \<Rightarrow> ('k, 'v) cache_op \<Rightarrow> ('k, 'v) cache \<Rightarrow> ('k, 'v) cache" where
  "cache_step bound (CacheGet now k) es = snd (cache_get now k es)"
| "cache_step bound (CachePut clock k v ttl) es = cache_put bound clock k v ttl es"
| "cache_step bound (CacheInvalidate k) es = cache_invalidate k es"

definition cache_run :: "int option \<Rightarrow> ('k, 'v) cache_op list \<Rightarrow> ('k, 'v) cache" where
  "cache_run bound ops = foldl (\<lambda>es op. cache_step bound op es) [] ops"

text \<open>What the history says of a key: the value of its last storing put, unless it was invalidated since.\<close>

fun settles :: "'k \<Rightarrow> ('k, 'v) cache_op \<Rightarrow> bool" where
  "settles k (CacheGet now k') = False"
| "settles k (CachePut clock k' v ttl) = (k' = k \<and> 0 < ttl)"
| "settles k (CacheInvalidate k') = (k' = k)"

definition last_put :: "('k, 'v) cache_op list \<Rightarrow> 'k \<Rightarrow> 'v \<Rightarrow> rat \<Rightarrow> bool" where
  "last_put ops k v expires =
     (\<exists>before clock ttl after. ops = before @ CachePut clock k v ttl # after \<and> 0 < ttl \<and>
        expires = clock 0 + ttl \<and> list_all (\<lambda>op. \<not> settles k op) after)"

lemma last_put_new: "0 < ttl \<Longrightarrow> last_put (ops @ [CachePut clock k v ttl]) k v (clock 0 + ttl)"
  unfolding last_put_def by (intro exI [of _ ops] exI [of _ clock] exI [of _ ttl] exI [of _ "[]"]) simp

lemma last_put_snoc:
  assumes "last_put ops k v e" "\<not> settles k op"
  shows "last_put (ops @ [op]) k v e"
proof -
  from assms(1) obtain before clock ttl after where "ops = before @ CachePut clock k v ttl # after" "0 < ttl"
    "e = clock 0 + ttl" "list_all (\<lambda>op. \<not> settles k op) after"
    unfolding last_put_def by blast
  with assms(2) show ?thesis
    unfolding last_put_def
    by (intro exI [of _ before] exI [of _ clock] exI [of _ ttl] exI [of _ "after @ [op]"]) simp
qed

definition cache_ok :: "int option \<Rightarrow> ('k, 'v) cache_op list \<Rightarrow> ('k, 'v) cache \<Rightarrow> bool" where
  "cache_ok bound ops es =
     (distinct (map fst es) \<and> (\<forall>b. bound = Some b \<longrightarrow> int (length es) \<le> b) \<and>
      (\<forall>(k, v, e) \<in> set es. last_put ops k v e))"

lemma distinct_without:
  assumes "distinct (map fst es)" "i < length es"
  shows "distinct (map fst (take i es @ drop (Suc i) es))"
proof -
  have "distinct (map fst (take i es @ es ! i # drop (Suc i) es))" using assms by (simp add: id_take_nth_drop [symmetric])
  then show ?thesis by simp
qed

lemma evict_kept:
  assumes "distinct (map fst es)"
  shows "distinct (map fst (evict b clock n es)) \<and> set (evict b clock n es) \<subseteq> set es \<and>
    (1 \<le> b \<longrightarrow> int (length es) \<le> b + 1 \<longrightarrow> int (length (evict b clock n es)) \<le> b)"
  using assms
proof (induction b clock n es rule: evict.induct)
  case (1 b clock n es)
  show ?case
  proof (cases "int (length es) \<le> b")
    case big: False
    show ?thesis
    proof (cases "first_expired clock n es")
      case None
      with big have "evict b clock n es = tl es" by (simp add: evict.simps [of b clock n es])
      with "1.prems" show ?thesis by (cases es) auto
    next
      case (Some i)
      let ?es = "take i es @ drop (i + 1) es"
      have l: "length ?es = length es - 1" using first_expired_less [OF Some] by simp
      have e: "evict b clock n es = evict b clock (n + i + 1) ?es"
        using big Some by (simp add: evict.simps [of b clock n es])
      have "distinct (map fst ?es)" using distinct_without [OF "1.prems" first_expired_less [OF Some]] by simp
      from "1.IH" [OF big Some this] l show ?thesis unfolding e by (auto dest: in_set_takeD in_set_dropD)
    qed
  qed (simp add: evict.simps [of b clock n es] "1.prems")
qed

lemma put_kept:
  assumes "cache_ok bound ops es" "\<forall>b. bound = Some b \<longrightarrow> 1 \<le> b"
  shows "cache_ok bound (ops @ [CachePut clock k v ttl]) (cache_put bound clock k v ttl es)"
proof (cases "ttl \<le> 0")
  case True
  then show ?thesis using assms(1) by (auto simp: cache_ok_def cache_put_def intro: last_put_snoc)
next
  case False
  let ?x = "(v, clock 0 + ttl)"
  define es' where "es' = (if map_of es k = None then es @ [(k, ?x)] else map (\<lambda>e. if fst e = k then (k, ?x) else e) es)"
  let ?ops = "ops @ [CachePut clock k v ttl]"
  have old: "distinct (map fst es)" "\<forall>b. bound = Some b \<longrightarrow> int (length es) \<le> b"
    "\<And>k v e. (k, v, e) \<in> set es \<Longrightarrow> last_put ops k v e"
    using assms(1) by (auto simp: cache_ok_def)
  have keys: "map fst (map (\<lambda>e. if fst e = k then (k, ?x) else e) es) = map fst es" by (induction es) auto
  have d: "distinct (map fst es')" unfolding es'_def using old(1) keys by (auto simp: map_of_eq_None_iff simp del: map_map)
  have len: "length es' \<le> length es + 1" by (simp add: es'_def)
  have put: "last_put ?ops k' v' e'" if "(k', v', e') \<in> set es'" for k' v' e'
  proof (cases "(k', v', e') = (k, ?x)")
    case True
    then show ?thesis using False by (auto intro: last_put_new)
  next
    case other: False
    with that have "(k', v', e') \<in> set es \<and> k' \<noteq> k"
      unfolding es'_def by (force simp: map_of_eq_None_iff split: if_splits)
    then show ?thesis using old(3) by (auto intro: last_put_snoc)
  qed
  show ?thesis
  proof (cases bound)
    case None
    with False have "cache_put bound clock k v ttl es = es'" by (simp add: cache_put_def Let_def es'_def)
    then show ?thesis using d put None by (auto simp: cache_ok_def)
  next
    case (Some b)
    have c: "cache_put bound clock k v ttl es = evict b clock 1 es'" using False Some by (simp add: cache_put_def Let_def es'_def)
    have "int (length es') \<le> b + 1" using len old(2) Some by auto
    with evict_kept [OF d, of b clock 1] assms(2) Some put show ?thesis unfolding c cache_ok_def by auto
  qed
qed

lemma run_kept:
  assumes "\<forall>b. bound = Some b \<longrightarrow> 1 \<le> b"
  shows "cache_ok bound ops (cache_run bound ops)"
proof (induction ops rule: rev_induct)
  case Nil
  then show ?case using assms by (auto simp: cache_ok_def cache_run_def)
next
  case (snoc op ops)
  have run: "cache_run bound (ops @ [op]) = cache_step bound op (cache_run bound ops)" by (simp add: cache_run_def)
  have less: "cache_ok bound (ops @ [op]) es" if "es = filter P (cache_run bound ops)"
    "\<And>e. P e \<Longrightarrow> \<not> settles (fst e) op" for es P
  proof -
    have "int (length es) \<le> b" if "bound = Some b" for b
      unfolding \<open>es = _\<close>
      by (rule order_trans [OF of_nat_mono [OF length_filter_le]]) (use snoc that in \<open>auto simp: cache_ok_def\<close>)
    moreover have "last_put (ops @ [op]) k v e" if "(k, v, e) \<in> set es" for k v e
      using snoc that \<open>es = _\<close> \<open>\<And>e. P e \<Longrightarrow> \<not> settles (fst e) op\<close> [of "(k, v, e)"]
      by (auto simp: cache_ok_def intro!: last_put_snoc)
    ultimately show ?thesis using snoc \<open>es = _\<close> by (auto simp: cache_ok_def distinct_map_filter)
  qed
  show ?case
  proof (cases op)
    case (CachePut clock k v ttl)
    with put_kept [OF snoc assms] show ?thesis by (simp add: run [unfolded CachePut])
  next
    case (CacheInvalidate k)
    show ?thesis by (rule less) (auto simp: run [unfolded CacheInvalidate] CacheInvalidate cache_invalidate_def eq_commute)
  next
    case (CacheGet now k)
    have "cache_run bound (ops @ [op]) = cache_run bound ops \<or>
        cache_run bound (ops @ [op]) = filter (\<lambda>e. fst e \<noteq> k) (cache_run bound ops)"
      by (auto simp: run [unfolded CacheGet] CacheGet cache_get_def split: option.split prod.split)
    then show ?thesis
      using less [of "cache_run bound ops" "\<lambda>_. True"] less [of "filter (\<lambda>e. fst e \<noteq> k) (cache_run bound ops)" "\<lambda>e. fst e \<noteq> k"]
      by (auto simp: CacheGet)
  qed
qed

section \<open>Examples\<close>

definition heat_media :: parsed_media where
  "heat_media = parse_result.extend
     \<lparr>pr_title = ''Heat'', pr_year = Some 1995, pr_season = None, pr_episode = None, pr_episodes = [],
      pr_resolution = None, pr_source = None, pr_video_codec = None, pr_audio = None, pr_hdr = None, pr_version = None,
      pr_release_group = None, pr_titles = [], pr_audio_codec = None, pr_audio_channels = None, pr_hdrs = [],
      pr_versions = [], pr_languages = [], pr_extension = ''.mkv''\<rparr>
     \<lparr>pr_evidence = [\<lparr>pe_field = ''title_candidate'', pe_value = ''heat''\<rparr>]\<rparr>"

definition offered :: "string \<Rightarrow> string \<Rightarrow> int option \<Rightarrow> media_candidate" where
  "offered k title year =
     \<lparr>mc_provider = ''tmdb'', mc_id = k, mc_type = Movie, mc_title = title, mc_original_title = None, mc_year = year,
      mc_alternative_titles = [], mc_translated_titles = [], mc_canonical_date = None, mc_regional_date = None\<rparr>"

definition identity_of :: "string \<Rightarrow> string \<Rightarrow> int option \<Rightarrow> provider_identity" where
  "identity_of k title year = media_identity.extend
     \<lparr>mi_provider = ''tmdb'', mi_provider_id = k, mi_type = Movie, mi_title = title, mi_original_title = None,
      mi_year = year, mi_season = None, mi_episode = None, mi_episodes = [], mi_episode_title = None, mi_genres = [],
      mi_countries = [], mi_languages = [], mi_keywords = [], mi_alternative_titles = [], mi_translated_titles = [],
      mi_overview = None\<rparr>
     \<lparr>mi_canonical_date = None, mi_regional_date = None, mi_confidence = None, mi_matched_by = None,
      mi_recognition = None, mi_episode_metadata = []\<rparr>"

definition film_lookup :: "int \<Rightarrow> metadata_policy" where
  "film_lookup requests =
     \<lparr>mp_id = ''films'', mp_provider = ''tmdb'', mp_media_type = Some Movie, mp_language = None, mp_region = None,
      mp_name = [], mp_query = None, mp_automatic = 90, mp_confirmation = 70, mp_gap = 5, mp_timeout = 10,
      mp_retry = \<lparr>yp_count = 2, yp_base = 1 / 10, yp_max = 2\<rparr>, mp_candidates = 20, mp_pages = 2,
      mp_requests = requests, mp_enrichments = 2, mp_enabled = True\<rparr>"

definition film_provider :: metadata_provider where
  "film_provider =
     \<lparr>mv_id = ''tmdb'', mv_alternative_titles = True,
      mv_search = (\<lambda>h. Inr [offered ''7'' ''Warm'' (Some 1994), offered ''9'' ''Heat'' (Some 1995)]),
      mv_details = (\<lambda>h. Inr (identity_of ''9'' ''Heat'' (Some 1995))),
      mv_season = (\<lambda>h. Inl (MetadataError ''not_found''))\<rparr>"

definition film_kind :: recognition_type where
  "film_kind = \<lparr>rt_id = ''film'', rt_name = ''Film'', rt_description = [], rt_enabled = True, rt_created = 0, rt_updated = 0\<rparr>"

definition identify_film :: "int \<Rightarrow> identification result \<times> budget" where
  "identify_film requests =
     identify (\<lambda>s. s) [''tmdb'' \<mapsto> film_provider] (Some film_kind) heat_media (film_lookup requests) None"

lemma film_is_identified:
  "case identify_film 6 of
     (Inr x, s) \<Rightarrow> id_status x = IdMatched \<and> bu_requests s = [SearchFor Movie, DetailsOf Movie ''9'']
   | _ \<Rightarrow> False"
  by code_simp

lemma film_is_refused:
  "case identify_film 1 of
     (Inr x, s) \<Rightarrow> id_status x = IdProviderError \<and> id_error x = Some ''invalid_request'' | _ \<Rightarrow> False"
  by code_simp

section \<open>Properties\<close>

text \<open>C32: an identification that says matched rests on the single best candidate: its score reaches the automatic
  threshold and leads every other scored candidate by the required gap, it has the media type asked for,
  and of a series with parsed episodes the provider's season listed every one of them, whatever the
  provider answers.
\<close>

theorem match_is_unambiguous:
  assumes "identify nfkc providers recognized parsed policy override = (Inr x, s)" "id_status x = IdMatched"
  shows "\<exists>m i best rest. id_match x = Some m \<and> id_identity x = Some i \<and> cm_scores m = best # rest \<and>
    cm_best m = Some (cs_candidate best) \<and> mi_confidence i = Some (cs_total best) \<and>
    mp_automatic policy \<le> cs_total best \<and> (\<forall>c \<in> set rest. mp_gap policy \<le> cs_total best - cs_total c) \<and>
    (\<forall>mt. expected_media_type (effective_policy override policy) = Some mt \<longrightarrow> mc_type (cs_candidate best) = mt) \<and>
    (chosen_media_type override parsed policy = Tv \<longrightarrow> listed parsed i)"
proof -
  have "well_identified parsed (effective_policy override policy) (chosen_media_type override parsed policy) x"
    using identify_well assms(1) unfolding identify_def yields_def by blast
  then obtain m i where m: "id_match x = Some m" "id_identity x = Some i" "first_of (effective_policy override policy) m"
    "mi_confidence i = Some (cm_score m)" "chosen_media_type override parsed policy = Tv \<longrightarrow> listed parsed i"
    unfolding well_identified_def using assms(2) by blast
  have same: "mp_automatic (effective_policy override policy) = mp_automatic policy"
    "mp_gap (effective_policy override policy) = mp_gap policy"
    by (simp_all add: effective_policy_def split: option.split)
  from m(3) obtain best rest where "cm_scores m = best # rest" "cm_best m = Some (cs_candidate best)"
    "cm_score m = cs_total best" "mp_automatic policy \<le> cs_total best"
    "\<forall>c \<in> set rest. mp_gap policy \<le> cs_total best - cs_total c"
    "\<forall>mt. expected_media_type (effective_policy override policy) = Some mt \<longrightarrow> mc_type (cs_candidate best) = mt"
    unfolding first_of_def same by blast
  with m show ?thesis by (intro exI [of _ m] exI [of _ i] exI [of _ best] exI [of _ rest]) simp
qed

lemma match_is_unambiguous_witness:
  "\<exists>x m best rest. fst (identify_film 6) = Inr x \<and> id_match x = Some m \<and> cm_scores m = best # rest \<and>
     90 \<le> cs_total best \<and> (\<forall>c \<in> set rest. 5 \<le> cs_total best - cs_total c)"
proof -
  obtain x s where x: "identify_film 6 = (Inr x, s)" "id_status x = IdMatched"
    using film_is_identified by (auto split: prod.splits sum.splits)
  from match_is_unambiguous [OF x(1) [unfolded identify_film_def] x(2)] x(1) show ?thesis
    by (auto simp: film_lookup_def)
qed

text \<open>C33: an identification never asks the provider more often than the policy allows, searches at most once and
  first, whatever the provider answers or raises.
\<close>

theorem identification_stays_in_budget:
  assumes "make_metadata_policy given = Inr policy"
    "identify nfkc providers recognized parsed policy override = (r, s)"
  shows "int (length (bu_requests s)) \<le> mp_requests policy \<and> mp_requests policy \<le> 100 \<and>
    searched_first (bu_requests s)"
proof -
  have b: "1 \<le> mp_requests policy" "mp_requests policy \<le> 100"
    using assms(1) by (auto simp: make_metadata_policy_def guard_simps)
  then have "int (length (bu_requests s)) \<le> mp_requests policy"
    using frugal_identify [unfolded frugal_def, rule_format, OF _ assms(2) [unfolded identify_def]] by simp
  moreover have "searched_first (bu_requests s)"
    using identify_searches [unfolded starts_with_search_def, rule_format, OF _ assms(2) [unfolded identify_def]] by simp
  ultimately show ?thesis using b by simp
qed

lemma identification_stays_in_budget_witness:
  "searched_first (bu_requests (snd (identify_film 6)))"
proof -
  obtain x s where x: "identify_film 6 = (x, s)" by fastforce
  have "make_metadata_policy (film_lookup 6) = Inr (film_lookup 6)" by code_simp
  from identification_stays_in_budget [OF this x [unfolded identify_film_def]] x show ?thesis by simp
qed

text \<open>C35: a policy may allow a single request, but then no identification is ever matched: the search spends it,
  and the details of a match are refused as a provider error.
\<close>

theorem one_request_never_matches:
  assumes "mp_requests policy = 1" "identify nfkc providers recognized parsed policy override = (Inr x, s)"
  shows "id_status x \<noteq> IdMatched"
proof -
  let ?b = "\<lparr>bu_left = 1, bu_requests = []\<rparr>"
  have "id_status x \<noteq> IdMatched" if "recognized = Some t" "catch_metadata
      (bind_tx (find_match nfkc pv parsed mt p) (\<lambda>(m, fs).
       case (cm_status m, cm_best m) of
         (CandidateMatched, Some best) \<Rightarrow> identify_matched pv parsed mt t m fs best
       | _ \<Rightarrow> return_tx (Inr ((unidentified t (pr_title parsed) (unmatched_status (cm_status m)))\<lparr>id_match := Some m\<rparr>))))
      (\<lambda>e. (unidentified t (pr_title parsed) IdProviderError)\<lparr>id_error := Some e\<rparr>) ?b = (Inr x, s)" for t pv mt p
    using catch_Inr [OF that(2)]
  proof (elim disjE exE conjE)
    assume "bind_tx (find_match nfkc pv parsed mt p) (\<lambda>(m, fs).
       case (cm_status m, cm_best m) of
         (CandidateMatched, Some best) \<Rightarrow> identify_matched pv parsed mt t m fs best
       | _ \<Rightarrow> return_tx (Inr ((unidentified t (pr_title parsed) (unmatched_status (cm_status m)))\<lparr>id_match := Some m\<rparr>))) ?b
      = (Inr x, s)"
    then obtain m fs s' where f: "find_match nfkc pv parsed mt p ?b = (Inr (m, fs), s')"
      and r: "(case (cm_status m, cm_best m) of
         (CandidateMatched, Some best) \<Rightarrow> identify_matched pv parsed mt t m fs best
       | _ \<Rightarrow> return_tx (Inr ((unidentified t (pr_title parsed) (unmatched_status (cm_status m)))\<lparr>id_match := Some m\<rparr>))) s'
      = (Inr x, s)"
      unfolding bind_tx_Inr [where m = "find_match _ _ _ _ _"] by auto
    from find_with_one [OF _ f] have "fs = []" "bu_left s' = 0" by simp_all
    with r show ?thesis
      by (auto simp: matched_without_budget return_tx_def unidentified_def split: match_status.splits option.splits)
  qed (simp add: unidentified_def)
  then show ?thesis
    using assms unfolding identify_def identify_media_def Let_def
    by (auto simp: unidentified_def guard_simps split: option.splits if_splits)
qed

lemma one_request_never_matches_witness:
  "\<exists>x. fst (identify_film 1) = Inr x \<and> id_status x \<noteq> IdMatched"
proof -
  obtain x s where x: "identify_film 1 = (Inr x, s)"
    using film_is_refused by (auto split: prod.splits sum.splits)
  have "mp_requests (film_lookup 1) = 1" by (simp add: film_lookup_def)
  from one_request_never_matches [OF this x [unfolded identify_film_def]] x show ?thesis by simp
qed

text \<open>C34: a cache answers only with the value its history last stored under the key, not invalidated since and not
  expired now, and never holds more entries than its bound, whatever the clock reads.
\<close>

theorem cache_answers_the_last_put:
  assumes "make_cache bound = Inr start" "cache_get now k (cache_run bound ops) = (Some v, es)"
  shows "(\<exists>expires. last_put ops k v expires \<and> now < expires) \<and>
    (\<forall>b. bound = Some b \<longrightarrow> int (length (cache_run bound ops)) \<le> b)"
proof -
  have "\<forall>b. bound = Some b \<longrightarrow> 1 \<le> b" using assms(1) by (auto simp: make_cache_def guard_simps)
  from run_kept [OF this, of ops] have ok: "cache_ok bound ops (cache_run bound ops)" .
  from assms(2) obtain e where "map_of (cache_run bound ops) k = Some (v, e)" "now < e"
    by (auto simp: cache_get_def split: option.splits prod.splits if_splits)
  with ok show ?thesis by (fastforce simp: cache_ok_def dest: map_of_SomeD)
qed

definition two_puts :: "(string, nat) cache_op list" where
  "two_puts = [CachePut (\<lambda>_. 0) ''a'' 1 10, CachePut (\<lambda>_. 2) ''b'' 2 10]"

lemma cache_answers_the_last_put_witness:
  "\<exists>expires. last_put two_puts ''b'' 2 expires \<and> 5 < expires"
proof -
  have m: "make_cache (Some 1) = Inr ([] :: (string, nat) cache)" by code_simp
  have g: "cache_get 5 ''b'' (cache_run (Some 1) two_puts) = (Some 2, cache_run (Some 1) two_puts)" by code_simp
  show ?thesis using cache_answers_the_last_put [OF m g] by blast
qed

end
