(* ===== verification/Spec2Isabelle.thy ===== *)
theory Spec2Isabelle
  imports Kernel_Properties Run_Properties Admission_Properties Control_Properties
 Model_Properties Paging_Properties Refinement_Properties Transfer_Properties Cron_Properties
 Automation_Properties Organize_Properties Execution_Properties Direct_Properties Metadata_Properties
begin

text \<open>
  MediaFlow organizes media files under durable Tasks. This development verifies its Task scheduling
  kernel (who may run a Task, how the Task's items and Storage mutations are published, how an
  operator's pause and cancel take effect) and the durable authority of direct Files transfers with
  the locks on source paths, over one SQLite database that Workers and web processes share; the
  schedules, definitions and remote tickets that bring Tasks to that kernel; and the decisions an
  organizing Task takes for one file, from recognition and identification to the execution of its plan on
  storages.

  \<^bold>\<open>Parts.\<close> \<open>domain/task_persistence.py\<close> and \<open>domain/task_scheduling.py\<close> are the data model
  (\<open>Task_Model\<close>, \<open>Scheduling_Model\<close>), \<open>domain/manual_safety.py\<close> the redaction of what is stored or
  shown (\<open>Regex\<close>, \<open>Redaction\<close>). \<open>infrastructure/sqlite_runtime.py\<close> holds the transactions:
  the tables they share (\<open>Kernel_Store\<close>), the guards (\<open>Kernel_Guards\<close>), admission and claims
  (\<open>Kernel_Claim\<close>), control, release and re-entry (\<open>Kernel_Control\<close>), items, mutation boundary and
  outcomes (\<open>Kernel_Items\<close>), and the evidence of a first execution stage (\<open>Stage_Evidence\<close>).
  \<open>application/task_scheduling.py\<close> is the service the entrances call (\<open>Scheduling_Service\<close>).
  Beside the kernel, a direct Files transfer has a claimable row of its own (\<open>Transfer_Claims\<close>), is
  admitted with its Task and published under its claim token (\<open>Transfer_Publication\<close>), and both
  kinds of work exclude each other by locks on normalized source paths (\<open>File_Locks\<close>). Schedules
  fire by cron expressions (\<open>domain/cron.py\<close>: \<open>Cron\<close>, over the dates and wall times of
  \<open>Calendar\<close>).

  \<open>domain/automation.py\<close> and \<open>application/automation.py\<close> are \<open>Automation_Model\<close>, \<open>Automation_Store\<close>
  (the transactions on schedules, due states, occurrences and tickets, which admit a kernel Task in the
  same transaction) and \<open>Automation_Tick\<close> (one whole pass of the scheduler);
  \<open>application/execution_authorization.py\<close> is \<open>Execution_Tickets\<close>.

  A file that is organized passes through recognition (\<open>Recognition\<close>: conditions, engine, type policies),
  classification (\<open>Classification\<close>) and naming (\<open>Naming_Template\<close>, \<open>Naming\<close>), whose results are
  composed to a destination under a library root (\<open>Destination\<close>, over the model of \<open>posixpath\<close> in
  \<open>Posix_Paths\<close>), planned, extended by attachments and moved aside on a conflict (\<open>Organize_Plan\<close>).
  The values they hand on are in \<open>Media_Model\<close>. Between recognition and naming, \<open>application/metadata.py\<close> asks a
  metadata provider which medium the file is: the scores and the decision are \<open>Metadata_Match\<close> (over Python's
  \<open>difflib\<close> in \<open>Sequence_Match\<close>), the identification under its request budget and the cache \<open>Metadata_Identify\<close>. Reads are retried by \<open>Workflow_Retry\<close>.
  \<open>OrganizerExecutor.execute\<close> of \<open>application/organizer.py\<close> is \<open>Organize_Execution\<close>: the checks, the primary change
  and its verification, the rollback of what it recorded, the attachments and the cleanup of the source, over
  the storages of \<open>Storage_Trace\<close> and the file name patterns of \<open>Glob\<close>. The direct Files commands of the same
  executor, one confirmed change on exact paths each, are \<open>Direct_Commands\<close>.

  \<^bold>\<open>State.\<close> A table is a list of rows with a primary key (\<open>Tables\<close>), a database the record \<open>db\<close> of the
  tables the kernel reads or writes. One \<open>BEGIN IMMEDIATE\<close> transaction is a function
  \<open>db \<Rightarrow> pyerr + ('a \<times> db)\<close>: an exception rolls everything back. What runs several transactions is a
  \<open>tx\<close>, which keeps what was committed before it raised. SQLite serialises transactions, so the
  interleavings of all processes are the sequences of transactions: \<open>kernel_run\<close> in
  \<open>Kernel_Machine\<close>. Clocks, random identities and configured capacities are arguments of each step, so
  the theorems over runs hold for any clock, whichever caller takes which step.

  An execution is an action (\<open>act\<close>): it reads and extends a history of events (what was seen, what was asked for
  and how it ended, which authority was given) and keeps the lists the executor fills, which survive an
  exception. A storage, the hook that grants changes, and a metadata provider, answer as functions of the whole history
  (\<open>world\<close>), so the theorems hold for storages that fail at any moment, change between two questions, or lie.

  \<^bold>\<open>Lemma groups.\<close> \<open>Kernel_Rows\<close> states the abstract lifecycle of one scheduling row
  (\<open>row_step\<close>) with its invariants, \<open>Kernel_Refine\<close> that every transaction follows it,
  \<open>Kernel_Machine\<close> and \<open>Kernel_Invariants\<close> what every reachable database satisfies (\<open>db_ok\<close>), with the
  interface \<open>fenced_resource\<close> of a claimed resource interpreted on the claims. \<open>Kernel_Items_Kept\<close>
  is the fate of items. \<open>Transfer_Machine\<close> states the lifecycle of one transfer row
  (\<open>transfer_step\<close>), the interface \<open>token_claim\<close> of anything held under a token, interpreted on
  transfers and on the kernel's rows, and that every transfer transaction follows the lifecycle;
  \<open>Transfer_System\<close> joins both components to one machine (\<open>system_run\<close>) and shows what each
  leaves of the other's rows and locks. \<open>Cron_Properties\<close> has the laws of a wall clock and the scan. \<open>Automation_Machine\<close> shows that
  everything automation does to the kernel inside its database is a run of kernel operations
  (\<open>automation_run\<close>), so the theorems on kernel runs hold beside it, and \<open>Automation_Invariants\<close> what its
  own rows keep. \<open>Naming_Facts\<close>, \<open>Organize_Facts\<close> and \<open>Recognition_Facts\<close> show what a component, a plan and a
  ranking are; the interface \<open>total_preorder\<close> of a sort key, with its lemmas on stable sorting, is interpreted
  on the keys of the rules and on the rankings. \<open>Action_Rules\<close> has the weakest preconditions of actions and the
  discipline of changes under grants (\<open>steady\<close>), \<open>Execution_Facts\<close> that every function of the
  executor follows it and which effects it records, \<open>Execution_Footprint\<close> which changes a plan may make, \<open>Execution_Certainty\<close> and
  \<open>Execution_Outcome\<close> what the certainty of a result is worth, \<open>Execution_Results\<close> the shape of results,
  \<open>Execution_Deletion\<close> what precedes a deletion. For the direct commands, \<open>Direct_Facts\<close> shows which of them follow
  that discipline (all but the move to another storage, whose write is not asked for), \<open>Direct_Outcome\<close> the
  events around their changes and what their results claim. \<open>Metadata_Properties\<close> follows the requests of an
  identification, the ranking behind a match and the history of a cache. \<open>Kernel_Examples\<close> runs one concrete Task from admission to settlement, \<open>Automation_Examples\<close>, \<open>Organize_Examples\<close> and \<open>Execution_Examples\<close> a scheduler, one film and its execution; each
  property is applied to them. The theories \<open>*_Properties\<close> state the properties.

  \<^bold>\<open>Reading choices.\<close> Strings are lists of code points below 256, with Python's whitespace and digit classes
  there. An instant is an integer number of microseconds in UTC; a naive datetime is a value the
  guards refuse. Ids that SQL compares as text are compared as text. JSON columns that the kernel
  decodes keep the outcomes a decoder has (null, list, other, undecodable). Foreign keys are not
  enforced by the program's connections and do not appear. The two questions an ownership start asks of
  other tables (who owns this source, what was its last formal outcome) are function arguments; every
  property holds whatever they answer. A timezone is two functions, the wall time of an instant and
  the instant of a wall time, under the laws of the locale \<open>wall_clock\<close>, which UTC satisfies. Functions of
  libraries that are arguments: Unicode normalization (\<open>nfc\<close>, \<open>nfkc\<close>) and the ellipsis character (\<open>dots\<close>),
  SHA-256 (\<open>digest\<close>, \<open>e_fingerprint\<close>), the text of an instant in evidence (\<open>stamp\<close>), SQLite's \<open>julianday\<close>, the pattern engine and \<open>repr\<close> of
  conditions (\<open>text_env\<close>), and the answer \<open>exists\<close> of a storage. Floating-point scores, delays and intervals are
  rationals. The retry loop is a \<open>partial_function\<close> (its wait may not end for a slice of zero), and
  \<open>retry_always_ends\<close> shows that it does for a positive one. No other
  definition needs fuel: every loop is over a finite list or range (the cron scan over the program's
  own 2928 days, which \<open>cron_window_suffices\<close> shows to be enough), and the regular expression
  matcher and the sequence matcher recurse on the text left to read or to compare.

  \<^bold>\<open>Not modelled.\<close> Post-commit observers (they cannot change the database), the JSON document of a
  discovery beyond the columns the kernel writes, \<open>request_scheduled_discovery_control\<close>, the registry of
  processing workers, the parsing of definition documents; of the executor
  logging, durations and the wording shown beside attachments; attachment discovery
  and confirmations; and the
  parts of the program outside those above: media discovery, file name parsing, the metadata provider's client, the
  planning of batches of direct file transfers and their records, manual organize, recovery, configuration,
  Storage adapters, interfaces and maintenance tools.
\<close>

end
